(* ===== verification/Prelude.thy ===== *)
theory Prelude
  imports Main "HOL-Library.AList"
begin

text \<open>
  Shared base of the development: the fragment of Python that the modelled modules use
  (string normalisation, the truthiness of \<open>or\<close>, insertion-ordered dictionaries), a monad of
  state with exceptions together with its weakest-precondition rules, and the two interface
  locales every stateful component is an instance of.

  A Python \<open>str\<close> is a \<open>string\<close> whose characters are the code points below 256. \<open>py_strip\<close> and
  \<open>py_lower\<close> are \<open>str.strip()\<close> and \<open>str.lower()\<close> on those code points. A Python \<open>dict\<close> is an
  association list in insertion order: \<open>AList.update\<close> overwrites in place and appends a new
  key at the end, as \<open>d[k] = v\<close> does.
\<close>

section \<open>Python strings\<close>

definition py_is_space :: "char \<Rightarrow> bool" where
  "py_is_space c = (let n = of_char c :: nat in
     (9 \<le> n \<and> n \<le> 13) \<or> (28 \<le> n \<and> n \<le> 32) \<or> n = 133 \<or> n = 160)"

definition py_lower_char :: "char \<Rightarrow> char" where
  "py_lower_char c = (let n = of_char c :: nat in
     if (65 \<le> n \<and> n \<le> 90) \<or> (192 \<le> n \<and> n \<le> 222 \<and> n \<noteq> 215) then char_of (n + 32) else c)"

definition py_strip :: "string \<Rightarrow> string" where
  "py_strip s = rev (dropWhile py_is_space (rev (dropWhile py_is_space s)))"

definition py_lower :: "string \<Rightarrow> string" where
  "py_lower s = map py_lower_char s"

text \<open>\<open>str(x or "").strip().lower()\<close>: the normal form the consensus types keep hashes in.\<close>

definition norm_hash :: "string \<Rightarrow> string" where
  "norm_hash s = py_lower (py_strip s)"

text \<open>\<open>a or b\<close> on strings: the first operand unless it is empty.\<close>

definition str_or :: "string \<Rightarrow> string \<Rightarrow> string" where
  "str_or a b = (if a = [] then b else a)"

text \<open>\<open>s.replace("0x", "")\<close>.\<close>

fun remove_0x :: "string \<Rightarrow> string" where
  "remove_0x [] = []"
| "remove_0x [c] = [c]"
| "remove_0x (c # d # cs) =
     (if c = CHR ''0'' \<and> d = CHR ''x'' then remove_0x cs else c # remove_0x (d # cs))"

text \<open>\<open>repr(s)\<close>, which the error messages quote their arguments with.\<close>

definition hex_digit :: "nat \<Rightarrow> char" where
  "hex_digit n = (if n < 10 then char_of (48 + n) else char_of (87 + n))"

definition py_repr_char :: "char \<Rightarrow> char \<Rightarrow> string" where
  "py_repr_char q c = (let n = of_char c :: nat; bs = char_of (92::nat) in
     if c = q \<or> c = bs then [bs, c]
     else if n = 10 then [bs, CHR ''n''] else if n = 13 then [bs, CHR ''r'']
     else if n = 9 then [bs, CHR ''t'']
     else if n < 32 \<or> (127 \<le> n \<and> n < 161) \<or> n = 173
       then [bs, CHR ''x'', hex_digit (n div 16), hex_digit (n mod 16)]
     else [c])"

definition py_repr :: "string \<Rightarrow> string" where
  "py_repr s = (let sq = char_of (39::nat); dq = char_of (34::nat);
                    q = (if sq \<in> set s \<and> dq \<notin> set s then dq else sq)
                in [q] @ concat (map (py_repr_char q) s) @ [q])"

text \<open>\<open>str(n)\<close> of an integer.\<close>

fun nat_digits :: "nat \<Rightarrow> string" where
  "nat_digits n = (if n < 10 then [char_of (48 + n)] else nat_digits (n div 10) @ [char_of (48 + n mod 10)])"

declare nat_digits.simps [simp del]

definition py_str_int :: "int \<Rightarrow> string" where
  "py_str_int i = (if i < 0 then ''-'' @ nat_digits (nat (- i)) else nat_digits (nat i))"

lemma of_char_lower:
  "(of_char (py_lower_char c) :: nat) =
     (let n = of_char c in
      if (65 \<le> n \<and> n \<le> 90) \<or> (192 \<le> n \<and> n \<le> 222 \<and> n \<noteq> 215) then n + 32 else n)"
proof -
  have "of_char c < (256::nat)" by (rule nat_of_char_less_256)
  then show ?thesis by (auto simp: py_lower_char_def Let_def)
qed

lemma py_lower_char_idem [simp]: "py_lower_char (py_lower_char c) = py_lower_char c"
proof -
  have "(of_char (py_lower_char (py_lower_char c)) :: nat) = of_char (py_lower_char c)"
    unfolding of_char_lower Let_def by auto
  then show ?thesis by simp
qed

lemma py_is_space_lower [simp]: "py_is_space (py_lower_char c) = py_is_space c"
  unfolding py_is_space_def of_char_lower Let_def by auto

lemma py_lower_idem [simp]: "py_lower (py_lower s) = py_lower s"
  by (simp add: py_lower_def)

lemma length_py_lower [simp]: "length (py_lower s) = length s"
  by (simp add: py_lower_def)

lemma py_lower_Nil_iff [simp]: "py_lower s = [] \<longleftrightarrow> s = []"
  by (simp add: py_lower_def)

lemma py_lower_Nil [simp]: "py_lower [] = []"
  by (simp add: py_lower_def)

lemma py_strip_Nil [simp]: "py_strip [] = []"
  by (simp add: py_strip_def)

lemma dropWhile_map_space:
  "dropWhile py_is_space (map py_lower_char s) = map py_lower_char (dropWhile py_is_space s)"
  by (induction s) auto

lemma py_strip_lower: "py_strip (py_lower s) = py_lower (py_strip s)"
  by (simp add: py_strip_def py_lower_def rev_map dropWhile_map_space)

text \<open>Stripping is idempotent: after one pass neither end is white space.\<close>

lemma dropWhile_rev_dropWhile:
  "dropWhile P (rev (dropWhile P (rev (dropWhile P s)))) = rev (dropWhile P (rev (dropWhile P s)))"
proof (cases "dropWhile P s")
  case Nil
  then show ?thesis by (simp only: rev.simps dropWhile.simps)
next
  case (Cons x t)
  then have x: "\<not> P x" by (metis hd_dropWhile list.distinct(1) list.sel(1))
  obtain u where "dropWhile P (rev t @ [x]) = u @ [x]"
  proof (cases "\<forall>y\<in>set (rev t). P y")
    case True
    then have "dropWhile P (rev t @ [x]) = dropWhile P [x]" by (subst dropWhile_append2) auto
    with x that [of "[]"] show thesis by simp
  next
    case False
    then obtain y where "y \<in> set (rev t)" "\<not> P y" by blast
    then have "dropWhile P (rev t @ [x]) = dropWhile P (rev t) @ [x]"
      by (rule dropWhile_append1)
    with that show thesis by blast
  qed
  with Cons x show ?thesis by simp
qed

lemma dropWhile_none: "\<forall>c\<in>set s. \<not> P c \<Longrightarrow> dropWhile P s = s"
  by (cases s) auto

lemma py_strip_no_space: "\<forall>c\<in>set s. \<not> py_is_space c \<Longrightarrow> py_strip s = s"
  by (simp add: py_strip_def dropWhile_none)

lemma py_strip_idem [simp]: "py_strip (py_strip s) = py_strip s"
  by (simp add: py_strip_def dropWhile_rev_dropWhile)

lemma norm_hash_idem [simp]: "norm_hash (norm_hash s) = norm_hash s"
  by (simp add: norm_hash_def py_strip_lower)

lemma py_lower_norm_hash [simp]: "py_lower (norm_hash s) = norm_hash s"
  by (simp add: norm_hash_def)

lemma py_strip_norm_hash [simp]: "py_strip (norm_hash s) = norm_hash s"
  by (simp add: norm_hash_def py_strip_lower)

lemma norm_hash_Nil [simp]: "norm_hash [] = []"
  by (simp add: norm_hash_def)

section \<open>Dictionaries in insertion order\<close>

abbreviation dget :: "('k \<times> 'v) list \<Rightarrow> 'k \<Rightarrow> 'v option" where
  "dget \<equiv> map_of"

abbreviation dset :: "'k \<Rightarrow> 'v \<Rightarrow> ('k \<times> 'v) list \<Rightarrow> ('k \<times> 'v) list" where
  "dset \<equiv> AList.update"

text \<open>\<open>d.get(k, default)\<close>.\<close>

definition dget_or :: "('k \<times> 'v) list \<Rightarrow> 'k \<Rightarrow> 'v \<Rightarrow> 'v" where
  "dget_or d k v = (case dget d k of None \<Rightarrow> v | Some x \<Rightarrow> x)"

lemma dget_dset [simp]: "dget (dset k v d) k' = (if k = k' then Some v else dget d k')"
  by (simp add: update_conv)

lemma dget_or_dset [simp]: "dget_or (dset k v d) k' x = (if k = k' then v else dget_or d k' x)"
  by (simp add: dget_or_def)

lemma dset_new: "k \<notin> fst ` set d \<Longrightarrow> dset k v d = d @ [(k, v)]"
  by (induction d) auto

lemma dget_filter_key:
  "dget (filter (\<lambda>(k, v). P k) d) k = (if P k then dget d k else None)"
  by (induction d) auto

lemma dset_distinct [simp]: "distinct (map fst d) \<Longrightarrow> distinct (map fst (dset k v d))"
  by (rule distinct_update)

lemma set_dset_subset: "set (dset k v d) \<subseteq> insert (k, v) (set d)"
  by (induction d) auto

section \<open>State with exceptions\<close>

text \<open>
  A handler that mutates a state and may raise is a function from the state to a result and
  the state at the moment it returned or raised, so the effects before a \<open>raise\<close> are kept.
\<close>

type_synonym ('s, 'e, 'a) exs = "'s \<Rightarrow> ('e + 'a) \<times> 's"

definition returnM :: "'a \<Rightarrow> ('s, 'e, 'a) exs" where
  "returnM a = (\<lambda>s. (Inr a, s))"

definition raiseM :: "'e \<Rightarrow> ('s, 'e, 'a) exs" where
  "raiseM e = (\<lambda>s. (Inl e, s))"

definition bindM :: "('s, 'e, 'a) exs \<Rightarrow> ('a \<Rightarrow> ('s, 'e, 'b) exs) \<Rightarrow> ('s, 'e, 'b) exs" where
  "bindM m f = (\<lambda>s. case m s of (Inl e, s') \<Rightarrow> (Inl e, s') | (Inr a, s') \<Rightarrow> f a s')"

definition catchM :: "('s, 'e, 'a) exs \<Rightarrow> ('e \<Rightarrow> ('s, 'e2, 'a) exs) \<Rightarrow> ('s, 'e2, 'a) exs" where
  "catchM m h = (\<lambda>s. case m s of (Inl e, s') \<Rightarrow> h e s' | (Inr a, s') \<Rightarrow> (Inr a, s'))"

text \<open>Reading the state, and changing it.\<close>

definition getM :: "('s \<Rightarrow> 'a) \<Rightarrow> ('s, 'e, 'a) exs" where
  "getM f = (\<lambda>s. (Inr (f s), s))"

definition modM :: "('s \<Rightarrow> 's) \<Rightarrow> ('s, 'e, unit) exs" where
  "modM f = (\<lambda>s. (Inr (), f s))"

text \<open>A call that returns a value and changes the state, as a total function gives it.\<close>

definition callM :: "('s \<Rightarrow> 'a \<times> 's) \<Rightarrow> ('s, 'e, 'a) exs" where
  "callM f = (\<lambda>s. (Inr (fst (f s)), snd (f s)))"

text \<open>
  \<open>wpM m Q E s\<close>: run from \<open>s\<close>, \<open>m\<close> either returns a value with \<open>Q\<close> or raises with \<open>E\<close>.
\<close>

definition wpM :: "('s, 'e, 'a) exs \<Rightarrow> ('a \<Rightarrow> 's \<Rightarrow> bool) \<Rightarrow> ('e \<Rightarrow> 's \<Rightarrow> bool) \<Rightarrow> 's \<Rightarrow> bool" where
  "wpM m Q E s = (case m s of (Inl e, s') \<Rightarrow> E e s' | (Inr a, s') \<Rightarrow> Q a s')"

named_theorems wp_rules

lemma wp_return [wp_rules]: "wpM (returnM a) Q E = Q a"
  by (rule ext) (simp add: wpM_def returnM_def)

lemma wp_raise [wp_rules]: "wpM (raiseM e) Q E = E e"
  by (rule ext) (simp add: wpM_def raiseM_def)

lemma wp_bind [wp_rules]: "wpM (bindM m f) Q E = wpM m (\<lambda>a. wpM (f a) Q E) E"
  by (rule ext) (auto simp: wpM_def bindM_def split: prod.splits sum.splits)

lemma wp_catch [wp_rules]: "wpM (catchM m h) Q E = wpM m Q (\<lambda>e. wpM (h e) Q E)"
  by (rule ext) (auto simp: wpM_def catchM_def split: prod.splits sum.splits)

lemma wp_get [wp_rules]: "wpM (getM f) Q E = (\<lambda>s. Q (f s) s)"
  by (rule ext) (simp add: wpM_def getM_def)

lemma wp_mod [wp_rules]: "wpM (modM f) Q E = (\<lambda>s. Q () (f s))"
  by (rule ext) (simp add: wpM_def modM_def)

lemma wp_call [wp_rules]: "wpM (callM f) Q E = (\<lambda>s. Q (fst (f s)) (snd (f s)))"
  by (rule ext) (simp add: wpM_def callM_def)

lemma wp_if [wp_rules]:
  "wpM (if b then m else m') Q E = (\<lambda>s. if b then wpM m Q E s else wpM m' Q E s)"
  by (rule ext) simp

lemma wp_mono:
  assumes "wpM m Q E s"
    and "\<And>a t. Q a t \<Longrightarrow> Q' a t" and "\<And>e t. E e t \<Longrightarrow> E' e t"
  shows "wpM m Q' E' s"
  using assms by (auto simp: wpM_def split: prod.splits sum.splits)

lemma wp_conj:
  "wpM m Q E s \<Longrightarrow> wpM m Q' E' s \<Longrightarrow> wpM m (\<lambda>a t. Q a t \<and> Q' a t) (\<lambda>e t. E e t \<and> E' e t) s"
  by (auto simp: wpM_def split: prod.splits sum.splits)

lemma wp_returnsD: "wpM m Q E s \<Longrightarrow> m s = (Inr a, t) \<Longrightarrow> Q a t"
  by (simp add: wpM_def)

lemma wp_raisesD: "wpM m Q E s \<Longrightarrow> m s = (Inl e, t) \<Longrightarrow> E e t"
  by (simp add: wpM_def)

lemma wp_stateD: "wpM m (\<lambda>_. P) (\<lambda>_. P) s \<Longrightarrow> P (snd (m s))"
  by (auto simp: wpM_def split: prod.splits sum.splits)

lemma wp_stateI: "P (snd (m s)) \<Longrightarrow> wpM m (\<lambda>_. P) (\<lambda>_. P) s"
  by (auto simp: wpM_def split: prod.splits sum.splits)

text \<open>
  An invariant of a handler: kept when it returns, weakened to another predicate when it raises. The rules follow
  the structure of the handler.
\<close>

definition keeps :: "('s \<Rightarrow> bool) \<Rightarrow> ('s \<Rightarrow> bool) \<Rightarrow> ('s, 'e, 'a) exs \<Rightarrow> bool" where
  "keeps J E m \<longleftrightarrow> (\<forall>s. J s \<longrightarrow> wpM m (\<lambda>_. J) (\<lambda>_. E) s)"

named_theorems keeps_rules

lemma keepsD: "keeps J E m \<Longrightarrow> J s \<Longrightarrow> wpM m (\<lambda>_. J) (\<lambda>_. E) s"
  by (simp add: keeps_def)

lemma keeps_bind [keeps_rules]: "keeps J E m \<Longrightarrow> (\<And>a. keeps J E (f a)) \<Longrightarrow> keeps J E (bindM m f)"
  unfolding keeps_def wp_bind by (auto elim!: wp_mono)

lemma keeps_simple [keeps_rules]: "keeps J E (returnM a)" "keeps J E (getM f)"
  by (simp_all add: keeps_def wp_rules)

lemma keeps_mod: "(\<And>s. J s \<Longrightarrow> J (f s)) \<Longrightarrow> keeps J E (modM f)"
  by (simp add: keeps_def wp_rules)

lemma keeps_if [keeps_rules]:
  "(b \<Longrightarrow> keeps J E m) \<Longrightarrow> (\<not> b \<Longrightarrow> keeps J E m') \<Longrightarrow> keeps J E (if b then m else m')"
  by simp

lemma keeps_option [keeps_rules]:
  "keeps J E n \<Longrightarrow> (\<And>a. x = Some a \<Longrightarrow> keeps J E (f a)) \<Longrightarrow> keeps J E (case x of None \<Rightarrow> n | Some a \<Rightarrow> f a)"
  by (cases x) simp_all

lemma keeps_let [keeps_rules]: "(\<And>x. x = v \<Longrightarrow> keeps J E (f x)) \<Longrightarrow> keeps J E (let x = v in f x)"
  by simp

lemmas exs_defs = returnM_def raiseM_def bindM_def catchM_def getM_def modM_def callM_def

section \<open>The interface of a stateful component\<close>

text \<open>
  A component is a state, events that step it and an invariant that every step keeps. A client
  that runs any sequence of events may rely on the invariant (\<open>run_keeps\<close>); a component that also
  promises never to move a rank backwards (a finalized height, a lockdown counter) gives
  \<open>run_mono\<close>.
\<close>

locale component =
  fixes step :: "'s \<Rightarrow> 'e \<Rightarrow> 's" and invar :: "'s \<Rightarrow> bool"
  assumes step_keeps: "invar s \<Longrightarrow> invar (step s e)"
begin

lemma run_keeps: "invar s \<Longrightarrow> invar (foldl step s es)"
  by (induction es arbitrary: s) (auto simp: step_keeps)

lemma run_keeps_prefix: "invar s \<Longrightarrow> invar (foldl step s (take n es))"
  by (rule run_keeps)

end

locale ranked_component = component step invar
  for step :: "'s \<Rightarrow> 'e \<Rightarrow> 's" and invar :: "'s \<Rightarrow> bool" +
  fixes rank :: "'s \<Rightarrow> 'r::preorder"
  assumes step_mono: "invar s \<Longrightarrow> rank s \<le> rank (step s e)"
begin

lemma run_mono: "invar s \<Longrightarrow> rank s \<le> rank (foldl step s es)"
proof (induction es arbitrary: s)
  case Nil
  show ?case by simp
next
  case (Cons e es)
  have "rank s \<le> rank (step s e)" using Cons.prems by (rule step_mono)
  also have "\<dots> \<le> rank (foldl step (step s e) es)"
    using Cons.prems by (intro Cons.IH step_keeps)
  finally show ?case by simp
qed

lemma run_mono_prefix:
  assumes "invar s" and "i \<le> j"
  shows "rank (foldl step s (take i es)) \<le> rank (foldl step s (take j es))"
proof -
  have "take j es = take i es @ drop i (take j es)"
    using assms(2) by (metis append_take_drop_id min.absorb1 take_take)
  then show ?thesis using run_mono [OF run_keeps [OF assms(1)]] by (metis foldl_append)
qed

end

section \<open>The interface of a codec\<close>

text \<open>
  A prefix codec reads one value off the front of its input and leaves the rest. The law for one
  value gives injectivity of the encoding, unique decoding of a concatenation, and that no
  encoding is a proper prefix of another.
\<close>

locale prefix_codec =
  fixes enc :: "'a \<Rightarrow> 'b list" and dec :: "'b list \<Rightarrow> ('a \<times> 'b list) option"
    and valid :: "'a \<Rightarrow> bool"
  assumes dec_enc: "valid x \<Longrightarrow> dec (enc x @ rest) = Some (x, rest)"
begin

lemma enc_inj: "valid x \<Longrightarrow> valid y \<Longrightarrow> enc x = enc y \<Longrightarrow> x = y"
  using dec_enc [of x "[]"] dec_enc [of y "[]"] by simp

lemma enc_append_inj:
  assumes "valid x" and "valid y" and "enc x @ r = enc y @ r'"
  shows "x = y \<and> r = r'"
proof -
  have "Some (x, r) = dec (enc x @ r)" using assms(1) by (rule dec_enc [symmetric])
  also have "\<dots> = dec (enc y @ r')" by (rule arg_cong [OF assms(3)])
  also have "\<dots> = Some (y, r')" using assms(2) by (rule dec_enc)
  finally show ?thesis by simp
qed

lemma concat_inj:
  assumes "\<forall>x\<in>set xs. valid x" and "\<forall>y\<in>set ys. valid y" and "length xs = length ys"
    and "concat (map enc xs) = concat (map enc ys)"
  shows "xs = ys"
  using assms(3,1,2,4)
proof (induction xs ys rule: list_induct2)
  case Nil
  show ?case by simp
next
  case (Cons x xs y ys)
  then have "x = y \<and> concat (map enc xs) = concat (map enc ys)"
    by (intro enc_append_inj) simp_all
  with Cons show ?case by simp
qed

end

end
