(* ===== verification/Bft.thy ===== *)
theory Bft
  imports Prelude
begin

text \<open>
  The value types and the quorum policy of the BFT round (\<open>consensus/bft/types.py\<close>,
  \<open>consensus/bft/quorum.py\<close>, \<open>consensus/bft/evidence.py\<close>). Every frozen dataclass is a record, and
  its \<open>__post_init__\<close> is the function \<open>..._init\<close> that normalises a record of raw arguments, so that
  an object of the code is a record in the range of that function. The lemmas give the exact set of
  validators a certificate counts, the bound of its stake by the active stake, and the
  intersection of two quorums.
\<close>

section \<open>Types\<close>

datatype vote_type = VT_Propose | VT_Prevote | VT_Precommit

datatype round_phase = RP_Propose | RP_Prevote | RP_Precommit | RP_Finalize | RP_Locked

datatype round_status = RS_Ok | RS_Refused | RS_Complete | RS_Locked

text \<open>The phases in the order a round goes through them, \<open>RP_Locked\<close> last.\<close>

fun phase_rank :: "round_phase \<Rightarrow> nat" where
  "phase_rank RP_Propose = 0"
| "phase_rank RP_Prevote = 1"
| "phase_rank RP_Precommit = 2"
| "phase_rank RP_Finalize = 3"
| "phase_rank RP_Locked = 4"

lemma phase_rank_inj: "phase_rank a = phase_rank b \<Longrightarrow> a = b"
  by (cases a; cases b) simp_all

instantiation round_phase :: linorder
begin
definition less_eq_round_phase :: "round_phase \<Rightarrow> round_phase \<Rightarrow> bool" where
  "less_eq_round_phase a b = (phase_rank a \<le> phase_rank b)"
definition less_round_phase :: "round_phase \<Rightarrow> round_phase \<Rightarrow> bool" where
  "less_round_phase a b = (phase_rank a < phase_rank b)"
instance
  by (intro_classes) (auto simp: less_eq_round_phase_def less_round_phase_def phase_rank_inj)
end

record round_id =
  rid_epoch :: int
  rid_height :: int
  rid_round :: int

definition rid_key :: "round_id \<Rightarrow> int \<times> int \<times> int" where
  "rid_key r = (rid_epoch r, rid_height r, rid_round r)"

record validator_info =
  vi_id :: string
  vi_stake :: int
  vi_pubkey :: string
  vi_active :: bool
  vi_slashed :: bool

text \<open>\<open>to_satoshi\<close> of a whole amount: 1 ABS is \<open>10^6\<close> satoshi.\<close>

definition to_satoshi_int :: "int \<Rightarrow> int" where
  "to_satoshi_int n = n * 1000000"

definition validator_info_init :: "validator_info \<Rightarrow> validator_info" where
  "validator_info_init v =
     v\<lparr>vi_id := py_strip (vi_id v), vi_stake := max 0 (to_satoshi_int (vi_stake v))\<rparr>"

record validator_set =
  vs_validators :: "validator_info list"

definition vs_get :: "validator_set \<Rightarrow> string \<Rightarrow> validator_info option" where
  "vs_get S vid = find (\<lambda>v. vi_id v = py_strip vid) (vs_validators S)"

definition total_active_stake :: "validator_set \<Rightarrow> int" where
  "total_active_stake S =
     (\<Sum>v\<leftarrow>filter (\<lambda>v. vi_active v \<and> \<not> vi_slashed v \<and> vi_stake v > 0) (vs_validators S). vi_stake v)"

definition vs_is_active :: "validator_set \<Rightarrow> string \<Rightarrow> bool" where
  "vs_is_active S vid =
     (case vs_get S vid of None \<Rightarrow> False | Some v \<Rightarrow> vi_active v \<and> \<not> vi_slashed v)"

record block_ref =
  br_height :: int
  br_hash :: string
  br_parent :: string

definition block_ref_init :: "block_ref \<Rightarrow> block_ref" where
  "block_ref_init b = b\<lparr>br_hash := norm_hash (br_hash b), br_parent := norm_hash (br_parent b)\<rparr>"

record vote =
  vo_validator :: string
  vo_type :: vote_type
  vo_round :: round_id
  vo_hash :: string
  vo_slot :: int
  vo_sigref :: string
  vo_verified :: bool

definition vote_init :: "vote \<Rightarrow> vote" where
  "vote_init v = v\<lparr>vo_validator := py_strip (vo_validator v), vo_hash := norm_hash (vo_hash v)\<rparr>"

record proposal =
  pr_proposer :: string
  pr_round :: round_id
  pr_hash :: string
  pr_parent :: string

definition proposal_init :: "proposal \<Rightarrow> proposal" where
  "proposal_init p = p\<lparr>pr_proposer := py_strip (pr_proposer p), pr_hash := norm_hash (pr_hash p),
     pr_parent := norm_hash (pr_parent p)\<rparr>"

record quorum_certificate =
  qc_round :: round_id
  qc_type :: vote_type
  qc_hash :: string
  qc_voted :: int
  qc_total :: int
  qc_reached :: bool

definition quorum_certificate_init :: "quorum_certificate \<Rightarrow> quorum_certificate" where
  "quorum_certificate_init c = c\<lparr>qc_hash := norm_hash (qc_hash c)\<rparr>"

record finality_view =
  fv_finalized_height :: int
  fv_justified_height :: int
  fv_quorum_live :: bool
  fv_local_attestations :: bool
  fv_detail :: string

record round_outcome =
  ro_status :: round_status
  ro_phase :: round_phase
  ro_reason :: string
  ro_round :: "round_id option"
  ro_hash :: string
  ro_detail :: string

definition outcome_ok :: "round_outcome \<Rightarrow> bool" where
  "outcome_ok out = (ro_status out = RS_Ok \<or> ro_status out = RS_Complete)"

definition ro_accepted :: "round_phase \<Rightarrow> round_id option \<Rightarrow> string \<Rightarrow> string \<Rightarrow> round_outcome" where
  "ro_accepted ph rid h reason = \<lparr>ro_status = RS_Ok, ro_phase = ph, ro_reason = reason,
     ro_round = rid, ro_hash = h, ro_detail = []\<rparr>"

definition ro_complete :: "round_id option \<Rightarrow> string \<Rightarrow> round_outcome" where
  "ro_complete rid h = \<lparr>ro_status = RS_Complete, ro_phase = RP_Finalize, ro_reason = ''finalized'',
     ro_round = rid, ro_hash = h, ro_detail = []\<rparr>"

definition ro_refused ::
  "round_phase \<Rightarrow> string \<Rightarrow> round_id option \<Rightarrow> string \<Rightarrow> string \<Rightarrow> round_outcome" where
  "ro_refused ph reason rid h detail = \<lparr>ro_status = RS_Refused, ro_phase = ph,
     ro_reason = str_or reason ''refused'', ro_round = rid, ro_hash = h, ro_detail = detail\<rparr>"

definition ro_locked :: "string \<Rightarrow> round_id option \<Rightarrow> string \<Rightarrow> string \<Rightarrow> round_outcome" where
  "ro_locked reason rid h detail = \<lparr>ro_status = RS_Locked, ro_phase = RP_Locked,
     ro_reason = str_or reason ''locked'', ro_round = rid, ro_hash = h, ro_detail = detail\<rparr>"

section \<open>Evidence\<close>

record evidence =
  ev_reason :: string
  ev_validator :: string
  ev_round :: "round_id option"
  ev_votes :: "vote list"
  ev_attempts :: int
  ev_detail :: string
  ev_kind :: string

definition evidence_init :: "evidence \<Rightarrow> evidence" where
  "evidence_init e = e\<lparr>ev_reason := str_or (ev_reason e) ''refused'',
     ev_attempts := max 1 (if ev_attempts e = 0 then 1 else ev_attempts e)\<rparr>"

record bus_payload =
  bp_kind :: string
  bp_reason :: string
  bp_validator :: string
  bp_epoch :: int
  bp_height :: int
  bp_round :: int
  bp_attempts :: int
  bp_detail :: string
  bp_fail_closed :: bool
  bp_vote_count :: nat

definition to_bus_payload :: "evidence \<Rightarrow> bus_payload" where
  "to_bus_payload e = \<lparr>bp_kind = ev_kind e, bp_reason = ev_reason e, bp_validator = ev_validator e,
     bp_epoch = (case ev_round e of None \<Rightarrow> 0 | Some r \<Rightarrow> rid_epoch r),
     bp_height = (case ev_round e of None \<Rightarrow> 0 | Some r \<Rightarrow> rid_height r),
     bp_round = (case ev_round e of None \<Rightarrow> 0 | Some r \<Rightarrow> rid_round r),
     bp_attempts = ev_attempts e, bp_detail = ev_detail e, bp_fail_closed = True,
     bp_vote_count = length (ev_votes e)\<rparr>"

definition malicious_reason_codes :: "string list" where
  "malicious_reason_codes =
     [''double_vote'', ''double_proposal'', ''surround_vote'', ''unknown_validator_vote'',
      ''fake_vote_unverified'', ''consensus_double_sign'', ''consensus_round_spam'',
      ''prevote_precommit_hash_mismatch'']"

definition is_malicious_reason :: "string \<Rightarrow> bool" where
  "is_malicious_reason rc = (rc \<in> set malicious_reason_codes)"

definition spam_threshold :: int where
  "spam_threshold = 3"

definition build_evidence ::
  "string \<Rightarrow> string \<Rightarrow> round_id option \<Rightarrow> vote list \<Rightarrow> int \<Rightarrow> string \<Rightarrow> evidence" where
  "build_evidence reason vid rid votes attempts detail =
     evidence_init \<lparr>ev_reason = str_or reason ''refused'', ev_validator = vid, ev_round = rid,
       ev_votes = votes, ev_attempts = max 1 (if attempts = 0 then 1 else attempts),
       ev_detail = detail, ev_kind = ''consensus_malicious''\<rparr>"

section \<open>Quorum policy\<close>

definition quorum_reached :: "int \<Rightarrow> int \<Rightarrow> bool" where
  "quorum_reached voted tot = (if tot \<le> 0 then False else voted * 3 \<ge> tot * 2)"

text \<open>The loop of \<open>stake_for_votes\<close>, with its \<open>seen\<close> set and running \<open>stake\<close>.\<close>

fun stake_loop ::
  "validator_set \<Rightarrow> round_id \<Rightarrow> vote_type \<Rightarrow> string \<Rightarrow> vote list \<Rightarrow> string list \<Rightarrow> int \<Rightarrow> int" where
  "stake_loop S r t want [] seen stake = stake"
| "stake_loop S r t want (v # vs) seen stake =
     (if vo_type v \<noteq> t then stake_loop S r t want vs seen stake
      else if rid_key (vo_round v) \<noteq> rid_key r then stake_loop S r t want vs seen stake
      else if py_lower (vo_hash v) \<noteq> want then stake_loop S r t want vs seen stake
      else if vo_validator v \<in> set seen then stake_loop S r t want vs seen stake
      else (case vs_get S (vo_validator v) of
              None \<Rightarrow> stake_loop S r t want vs seen stake
            | Some i \<Rightarrow>
                if \<not> vi_active i \<or> vi_slashed i then stake_loop S r t want vs seen stake
                else stake_loop S r t want vs (vo_validator v # seen) (stake + vi_stake i)))"

definition stake_for_votes ::
  "validator_set \<Rightarrow> vote list \<Rightarrow> round_id \<Rightarrow> vote_type \<Rightarrow> string \<Rightarrow> int" where
  "stake_for_votes S votes r t h = stake_loop S r t (norm_hash h) votes [] 0"

definition build_certificate ::
  "validator_set \<Rightarrow> vote list \<Rightarrow> round_id \<Rightarrow> vote_type \<Rightarrow> string \<Rightarrow> quorum_certificate" where
  "build_certificate S votes r t h =
     (let tot = total_active_stake S in
      if tot \<le> 0 then
        quorum_certificate_init \<lparr>qc_round = r, qc_type = t, qc_hash = py_lower h, qc_voted = 0,
          qc_total = 0, qc_reached = False\<rparr>
      else
        (let voted = stake_for_votes S votes r t h in
         quorum_certificate_init \<lparr>qc_round = r, qc_type = t, qc_hash = py_lower h, qc_voted = voted,
           qc_total = tot, qc_reached = quorum_reached voted tot\<rparr>))"

section \<open>What a certificate counts\<close>

text \<open>A snapshot built from dataclass instances: stakes are not negative.\<close>

definition snapshot_wf :: "validator_set \<Rightarrow> bool" where
  "snapshot_wf S \<longleftrightarrow> (\<forall>v\<in>set (vs_validators S). 0 \<le> vi_stake v)"

text \<open>A vote built by the dataclass.\<close>

definition vote_wf :: "vote \<Rightarrow> bool" where
  "vote_wf v \<longleftrightarrow> py_strip (vo_validator v) = vo_validator v \<and> norm_hash (vo_hash v) = vo_hash v"

lemma vote_init_wf [simp]: "vote_wf (vote_init v)"
  by (simp add: vote_wf_def vote_init_def)

lemma snapshot_wf_init [simp]: "snapshot_wf \<lparr>vs_validators = map validator_info_init vs\<rparr>"
  by (auto simp: snapshot_wf_def validator_info_init_def)

definition stake_of :: "validator_set \<Rightarrow> string \<Rightarrow> int" where
  "stake_of S vid = (case vs_get S vid of None \<Rightarrow> 0 | Some i \<Rightarrow> vi_stake i)"

text \<open>The validators whose vote counts for \<open>h\<close>.\<close>

definition voters :: "validator_set \<Rightarrow> vote list \<Rightarrow> round_id \<Rightarrow> vote_type \<Rightarrow> string \<Rightarrow> string set" where
  "voters S votes r t h =
     {vo_validator v | v. v \<in> set votes \<and> vo_type v = t \<and> rid_key (vo_round v) = rid_key r
        \<and> py_lower (vo_hash v) = norm_hash h \<and> vs_is_active S (vo_validator v)}"

lemma finite_voters [simp]: "finite (voters S votes r t h)"
proof -
  have "voters S votes r t h \<subseteq> vo_validator ` set votes" by (auto simp: voters_def)
  then show ?thesis by (rule finite_subset) simp
qed

lemma voters_Nil [simp]: "voters S [] r t h = {}"
  by (simp add: voters_def)

lemma voters_Cons:
  "voters S (v # vs) r t h =
     (if vo_type v = t \<and> rid_key (vo_round v) = rid_key r \<and> py_lower (vo_hash v) = norm_hash h
         \<and> vs_is_active S (vo_validator v)
      then insert (vo_validator v) (voters S vs r t h) else voters S vs r t h)"
  by (auto simp: voters_def)

lemma voters_append_subset: "voters S votes r t h \<subseteq> voters S (votes @ ws) r t h"
  by (auto simp: voters_def)

lemma stake_loop_eq:
  "stake_loop S r t (norm_hash h) votes seen stake =
     stake + sum (stake_of S) (voters S votes r t h - set seen)"
proof (induction S r t "norm_hash h" votes seen stake rule: stake_loop.induct)
  case (1 S r t seen stake)
  show ?case by simp
next
  case (2 S r t v vs seen stake)
  let ?c = "vo_type v = t \<and> rid_key (vo_round v) = rid_key r \<and> py_lower (vo_hash v) = norm_hash h"
  show ?case
  proof (cases "?c \<and> vo_validator v \<notin> set seen \<and> vs_is_active S (vo_validator v)")
    case True
    then obtain i where i: "vs_get S (vo_validator v) = Some i" "vi_active i" "\<not> vi_slashed i"
      by (auto simp: vs_is_active_def split: option.splits)
    have eq: "voters S (v # vs) r t h - set seen =
        insert (vo_validator v) (voters S vs r t h - set (vo_validator v # seen))"
      using True by (auto simp: voters_Cons)
    have "sum (stake_of S) (voters S (v # vs) r t h - set seen) =
        vi_stake i + sum (stake_of S) (voters S vs r t h - set (vo_validator v # seen))"
      unfolding eq by (subst sum.insert) (auto simp: stake_of_def i)
    with True i 2 show ?thesis by simp
  next
    case False
    have "voters S (v # vs) r t h - set seen = voters S vs r t h - set seen"
      using False by (auto simp: voters_Cons)
    with False 2 show ?thesis
      by (auto simp: vs_is_active_def split: option.splits)
  qed
qed

lemma stake_for_votes_eq: "stake_for_votes S votes r t h = sum (stake_of S) (voters S votes r t h)"
  by (simp add: stake_for_votes_def stake_loop_eq)

text \<open>Distinct active identifiers name distinct entries of the snapshot.\<close>

lemma sum_find_le_total:
  assumes "finite A" and "\<forall>v\<in>set vs. 0 \<le> vi_stake v"
    and "\<forall>a\<in>A. \<exists>i. find (\<lambda>v. vi_id v = a) vs = Some i \<and> vi_active i \<and> \<not> vi_slashed i"
  shows "(\<Sum>a\<in>A. vi_stake (the (find (\<lambda>v. vi_id v = a) vs)))
    \<le> (\<Sum>v\<leftarrow>filter (\<lambda>v. vi_active v \<and> \<not> vi_slashed v \<and> vi_stake v > 0) vs. vi_stake v)"
  using assms
proof (induction vs arbitrary: A)
  case Nil
  then have "A = {}" by auto
  then show ?case by simp
next
  case (Cons v vs)
  let ?tot = "\<lambda>xs. \<Sum>v\<leftarrow>filter (\<lambda>v. vi_active v \<and> \<not> vi_slashed v \<and> vi_stake v > 0) xs. vi_stake v"
  let ?B = "A - {vi_id v}"
  have B: "\<forall>a\<in>?B. find (\<lambda>w. vi_id w = a) (v # vs) = find (\<lambda>w. vi_id w = a) vs" by auto
  have IH: "(\<Sum>a\<in>?B. vi_stake (the (find (\<lambda>w. vi_id w = a) vs))) \<le> ?tot vs"
  proof (rule Cons.IH)
    show "finite ?B" and "\<forall>w\<in>set vs. 0 \<le> vi_stake w" using Cons.prems by simp_all
    show "\<forall>a\<in>?B. \<exists>i. find (\<lambda>w. vi_id w = a) vs = Some i \<and> vi_active i \<and> \<not> vi_slashed i"
      using Cons.prems(3) B by fastforce
  qed
  have sB: "(\<Sum>a\<in>?B. vi_stake (the (find (\<lambda>w. vi_id w = a) (v # vs)))) =
      (\<Sum>a\<in>?B. vi_stake (the (find (\<lambda>w. vi_id w = a) vs)))"
    by (rule sum.cong) auto
  show ?case
  proof (cases "vi_id v \<in> A")
    case True
    have v: "vi_active v" "\<not> vi_slashed v" using Cons.prems(3) True by force+
    have "(\<Sum>a\<in>A. vi_stake (the (find (\<lambda>w. vi_id w = a) (v # vs)))) =
        vi_stake v + (\<Sum>a\<in>?B. vi_stake (the (find (\<lambda>w. vi_id w = a) (v # vs))))"
      using Cons.prems(1) True by (simp add: sum.remove)
    moreover have "?tot (v # vs) = vi_stake v + ?tot vs"
      using v Cons.prems(2) by simp
    ultimately show ?thesis using IH sB by simp
  next
    case False
    then have "?B = A" by simp
    moreover have "?tot vs \<le> ?tot (v # vs)" by simp
    ultimately show ?thesis using IH sB by simp
  qed
qed

lemma sum_stake_le_total:
  assumes "finite A" and "snapshot_wf S" and "\<forall>a\<in>A. vs_is_active S a \<and> py_strip a = a"
  shows "sum (stake_of S) A \<le> total_active_stake S"
proof -
  have a: "\<exists>i. vs_get S a = Some i \<and> find (\<lambda>v. vi_id v = a) (vs_validators S) = Some i
      \<and> vi_active i \<and> \<not> vi_slashed i" if "a \<in> A" for a
    using assms(3) that by (auto simp: vs_get_def vs_is_active_def split: option.splits)
  have "sum (stake_of S) A = (\<Sum>a\<in>A. vi_stake (the (find (\<lambda>v. vi_id v = a) (vs_validators S))))"
    by (rule sum.cong) (auto simp: stake_of_def dest!: a)
  also have "\<dots> \<le> total_active_stake S"
    unfolding total_active_stake_def
    using assms(1,2) a by (intro sum_find_le_total) (auto simp: snapshot_wf_def)
  finally show ?thesis .
qed

lemma voters_active: "a \<in> voters S votes r t h \<Longrightarrow> vs_is_active S a"
  by (auto simp: voters_def)

lemma voters_stripped: "\<forall>v\<in>set votes. vote_wf v \<Longrightarrow> a \<in> voters S votes r t h \<Longrightarrow> py_strip a = a"
  by (auto simp: voters_def vote_wf_def)

lemma stake_of_nonneg: "snapshot_wf S \<Longrightarrow> 0 \<le> stake_of S a"
  by (auto simp: stake_of_def snapshot_wf_def vs_get_def find_Some_iff split: option.splits)

lemma stake_for_votes_nonneg: "snapshot_wf S \<Longrightarrow> 0 \<le> stake_for_votes S votes r t h"
  by (simp add: stake_for_votes_eq sum_nonneg stake_of_nonneg)

lemma stake_for_votes_le_total:
  "snapshot_wf S \<Longrightarrow> \<forall>v\<in>set votes. vote_wf v \<Longrightarrow>
     stake_for_votes S votes r t h \<le> total_active_stake S"
  unfolding stake_for_votes_eq
  by (rule sum_stake_le_total) (auto dest: voters_active voters_stripped)

lemma stake_for_votes_append_mono:
  "snapshot_wf S \<Longrightarrow> stake_for_votes S votes r t h \<le> stake_for_votes S (votes @ ws) r t h"
  unfolding stake_for_votes_eq
  by (rule sum_mono2) (auto simp: voters_append_subset stake_of_nonneg)

lemma certificate_fields [simp]:
  "qc_hash (build_certificate S votes r t h) = norm_hash h"
  "qc_round (build_certificate S votes r t h) = r"
  "qc_type (build_certificate S votes r t h) = t"
  by (simp_all add: build_certificate_def quorum_certificate_init_def Let_def norm_hash_def
      py_strip_lower)

lemma certificate_reached_iff:
  "qc_reached (build_certificate S votes r t h) \<longleftrightarrow>
     quorum_reached (stake_for_votes S votes r t h) (total_active_stake S)"
  by (simp add: build_certificate_def quorum_certificate_init_def quorum_reached_def Let_def)

lemma quorum_reachedD: "quorum_reached v n \<Longrightarrow> 0 < n \<and> 2 * n \<le> 3 * v"
  by (auto simp: quorum_reached_def split: if_splits)

text \<open>Two quorums over one snapshot share at least a third of the active stake.\<close>

lemma two_quorums_overlap:
  assumes wf: "snapshot_wf S"
    and A: "finite A" "\<forall>a\<in>A. vs_is_active S a \<and> py_strip a = a"
    and B: "finite B" "\<forall>b\<in>B. vs_is_active S b \<and> py_strip b = b"
    and qA: "quorum_reached (sum (stake_of S) A) (total_active_stake S)"
    and qB: "quorum_reached (sum (stake_of S) B) (total_active_stake S)"
  shows "total_active_stake S \<le> 3 * sum (stake_of S) (A \<inter> B)"
proof -
  have "sum (stake_of S) A + sum (stake_of S) B =
      sum (stake_of S) (A \<union> B) + sum (stake_of S) (A \<inter> B)"
    using sum.union_inter [OF A(1) B(1), of "stake_of S"] by simp
  moreover have "sum (stake_of S) (A \<union> B) \<le> total_active_stake S"
    using wf A B by (intro sum_stake_le_total) auto
  moreover have "2 * total_active_stake S \<le> 3 * sum (stake_of S) A"
    and "2 * total_active_stake S \<le> 3 * sum (stake_of S) B"
    using qA qB by (auto dest: quorum_reachedD)
  ultimately show ?thesis by linarith
qed

end
