(* ===== verification/BftRound.thy ===== *)
theory BftRound
  imports Bft
begin

text \<open>
  \<open>RoundStateMachine\<close> of \<open>consensus/bft/service.py\<close>: the record \<open>rsm\<close> holds its attributes and the
  world \<open>'w\<close> behind its four ports, and every method is a definition over it. A method that can
  raise is a state-with-exceptions computation, so the effects made before the exception (the
  evidence, the slash) stay in the final state. The ports are the constructor arguments of the
  code: a record of operations on \<open>'w\<close>. The adapters that implement them are in \<open>BftPorts\<close>.
\<close>

section \<open>Ports and state\<close>

text \<open>
  \<open>mark_slashed\<close> and \<open>request_lockdown\<close> may raise, and the code re-raises: they return the error
  message, if any. The exceptions of \<open>on_attestation\<close> and \<open>on_finalized\<close> are logged and dropped by
  the code, so these are total.
\<close>

record 'w bft_ports =
  port_snapshot :: "'w \<Rightarrow> validator_set"
  port_mark_slashed :: "string \<Rightarrow> string \<Rightarrow> evidence \<Rightarrow> 'w \<Rightarrow> string option \<times> 'w"
  port_note :: "string \<Rightarrow> string \<Rightarrow> 'w \<Rightarrow> int \<times> 'w"
  port_emit :: "evidence \<Rightarrow> 'w \<Rightarrow> 'w"
  port_lockdown :: "string \<Rightarrow> 'w \<Rightarrow> string option \<times> 'w"
  port_on_attestation :: "vote \<Rightarrow> 'w \<Rightarrow> 'w"
  port_on_finalized :: "string \<Rightarrow> int \<Rightarrow> 'w \<Rightarrow> 'w"

type_synonym round_key = "int \<times> int \<times> int"

record 'w rsm =
  rsm_expected_proposer :: string
  rsm_epoch_size :: int
  rsm_round :: round_id
  rsm_phase :: round_phase
  rsm_proposal :: "proposal option"
  rsm_votes :: "vote list"
  rsm_seen :: "((string \<times> vote_type \<times> round_key) \<times> string) list"
  rsm_qc :: "((round_key \<times> vote_type) \<times> quorum_certificate) list"
  rsm_finalized_hashes :: "string set"
  rsm_finalized_height :: int
  rsm_blocks :: "(string \<times> block_ref) list"
  rsm_head :: "block_ref option"
  rsm_attest :: "(string \<times> vote list) list"
  rsm_armed :: bool
  rsm_world :: 'w

datatype bft_error = ConsensusMalicious round_outcome evidence | PortError string

type_synonym ('w, 'a) rsm_m = "('w rsm, bft_error, 'a) exs"

definition rsm_init :: "string \<Rightarrow> int \<Rightarrow> 'w \<Rightarrow> 'w rsm" where
  "rsm_init expected epoch_size w = \<lparr>rsm_expected_proposer = expected,
     rsm_epoch_size = max 1 (if epoch_size = 0 then 32 else epoch_size),
     rsm_round = \<lparr>rid_epoch = 0, rid_height = 0, rid_round = 0\<rparr>, rsm_phase = RP_Propose,
     rsm_proposal = None, rsm_votes = [], rsm_seen = [], rsm_qc = [], rsm_finalized_hashes = {},
     rsm_finalized_height = 0, rsm_blocks = [], rsm_head = None, rsm_attest = [], rsm_armed = False,
     rsm_world = w\<rparr>"

section \<open>Queries\<close>

definition round_phase_of :: "'w rsm \<Rightarrow> round_id \<Rightarrow> round_phase" where
  "round_phase_of s r =
     (if rid_key r \<noteq> rid_key (rsm_round s)
      then (if rsm_phase s = RP_Locked then RP_Locked else rsm_phase s)
      else rsm_phase s)"

definition is_finalized_height :: "'w rsm \<Rightarrow> int \<Rightarrow> bool" where
  "is_finalized_height s h = (h \<le> rsm_finalized_height s)"

definition is_finalized_hash :: "'w rsm \<Rightarrow> string \<Rightarrow> bool" where
  "is_finalized_hash s h = (norm_hash h \<in> rsm_finalized_hashes s)"

definition finality_status :: "'w rsm \<Rightarrow> finality_view" where
  "finality_status s =
     (let votes_present = (rsm_votes s \<noteq> []);
          qc_live = list_ex (\<lambda>(k, qc). qc_reached qc) (rsm_qc s);
          allow = rsm_armed s;
          live = (allow \<and> qc_live);
          detail = (if live then ''quorum_certificate_reached''
                    else if allow then ''quorum_armed_waiting_certificate''
                    else ''local_path_only'')
      in \<lparr>fv_finalized_height = rsm_finalized_height s, fv_justified_height = rsm_finalized_height s,
          fv_quorum_live = live, fv_local_attestations = votes_present, fv_detail = detail\<rparr>)"

definition arm_quorum_live :: "bool \<Rightarrow> 'w rsm \<Rightarrow> 'w rsm" where
  "arm_quorum_live b s = s\<lparr>rsm_armed := b\<rparr>"

definition quorum_certificate_of :: "'w rsm \<Rightarrow> round_id \<Rightarrow> vote_type \<Rightarrow> quorum_certificate option" where
  "quorum_certificate_of s r t = dget (rsm_qc s) (rid_key r, t)"

definition attestations_for_block :: "'w rsm \<Rightarrow> string \<Rightarrow> vote list" where
  "attestations_for_block s h = dget_or (rsm_attest s) (py_lower h) []"

section \<open>Rounds and blocks\<close>

definition begin_round :: "round_id \<Rightarrow> 'w rsm \<Rightarrow> 'w rsm" where
  "begin_round r s = s\<lparr>rsm_round := r, rsm_phase := RP_Propose, rsm_proposal := None, rsm_votes := [],
     rsm_seen := filter (\<lambda>((vid, t, k), h). k = rid_key r) (rsm_seen s)\<rparr>"

definition open_round :: "int \<Rightarrow> int option \<Rightarrow> int \<Rightarrow> string option \<Rightarrow> 'w rsm \<Rightarrow> round_id \<times> 'w rsm" where
  "open_round h ep round_n expected s =
     (let e = (case ep of Some e \<Rightarrow> e | None \<Rightarrow> h div rsm_epoch_size s);
          r = \<lparr>rid_epoch = e, rid_height = h, rid_round = round_n\<rparr>;
          s1 = (case expected of None \<Rightarrow> s | Some p \<Rightarrow> s\<lparr>rsm_expected_proposer := p\<rparr>)
      in (r, begin_round r s1))"

definition add_block :: "block_ref \<Rightarrow> string \<Rightarrow> 'w rsm \<Rightarrow> 'w rsm" where
  "add_block b parent_hash s =
     (let parent = py_lower (str_or parent_hash (br_parent b));
          ref = block_ref_init \<lparr>br_height = br_height b, br_hash = br_hash b, br_parent = parent\<rparr>;
          s1 = s\<lparr>rsm_blocks := dset (br_hash ref) ref (rsm_blocks s)\<rparr>;
          s2 = (case rsm_head s1 of
                  None \<Rightarrow> s1\<lparr>rsm_head := Some ref\<rparr>
                | Some tip \<Rightarrow> if br_height ref \<ge> br_height tip then s1\<lparr>rsm_head := Some ref\<rparr> else s1)
      in if br_height ref > rid_height (rsm_round s2)
            \<or> (br_height ref = rid_height (rsm_round s2) \<and> rsm_phase s2 = RP_Finalize)
         then begin_round \<lparr>rid_epoch = br_height ref div rsm_epoch_size s2,
                           rid_height = br_height ref, rid_round = 0\<rparr> s2
         else s2)"

section \<open>Fail-closed refusal\<close>

definition note_malicious :: "'w bft_ports \<Rightarrow> string \<Rightarrow> string \<Rightarrow> ('w, int) rsm_m" where
  "note_malicious P vid reason =
     callM (\<lambda>s. let (n, w) = port_note P vid reason (rsm_world s) in (n, s\<lparr>rsm_world := w\<rparr>))"

definition emit_evidence :: "'w bft_ports \<Rightarrow> evidence \<Rightarrow> ('w, unit) rsm_m" where
  "emit_evidence P ev = modM (\<lambda>s. s\<lparr>rsm_world := port_emit P ev (rsm_world s)\<rparr>)"

definition mark_slashed :: "'w bft_ports \<Rightarrow> string \<Rightarrow> string \<Rightarrow> evidence \<Rightarrow> ('w, unit) rsm_m" where
  "mark_slashed P vid reason ev =
     (\<lambda>s. let (err, w) = port_mark_slashed P vid reason ev (rsm_world s); s' = s\<lparr>rsm_world := w\<rparr>
          in case err of None \<Rightarrow> (Inr (), s') | Some msg \<Rightarrow> (Inl (PortError msg), s'))"

definition request_lockdown :: "'w bft_ports \<Rightarrow> string \<Rightarrow> ('w, unit) rsm_m" where
  "request_lockdown P reason =
     (\<lambda>s. let (err, w) = port_lockdown P reason (rsm_world s); s' = s\<lparr>rsm_world := w\<rparr>
          in case err of None \<Rightarrow> (Inr (), s') | Some msg \<Rightarrow> (Inl (PortError msg), s'))"

text \<open>\<open>int(x or d)\<close>.\<close>

definition int_or :: "int \<Rightarrow> int \<Rightarrow> int" where
  "int_or x d = (if x = 0 then d else x)"

text \<open>
  \<open>_fail_closed\<close> in its two halves: counting the attempt and escalating to the spam reason, then
  reporting it (evidence, slash, lockdown), locking the round and raising.
\<close>

definition escalate_attempt :: "'w bft_ports \<Rightarrow> string \<Rightarrow> string \<Rightarrow> ('w, string \<times> int) rsm_m" where
  "escalate_attempt P reason vid =
     bindM (note_malicious P vid reason) (\<lambda>n.
     let attempts = int_or n 1 in
     if attempts \<ge> spam_threshold \<and> reason \<noteq> ''consensus_round_spam'' then
       bindM (note_malicious P vid ''consensus_round_spam'') (\<lambda>n'.
       returnM (''consensus_round_spam'', int_or n' attempts))
     else returnM (reason, attempts))"

definition lockdown_reason :: "string \<Rightarrow> string" where
  "lockdown_reason reason_code =
     (if reason_code \<in> {''double_vote'', ''double_proposal'', ''consensus_double_sign''}
      then ''consensus_double_sign'' else reason_code)"

definition report_malicious ::
  "'w bft_ports \<Rightarrow> string \<Rightarrow> evidence \<Rightarrow> ('w, unit) rsm_m" where
  "report_malicious P vid ev =
     bindM (emit_evidence P ev) (\<lambda>_.
     bindM (mark_slashed P vid (ev_reason ev) ev) (\<lambda>_.
     if is_malicious_reason (ev_reason ev) \<or> ev_reason ev = ''consensus_round_spam''
     then request_lockdown P (lockdown_reason (ev_reason ev)) else returnM ()))"

definition fail_closed ::
  "'w bft_ports \<Rightarrow> string \<Rightarrow> string \<Rightarrow> round_id option \<Rightarrow> vote list \<Rightarrow> string \<Rightarrow> ('w, round_outcome) rsm_m"
where
  "fail_closed P reason vid rid votes detail =
     bindM (escalate_attempt P (str_or reason ''refused'') vid) (\<lambda>(reason_code, attempts).
     bindM (getM rsm_round) (\<lambda>cur.
     let r = (case rid of None \<Rightarrow> cur | Some r \<Rightarrow> r);
         ev = build_evidence reason_code vid (Some r) votes attempts detail in
     bindM (report_malicious P vid ev) (\<lambda>_.
     bindM (modM (\<lambda>s. s\<lparr>rsm_phase := RP_Locked\<rparr>)) (\<lambda>_.
     raiseM (ConsensusMalicious (ro_locked reason_code (Some r) [] detail) ev)))))"

section \<open>Proposals\<close>

definition submit_proposal :: "'w bft_ports \<Rightarrow> proposal \<Rightarrow> ('w, round_outcome) rsm_m" where
  "submit_proposal P p = (\<lambda>s.
     if rsm_phase s = RP_Locked then
       (Inr (ro_locked ''round_locked'' (Some (rsm_round s)) [] ''round already locked''), s)
     else if rid_key (pr_round p) \<noteq> rid_key (rsm_round s) then
       (Inr (ro_refused (rsm_phase s) ''stale_round_vote'' (Some (pr_round p)) (pr_hash p) []), s)
     else if rsm_phase s \<noteq> RP_Propose then
       (Inr (ro_refused (rsm_phase s) ''unexpected_proposal_phase'' (Some (rsm_round s)) (pr_hash p) []), s)
     else if \<not> vs_is_active (port_snapshot P (rsm_world s)) (pr_proposer p) then
       fail_closed P ''unknown_validator_vote'' (pr_proposer p) (Some (pr_round p)) []
         ''proposer not in active set'' s
     else if rsm_expected_proposer s \<noteq> []
           \<and> pr_proposer p \<noteq> str_or (rsm_expected_proposer s) (pr_proposer p) then
       fail_closed P ''double_proposal'' (pr_proposer p) (Some (pr_round p)) []
         (''expected proposer '' @ take 12 (str_or (rsm_expected_proposer s) (pr_proposer p))) s
     else (case rsm_proposal s of
       Some q \<Rightarrow>
         if pr_hash q \<noteq> pr_hash p then
           fail_closed P ''double_proposal'' (pr_proposer p) (Some (pr_round p)) []
             ''conflicting proposal'' s
         else (Inr (ro_accepted RP_Prevote (Some (rsm_round s)) (pr_hash p) ''duplicate_proposal''), s)
     | None \<Rightarrow>
         (let s1 = s\<lparr>rsm_proposal := Some p, rsm_phase := RP_Prevote\<rparr>;
              s2 = add_block (block_ref_init \<lparr>br_height = rid_height (pr_round p),
                     br_hash = pr_hash p, br_parent = pr_parent p\<rparr>) [] s1
          in (Inr (ro_accepted RP_Prevote (Some (rsm_round s2)) (pr_hash p) ''accepted''), s2))))"

section \<open>Votes\<close>

definition finalize :: "'w bft_ports \<Rightarrow> string \<Rightarrow> ('w, round_outcome) rsm_m" where
  "finalize P h = (\<lambda>s.
     let hh = py_lower h;
         height = (case dget (rsm_blocks s) hh of
                     Some ref \<Rightarrow> br_height ref | None \<Rightarrow> rid_height (rsm_round s));
         s1 = s\<lparr>rsm_phase := RP_Finalize,
                rsm_finalized_hashes := insert hh (rsm_finalized_hashes s),
                rsm_finalized_height := max (rsm_finalized_height s) height\<rparr>;
         s2 = s1\<lparr>rsm_world := port_on_finalized P hh height (rsm_world s1)\<rparr>
     in (Inr (ro_complete (Some (rsm_round s2)) hh), s2))"

definition maybe_advance_prevote ::
  "validator_set \<Rightarrow> string \<Rightarrow> ('w, round_outcome) rsm_m" where
  "maybe_advance_prevote snap h = (\<lambda>s.
     let cert = build_certificate snap (rsm_votes s) (rsm_round s) VT_Prevote h;
         s1 = s\<lparr>rsm_qc := dset (rid_key (rsm_round s), VT_Prevote) cert (rsm_qc s)\<rparr>
     in if \<not> qc_reached cert then
          (Inr (ro_accepted RP_Prevote (Some (rsm_round s1)) h ''prevote_pending''), s1)
        else
          (Inr (ro_accepted RP_Precommit (Some (rsm_round s1)) h ''prevote_quorum''),
           s1\<lparr>rsm_phase := RP_Precommit\<rparr>))"

text \<open>The part of \<open>_maybe_advance_precommit\<close> after the prevote certificate has been compared.\<close>

definition precommit_certificate ::
  "'w bft_ports \<Rightarrow> validator_set \<Rightarrow> string \<Rightarrow> ('w, round_outcome) rsm_m" where
  "precommit_certificate P snap h = (\<lambda>s.
     let cert = build_certificate snap (rsm_votes s) (rsm_round s) VT_Precommit h;
         s1 = s\<lparr>rsm_qc := dset (rid_key (rsm_round s), VT_Precommit) cert (rsm_qc s)\<rparr>
     in if \<not> qc_reached cert then
          (let s2 = (if rsm_phase s1 = RP_Prevote then s1\<lparr>rsm_phase := RP_Precommit\<rparr> else s1)
           in (Inr (ro_accepted RP_Precommit (Some (rsm_round s2)) h ''precommit_pending''), s2))
        else finalize P h s1)"

definition maybe_advance_precommit ::
  "'w bft_ports \<Rightarrow> validator_set \<Rightarrow> string \<Rightarrow> ('w, round_outcome) rsm_m" where
  "maybe_advance_precommit P snap h = (\<lambda>s.
     case dget (rsm_qc s) (rid_key (rsm_round s), VT_Prevote) of
       Some prev \<Rightarrow>
         if qc_reached prev \<and> qc_hash prev \<noteq> h then
           fail_closed P ''prevote_precommit_hash_mismatch'' [] (Some (rsm_round s)) []
             (''prevote='' @ take 12 (qc_hash prev) @ '' precommit='' @ take 12 h) s
         else precommit_certificate P snap h s
     | None \<Rightarrow> precommit_certificate P snap h s)"

text \<open>The phase gates of \<open>submit_vote\<close>: the refusal, if any, and the state they leave.\<close>

definition vote_phase_gate :: "vote \<Rightarrow> 'w rsm \<Rightarrow> round_outcome option \<times> 'w rsm" where
  "vote_phase_gate v s =
     (if vo_type v = VT_Prevote \<and> rsm_phase s \<notin> {RP_Prevote, RP_Precommit, RP_Finalize} then
        (if rsm_phase s = RP_Propose \<and> rsm_proposal s = None then
           (None, s\<lparr>rsm_phase := RP_Prevote\<rparr>)
         else if rsm_phase s = RP_Propose then (None, s)
         else (Some (ro_refused (rsm_phase s) ''unexpected_prevote_phase'' (Some (rsm_round s))
                 (vo_hash v) []), s))
      else if vo_type v = VT_Precommit \<and> rsm_phase s \<notin> {RP_Precommit, RP_Finalize, RP_Prevote} then
        (Some (ro_refused (rsm_phase s) ''unexpected_precommit_phase'' (Some (rsm_round s))
           (vo_hash v) []), s)
      else (None, s))"

text \<open>Recording an accepted vote, and the attestation side effect.\<close>

definition record_vote :: "'w bft_ports \<Rightarrow> vote \<Rightarrow> 'w rsm \<Rightarrow> 'w rsm" where
  "record_vote P v s =
     s\<lparr>rsm_seen := dset (vo_validator v, vo_type v, rid_key (vo_round v)) (vo_hash v) (rsm_seen s),
       rsm_votes := rsm_votes s @ [v],
       rsm_attest := dset (vo_hash v) (dget_or (rsm_attest s) (vo_hash v) [] @ [v]) (rsm_attest s),
       rsm_world := port_on_attestation P v (rsm_world s)\<rparr>"

text \<open>The advance at the end of \<open>submit_vote\<close>, by vote type.\<close>

definition vote_advance ::
  "'w bft_ports \<Rightarrow> validator_set \<Rightarrow> vote \<Rightarrow> ('w, round_outcome) rsm_m" where
  "vote_advance P snap v =
     (case vo_type v of
        VT_Prevote \<Rightarrow> maybe_advance_prevote snap (vo_hash v)
      | VT_Precommit \<Rightarrow> maybe_advance_precommit P snap (vo_hash v)
      | VT_Propose \<Rightarrow>
          (\<lambda>s. (Inr (ro_accepted (rsm_phase s) (Some (rsm_round s)) (vo_hash v) ''accepted''), s)))"

definition submit_vote :: "'w bft_ports \<Rightarrow> vote \<Rightarrow> ('w, round_outcome) rsm_m" where
  "submit_vote P v = (\<lambda>s.
     if rsm_phase s = RP_Locked then
       (Inr (ro_locked ''round_locked'' (Some (rsm_round s)) [] []), s)
     else if \<not> vo_verified v then
       fail_closed P ''fake_vote_unverified'' (vo_validator v) (Some (vo_round v)) [v] [] s
     else if rid_key (vo_round v) \<noteq> rid_key (rsm_round s) then
       (Inr (ro_refused (rsm_phase s) ''stale_round_vote'' (Some (vo_round v)) (vo_hash v) []), s)
     else
       (let snap = port_snapshot P (rsm_world s) in
        if \<not> vs_is_active snap (vo_validator v) then
          fail_closed P ''unknown_validator_vote'' (vo_validator v) (Some (vo_round v)) [v] [] s
        else
          (let prior = dget (rsm_seen s) (vo_validator v, vo_type v, rid_key (vo_round v)) in
           if prior \<noteq> None \<and> prior \<noteq> Some (vo_hash v) then
             (let prior_vote = vote_init \<lparr>vo_validator = vo_validator v, vo_type = vo_type v,
                    vo_round = vo_round v, vo_hash = the prior, vo_slot = vo_slot v,
                    vo_sigref = [], vo_verified = True\<rparr>
              in fail_closed P ''double_vote'' (vo_validator v) (Some (vo_round v)) [prior_vote, v] [] s)
           else if prior = Some (vo_hash v) then
             (Inr (ro_accepted (rsm_phase s) (Some (rsm_round s)) (vo_hash v) ''duplicate_vote''), s)
           else
             (case vote_phase_gate v s of
                (Some refusal, s1) \<Rightarrow> (Inr refusal, s1)
              | (None, s1) \<Rightarrow>
                  vote_advance P snap v (record_vote P v s1)))))"

section \<open>The machine as a component\<close>

text \<open>
  The calls of \<open>ConsensusPort\<close> and of the adapter on the machine. The arguments are the raw ones: the
  frozen dataclasses normalise themselves when they are built.
\<close>

datatype bft_event =
    SubmitProposal proposal
  | SubmitVote vote
  | AddBlock block_ref string
  | OpenRound int "int option" int "string option"
  | ArmQuorumLive bool

fun bft_step :: "'w bft_ports \<Rightarrow> 'w rsm \<Rightarrow> bft_event \<Rightarrow> 'w rsm" where
  "bft_step P s (SubmitProposal p) = snd (submit_proposal P (proposal_init p) s)"
| "bft_step P s (SubmitVote v) = snd (submit_vote P (vote_init v) s)"
| "bft_step P s (AddBlock b parent) = add_block (block_ref_init b) parent s"
| "bft_step P s (OpenRound h ep n expected) = snd (open_round h ep n expected s)"
| "bft_step P s (ArmQuorumLive b) = arm_quorum_live b s"

section \<open>Frame and invariant lemmas\<close>

lemma wp_note [wp_rules]:
  "wpM (note_malicious P vid reason) Q E =
     (\<lambda>s. let (n, w) = port_note P vid reason (rsm_world s) in Q n (s\<lparr>rsm_world := w\<rparr>))"
  by (rule ext) (simp add: note_malicious_def wp_rules split: prod.splits)

lemma wp_emit [wp_rules]:
  "wpM (emit_evidence P ev) Q E = (\<lambda>s. Q () (s\<lparr>rsm_world := port_emit P ev (rsm_world s)\<rparr>))"
  by (rule ext) (simp add: emit_evidence_def wp_rules)

lemma wp_mark [wp_rules]:
  "wpM (mark_slashed P vid reason ev) Q E = (\<lambda>s.
     case port_mark_slashed P vid reason ev (rsm_world s) of
        (None, w) \<Rightarrow> Q () (s\<lparr>rsm_world := w\<rparr>)
      | (Some msg, w) \<Rightarrow> E (PortError msg) (s\<lparr>rsm_world := w\<rparr>))"
  by (rule ext) (simp add: mark_slashed_def wpM_def split: prod.splits option.splits)

lemma wp_lockdown [wp_rules]:
  "wpM (request_lockdown P reason) Q E = (\<lambda>s.
     case port_lockdown P reason (rsm_world s) of
        (None, w) \<Rightarrow> Q () (s\<lparr>rsm_world := w\<rparr>)
      | (Some msg, w) \<Rightarrow> E (PortError msg) (s\<lparr>rsm_world := w\<rparr>))"
  by (rule ext) (simp add: request_lockdown_def wpM_def split: prod.splits option.splits)

text \<open>
  A fail-closed refusal never returns: it raises, having changed nothing but the world and the
  phase, and the phase is locked exactly when the slash and the lockdown went through.
\<close>

fun fail_closed_post :: "'w rsm \<Rightarrow> string \<Rightarrow> vote list \<Rightarrow> bft_error \<Rightarrow> 'w rsm \<Rightarrow> bool" where
  "fail_closed_post s vid votes (ConsensusMalicious out ev) t =
     (ro_status out = RS_Locked \<and> ev_validator ev = vid \<and> ev_votes ev = votes
      \<and> t = s\<lparr>rsm_world := rsm_world t, rsm_phase := RP_Locked\<rparr>)"
| "fail_closed_post s vid votes (PortError msg) t = (t = s\<lparr>rsm_world := rsm_world t\<rparr>)"

text \<open>The ports only change the world, and only a port can make a report raise.\<close>

definition world_only :: "'w rsm \<Rightarrow> 'w rsm \<Rightarrow> bool" where
  "world_only s t \<longleftrightarrow> t = s\<lparr>rsm_world := rsm_world t\<rparr>"

lemma world_only_refl [simp]: "world_only s s"
  by (simp add: world_only_def)

lemma world_only_upd [simp]: "world_only s t \<Longrightarrow> world_only s (t\<lparr>rsm_world := w\<rparr>)"
  unfolding world_only_def by (metis rsm.surjective rsm.update_convs(15))

lemma escalate_attempt_wp:
  assumes "world_only s t"
  shows "wpM (escalate_attempt P reason vid) (\<lambda>_. world_only s) (\<lambda>_ _. False) t"
  using assms by (simp add: escalate_attempt_def wp_rules Let_def split: prod.split)

lemma report_malicious_wp:
  assumes "world_only s t"
  shows "wpM (report_malicious P vid ev) (\<lambda>_. world_only s)
     (\<lambda>e u. world_only s u \<and> (\<exists>msg. e = PortError msg)) t"
  using assms by (simp add: report_malicious_def wp_rules split: prod.split option.split)

lemma fail_closed_wp:
  "wpM (fail_closed P reason vid rid votes detail) (\<lambda>_ _. False) (fail_closed_post s vid votes) s"
proof -
  have 1: "wpM (report_malicious P vid (build_evidence rc vid (Some r) votes n detail))
      (\<lambda>_ u. fail_closed_post s vid votes (ConsensusMalicious (ro_locked rc (Some r) [] detail)
         (build_evidence rc vid (Some r) votes n detail)) (u\<lparr>rsm_phase := RP_Locked\<rparr>))
      (fail_closed_post s vid votes) t"
    if "world_only s t" for rc r n t
    using report_malicious_wp [OF that, of P vid "build_evidence rc vid (Some r) votes n detail"]
    by (rule wp_mono) (auto simp: world_only_def ro_locked_def build_evidence_def evidence_init_def)
  have 2: "wpM (escalate_attempt P (str_or reason ''refused'') vid) (\<lambda>_. world_only s)
      (\<lambda>_ _. False) s"
    by (rule escalate_attempt_wp) simp
  show ?thesis
    unfolding fail_closed_def wp_bind
    by (rule wp_mono [OF 2]) (auto simp: wp_rules Let_def intro: 1 simp del: fail_closed_post.simps split: option.split)
qed

lemma fail_closed_cases:
  assumes "fail_closed P reason vid rid votes detail s = (r, t)"
  obtains (locked) out ev w where "r = Inl (ConsensusMalicious out ev)" "ro_status out = RS_Locked"
      "ev_validator ev = vid" "ev_votes ev = votes" "t = s\<lparr>rsm_world := w, rsm_phase := RP_Locked\<rparr>"
  | (port) msg w where "r = Inl (PortError msg)" "t = s\<lparr>rsm_world := w\<rparr>"
proof (cases r)
  case (Inr a)
  with wp_returnsD [OF fail_closed_wp] assms show thesis by blast
next
  case (Inl e)
  with wp_raisesD [OF fail_closed_wp] assms have post: "fail_closed_post s vid votes e t" by blast
  show thesis
  proof (cases e)
    case (ConsensusMalicious out ev)
    with post Inl locked show thesis by (metis fail_closed_post.simps(1))
  next
    case (PortError msg)
    with post Inl port show thesis by (metis fail_closed_post.simps(2))
  qed
qed

text \<open>The double-sign table only holds normalised entries of the current round.\<close>

definition seen_wf :: "round_key \<Rightarrow> ((string \<times> vote_type \<times> round_key) \<times> string) list \<Rightarrow> bool" where
  "seen_wf key d \<longleftrightarrow> (\<forall>(i, h)\<in>set d. snd (snd i) = key \<and> norm_hash h = h \<and> py_strip (fst i) = fst i)"

lemma seen_wf_Nil [simp]: "seen_wf key []"
  by (simp add: seen_wf_def)

lemma seen_wf_dset:
  "seen_wf key d \<Longrightarrow> norm_hash h = h \<Longrightarrow> py_strip vid = vid \<Longrightarrow> seen_wf key (dset (vid, t, key) h d)"
  using set_dset_subset [of "(vid, t, key)" h d] by (force simp: seen_wf_def)

lemma seen_wf_filter: "seen_wf key d \<Longrightarrow> seen_wf key' (filter (\<lambda>((vid, t, k), h). k = key') d)"
  by (auto simp: seen_wf_def)

lemma seen_wfD:
  assumes "seen_wf key d" and "dget d (vid, t, k) = Some h"
  shows "k = key \<and> norm_hash h = h \<and> py_strip vid = vid"
  using map_of_SomeD [OF assms(2)] assms(1) by (force simp: seen_wf_def)

text \<open>
  The invariant of the machine: the recorded votes are for the current round, one per validator and
  type, and the double-sign table agrees with them; a proposal is only held past \<open>RP_Propose\<close>.
\<close>

definition rsm_inv :: "'w rsm \<Rightarrow> bool" where
  "rsm_inv s \<longleftrightarrow>
     (\<forall>v\<in>set (rsm_votes s). vote_wf v \<and> vo_verified v \<and> rid_key (vo_round v) = rid_key (rsm_round s)
        \<and> dget (rsm_seen s) (vo_validator v, vo_type v, rid_key (rsm_round s)) = Some (vo_hash v))
     \<and> distinct (map (\<lambda>v. (vo_validator v, vo_type v)) (rsm_votes s))
     \<and> seen_wf (rid_key (rsm_round s)) (rsm_seen s)
     \<and> (rsm_proposal s \<noteq> None \<longrightarrow> rsm_phase s \<noteq> RP_Propose)
     \<and> 0 < rsm_epoch_size s"

lemma rsm_inv_init: "rsm_inv (rsm_init expected epoch_size w)"
  by (simp add: rsm_inv_def rsm_init_def)

lemma rsm_inv_world [simp]: "rsm_inv (s\<lparr>rsm_world := w\<rparr>) = rsm_inv s"
  by (simp add: rsm_inv_def)

lemma rsm_inv_qc [simp]: "rsm_inv (s\<lparr>rsm_qc := q\<rparr>) = rsm_inv s"
  by (simp add: rsm_inv_def)

lemma rsm_inv_phase: "rsm_inv s \<Longrightarrow> ph \<noteq> RP_Propose \<Longrightarrow> rsm_inv (s\<lparr>rsm_phase := ph\<rparr>)"
  by (simp add: rsm_inv_def)

lemma rsm_inv_begin_round: "rsm_inv s \<Longrightarrow> rsm_inv (begin_round r s)"
  by (auto simp: rsm_inv_def begin_round_def intro: seen_wf_filter)

lemma rsm_inv_open_round: "rsm_inv s \<Longrightarrow> rsm_inv (snd (open_round h ep n expected s))"
proof -
  assume "rsm_inv s"
  moreover have "rsm_inv (s\<lparr>rsm_expected_proposer := p\<rparr>) = rsm_inv s" for p
    by (simp add: rsm_inv_def)
  ultimately show ?thesis
    by (auto simp: open_round_def Let_def intro!: rsm_inv_begin_round split: option.splits)
qed

lemma rsm_inv_blocks_head [simp]: "rsm_inv (s\<lparr>rsm_blocks := b, rsm_head := hd'\<rparr>) = rsm_inv s"
  "rsm_inv (s\<lparr>rsm_blocks := b\<rparr>) = rsm_inv s"
  by (simp_all add: rsm_inv_def)

lemma rsm_inv_add_block: "rsm_inv s \<Longrightarrow> rsm_inv (add_block b parent s)"
  by (auto simp: add_block_def Let_def intro!: rsm_inv_begin_round split: option.splits)

lemma fail_closed_inv:
  assumes "rsm_inv s"
  shows "rsm_inv (snd (fail_closed P reason vid rid votes detail s))"
proof -
  obtain r t where rt: "fail_closed P reason vid rid votes detail s = (r, t)" by fastforce
  from rt have "rsm_inv t"
    by (cases rule: fail_closed_cases) (simp_all add: assms rsm_inv_phase)
  with rt show ?thesis by simp
qed

lemma submit_proposal_inv: "rsm_inv s \<Longrightarrow> rsm_inv (snd (submit_proposal P p s))"
proof -
  assume inv: "rsm_inv s"
  then have "rsm_inv (s\<lparr>rsm_proposal := Some p, rsm_phase := RP_Prevote\<rparr>)"
    by (simp add: rsm_inv_def)
  with inv show ?thesis
    by (auto simp: submit_proposal_def Let_def fail_closed_inv rsm_inv_add_block split: option.splits)
qed

lemma finalize_inv: "rsm_inv s \<Longrightarrow> rsm_inv (snd (finalize P h s))"
  by (simp add: finalize_def Let_def rsm_inv_def)

lemma maybe_advance_prevote_inv: "rsm_inv s \<Longrightarrow> rsm_inv (snd (maybe_advance_prevote S h s))"
  by (simp add: maybe_advance_prevote_def Let_def rsm_inv_phase)

lemma precommit_certificate_inv: "rsm_inv s \<Longrightarrow> rsm_inv (snd (precommit_certificate P S h s))"
  by (auto simp: precommit_certificate_def Let_def intro!: finalize_inv rsm_inv_phase)

lemma maybe_advance_precommit_inv:
  "rsm_inv s \<Longrightarrow> rsm_inv (snd (maybe_advance_precommit P S h s))"
  by (auto simp: maybe_advance_precommit_def fail_closed_inv precommit_certificate_inv
      split: option.splits)

lemma vote_phase_gate_inv: "rsm_inv s \<Longrightarrow> vote_phase_gate v s = (r, t) \<Longrightarrow> rsm_inv t"
  by (auto simp: vote_phase_gate_def rsm_inv_phase split: if_splits)

lemma vote_phase_gate_frame:
  "vote_phase_gate v s = (r, t) \<Longrightarrow>
     t = s\<lparr>rsm_phase := rsm_phase t\<rparr>"
  by (auto simp: vote_phase_gate_def split: if_splits)

lemma record_vote_inv:
  assumes "rsm_inv s" and "vote_wf v" and "vo_verified v"
    and "rid_key (vo_round v) = rid_key (rsm_round s)"
    and fresh: "dget (rsm_seen s) (vo_validator v, vo_type v, rid_key (vo_round v)) = None"
  shows "rsm_inv (record_vote P v s)"
proof -
  have "(vo_validator v, vo_type v) \<notin> (\<lambda>u. (vo_validator u, vo_type u)) ` set (rsm_votes s)"
    using assms by (auto simp: rsm_inv_def)
  moreover have "py_strip (vo_validator v) = vo_validator v" "norm_hash (vo_hash v) = vo_hash v"
    using assms(2) by (simp_all add: vote_wf_def)
  ultimately show ?thesis
    using assms unfolding rsm_inv_def record_vote_def by (auto simp: seen_wf_dset)
qed

lemma vote_advance_inv: "rsm_inv s \<Longrightarrow> rsm_inv (snd (vote_advance P S v s))"
  by (simp add: vote_advance_def maybe_advance_prevote_inv maybe_advance_precommit_inv
      split: vote_type.split)

lemma rsm_phase_same: "rsm_phase s = ph \<Longrightarrow> s\<lparr>rsm_phase := ph\<rparr> = s"
  by auto

lemma vote_phase_gate_cases:
  assumes "vote_phase_gate v s = (r, t)"
  obtains (refused) ph reason where "r = Some (ro_refused ph reason (Some (rsm_round s)) (vo_hash v) [])" "t = s"
  | (passed) "r = None"
      "t = s\<lparr>rsm_phase := (if vo_type v = VT_Prevote \<and> rsm_phase s = RP_Propose \<and> rsm_proposal s = None
             then RP_Prevote else rsm_phase s)\<rparr>"
proof -
  have same: "s\<lparr>rsm_phase := rsm_phase s\<rparr> = s" by simp
  let ?ph = "if vo_type v = VT_Prevote \<and> rsm_phase s = RP_Propose \<and> rsm_proposal s = None
      then RP_Prevote else rsm_phase s"
  have "(\<exists>ph reason. r = Some (ro_refused ph reason (Some (rsm_round s)) (vo_hash v) []) \<and> t = s)
      \<or> (r = None \<and> t = s\<lparr>rsm_phase := ?ph\<rparr>)"
    using assms unfolding vote_phase_gate_def by (auto simp: same split: if_splits)
  with refused passed show thesis by blast
qed

text \<open>
  The three ways a vote can end: a soft answer that changes nothing, a fail-closed refusal, or a
  recorded vote followed by the advance of its type.
\<close>

lemma submit_vote_cases:
  assumes "submit_vote P v s = (r, t)"
  obtains (soft) out where "r = Inr out" "ro_status out \<noteq> RS_Complete" "t = s"
  | (failed) reason votes detail where
      "fail_closed P reason (vo_validator v) (Some (vo_round v)) votes detail s = (r, t)"
  | (recorded) ph where "vo_verified v" "rid_key (vo_round v) = rid_key (rsm_round s)"
      "vs_is_active (port_snapshot P (rsm_world s)) (vo_validator v)"
      "dget (rsm_seen s) (vo_validator v, vo_type v, rid_key (rsm_round s)) = None"
      "ph = (if vo_type v = VT_Prevote \<and> rsm_phase s = RP_Propose \<and> rsm_proposal s = None
             then RP_Prevote else rsm_phase s)"
      "vote_advance P (port_snapshot P (rsm_world s)) v (record_vote P v (s\<lparr>rsm_phase := ph\<rparr>)) = (r, t)"
proof (cases "rsm_phase s = RP_Locked \<or> \<not> vo_verified v \<or> rid_key (vo_round v) \<noteq> rid_key (rsm_round s)
    \<or> \<not> vs_is_active (port_snapshot P (rsm_world s)) (vo_validator v)
    \<or> dget (rsm_seen s) (vo_validator v, vo_type v, rid_key (rsm_round s)) \<noteq> None")
  case True
  with assms show thesis
    by (auto simp: submit_vote_def Let_def ro_locked_def ro_refused_def ro_accepted_def
        split: if_splits intro: soft failed)
next
  case False
  then have rt: "(case vote_phase_gate v s of
      (Some refusal, s1) \<Rightarrow> (Inr refusal, s1)
    | (None, s1) \<Rightarrow> vote_advance P (port_snapshot P (rsm_world s)) v (record_vote P v s1)) = (r, t)"
    using assms by (simp add: submit_vote_def Let_def)
  obtain g u where g: "vote_phase_gate v s = (g, u)" by fastforce
  then show thesis
  proof (cases rule: vote_phase_gate_cases)
    case refused
    with rt g show thesis by (intro soft) (auto simp: ro_refused_def)
  next
    case passed
    with rt g False show thesis by (intro recorded) auto
  qed
qed

lemma submit_vote_inv:
  assumes inv: "rsm_inv s" and wf: "vote_wf v"
  shows "rsm_inv (snd (submit_vote P v s))"
proof -
  obtain r t where rt: "submit_vote P v s = (r, t)" by fastforce
  then have "rsm_inv t"
  proof (cases rule: submit_vote_cases)
    case soft
    with inv show ?thesis by simp
  next
    case failed
    with fail_closed_inv [OF inv] show ?thesis by (metis snd_conv)
  next
    case (recorded ph)
    have "rsm_inv (s\<lparr>rsm_phase := ph\<rparr>)" using inv recorded(5) by (auto simp: rsm_inv_def)
    with recorded wf have "rsm_inv (record_vote P v (s\<lparr>rsm_phase := ph\<rparr>))"
      by (intro record_vote_inv) simp_all
    with recorded(6) vote_advance_inv show ?thesis by (metis snd_conv)
  qed
  with rt show ?thesis by simp
qed

lemma bft_step_inv: "rsm_inv s \<Longrightarrow> rsm_inv (bft_step P s e)"
  by (cases e) (simp_all add: submit_proposal_inv submit_vote_inv rsm_inv_add_block rsm_inv_open_round
      arm_quorum_live_def, simp add: rsm_inv_def)

section \<open>The finalized height never goes back\<close>

lemma fail_closed_height [simp]:
  "rsm_finalized_height (snd (fail_closed P reason vid rid votes detail s)) = rsm_finalized_height s"
proof -
  obtain r t where rt: "fail_closed P reason vid rid votes detail s = (r, t)" by fastforce
  then have "rsm_finalized_height t = rsm_finalized_height s"
    by (cases rule: fail_closed_cases) simp_all
  with rt show ?thesis by simp
qed

lemma begin_round_height [simp]: "rsm_finalized_height (begin_round r s) = rsm_finalized_height s"
  by (simp add: begin_round_def)

lemma add_block_height [simp]: "rsm_finalized_height (add_block b parent s) = rsm_finalized_height s"
  by (simp add: add_block_def Let_def split: option.split)

lemma open_round_height [simp]:
  "rsm_finalized_height (snd (open_round h ep n expected s)) = rsm_finalized_height s"
  by (simp add: open_round_def Let_def split: option.split)

lemma submit_proposal_height [simp]:
  "rsm_finalized_height (snd (submit_proposal P p s)) = rsm_finalized_height s"
  by (simp add: submit_proposal_def Let_def split: option.split)

lemma maybe_advance_prevote_height [simp]:
  "rsm_finalized_height (snd (maybe_advance_prevote S h s)) = rsm_finalized_height s"
  by (simp add: maybe_advance_prevote_def Let_def)

lemma maybe_advance_precommit_height:
  "rsm_finalized_height s \<le> rsm_finalized_height (snd (maybe_advance_precommit P S h s))"
  by (simp add: maybe_advance_precommit_def precommit_certificate_def finalize_def Let_def
      split: option.split)

lemma vote_advance_height: "rsm_finalized_height s \<le> rsm_finalized_height (snd (vote_advance P S v s))"
  by (simp add: vote_advance_def maybe_advance_precommit_height split: vote_type.split)

lemma submit_vote_height: "rsm_finalized_height s \<le> rsm_finalized_height (snd (submit_vote P v s))"
proof -
  obtain r t where rt: "submit_vote P v s = (r, t)" by fastforce
  then have "rsm_finalized_height s \<le> rsm_finalized_height t"
  proof (cases rule: submit_vote_cases)
    case soft
    then show ?thesis by simp
  next
    case failed
    then show ?thesis by (metis fail_closed_height order_refl snd_conv)
  next
    case (recorded ph)
    have "rsm_finalized_height (record_vote P v (s\<lparr>rsm_phase := ph\<rparr>)) = rsm_finalized_height s"
      by (simp add: record_vote_def)
    with recorded(6) vote_advance_height show ?thesis by (metis snd_conv)
  qed
  with rt show ?thesis by simp
qed

lemma bft_step_height: "rsm_finalized_height s \<le> rsm_finalized_height (bft_step P s e)"
  by (cases e) (simp_all add: submit_vote_height arm_quorum_live_def)

interpretation bft: ranked_component "bft_step P" rsm_inv rsm_finalized_height
  for P :: "'w bft_ports"
  by unfold_locales (auto simp: bft_step_inv bft_step_height)

section \<open>Who has voted in the current round\<close>

text \<open>
  The double-sign table, not the vote list, is what survives when the same round is opened again, so
  agreement is stated over it: the active validators whose recorded hash of a type is \<open>h\<close>.
\<close>

definition round_voters :: "validator_set \<Rightarrow> 'w rsm \<Rightarrow> vote_type \<Rightarrow> string \<Rightarrow> string set" where
  "round_voters S s t h =
     {vid. vs_is_active S vid \<and>
        (\<exists>h'. dget (rsm_seen s) (vid, t, rid_key (rsm_round s)) = Some h' \<and> norm_hash h' = norm_hash h)}"

lemma finite_round_voters [simp]: "finite (round_voters S s t h)"
proof -
  have "round_voters S s t h \<subseteq> (\<lambda>x. fst (fst x)) ` set (rsm_seen s)"
    by (force simp: round_voters_def dest: map_of_SomeD)
  then show ?thesis by (rule finite_subset) simp
qed

lemma voters_subset_round_voters:
  assumes "rsm_inv s"
  shows "voters S (rsm_votes s) (rsm_round s) t h \<subseteq> round_voters S s t h"
proof
  fix vid
  assume "vid \<in> voters S (rsm_votes s) (rsm_round s) t h"
  then obtain v where v: "v \<in> set (rsm_votes s)" "vo_validator v = vid" "vs_is_active S vid"
      "vo_type v = t" "py_lower (vo_hash v) = norm_hash h"
    by (auto simp: voters_def)
  from assms v(1) have n: "norm_hash (vo_hash v) = vo_hash v"
    and g: "dget (rsm_seen s) (vo_validator v, vo_type v, rid_key (rsm_round s)) = Some (vo_hash v)"
    by (auto simp: rsm_inv_def vote_wf_def)
  from n have "norm_hash (vo_hash v) = norm_hash h"
    using v(5) py_lower_norm_hash [of "vo_hash v"] by simp
  with g v show "vid \<in> round_voters S s t h" by (auto simp: round_voters_def)
qed

lemma round_voters_stripped: "rsm_inv s \<Longrightarrow> vid \<in> round_voters S s t h \<Longrightarrow> py_strip vid = vid"
  by (auto simp: round_voters_def rsm_inv_def dest: seen_wfD)

definition round_quorum :: "validator_set \<Rightarrow> 'w rsm \<Rightarrow> vote_type \<Rightarrow> string \<Rightarrow> bool" where
  "round_quorum S s t h = quorum_reached (sum (stake_of S) (round_voters S s t h)) (total_active_stake S)"

lemma quorum_reached_mono: "quorum_reached a n \<Longrightarrow> a \<le> b \<Longrightarrow> quorum_reached b n"
  by (auto simp: quorum_reached_def split: if_splits)

lemma votes_quorum_round_quorum:
  assumes "rsm_inv s" and "snapshot_wf S"
    and "quorum_reached (stake_for_votes S (rsm_votes s) (rsm_round s) t h) (total_active_stake S)"
  shows "round_quorum S s t h"
  unfolding round_quorum_def
  using assms(3) unfolding stake_for_votes_eq
  by (rule quorum_reached_mono)
     (intro sum_mono2 finite_round_voters voters_subset_round_voters assms stake_of_nonneg)

text \<open>Two quorums of one round and type are for the same block.\<close>

lemma round_quorum_unique:
  assumes "rsm_inv s" and "snapshot_wf S" and "round_quorum S s t h" and "round_quorum S s t h'"
  shows "norm_hash h = norm_hash h'"
proof (rule ccontr)
  assume "norm_hash h \<noteq> norm_hash h'"
  then have "round_voters S s t h \<inter> round_voters S s t h' = {}"
    by (auto simp: round_voters_def)
  moreover have "total_active_stake S \<le> 3 * sum (stake_of S) (round_voters S s t h \<inter> round_voters S s t h')"
    using assms(3,4) round_voters_stripped [OF assms(1)] unfolding round_quorum_def
    by (intro two_quorums_overlap assms(2) finite_round_voters ballI) (auto simp: round_voters_def)
  moreover have "0 < total_active_stake S"
    using assms(3) by (auto simp: round_quorum_def dest: quorum_reachedD)
  ultimately show False by simp
qed

text \<open>A step that stays in the round never forgets a recorded vote.\<close>

definition seen_kept :: "'w rsm \<Rightarrow> 'w rsm \<Rightarrow> bool" where
  "seen_kept s t \<longleftrightarrow> (rid_key (rsm_round t) = rid_key (rsm_round s) \<longrightarrow>
     (\<forall>vid ty h. dget (rsm_seen s) (vid, ty, rid_key (rsm_round s)) = Some h \<longrightarrow>
        dget (rsm_seen t) (vid, ty, rid_key (rsm_round s)) = Some h))"

lemma seen_kept_same: "rsm_seen t = rsm_seen s \<Longrightarrow> seen_kept s t"
  by (simp add: seen_kept_def)

lemma dget_filter_round:
  "dget (filter (\<lambda>((vid, t, k), h). k = key) d) (vid, ty, key) = dget d (vid, ty, key)"
  for d :: "((string \<times> vote_type \<times> round_key) \<times> string) list"
  by (induction d) auto

lemma begin_round_seen_kept: "rsm_seen s' = rsm_seen s \<Longrightarrow> seen_kept s (begin_round r s')"
  by (auto simp: seen_kept_def begin_round_def) (metis dget_filter_round)

lemma add_block_seen_kept: "rsm_seen s' = rsm_seen s \<Longrightarrow> seen_kept s (add_block b parent s')"
  by (simp add: add_block_def Let_def begin_round_seen_kept seen_kept_same split: option.split)

lemma fail_closed_seen_kept: "seen_kept s (snd (fail_closed P reason vid rid votes detail s))"
proof -
  obtain r t where rt: "fail_closed P reason vid rid votes detail s = (r, t)" by fastforce
  then have "rsm_seen t = rsm_seen s" by (cases rule: fail_closed_cases) simp_all
  with rt show ?thesis by (simp add: seen_kept_same)
qed

lemma submit_proposal_seen_kept: "seen_kept s (snd (submit_proposal P p s))"
  by (simp add: submit_proposal_def Let_def fail_closed_seen_kept add_block_seen_kept seen_kept_same
      split: option.split)

lemma fail_closed_seen [simp]:
  "rsm_seen (snd (fail_closed P reason vid rid votes detail s)) = rsm_seen s"
  "rsm_round (snd (fail_closed P reason vid rid votes detail s)) = rsm_round s"
proof -
  obtain r t where rt: "fail_closed P reason vid rid votes detail s = (r, t)" by fastforce
  then have "rsm_seen t = rsm_seen s \<and> rsm_round t = rsm_round s"
    by (cases rule: fail_closed_cases) simp_all
  with rt show "rsm_seen (snd (fail_closed P reason vid rid votes detail s)) = rsm_seen s"
    and "rsm_round (snd (fail_closed P reason vid rid votes detail s)) = rsm_round s" by simp_all
qed

lemma vote_advance_seen [simp]:
  "rsm_seen (snd (vote_advance P S v s)) = rsm_seen s"
  "rsm_round (snd (vote_advance P S v s)) = rsm_round s"
  by (simp_all add: vote_advance_def maybe_advance_prevote_def maybe_advance_precommit_def
      precommit_certificate_def finalize_def Let_def split: vote_type.split option.split)

lemma submit_vote_seen_kept: "seen_kept s (snd (submit_vote P v s))"
proof -
  obtain r t where rt: "submit_vote P v s = (r, t)" by fastforce
  then have "seen_kept s t"
  proof (cases rule: submit_vote_cases)
    case soft
    then show ?thesis by (simp add: seen_kept_same)
  next
    case failed
    then show ?thesis by (metis fail_closed_seen_kept snd_conv)
  next
    case (recorded ph)
    have "t = snd (vote_advance P (port_snapshot P (rsm_world s)) v (record_vote P v (s\<lparr>rsm_phase := ph\<rparr>)))"
      using recorded(6) by simp
    with recorded show ?thesis by (auto simp: seen_kept_def record_vote_def)
  qed
  with rt show ?thesis by simp
qed

lemma bft_step_seen_kept: "seen_kept s (bft_step P s e)"
  by (cases e)
     (auto simp: submit_proposal_seen_kept submit_vote_seen_kept add_block_seen_kept open_round_def Let_def
       arm_quorum_live_def seen_kept_same intro!: begin_round_seen_kept split: option.split)

lemma round_quorum_kept:
  assumes "rid_key (rsm_round (bft_step P s e)) = rid_key (rsm_round s)" and "snapshot_wf S"
    and "round_quorum S s t h"
  shows "round_quorum S (bft_step P s e) t h"
proof -
  have "round_voters S s t h \<subseteq> round_voters S (bft_step P s e) t h"
    using bft_step_seen_kept [of s P e] assms(1) by (auto simp: round_voters_def seen_kept_def)
  then have "sum (stake_of S) (round_voters S s t h) \<le> sum (stake_of S) (round_voters S (bft_step P s e) t h)"
    by (intro sum_mono2) (auto simp: stake_of_nonneg assms(2))
  with assms(3) show ?thesis unfolding round_quorum_def by (rule quorum_reached_mono)
qed

section \<open>What a finalization rests on\<close>

lemma fail_closed_no_return [simp]: "fst (fail_closed P reason vid rid votes detail s) \<noteq> Inr out"
  by (cases "fail_closed P reason vid rid votes detail s" rule: prod.exhaust)
     (auto elim: fail_closed_cases)

lemma vote_advance_complete:
  assumes "vote_advance P S v s = (Inr out, t)" and "ro_status out = RS_Complete"
  shows "vo_type v = VT_Precommit \<and> ro_hash out = py_lower (vo_hash v)
     \<and> rsm_votes t = rsm_votes s \<and> rsm_round t = rsm_round s \<and> rsm_seen t = rsm_seen s
     \<and> ro_hash out \<in> rsm_finalized_hashes t \<and> rsm_phase t = RP_Finalize
     \<and> quorum_reached (stake_for_votes S (rsm_votes s) (rsm_round s) VT_Precommit (vo_hash v))
         (total_active_stake S)"
proof -
  have nofail: "fail_closed P reason vid rid votes detail s \<noteq> (Inr out, t)" for reason vid rid votes detail
    using fail_closed_no_return by (metis fst_conv)
  show ?thesis
    using assms nofail
    by (auto simp: vote_advance_def maybe_advance_prevote_def maybe_advance_precommit_def
        precommit_certificate_def finalize_def Let_def ro_accepted_def ro_complete_def
        certificate_reached_iff split: vote_type.splits option.splits if_splits)
qed

text \<open>A vote that completes the round was recorded in it and leaves a precommit quorum behind.\<close>

lemma submit_vote_complete:
  assumes inv: "rsm_inv s" and wf: "vote_wf v" and S: "snapshot_wf (port_snapshot P (rsm_world s))"
    and rt: "submit_vote P v s = (Inr out, t)" and st: "ro_status out = RS_Complete"
  shows "round_quorum (port_snapshot P (rsm_world s)) t VT_Precommit (ro_hash out)
     \<and> norm_hash (ro_hash out) = ro_hash out \<and> ro_hash out \<in> rsm_finalized_hashes t
     \<and> rid_key (rsm_round t) = rid_key (rsm_round s) \<and> vo_type v = VT_Precommit
     \<and> rsm_phase t = RP_Finalize"
  using rt
proof (cases rule: submit_vote_cases)
  case soft
  with st show ?thesis by simp
next
  case failed
  then show ?thesis by (metis fail_closed_no_return fst_conv)
next
  case (recorded ph)
  let ?S = "port_snapshot P (rsm_world s)" and ?u = "record_vote P v (s\<lparr>rsm_phase := ph\<rparr>)"
  note c = vote_advance_complete [OF recorded(6) st]
  have h: "ro_hash out = vo_hash v" "norm_hash (vo_hash v) = vo_hash v"
    using c wf by (auto simp: vote_wf_def norm_hash_def) (metis py_lower_idem)
  have "rsm_inv t" using submit_vote_inv [OF inv wf, of P] rt by simp
  moreover have "quorum_reached (stake_for_votes ?S (rsm_votes t) (rsm_round t) VT_Precommit (vo_hash v))
      (total_active_stake ?S)" using c by simp
  ultimately have "round_quorum ?S t VT_Precommit (vo_hash v)"
    using S by (intro votes_quorum_round_quorum)
  with c h show ?thesis by (simp add: record_vote_def)
qed

end
