(* ===== verification/Registry.thy ===== *)
theory Registry
  imports Bft
begin

text \<open>
  The two places that keep validators: \<open>ConsensusEngine\<close> of \<open>consensus_engine.py\<close> (proposer and
  attestation bookkeeping, a record \<open>consensus_engine\<close>) and \<open>ValidatorRegistry\<close> of
  \<open>consensus/validator_registry.py\<close> (a dictionary of \<open>ValidatorState\<close>, the record \<open>vstate\<close>). Stakes are
  integers. The floating-point reputation and the score derived from it, the wall clock, and the
  proposer and committee selections (native extension) are left out.
\<close>

section \<open>ConsensusEngine\<close>

record engine_validator =
  en_address :: string
  en_stake :: int
  en_active :: bool
  en_attest :: int
  en_proposed :: int

record consensus_engine =
  ce_validators :: "(string \<times> engine_validator) list"
  ce_epoch :: int
  ce_slot :: int
  ce_attest :: "(int \<times> string list) list"
  ce_finalized :: "int list"

definition slots_per_epoch :: int where
  "slots_per_epoch = 32"

definition engine_init :: consensus_engine where
  "engine_init = \<lparr>ce_validators = [], ce_epoch = 0, ce_slot = 0, ce_attest = [], ce_finalized = []\<rparr>"

definition engine_add_validator :: "string \<Rightarrow> int \<Rightarrow> consensus_engine \<Rightarrow> bool \<times> consensus_engine" where
  "engine_add_validator addr stake c =
     (if dget (ce_validators c) addr \<noteq> None then (False, c)
      else (True, c\<lparr>ce_validators := dset addr \<lparr>en_address = addr,
              en_stake = max 0 (to_satoshi_int stake), en_active = True, en_attest = 0,
              en_proposed = 0\<rparr> (ce_validators c)\<rparr>))"

definition engine_total_stake :: "consensus_engine \<Rightarrow> int" where
  "engine_total_stake c = (\<Sum>(a, v)\<leftarrow>filter (\<lambda>(a, v). en_active v) (ce_validators c). en_stake v)"

definition engine_slash_validator :: "string \<Rightarrow> consensus_engine \<Rightarrow> bool \<times> consensus_engine" where
  "engine_slash_validator addr c =
     (case dget (ce_validators c) (py_strip addr) of
        None \<Rightarrow> (False, c)
      | Some v \<Rightarrow> (True, c\<lparr>ce_validators :=
                     dset (py_strip addr) (v\<lparr>en_active := False\<rparr>) (ce_validators c)\<rparr>))"

definition engine_attest :: "string \<Rightarrow> int \<Rightarrow> string \<Rightarrow> consensus_engine \<Rightarrow> bool \<times> consensus_engine" where
  "engine_attest addr slot block_hash c =
     (case dget (ce_validators c) addr of
        None \<Rightarrow> (False, c)
      | Some v \<Rightarrow>
          if \<not> en_active v then (False, c)
          else (True, c\<lparr>ce_validators := dset addr (v\<lparr>en_attest := en_attest v + 1\<rparr>) (ce_validators c),
                        ce_attest := dset slot (dget_or (ce_attest c) slot [] @ [addr]) (ce_attest c)\<rparr>))"

definition engine_finalize_checkpoint :: "consensus_engine \<Rightarrow> consensus_engine" where
  "engine_finalize_checkpoint c =
     (let tot = int (length (ce_validators c)) in
      if tot = 0 then c
      else c\<lparr>ce_finalized := ce_finalized c @
               map fst (filter (\<lambda>(slot, attestors). int (length attestors) * 3 \<ge> tot * 2) (ce_attest c))\<rparr>)"

definition engine_advance_slot :: "consensus_engine \<Rightarrow> int \<times> consensus_engine" where
  "engine_advance_slot c =
     (let c1 = c\<lparr>ce_slot := ce_slot c + 1\<rparr>;
          c2 = (if ce_slot c1 mod slots_per_epoch = 0
                then engine_finalize_checkpoint (c1\<lparr>ce_epoch := ce_epoch c1 + 1\<rparr>) else c1)
      in (ce_slot c2, c2))"

section \<open>ValidatorRegistry\<close>

record vstate =
  vs_address :: string
  vs_stake :: int
  vs_missed :: int
  vs_slashed :: bool
  vs_slash_count :: int
  vs_produced :: int
  vs_voted :: int

definition vstate_init :: "string \<Rightarrow> int \<Rightarrow> vstate" where
  "vstate_init addr stake = \<lparr>vs_address = addr, vs_stake = stake, vs_missed = 0, vs_slashed = False,
     vs_slash_count = 0, vs_produced = 0, vs_voted = 0\<rparr>"

definition vstate_slash :: "vstate \<Rightarrow> vstate" where
  "vstate_slash v = v\<lparr>vs_slash_count := vs_slash_count v + 1, vs_slashed := True\<rparr>"

definition vstate_missed :: "vstate \<Rightarrow> vstate" where
  "vstate_missed v =
     (let v1 = v\<lparr>vs_missed := vs_missed v + 1\<rparr>
      in if vs_missed v1 > 10 then vstate_slash v1 else v1)"

definition vstate_produced :: "vstate \<Rightarrow> vstate" where
  "vstate_produced v = v\<lparr>vs_produced := vs_produced v + 1, vs_missed := max 0 (vs_missed v - 1)\<rparr>"

definition vstate_voted :: "vstate \<Rightarrow> vstate" where
  "vstate_voted v = v\<lparr>vs_voted := vs_voted v + 1\<rparr>"

type_synonym registry = "(string \<times> vstate) list"

definition register_validator :: "string \<Rightarrow> int \<Rightarrow> registry \<Rightarrow> bool \<times> registry" where
  "register_validator addr stake r =
     (if dget r addr \<noteq> None then (False, r) else (True, dset addr (vstate_init addr stake) r))"

definition get_all_validators :: "registry \<Rightarrow> vstate list" where
  "get_all_validators r = map snd r"

definition registry_total_stake :: "registry \<Rightarrow> int" where
  "registry_total_stake r = (\<Sum>v\<leftarrow>map snd r. vs_stake v)"

text \<open>The operations that look one validator up and let it change.\<close>

definition registry_on :: "(vstate \<Rightarrow> vstate) \<Rightarrow> string \<Rightarrow> registry \<Rightarrow> registry" where
  "registry_on f addr r = (case dget r addr of None \<Rightarrow> r | Some v \<Rightarrow> dset addr (f v) r)"

definition record_produced_block :: "string \<Rightarrow> registry \<Rightarrow> registry" where
  "record_produced_block = registry_on vstate_produced"

definition record_missed_block :: "string \<Rightarrow> registry \<Rightarrow> registry" where
  "record_missed_block = registry_on vstate_missed"

definition registry_record_vote :: "string \<Rightarrow> registry \<Rightarrow> registry" where
  "registry_record_vote = registry_on vstate_voted"

definition registry_slash_validator :: "string \<Rightarrow> registry \<Rightarrow> registry" where
  "registry_slash_validator = registry_on vstate_slash"

section \<open>Frame lemmas\<close>

text \<open>The dictionaries are keyed by the address their values carry.\<close>

definition engine_wf :: "consensus_engine \<Rightarrow> bool" where
  "engine_wf c \<longleftrightarrow> distinct (map fst (ce_validators c))
     \<and> (\<forall>(a, v)\<in>set (ce_validators c). en_address v = a \<and> 0 \<le> en_stake v)"

definition registry_wf :: "registry \<Rightarrow> bool" where
  "registry_wf r \<longleftrightarrow> distinct (map fst r) \<and> (\<forall>(a, v)\<in>set r. vs_address v = a)"

lemma set_dset: "distinct (map fst d) \<Longrightarrow>
    (k', v') \<in> set (dset k v d) \<longleftrightarrow> (if k = k' then v = v' else (k', v') \<in> set d)"
  using map_of_eq_Some_iff [of d k' v'] map_of_eq_Some_iff [of "dset k v d" k' v'] by auto

lemma engine_wf_dset:
  "engine_wf c \<Longrightarrow> en_address v = a \<Longrightarrow> 0 \<le> en_stake v \<Longrightarrow>
     engine_wf (c\<lparr>ce_validators := dset a v (ce_validators c)\<rparr>)"
  by (auto simp: engine_wf_def set_dset split: if_splits)

lemma engine_wf_frame [simp]:
  "engine_wf (c\<lparr>ce_attest := x\<rparr>) = engine_wf c" "engine_wf (c\<lparr>ce_finalized := y\<rparr>) = engine_wf c"
  "engine_wf (c\<lparr>ce_epoch := z\<rparr>) = engine_wf c" "engine_wf (c\<lparr>ce_slot := z\<rparr>) = engine_wf c"
  by (simp_all add: engine_wf_def)

lemma engine_wf_get: "engine_wf c \<Longrightarrow> dget (ce_validators c) a = Some v \<Longrightarrow> en_address v = a \<and> 0 \<le> en_stake v"
  by (auto simp: engine_wf_def dest!: map_of_SomeD)

lemma engine_ops_wf:
  assumes "engine_wf c"
  shows "engine_wf (snd (engine_add_validator a st c))" "engine_wf (snd (engine_slash_validator a c))"
    "engine_wf (snd (engine_attest a slot h c))" "engine_wf (snd (engine_advance_slot c))"
  using assms engine_wf_get [OF assms]
  by (auto simp: engine_add_validator_def engine_slash_validator_def engine_attest_def
      engine_advance_slot_def engine_finalize_checkpoint_def Let_def intro!: engine_wf_dset
      split: option.split)

lemma registry_wf_dset: "registry_wf r \<Longrightarrow> vs_address v = a \<Longrightarrow> registry_wf (dset a v r)"
  by (auto simp: registry_wf_def set_dset split: if_splits)

lemma registry_wf_get: "registry_wf r \<Longrightarrow> dget r a = Some v \<Longrightarrow> vs_address v = a"
  by (auto simp: registry_wf_def dest!: map_of_SomeD)

lemma registry_on_wf: "registry_wf r \<Longrightarrow> (\<And>v. vs_address (f v) = vs_address v) \<Longrightarrow> registry_wf (registry_on f a r)"
  by (auto simp: registry_on_def registry_wf_get intro!: registry_wf_dset split: option.split)

lemma vstate_address [simp]:
  "vs_address (vstate_slash v) = vs_address v" "vs_address (vstate_missed v) = vs_address v"
  "vs_address (vstate_produced v) = vs_address v" "vs_address (vstate_voted v) = vs_address v"
  by (simp_all add: vstate_slash_def vstate_missed_def vstate_produced_def vstate_voted_def Let_def)

lemma registry_slash_wf [simp]: "registry_wf r \<Longrightarrow> registry_wf (registry_slash_validator a r)"
  by (simp add: registry_slash_validator_def registry_on_wf)

lemma vstate_slashed_sticky:
  "vs_slashed v \<Longrightarrow> f \<in> {vstate_slash, vstate_missed, vstate_produced, vstate_voted} \<Longrightarrow> vs_slashed (f v)"
  by (auto simp: vstate_slash_def vstate_missed_def vstate_produced_def vstate_voted_def Let_def)

end
