(* ===== verification/BftPorts.thy ===== *)
theory BftPorts
  imports BftRound Registry
begin

text \<open>
  The adapters of \<open>consensus/registry_adapter.py\<close> that stand behind the ports of the round state
  machine, over the engine and the registry of \<open>Registry\<close>, with the part of
  \<open>consensus/adapter.py\<close> they call (\<open>slash_validator\<close>). The database and the lockdown hook are
  outside: \<open>adapter_env\<close> gives them as operations on a state \<open>'d\<close>. The event bus is the list of the
  events emitted on it. The locale \<open>slashing_ports\<close> is the contract the round relies on when it
  refuses an equivocating validator; it is interpreted on these adapters.
\<close>

section \<open>The world behind the ports\<close>

datatype bus_event =
    ConsensusRefuse bus_payload
  | ConsensusLockdown string
  | Attestation string int string vote_type
  | Finalized int string

record 'd cons_world =
  cw_engine :: consensus_engine
  cw_registry :: "registry option"
  cw_attempts :: "(string \<times> int) list"
  cw_last :: "evidence option"
  cw_last_payload :: "bus_payload option"
  cw_lockdown_reason :: string
  cw_bus :: "bus_event list option"
  cw_ext :: 'd

record 'd adapter_env =
  env_db_slash :: "string \<Rightarrow> 'd \<Rightarrow> string option \<times> 'd"
  env_hook :: "(string \<Rightarrow> 'd \<Rightarrow> 'd) option"

definition bus_emit :: "bus_event \<Rightarrow> 'd cons_world \<Rightarrow> 'd cons_world" where
  "bus_emit e w = w\<lparr>cw_bus := map_option (\<lambda>es. es @ [e]) (cw_bus w)\<rparr>"

section \<open>AdapterValidatorRegistry\<close>

definition from_registry_obj :: "vstate \<Rightarrow> validator_info option" where
  "from_registry_obj v =
     (if vs_address v = [] then None
      else Some (validator_info_init \<lparr>vi_id = vs_address v, vi_stake = vs_stake v, vi_pubkey = [],
             vi_active = True, vi_slashed = vs_slashed v\<rparr>))"

fun registry_infos :: "vstate list \<Rightarrow> string list \<Rightarrow> validator_info list" where
  "registry_infos [] seen = []"
| "registry_infos (v # vs) seen =
     (case from_registry_obj v of
        None \<Rightarrow> registry_infos vs seen
      | Some i \<Rightarrow> if vi_id i \<in> set seen then registry_infos vs seen
                  else i # registry_infos vs (vi_id i # seen))"

fun engine_infos :: "(string \<times> engine_validator) list \<Rightarrow> string list \<Rightarrow> validator_info list" where
  "engine_infos [] seen = []"
| "engine_infos ((addr, v) # vs) seen =
     (let vid = str_or (en_address v) addr in
      if vid \<in> set seen then engine_infos vs seen
      else validator_info_init \<lparr>vi_id = vid, vi_stake = en_stake v, vi_pubkey = [],
             vi_active = en_active v, vi_slashed = (\<not> en_active v)\<rparr> # engine_infos vs (vid # seen))"

definition iter_infos :: "'d cons_world \<Rightarrow> validator_info list" where
  "iter_infos w =
     (let out = (case cw_registry w of None \<Rightarrow> [] | Some r \<Rightarrow> registry_infos (get_all_validators r) [])
      in out @ engine_infos (ce_validators (cw_engine w)) (map vi_id out))"

definition adapter_snapshot :: "'d cons_world \<Rightarrow> validator_set" where
  "adapter_snapshot w = \<lparr>vs_validators = iter_infos w\<rparr>"

definition adapter_list_active :: "'d cons_world \<Rightarrow> validator_info list" where
  "adapter_list_active w = filter (\<lambda>v. vi_active v \<and> \<not> vi_slashed v) (iter_infos w)"

definition adapter_get :: "'d cons_world \<Rightarrow> string \<Rightarrow> validator_info option" where
  "adapter_get w vid = find (\<lambda>v. vi_id v = py_strip vid) (iter_infos w)"

definition adapter_total_active_stake :: "'d cons_world \<Rightarrow> int" where
  "adapter_total_active_stake w = (\<Sum>v\<leftarrow>adapter_list_active w. vi_stake v)"

definition adapter_is_active :: "'d cons_world \<Rightarrow> string \<Rightarrow> bool" where
  "adapter_is_active w vid =
     (case adapter_get w vid of None \<Rightarrow> False | Some v \<Rightarrow> vi_active v \<and> \<not> vi_slashed v)"

text \<open>\<open>ConsensusAdapter._on_validator_slashed\<close>: engine, database, registry, in that order.\<close>

definition on_validator_slashed ::
  "'d adapter_env \<Rightarrow> string \<Rightarrow> 'd cons_world \<Rightarrow> string option \<times> 'd cons_world" where
  "on_validator_slashed env addr w =
     (let w1 = w\<lparr>cw_engine := snd (engine_slash_validator addr (cw_engine w))\<rparr>;
          (err, d) = env_db_slash env addr (cw_ext w1);
          w2 = w1\<lparr>cw_ext := d\<rparr>;
          w3 = w2\<lparr>cw_registry := map_option (registry_slash_validator addr) (cw_registry w2)\<rparr>
      in (case err of None \<Rightarrow> None
          | Some msg \<Rightarrow> Some (''slash persist failed for '' @ addr @ '': '' @ msg), w3))"

text \<open>\<open>mark_slashed\<close>: the registry is tried only when the adapter failed.\<close>

definition adapter_mark_slashed ::
  "'d adapter_env \<Rightarrow> string \<Rightarrow> string \<Rightarrow> evidence \<Rightarrow> 'd cons_world \<Rightarrow> string option \<times> 'd cons_world"
where
  "adapter_mark_slashed env vid reason ev w =
     (let v = py_strip vid in
      if v = [] then (None, w)
      else (case on_validator_slashed env v w of
              (None, w1) \<Rightarrow> (None, w1)
            | (Some err, w1) \<Rightarrow>
                (case cw_registry w1 of
                   Some r \<Rightarrow> (None, w1\<lparr>cw_registry := Some (registry_slash_validator v r)\<rparr>)
                 | None \<Rightarrow> (Some (''mark_slashed failed for '' @ py_repr v @ '' reason='' @ py_repr reason
                               @ '': '' @ ''adapter:'' @ err), w1))))"

section \<open>Evidence, lockdown and side effects\<close>

definition adapter_emit :: "evidence \<Rightarrow> 'd cons_world \<Rightarrow> 'd cons_world" where
  "adapter_emit ev w =
     bus_emit (ConsensusRefuse (to_bus_payload ev))
       (w\<lparr>cw_last := Some ev, cw_last_payload := Some (to_bus_payload ev)\<rparr>)"

definition adapter_note :: "string \<Rightarrow> string \<Rightarrow> 'd cons_world \<Rightarrow> int \<times> 'd cons_world" where
  "adapter_note vid reason w =
     (let key = vid @ '':'' @ reason; n = dget_or (cw_attempts w) key 0 + 1
      in (n, w\<lparr>cw_attempts := dset key n (cw_attempts w)\<rparr>))"

definition adapter_lockdown ::
  "'d adapter_env \<Rightarrow> string \<Rightarrow> 'd cons_world \<Rightarrow> string option \<times> 'd cons_world" where
  "adapter_lockdown env reason w =
     (let r = str_or reason ''consensus_double_sign'';
          w1 = bus_emit (ConsensusLockdown r) (w\<lparr>cw_lockdown_reason := r\<rparr>)
      in (None, (case env_hook env of None \<Rightarrow> w1 | Some hook \<Rightarrow> w1\<lparr>cw_ext := hook r (cw_ext w1)\<rparr>)))"

definition adapter_on_attestation :: "vote \<Rightarrow> 'd cons_world \<Rightarrow> 'd cons_world" where
  "adapter_on_attestation v =
     bus_emit (Attestation (vo_validator v) (vo_slot v) (vo_hash v) (vo_type v))"

definition adapter_on_finalized :: "string \<Rightarrow> int \<Rightarrow> 'd cons_world \<Rightarrow> 'd cons_world" where
  "adapter_on_finalized h n = bus_emit (Finalized n h)"

definition adapter_ports :: "'d adapter_env \<Rightarrow> 'd cons_world bft_ports" where
  "adapter_ports env = \<lparr>port_snapshot = adapter_snapshot, port_mark_slashed = adapter_mark_slashed env,
     port_note = adapter_note, port_emit = adapter_emit, port_lockdown = adapter_lockdown env,
     port_on_attestation = adapter_on_attestation, port_on_finalized = adapter_on_finalized\<rparr>"

section \<open>The snapshot the adapters give\<close>

lemma registry_infos_init:
  "i \<in> set (registry_infos vs seen) \<Longrightarrow> \<exists>j. i = validator_info_init j"
  by (induction vs seen rule: registry_infos.induct)
     (auto simp: from_registry_obj_def split: option.splits if_splits)

lemma engine_infos_init: "i \<in> set (engine_infos vs seen) \<Longrightarrow> \<exists>j. i = validator_info_init j"
  by (induction vs seen rule: engine_infos.induct) (auto simp: Let_def split: if_splits)

lemma iter_infos_init: "i \<in> set (iter_infos w) \<Longrightarrow> \<exists>j. i = validator_info_init j"
  by (auto simp: iter_infos_def Let_def dest: registry_infos_init engine_infos_init split: option.splits)

lemma adapter_snapshot_wf [simp]: "snapshot_wf (adapter_snapshot w)"
  by (auto simp: snapshot_wf_def adapter_snapshot_def validator_info_init_def dest!: iter_infos_init)

text \<open>The port's own lookup is the one of the snapshot.\<close>

lemma adapter_is_active_snapshot: "adapter_is_active w vid = vs_is_active (adapter_snapshot w) vid"
  by (simp add: adapter_is_active_def adapter_get_def vs_is_active_def vs_get_def adapter_snapshot_def)

text \<open>Addresses without surrounding white space, as every write path of the node gives them.\<close>

definition cons_wf :: "'d cons_world \<Rightarrow> bool" where
  "cons_wf w \<longleftrightarrow> engine_wf (cw_engine w) \<and> (\<forall>a\<in>fst ` set (ce_validators (cw_engine w)). py_strip a = a)
     \<and> (case cw_registry w of None \<Rightarrow> True
        | Some r \<Rightarrow> registry_wf r \<and> (\<forall>a\<in>fst ` set r. py_strip a = a))"

definition info_of_vstate :: "vstate \<Rightarrow> validator_info" where
  "info_of_vstate v = validator_info_init \<lparr>vi_id = vs_address v, vi_stake = vs_stake v, vi_pubkey = [],
     vi_active = True, vi_slashed = vs_slashed v\<rparr>"

definition info_of_engine :: "engine_validator \<Rightarrow> validator_info" where
  "info_of_engine v = validator_info_init \<lparr>vi_id = en_address v, vi_stake = en_stake v, vi_pubkey = [],
     vi_active = en_active v, vi_slashed = (\<not> en_active v)\<rparr>"

lemma info_simps [simp]:
  "vi_id (info_of_vstate v) = py_strip (vs_address v)" "vi_active (info_of_vstate v)"
  "vi_slashed (info_of_vstate v) = vs_slashed v" "vi_id (info_of_engine e) = py_strip (en_address e)"
  "vi_active (info_of_engine e) = en_active e" "vi_slashed (info_of_engine e) = (\<not> en_active e)"
  by (simp_all add: info_of_vstate_def info_of_engine_def validator_info_init_def)

lemma find_registry_infos:
  assumes "registry_wf r" and "\<forall>a\<in>fst ` set r. py_strip a = a"
  shows "find (\<lambda>i. vi_id i = v) (registry_infos (map snd r) seen) =
     (if v = [] \<or> v \<in> set seen then None else map_option info_of_vstate (dget r v))"
  using assms
proof (induction r arbitrary: seen v)
  case Nil
  then show ?case by simp
next
  case (Cons x r)
  obtain a s where x: "x = (a, s)" by fastforce
  from Cons.prems x have a: "vs_address s = a" "py_strip a = a" "a \<notin> fst ` set r"
    by (auto simp: registry_wf_def)
  from Cons.prems x have "registry_wf r" "\<forall>a\<in>fst ` set r. py_strip a = a"
    by (auto simp: registry_wf_def)
  note IH = Cons.IH [OF this]
  have "from_registry_obj s = (if a = [] then None else Some (info_of_vstate s))"
    by (simp add: from_registry_obj_def info_of_vstate_def a)
  then show ?case using a by (auto simp: x IH)
qed

lemma find_engine_infos:
  assumes "\<forall>(a, e)\<in>set d. en_address e = a \<and> py_strip a = a"
  shows "find (\<lambda>i. vi_id i = v) (engine_infos d seen) =
     (if v \<in> set seen then None else map_option info_of_engine (dget d v))"
  using assms
proof (induction d arbitrary: seen v)
  case Nil
  then show ?case by simp
next
  case (Cons x d)
  obtain a e where x: "x = (a, e)" by fastforce
  from Cons.prems x have a: "en_address e = a" "py_strip a = a" by auto
  from Cons.prems have "\<forall>(a, e)\<in>set d. en_address e = a \<and> py_strip a = a" by simp
  note IH = Cons.IH [OF this]
  have "str_or (en_address e) a = a" by (simp add: a str_or_def)
  moreover have "validator_info_init \<lparr>vi_id = a, vi_stake = en_stake e, vi_pubkey = [],
      vi_active = en_active e, vi_slashed = (\<not> en_active e)\<rparr> = info_of_engine e"
    by (simp add: info_of_engine_def a)
  ultimately show ?case using a by (auto simp: x IH)
qed

lemma find_append: "find P (xs @ ys) = (case find P xs of None \<Rightarrow> find P ys | Some x \<Rightarrow> Some x)"
  by (induction xs) auto

lemma vi_id_in_find: "v \<in> vi_id ` set xs \<longleftrightarrow> find (\<lambda>i. vi_id i = v) xs \<noteq> None"
  by (auto simp: find_None_iff)

text \<open>Who is active according to the snapshot: the registry first, then the engine.\<close>

lemma adapter_active_iff:
  assumes wf: "cons_wf w" and v: "py_strip vid = v"
  shows "vs_is_active (adapter_snapshot w) vid =
     (case (if v = [] then None else Option.bind (cw_registry w) (\<lambda>r. dget r v)) of
        Some s \<Rightarrow> \<not> vs_slashed s
      | None \<Rightarrow> (case dget (ce_validators (cw_engine w)) v of None \<Rightarrow> False | Some e \<Rightarrow> en_active e))"
proof -
  have eng: "\<forall>(a, e)\<in>set (ce_validators (cw_engine w)). en_address e = a \<and> py_strip a = a"
    using wf by (force simp: cons_wf_def engine_wf_def)
  show ?thesis
  proof (cases "cw_registry w")
    case None
    then show ?thesis
      by (simp add: vs_is_active_def vs_get_def adapter_snapshot_def iter_infos_def v
          find_engine_infos [OF eng] split: option.split)
  next
    case (Some r)
    then have r: "registry_wf r" "\<forall>a\<in>fst ` set r. py_strip a = a" using wf by (auto simp: cons_wf_def)
    let ?out = "registry_infos (map snd r) []"
    have out: "find (\<lambda>i. vi_id i = v) ?out = (if v = [] then None else map_option info_of_vstate (dget r v))"
      using find_registry_infos [OF r, of v "[]"] by simp
    have "vs_get (adapter_snapshot w) vid =
        (case find (\<lambda>i. vi_id i = v) ?out of
           None \<Rightarrow> map_option info_of_engine (dget (ce_validators (cw_engine w)) v) | Some i \<Rightarrow> Some i)"
      using vi_id_in_find [of v ?out]
      by (simp add: vs_get_def adapter_snapshot_def iter_infos_def Let_def Some get_all_validators_def v
          find_append find_engine_infos [OF eng] split: option.split)
    then show ?thesis unfolding out by (simp add: vs_is_active_def Some split: option.split)
  qed
qed

section \<open>The contract of the ports\<close>

text \<open>
  What the round needs of its ports to keep an offender out: a slash that returns takes the
  validator out of the snapshot, and no port operation brings a validator back.
\<close>

definition stays_out :: "('w \<Rightarrow> bool) \<Rightarrow> ('w \<Rightarrow> validator_set) \<Rightarrow> 'w \<Rightarrow> 'w \<Rightarrow> bool" where
  "stays_out winv snap w w' \<longleftrightarrow>
     (winv w \<longrightarrow> winv w' \<and> (\<forall>vid. \<not> vs_is_active (snap w) vid \<longrightarrow> \<not> vs_is_active (snap w') vid))"

lemma stays_out_refl [simp]: "stays_out winv snap w w"
  by (simp add: stays_out_def)

lemma stays_out_trans: "stays_out winv snap a b \<Longrightarrow> stays_out winv snap b c \<Longrightarrow> stays_out winv snap a c"
  by (simp add: stays_out_def)

locale slashing_ports =
  fixes P :: "'w bft_ports" and winv :: "'w \<Rightarrow> bool"
  assumes snapshot_ok: "winv w \<Longrightarrow> snapshot_wf (port_snapshot P w)"
    and mark_ejects: "winv w \<Longrightarrow> port_mark_slashed P vid reason ev w = (None, w') \<Longrightarrow> py_strip vid \<noteq> [] \<Longrightarrow>
      \<not> vs_is_active (port_snapshot P w') vid"
    and mark_out: "stays_out winv (port_snapshot P) w (snd (port_mark_slashed P vid reason ev w))"
    and note_out: "stays_out winv (port_snapshot P) w (snd (port_note P vid reason w))"
    and emit_out: "stays_out winv (port_snapshot P) w (port_emit P ev w)"
    and lockdown_out: "stays_out winv (port_snapshot P) w (snd (port_lockdown P reason w))"
    and attestation_out: "stays_out winv (port_snapshot P) w (port_on_attestation P v w)"
    and finalized_out: "stays_out winv (port_snapshot P) w (port_on_finalized P h n w)"
begin

lemma mark_cases:
  assumes "port_mark_slashed P vid reason ev w = (err, w')"
  shows "stays_out winv (port_snapshot P) w w'"
  using mark_out [of w vid reason ev] assms by simp

lemma escalate_out:
  "wpM (escalate_attempt P reason vid) (\<lambda>_ t. stays_out winv (port_snapshot P) (rsm_world s) (rsm_world t))
     (\<lambda>_ _. False) s"
  using note_out stays_out_trans [OF note_out note_out]
  by (auto simp: escalate_attempt_def wp_rules Let_def split: prod.split) (metis snd_conv)+

text \<open>A report that returns has slashed the validator; whatever it does, nobody comes back.\<close>

lemma report_out:
  assumes "stays_out winv (port_snapshot P) w (rsm_world s)"
  shows "wpM (report_malicious P vid ev)
     (\<lambda>_ t. stays_out winv (port_snapshot P) w (rsm_world t) \<and>
        (winv w \<and> py_strip vid \<noteq> [] \<longrightarrow> \<not> vs_is_active (port_snapshot P (rsm_world t)) vid))
     (\<lambda>_ t. stays_out winv (port_snapshot P) w (rsm_world t)) s"
proof -
  let ?w1 = "port_emit P ev (rsm_world s)"
  obtain err w2 where m: "port_mark_slashed P vid (ev_reason ev) ev ?w1 = (err, w2)" by fastforce
  obtain err' w3 where l: "port_lockdown P (lockdown_reason (ev_reason ev)) w2 = (err', w3)" by fastforce
  have 1: "stays_out winv (port_snapshot P) w ?w1" using assms emit_out by (rule stays_out_trans)
  then have 2: "stays_out winv (port_snapshot P) w w2" using mark_cases [OF m] by (rule stays_out_trans)
  have 3: "stays_out winv (port_snapshot P) w2 w3" using lockdown_out [of w2] l by (metis snd_conv)
  have ej: "winv w \<and> py_strip vid \<noteq> [] \<longrightarrow> \<not> vs_is_active (port_snapshot P w2) vid" if "err = None"
    using mark_ejects [of ?w1 vid "ev_reason ev" ev w2] 1 m that by (simp add: stays_out_def)
  have ej3: "winv w \<and> py_strip vid \<noteq> [] \<longrightarrow> \<not> vs_is_active (port_snapshot P w3) vid" if "err = None"
    using ej [OF that] 2 3 by (simp add: stays_out_def)
  note facts = m l 2 ej ej3 stays_out_trans [OF 2 3]
  show ?thesis
  proof (cases "is_malicious_reason (ev_reason ev) \<or> ev_reason ev = ''consensus_round_spam''")
    case True
    from facts show ?thesis
      unfolding report_malicious_def if_P [OF True] by (simp add: wp_rules split: option.split)
  next
    case False
    from facts show ?thesis
      unfolding report_malicious_def if_not_P [OF False] by (simp add: wp_rules split: option.split)
  qed
qed

end

text \<open>The outcome of a refusal: nobody comes back, and a locked round has ejected the offender.\<close>

fun ejected :: "'w bft_ports \<Rightarrow> ('w \<Rightarrow> bool) \<Rightarrow> 'w \<Rightarrow> string \<Rightarrow> bft_error \<Rightarrow> 'w \<Rightarrow> bool" where
  "ejected P winv w vid (ConsensusMalicious out ev) w' =
     (winv w \<and> py_strip vid \<noteq> [] \<longrightarrow> \<not> vs_is_active (port_snapshot P w') vid)"
| "ejected P winv w vid (PortError msg) w' = True"

context slashing_ports
begin

lemma fail_closed_out:
  "wpM (fail_closed P reason vid rid votes detail) (\<lambda>_ _. False)
     (\<lambda>e t. stays_out winv (port_snapshot P) (rsm_world s) (rsm_world t)
        \<and> ejected P winv (rsm_world s) vid e (rsm_world t)) s"
proof -
  have port: "wpM (report_malicious P vid ev) (\<lambda>_ _. True) (\<lambda>e t. \<exists>msg. e = PortError msg) t" for ev t
    by (rule wp_mono [OF report_malicious_wp [of t t]]) auto
  have rep: "wpM (report_malicious P vid ev)
      (\<lambda>_ u. stays_out winv (port_snapshot P) (rsm_world s) (rsm_world u)
         \<and> (winv (rsm_world s) \<and> py_strip vid \<noteq> [] \<longrightarrow>
              \<not> vs_is_active (port_snapshot P (rsm_world u)) vid))
      (\<lambda>e u. stays_out winv (port_snapshot P) (rsm_world s) (rsm_world u)
         \<and> ejected P winv (rsm_world s) vid e (rsm_world u)) t"
    if "stays_out winv (port_snapshot P) (rsm_world s) (rsm_world t)" for ev t
    using wp_conj [OF report_out [OF that, of vid ev] port [of ev t]] by (rule wp_mono) auto
  show ?thesis
    unfolding fail_closed_def wp_bind
    by (rule wp_mono [OF escalate_out]) (auto simp: wp_rules Let_def intro: rep split: option.split)
qed

lemma fail_closed_stays: "stays_out winv (port_snapshot P) (rsm_world s)
    (rsm_world (snd (fail_closed P reason vid rid votes detail s)))"
  using fail_closed_out [of reason vid rid votes detail s]
  by (auto simp: wpM_def split: prod.splits sum.splits)

lemma vote_advance_out:
  "stays_out winv (port_snapshot P) (rsm_world s) (rsm_world (snd (vote_advance P S v s)))"
  by (simp add: vote_advance_def maybe_advance_prevote_def maybe_advance_precommit_def
      precommit_certificate_def finalize_def Let_def finalized_out fail_closed_stays
      split: vote_type.split option.split)

lemma submit_vote_out:
  "stays_out winv (port_snapshot P) (rsm_world s) (rsm_world (snd (submit_vote P v s)))"
proof -
  obtain r t where rt: "submit_vote P v s = (r, t)" by fastforce
  then have "stays_out winv (port_snapshot P) (rsm_world s) (rsm_world t)"
  proof (cases rule: submit_vote_cases)
    case soft
    then show ?thesis by simp
  next
    case failed
    then show ?thesis by (metis fail_closed_stays snd_conv)
  next
    case (recorded ph)
    let ?u = "record_vote P v (s\<lparr>rsm_phase := ph\<rparr>)"
    have "stays_out winv (port_snapshot P) (rsm_world s) (rsm_world ?u)"
      by (simp add: record_vote_def attestation_out)
    moreover have "stays_out winv (port_snapshot P) (rsm_world ?u) (rsm_world t)"
      using vote_advance_out [of ?u] recorded(6) by (metis snd_conv)
    ultimately show ?thesis by (rule stays_out_trans)
  qed
  with rt show ?thesis by simp
qed

lemma begin_round_world [simp]: "rsm_world (begin_round r s) = rsm_world s"
  by (simp add: begin_round_def)

lemma add_block_world [simp]: "rsm_world (add_block b parent s) = rsm_world s"
  by (simp add: add_block_def Let_def split: option.split)

lemma submit_proposal_out:
  "stays_out winv (port_snapshot P) (rsm_world s) (rsm_world (snd (submit_proposal P p s)))"
  by (simp add: submit_proposal_def Let_def fail_closed_stays split: option.split)

lemma step_out: "stays_out winv (port_snapshot P) (rsm_world s) (rsm_world (bft_step P s e))"
  by (cases e) (simp_all add: submit_vote_out submit_proposal_out open_round_def Let_def arm_quorum_live_def
      split: option.split)

end

definition banished :: "'w bft_ports \<Rightarrow> ('w \<Rightarrow> bool) \<Rightarrow> string \<Rightarrow> 'w rsm \<Rightarrow> bool" where
  "banished P winv vid s \<longleftrightarrow> winv (rsm_world s) \<and> \<not> vs_is_active (port_snapshot P (rsm_world s)) vid"

sublocale slashing_ports \<subseteq> ban: component "bft_step P" "banished P winv vid" for vid
  using step_out by unfold_locales (auto simp: banished_def stays_out_def)

sublocale slashing_ports \<subseteq> world: component "bft_step P" "\<lambda>s. winv (rsm_world s)"
  using step_out by unfold_locales (auto simp: stays_out_def)

section \<open>The adapters meet the contract\<close>

lemma cons_wf_bus [simp]: "cons_wf (bus_emit e w) = cons_wf w"
  "adapter_snapshot (bus_emit e w) = adapter_snapshot w"
  by (simp_all add: bus_emit_def cons_wf_def adapter_snapshot_def iter_infos_def)

lemma cons_wf_frame [simp]:
  "cons_wf (w\<lparr>cw_attempts := a\<rparr>) = cons_wf w" "cons_wf (w\<lparr>cw_last := l, cw_last_payload := p\<rparr>) = cons_wf w"
  "cons_wf (w\<lparr>cw_lockdown_reason := r\<rparr>) = cons_wf w" "cons_wf (w\<lparr>cw_ext := d\<rparr>) = cons_wf w"
  by (simp_all add: cons_wf_def)

lemma adapter_snapshot_frame [simp]:
  "adapter_snapshot (w\<lparr>cw_attempts := a\<rparr>) = adapter_snapshot w"
  "adapter_snapshot (w\<lparr>cw_last := l, cw_last_payload := p\<rparr>) = adapter_snapshot w"
  "adapter_snapshot (w\<lparr>cw_lockdown_reason := r\<rparr>) = adapter_snapshot w"
  "adapter_snapshot (w\<lparr>cw_ext := d\<rparr>) = adapter_snapshot w"
  by (simp_all add: adapter_snapshot_def iter_infos_def)

lemma dset_keys: "dget d k \<noteq> None \<Longrightarrow> fst ` set (dset k v d) = fst ` set d"
  by (force simp: dom_update dest: map_of_SomeD)

lemma engine_slash_get [simp]:
  "dget (ce_validators (snd (engine_slash_validator a c))) v =
     (if v = py_strip a then map_option (\<lambda>e. e\<lparr>en_active := False\<rparr>) (dget (ce_validators c) v)
      else dget (ce_validators c) v)"
  by (simp add: engine_slash_validator_def split: option.split)

lemma registry_slash_get [simp]:
  "dget (registry_slash_validator a r) v =
     (if v = a then map_option vstate_slash (dget r v) else dget r v)"
  by (simp add: registry_slash_validator_def registry_on_def split: option.split)

lemma vstate_slash_slashed [simp]: "vs_slashed (vstate_slash v)"
  by (simp add: vstate_slash_def)

lemma cons_wf_engine_slash:
  assumes "cons_wf w"
  shows "cons_wf (w\<lparr>cw_engine := snd (engine_slash_validator a (cw_engine w))\<rparr>)"
proof -
  have "fst ` set (ce_validators (snd (engine_slash_validator a c))) = fst ` set (ce_validators c)" for c
    by (simp add: engine_slash_validator_def dset_keys split: option.split)
  with assms engine_ops_wf(2) show ?thesis by (simp add: cons_wf_def)
qed

lemma cons_wf_registry_slash:
  assumes "cons_wf w"
  shows "cons_wf (w\<lparr>cw_registry := map_option (registry_slash_validator a) (cw_registry w)\<rparr>)"
proof -
  have "fst ` set (registry_slash_validator a r) = fst ` set r" for r
    by (simp add: registry_slash_validator_def registry_on_def dset_keys split: option.split)
  with assms show ?thesis by (cases "cw_registry w") (simp_all add: cons_wf_def)
qed

text \<open>The two slashes, as they change who is active.\<close>

definition slash_both :: "string \<Rightarrow> 'd cons_world \<Rightarrow> 'd cons_world \<Rightarrow> bool" where
  "slash_both v w w' \<longleftrightarrow> (cons_wf w \<longrightarrow> cons_wf w' \<and>
     (\<forall>u. vs_is_active (adapter_snapshot w') u \<longleftrightarrow> py_strip u \<noteq> v \<and> vs_is_active (adapter_snapshot w) u))"

lemma on_validator_slashed_both:
  assumes v: "py_strip v = v" "v \<noteq> []"
  shows "slash_both v w (snd (on_validator_slashed env v w))"
  unfolding slash_both_def
proof (intro impI conjI allI)
  assume wf: "cons_wf w"
  show wf': "cons_wf (snd (on_validator_slashed env v w))"
    using cons_wf_registry_slash [OF cons_wf_engine_slash [OF wf, of v], of v]
    by (simp add: on_validator_slashed_def Let_def cons_wf_def split: prod.split)
  fix u
  show "vs_is_active (adapter_snapshot (snd (on_validator_slashed env v w))) u \<longleftrightarrow>
      py_strip u \<noteq> v \<and> vs_is_active (adapter_snapshot w) u"
    unfolding adapter_active_iff [OF wf refl] adapter_active_iff [OF wf' refl]
    using v by (cases "cw_registry w")
      (auto simp: on_validator_slashed_def Let_def split: prod.splits option.splits)
qed

lemma mark_slashed_both:
  assumes "py_strip vid \<noteq> []"
  shows "slash_both (py_strip vid) w (snd (adapter_mark_slashed env vid reason ev w))"
proof -
  let ?v = "py_strip vid"
  obtain err w1 where s: "on_validator_slashed env ?v w = (err, w1)" by fastforce
  have 1: "slash_both ?v w w1" using on_validator_slashed_both [of ?v w env] assms s by simp
  let ?w2 = "w1\<lparr>cw_registry := map_option (registry_slash_validator ?v) (cw_registry w1)\<rparr>"
  have 2: "slash_both ?v w ?w2"
    unfolding slash_both_def
  proof (intro impI conjI allI)
    assume wf: "cons_wf w"
    with 1 have wf1: "cons_wf w1" by (simp add: slash_both_def)
    show wf2: "cons_wf ?w2" using cons_wf_registry_slash [OF wf1] .
    fix u
    have "vs_is_active (adapter_snapshot ?w2) u \<longleftrightarrow> py_strip u \<noteq> ?v \<and> vs_is_active (adapter_snapshot w1) u"
      if "vs_is_active (adapter_snapshot w1) ?v = False"
      using that unfolding adapter_active_iff [OF wf1 refl] adapter_active_iff [OF wf2 refl]
      using assms by (cases "cw_registry w1") (auto split: option.splits)
    with 1 wf show "vs_is_active (adapter_snapshot ?w2) u \<longleftrightarrow>
        py_strip u \<noteq> ?v \<and> vs_is_active (adapter_snapshot w) u"
      by (auto simp: slash_both_def)
  qed
  from s 1 2 assms show ?thesis
    by (cases "cw_registry w1") (simp_all add: adapter_mark_slashed_def Let_def split: option.split)
qed

interpretation adapter: slashing_ports "adapter_ports env" cons_wf
  for env :: "'d adapter_env"
proof
  fix w w' :: "'d cons_world" and vid reason ev
  assume "cons_wf w" and m: "port_mark_slashed (adapter_ports env) vid reason ev w = (None, w')"
    and v: "py_strip vid \<noteq> []"
  with mark_slashed_both [OF v, of w env reason ev]
  show "\<not> vs_is_active (port_snapshot (adapter_ports env) w') vid"
    by (simp add: adapter_ports_def slash_both_def)
next
  fix w :: "'d cons_world" and vid reason ev
  show "stays_out cons_wf (port_snapshot (adapter_ports env)) w
      (snd (port_mark_slashed (adapter_ports env) vid reason ev w))"
  proof (cases "py_strip vid = []")
    case True
    then show ?thesis by (simp add: adapter_ports_def adapter_mark_slashed_def)
  next
    case False
    with mark_slashed_both [OF False, of w env reason ev] show ?thesis
      by (simp add: adapter_ports_def slash_both_def stays_out_def)
  qed
qed (auto simp: adapter_ports_def stays_out_def adapter_note_def Let_def adapter_emit_def
    adapter_lockdown_def adapter_on_attestation_def adapter_on_finalized_def split: option.split)

end
