(* ===== verification/BftAgreement.thy ===== *)
theory BftAgreement
  imports BftPorts
begin

text \<open>
  The promises of the round state machine over whole runs: quorum arithmetic, agreement of the
  blocks finalized in one round, monotonicity of the finalized height, and the fail-closed answers
  of a single call. The runs are \<open>foldl (bft_step P)\<close> over a list of port calls; \<open>finalized_run\<close> lists the
  hashes the calls of a run reported as complete, and \<open>steady_run\<close> says that the round key and the
  validator snapshot stay what they are.
\<close>

section \<open>Runs of the machine\<close>

definition bft_run :: "'w bft_ports \<Rightarrow> 'w rsm \<Rightarrow> bft_event list \<Rightarrow> 'w rsm" where
  "bft_run P s es = foldl (bft_step P) s es"

fun finalized_by :: "'w bft_ports \<Rightarrow> 'w rsm \<Rightarrow> bft_event \<Rightarrow> string list" where
  "finalized_by P s (SubmitVote v) =
     (case submit_vote P (vote_init v) s of
        (Inr out, _) \<Rightarrow> if ro_status out = RS_Complete then [ro_hash out] else []
      | (Inl _, _) \<Rightarrow> [])"
| "finalized_by P s _ = []"

fun finalized_run :: "'w bft_ports \<Rightarrow> 'w rsm \<Rightarrow> bft_event list \<Rightarrow> string list" where
  "finalized_run P s [] = []"
| "finalized_run P s (e # es) = finalized_by P s e @ finalized_run P (bft_step P s e) es"

fun steady_run ::
  "'w bft_ports \<Rightarrow> validator_set \<Rightarrow> round_key \<Rightarrow> 'w rsm \<Rightarrow> bft_event list \<Rightarrow> bool" where
  "steady_run P S k s [] = (rid_key (rsm_round s) = k)"
| "steady_run P S k s (e # es) =
     (rid_key (rsm_round s) = k \<and> port_snapshot P (rsm_world s) = S
        \<and> steady_run P S k (bft_step P s e) es)"

lemma steady_run_key: "steady_run P S k s es \<Longrightarrow> rid_key (rsm_round s) = k"
  by (cases es) auto

lemma finalized_by_one: "finalized_by P s e = [] \<or> (\<exists>h. finalized_by P s e = [h])"
  by (cases e) (simp_all split: prod.split sum.split)

lemma finalized_by_quorum:
  assumes "rsm_inv s" and "snapshot_wf (port_snapshot P (rsm_world s))" and "h \<in> set (finalized_by P s e)"
  shows "round_quorum (port_snapshot P (rsm_world s)) (bft_step P s e) VT_Precommit h \<and> norm_hash h = h"
proof (cases e)
  case (SubmitVote v)
  obtain r t where rt: "submit_vote P (vote_init v) s = (r, t)" by fastforce
  with assms(3) SubmitVote obtain out where "r = Inr out" "ro_status out = RS_Complete" "h = ro_hash out"
    by (auto split: sum.splits if_splits)
  with submit_vote_complete [OF assms(1) vote_init_wf assms(2), of v out t] rt SubmitVote
  show ?thesis by simp
qed (use assms(3) in simp_all)

lemma finalized_run_unique:
  assumes "rsm_inv s" and "snapshot_wf S" and "steady_run P S k s es"
    and "round_quorum S s VT_Precommit h" and "h' \<in> set (finalized_run P s es)"
  shows "norm_hash h = h'"
  using assms(1,3,4,5)
proof (induction es arbitrary: s)
  case Nil
  then show ?case by simp
next
  case (Cons e es)
  let ?t = "bft_step P s e"
  from Cons.prems have k: "rid_key (rsm_round ?t) = rid_key (rsm_round s)"
    by (auto dest: steady_run_key)
  from Cons.prems(1) have inv: "rsm_inv ?t" by (rule bft_step_inv)
  from k assms(2) Cons.prems(3) have q: "round_quorum S ?t VT_Precommit h" by (rule round_quorum_kept)
  show ?case
  proof (cases "h' \<in> set (finalized_by P s e)")
    case True
    with finalized_by_quorum [OF Cons.prems(1), of P h' e] assms(2) Cons.prems(2)
    have "round_quorum S ?t VT_Precommit h'" "norm_hash h' = h'" by auto
    with round_quorum_unique [OF inv assms(2) q] show ?thesis by metis
  next
    case False
    with Cons.prems Cons.IH [OF inv _ q] show ?thesis by simp
  qed
qed

lemma finalized_run_agree:
  assumes "rsm_inv s" and "snapshot_wf S" and "steady_run P S k s es"
    and "h \<in> set (finalized_run P s es)" and "h' \<in> set (finalized_run P s es)"
  shows "h = h'"
  using assms(1,3,4,5)
proof (induction es arbitrary: s)
  case Nil
  then show ?case by simp
next
  case (Cons e es)
  let ?t = "bft_step P s e"
  from Cons.prems(1) have inv: "rsm_inv ?t" by (rule bft_step_inv)
  have st: "steady_run P S k ?t es" using Cons.prems(2) by simp
  have one: "g = g'" if "g \<in> set (finalized_by P s e)" "g' \<in> set (finalized_by P s e)" for g g'
    using that finalized_by_one [of P s e] by auto
  have two: "g = g'" if "g \<in> set (finalized_by P s e)" "g' \<in> set (finalized_run P ?t es)" for g g'
  proof -
    from finalized_by_quorum [OF Cons.prems(1), of P g e] assms(2) Cons.prems(2) that(1)
    have "round_quorum S ?t VT_Precommit g" "norm_hash g = g" by auto
    with finalized_run_unique [OF inv assms(2) st _ that(2)] show ?thesis by metis
  qed
  from Cons.prems(3,4) one two two [symmetric] Cons.IH [OF inv st] show ?case by auto
qed

section \<open>Refusals\<close>

lemma double_vote_fails:
  assumes "rsm_phase s \<noteq> RP_Locked" and "vo_verified v" and "rid_key (vo_round v) = rid_key (rsm_round s)"
    and "vs_is_active (port_snapshot P (rsm_world s)) (vo_validator v)"
    and "dget (rsm_seen s) (vo_validator v, vo_type v, rid_key (rsm_round s)) = Some h" and "h \<noteq> vo_hash v"
  shows "\<exists>prior. submit_vote P v s =
    fail_closed P ''double_vote'' (vo_validator v) (Some (vo_round v)) [prior, v] [] s"
  using assms by (auto simp: submit_vote_def Let_def)

lemma bft_fail_closed_keeps:
  assumes "fail_closed P reason vid rid votes detail s = (r, t)"
  shows "rsm_votes t = rsm_votes s \<and> rsm_finalized_hashes t = rsm_finalized_hashes s
     \<and> rsm_finalized_height t = rsm_finalized_height s"
  using assms by (cases rule: fail_closed_cases) simp_all

section \<open>A concrete network\<close>

text \<open>Three validators of equal stake in the engine, no registry, a bus, a database that never fails.\<close>

definition demo_env :: "unit adapter_env" where
  "demo_env = \<lparr>env_db_slash = (\<lambda>a d. (None, d)), env_hook = None\<rparr>"

definition demo_engine :: consensus_engine where
  "demo_engine = foldl (\<lambda>c a. snd (engine_add_validator a 10 c)) engine_init [''va'', ''vb'', ''vc'']"

definition demo_world :: "unit cons_world" where
  "demo_world = \<lparr>cw_engine = demo_engine, cw_registry = None, cw_attempts = [], cw_last = None,
     cw_last_payload = None, cw_lockdown_reason = [], cw_bus = Some [], cw_ext = ()\<rparr>"

definition demo_round :: round_id where
  "demo_round = \<lparr>rid_epoch = 0, rid_height = 1, rid_round = 0\<rparr>"

definition demo_vote :: "string \<Rightarrow> vote_type \<Rightarrow> string \<Rightarrow> bft_event" where
  "demo_vote vid t h = SubmitVote \<lparr>vo_validator = vid, vo_type = t, vo_round = demo_round, vo_hash = h,
     vo_slot = 0, vo_sigref = [], vo_verified = True\<rparr>"

definition demo_events :: "bft_event list" where
  "demo_events =
     [SubmitProposal \<lparr>pr_proposer = ''va'', pr_round = demo_round, pr_hash = ''0xAB'', pr_parent = ''0x00''\<rparr>,
      demo_vote ''va'' VT_Prevote ''0xab'', demo_vote ''vb'' VT_Prevote '' 0xab'',
      demo_vote ''va'' VT_Precommit ''0xab'', demo_vote ''vc'' VT_Precommit ''0xAB'']"

definition demo_start :: "unit cons_world rsm" where
  "demo_start = bft_step (adapter_ports demo_env) (rsm_init [] 32 demo_world) (OpenRound 1 None 0 None)"

lemma demo_start_inv: "rsm_inv demo_start"
  by (simp add: demo_start_def rsm_inv_init bft_step_inv del: bft_step.simps)

lemma demo_world_wf: "cons_wf demo_world"
  by code_simp

section \<open>Properties\<close>

text \<open>C1: agreement. Whatever sequence of proposals, votes, blocks and round openings the port
  receives, with rounds of one key (opened once or again) over one validator snapshot, all the blocks
  reported as finalized carry the same hash, whoever votes.\<close>
theorem bft_agreement:
  assumes "rsm_inv s" and "snapshot_wf S" and "steady_run P S k s es"
    and "h \<in> set (finalized_run P s es)" and "h' \<in> set (finalized_run P s es)"
  shows "h = h'"
  using assms by (rule finalized_run_agree)

theorem bft_agreement_witness:
  "let run = finalized_run (adapter_ports demo_env) demo_start (demo_events @ [demo_vote ''vb'' VT_Precommit ''0xab''])
   in length run = 2 \<and> hd run = last run"
proof -
  let ?es = "demo_events @ [demo_vote ''vb'' VT_Precommit ''0xab'']"
  let ?run = "finalized_run (adapter_ports demo_env) demo_start ?es"
  have run: "length ?run = 2" by code_simp
  then have "hd ?run \<in> set ?run" "last ?run \<in> set ?run" by (cases ?run; force)+
  moreover have "steady_run (adapter_ports demo_env) (adapter_snapshot demo_world) (0, 1, 0) demo_start ?es"
    by code_simp
  ultimately have "hd ?run = last ?run"
    by (intro bft_agreement [OF demo_start_inv adapter_snapshot_wf])
  with run show ?thesis by (simp add: Let_def)
qed

text \<open>C2: quorum intersection. Two certificates reached over one validator snapshot, from any two
  lists of votes, of any rounds, types and blocks, have voters in common who hold at least a third of
  the active stake.\<close>
theorem quorum_intersection:
  assumes "snapshot_wf S" and "\<forall>v\<in>set vs. vote_wf v" and "\<forall>v\<in>set vs'. vote_wf v"
    and "qc_reached (build_certificate S vs r t h)" and "qc_reached (build_certificate S vs' r' t' h')"
  shows "total_active_stake S \<le> 3 * sum (stake_of S) (voters S vs r t h \<inter> voters S vs' r' t' h')"
  using assms
  by (intro two_quorums_overlap finite_voters)
     (auto simp: certificate_reached_iff stake_for_votes_eq dest: voters_active voters_stripped)

theorem quorum_intersection_witness:
  "let S = adapter_snapshot demo_world;
       vote = (\<lambda>vid h. \<lparr>vo_validator = vid, vo_type = VT_Precommit, vo_round = demo_round, vo_hash = h,
                 vo_slot = 0, vo_sigref = [], vo_verified = True\<rparr>);
       vs = [vote ''va'' ''aa'', vote ''vb'' ''aa'']; vs' = [vote ''vb'' ''bb'', vote ''vc'' ''bb'']
   in total_active_stake S \<le>
        3 * sum (stake_of S) (voters S vs demo_round VT_Precommit ''aa'' \<inter> voters S vs' demo_round VT_Precommit ''bb'')"
  unfolding Let_def
  by (rule quorum_intersection [OF adapter_snapshot_wf]) code_simp+

text \<open>C3: what a finalization rests on. When a vote is answered as complete, validators holding at
  least two thirds of the active stake have precommitted that very block in the current round, and the
  block is recorded as finalized.\<close>
theorem finalization_has_quorum:
  assumes "rsm_inv s" and "snapshot_wf (port_snapshot P (rsm_world s))"
    and "submit_vote P (vote_init v) s = (Inr out, t)" and "ro_status out = RS_Complete"
  shows "2 * total_active_stake (port_snapshot P (rsm_world s)) \<le>
      3 * sum (stake_of (port_snapshot P (rsm_world s)))
            (round_voters (port_snapshot P (rsm_world s)) t VT_Precommit (ro_hash out))
    \<and> is_finalized_hash t (ro_hash out) \<and> rsm_phase t = RP_Finalize"
  using submit_vote_complete [OF assms(1) vote_init_wf assms(2-4)]
  by (auto simp: round_quorum_def is_finalized_hash_def dest: quorum_reachedD)

theorem finalization_has_quorum_witness:
  "let P = adapter_ports demo_env; s = bft_run P demo_start (butlast demo_events); S = adapter_snapshot (rsm_world s)
   in 2 * total_active_stake S \<le>
        3 * sum (stake_of S) (round_voters S (bft_run P demo_start demo_events) VT_Precommit ''0xab'')"
proof -
  let ?P = "adapter_ports demo_env"
  let ?s = "bft_run ?P demo_start (butlast demo_events)"
  let ?v = "\<lparr>vo_validator = ''vc'', vo_type = VT_Precommit, vo_round = demo_round, vo_hash = ''0xAB'',
     vo_slot = 0, vo_sigref = [], vo_verified = True\<rparr>"
  obtain r t where rt: "submit_vote ?P (vote_init ?v) ?s = (r, t)" by fastforce
  have "map_sum (\<lambda>_. ()) (\<lambda>o'. (ro_status o', ro_hash o')) (fst (submit_vote ?P (vote_init ?v) ?s))
      = Inr (RS_Complete, ''0xab'')"
    by code_simp
  with rt obtain out where out: "r = Inr out" "ro_status out = RS_Complete" "ro_hash out = ''0xab''"
    by (cases r) auto
  have inv: "rsm_inv ?s" unfolding bft_run_def by (rule bft.run_keeps [OF demo_start_inv])
  have t: "t = bft_run ?P demo_start demo_events"
    using rt by (simp add: bft_run_def demo_events_def demo_vote_def)
  have "port_snapshot ?P = adapter_snapshot" by (simp add: adapter_ports_def)
  with finalization_has_quorum [OF inv, of ?P ?v out t] rt out t show ?thesis by (simp add: Let_def)
qed

text \<open>C4: the finalized height never goes back over any sequence of port calls.\<close>
theorem bft_finalized_height_monotone:
  assumes "rsm_inv s" and "i \<le> j"
  shows "rsm_finalized_height (bft_run P s (take i es)) \<le> rsm_finalized_height (bft_run P s (take j es))"
  unfolding bft_run_def using assms by (rule bft.run_mono_prefix)

theorem bft_finalized_height_monotone_witness:
  "rsm_finalized_height (bft_run (adapter_ports demo_env) demo_start (take 1 demo_events))
     \<le> rsm_finalized_height (bft_run (adapter_ports demo_env) demo_start (take 5 demo_events))"
  by (rule bft_finalized_height_monotone [OF demo_start_inv]) simp

text \<open>from the initial state, after any sequence of port calls, the recorded votes are verified, are
  for the current round and are at most one per validator and type, the double-sign table holds each of
  them, and a proposal is held only past the propose phase.\<close>
theorem bft_recorded_votes:
  "let s = bft_run P (rsm_init expected n w) es in
     distinct (map (\<lambda>v. (vo_validator v, vo_type v)) (rsm_votes s))
     \<and> (\<forall>v\<in>set (rsm_votes s). vote_wf v \<and> vo_verified v \<and> rid_key (vo_round v) = rid_key (rsm_round s)
          \<and> dget (rsm_seen s) (vo_validator v, vo_type v, rid_key (rsm_round s)) = Some (vo_hash v))
     \<and> (rsm_proposal s = None \<or> rsm_phase s \<noteq> RP_Propose)"
  using bft.run_keeps [OF rsm_inv_init, of P expected n w es]
  by (auto simp: bft_run_def rsm_inv_def Let_def)

text \<open>The votes recorded in the concrete run.\<close>
theorem bft_recorded_votes_witness:
  "length (rsm_votes (bft_run (adapter_ports demo_env) demo_start demo_events)) = 4
   \<and> distinct (map (\<lambda>v. (vo_validator v, vo_type v))
        (rsm_votes (bft_run (adapter_ports demo_env) (rsm_init [] 32 demo_world)
           (OpenRound 1 None 0 None # demo_events))))"
proof -
  have "length (rsm_votes (bft_run (adapter_ports demo_env) demo_start demo_events)) = 4" by code_simp
  with bft_recorded_votes [of "adapter_ports demo_env" "[]" 32 demo_world "OpenRound 1 None 0 None # demo_events"]
  show ?thesis by (simp add: Let_def)
qed

text \<open>C5: an active validator that signs a second, different hash for the same type and round is
  refused by an exception, its vote is not recorded and nothing is finalized. When the refusal locks
  the round, the evidence names the validator with both votes and, behind the adapters of the node,
  the validator is in no later active set, whatever is submitted next.\<close>
theorem double_vote_ejects:
  assumes "cons_wf (rsm_world s)" and "rsm_phase s \<noteq> RP_Locked" and "vo_verified v"
    and "rid_key (vo_round v) = rid_key (rsm_round s)" and "py_strip (vo_validator v) \<noteq> []"
    and "vs_is_active (adapter_snapshot (rsm_world s)) (vo_validator (vote_init v))"
    and "dget (rsm_seen s) (vo_validator (vote_init v), vo_type v, rid_key (rsm_round s)) = Some h"
    and "h \<noteq> vo_hash (vote_init v)"
    and "submit_vote (adapter_ports env) (vote_init v) s = (r, t)"
  shows "rsm_votes t = rsm_votes s \<and> rsm_finalized_hashes t = rsm_finalized_hashes s
    \<and> ((\<exists>msg. r = Inl (PortError msg)) \<or>
       (\<exists>out ev prior. r = Inl (ConsensusMalicious out ev) \<and> rsm_phase t = RP_Locked
          \<and> ev_validator ev = vo_validator (vote_init v) \<and> ev_votes ev = [prior, vote_init v]
          \<and> (\<forall>es. \<not> vs_is_active (adapter_snapshot (rsm_world (bft_run (adapter_ports env) t es)))
                   (vo_validator (vote_init v)))))"
proof -
  let ?v = "vote_init v" and ?P = "adapter_ports env"
  have snap: "port_snapshot ?P = adapter_snapshot" by (simp add: adapter_ports_def)
  have frame: "vo_verified ?v" "vo_round ?v = vo_round v" "vo_type ?v = vo_type v" "py_strip (vo_validator ?v) \<noteq> []"
    using assms(3,5) by (simp_all add: vote_init_def)
  obtain prior where "submit_vote ?P ?v s =
      fail_closed ?P ''double_vote'' (vo_validator ?v) (Some (vo_round ?v)) [prior, ?v] [] s"
    using double_vote_fails [of s ?v ?P h] assms frame by (auto simp: snap)
  with assms(9) have fc: "fail_closed ?P ''double_vote'' (vo_validator ?v) (Some (vo_round ?v)) [prior, ?v] [] s = (r, t)"
    by simp
  have ej: "winv \<longrightarrow> \<not> vs_is_active (adapter_snapshot (rsm_world t)) (vo_validator ?v)"
    if "r = Inl (ConsensusMalicious out ev)" "winv = cons_wf (rsm_world s)" for winv out ev
    using wp_raisesD [OF adapter.fail_closed_out fc [unfolded that(1)]] frame(4) that(2) by (simp add: snap)
  have out: "stays_out cons_wf adapter_snapshot (rsm_world s) (rsm_world t)"
    using adapter.fail_closed_stays [where env = env and s = s] fc by (metis snap snd_conv)
  have later: "\<not> vs_is_active (adapter_snapshot (rsm_world (bft_run ?P t es))) (vo_validator ?v)"
    if "r = Inl (ConsensusMalicious o' ev)" for es o' ev
    using adapter.ban.run_keeps [of env "vo_validator ?v" t es] ej [OF that refl] out assms(1)
    by (simp add: banished_def snap bft_run_def stays_out_def)
  from fc bft_fail_closed_keeps [OF fc] later show ?thesis by (cases rule: fail_closed_cases) auto
qed

text \<open>After its prevote, \<open>va\<close> signs another block: the machine throws and the set shrinks to two.\<close>
theorem double_vote_ejects_witness:
  "\<forall>es. \<not> vs_is_active (adapter_snapshot (rsm_world (bft_run (adapter_ports demo_env)
      (bft_run (adapter_ports demo_env) demo_start (take 2 demo_events @ [demo_vote ''va'' VT_Prevote ''cc''])) es)))
      ''va''"
proof -
  let ?P = "adapter_ports demo_env" and ?s = "bft_run (adapter_ports demo_env) demo_start (take 2 demo_events)"
  let ?v = "\<lparr>vo_validator = ''va'', vo_type = VT_Prevote, vo_round = demo_round, vo_hash = ''cc'',
     vo_slot = 0, vo_sigref = [], vo_verified = True\<rparr>"
  obtain r t where rt: "submit_vote ?P (vote_init ?v) ?s = (r, t)" by fastforce
  have t: "t = bft_run ?P demo_start (take 2 demo_events @ [demo_vote ''va'' VT_Prevote ''cc''])"
    using rt by (simp add: bft_run_def demo_vote_def)
  have wf: "cons_wf (rsm_world ?s)" by code_simp
  have id: "vo_validator (vote_init ?v) = ''va''" by code_simp
  have locked: "(case fst (submit_vote ?P (vote_init ?v) ?s) of
      Inl (ConsensusMalicious out ev) \<Rightarrow> True | _ \<Rightarrow> False)" by code_simp
  have "\<not> (\<exists>msg. r = Inl (PortError msg))" using locked rt by (auto split: sum.splits bft_error.splits)
  moreover have "rsm_phase ?s \<noteq> RP_Locked" "rid_key demo_round = rid_key (rsm_round ?s)"
      "py_strip ''va'' \<noteq> []" "vs_is_active (adapter_snapshot (rsm_world ?s)) ''va''"
      "dget (rsm_seen ?s) (''va'', VT_Prevote, rid_key (rsm_round ?s)) = Some ''0xab''"
      "''0xab'' \<noteq> vo_hash (vote_init ?v)"
    by code_simp+
  ultimately show ?thesis
    using double_vote_ejects [OF wf _ _ _ _ _ _ _ rt, of "''0xab''"] t id by auto
qed

text \<open>A locked round is inert: no sequence of proposals and votes changes anything of it.\<close>
theorem locked_round_inert:
  assumes "rsm_phase s = RP_Locked" and "\<forall>e\<in>set es. (\<exists>p. e = SubmitProposal p) \<or> (\<exists>v. e = SubmitVote v)"
  shows "bft_run P s es = s"
  using assms(2)
proof (induction es)
  case Nil
  then show ?case by (simp add: bft_run_def)
next
  case (Cons e es)
  then have "bft_step P s e = s" using assms(1) by (auto simp: submit_proposal_def submit_vote_def)
  with Cons show ?case by (simp add: bft_run_def)
qed

theorem locked_round_inert_witness:
  "bft_run (adapter_ports demo_env) (demo_start\<lparr>rsm_phase := RP_Locked\<rparr>) demo_events =
     demo_start\<lparr>rsm_phase := RP_Locked\<rparr>"
  by (rule locked_round_inert) (auto simp: demo_events_def demo_vote_def)

text \<open>once a round holds a proposal, another one for the round (of whatever block, by whatever
  proposer) is answered softly (unexpected proposal phase) and leaves the machine as it was: the
  branch of the code for a conflicting proposal is not reached from the initial state.\<close>
theorem second_proposal_soft:
  assumes "s = bft_run P (rsm_init expected n w) es" and "rsm_proposal s \<noteq> None"
    and "rsm_phase s \<noteq> RP_Locked" and "rid_key (pr_round p) = rid_key (rsm_round s)"
  shows "submit_proposal P (proposal_init p) s =
    (Inr (ro_refused (rsm_phase s) ''unexpected_proposal_phase'' (Some (rsm_round s)) (norm_hash (pr_hash p)) []), s)"
proof -
  have "rsm_inv s" unfolding assms(1) bft_run_def by (rule bft.run_keeps [OF rsm_inv_init])
  with assms(2-4) show ?thesis by (simp add: submit_proposal_def proposal_init_def rsm_inv_def)
qed

theorem second_proposal_soft_witness:
  "submit_proposal (adapter_ports demo_env)
     (proposal_init \<lparr>pr_proposer = ''va'', pr_round = demo_round, pr_hash = ''cc'', pr_parent = ''00''\<rparr>)
     (bft_run (adapter_ports demo_env) (rsm_init [] 32 demo_world) (OpenRound 1 None 0 None # take 1 demo_events)) =
   (Inr (ro_refused RP_Prevote ''unexpected_proposal_phase'' (Some demo_round) ''cc'' []),
    bft_run (adapter_ports demo_env) (rsm_init [] 32 demo_world) (OpenRound 1 None 0 None # take 1 demo_events))"
proof -
  let ?s = "bft_run (adapter_ports demo_env) (rsm_init [] 32 demo_world) (OpenRound 1 None 0 None # take 1 demo_events)"
  have s: "rsm_proposal ?s \<noteq> None" "rsm_phase ?s = RP_Prevote" "rsm_round ?s = demo_round"
    by code_simp+
  have "norm_hash ''cc'' = ''cc''" by code_simp
  with s second_proposal_soft [OF refl s(1),
      of "\<lparr>pr_proposer = ''va'', pr_round = demo_round, pr_hash = ''cc'', pr_parent = ''00''\<rparr>"]
  show ?thesis by simp
qed

end
