(* ===== verification/TipTypes.thy ===== *)
theory TipTypes
  imports Prelude
begin

text \<open>
  The value types of the tip-safety domain: \<open>consensus/tip_safety/types.py\<close> (block references with their
  hash normalisation), \<open>errors.py\<close> (one constructor per exception class, each with its message) and
  \<open>tip_state.py\<close> (head and finalized checkpoint). A constructor or method that may raise returns a
  sum whose left side is the exception. The type checks of the code (\<open>isinstance\<close>) hold by typing.
\<close>

section \<open>Errors\<close>

datatype tip_error =
    TipValidation string
  | TipAncestry string
  | TipFinalityRegress string
  | TipUnknownParent string
  | TipDuplicate string
  | TipConflict string

fun tip_error_code :: "tip_error \<Rightarrow> string" where
  "tip_error_code (TipValidation m) = ''tip_validation''"
| "tip_error_code (TipAncestry m) = ''tip_ancestry''"
| "tip_error_code (TipFinalityRegress m) = ''tip_finality_regress''"
| "tip_error_code (TipUnknownParent m) = ''tip_unknown_parent''"
| "tip_error_code (TipDuplicate m) = ''tip_duplicate''"
| "tip_error_code (TipConflict m) = ''tip_conflict''"

fun tip_error_message :: "tip_error \<Rightarrow> string" where
  "tip_error_message (TipValidation m) = m"
| "tip_error_message (TipAncestry m) = m"
| "tip_error_message (TipFinalityRegress m) = m"
| "tip_error_message (TipUnknownParent m) = m"
| "tip_error_message (TipDuplicate m) = m"
| "tip_error_message (TipConflict m) = m"

section \<open>Block hashes\<close>

definition is_hex_char :: "char \<Rightarrow> bool" where
  "is_hex_char c = (let n = of_char c :: nat in
     (48 \<le> n \<and> n \<le> 57) \<or> (97 \<le> n \<and> n \<le> 102) \<or> (65 \<le> n \<and> n \<le> 70))"

text \<open>The match of \<open>_HASH_RE\<close> on the whole string: its group, when it matches.\<close>

definition hash_group :: "string \<Rightarrow> string option" where
  "hash_group t =
     (let body = (if take 2 t = ''0x'' then drop 2 t else t)
      in if length body = 64 \<and> list_all is_hex_char body then Some body else None)"

definition normalize_block_hash :: "string \<Rightarrow> tip_error + string" where
  "normalize_block_hash raw =
     (let t = py_strip raw in
      if t = [] then Inl (TipValidation ''block hash must not be empty'')
      else (case hash_group t of
              None \<Rightarrow> Inl (TipValidation (''block hash must be 64 hex chars (optional 0x prefix), ''
                        @ ''got length='' @ py_str_int (int (length t))))
            | Some g \<Rightarrow> Inr (py_lower g)))"

record tip_ref =
  tr_height :: int
  tr_hash :: string
  tr_parent :: string

definition zero_hash :: string where
  "zero_hash = replicate 64 (CHR ''0'')"

text \<open>\<open>BlockRef.__post_init__\<close> on a record of raw arguments.\<close>

definition tip_ref_init :: "tip_ref \<Rightarrow> tip_error + tip_ref" where
  "tip_ref_init b =
     (if tr_height b < 0
      then Inl (TipValidation (''height must be >= 0, got '' @ py_str_int (tr_height b)))
      else (case normalize_block_hash (tr_hash b) of
        Inl e \<Rightarrow> Inl e
      | Inr h \<Rightarrow>
          if tr_height b = 0 then
            (if py_strip (tr_parent b) \<in> {[], zero_hash, ''0x'' @ zero_hash}
             then Inr (b\<lparr>tr_hash := h, tr_parent := []\<rparr>)
             else (case normalize_block_hash (tr_parent b) of
                     Inl e \<Rightarrow> Inl e | Inr p \<Rightarrow> Inr (b\<lparr>tr_hash := h, tr_parent := p\<rparr>)))
          else if py_strip (tr_parent b) = [] then
            Inl (TipValidation (''non-genesis block at height '' @ py_str_int (tr_height b)
                   @ '' requires parent_hash''))
          else (case normalize_block_hash (tr_parent b) of
                  Inl e \<Rightarrow> Inl e | Inr p \<Rightarrow> Inr (b\<lparr>tr_hash := h, tr_parent := p\<rparr>))))"

definition short_hash :: "tip_ref \<Rightarrow> string" where
  "short_hash b = take 12 (tr_hash b)"

record tip_snapshot =
  sn_head :: tip_ref
  sn_finalized :: "tip_ref option"

datatype apply_outcome = AO_Extend | AO_Reorg | AO_Reject

record apply_decision =
  ad_outcome :: apply_outcome
  ad_reason :: string
  ad_detail :: string
  ad_new_head :: "tip_ref option"

definition ad_accepted :: "apply_decision \<Rightarrow> bool" where
  "ad_accepted d = (ad_outcome d = AO_Extend \<or> ad_outcome d = AO_Reorg)"

section \<open>TipState\<close>

record tip_state =
  ts_head :: tip_ref
  ts_finalized :: "tip_ref option"

definition tip_state_init :: "tip_ref \<Rightarrow> tip_ref option \<Rightarrow> tip_error + tip_state" where
  "tip_state_init hd' fin =
     (case fin of
        Some f \<Rightarrow>
          if tr_height f > tr_height hd'
          then Inl (TipFinalityRegress (''finalized height '' @ py_str_int (tr_height f)
                 @ '' must be <= head height '' @ py_str_int (tr_height hd')))
          else Inr \<lparr>ts_head = hd', ts_finalized = fin\<rparr>
      | None \<Rightarrow> Inr \<lparr>ts_head = hd', ts_finalized = fin\<rparr>)"

definition ts_snapshot :: "tip_state \<Rightarrow> tip_snapshot" where
  "ts_snapshot s = \<lparr>sn_head = ts_head s, sn_finalized = ts_finalized s\<rparr>"

definition finalized_floor_height :: "tip_state \<Rightarrow> int" where
  "finalized_floor_height s = (case ts_finalized s of None \<Rightarrow> 0 | Some f \<Rightarrow> tr_height f)"

definition can_reorg_to :: "tip_state \<Rightarrow> int \<Rightarrow> tip_error + bool" where
  "can_reorg_to s h =
     (if h < 0 then Inl (TipValidation (''candidate_height must be >= 0, got '' @ py_str_int h))
      else Inr (h \<ge> finalized_floor_height s))"

definition with_head :: "tip_state \<Rightarrow> tip_ref \<Rightarrow> tip_error + tip_state" where
  "with_head s b =
     (case ts_finalized s of
        None \<Rightarrow> tip_state_init b None
      | Some f \<Rightarrow>
          if tr_height b < tr_height f then
            Inl (TipFinalityRegress (''new head height '' @ py_str_int (tr_height b)
                   @ '' is below finalized floor '' @ py_str_int (tr_height f)))
          else if tr_height b = tr_height f \<and> tr_hash b \<noteq> tr_hash f then
            Inl (TipFinalityRegress (''cannot replace finalized block at height ''
                   @ py_str_int (tr_height b) @ '': '' @ short_hash f @ '' vs '' @ short_hash b))
          else tip_state_init b (Some f))"

definition with_finalized :: "tip_state \<Rightarrow> tip_ref \<Rightarrow> tip_error + tip_state" where
  "with_finalized s c =
     (if tr_height c > tr_height (ts_head s) then
        Inl (TipFinalityRegress (''finalized height '' @ py_str_int (tr_height c)
               @ '' cannot exceed head height '' @ py_str_int (tr_height (ts_head s))))
      else (case ts_finalized s of
        Some f \<Rightarrow>
          if tr_height c < tr_height f then
            Inl (TipFinalityRegress (''finalized cannot regress from '' @ py_str_int (tr_height f)
                   @ '' to '' @ py_str_int (tr_height c)))
          else if tr_height c = tr_height f \<and> tr_hash c \<noteq> tr_hash f then
            Inl (TipFinalityRegress (''finalized hash conflict at height ''
                   @ py_str_int (tr_height c) @ '': '' @ short_hash f @ '' vs '' @ short_hash c))
          else tip_state_init (ts_head s) (Some c)
      | None \<Rightarrow> tip_state_init (ts_head s) (Some c)))"

section \<open>Lemmas\<close>

text \<open>A canonical hash is 64 lower-case hexadecimal digits.\<close>

definition canonical_hash :: "string \<Rightarrow> bool" where
  "canonical_hash h \<longleftrightarrow> length h = 64 \<and> list_all is_hex_char h \<and> py_lower h = h"

lemma is_hex_lower [simp]: "is_hex_char c \<Longrightarrow> is_hex_char (py_lower_char c)"
  unfolding is_hex_char_def of_char_lower Let_def by auto

lemma hex_not_space: "is_hex_char c \<Longrightarrow> \<not> py_is_space c"
  by (auto simp: is_hex_char_def py_is_space_def Let_def)

lemma py_strip_hex: "list_all is_hex_char s \<Longrightarrow> py_strip s = s"
  by (simp add: py_strip_no_space list_all_iff hex_not_space)

lemma normalize_canonical: "normalize_block_hash raw = Inr h \<Longrightarrow> canonical_hash h"
  by (auto simp: normalize_block_hash_def hash_group_def canonical_hash_def Let_def list_all_iff
      py_lower_def split: if_splits option.splits)

lemma hex_no_prefix: "list_all is_hex_char s \<Longrightarrow> take 2 s \<noteq> ''0x''"
proof
  assume h: "list_all is_hex_char s" and t: "take 2 s = ''0x''"
  then obtain a b u where "s = a # b # u" by (cases s; cases "tl s") auto
  with h t show False by (auto simp: is_hex_char_def)
qed

lemma canonical_normalize: "canonical_hash h \<Longrightarrow> normalize_block_hash h = Inr h"
  by (auto simp: normalize_block_hash_def hash_group_def canonical_hash_def Let_def py_strip_hex hex_no_prefix)

definition tip_ref_wf :: "tip_ref \<Rightarrow> bool" where
  "tip_ref_wf b \<longleftrightarrow> 0 \<le> tr_height b \<and> canonical_hash (tr_hash b)
     \<and> (canonical_hash (tr_parent b) \<or> (tr_height b = 0 \<and> tr_parent b = []))"

lemma tip_ref_init_wf: "tip_ref_init b = Inr b' \<Longrightarrow> tip_ref_wf b'"
  by (auto simp: tip_ref_init_def tip_ref_wf_def dest: normalize_canonical split: if_splits sum.splits)

text \<open>The structural invariant of a tip state, and that both updates keep it.\<close>

definition tip_state_wf :: "tip_state \<Rightarrow> bool" where
  "tip_state_wf s \<longleftrightarrow> (case ts_finalized s of None \<Rightarrow> True | Some f \<Rightarrow> tr_height f \<le> tr_height (ts_head s))"

lemma tip_state_init_iff:
  "tip_state_init h f = Inr s \<longleftrightarrow> s = \<lparr>ts_head = h, ts_finalized = f\<rparr> \<and> tip_state_wf s"
  by (auto simp: tip_state_init_def tip_state_wf_def split: option.splits)

lemma with_head_Inr:
  "with_head s b = Inr t \<longleftrightarrow> t = s\<lparr>ts_head := b\<rparr> \<and>
     (case ts_finalized s of None \<Rightarrow> True
      | Some f \<Rightarrow> tr_height f \<le> tr_height b \<and> (tr_height b = tr_height f \<longrightarrow> tr_hash b = tr_hash f))"
  by (auto simp: with_head_def tip_state_init_iff tip_state_wf_def split: option.splits)

lemma with_finalized_Inr:
  "with_finalized s c = Inr t \<longleftrightarrow> t = s\<lparr>ts_finalized := Some c\<rparr> \<and> tr_height c \<le> tr_height (ts_head s) \<and>
     (case ts_finalized s of None \<Rightarrow> True
      | Some f \<Rightarrow> tr_height f \<le> tr_height c \<and> (tr_height c = tr_height f \<longrightarrow> tr_hash c = tr_hash f))"
  by (auto simp: with_finalized_def tip_state_init_iff tip_state_wf_def split: option.splits)

lemma with_head_wf: "with_head s b = Inr t \<Longrightarrow> tip_state_wf t"
  by (auto simp: with_head_Inr tip_state_wf_def split: option.splits)

lemma with_finalized_wf: "with_finalized s c = Inr t \<Longrightarrow> tip_state_wf t"
  by (auto simp: with_finalized_Inr tip_state_wf_def)

end
