(* ===== verification/AncestryWindow.thy ===== *)
theory AncestryWindow
  imports TipTypes
begin

text \<open>
  \<open>AncestryWindow\<close> of \<open>consensus/tip_safety/ancestry_window.py\<close>: an \<open>OrderedDict\<close> from hashes to block
  references, least recently used first, and a height index. Every lookup by hash moves the entry to
  the end, so lookups return the changed window. The lemmas give the size bound, what a lookup finds
  after a record, and that a walk over parents only follows recorded blocks.
\<close>

record window =
  aw_max :: int
  aw_by_hash :: "(string \<times> tip_ref) list"
  aw_by_height :: "(int \<times> string) list"

definition window_init :: "int \<Rightarrow> window option" where
  "window_init max_blocks =
     (if max_blocks < 1 then None
      else Some \<lparr>aw_max = max_blocks, aw_by_hash = [], aw_by_height = []\<rparr>)"

definition window_len :: "window \<Rightarrow> int" where
  "window_len w = int (length (aw_by_hash w))"

definition window_clear :: "window \<Rightarrow> window" where
  "window_clear w = w\<lparr>aw_by_hash := [], aw_by_height := []\<rparr>"

text \<open>\<open>OrderedDict.move_to_end\<close> of a key that is present.\<close>

definition move_to_end :: "'k \<Rightarrow> ('k \<times> 'v) list \<Rightarrow> ('k \<times> 'v) list" where
  "move_to_end k d =
     (case dget d k of None \<Rightarrow> d | Some v \<Rightarrow> filter (\<lambda>(k', v'). k' \<noteq> k) d @ [(k, v)])"

text \<open>The loop that evicts the oldest entries while the window is over its capacity.\<close>

fun evict_loop ::
  "int \<Rightarrow> (string \<times> tip_ref) list \<Rightarrow> (int \<times> string) list \<Rightarrow> (string \<times> tip_ref) list \<times> (int \<times> string) list"
where
  "evict_loop m [] bh = ([], bh)"
| "evict_loop m ((old_hash, old_ref) # d) bh =
     (if int (length ((old_hash, old_ref) # d)) > m then
        evict_loop m d (if dget bh (tr_height old_ref) = Some old_hash
                        then filter (\<lambda>(h, x). h \<noteq> tr_height old_ref) bh else bh)
      else ((old_hash, old_ref) # d, bh))"

definition window_record :: "tip_ref \<Rightarrow> window \<Rightarrow> window" where
  "window_record b w =
     (let key = tr_hash b;
          by_hash = (if dget (aw_by_hash w) key \<noteq> None
                     then dset key b (move_to_end key (aw_by_hash w)) else dset key b (aw_by_hash w));
          by_height = dset (tr_height b) key (aw_by_height w);
          (d, bh) = evict_loop (aw_max w) by_hash by_height
      in w\<lparr>aw_by_hash := d, aw_by_height := bh\<rparr>)"

definition window_get :: "string \<Rightarrow> window \<Rightarrow> tip_ref option \<times> window" where
  "window_get key w =
     (if key = [] then (None, w)
      else (case dget (aw_by_hash w) key of
              None \<Rightarrow> (None, w)
            | Some ref \<Rightarrow> (Some ref, w\<lparr>aw_by_hash := move_to_end key (aw_by_hash w)\<rparr>)))"

definition window_get_at_height :: "int \<Rightarrow> window \<Rightarrow> tip_ref option" where
  "window_get_at_height h w =
     (case dget (aw_by_height w) h of
        None \<Rightarrow> None
      | Some key \<Rightarrow> if key = [] then None else dget (aw_by_hash w) key)"

definition window_contains :: "string \<Rightarrow> window \<Rightarrow> bool \<times> window" where
  "window_contains key w = (let (r, w') = window_get key w in (r \<noteq> None, w'))"

text \<open>The generator \<open>walk_parents\<close>, drained: the blocks it yields.\<close>

fun walk_loop :: "nat \<Rightarrow> tip_ref option \<Rightarrow> string list \<Rightarrow> window \<Rightarrow> tip_ref list \<times> window" where
  "walk_loop 0 cur seen w = ([], w)"
| "walk_loop (Suc n) None seen w = ([], w)"
| "walk_loop (Suc n) (Some b) seen w =
     (if tr_hash b \<in> set seen then ([], w)
      else let (p, w1) = window_get (tr_parent b) w;
               (bs, w2) = walk_loop n p (tr_hash b # seen) w1
           in (b # bs, w2))"

definition walk_steps :: "int option \<Rightarrow> window \<Rightarrow> nat" where
  "walk_steps max_steps w =
     (case max_steps of None \<Rightarrow> nat (aw_max w) | Some n \<Rightarrow> nat (max 0 n))"

definition walk_parents :: "tip_ref \<Rightarrow> int option \<Rightarrow> window \<Rightarrow> tip_ref list \<times> window" where
  "walk_parents start max_steps w = walk_loop (walk_steps max_steps w) (Some start) [] w"

text \<open>
  \<open>connects_to\<close> takes the blocks from the generator one by one and stops at the target, so the lookup
  of the next parent is made only when the loop goes on.
\<close>

fun connects_loop :: "nat \<Rightarrow> tip_ref option \<Rightarrow> string list \<Rightarrow> string \<Rightarrow> window \<Rightarrow> bool \<times> window" where
  "connects_loop 0 cur seen want w = (False, w)"
| "connects_loop (Suc n) None seen want w = (False, w)"
| "connects_loop (Suc n) (Some b) seen want w =
     (if tr_hash b \<in> set seen then (False, w)
      else if tr_hash b = want then (True, w)
      else if tr_parent b = want then (True, w)
      else let (p, w1) = window_get (tr_parent b) w
           in connects_loop n p (tr_hash b # seen) want w1)"

definition connects_to :: "tip_ref \<Rightarrow> string \<Rightarrow> int option \<Rightarrow> window \<Rightarrow> bool \<times> window" where
  "connects_to candidate target max_steps w =
     (if target = [] then (False, w)
      else connects_loop (walk_steps max_steps w) (Some candidate) [] target w)"

definition is_ancestor_of :: "tip_ref \<Rightarrow> string \<Rightarrow> int option \<Rightarrow> window \<Rightarrow> bool \<times> window" where
  "is_ancestor_of descendant ancestor max_steps w = connects_to descendant ancestor max_steps w"

section \<open>Lookups do not change what is recorded\<close>

definition window_wf :: "window \<Rightarrow> bool" where
  "window_wf w \<longleftrightarrow> 1 \<le> aw_max w \<and> distinct (map fst (aw_by_hash w)) \<and> window_len w \<le> aw_max w
     \<and> (\<forall>(k, b)\<in>set (aw_by_hash w). tr_hash b = k)"

text \<open>Two windows with the same entries, whatever their order of use.\<close>

definition same_entries :: "window \<Rightarrow> window \<Rightarrow> bool" where
  "same_entries w w' \<longleftrightarrow> (window_wf w \<longrightarrow> window_wf w') \<and> aw_max w' = aw_max w
     \<and> aw_by_height w' = aw_by_height w \<and> dget (aw_by_hash w') = dget (aw_by_hash w)"

lemma same_entries_refl [simp]: "same_entries w w"
  by (simp add: same_entries_def)

lemma same_entries_trans: "same_entries a b \<Longrightarrow> same_entries b c \<Longrightarrow> same_entries a c"
  by (auto simp: same_entries_def)

lemma dget_move_to_end [simp]: "dget (move_to_end k d) = dget d"
proof
  fix k'
  show "dget (move_to_end k d) k' = dget d k'"
    by (cases "dget d k'") (auto simp: move_to_end_def map_add_def dget_filter_key split: option.splits)
qed

lemma move_to_end_set: "distinct (map fst d) \<Longrightarrow> set (move_to_end k d) = set d"
  by (auto simp: move_to_end_def dest: map_of_SomeD eq_key_imp_eq_value split: option.splits)

lemma move_to_end_distinct: "distinct (map fst d) \<Longrightarrow> distinct (map fst (move_to_end k d))"
  by (auto simp: move_to_end_def distinct_map inj_on_def split: option.splits)

lemma move_to_end_length:
  assumes "distinct (map fst d)"
  shows "length (move_to_end k d) = length d"
proof -
  have "length (move_to_end k d) = card (set (move_to_end k d))"
    using move_to_end_distinct [OF assms] by (metis distinct_card distinct_map)
  also have "\<dots> = length d"
    using assms by (simp add: move_to_end_set distinct_card distinct_map)
  finally show ?thesis .
qed

lemma window_get_same: "same_entries w (snd (window_get key w))"
  by (auto simp: window_get_def same_entries_def window_wf_def window_len_def move_to_end_set
      move_to_end_distinct move_to_end_length split: option.splits)

lemma window_get_result: "fst (window_get key w) = (if key = [] then None else dget (aw_by_hash w) key)"
  by (simp add: window_get_def split: option.split)

lemma connects_loop_same: "same_entries w (snd (connects_loop n cur seen want w))"
proof (induction n cur seen want w rule: connects_loop.induct)
  case (3 n b seen want w)
  obtain p w1 where g: "window_get (tr_parent b) w = (p, w1)" by fastforce
  then have "same_entries w w1" using window_get_same [of w "tr_parent b"] by simp
  with 3 g show ?case by (auto intro: same_entries_trans)
qed simp_all

lemma connects_to_same: "same_entries w (snd (connects_to b h n w))"
  by (simp add: connects_to_def connects_loop_same)

section \<open>What a record keeps\<close>

lemma evict_loop_drop:
  "0 \<le> m \<Longrightarrow> fst (evict_loop m d bh) = drop (length d - nat m) d"
proof (induction m d bh rule: evict_loop.induct)
  case (2 m k b d bh)
  show ?case
  proof (cases "int (length ((k, b) # d)) > m")
    case True
    then have "length ((k, b) # d) - nat m = Suc (length d - nat m)" using 2(2) by simp
    with 2 True show ?thesis by simp
  next
    case False
    then have "length ((k, b) # d) - nat m = 0" by simp
    then show ?thesis using False by simp
  qed
qed simp

text \<open>The dictionary before the eviction: the new block is its last entry.\<close>

definition recorded :: "tip_ref \<Rightarrow> window \<Rightarrow> (string \<times> tip_ref) list" where
  "recorded b w = (if dget (aw_by_hash w) (tr_hash b) \<noteq> None
     then dset (tr_hash b) b (move_to_end (tr_hash b) (aw_by_hash w)) else dset (tr_hash b) b (aw_by_hash w))"

lemma window_record_by_hash:
  "1 \<le> aw_max w \<Longrightarrow> aw_by_hash (window_record b w) =
     drop (length (recorded b w) - nat (aw_max w)) (recorded b w)"
  using evict_loop_drop [of "aw_max w" "recorded b w" "dset (tr_height b) (tr_hash b) (aw_by_height w)"]
  by (simp add: window_record_def recorded_def Let_def case_prod_beta)

lemma window_record_max [simp]: "aw_max (window_record b w) = aw_max w"
  by (simp add: window_record_def Let_def split: prod.split)

lemma dset_snoc: "k \<notin> fst ` set d \<Longrightarrow> dset k v (d @ [(k, u)]) = d @ [(k, v)]"
  by (induction d) auto

lemma recorded_last:
  assumes "distinct (map fst (aw_by_hash w))"
  shows "recorded b w = filter (\<lambda>(k, r). k \<noteq> tr_hash b) (aw_by_hash w) @ [(tr_hash b, b)]"
proof (cases "dget (aw_by_hash w) (tr_hash b)")
  case None
  then have "tr_hash b \<notin> fst ` set (aw_by_hash w)" by (simp add: map_of_eq_None_iff)
  moreover from this have "filter (\<lambda>(k, r). k \<noteq> tr_hash b) (aw_by_hash w) = aw_by_hash w"
    by (force simp: filter_id_conv)
  ultimately show ?thesis using None by (simp add: recorded_def dset_new)
next
  case (Some r)
  have "tr_hash b \<notin> fst ` set (filter (\<lambda>(k, r). k \<noteq> tr_hash b) (aw_by_hash w))" by auto
  with Some show ?thesis by (simp add: recorded_def move_to_end_def dset_snoc)
qed

lemma distinct_map_filter_fst: "distinct (map fst d) \<Longrightarrow> distinct (map fst (filter P d))"
  by (rule distinct_map_filter)

lemma drop_butlast_last: "n \<le> length xs \<Longrightarrow> drop n (xs @ [x]) = drop n xs @ [x]"
  by simp

lemma window_record_entries:
  assumes "window_wf w"
  obtains keep where "aw_by_hash (window_record b w) = keep @ [(tr_hash b, b)]"
    and "set keep \<subseteq> set (aw_by_hash w)" and "tr_hash b \<notin> fst ` set keep" and "distinct (map fst keep)"
proof -
  let ?f = "filter (\<lambda>(k, r). k \<noteq> tr_hash b) (aw_by_hash w)"
  let ?n = "length (recorded b w) - nat (aw_max w)"
  have w: "1 \<le> aw_max w" "distinct (map fst (aw_by_hash w))" using assms by (auto simp: window_wf_def)
  have len: "length (recorded b w) = Suc (length ?f)" using recorded_last [OF w(2), of b] by simp
  have "aw_by_hash (window_record b w) = drop ?n (?f @ [(tr_hash b, b)])"
    using window_record_by_hash [OF w(1), of b] recorded_last [OF w(2), of b] by simp
  also have "\<dots> = drop ?n ?f @ [(tr_hash b, b)]" using len w(1) by (intro drop_butlast_last) simp
  finally have "aw_by_hash (window_record b w) = drop ?n ?f @ [(tr_hash b, b)]" .
  moreover have "set (drop ?n ?f) \<subseteq> set (aw_by_hash w)" by (auto dest: in_set_dropD)
  moreover have "tr_hash b \<notin> fst ` set (drop ?n ?f)" by (auto dest: in_set_dropD)
  moreover have "distinct (map fst (drop ?n ?f))"
    using w(2) by (simp add: drop_map [symmetric] distinct_map_filter_fst)
  ultimately show thesis by (rule that)
qed

lemma window_record_wf:
  assumes "window_wf w"
  shows "window_wf (window_record b w)"
proof -
  obtain keep where k: "aw_by_hash (window_record b w) = keep @ [(tr_hash b, b)]"
      "set keep \<subseteq> set (aw_by_hash w)" "tr_hash b \<notin> fst ` set keep" "distinct (map fst keep)"
    using assms by (rule window_record_entries)
  have "1 \<le> aw_max w" using assms by (simp add: window_wf_def)
  then have "length (aw_by_hash (window_record b w)) \<le> nat (aw_max w)"
    by (simp add: window_record_by_hash)
  then have "window_len (window_record b w) \<le> aw_max w" using \<open>1 \<le> aw_max w\<close> by (simp add: window_len_def)
  with assms k show ?thesis by (auto simp: window_wf_def)
qed

lemma window_record_get:
  assumes "window_wf w"
  shows "dget (aw_by_hash (window_record b w)) (tr_hash b) = Some b"
    and "dget (aw_by_hash (window_record b w)) k = Some r \<Longrightarrow> r = b \<and> k = tr_hash b \<or> dget (aw_by_hash w) k = Some r"
proof -
  obtain keep where k: "aw_by_hash (window_record b w) = keep @ [(tr_hash b, b)]"
      "set keep \<subseteq> set (aw_by_hash w)" "tr_hash b \<notin> fst ` set keep" "distinct (map fst keep)"
    using assms by (rule window_record_entries)
  have "dget keep (tr_hash b) = None" using k(3) by (simp add: map_of_eq_None_iff)
  then show "dget (aw_by_hash (window_record b w)) (tr_hash b) = Some b"
    by (simp add: k(1) map_add_def)
  assume "dget (aw_by_hash (window_record b w)) k = Some r"
  then have "(k, r) \<in> set keep \<or> r = b \<and> k = tr_hash b"
    by (auto simp: k(1) dest!: map_of_SomeD split: if_splits)
  with k(2) assms show "r = b \<and> k = tr_hash b \<or> dget (aw_by_hash w) k = Some r"
    by (auto simp: window_wf_def)
qed

section \<open>Walking over parents\<close>

text \<open>
  A block store gives each hash its block. A window is a part of it, and the walk of
  \<open>connects_to\<close> only answers yes for an ancestor.
\<close>

type_synonym block_store = "string \<Rightarrow> tip_ref option"

inductive descends :: "block_store \<Rightarrow> string \<Rightarrow> string \<Rightarrow> bool" for blk where
  descends_refl: "descends blk h h"
| descends_step: "blk h = Some b \<Longrightarrow> descends blk (tr_parent b) a \<Longrightarrow> descends blk h a"

inductive_cases descendsE: "descends blk h a"

definition window_in :: "block_store \<Rightarrow> window \<Rightarrow> bool" where
  "window_in blk w \<longleftrightarrow> (\<forall>k b. dget (aw_by_hash w) k = Some b \<longrightarrow> blk k = Some b)"

lemma window_in_same: "same_entries w w' \<Longrightarrow> window_in blk w' = window_in blk w"
  by (simp add: window_in_def same_entries_def)

definition store_ok :: "block_store \<Rightarrow> bool" where
  "store_ok blk \<longleftrightarrow> (\<forall>h b. blk h = Some b \<longrightarrow> tr_hash b = h \<and> tip_ref_wf b)"

definition known :: "block_store \<Rightarrow> tip_ref \<Rightarrow> bool" where
  "known blk b \<longleftrightarrow> blk (tr_hash b) = Some b"

lemma connects_loop_descends:
  assumes "store_ok blk" and "fst (connects_loop n cur seen want w)" and "window_in blk w"
    and "\<forall>b. cur = Some b \<longrightarrow> known blk b"
  shows "\<exists>b. cur = Some b \<and> descends blk (tr_hash b) want"
  using assms(2-)
proof (induction n cur seen want w rule: connects_loop.induct)
  case (3 n b seen want w)
  obtain p w1 where g: "window_get (tr_parent b) w = (p, w1)" by fastforce
  have w1: "window_in blk w1" using 3(3) window_in_same window_get_same g by (metis snd_conv)
  have b: "blk (tr_hash b) = Some b" using 3(4) by (simp add: known_def)
  show ?case
  proof (cases "tr_hash b = want \<or> tr_parent b = want")
    case True
    with b show ?thesis by (auto intro: descends_refl descends_step)
  next
    case False
    with 3(2) g have rec: "fst (connects_loop n p (tr_hash b # seen) want w1)" "tr_hash b \<notin> set seen"
      by (auto split: if_splits)
    have p: "p = (if tr_parent b = [] then None else dget (aw_by_hash w) (tr_parent b))"
      using g window_get_result [of "tr_parent b" w] by simp
    have c: "tr_hash c = tr_parent b \<and> known blk c" if "p = Some c" for c
    proof -
      have "dget (aw_by_hash w) (tr_parent b) = Some c" using that p by (auto split: if_splits)
      then have "blk (tr_parent b) = Some c" using 3(3) by (simp add: window_in_def)
      then show ?thesis using assms(1) by (auto simp: store_ok_def known_def)
    qed
    obtain c where "p = Some c" "descends blk (tr_hash c) want"
      using 3(1) [OF rec(2) _ _ g [symmetric] refl rec(1) w1] False c by auto
    with b c show ?thesis by (auto intro: descends_step)
  qed
qed simp_all

lemma connects_to_descends:
  "store_ok blk \<Longrightarrow> fst (connects_to b target n w) \<Longrightarrow> window_in blk w \<Longrightarrow> known blk b \<Longrightarrow>
     descends blk (tr_hash b) target"
  using connects_loop_descends [of blk "walk_steps n w" "Some b" "[]" target w]
  by (auto simp: connects_to_def split: if_splits)

lemma window_record_in:
  "window_wf w \<Longrightarrow> window_in blk w \<Longrightarrow> known blk b \<Longrightarrow> window_in blk (window_record b w)"
  using window_record_get(2) [of w b] by (fastforce simp: window_in_def known_def)

text \<open>The lazy loop answers what draining the generator would.\<close>

lemma connects_loop_walk:
  "fst (connects_loop n cur seen want w) =
     list_ex (\<lambda>b. tr_hash b = want \<or> tr_parent b = want) (fst (walk_loop n cur seen w))"
  by (induction n cur seen want w rule: connects_loop.induct) (auto split: prod.split)

lemma connects_to_walk:
  "target \<noteq> [] \<Longrightarrow> fst (connects_to b target n w) =
     list_ex (\<lambda>b. tr_hash b = target \<or> tr_parent b = target) (fst (walk_parents b n w))"
  by (simp add: connects_to_def walk_parents_def connects_loop_walk)

end
