(* ===== verification/LongRange.thy ===== *)
theory LongRange
  imports AncestryWindow
begin

text \<open>
  The weak-subjectivity gate: \<open>WeakSubjectivityService\<close> (\<open>consensus/long_range/service.py\<close>, its anchor is
  the state) and the bridge to the ancestry window (\<open>consensus/long_range/ancestry_bridge.py\<close>). The
  value of the environment variable \<open>TIP_ANCESTRY_WINDOW_MAX\<close> is the argument \<open>env_max\<close>.
  The lemmas say that, over a block store the window is part of, a candidate above the anchor is only
  accepted when it descends from the anchor or extends the local tip.
\<close>

section \<open>WeakSubjectivityService\<close>

record ws_anchor =
  wa_height :: int
  wa_hash :: string
  wa_epoch :: int

record stale_decision =
  sd_accept :: bool
  sd_reason :: string
  sd_anchor_height :: int
  sd_candidate_height :: int

type_synonym ws_service = "ws_anchor option"

definition ws_set_anchor :: "ws_anchor \<Rightarrow> ws_service \<Rightarrow> string + ws_service" where
  "ws_set_anchor a s =
     (if wa_height a < 0 then Inl ''anchor.height must be >= 0''
      else if py_strip (wa_hash a) = [] then Inl ''anchor.block_hash required''
      else Inr (Some \<lparr>wa_height = wa_height a, wa_hash = py_lower (wa_hash a), wa_epoch = wa_epoch a\<rparr>))"

definition evaluate_stale_fork :: "ws_service \<Rightarrow> int \<Rightarrow> string \<Rightarrow> bool \<Rightarrow> stale_decision" where
  "evaluate_stale_fork s cand_h candidate_hash shares =
     (let cand_hash = py_lower candidate_hash in
      case s of
        None \<Rightarrow> \<lparr>sd_accept = False, sd_reason = ''no_anchor'', sd_anchor_height = - 1,
                 sd_candidate_height = cand_h\<rparr>
      | Some a \<Rightarrow>
          let ah = wa_height a;
              dec = (\<lambda>acc reason. \<lparr>sd_accept = acc, sd_reason = reason, sd_anchor_height = ah,
                       sd_candidate_height = cand_h\<rparr>)
          in if cand_h < ah then dec False ''below_ws_anchor''
             else if cand_h = ah then
               (if cand_hash = wa_hash a then dec True ''is_anchor''
                else dec False ''anchor_hash_mismatch'')
             else if \<not> shares then dec False ''long_range_fork_below_anchor''
             else dec True ''descendant_of_ws_anchor'')"

section \<open>The bridge to the window\<close>

text \<open>\<open>normalize_block_hash\<close> with a fallback when it raises.\<close>

definition normalize_or :: "string \<Rightarrow> string \<Rightarrow> string" where
  "normalize_or d h = (case normalize_block_hash h of Inl e \<Rightarrow> d | Inr x \<Rightarrow> x)"

fun shares_loop :: "nat \<Rightarrow> string \<Rightarrow> string list \<Rightarrow> string \<Rightarrow> window \<Rightarrow> bool \<times> window" where
  "shares_loop 0 cur seen target w = (False, w)"
| "shares_loop (Suc n) cur seen target w =
     (if cur \<in> set seen then (False, w)
      else (case window_get cur w of
              (None, w1) \<Rightarrow> (False, w1)
            | (Some ref, w1) \<Rightarrow>
                if tr_parent ref = [] then (False, w1)
                else let parent_n = normalize_or (tr_parent ref) (tr_parent ref)
                     in if parent_n = target then (True, w1)
                        else shares_loop n parent_n (cur # seen) target w1))"

definition shares_ancestor_with_anchor ::
  "int \<Rightarrow> string \<Rightarrow> string \<Rightarrow> int option \<Rightarrow> window \<Rightarrow> bool \<times> window" where
  "shares_ancestor_with_anchor env_max candidate_hash anchor_hash max_walk w =
     (let walk = (case max_walk of None \<Rightarrow> max (aw_max w) env_max | Some n \<Rightarrow> n) in
      case (normalize_block_hash anchor_hash, normalize_block_hash candidate_hash) of
        (Inr target, Inr cur) \<Rightarrow>
          if cur = target then (True, w) else shares_loop (nat walk) cur [] target w
      | _ \<Rightarrow> (False, w))"

text \<open>The \<open>local_tip\<close> clause of both functions: a contiguous extension of a tip past the anchor.\<close>

definition extends_local_tip :: "ws_anchor \<Rightarrow> string \<Rightarrow> string \<Rightarrow> tip_ref \<Rightarrow> bool" where
  "extends_local_tip a ph tip_hash tip =
     (tip_hash \<noteq> [] \<and> ph = tip_hash \<and> tr_height tip \<ge> wa_height a
      \<and> (if tr_height tip = wa_height a then Inr tip_hash = normalize_block_hash (wa_hash a) else True))"

definition evaluate_with_window ::
  "int \<Rightarrow> ws_service \<Rightarrow> string \<Rightarrow> int option \<Rightarrow> tip_ref option \<Rightarrow> window \<Rightarrow> stale_decision \<times> window"
where
  "evaluate_with_window env_max s candidate_hash candidate_height local_tip w =
     (case normalize_block_hash candidate_hash of
        Inl e \<Rightarrow> (\<lparr>sd_accept = False, sd_reason = ''bad_candidate_hash'',
                   sd_anchor_height = (case s of None \<Rightarrow> - 1 | Some a \<Rightarrow> wa_height a),
                   sd_candidate_height =
                     (case candidate_height of None \<Rightarrow> - 1 | Some h \<Rightarrow> if h = 0 then - 1 else h)\<rparr>, w)
      | Inr cand \<Rightarrow>
          let (ref, w1) = window_get cand w;
              height = (case candidate_height of
                          Some h \<Rightarrow> h | None \<Rightarrow> (case ref of Some r \<Rightarrow> tr_height r | None \<Rightarrow> - 1))
          in (case s of
                None \<Rightarrow> (evaluate_stale_fork s height cand False, w1)
              | Some a \<Rightarrow>
                  let (linked, w2) = shares_ancestor_with_anchor env_max cand (wa_hash a) None w1;
                      linked' = (linked \<or>
                        (case (local_tip, ref) of
                           (Some tip, Some r) \<Rightarrow>
                             height = tr_height tip + 1 \<and>
                             (case (normalize_block_hash (tr_hash tip), normalize_block_hash (tr_parent r),
                                    normalize_block_hash (wa_hash a)) of
                                (Inr tip_hash, Inr parent, Inr ah) \<Rightarrow> extends_local_tip a parent tip_hash tip
                              | _ \<Rightarrow> False)
                         | _ \<Rightarrow> False))
                  in (evaluate_stale_fork s (if height \<ge> 0 then height else wa_height a) cand linked', w2)))"

definition evaluate_block_ref ::
  "int \<Rightarrow> ws_service \<Rightarrow> tip_ref \<Rightarrow> tip_ref option \<Rightarrow> window \<Rightarrow> stale_decision \<times> window" where
  "evaluate_block_ref env_max s candidate local_tip w =
     (case s of
        None \<Rightarrow> (evaluate_stale_fork s (tr_height candidate) (tr_hash candidate) False, w)
      | Some a \<Rightarrow>
          let (inside, w1) = window_contains (tr_hash candidate) w in
          if inside then
            evaluate_with_window env_max s (tr_hash candidate) (Some (tr_height candidate)) local_tip w1
          else if tr_parent candidate = [] then
            (evaluate_stale_fork s (tr_height candidate) (tr_hash candidate)
               (tr_height candidate = 0 \<and> tr_hash candidate = wa_hash a), w1)
          else
            (let (ph, ah) = (case (normalize_block_hash (tr_parent candidate), normalize_block_hash (wa_hash a)) of
                               (Inr p, Inr x) \<Rightarrow> (p, x) | _ \<Rightarrow> ([], []));
                 (linked, w2) = (if ph = [] then (False, w1)
                                 else if ph = ah then (True, w1)
                                 else shares_ancestor_with_anchor env_max ph (wa_hash a) None w1);
                 linked' = (linked \<or>
                   (case local_tip of
                      None \<Rightarrow> False
                    | Some tip \<Rightarrow>
                        ph \<noteq> [] \<and> tr_height candidate = tr_height tip + 1 \<and>
                        (case normalize_block_hash (tr_hash tip) of
                           Inl e \<Rightarrow> False
                         | Inr tip_hash \<Rightarrow> extends_local_tip a ph tip_hash tip)))
             in (evaluate_stale_fork s (tr_height candidate) (tr_hash candidate) linked', w2)))"

section \<open>Lemmas\<close>

lemma evaluate_stale_fork_accept:
  "sd_accept (evaluate_stale_fork s h c shares) \<longleftrightarrow>
     (\<exists>a. s = Some a \<and> (h = wa_height a \<and> py_lower c = wa_hash a \<or> wa_height a < h \<and> shares))"
  by (auto simp: evaluate_stale_fork_def Let_def split: option.splits)

lemma shares_loop_same: "same_entries w (snd (shares_loop n cur seen target w))"
proof (induction n cur seen target w rule: shares_loop.induct)
  case (2 n cur seen target w)
  obtain r w1 where g: "window_get cur w = (r, w1)" by fastforce
  then have "same_entries w w1" using window_get_same [of w cur] by simp
  with 2 g show ?case by (auto simp: Let_def intro: same_entries_trans split: option.split)
qed simp

lemma shares_ancestor_same: "same_entries w (snd (shares_ancestor_with_anchor m c a k w))"
  by (auto simp: shares_ancestor_with_anchor_def Let_def shares_loop_same split: sum.split)

lemma evaluate_with_window_same: "same_entries w (snd (evaluate_with_window m s c h tip w))"
proof (cases "normalize_block_hash c")
  case (Inr cand)
  obtain r w1 where g: "window_get cand w = (r, w1)" by fastforce
  then have w1: "same_entries w w1" using window_get_same [of w cand] by simp
  show ?thesis
  proof (cases s)
    case None
    with Inr g w1 show ?thesis by (simp add: evaluate_with_window_def Let_def)
  next
    case (Some a)
    obtain l w2 where sh: "shares_ancestor_with_anchor m cand (wa_hash a) None w1 = (l, w2)" by fastforce
    then have "same_entries w1 w2" using shares_ancestor_same [of w1 m cand "wa_hash a" None] by simp
    with Inr g w1 Some sh show ?thesis
      by (simp add: evaluate_with_window_def Let_def same_entries_trans [of w w1 w2])
  qed
qed (simp add: evaluate_with_window_def)

lemma evaluate_block_ref_same: "same_entries w (snd (evaluate_block_ref m s c tip w))"
proof (cases s)
  case None
  then show ?thesis by (simp add: evaluate_block_ref_def)
next
  case (Some a)
  obtain i w1 where g: "window_contains (tr_hash c) w = (i, w1)" by fastforce
  then have w1: "same_entries w w1" using window_get_same [of w "tr_hash c"]
    by (simp add: window_contains_def split: prod.splits) 
  have 2: "same_entries w (snd (shares_ancestor_with_anchor m p h k w1))" for p h k
    using w1 shares_ancestor_same by (rule same_entries_trans)
  have 3: "same_entries w (snd (evaluate_with_window m s c' h tip w1))" for c' h
    using w1 evaluate_with_window_same by (rule same_entries_trans)
  from Some g w1 2 3 show ?thesis
    by (auto simp: evaluate_block_ref_def Let_def case_prod_beta)
qed

lemma canonical_not_Nil: "canonical_hash h \<Longrightarrow> h \<noteq> []"
  by (auto simp: canonical_hash_def)

lemma canonical_normalize_or [simp]: "canonical_hash h \<Longrightarrow> normalize_or d h = h"
  by (simp add: normalize_or_def canonical_normalize)

lemma store_okD: "store_ok blk \<Longrightarrow> blk h = Some b \<Longrightarrow> tr_hash b = h \<and> tip_ref_wf b"
  by (auto simp: store_ok_def)

lemma shares_loop_descends:
  "store_ok blk \<Longrightarrow> fst (shares_loop n cur seen target w) \<Longrightarrow> window_in blk w \<Longrightarrow> descends blk cur target"
proof (induction n cur seen target w rule: shares_loop.induct)
  case (2 n cur seen target w)
  obtain r w1 where g: "window_get cur w = (r, w1)" by fastforce
  have w1: "window_in blk w1" using 2(4) window_in_same window_get_same g by (metis snd_conv)
  from 2(3) g obtain b where b: "r = Some b" "tr_parent b \<noteq> []" "cur \<notin> set seen" by (auto split: if_splits option.splits)
  have "dget (aw_by_hash w) cur = Some b"
    using window_get_result [of cur w] g b(1) by (auto split: if_splits)
  then have blk: "blk cur = Some b" using 2(4) by (simp add: window_in_def)
  then have "canonical_hash (tr_parent b)" using store_okD [OF 2(2) blk] b(2) by (simp add: tip_ref_wf_def)
  then have p: "normalize_or (tr_parent b) (tr_parent b) = tr_parent b" by simp
  show ?case
  proof (cases "tr_parent b = target")
    case True
    with blk show ?thesis by (auto intro: descends_refl descends_step)
  next
    case False
    with 2(3) g b p have "fst (shares_loop n (tr_parent b) (cur # seen) target w1)" by (simp add: Let_def)
    with 2(1) [OF b(3) g [symmetric] b(1) _ p [symmetric]] b False 2(2) w1
    have "descends blk (tr_parent b) target" by simp
    with blk show ?thesis by (rule descends_step)
  qed
qed simp

lemma shares_ancestor_descends:
  assumes "store_ok blk" and "window_in blk w" and "canonical_hash c" and "canonical_hash a"
    and "fst (shares_ancestor_with_anchor m c a k w)"
  shows "descends blk c a"
  using assms shares_loop_descends [OF assms(1) _ assms(2)]
  by (auto simp: shares_ancestor_with_anchor_def canonical_normalize intro: descends_refl split: if_splits)

text \<open>What an accepted candidate is, relative to the anchor and to the local tip.\<close>

definition contiguous_past :: "ws_anchor \<Rightarrow> tip_ref \<Rightarrow> tip_ref \<Rightarrow> bool" where
  "contiguous_past a tip c \<longleftrightarrow> tr_height c = tr_height tip + 1 \<and> tr_parent c = tr_hash tip
     \<and> wa_height a \<le> tr_height tip \<and> (tr_height tip = wa_height a \<longrightarrow> tr_hash tip = wa_hash a)"

lemma extends_local_tipD:
  "extends_local_tip a p h tip \<Longrightarrow> canonical_hash (wa_hash a) \<Longrightarrow>
     p = h \<and> wa_height a \<le> tr_height tip \<and> (tr_height tip = wa_height a \<longrightarrow> h = wa_hash a)"
  by (auto simp: extends_local_tip_def canonical_normalize split: if_splits)

lemma normalize_Nil: "normalize_block_hash [] = Inl (TipValidation ''block hash must not be empty'')"
  by (simp add: normalize_block_hash_def)

lemma parent_normalize: "tip_ref_wf c \<Longrightarrow> normalize_block_hash (tr_parent c) = Inr p \<Longrightarrow> p = tr_parent c"
  by (auto simp: tip_ref_wf_def canonical_normalize normalize_Nil)

lemma evaluate_with_window_sound:
  assumes "store_ok blk" and "window_in blk w" and "known blk c" and "tip_ref_wf tip" and a: "canonical_hash (wa_hash a)"
    and "sd_accept (fst (evaluate_with_window m (Some a) (tr_hash c) (Some (tr_height c)) (Some tip) w))"
  shows "(tr_height c = wa_height a \<and> tr_hash c = wa_hash a) \<or>
     (wa_height a < tr_height c \<and> (descends blk (tr_hash c) (wa_hash a) \<or> contiguous_past a tip c))"
proof -
  have c: "canonical_hash (tr_hash c)" "tip_ref_wf c" "blk (tr_hash c) = Some c"
    using store_okD [OF assms(1), of "tr_hash c" c] assms(3) by (auto simp: known_def tip_ref_wf_def)
  have h: "0 \<le> tr_height c" using c(2) by (simp add: tip_ref_wf_def)
  have tip: "canonical_hash (tr_hash tip)" using assms(4) by (simp add: tip_ref_wf_def)
  obtain r w1 where g: "window_get (tr_hash c) w = (r, w1)" by fastforce
  have w1: "window_in blk w1" using assms(2) window_in_same window_get_same g by (metis snd_conv)
  obtain l w2 where sh: "shares_ancestor_with_anchor m (tr_hash c) (wa_hash a) None w1 = (l, w2)" by fastforce
  have l: "l \<Longrightarrow> descends blk (tr_hash c) (wa_hash a)"
    using shares_ancestor_descends [OF assms(1) w1 c(1) a] sh by (metis fst_conv)
  have r: "b = c" if "r = Some b" for b
  proof -
    have "dget (aw_by_hash w) (tr_hash c) = Some b"
      using that g window_get_result [of "tr_hash c" w] by (simp split: if_splits)
    with assms(2) c(3) show ?thesis by (simp add: window_in_def)
  qed
  have lower: "py_lower (tr_hash c) = tr_hash c" using c(1) by (simp add: canonical_hash_def)
  let ?ext = "\<lambda>b. case (normalize_block_hash (tr_hash tip), normalize_block_hash (tr_parent b),
      normalize_block_hash (wa_hash a)) of
        (Inr tip_hash, Inr parent, Inr ah) \<Rightarrow> extends_local_tip a parent tip_hash tip | _ \<Rightarrow> False"
  let ?link = "l \<or> (case r of Some b \<Rightarrow> tr_height c = tr_height tip + 1 \<and> ?ext b | None \<Rightarrow> False)"
  have "fst (evaluate_with_window m (Some a) (tr_hash c) (Some (tr_height c)) (Some tip) w) =
      evaluate_stale_fork (Some a) (tr_height c) (tr_hash c) ?link"
    using h by (simp add: evaluate_with_window_def canonical_normalize [OF c(1)] g sh Let_def)
  moreover have "?ext c \<Longrightarrow> tr_height c = tr_height tip + 1 \<Longrightarrow> contiguous_past a tip c"
    using parent_normalize [OF c(2)] a
    by (auto simp: canonical_normalize tip contiguous_past_def dest: extends_local_tipD split: sum.splits)
  then have "?link \<Longrightarrow> descends blk (tr_hash c) (wa_hash a) \<or> contiguous_past a tip c"
    using l r by (auto split: option.splits)
  ultimately show ?thesis using assms(6) by (auto simp: evaluate_stale_fork_accept lower)
qed

lemma evaluate_block_ref_sound:
  assumes "store_ok blk" and "window_in blk w" and "known blk c" and "tip_ref_wf tip" and a: "canonical_hash (wa_hash a)"
    and acc: "sd_accept (fst (evaluate_block_ref m (Some a) c (Some tip) w))"
  shows "(tr_height c = wa_height a \<and> tr_hash c = wa_hash a) \<or>
     (wa_height a < tr_height c \<and> (descends blk (tr_hash c) (wa_hash a) \<or> contiguous_past a tip c))"
proof -
  have c: "canonical_hash (tr_hash c)" "tip_ref_wf c" "blk (tr_hash c) = Some c"
    using store_okD [OF assms(1), of "tr_hash c" c] assms(3) by (auto simp: known_def tip_ref_wf_def)
  have lower: "py_lower (tr_hash c) = tr_hash c" using c(1) by (simp add: canonical_hash_def)
  have tip: "canonical_hash (tr_hash tip)" using assms(4) by (simp add: tip_ref_wf_def)
  obtain i w1 where g: "window_contains (tr_hash c) w = (i, w1)" by fastforce
  then have "same_entries w w1" using window_get_same [of w "tr_hash c"]
    by (simp add: window_contains_def split: prod.splits)
  then have w1: "window_in blk w1" using assms(2) window_in_same by metis
  show ?thesis
  proof (cases "i \<or> tr_parent c = []")
    case True
    show ?thesis
    proof (cases i)
      case True
      with acc g have "sd_accept (fst (evaluate_with_window m (Some a) (tr_hash c) (Some (tr_height c)) (Some tip) w1))"
        by (simp add: evaluate_block_ref_def)
      then show ?thesis by (rule evaluate_with_window_sound [OF assms(1) w1 assms(3,4) a])
    next
      case False
      with \<open>i \<or> tr_parent c = []\<close> acc g show ?thesis
        by (auto simp: evaluate_block_ref_def evaluate_stale_fork_accept lower intro: descends_refl)
    qed
  next
    case False
    let ?p = "tr_parent c"
    have p: "canonical_hash ?p" using c(2) False by (simp add: tip_ref_wf_def)
    obtain l w2 where sh: "(if ?p = wa_hash a then (True, w1)
        else shares_ancestor_with_anchor m ?p (wa_hash a) None w1) = (l, w2)" by fastforce
    have l: "l \<Longrightarrow> descends blk (tr_hash c) (wa_hash a)"
    proof -
      assume l
      then have "descends blk ?p (wa_hash a)"
        using shares_ancestor_descends [OF assms(1) w1 p a, of m None] sh
        by (auto intro: descends_refl split: if_splits)
      with c(3) show "descends blk (tr_hash c) (wa_hash a)" by (rule descends_step)
    qed
    let ?link = "l \<or> tr_height c = tr_height tip + 1 \<and> extends_local_tip a ?p (tr_hash tip) tip"
    have "fst (evaluate_block_ref m (Some a) c (Some tip) w) =
        evaluate_stale_fork (Some a) (tr_height c) (tr_hash c) ?link"
      using g False sh canonical_not_Nil [OF p]
      by (simp add: evaluate_block_ref_def canonical_normalize [OF p] canonical_normalize [OF a]
          canonical_normalize [OF tip])
    moreover have "?link \<Longrightarrow> descends blk (tr_hash c) (wa_hash a) \<or> contiguous_past a tip c"
      using l extends_local_tipD [OF _ a, of ?p "tr_hash tip" tip] by (auto simp: contiguous_past_def)
    ultimately show ?thesis using acc by (auto simp: evaluate_stale_fork_accept lower)
  qed
qed

end
