(* ===== verification/TipSafety.thy ===== *)
theory TipSafety
  imports LongRange "HOL-Library.List_Lexorder" "HOL-Library.Char_ord"
begin

text \<open>
  The tip-safety policies and service: \<open>ReorgPolicy\<close> (\<open>reorg_policy.py\<close>), \<open>ForkChoice\<close>
  (\<open>fork_choice.py\<close>) and \<open>TipSafetyService\<close> (\<open>service.py\<close>), all of \<open>consensus/tip_safety\<close>. The reorg policy
  and the service share one ancestry window, which the policy's lookups reorder; the service state is
  the record \<open>tip_service\<close>. Policy refusals are values of \<open>tip_error\<close>; the service turns them into
  rejecting decisions, as the code does.
\<close>

section \<open>ReorgPolicy\<close>

definition at_height :: "string \<Rightarrow> int \<Rightarrow> string" where
  "at_height h n = h @ ''@'' @ py_str_int n"

definition accept_decision :: "apply_outcome \<Rightarrow> string \<Rightarrow> tip_ref \<Rightarrow> apply_decision" where
  "accept_decision out detail c =
     \<lparr>ad_outcome = out, ad_reason = ''ok'', ad_detail = detail, ad_new_head = Some c\<rparr>"

text \<open>The last part of \<open>evaluate\<close>: a candidate below the head, at or above the floor.\<close>

definition evaluate_rollback ::
  "window option \<Rightarrow> tip_ref \<Rightarrow> tip_ref \<Rightarrow> (tip_error + apply_decision) \<times> window option" where
  "evaluate_rollback win hd' c =
     (let refuse = Inl (TipUnknownParent (''deep reorg to height '' @ py_str_int (tr_height c)
            @ '' from tip '' @ py_str_int (tr_height hd')
            @ '' requires ancestry verification (block not in tip ancestry window)''))
      in case win of
           None \<Rightarrow> (refuse, None)
         | Some w \<Rightarrow>
             (let (known, w1) = window_get (tr_hash c) w in
              case known of
                None \<Rightarrow> (refuse, Some w1)
              | Some k \<Rightarrow>
                  if tr_height k \<noteq> tr_height c then (refuse, Some w1)
                  else (let (anc, w2) = is_ancestor_of hd' (tr_hash c) None w1 in
                        if anc then (Inr (accept_decision AO_Reorg
                               (''window rollback to '' @ at_height (short_hash c) (tr_height c)) c), Some w2)
                        else (refuse, Some w2))))"

definition reorg_evaluate ::
  "window option \<Rightarrow> tip_state \<Rightarrow> tip_ref \<Rightarrow> (tip_error + apply_decision) \<times> window option" where
  "reorg_evaluate win s c =
     (let hd' = ts_head s in
      if tr_hash c = tr_hash hd' \<and> tr_height c = tr_height hd' then
        (Inl (TipDuplicate (''candidate is identical to tip '' @ at_height (short_hash hd') (tr_height hd'))), win)
      else (case can_reorg_to s (tr_height c) of
        Inl e \<Rightarrow> (Inl e, win)
      | Inr False \<Rightarrow>
          (Inl (TipFinalityRegress (''candidate height '' @ py_str_int (tr_height c)
             @ '' is below finalized floor '' @ py_str_int (finalized_floor_height s))), win)
      | Inr True \<Rightarrow>
          if (case ts_finalized s of None \<Rightarrow> False
              | Some f \<Rightarrow> tr_height c = tr_height f \<and> tr_hash c \<noteq> tr_hash f) then
            (Inl (TipFinalityRegress (''candidate would replace finalized block at height ''
               @ py_str_int (tr_height c))), win)
          else if tr_height c = tr_height hd' + 1 then
            (if tr_parent c \<noteq> tr_hash hd' then
               (Inl (TipAncestry ''extend candidate parent_hash must equal current tip hash''), win)
             else (Inr (accept_decision AO_Extend
                     (''extend tip to '' @ at_height (short_hash c) (tr_height c)) c), win))
          else if tr_height c = tr_height hd' then
            (if tr_parent c \<noteq> tr_parent hd' then
               (Inl (TipAncestry ''same-height reorg requires identical parent_hash''), win)
             else if tr_hash c = tr_hash hd' then
               (Inl (TipDuplicate ''candidate hash equals tip hash''), win)
             else (Inr (accept_decision AO_Reorg
                     (''same-height reorg to '' @ at_height (short_hash c) (tr_height c)) c), win))
          else if tr_height c > tr_height hd' + 1 then
            (Inl (TipUnknownParent (''candidate height '' @ py_str_int (tr_height c)
               @ '' skips ahead of tip '' @ py_str_int (tr_height hd') @ ''; ancestry store required'')), win)
          else evaluate_rollback win hd' c))"

section \<open>ForkChoice\<close>

text \<open>The tuple comparison of \<open>max\<close>: height first, then the hash by code points.\<close>

definition rank_less :: "tip_ref \<Rightarrow> tip_ref \<Rightarrow> bool" where
  "rank_less a b = (tr_height a < tr_height b \<or> (tr_height a = tr_height b \<and> tr_hash a < tr_hash b))"

definition fork_choose :: "tip_ref list \<Rightarrow> tip_error + tip_ref" where
  "fork_choose cs =
     (case cs of
        [] \<Rightarrow> Inl (TipValidation ''candidates must not be empty'')
      | c # rest \<Rightarrow> Inr (foldl (\<lambda>best b. if rank_less best b then b else best) c rest))"

definition fork_beats :: "tip_ref \<Rightarrow> tip_ref \<Rightarrow> bool" where
  "fork_beats l r = (if l = r then False else fork_choose [l, r] = Inr l)"

section \<open>TipSafetyService\<close>

record tip_service =
  tss_state :: tip_state
  tss_window :: window
  tss_ws :: "ws_service option"
  tss_env_max :: int

definition tip_service_init ::
  "tip_state \<Rightarrow> window option \<Rightarrow> int \<Rightarrow> ws_service option \<Rightarrow> int \<Rightarrow> tip_service option" where
  "tip_service_init s ancestry max_blocks ws env_max =
     (case (case ancestry of Some w \<Rightarrow> Some w
            | None \<Rightarrow> window_init (if max_blocks = 0 then 256 else max_blocks)) of
        None \<Rightarrow> None
      | Some w \<Rightarrow>
          (let w1 = window_record (ts_head s) w;
               w2 = (case ts_finalized s of None \<Rightarrow> w1 | Some f \<Rightarrow> window_record f w1)
           in Some \<lparr>tss_state = s, tss_window = w2, tss_ws = ws, tss_env_max = env_max\<rparr>))"

definition reject_decision :: "string \<Rightarrow> string \<Rightarrow> apply_decision" where
  "reject_decision reason detail =
     \<lparr>ad_outcome = AO_Reject, ad_reason = reason, ad_detail = detail, ad_new_head = None\<rparr>"

definition evaluate_candidate :: "tip_ref \<Rightarrow> tip_service \<Rightarrow> apply_decision \<times> tip_service" where
  "evaluate_candidate c svc =
     (let (r, win) = reorg_evaluate (Some (tss_window svc)) (tss_state svc) c;
          w = (case win of Some w' \<Rightarrow> w' | None \<Rightarrow> tss_window svc);
          svc1 = svc\<lparr>tss_window := w\<rparr>
      in (case r of
            Inl e \<Rightarrow> (reject_decision (tip_error_code e) (tip_error_message e), svc1)
          | Inr d \<Rightarrow>
              (case tss_ws svc of
                 None \<Rightarrow> (d, svc1)
               | Some ws \<Rightarrow>
                   if ad_accepted d then
                     (let (wd, w2) = evaluate_block_ref (tss_env_max svc) ws c (Some (ts_head (tss_state svc))) w;
                          svc2 = svc\<lparr>tss_window := w2\<rparr>
                      in if \<not> sd_accept wd
                         then (reject_decision (''ws_'' @ sd_reason wd)
                                 (''FEATURE_LONG_RANGE gate: '' @ sd_reason wd), svc2)
                         else (d, svc2))
                   else (d, svc1))))"

definition apply_candidate :: "tip_ref \<Rightarrow> tip_service \<Rightarrow> apply_decision \<times> tip_service" where
  "apply_candidate c svc =
     (let (d, svc1) = evaluate_candidate c svc in
      case ad_new_head d of
        None \<Rightarrow> (d, svc1)
      | Some h \<Rightarrow>
          if \<not> ad_accepted d then (d, svc1)
          else (case with_head (tss_state svc1) h of
                  Inl e \<Rightarrow> (reject_decision (tip_error_code e) (tip_error_message e), svc1)
                | Inr s \<Rightarrow> (d, svc1\<lparr>tss_state := s, tss_window := window_record h (tss_window svc1)\<rparr>)))"

definition bind_imported_tip :: "tip_ref \<Rightarrow> tip_service \<Rightarrow> (tip_error + unit) \<times> tip_service" where
  "bind_imported_tip h svc =
     (case with_head (tss_state svc) h of
        Inl e \<Rightarrow> (Inl e, svc)
      | Inr s \<Rightarrow> (Inr (), svc\<lparr>tss_state := s, tss_window := window_record h (tss_window svc)\<rparr>))"

definition choose_and_apply :: "tip_ref list \<Rightarrow> tip_service \<Rightarrow> apply_decision \<times> tip_service" where
  "choose_and_apply cs svc =
     (case fork_choose cs of
        Inl e \<Rightarrow> (reject_decision (tip_error_code e) (tip_error_message e), svc)
      | Inr winner \<Rightarrow> apply_candidate winner svc)"

definition advance_finalized :: "tip_ref \<Rightarrow> tip_service \<Rightarrow> (tip_error + tip_state) \<times> tip_service" where
  "advance_finalized c svc =
     (case with_finalized (tss_state svc) c of
        Inl e \<Rightarrow> (Inl e, svc)
      | Inr s \<Rightarrow> (Inr s, svc\<lparr>tss_state := s, tss_window := window_record c (tss_window svc)\<rparr>))"

text \<open>The calls of the service, on raw arguments: a block reference that does not construct is no call.\<close>

datatype tip_event =
    EvaluateCandidate tip_ref
  | ApplyCandidate tip_ref
  | BindImported tip_ref
  | ChooseAndApply "tip_ref list"
  | AdvanceFinalized tip_ref

definition with_ref :: "(tip_ref \<Rightarrow> 's \<Rightarrow> 's) \<Rightarrow> tip_ref \<Rightarrow> 's \<Rightarrow> 's" where
  "with_ref f b s = (case tip_ref_init b of Inl e \<Rightarrow> s | Inr c \<Rightarrow> f c s)"

fun init_refs :: "tip_ref list \<Rightarrow> tip_ref list option" where
  "init_refs [] = Some []"
| "init_refs (b # bs) =
     (case (tip_ref_init b, init_refs bs) of (Inr c, Some cs) \<Rightarrow> Some (c # cs) | _ \<Rightarrow> None)"

fun tip_step :: "tip_service \<Rightarrow> tip_event \<Rightarrow> tip_service" where
  "tip_step s (EvaluateCandidate b) = with_ref (\<lambda>c s. snd (evaluate_candidate c s)) b s"
| "tip_step s (ApplyCandidate b) = with_ref (\<lambda>c s. snd (apply_candidate c s)) b s"
| "tip_step s (BindImported b) = with_ref (\<lambda>c s. snd (bind_imported_tip c s)) b s"
| "tip_step s (ChooseAndApply bs) =
     (case init_refs bs of None \<Rightarrow> s | Some cs \<Rightarrow> snd (choose_and_apply cs s))"
| "tip_step s (AdvanceFinalized b) = with_ref (\<lambda>c s. snd (advance_finalized c s)) b s"

section \<open>What the policy accepts\<close>

lemma evaluate_rollback_same:
  "\<exists>w'. snd (evaluate_rollback (Some w) hd' c) = Some w' \<and> same_entries w w'"
proof -
  obtain k w1 where g: "window_get (tr_hash c) w = (k, w1)" by fastforce
  then have 1: "same_entries w w1" using window_get_same [of w "tr_hash c"] by simp
  obtain a w2 where a: "is_ancestor_of hd' (tr_hash c) None w1 = (a, w2)" by fastforce
  then have "same_entries w w2" using connects_to_same [of w1 hd' "tr_hash c" None] 1
    by (auto simp: is_ancestor_of_def intro: same_entries_trans)
  with 1 g a show ?thesis by (simp add: evaluate_rollback_def Let_def split: option.split)
qed

lemma reorg_evaluate_same: "\<exists>w'. snd (reorg_evaluate (Some w) s c) = Some w' \<and> same_entries w w'"
  using evaluate_rollback_same [of w "ts_head s" c]
  by (simp add: reorg_evaluate_def Let_def split: sum.split bool.split)

definition floor_ok :: "tip_state \<Rightarrow> tip_ref \<Rightarrow> bool" where
  "floor_ok s c \<longleftrightarrow> (case ts_finalized s of None \<Rightarrow> True
     | Some f \<Rightarrow> tr_height f \<le> tr_height c \<and> (tr_height c = tr_height f \<longrightarrow> tr_hash c = tr_hash f))"

lemma with_head_floor: "with_head s b = Inr t \<longleftrightarrow> t = s\<lparr>ts_head := b\<rparr> \<and> floor_ok s b"
  by (simp add: with_head_Inr floor_ok_def)

text \<open>The three forms of an accepted candidate.\<close>

definition links_to_head :: "window \<Rightarrow> tip_ref \<Rightarrow> tip_ref \<Rightarrow> bool" where
  "links_to_head w hd' c \<longleftrightarrow>
     tr_height c = tr_height hd' + 1 \<and> tr_parent c = tr_hash hd'
     \<or> tr_height c = tr_height hd' \<and> tr_parent c = tr_parent hd' \<and> tr_hash c \<noteq> tr_hash hd'
     \<or> tr_height c < tr_height hd' \<and> (\<exists>k. dget (aw_by_hash w) (tr_hash c) = Some k \<and> tr_height k = tr_height c)
        \<and> (\<exists>w1. same_entries w w1 \<and> fst (connects_to hd' (tr_hash c) None w1))"

lemma evaluate_rollback_accept:
  assumes "fst (evaluate_rollback (Some w) hd' c) = Inr d" and "tr_height c < tr_height hd'"
  shows "ad_new_head d = Some c \<and> ad_accepted d \<and> links_to_head w hd' c"
proof -
  obtain k w1 where g: "window_get (tr_hash c) w = (k, w1)" by fastforce
  then have 1: "same_entries w w1" using window_get_same [of w "tr_hash c"] by simp
  obtain a w2 where a: "is_ancestor_of hd' (tr_hash c) None w1 = (a, w2)" by fastforce
  from assms(1) g a obtain b where "k = Some b" "tr_height b = tr_height c" "a" "ad_new_head d = Some c" "ad_accepted d"
    by (auto simp: evaluate_rollback_def Let_def accept_decision_def ad_accepted_def split: option.splits if_splits)
  moreover have "dget (aw_by_hash w) (tr_hash c) = Some b"
    using calculation(1) g window_get_result [of "tr_hash c" w] by (simp split: if_splits)
  ultimately show ?thesis using assms(2) 1 a by (auto simp: links_to_head_def is_ancestor_of_def)
qed

lemma reorg_evaluate_accept:
  assumes "fst (reorg_evaluate (Some w) s c) = Inr d"
  shows "ad_new_head d = Some c \<and> ad_accepted d \<and> floor_ok s c \<and> links_to_head w (ts_head s) c"
proof -
  from assms have fl: "floor_ok s c"
    by (auto simp: reorg_evaluate_def Let_def can_reorg_to_def floor_ok_def finalized_floor_height_def
        split: if_splits option.splits bool.splits)
  consider (roll) "tr_height c < tr_height (ts_head s)" "fst (evaluate_rollback (Some w) (ts_head s) c) = Inr d"
    | (ext) "tr_height c = tr_height (ts_head s) + 1" | (same) "tr_height c = tr_height (ts_head s)"
    using assms by (fastforce simp: reorg_evaluate_def Let_def split: if_splits sum.splits bool.splits)
  then show ?thesis
  proof cases
    case roll
    with evaluate_rollback_accept fl show ?thesis by blast
  next
    case ext
    with assms fl show ?thesis
      by (auto simp: reorg_evaluate_def Let_def links_to_head_def accept_decision_def ad_accepted_def
          split: if_splits sum.splits bool.splits option.splits)
  next
    case same
    with assms fl show ?thesis
      by (auto simp: reorg_evaluate_def Let_def links_to_head_def accept_decision_def ad_accepted_def
          split: if_splits sum.splits bool.splits option.splits)
  qed
qed

section \<open>What the service does with it\<close>

text \<open>The gate's verdict on a candidate, for some window with the same entries.\<close>

definition gate_accepts :: "tip_service \<Rightarrow> tip_ref \<Rightarrow> bool" where
  "gate_accepts svc c \<longleftrightarrow> (case tss_ws svc of None \<Rightarrow> True
     | Some ws \<Rightarrow> \<exists>w. same_entries (tss_window svc) w \<and>
         sd_accept (fst (evaluate_block_ref (tss_env_max svc) ws c (Some (ts_head (tss_state svc))) w)))"

lemma evaluate_candidate_cases:
  assumes "evaluate_candidate c svc = (d, svc')"
  obtains (rejected) w where "svc' = svc\<lparr>tss_window := w\<rparr>" "same_entries (tss_window svc) w"
      "ad_outcome d = AO_Reject" "ad_new_head d = None"
  | (accepted) w where "svc' = svc\<lparr>tss_window := w\<rparr>" "same_entries (tss_window svc) w"
      "ad_new_head d = Some c" "ad_accepted d" "floor_ok (tss_state svc) c"
      "links_to_head (tss_window svc) (ts_head (tss_state svc)) c" "gate_accepts svc c"
proof -
  obtain r win where e: "reorg_evaluate (Some (tss_window svc)) (tss_state svc) c = (r, win)" by fastforce
  then obtain w where w: "win = Some w" "same_entries (tss_window svc) w"
    using reorg_evaluate_same [of "tss_window svc" "tss_state svc" c] by auto
  show thesis
  proof (cases r)
    case (Inl err)
    with assms e w show thesis
      by (intro rejected [of w]) (auto simp: evaluate_candidate_def reject_decision_def)
  next
    case (Inr d0)
    note acc = reorg_evaluate_accept [of "tss_window svc" "tss_state svc" c d0]
    show thesis
    proof (cases "tss_ws svc")
      case None
      with assms e w Inr acc show thesis
        by (intro accepted [of w]) (auto simp: evaluate_candidate_def gate_accepts_def)
    next
      case (Some ws)
      obtain wd w2 where g: "evaluate_block_ref (tss_env_max svc) ws c (Some (ts_head (tss_state svc))) w = (wd, w2)"
        by fastforce
      have w2: "same_entries (tss_window svc) w2"
        using w(2) evaluate_block_ref_same g by (metis same_entries_trans snd_conv)
      show thesis
      proof (cases "sd_accept wd")
        case True
        with Some g w(2) have "gate_accepts svc c" by (auto simp: gate_accepts_def)
        with True assms e w(1) w2 Inr Some g acc show thesis
          by (intro accepted [of w2]) (auto simp: evaluate_candidate_def)
      next
        case False
        with assms e w(1) w2 Inr Some g acc show thesis
          by (intro rejected [of w2]) (auto simp: evaluate_candidate_def reject_decision_def)
      qed
    qed
  qed
qed

text \<open>
  An accepted decision always goes through: the head becomes the candidate and the window records
  it. A rejected one leaves the tip as it was.
\<close>

lemma apply_candidate_cases:
  assumes "apply_candidate c svc = (d, svc')"
  obtains (rejected) w where "svc' = svc\<lparr>tss_window := w\<rparr>" "same_entries (tss_window svc) w"
      "ad_outcome d = AO_Reject" "ad_new_head d = None"
  | (accepted) w where "same_entries (tss_window svc) w" "ad_accepted d" "ad_new_head d = Some c"
      "svc' = svc\<lparr>tss_state := (tss_state svc)\<lparr>ts_head := c\<rparr>, tss_window := window_record c w\<rparr>"
      "floor_ok (tss_state svc) c" "links_to_head (tss_window svc) (ts_head (tss_state svc)) c"
      "gate_accepts svc c"
proof -
  obtain d0 svc1 where e: "evaluate_candidate c svc = (d0, svc1)" by fastforce
  then show thesis
  proof (cases rule: evaluate_candidate_cases)
    case (rejected w)
    with assms e that(1) [of w] show thesis by (auto simp: apply_candidate_def)
  next
    case (accepted w)
    then have "with_head (tss_state svc) c = Inr ((tss_state svc)\<lparr>ts_head := c\<rparr>)"
      by (simp add: with_head_floor)
    with assms e accepted that(2) [of w] show thesis by (auto simp: apply_candidate_def)
  qed
qed

end
