(* ===== verification/TipProps.thy ===== *)
theory TipProps
  imports TipSafety
begin

text \<open>
  The promises of the tip-safety service over runs: the structural invariant with the window bound and
  the monotone finalized floor, the finalized block that candidates cannot revert, the anchor of the
  weak-subjectivity gate that the head never leaves, and the fork choice as a maximum. Block ancestry
  is stated over a \<open>block_store\<close>, the content behind the hashes: a hash has one block, and a parent is
  one height below its child.
\<close>

section \<open>The structural invariant\<close>

definition tip_inv :: "tip_service \<Rightarrow> bool" where
  "tip_inv s \<longleftrightarrow> tip_state_wf (tss_state s) \<and> window_wf (tss_window s)
     \<and> (\<forall>f. ts_finalized (tss_state s) = Some f \<longrightarrow> 0 \<le> tr_height f)"

lemma tip_inv_window:
  "tip_inv s \<Longrightarrow> same_entries (tss_window s) w \<Longrightarrow> tip_inv (s\<lparr>tss_window := w\<rparr>)"
  by (simp add: tip_inv_def same_entries_def)

lemma same_entries_wf: "same_entries w w' \<Longrightarrow> window_wf w \<Longrightarrow> window_wf w'"
  by (simp add: same_entries_def)

definition floor_of :: "tip_service \<Rightarrow> int" where
  "floor_of s = finalized_floor_height (tss_state s)"

lemma apply_candidate_inv:
  assumes "tip_inv s"
  shows "tip_inv (snd (apply_candidate c s)) \<and> ts_finalized (tss_state (snd (apply_candidate c s))) = ts_finalized (tss_state s)"
proof -
  obtain d s' where e: "apply_candidate c s = (d, s')" by fastforce
  then show ?thesis
  proof (cases rule: apply_candidate_cases)
    case (rejected w)
    with assms tip_inv_window e show ?thesis by simp
  next
    case (accepted w)
    then have "window_wf (window_record c w)"
      using assms same_entries_wf window_record_wf by (simp add: tip_inv_def)
    moreover have "tip_state_wf ((tss_state s)\<lparr>ts_head := c\<rparr>)"
      using accepted(5) by (auto simp: tip_state_wf_def floor_ok_def split: option.splits)
    ultimately show ?thesis using assms accepted(4) e by (simp add: tip_inv_def)
  qed
qed

lemma evaluate_candidate_inv:
  assumes "tip_inv s"
  shows "tip_inv (snd (evaluate_candidate c s)) \<and> tss_state (snd (evaluate_candidate c s)) = tss_state s"
proof -
  obtain d s' where e: "evaluate_candidate c s = (d, s')" by fastforce
  then show ?thesis by (cases rule: evaluate_candidate_cases) (use assms e tip_inv_window in auto)
qed

lemma bind_imported_inv:
  assumes "tip_inv s"
  shows "tip_inv (snd (bind_imported_tip c s)) \<and> ts_finalized (tss_state (snd (bind_imported_tip c s))) = ts_finalized (tss_state s)"
  using assms
  by (auto simp: bind_imported_tip_def tip_inv_def with_head_Inr window_record_wf tip_state_wf_def
      split: sum.split option.splits)

lemma choose_and_apply_inv:
  "tip_inv s \<Longrightarrow> tip_inv (snd (choose_and_apply cs s)) \<and>
     ts_finalized (tss_state (snd (choose_and_apply cs s))) = ts_finalized (tss_state s)"
  by (simp add: choose_and_apply_def apply_candidate_inv split: sum.split)

lemma advance_finalized_inv:
  assumes "tip_inv s" and "0 \<le> tr_height c"
  shows "tip_inv (snd (advance_finalized c s)) \<and> floor_of s \<le> floor_of (snd (advance_finalized c s))"
  using assms
  by (auto simp: advance_finalized_def tip_inv_def with_finalized_Inr window_record_wf floor_of_def
      finalized_floor_height_def tip_state_wf_def split: sum.split option.splits)

lemma with_ref_wf: "(\<And>c. tip_ref_wf c \<Longrightarrow> Q (f c s)) \<Longrightarrow> Q s \<Longrightarrow> Q (with_ref f b s)"
  using tip_ref_init_wf by (auto simp: with_ref_def split: sum.split)

lemma tip_step_inv: "tip_inv s \<Longrightarrow> tip_inv (tip_step s e) \<and> floor_of s \<le> floor_of (tip_step s e)"
proof (cases e)
  case (AdvanceFinalized b)
  assume "tip_inv s"
  then show ?thesis
    by (simp add: AdvanceFinalized)
       (rule with_ref_wf [where Q = "\<lambda>t. tip_inv t \<and> floor_of s \<le> floor_of t"]; simp add: advance_finalized_inv tip_ref_wf_def)
qed (auto simp: with_ref_def evaluate_candidate_inv apply_candidate_inv bind_imported_inv choose_and_apply_inv
    floor_of_def finalized_floor_height_def split: sum.split option.split)

interpretation tip: ranked_component tip_step tip_inv floor_of
  by unfold_locales (auto simp: tip_step_inv)

lemma tip_service_init_inv:
  assumes "tip_state_init h f = Inr st" and "\<forall>b. f = Some b \<longrightarrow> 0 \<le> tr_height b"
    and "tip_service_init st None n ws m = Some s"
  shows "tip_inv s"
proof -
  obtain w where w: "window_init (if n = 0 then 256 else n) = Some w" and
    s: "tss_state s = st" "tss_window s = (case ts_finalized st of None \<Rightarrow> window_record (ts_head st) w
          | Some b \<Rightarrow> window_record b (window_record (ts_head st) w))"
    using assms(3) by (auto simp: tip_service_init_def Let_def split: option.splits)
  have "window_wf w" using w by (auto simp: window_init_def window_wf_def window_len_def split: if_splits)
  with assms(1,2) s show ?thesis
    by (auto simp: tip_inv_def tip_state_init_iff window_record_wf split: option.split)
qed

section \<open>The finalized block is not reverted\<close>

definition linked :: "block_store \<Rightarrow> bool" where
  "linked blk \<longleftrightarrow> store_ok blk \<and>
     (\<forall>h b p. blk h = Some b \<longrightarrow> blk (tr_parent b) = Some p \<longrightarrow> tr_height b = tr_height p + 1)"

lemma descends_height:
  "descends blk h a \<Longrightarrow> linked blk \<Longrightarrow> blk h = Some b \<Longrightarrow> blk a = Some c \<Longrightarrow> tr_height c \<le> tr_height b"
proof (induction arbitrary: b rule: descends.induct)
  case (descends_step h b' a)
  show ?case
  proof (cases "blk (tr_parent b')")
    case None
    with descends_step(2,6) show ?thesis by (auto elim: descendsE)
  next
    case (Some p)
    with descends_step have "tr_height c \<le> tr_height p" by blast
    moreover have "tr_height b' = tr_height p + 1" using Some descends_step(1,4) by (auto simp: linked_def)
    ultimately show ?thesis using descends_step(1,5) by simp
  qed
qed simp

text \<open>Ancestors of one block are on one chain.\<close>

lemma descends_linear:
  "descends blk h a \<Longrightarrow> linked blk \<Longrightarrow> descends blk h f \<Longrightarrow> blk a = Some A \<Longrightarrow> blk f = Some F \<Longrightarrow>
     tr_height F \<le> tr_height A \<Longrightarrow> descends blk a f"
proof (induction rule: descends.induct)
  case (descends_step h b a)
  note prems = descends_step.prems
  have "h = f \<or> descends blk (tr_parent b) f"
    using prems(2) descends_step.hyps(1) by (auto elim: descendsE)
  then show ?case
  proof
    assume "h = f"
    then have F: "F = b" using descends_step.hyps(1) prems(4) by simp
    obtain p where p: "blk (tr_parent b) = Some p"
      using descends_step.hyps(2) prems(3) by (auto elim: descendsE)
    have "tr_height A \<le> tr_height p" using descends_height [OF descends_step.hyps(2) prems(1) p prems(3)] .
    moreover have "tr_height b = tr_height p + 1"
      using p descends_step.hyps(1) prems(1) by (auto simp: linked_def)
    ultimately show ?thesis using prems(5) F by simp
  next
    assume "descends blk (tr_parent b) f"
    with descends_step.IH prems show ?thesis by blast
  qed
qed simp

text \<open>
  The safe states: the window and the tip are part of the block store, and the head descends from the
  finalized block.
\<close>

definition tip_safe :: "block_store \<Rightarrow> tip_service \<Rightarrow> bool" where
  "tip_safe blk s \<longleftrightarrow> tip_inv s \<and> window_in blk (tss_window s) \<and> known blk (ts_head (tss_state s))
     \<and> (\<forall>f. ts_finalized (tss_state s) = Some f \<longrightarrow>
          known blk f \<and> descends blk (tr_hash (ts_head (tss_state s))) (tr_hash f))"

lemma linked_ok: "linked blk \<Longrightarrow> store_ok blk"
  by (simp add: linked_def)

lemma known_unique: "known blk a \<Longrightarrow> known blk b \<Longrightarrow> tr_hash a = tr_hash b \<Longrightarrow> a = b"
  by (simp add: known_def)

lemma links_to_head_keeps:
  assumes L: "linked blk" and w: "window_in blk w" and h: "known blk hd'" and c: "known blk c" and f: "known blk f"
    and d: "descends blk (tr_hash hd') (tr_hash f)" and l: "links_to_head w hd' c"
    and fl: "tr_height f \<le> tr_height c" "tr_height c = tr_height f \<longrightarrow> tr_hash c = tr_hash f"
  shows "descends blk (tr_hash c) (tr_hash f)"
proof -
  have bc: "blk (tr_hash c) = Some c" and bh: "blk (tr_hash hd') = Some hd'" and bf: "blk (tr_hash f) = Some f"
    using c h f by (auto simp: known_def)
  consider (ext) "tr_parent c = tr_hash hd'" | (same) "tr_height c = tr_height hd'" "tr_parent c = tr_parent hd'"
    | (roll) w1 where "same_entries w w1" "fst (connects_to hd' (tr_hash c) None w1)"
    using l by (auto simp: links_to_head_def)
  then show ?thesis
  proof cases
    case ext
    with bc d show ?thesis by (auto intro: descends_step)
  next
    case same
    show ?thesis
    proof (cases "tr_height c = tr_height f")
      case True
      with fl show ?thesis by (auto intro: descends_refl)
    next
      case False
      with same fl have "tr_hash hd' \<noteq> tr_hash f" using known_unique [OF h f] by auto
      with d bh have "descends blk (tr_parent hd') (tr_hash f)" by (auto elim: descendsE)
      with same bc show ?thesis by (auto intro: descends_step)
    qed
  next
    case roll
    then have "window_in blk w1" using w window_in_same by blast
    with roll have "descends blk (tr_hash hd') (tr_hash c)"
      by (intro connects_to_descends [OF linked_ok [OF L]] h)
    then show ?thesis using descends_linear [OF _ L d bc bf fl(1)] by blast
  qed
qed

lemma apply_candidate_safe:
  assumes L: "linked blk" and s: "tip_safe blk s" and c: "known blk c"
  shows "tip_safe blk (snd (apply_candidate c s))"
proof -
  have inv: "tip_inv (snd (apply_candidate c s))" using s apply_candidate_inv by (simp add: tip_safe_def)
  obtain d s' where e: "apply_candidate c s = (d, s')" by fastforce
  then show ?thesis
  proof (cases rule: apply_candidate_cases)
    case (rejected w)
    with inv s e window_in_same show ?thesis by (auto simp: tip_safe_def)
  next
    case (accepted w)
    have "window_wf w" "window_in blk w"
      using s accepted(1) same_entries_wf window_in_same by (auto simp: tip_safe_def tip_inv_def)
    then have "window_in blk (window_record c w)" using c by (rule window_record_in)
    moreover have "descends blk (tr_hash c) (tr_hash f)" if "ts_finalized (tss_state s) = Some f" for f
      using s that accepted(5) by (intro links_to_head_keeps [OF L _ _ c _ _ accepted(6)])
        (auto simp: tip_safe_def floor_ok_def)
    ultimately show ?thesis using inv s c e accepted(4) by (auto simp: tip_safe_def)
  qed
qed

section \<open>The weak-subjectivity anchor\<close>

definition above_anchor :: "block_store \<Rightarrow> ws_anchor \<Rightarrow> tip_service \<Rightarrow> bool" where
  "above_anchor blk a s \<longleftrightarrow> tip_safe blk s \<and> tss_ws s = Some (Some a)
     \<and> descends blk (tr_hash (ts_head (tss_state s))) (wa_hash a)"

lemma apply_candidate_anchor:
  assumes L: "linked blk" and s: "above_anchor blk a s" and c: "known blk c" and a: "canonical_hash (wa_hash a)"
  shows "above_anchor blk a (snd (apply_candidate c s))"
proof -
  have safe: "tip_safe blk (snd (apply_candidate c s))"
    using s by (intro apply_candidate_safe L c) (simp add: above_anchor_def)
  obtain d s' where e: "apply_candidate c s = (d, s')" by fastforce
  then show ?thesis
  proof (cases rule: apply_candidate_cases)
    case (rejected w)
    with safe s e show ?thesis by (simp add: above_anchor_def)
  next
    case (accepted w)
    let ?tip = "ts_head (tss_state s)"
    from accepted(7) s obtain w2 where w2: "same_entries (tss_window s) w2"
        "sd_accept (fst (evaluate_block_ref (tss_env_max s) (Some a) c (Some ?tip) w2))"
      by (auto simp: gate_accepts_def above_anchor_def)
    have "window_in blk w2" using s w2(1) window_in_same by (auto simp: above_anchor_def tip_safe_def)
    moreover have "tip_ref_wf ?tip"
      using s store_okD [OF linked_ok [OF L]] by (auto simp: above_anchor_def tip_safe_def known_def)
    ultimately have "tr_hash c = wa_hash a \<or> descends blk (tr_hash c) (wa_hash a) \<or> tr_parent c = tr_hash ?tip"
      using evaluate_block_ref_sound [OF linked_ok [OF L] _ c _ a w2(2)] by (auto simp: contiguous_past_def)
    then have "descends blk (tr_hash c) (wa_hash a)"
      using s c by (auto simp: above_anchor_def known_def intro: descends_refl descends_step)
    with safe s e accepted(4) show ?thesis by (simp add: above_anchor_def)
  qed
qed

definition apply_run :: "tip_service \<Rightarrow> tip_ref list \<Rightarrow> tip_service" where
  "apply_run s cs = foldl (\<lambda>s c. snd (apply_candidate c s)) s cs"

lemma apply_run_induct:
  assumes "Q s" and "\<forall>c\<in>set cs. R c" and "\<And>c s. R c \<Longrightarrow> Q s \<Longrightarrow> Q (snd (apply_candidate c s))"
  shows "Q (apply_run s cs)"
  using assms(1,2) unfolding apply_run_def by (induction cs arbitrary: s) (auto intro: assms(3))

section \<open>The fork choice\<close>

lemma rank_less_trans: "rank_less a b \<Longrightarrow> rank_less b c \<Longrightarrow> rank_less a c"
  by (auto simp: rank_less_def)

lemma rank_less_irrefl [simp]: "\<not> rank_less a a"
  by (simp add: rank_less_def)

lemma rank_total: "\<not> rank_less a b \<Longrightarrow> \<not> rank_less b c \<Longrightarrow> \<not> rank_less a c"
  unfolding rank_less_def by (metis less_trans linorder_neqE)

lemma foldl_best:
  "let m = foldl (\<lambda>best b. if rank_less best b then b else best) c cs in
     m \<in> set (c # cs) \<and> (\<forall>b\<in>set (c # cs). \<not> rank_less m b)"
proof (induction cs arbitrary: c)
  case Nil
  then show ?case by simp
next
  case (Cons x cs)
  let ?m = "foldl (\<lambda>best b. if rank_less best b then b else best) (if rank_less c x then x else c) cs"
  have m: "?m \<in> set ((if rank_less c x then x else c) # cs)"
      "\<forall>b\<in>set ((if rank_less c x then x else c) # cs). \<not> rank_less ?m b"
    using Cons.IH [of "if rank_less c x then x else c"] by (simp_all add: Let_def)
  have "\<not> rank_less ?m c \<and> \<not> rank_less ?m x"
  proof (cases "rank_less c x")
    case True
    then show ?thesis using m(2) rank_less_trans [of ?m c x] by auto
  next
    case False
    then show ?thesis using m(2) rank_total [of ?m c x] by auto
  qed
  with m show ?case by (auto simp: Let_def split: if_splits)
qed

lemma fork_choose_best:
  "fork_choose cs = Inr w \<Longrightarrow> w \<in> set cs \<and> (\<forall>b\<in>set cs. \<not> rank_less w b)"
  using foldl_best by (auto simp: fork_choose_def Let_def split: list.splits)

section \<open>A concrete chain\<close>

definition hx :: "char \<Rightarrow> string" where
  "hx c = replicate 64 c"

definition tb0 :: tip_ref where
  "tb0 = \<lparr>tr_height = 0, tr_hash = hx (CHR ''a''), tr_parent = []\<rparr>"

definition tb1 :: tip_ref where
  "tb1 = \<lparr>tr_height = 1, tr_hash = hx (CHR ''b''), tr_parent = hx (CHR ''a'')\<rparr>"

definition tb2 :: tip_ref where
  "tb2 = \<lparr>tr_height = 2, tr_hash = hx (CHR ''c''), tr_parent = hx (CHR ''b'')\<rparr>"

definition tb2' :: tip_ref where
  "tb2' = \<lparr>tr_height = 2, tr_hash = hx (CHR ''d''), tr_parent = hx (CHR ''b'')\<rparr>"

definition chain_dict :: "(string \<times> tip_ref) list" where
  "chain_dict = map (\<lambda>b. (tr_hash b, b)) [tb0, tb1, tb2, tb2']"

definition chain_ws :: ws_service where
  "chain_ws = Some \<lparr>wa_height = 1, wa_hash = hx (CHR ''b''), wa_epoch = 0\<rparr>"

definition chain_service :: tip_service where
  "chain_service = the (tip_service_init \<lparr>ts_head = tb1, ts_finalized = Some tb0\<rparr> None 5 (Some chain_ws) 4)"

lemma store_ok_map_of: "\<forall>(h, b)\<in>set d. tr_hash b = h \<and> tip_ref_wf b \<Longrightarrow> store_ok (dget d)"
  by (auto simp: store_ok_def dest!: map_of_SomeD)

lemma linked_map_of:
  assumes "\<forall>(h, b)\<in>set d. tr_hash b = h \<and> tip_ref_wf b"
    and "\<forall>(h, b)\<in>set d. \<forall>(k, p)\<in>set d. tr_parent b = k \<longrightarrow> tr_height b = tr_height p + 1"
  shows "linked (dget d)"
  unfolding linked_def using store_ok_map_of [OF assms(1)] assms(2) by (fastforce dest!: map_of_SomeD)

lemma chain_linked: "linked (dget chain_dict)"
  by (rule linked_map_of; code_simp)

lemma window_in_dict: "\<forall>(k, b)\<in>set (aw_by_hash w). dget d k = Some b \<Longrightarrow> window_in (dget d) w"
  by (auto simp: window_in_def dest!: map_of_SomeD)

lemma chain_inv: "tip_inv chain_service"
  by (rule tip_service_init_inv [of tb1 "Some tb0" "\<lparr>ts_head = tb1, ts_finalized = Some tb0\<rparr>" 5 "Some chain_ws" 4])
     (code_simp, simp add: tb0_def, code_simp)

lemma chain_tip: "ts_head (tss_state chain_service) = tb1" "ts_finalized (tss_state chain_service) = Some tb0"
    "tss_ws chain_service = Some chain_ws"
  by code_simp+

lemma chain_known: "known (dget chain_dict) b" if "b \<in> {tb0, tb1, tb2, tb2'}"
  using that by (auto simp: known_def) code_simp+

lemma chain_safe: "tip_safe (dget chain_dict) chain_service"
proof -
  have "window_in (dget chain_dict) (tss_window chain_service)"
    by (rule window_in_dict) code_simp
  moreover have "descends (dget chain_dict) (tr_hash tb1) (tr_hash tb0)"
    by (rule descends_step [of _ _ tb1]) (code_simp, simp add: tb1_def tb0_def descends_refl)
  ultimately show ?thesis by (simp add: tip_safe_def chain_inv chain_tip chain_known)
qed

section \<open>Properties\<close>

text \<open>C6: finality is not reverted. Over one block store, and starting from a tip that descends from
  the finalized block, any sequence of candidates (extensions, competing blocks of the same height,
  rollbacks into the ancestry window, and every refused one) leaves the finalized checkpoint in place
  and the head a descendant of it.\<close>
theorem finalized_not_reverted:
  assumes "linked blk" and "tip_safe blk s" and "\<forall>c\<in>set cs. known blk c"
    and "ts_finalized (tss_state s) = Some f"
  shows "ts_finalized (tss_state (apply_run s cs)) = Some f
    \<and> descends blk (tr_hash (ts_head (tss_state (apply_run s cs)))) (tr_hash f)"
proof -
  let ?Q = "\<lambda>t. tip_safe blk t \<and> ts_finalized (tss_state t) = Some f"
  have "?Q (apply_run s cs)"
  proof (rule apply_run_induct [where R = "known blk" and Q = ?Q])
    fix c t
    assume "known blk c" and t: "?Q t"
    then have "tip_safe blk (snd (apply_candidate c t))" using apply_candidate_safe [OF assms(1)] by blast
    then show "?Q (snd (apply_candidate c t))" using t apply_candidate_inv [of t c] by (simp add: tip_safe_def)
  qed (use assms in auto)
  then show ?thesis by (simp add: tip_safe_def)
qed

theorem finalized_not_reverted_witness:
  "ts_head (tss_state (apply_run chain_service [tb2, tb2', tb0, tb1])) = tb1
   \<and> descends (dget chain_dict) (tr_hash (ts_head (tss_state (apply_run chain_service [tb2, tb2'])))) (tr_hash tb0)"
proof -
  have "ts_head (tss_state (apply_run chain_service [tb2, tb2', tb0, tb1])) = tb1" by code_simp
  with finalized_not_reverted [OF chain_linked chain_safe, of "[tb2, tb2']" tb0] chain_tip chain_known
  show ?thesis by simp
qed

text \<open>C7: over any sequence of calls of the service (evaluations, applications, imported tips,
  finality advances, with arguments that construct or not), the finalized height never passes the head,
  the ancestry window never holds more than its capacity, and the finalized floor never goes back.\<close>
theorem tip_service_invariant:
  assumes "tip_inv s" and "i \<le> j"
  shows "let t = foldl tip_step s (take j es) in
     finalized_floor_height (tss_state (foldl tip_step s (take i es))) \<le> finalized_floor_height (tss_state t)
     \<and> (case ts_finalized (tss_state t) of None \<Rightarrow> True | Some f \<Rightarrow> tr_height f \<le> tr_height (ts_head (tss_state t)))
     \<and> window_len (tss_window t) \<le> aw_max (tss_window t)"
  using tip.run_mono_prefix [OF assms, of es] tip.run_keeps_prefix [OF assms(1), of j es]
  by (simp add: Let_def floor_of_def tip_inv_def tip_state_wf_def window_wf_def)

theorem tip_service_invariant_witness:
  "let es = [ApplyCandidate tb2, AdvanceFinalized tb2, BindImported tb2', ApplyCandidate tb2'];
       t = foldl tip_step chain_service (take 4 es)
   in finalized_floor_height (tss_state (foldl tip_step chain_service (take 1 es))) \<le> finalized_floor_height (tss_state t)
     \<and> finalized_floor_height (tss_state t) = 2 \<and> window_len (tss_window t) \<le> aw_max (tss_window t)"
proof -
  let ?es = "[ApplyCandidate tb2, AdvanceFinalized tb2, BindImported tb2', ApplyCandidate tb2']"
  have "finalized_floor_height (tss_state (foldl tip_step chain_service ?es)) = 2" by code_simp
  with tip_service_invariant [OF chain_inv, of 1 4 ?es] show ?thesis by (simp add: Let_def)
qed

text \<open>Evaluation is the dry run of application. Applying a candidate answers what evaluating it
  answers, an accepted candidate becomes the head and is recorded in the window (the state update after
  an accepting evaluation never fails), and a rejected one changes neither head nor checkpoint.\<close>
theorem apply_matches_evaluate:
  assumes "tip_inv s"
  shows "let d = fst (evaluate_candidate c s); t = snd (apply_candidate c s) in
     fst (apply_candidate c s) = d
     \<and> tss_state t = (if ad_accepted d then (tss_state s)\<lparr>ts_head := c\<rparr> else tss_state s)
     \<and> (ad_accepted d \<longrightarrow> fst (window_get (tr_hash c) (tss_window t)) = (if tr_hash c = [] then None else Some c))"
proof -
  obtain d s1 where e: "evaluate_candidate c s = (d, s1)" by fastforce
  then show ?thesis
  proof (cases rule: evaluate_candidate_cases)
    case (rejected w)
    with e show ?thesis by (auto simp: apply_candidate_def ad_accepted_def)
  next
    case (accepted w)
    then have "window_wf w" using assms same_entries_wf by (auto simp: tip_inv_def)
    moreover have "with_head (tss_state s) c = Inr ((tss_state s)\<lparr>ts_head := c\<rparr>)"
      using accepted(5) by (simp add: with_head_floor)
    ultimately show ?thesis using e accepted
      by (auto simp: apply_candidate_def window_get_result window_record_get)
  qed
qed

theorem apply_matches_evaluate_witness:
  "ad_accepted (fst (apply_candidate tb2 chain_service)) \<and> fst (apply_candidate tb2 chain_service) =
     fst (evaluate_candidate tb2 chain_service)
   \<and> tss_state (snd (apply_candidate tb2 chain_service)) = \<lparr>ts_head = tb2, ts_finalized = Some tb0\<rparr>"
proof -
  have "ad_accepted (fst (evaluate_candidate tb2 chain_service))" by code_simp
  moreover have "tss_state chain_service = \<lparr>ts_head = tb1, ts_finalized = Some tb0\<rparr>" by code_simp
  ultimately show ?thesis using apply_matches_evaluate [OF chain_inv, of tb2] by (simp add: Let_def)
qed

text \<open>the weak-subjectivity gate holds the head above its anchor. Once armed with an anchor the
  head descends from, no sequence of candidates, however deep their forks and whatever the window has
  evicted, moves the head off the anchor's descendants.\<close>
theorem ws_head_keeps_anchor:
  assumes "linked blk" and "above_anchor blk a s" and "canonical_hash (wa_hash a)" and "\<forall>c\<in>set cs. known blk c"
  shows "descends blk (tr_hash (ts_head (tss_state (apply_run s cs)))) (wa_hash a)"
  using apply_run_induct [where Q = "above_anchor blk a" and R = "known blk", OF assms(2,4)]
    apply_candidate_anchor [OF assms(1) _ _ assms(3)] by (auto simp: above_anchor_def)

theorem ws_head_keeps_anchor_witness:
  "descends (dget chain_dict) (tr_hash (ts_head (tss_state (apply_run chain_service [tb2, tb0, tb2'])))) (hx (CHR ''b''))"
proof -
  let ?a = "\<lparr>wa_height = 1, wa_hash = hx (CHR ''b''), wa_epoch = 0\<rparr>"
  have "above_anchor (dget chain_dict) ?a chain_service"
    using chain_safe chain_tip by (simp add: above_anchor_def chain_ws_def tb1_def descends_refl)
  moreover have "canonical_hash (wa_hash ?a)" by code_simp
  ultimately show ?thesis
    using ws_head_keeps_anchor [OF chain_linked, of ?a chain_service "[tb2, tb0, tb2']"] chain_known by simp
qed

text \<open>The fork choice is the maximum by height and then by hash, it is one of the candidates, and
  only an empty list is refused.\<close>
theorem fork_choice_maximal:
  assumes "cs \<noteq> []"
  shows "\<exists>w. fork_choose cs = Inr w \<and> w \<in> set cs
     \<and> (\<forall>b\<in>set cs. tr_height b \<le> tr_height w \<and> (tr_height b = tr_height w \<longrightarrow> tr_hash b \<le> tr_hash w))"
proof -
  obtain w where "fork_choose cs = Inr w" using assms by (cases cs) (auto simp: fork_choose_def)
  then show ?thesis using fork_choose_best [of cs w] by (auto simp: rank_less_def not_less)
qed

theorem fork_choice_maximal_witness:
  "\<exists>w. fork_choose [tb2, tb1, tb2'] = Inr w \<and> tr_hash tb2 \<le> tr_hash w \<and> tr_height w = 2"
proof -
  obtain w where "fork_choose [tb2, tb1, tb2'] = Inr w" "w \<in> {tb2, tb1, tb2'}"
      "\<forall>b\<in>{tb2, tb1, tb2'}. tr_height b \<le> tr_height w \<and> (tr_height b = tr_height w \<longrightarrow> tr_hash b \<le> tr_hash w)"
    using fork_choice_maximal [of "[tb2, tb1, tb2']"] by auto
  then show ?thesis by (auto simp: tb1_def tb2_def tb2'_def)
qed

section \<open>What the code does not check\<close>

text \<open>A checkpoint at or above the old one is finalized whatever its relation to the head.\<close>

lemma advance_finalized_unrelated:
  "ts_finalized (tss_state (snd (advance_finalized tb2' (snd (apply_candidate tb2 chain_service))))) = Some tb2'
   \<and> ts_head (tss_state (snd (advance_finalized tb2' (snd (apply_candidate tb2 chain_service))))) = tb2"
  by code_simp

text \<open>The strict preference of \<open>beats\<close> holds both ways for two blocks of one hash and different parents.\<close>

lemma beats_both_ways:
  "fork_beats tb2 (tb2\<lparr>tr_parent := hx (CHR ''e'')\<rparr>) \<and> fork_beats (tb2\<lparr>tr_parent := hx (CHR ''e'')\<rparr>) tb2"
  by code_simp

text \<open>An anchor set with a \<open>0x\<close> prefix refuses the very block it names.\<close>

lemma prefixed_anchor_refused:
  "case ws_set_anchor \<lparr>wa_height = 1, wa_hash = ''0x'' @ hx (CHR ''b''), wa_epoch = 0\<rparr> None of
     Inl e \<Rightarrow> False
   | Inr s \<Rightarrow> sd_reason (fst (evaluate_block_ref 4 s tb1 None (tss_window chain_service))) = ''anchor_hash_mismatch''"
  by code_simp

end
