(* ===== verification/Consistency.thy ===== *)
theory Consistency
  imports Prelude
begin

text \<open>
  The sync-consistency machine of \<open>sync/consistency\<close>: value types (\<open>types.py\<close>), the pure fail-closed
  machine (\<open>machine.py\<close>), the single-writer service (\<open>service.py\<close>) and its in-memory store
  (\<open>store.py\<close>). Time stamps are values of an unspecified type \<open>'t\<close>: the machine only passes them on.
  A wire root is a dictionary of the probe, or something else that is skipped; its height is what
  \<open>int(...)\<close> gives, \<open>None\<close> when that raises. The locale \<open>snapshot_store\<close> is the store port the
  service is written against; it is interpreted on the in-memory store.
\<close>

section \<open>Types\<close>

datatype consistency_state = CS_Unknown | CS_Probing | CS_BehindOpen | CS_Consistent | CS_LockedDown

fun consistency_value :: "consistency_state \<Rightarrow> string" where
  "consistency_value CS_Unknown = ''unknown''"
| "consistency_value CS_Probing = ''probing''"
| "consistency_value CS_BehindOpen = ''behind_open''"
| "consistency_value CS_Consistent = ''consistent''"
| "consistency_value CS_LockedDown = ''locked_down''"

datatype consistency_outcome = CO_AllowTrusted | CO_AllowCatchUp | CO_Deny

record peer_view =
  pv_id :: string
  pv_height :: int
  pv_head :: string
  pv_dial :: string

record wire_dict =
  we_root :: string
  we_height :: "int option"
  we_peer :: string

datatype wire_entry = WireDict wire_dict | WireOther

record probe_result =
  wp_probed :: bool
  wp_ok :: "bool option"
  wp_roots :: "wire_entry list"
  wp_mismatch :: "string list"
  wp_detail :: string

definition never_probed :: "string \<Rightarrow> probe_result" where
  "never_probed detail = \<lparr>wp_probed = False, wp_ok = None, wp_roots = [], wp_mismatch = [],
     wp_detail = detail\<rparr>"

definition probe_failed :: "string \<Rightarrow> probe_result" where
  "probe_failed detail = \<lparr>wp_probed = True, wp_ok = Some False, wp_roots = [], wp_mismatch = [],
     wp_detail = detail\<rparr>"

definition probe_succeeded :: "wire_entry list \<Rightarrow> string list \<Rightarrow> string \<Rightarrow> probe_result" where
  "probe_succeeded roots mism detail = \<lparr>wp_probed = True, wp_ok = Some True, wp_roots = roots,
     wp_mismatch = mism, wp_detail = detail\<rparr>"

record 't consistency_snapshot =
  cs_state :: consistency_state
  cs_consistent :: bool
  cs_probe :: probe_result
  cs_reason :: string
  cs_updated :: 't
  cs_lockdowns :: int

record consistency_decision =
  cd_outcome :: consistency_outcome
  cd_state :: consistency_state
  cd_reason :: string
  cd_may_mine :: bool
  cd_may_serve :: bool
  cd_may_catch_up :: bool
  cd_consistent :: bool

definition cd_trusted :: "consistency_decision \<Rightarrow> bool" where
  "cd_trusted d = (cd_outcome d = CO_AllowTrusted \<and> cd_consistent d)"

section \<open>The machine\<close>

definition boot_snapshot :: "'t \<Rightarrow> 't consistency_snapshot" where
  "boot_snapshot now = \<lparr>cs_state = CS_Unknown, cs_consistent = False, cs_probe = never_probed ''boot'',
     cs_reason = ''boot'', cs_updated = now, cs_lockdowns = 0\<rparr>"

definition decide_from_snapshot :: "'t consistency_snapshot \<Rightarrow> consistency_decision" where
  "decide_from_snapshot snap =
     (let st = cs_state snap in
      if st = CS_Consistent \<and> cs_consistent snap then
        \<lparr>cd_outcome = CO_AllowTrusted, cd_state = st, cd_reason = str_or (cs_reason snap) ''ok'',
         cd_may_mine = True, cd_may_serve = True, cd_may_catch_up = False, cd_consistent = True\<rparr>
      else if st = CS_BehindOpen then
        \<lparr>cd_outcome = CO_AllowCatchUp, cd_state = st, cd_reason = str_or (cs_reason snap) ''behind_open'',
         cd_may_mine = False, cd_may_serve = False, cd_may_catch_up = True, cd_consistent = False\<rparr>
      else if st = CS_Probing then
        \<lparr>cd_outcome = CO_AllowCatchUp, cd_state = st, cd_reason = str_or (cs_reason snap) ''probing'',
         cd_may_mine = False, cd_may_serve = False, cd_may_catch_up = True, cd_consistent = False\<rparr>
      else
        \<lparr>cd_outcome = CO_Deny, cd_state = st, cd_reason = str_or (cs_reason snap) (consistency_value st),
         cd_may_mine = False, cd_may_serve = False, cd_may_catch_up = False, cd_consistent = False\<rparr>)"

text \<open>The loop over the wire roots: the mismatching peers so far, and whether one root matched.\<close>

fun scan_roots ::
  "int \<Rightarrow> string \<Rightarrow> wire_entry list \<Rightarrow> string list \<Rightarrow> bool \<Rightarrow> (string list \<times> bool) option"
where
  "scan_roots local_h local_root [] mism matched = Some (mism, matched)"
| "scan_roots local_h local_root (WireOther # es) mism matched =
     scan_roots local_h local_root es mism matched"
| "scan_roots local_h local_root (WireDict e # es) mism matched =
     (case we_height e of
        None \<Rightarrow> None
      | Some h \<Rightarrow>
          if h < local_h then scan_roots local_h local_root es mism matched
          else if h = local_h \<and> we_root e \<noteq> [] then
            (if we_root e \<noteq> local_root then
               (let pid = take 8 (str_or (we_peer e) ''peer'')
                in scan_roots local_h local_root es (if pid \<in> set mism then mism else mism @ [pid]) matched)
             else scan_roots local_h local_root es mism True)
          else scan_roots local_h local_root es mism matched)"

text \<open>\<open>evaluate_probe\<close>; \<open>None\<close> when a wire height makes \<open>int\<close> raise.\<close>

definition evaluate_probe ::
  "'t \<Rightarrow> peer_view list \<Rightarrow> int \<Rightarrow> string \<Rightarrow> probe_result \<Rightarrow> 't consistency_snapshot \<Rightarrow>
     ('t consistency_snapshot \<times> consistency_decision) option"
where
  "evaluate_probe ts peers local_h local_root probe cur =
     (let total = cs_lockdowns cur;
          mk = (\<lambda>st cons pr reason n. let snap = \<lparr>cs_state = st, cs_consistent = cons, cs_probe = pr,
                  cs_reason = reason, cs_updated = ts, cs_lockdowns = n\<rparr> in (snap, decide_from_snapshot snap))
      in if peers = [] then Some (mk CS_Unknown False (never_probed ''no_peers'') ''no_peers'' total)
         else if \<not> wp_probed probe \<or> wp_ok probe \<noteq> Some True then
           Some (mk CS_LockedDown False probe
                   (str_or (wp_detail probe) (if \<not> wp_probed probe then ''probe_never'' else ''probe_failed''))
                   (total + 1))
         else (case scan_roots local_h local_root (wp_roots probe) (wp_mismatch probe) False of
             None \<Rightarrow> None
           | Some (mism, matched) \<Rightarrow>
               if mism \<noteq> [] then
                 Some (mk CS_LockedDown False
                         \<lparr>wp_probed = True, wp_ok = Some True, wp_roots = wp_roots probe,
                          wp_mismatch = mism, wp_detail = wp_detail probe\<rparr> ''state_root_mismatch'' (total + 1))
               else if \<not> matched then
                 (if list_ex (\<lambda>p. pv_height p > local_h) peers
                  then Some (mk CS_BehindOpen False probe ''incomplete_ahead'' total)
                  else Some (mk CS_LockedDown False probe ''no_same_height_match'' (total + 1)))
               else Some (mk CS_Consistent True probe ''ok'' total)))"

definition machine_lockdown ::
  "'t \<Rightarrow> string \<Rightarrow> probe_result option \<Rightarrow> 't consistency_snapshot \<Rightarrow> 't consistency_snapshot" where
  "machine_lockdown ts reason probe cur =
     \<lparr>cs_state = CS_LockedDown, cs_consistent = False,
      cs_probe = (case probe of None \<Rightarrow> cs_probe cur | Some p \<Rightarrow> p),
      cs_reason = str_or reason ''lockdown'', cs_updated = ts, cs_lockdowns = cs_lockdowns cur + 1\<rparr>"

definition enter_probing :: "'t \<Rightarrow> 't consistency_snapshot \<Rightarrow> 't consistency_snapshot" where
  "enter_probing ts cur =
     \<lparr>cs_state = CS_Probing, cs_consistent = cs_consistent cur, cs_probe = cs_probe cur,
      cs_reason = ''probing'', cs_updated = ts, cs_lockdowns = cs_lockdowns cur\<rparr>"

section \<open>The store and the service\<close>

text \<open>The store keeps a snapshot and tells a mirror, whose exceptions are dropped, of every change.\<close>

record ('t, 'm) mem_store =
  ms_snap :: "'t consistency_snapshot"
  ms_on_change :: "('t consistency_snapshot \<Rightarrow> 'm \<Rightarrow> 'm) option"
  ms_mirror :: 'm

definition store_get :: "('t, 'm) mem_store \<Rightarrow> 't consistency_snapshot" where
  "store_get s = ms_snap s"

definition store_set :: "'t consistency_snapshot \<Rightarrow> ('t, 'm) mem_store \<Rightarrow> ('t, 'm) mem_store" where
  "store_set snap s =
     (let s1 = s\<lparr>ms_snap := snap\<rparr>
      in case ms_on_change s1 of None \<Rightarrow> s1 | Some cb \<Rightarrow> s1\<lparr>ms_mirror := cb snap (ms_mirror s1)\<rparr>)"

text \<open>The service, over the operations of its store.\<close>

definition service_decision :: "('s \<Rightarrow> 't consistency_snapshot) \<Rightarrow> 's \<Rightarrow> consistency_decision" where
  "service_decision get s = decide_from_snapshot (get s)"

definition service_lockdown ::
  "('s \<Rightarrow> 't consistency_snapshot) \<Rightarrow> ('t consistency_snapshot \<Rightarrow> 's \<Rightarrow> 's) \<Rightarrow> 't \<Rightarrow> string \<Rightarrow> 's \<Rightarrow>
     consistency_decision \<times> 's" where
  "service_lockdown get put ts reason s =
     (let snap = machine_lockdown ts reason None (get s) in (decide_from_snapshot snap, put snap s))"

definition service_probing ::
  "('s \<Rightarrow> 't consistency_snapshot) \<Rightarrow> ('t consistency_snapshot \<Rightarrow> 's \<Rightarrow> 's) \<Rightarrow> 't \<Rightarrow> 's \<Rightarrow>
     consistency_decision \<times> 's" where
  "service_probing get put ts s =
     (let snap = enter_probing ts (get s) in (decide_from_snapshot snap, put snap s))"

text \<open>An evaluation that raises changes nothing: the store is written after it.\<close>

definition service_apply ::
  "('s \<Rightarrow> 't consistency_snapshot) \<Rightarrow> ('t consistency_snapshot \<Rightarrow> 's \<Rightarrow> 's) \<Rightarrow> 't \<Rightarrow>
     peer_view list \<Rightarrow> int \<Rightarrow> string \<Rightarrow> probe_result \<Rightarrow> 's \<Rightarrow> consistency_decision option \<times> 's" where
  "service_apply get put ts peers local_h local_root probe s =
     (case evaluate_probe ts peers local_h local_root probe (get s) of
        None \<Rightarrow> (None, s)
      | Some (snap, d) \<Rightarrow> (Some d, put snap s))"

record consistency_status =
  st_state :: string
  st_consistent :: bool
  st_reason :: string
  st_lockdowns :: int
  st_probed :: bool
  st_ok :: "bool option"
  st_may_mine :: bool
  st_may_catch_up :: bool
  st_may_serve :: bool

definition service_status :: "('s \<Rightarrow> 't consistency_snapshot) \<Rightarrow> 's \<Rightarrow> consistency_status" where
  "service_status get s =
     (let snap = get s; d = decide_from_snapshot snap
      in \<lparr>st_state = consistency_value (cs_state snap), st_consistent = cs_consistent snap,
          st_reason = cs_reason snap, st_lockdowns = cs_lockdowns snap,
          st_probed = wp_probed (cs_probe snap), st_ok = wp_ok (cs_probe snap),
          st_may_mine = cd_may_mine d, st_may_catch_up = cd_may_catch_up d,
          st_may_serve = cd_may_serve d\<rparr>)"

datatype 't consistency_event =
    EvalProbe 't "peer_view list" int string probe_result
  | Lockdown 't string
  | Probing 't

fun service_step ::
  "('s \<Rightarrow> 't consistency_snapshot) \<Rightarrow> ('t consistency_snapshot \<Rightarrow> 's \<Rightarrow> 's) \<Rightarrow> 's \<Rightarrow>
     't consistency_event \<Rightarrow> 's" where
  "service_step get put s (EvalProbe ts peers h root probe) = snd (service_apply get put ts peers h root probe s)"
| "service_step get put s (Lockdown ts reason) = snd (service_lockdown get put ts reason s)"
| "service_step get put s (Probing ts) = snd (service_probing get put ts s)"

section \<open>What makes an evaluation green\<close>

text \<open>
  The specification of trust: a successful probe of some peer, in which every root reported at the
  local height is the local one, at least one is, and the transport saw no mismatch.
\<close>

definition at_local :: "int \<Rightarrow> wire_entry \<Rightarrow> string option" where
  "at_local h e = (case e of WireOther \<Rightarrow> None
     | WireDict d \<Rightarrow> if we_height d = Some h \<and> we_root d \<noteq> [] then Some (we_root d) else None)"

definition readable :: "wire_entry \<Rightarrow> bool" where
  "readable e = (case e of WireOther \<Rightarrow> True | WireDict d \<Rightarrow> we_height d \<noteq> None)"

definition probe_green :: "peer_view list \<Rightarrow> int \<Rightarrow> string \<Rightarrow> probe_result \<Rightarrow> bool" where
  "probe_green peers h root probe \<longleftrightarrow>
     peers \<noteq> [] \<and> wp_probed probe \<and> wp_ok probe = Some True \<and> wp_mismatch probe = []
     \<and> (\<forall>e\<in>set (wp_roots probe). readable e)
     \<and> (\<forall>e\<in>set (wp_roots probe). at_local h e = None \<or> at_local h e = Some root)
     \<and> (\<exists>e\<in>set (wp_roots probe). at_local h e = Some root)"

lemma scan_roots_readable:
  "scan_roots h root es mism matched = None \<longleftrightarrow> (\<exists>e\<in>set es. \<not> readable e)"
  by (induction h root es mism matched rule: scan_roots.induct)
     (auto simp: readable_def Let_def split: option.splits)

lemma scan_roots_result:
  "scan_roots h root es mism matched = Some (m, b) \<Longrightarrow>
     (m = [] \<longleftrightarrow> mism = [] \<and> (\<forall>e\<in>set es. at_local h e = None \<or> at_local h e = Some root))
     \<and> (b \<longleftrightarrow> matched \<or> (\<exists>e\<in>set es. at_local h e = Some root))"
proof (induction es arbitrary: mism matched)
  case Nil
  then show ?case by simp
next
  case (Cons x es)
  show ?case
  proof (cases "at_local h x")
    case None
    then have "scan_roots h root es mism matched = Some (m, b)"
      using Cons.prems by (cases x) (auto simp: at_local_def split: option.splits if_splits)
    with Cons.IH None show ?thesis by simp
  next
    case (Some r)
    then obtain e where e: "x = WireDict e" "we_height e = Some h" "we_root e = r" "r \<noteq> []"
      by (cases x) (auto simp: at_local_def split: if_splits)
    show ?thesis
    proof (cases "r = root")
      case True
      then have "scan_roots h root es mism True = Some (m, b)" using Cons.prems e by simp
      from Cons.IH [OF this] Some True show ?thesis by simp
    next
      case False
      let ?p = "take 8 (str_or (we_peer e) ''peer'')"
      have "scan_roots h root es (if ?p \<in> set mism then mism else mism @ [?p]) matched = Some (m, b)"
        using Cons.prems e False by (simp add: Let_def)
      from Cons.IH [OF this] Some False show ?thesis by (auto split: if_splits)
    qed
  qed
qed

lemma evaluate_probe_green:
  assumes "evaluate_probe ts peers h root probe cur = Some (snap, d)"
  shows "(cs_state snap = CS_Consistent \<longleftrightarrow> probe_green peers h root probe)
     \<and> (cs_consistent snap \<longleftrightarrow> probe_green peers h root probe) \<and> d = decide_from_snapshot snap"
proof (cases "scan_roots h root (wp_roots probe) (wp_mismatch probe) False")
  case None
  then have "\<not> probe_green peers h root probe"
    using scan_roots_readable [of h root "wp_roots probe" "wp_mismatch probe" False] by (auto simp: probe_green_def)
  with None assms show ?thesis by (auto simp: evaluate_probe_def Let_def split: if_splits)
next
  case (Some r)
  obtain m b where r: "r = (m, b)" by fastforce
  have "\<forall>e\<in>set (wp_roots probe). readable e"
    using scan_roots_readable [of h root "wp_roots probe" "wp_mismatch probe" False] Some by auto
  then have "probe_green peers h root probe \<longleftrightarrow>
      peers \<noteq> [] \<and> wp_probed probe \<and> wp_ok probe = Some True \<and> m = [] \<and> b"
    using scan_roots_result [OF Some [unfolded r]] by (auto simp: probe_green_def)
  with Some r assms show ?thesis by (auto simp: evaluate_probe_def Let_def split: if_splits)
qed

lemma decide_trusted: "cd_trusted (decide_from_snapshot snap) \<longleftrightarrow> cs_state snap = CS_Consistent \<and> cs_consistent snap"
  by (auto simp: decide_from_snapshot_def cd_trusted_def Let_def)

lemma decide_may_mine: "cd_may_mine (decide_from_snapshot snap) = cd_trusted (decide_from_snapshot snap)"
  "cd_may_serve (decide_from_snapshot snap) = cd_trusted (decide_from_snapshot snap)"
  by (auto simp: decide_from_snapshot_def cd_trusted_def Let_def)

lemma evaluate_probe_lockdowns:
  assumes "evaluate_probe ts peers h root probe cur = Some (snap, d)"
  shows "cs_lockdowns snap = cs_lockdowns cur + (if cs_state snap = CS_LockedDown then 1 else 0)"
  using assms by (auto simp: evaluate_probe_def Let_def split: if_splits option.splits)

text \<open>An evaluation raises when it reaches the roots and one of them has a height \<open>int\<close> refuses.\<close>

definition eval_raises :: "peer_view list \<Rightarrow> probe_result \<Rightarrow> bool" where
  "eval_raises peers probe \<longleftrightarrow>
     peers \<noteq> [] \<and> wp_probed probe \<and> wp_ok probe = Some True \<and> (\<exists>e\<in>set (wp_roots probe). \<not> readable e)"

lemma evaluate_probe_None: "evaluate_probe ts peers h root probe cur = None \<longleftrightarrow> eval_raises peers probe"
proof -
  have "scan_roots h root (wp_roots probe) (wp_mismatch probe) False = None \<longleftrightarrow> (\<exists>e\<in>set (wp_roots probe). \<not> readable e)"
    by (rule scan_roots_readable)
  then show ?thesis by (auto simp: evaluate_probe_def eval_raises_def Let_def split: option.split prod.split)
qed

lemma green_not_raising: "probe_green peers h root probe \<Longrightarrow> \<not> eval_raises peers probe"
  by (auto simp: probe_green_def eval_raises_def)

text \<open>What an event says about trust: it is evidence for it, it says nothing, or it only opens a new probe.\<close>

fun green_event :: "'t consistency_event \<Rightarrow> bool" where
  "green_event (EvalProbe ts peers h root probe) = probe_green peers h root probe"
| "green_event _ = False"

fun raising_event :: "'t consistency_event \<Rightarrow> bool" where
  "raising_event (EvalProbe ts peers h root probe) = eval_raises peers probe"
| "raising_event _ = False"

fun probing_event :: "'t consistency_event \<Rightarrow> bool" where
  "probing_event (Probing ts) = True"
| "probing_event _ = False"

section \<open>The store port\<close>

locale snapshot_store =
  fixes get :: "'s \<Rightarrow> 't consistency_snapshot" and put :: "'t consistency_snapshot \<Rightarrow> 's \<Rightarrow> 's"
  assumes get_put: "get (put snap s) = snap"
begin

lemma step_trust:
  "cs_consistent (get (service_step get put s e))
     \<longleftrightarrow> green_event e \<or> (raising_event e \<or> probing_event e) \<and> cs_consistent (get s)"
  "cd_trusted (service_decision get (service_step get put s e))
     \<longleftrightarrow> green_event e \<or> raising_event e \<and> cd_trusted (service_decision get s)"
proof -
  have "(cs_consistent (get (service_step get put s e))
       \<longleftrightarrow> green_event e \<or> (raising_event e \<or> probing_event e) \<and> cs_consistent (get s))
     \<and> (cd_trusted (service_decision get (service_step get put s e))
       \<longleftrightarrow> green_event e \<or> raising_event e \<and> cd_trusted (service_decision get s))"
  proof (cases e)
    case (EvalProbe ts peers h root probe)
    show ?thesis
    proof (cases "evaluate_probe ts peers h root probe (get s)")
      case None
      have r: "eval_raises peers probe" using evaluate_probe_None [of ts peers h root probe "get s"] None by simp
      then have "\<not> probe_green peers h root probe" using green_not_raising by blast
      with r None EvalProbe show ?thesis by (simp add: service_apply_def)
    next
      case (Some r)
      obtain snap d where r: "r = (snap, d)" by fastforce
      have "\<not> eval_raises peers probe" using evaluate_probe_None [of ts peers h root probe "get s"] Some by simp
      with Some r EvalProbe evaluate_probe_green [of ts peers h root probe "get s" snap d]
      show ?thesis by (simp add: service_apply_def service_decision_def get_put decide_trusted)
    qed
  qed (simp_all add: service_decision_def service_lockdown_def service_probing_def Let_def
      get_put decide_trusted machine_lockdown_def enter_probing_def)
  then show "cs_consistent (get (service_step get put s e))
     \<longleftrightarrow> green_event e \<or> (raising_event e \<or> probing_event e) \<and> cs_consistent (get s)"
    "cd_trusted (service_decision get (service_step get put s e))
     \<longleftrightarrow> green_event e \<or> raising_event e \<and> cd_trusted (service_decision get s)" by blast+
qed

end

text \<open>A flag that some events set, some keep and the others clear is set after a run exactly when one of the run set it, or it
  was set before, and everything since keeps it.\<close>

lemma sticky_flag:
  assumes step: "\<And>s e. flag (step s e) \<longleftrightarrow> sets e \<or> keeps_it e \<and> flag s"
  shows "flag (foldl step s es) \<longleftrightarrow>
     (\<exists>es1 e es2. es = es1 @ e # es2 \<and> sets e \<and> list_all keeps_it es2) \<or> list_all keeps_it es \<and> flag s"
proof (induction es rule: rev_induct)
  case Nil
  then show ?case by simp
next
  case (snoc x es)
  have "(\<exists>es1 e es2. es @ [x] = es1 @ e # es2 \<and> sets e \<and> list_all keeps_it es2)
     \<longleftrightarrow> sets x \<or> keeps_it x \<and> (\<exists>es1 e es2. es = es1 @ e # es2 \<and> sets e \<and> list_all keeps_it es2)" (is "?l \<longleftrightarrow> ?r")
  proof
    assume ?l
    then obtain es1 e es2 where l: "es @ [x] = es1 @ e # es2" "sets e" "list_all keeps_it es2" by blast
    then show ?r by (cases es2 rule: rev_cases) auto
  next
    assume ?r
    then show ?l
    proof
      assume "sets x"
      then show ?l by (intro exI [of _ es] exI [of _ x] exI [of _ "[]"]) simp
    next
      assume "keeps_it x \<and> (\<exists>es1 e es2. es = es1 @ e # es2 \<and> sets e \<and> list_all keeps_it es2)"
      then obtain es1 e es2 where "keeps_it x" "es = es1 @ e # es2" "sets e" "list_all keeps_it es2" by blast
      then show ?l by (intro exI [of _ es1] exI [of _ e] exI [of _ "es2 @ [x]"]) simp
    qed
  qed
  then show ?case using snoc step [of "foldl step s es" x] by auto
qed

context snapshot_store begin

lemmas consistent_run = sticky_flag [where flag = "\<lambda>s. cs_consistent (get s)" and step = "service_step get put", OF step_trust(1)]

lemmas trusted_run = sticky_flag [where flag = "\<lambda>s. cd_trusted (service_decision get s)" and step = "service_step get put", OF step_trust(2)]

lemma lockdowns_step: "cs_lockdowns (get s) \<le> cs_lockdowns (get (service_step get put s e))"
  by (cases e) (auto simp: service_apply_def service_lockdown_def service_probing_def machine_lockdown_def
      enter_probing_def get_put Let_def evaluate_probe_lockdowns split: option.splits)

end

sublocale snapshot_store \<subseteq> trust: ranked_component "service_step get put" "\<lambda>s. True" "\<lambda>s. cs_lockdowns (get s)"
  by unfold_locales (simp_all add: lockdowns_step)

interpretation mem: snapshot_store store_get store_set
  by unfold_locales (simp add: store_get_def store_set_def Let_def split: option.split)

section \<open>Properties\<close>

definition demo_store :: "(int, unit) mem_store" where
  "demo_store = \<lparr>ms_snap = boot_snapshot 0, ms_on_change = None, ms_mirror = ()\<rparr>"

definition demo_peer :: peer_view where
  "demo_peer = \<lparr>pv_id = ''p1'', pv_height = 7, pv_head = ''aa'', pv_dial = []\<rparr>"

definition demo_probe :: "string \<Rightarrow> probe_result" where
  "demo_probe root = probe_succeeded
     [WireOther, WireDict \<lparr>we_root = root, we_height = Some 7, we_peer = ''p1''\<rparr>] [] []"

text \<open>C8: trust is earned, kept and lost exactly as the evidence says. After any sequence of probe evaluations, lockdowns and
  probing marks the flag consistent is set exactly when some evaluation of the sequence was green (a peer reported the
  local root at the local height and none another), or it was set before, and since then there were only probing marks,
  which keep it, and evaluations that raised; a lockdown and any evaluation that returns without being green clear it. The
  verdict is trusted, and mining and serving allowed, under the same condition without the probing marks: while a probe
  runs the flag is kept but nothing is allowed on it.\<close>

theorem trust_follows_evidence:
  fixes s :: "('t, 'm) mem_store"
  defines "after \<equiv> foldl (service_step store_get store_set) s"
  shows "(cs_consistent (store_get (after es)) \<longleftrightarrow>
       (\<exists>es1 e es2. es = es1 @ e # es2 \<and> green_event e \<and> list_all (\<lambda>x. raising_event x \<or> probing_event x) es2)
       \<or> list_all (\<lambda>x. raising_event x \<or> probing_event x) es \<and> cs_consistent (store_get s))
     \<and> (cd_trusted (service_decision store_get (after es)) \<longleftrightarrow>
       (\<exists>es1 e es2. es = es1 @ e # es2 \<and> green_event e \<and> list_all raising_event es2)
       \<or> list_all raising_event es \<and> cd_trusted (service_decision store_get s))
     \<and> cd_may_mine (service_decision store_get (after es)) = cd_trusted (service_decision store_get (after es))
     \<and> cd_may_serve (service_decision store_get (after es)) = cd_trusted (service_decision store_get (after es))"
  unfolding after_def
  by (intro conjI mem.consistent_run mem.trusted_run) (simp_all add: service_decision_def decide_may_mine)

text \<open>After a green probe the next probing mark keeps the flag and takes the permission; a root that differs clears both.\<close>

lemma trust_follows_evidence_witness:
  "(let es = [Lockdown 1 ''boot'', Probing 2, EvalProbe 3 [demo_peer] 7 ''r1'' (demo_probe ''r1''), Probing 4];
        s = foldl (service_step store_get store_set) demo_store es
    in cs_consistent (store_get s) \<and> \<not> cd_may_mine (service_decision store_get s)
       \<and> \<not> cs_consistent (store_get (service_step store_get store_set s (EvalProbe 5 [demo_peer] 7 ''r1'' (demo_probe ''r2'')))))"
proof -
  let ?es = "[Lockdown 1 ''boot'', Probing 2, EvalProbe 3 [demo_peer] 7 ''r1'' (demo_probe ''r1''), Probing 4] :: int consistency_event list"
  let ?bad = "EvalProbe 5 [demo_peer] 7 ''r1'' (demo_probe ''r2'')"
  have g: "green_event (EvalProbe 3 [demo_peer] 7 ''r1'' (demo_probe ''r1''))" "\<not> raising_event ?bad" "\<not> green_event ?bad" by code_simp+
  have split: "?es = [Lockdown 1 ''boot'', Probing 2] @ EvalProbe 3 [demo_peer] 7 ''r1'' (demo_probe ''r1'') # [Probing 4]" by simp
  have 1: "cs_consistent (store_get (foldl (service_step store_get store_set) demo_store ?es))"
  proof -
    have "\<exists>es1 e es2. ?es = es1 @ e # es2 \<and> green_event e \<and> list_all (\<lambda>x. raising_event x \<or> probing_event x) es2"
      using split g(1) by (intro exI [of _ "[Lockdown 1 ''boot'', Probing 2]"] exI [of _ "EvalProbe 3 [demo_peer] 7 ''r1'' (demo_probe ''r1'')"]
          exI [of _ "[Probing 4]"]) simp
    then show ?thesis by (rule conjunct1 [OF trust_follows_evidence, THEN iffD2, OF disjI1])
  qed
  have 2: "\<not> cd_may_mine (service_decision store_get (foldl (service_step store_get store_set) demo_store ?es))" by code_simp
  have "\<not> probing_event ?bad" by simp
  then have "\<not> cs_consistent (store_get (service_step store_get store_set s ?bad))" for s :: "(int, unit) mem_store"
    using mem.step_trust(1) [of s ?bad] g(2,3) by blast
  then show ?thesis unfolding Let_def using 1 2 by blast
qed

text \<open>
  \<open>enter_probing\<close> is documented to mark a probe \<open>without clearing a prior trusted green\<close>. It keeps the flag, but the verdict
  read from the marked snapshot is not trusted until the next evaluation: mining and serving are refused meanwhile, and
  \<open>status\<close> reports a consistent state beside them.
\<close>

lemma probing_takes_the_verdict:
  "cs_consistent (enter_probing ts snap) = cs_consistent snap \<and> \<not> cd_trusted (decide_from_snapshot (enter_probing ts snap))
   \<and> \<not> cd_may_mine (decide_from_snapshot (enter_probing ts snap)) \<and> \<not> cd_may_serve (decide_from_snapshot (enter_probing ts snap))"
  by (simp add: enter_probing_def decide_from_snapshot_def cd_trusted_def Let_def)

text \<open>An evaluation that returns is trusted exactly when the probe is green, mining and serving are
  allowed exactly when it is trusted, and the lockdown counter goes up by one exactly when the verdict
  is a lockdown: in particular a mismatching root is never trusted.\<close>
theorem probe_evaluation_verdict:
  assumes "service_apply store_get store_set ts peers h root probe s = (Some d, t)"
  shows "(cd_trusted d \<longleftrightarrow> probe_green peers h root probe) \<and> cd_may_mine d = cd_trusted d
    \<and> cd_may_serve d = cd_trusted d \<and> d = service_decision store_get t
    \<and> cs_lockdowns (store_get t) = cs_lockdowns (store_get s) + (if cd_state d = CS_LockedDown then 1 else 0)"
proof -
  obtain snap where e: "evaluate_probe ts peers h root probe (store_get s) = Some (snap, d)" and t: "t = store_set snap s"
    using assms by (auto simp: service_apply_def split: option.splits)
  have "cd_state (decide_from_snapshot snap) = cs_state snap" by (simp add: decide_from_snapshot_def Let_def)
  with evaluate_probe_green [OF e] evaluate_probe_lockdowns [OF e] show ?thesis
    by (simp add: decide_trusted decide_may_mine service_decision_def t mem.get_put)
qed

theorem probe_evaluation_verdict_witness:
  "\<not> cd_may_mine (the (fst (service_apply store_get store_set 1 [demo_peer] 7 ''r1'' (demo_probe ''r2'') demo_store)))
   \<and> cs_lockdowns (store_get (snd (service_apply store_get store_set 1 [demo_peer] 7 ''r1'' (demo_probe ''r2'') demo_store))) = 1"
proof -
  let ?r = "service_apply store_get store_set 1 [demo_peer] 7 ''r1'' (demo_probe ''r2'') demo_store"
  obtain d t where r: "?r = (Some d, t)"
  proof -
    have "fst ?r \<noteq> None" by code_simp
    then show thesis using that by (cases ?r) auto
  qed
  have "\<not> probe_green [demo_peer] 7 ''r1'' (demo_probe ''r2'')" by code_simp
  moreover have "cd_state d = CS_LockedDown"
  proof -
    have "cd_state (the (fst ?r)) = CS_LockedDown" by code_simp
    with r show ?thesis by simp
  qed
  moreover have "cs_lockdowns (store_get demo_store) = 0" by code_simp
  moreover note probe_evaluation_verdict [OF r]
  ultimately have "\<not> cd_may_mine d" "cs_lockdowns (store_get t) = 1" by auto
  with r show ?thesis by simp
qed

end
