(* ===== verification/PyVal.thy ===== *)
theory PyVal
  imports Prelude
begin

text \<open>
  The dynamically typed values the synchronisation code reads out of block dictionaries: the scalar
  JSON values without floats, their truth value, and \<open>str\<close> and \<open>int\<close> of them. A dictionary is an
  association list.
\<close>

datatype pyval = PNone | PBool bool | PInt int | PStr string

type_synonym pydict = "(string \<times> pyval) list"

fun py_truthy :: "pyval \<Rightarrow> bool" where
  "py_truthy PNone = False"
| "py_truthy (PBool b) = b"
| "py_truthy (PInt i) = (i \<noteq> 0)"
| "py_truthy (PStr s) = (s \<noteq> [])"

definition py_or :: "pyval \<Rightarrow> pyval \<Rightarrow> pyval" where
  "py_or a b = (if py_truthy a then a else b)"

fun py_str :: "pyval \<Rightarrow> string" where
  "py_str PNone = ''None''"
| "py_str (PBool b) = (if b then ''True'' else ''False'')"
| "py_str (PInt i) = py_str_int i"
| "py_str (PStr s) = s"

text \<open>\<open>int\<close> of a string: an optional sign and decimal digits, single underscores between digits.\<close>

definition dec_digit :: "char \<Rightarrow> int option" where
  "dec_digit c = (let n = of_char c :: nat in if 48 \<le> n \<and> n \<le> 57 then Some (int n - 48) else None)"

fun digits_val :: "bool \<Rightarrow> int \<Rightarrow> string \<Rightarrow> int option" where
  "digits_val prev acc [] = (if prev then Some acc else None)"
| "digits_val prev acc (c # cs) =
     (case dec_digit c of
        Some d \<Rightarrow> digits_val True (10 * acc + d) cs
      | None \<Rightarrow> if c = CHR ''_'' \<and> prev then digits_val False acc cs else None)"

definition int_of_str :: "string \<Rightarrow> int option" where
  "int_of_str s =
     (case py_strip s of
        [] \<Rightarrow> None
      | c # cs \<Rightarrow>
          if c = CHR ''+'' then digits_val False 0 cs
          else if c = CHR ''-'' then map_option uminus (digits_val False 0 cs)
          else digits_val False 0 (c # cs))"

text \<open>\<open>int(v)\<close>, \<open>None\<close> when it raises \<open>TypeError\<close> or \<open>ValueError\<close>.\<close>

fun py_int :: "pyval \<Rightarrow> int option" where
  "py_int PNone = None"
| "py_int (PBool b) = Some (if b then 1 else 0)"
| "py_int (PInt i) = Some i"
| "py_int (PStr s) = int_of_str s"

text \<open>\<open>d.get(k)\<close> and \<open>d.get(k, v)\<close>.\<close>

definition pget :: "pydict \<Rightarrow> string \<Rightarrow> pyval" where
  "pget d k = dget_or d k PNone"

text \<open>\<open>str(d.get(k) or "")\<close>.\<close>

definition pget_str :: "pydict \<Rightarrow> string \<Rightarrow> string" where
  "pget_str d k = py_str (py_or (pget d k) (PStr []))"


end
