(* ===== verification/Fork.thy ===== *)
theory Fork
  imports PyVal
begin

text \<open>
  Same-height and to-head fork reconciliation: \<open>sync/fork/types.py\<close>, \<open>evidence.py\<close>, \<open>policy.py\<close> and
  the service of \<open>service.py\<close>. The service has no state of its own: it drives four ports, whose
  operations (the record \<open>fork_ports\<close>) act on a world \<open>'w\<close> and may raise. Its methods are
  state-with-exceptions computations over that world; the deliberate exception of the code is
  \<open>ForkMalicious\<close>, an exception of a port is \<open>ForkPort\<close>. The adapters behind the ports are in
  \<open>ForkAdapters\<close>.
\<close>

section \<open>Types\<close>

datatype fork_status = FS_Skipped | FS_Refused | FS_FetchFailed | FS_NoAncestor | FS_ImportFailed
  | FS_Complete | FS_Error

record fork_peer =
  fp_id :: string
  fp_height :: int
  fp_head :: string

definition fork_peer_init :: "fork_peer \<Rightarrow> fork_peer" where
  "fork_peer_init p = p\<lparr>fp_head := py_strip (fp_head p)\<rparr>"

text \<open>The timeout is passed on to the fetch port only, and the port interface leaves it out.\<close>

record fork_config =
  fc_fork_probe :: bool
  fc_ghost_probe :: bool
  fc_prefer_ghost :: bool
  fc_head_bind :: bool
  fc_contiguous_bind :: bool
  fc_same_height_bind :: bool
  fc_tip_bind :: bool

definition fork_config_default :: fork_config where
  "fork_config_default = \<lparr>fc_fork_probe = True, fc_ghost_probe = True, fc_prefer_ghost = True,
     fc_head_bind = True, fc_contiguous_bind = True, fc_same_height_bind = True, fc_tip_bind = True\<rparr>"

record fork_outcome =
  fo_status :: fork_status
  fo_reason :: string
  fo_height :: int
  fo_target :: string
  fo_detail :: string

definition fo_ok :: "fork_outcome \<Rightarrow> bool" where
  "fo_ok out = (fo_status out = FS_Complete \<or> fo_status out = FS_Skipped)"

definition fo_skipped :: "int \<Rightarrow> string \<Rightarrow> string \<Rightarrow> fork_outcome" where
  "fo_skipped h target reason = \<lparr>fo_status = FS_Skipped, fo_reason = reason, fo_height = h,
     fo_target = target, fo_detail = []\<rparr>"

definition fo_refused :: "string \<Rightarrow> int \<Rightarrow> string \<Rightarrow> string \<Rightarrow> fork_outcome" where
  "fo_refused reason h target detail = \<lparr>fo_status = FS_Refused, fo_reason = str_or reason ''refused'',
     fo_height = h, fo_target = target, fo_detail = detail\<rparr>"

definition fo_fetch_failed :: "int \<Rightarrow> string \<Rightarrow> fork_outcome" where
  "fo_fetch_failed h target = \<lparr>fo_status = FS_FetchFailed, fo_reason = ''fetch_failed'', fo_height = h,
     fo_target = target, fo_detail = []\<rparr>"

definition fo_no_ancestor :: "int \<Rightarrow> string \<Rightarrow> fork_outcome" where
  "fo_no_ancestor h target = \<lparr>fo_status = FS_NoAncestor, fo_reason = ''no_common_ancestor'',
     fo_height = h, fo_target = target, fo_detail = []\<rparr>"

definition fo_import_failed :: "int \<Rightarrow> string \<Rightarrow> fork_outcome" where
  "fo_import_failed h target = \<lparr>fo_status = FS_ImportFailed, fo_reason = ''reorg_import_failed'',
     fo_height = h, fo_target = target, fo_detail = []\<rparr>"

definition fo_complete :: "int \<Rightarrow> string \<Rightarrow> fork_outcome" where
  "fo_complete h target = \<lparr>fo_status = FS_Complete, fo_reason = ''ok'', fo_height = h,
     fo_target = target, fo_detail = []\<rparr>"

definition fo_error :: "string \<Rightarrow> int \<Rightarrow> string \<Rightarrow> string \<Rightarrow> fork_outcome" where
  "fo_error reason h target detail = \<lparr>fo_status = FS_Error, fo_reason = str_or reason ''error'',
     fo_height = h, fo_target = target, fo_detail = detail\<rparr>"

section \<open>Reading a block\<close>

definition fork_block_height :: "pydict \<Rightarrow> int \<Rightarrow> int" where
  "fork_block_height b d =
     (case py_int (py_or (dget_or b ''height'' (dget_or b ''number'' (PInt d))) (PInt d)) of
        None \<Rightarrow> d | Some n \<Rightarrow> n)"

definition fork_block_hash :: "pydict \<Rightarrow> string" where
  "fork_block_hash b = py_strip (py_str (py_or (py_or (pget b ''hash'') (pget b ''block_hash'')) (PStr [])))"

definition same_ci :: "string \<Rightarrow> string \<Rightarrow> bool" where
  "same_ci a b = (py_lower a = py_lower b)"

section \<open>Evidence\<close>

record fork_evidence =
  fe_reason :: string
  fe_peer :: string
  fe_height :: int
  fe_target :: string
  fe_block_hash :: string
  fe_block_height :: int
  fe_detail :: string
  fe_attempts :: int
  fe_kind :: string

definition malicious_refuse_codes :: "string list" where
  "malicious_refuse_codes =
     [''reconcile_head_hash_mismatch'', ''reconcile_same_height_parent_mismatch'',
      ''reconcile_contiguous_parent_mismatch'', ''fork_peer_head_hash_mismatch'',
      ''fork_peer_head_parent_mismatch'', ''fork_peer_head_height_mismatch'',
      ''fork_same_height_spam'', ''tip_evidence_enforce_refuse'']"

definition is_malicious_refuse :: "string \<Rightarrow> bool" where
  "is_malicious_refuse reason = (reason \<in> set malicious_refuse_codes)"

text \<open>The time stamp of the evidence is left out.\<close>

definition fork_build_evidence ::
  "string \<Rightarrow> string \<Rightarrow> int \<Rightarrow> string \<Rightarrow> pydict option \<Rightarrow> string \<Rightarrow> int \<Rightarrow> fork_evidence" where
  "fork_build_evidence reason peer h target block detail attempts =
     \<lparr>fe_reason = str_or reason ''refused'', fe_peer = peer, fe_height = h, fe_target = target,
      fe_block_hash = (case block of None \<Rightarrow> [] | Some b \<Rightarrow> fork_block_hash b),
      fe_block_height = (case block of None \<Rightarrow> - 1 | Some b \<Rightarrow> fork_block_height b (- 1)),
      fe_detail = detail, fe_attempts = max 1 (if attempts = 0 then 1 else attempts),
      fe_kind = ''fork_same_height_malicious''\<rparr>"

section \<open>ForkReconcilePolicy\<close>

definition fetched_head_refuse :: "string \<Rightarrow> pydict \<Rightarrow> bool \<Rightarrow> string" where
  "fetched_head_refuse target b enabled =
     (if \<not> enabled then []
      else let want = py_strip target in
        if want = [] then []
        else let got = fork_block_hash b in
          if got \<noteq> [] \<and> \<not> same_ci got want then ''reconcile_head_hash_mismatch'' else [])"

definition contiguous_parent_refuse :: "pydict \<Rightarrow> int \<Rightarrow> string \<Rightarrow> bool \<Rightarrow> string" where
  "contiguous_parent_refuse b tip_h local_tip enabled =
     (if \<not> enabled then []
      else let body_h = fork_block_height b (- 1) in
        if body_h < 0 \<or> tip_h < 0 \<or> body_h \<noteq> tip_h + 1 then []
        else let parent = py_strip (pget_str b ''parent_hash''); tip = py_strip local_tip in
          if parent \<noteq> [] \<and> tip \<noteq> [] \<and> \<not> same_ci parent tip
          then ''reconcile_contiguous_parent_mismatch'' else [])"

definition same_height_parent_refuse :: "pydict \<Rightarrow> int \<Rightarrow> string \<Rightarrow> string \<Rightarrow> bool \<Rightarrow> string" where
  "same_height_parent_refuse b tip_h local_tip local_parent enabled =
     (if \<not> enabled then []
      else let body_h = fork_block_height b (- 1) in
        if body_h < 0 \<or> tip_h < 0 \<or> body_h \<noteq> tip_h then []
        else let got = fork_block_hash b; tip = py_strip local_tip in
          if got \<noteq> [] \<and> tip \<noteq> [] \<and> same_ci got tip then []
          else let parent = py_strip (pget_str b ''parent_hash''); want = py_strip local_parent in
            if parent \<noteq> [] \<and> want \<noteq> [] \<and> want \<noteq> replicate 64 (CHR ''0'') \<and> \<not> same_ci parent want
            then ''reconcile_same_height_parent_mismatch'' else [])"

definition tip_head_refuse :: "string \<Rightarrow> string \<Rightarrow> bool \<Rightarrow> string" where
  "tip_head_refuse target local_tip enabled =
     (if \<not> enabled then []
      else let want = py_strip target in
        if want = [] then []
        else let tip = py_strip local_tip in
          if tip \<noteq> [] \<and> \<not> same_ci tip want then ''reconcile_tip_head_mismatch'' else [])"

section \<open>Ports\<close>

type_synonym ('w, 'a) port = "('w, string, 'a) exs"

record 'w fork_ports =
  fk_height :: "('w, int) port"
  fk_head :: "('w, string) port"
  fk_expected_parent :: "int \<Rightarrow> ('w, string) port"
  fk_find_ancestor :: "string \<Rightarrow> ('w, int option) port"
  fk_reorg_import :: "int \<Rightarrow> pydict \<Rightarrow> ('w, bool) port"
  fk_fetch :: "string \<Rightarrow> string \<Rightarrow> ('w, pydict option) port"
  fk_fork_probe :: "fork_peer \<Rightarrow> ('w, string) port"
  fk_ghost_probe :: "string \<Rightarrow> fork_peer option \<Rightarrow> ('w, string) port"
  fk_bump :: "string \<Rightarrow> ('w, unit) port"
  fk_set_tip :: "string \<Rightarrow> int \<Rightarrow> string \<Rightarrow> ('w, unit) port"
  fk_ghost_head :: "('w, string) port"
  fk_peers_for_head :: "string \<Rightarrow> ('w, string list) port"
  fk_all_peers :: "('w, string list) port"
  fk_note_risk :: "('w, unit) port"
  fk_progress :: "string \<Rightarrow> ('w, unit) port"
  fk_tip_evidence :: "pydict \<Rightarrow> ('w, string) port"
  fk_note_attempt :: "string \<Rightarrow> string \<Rightarrow> ('w, int) port"
  fk_emit :: "fork_evidence \<Rightarrow> ('w, unit) port"
  fk_strike :: "string \<Rightarrow> string \<Rightarrow> ('w, unit) port"

datatype fork_exc = ForkMalicious fork_outcome fork_evidence | ForkPort string

type_synonym ('w, 'a) fork_m = "('w, fork_exc, 'a) exs"

definition portM :: "('w, 'a) port \<Rightarrow> ('w, 'a) fork_m" where
  "portM m = catchM m (\<lambda>msg. raiseM (ForkPort msg))"

section \<open>Refusals\<close>

definition fork_spam_threshold :: int where
  "fork_spam_threshold = 3"

text \<open>Counting the attempt, with the escalation to the spam reason.\<close>

definition fork_escalate :: "'w fork_ports \<Rightarrow> string \<Rightarrow> string \<Rightarrow> ('w, string \<times> int) fork_m" where
  "fork_escalate P reason peer =
     bindM (portM (fk_note_attempt P peer reason)) (\<lambda>n.
     let attempts = (if n = 0 then 1 else n) in
     if attempts \<ge> fork_spam_threshold \<and> reason \<noteq> ''fork_same_height_spam'' then
       bindM (portM (fk_bump P ''fork_same_height_spam'')) (\<lambda>_.
       bindM (portM (fk_note_attempt P peer ''fork_same_height_spam'')) (\<lambda>n'.
       returnM (''fork_same_height_spam'', if n' = 0 then attempts else n')))
     else bindM (portM (fk_bump P reason)) (\<lambda>_. returnM (reason, attempts)))"

definition fork_fail_closed ::
  "'w fork_ports \<Rightarrow> string \<Rightarrow> string \<Rightarrow> int \<Rightarrow> string \<Rightarrow> pydict option \<Rightarrow> string \<Rightarrow> ('w, 'a) fork_m" where
  "fork_fail_closed P reason peer h target block detail =
     bindM (fork_escalate P (str_or reason ''refused'') peer) (\<lambda>(reason_code, attempts).
     let ev = fork_build_evidence reason_code peer h target block detail attempts in
     bindM (portM (fk_emit P ev)) (\<lambda>_.
     bindM (portM (fk_strike P peer reason_code)) (\<lambda>_.
     raiseM (ForkMalicious (fo_refused reason_code h target (str_or detail (fe_detail ev))) ev))))"

definition refuse_or_fail_closed ::
  "'w fork_ports \<Rightarrow> string \<Rightarrow> string \<Rightarrow> int \<Rightarrow> string \<Rightarrow> pydict option \<Rightarrow> ('w, fork_outcome) fork_m" where
  "refuse_or_fail_closed P reason peer h target block =
     (if is_malicious_refuse reason then fork_fail_closed P reason peer h target block []
      else bindM (portM (fk_bump P reason)) (\<lambda>_. returnM (fo_refused reason h target [])))"

section \<open>Fetching the target\<close>

text \<open>The peers to ask, in order and without repetition.\<close>

fun extend_order :: "string list \<Rightarrow> string list \<Rightarrow> string list" where
  "extend_order order [] = order"
| "extend_order order (p # ps) =
     extend_order (if p \<noteq> [] \<and> p \<notin> set order then order @ [p] else order) ps"

fun fetch_loop ::
  "'w fork_ports \<Rightarrow> string \<Rightarrow> string list \<Rightarrow> string list \<Rightarrow> ('w, (pydict \<times> string) option) fork_m" where
  "fetch_loop P target [] tried = returnM None"
| "fetch_loop P target (p # ps) tried =
     (if p \<in> set tried then fetch_loop P target ps tried
      else bindM (portM (fk_fetch P p target)) (\<lambda>b.
        case b of Some blk \<Rightarrow> returnM (Some (blk, p))
        | None \<Rightarrow> fetch_loop P target ps (p # tried)))"

definition fetch_target_block ::
  "'w fork_ports \<Rightarrow> string \<Rightarrow> fork_peer option \<Rightarrow> ('w, (pydict \<times> string) option) fork_m" where
  "fetch_target_block P target hint =
     (let first = (case hint of
          None \<Rightarrow> []
        | Some p \<Rightarrow> if fp_id p \<noteq> [] \<and> (py_strip (fp_head p) = [] \<or> same_ci (py_strip (fp_head p)) target)
                     then [fp_id p] else []) in
      bindM (portM (fk_peers_for_head P target)) (\<lambda>claiming.
      bindM (portM (fk_all_peers P)) (\<lambda>everyone.
      fetch_loop P target (extend_order (extend_order first claiming) everyone) [])))"

section \<open>Reconciling to a head\<close>

text \<open>
  \<open>_run_to_head_inner\<close> in the order of the code: the checks before the fetch, the evidence and head
  gates on the fetched body, the parent binds, and the reorganisation with its last check.
\<close>

definition short_target :: "string \<Rightarrow> string" where
  "short_target t = take 12 t"

definition after_import ::
  "'w fork_ports \<Rightarrow> fork_config \<Rightarrow> string \<Rightarrow> string \<Rightarrow> fork_peer option \<Rightarrow> string \<Rightarrow> pydict \<Rightarrow> int \<Rightarrow>
     ('w, fork_outcome) fork_m" where
  "after_import P cfg target peer hint sourced_peer blk block_h =
     bindM (portM (fk_head P)) (\<lambda>tip.
     let tip_refuse = tip_head_refuse target tip (fc_tip_bind cfg) in
     if tip_refuse \<noteq> [] then
       bindM (portM (fk_height P)) (\<lambda>h. refuse_or_fail_closed P tip_refuse peer h target (Some blk))
     else
       (let sourced = str_or sourced_peer (case hint of None \<Rightarrow> [] | Some p \<Rightarrow> fp_id p) in
        bindM (if sourced \<noteq> []
               then portM (fk_set_tip P sourced block_h (str_or (fork_block_hash blk) target))
               else returnM ()) (\<lambda>_.
        bindM (portM (fk_progress P (''Reorg complete -- head='' @ short_target target @ '' height=#''
                        @ py_str_int block_h))) (\<lambda>_.
        bindM (portM (fk_height P)) (\<lambda>h. returnM (fo_complete h target))))))"

definition reorg_to ::
  "'w fork_ports \<Rightarrow> fork_config \<Rightarrow> string \<Rightarrow> string \<Rightarrow> fork_peer option \<Rightarrow> string \<Rightarrow> pydict \<Rightarrow> int \<Rightarrow>
     ('w, fork_outcome) fork_m" where
  "reorg_to P cfg target peer hint sourced_peer blk tip_h =
     (let block_h = fork_block_height blk 0 in
      bindM (portM (fk_find_ancestor P (pget_str blk ''parent_hash''))) (\<lambda>ancestor.
      case ancestor of
        None \<Rightarrow> bindM (portM (fk_progress P ''No common ancestor for target head'')) (\<lambda>_.
                 returnM (fo_no_ancestor tip_h target))
      | Some a \<Rightarrow>
          bindM (portM (fk_note_risk P)) (\<lambda>_.
          bindM (portM (fk_reorg_import P (min a (block_h - 1)) blk)) (\<lambda>ok.
          if \<not> ok then
            bindM (portM (fk_progress P ''Failed to reorg/import target head'')) (\<lambda>_.
            bindM (portM (fk_height P)) (\<lambda>h. returnM (fo_import_failed h target)))
          else after_import P cfg target peer hint sourced_peer blk block_h))))"

text \<open>The two parent binds, at the tip as it is now.\<close>

definition parent_binds ::
  "'w fork_ports \<Rightarrow> fork_config \<Rightarrow> string \<Rightarrow> string \<Rightarrow> fork_peer option \<Rightarrow> string \<Rightarrow> pydict \<Rightarrow>
     ('w, fork_outcome) fork_m" where
  "parent_binds P cfg target peer hint sourced_peer blk =
     bindM (portM (fk_height P)) (\<lambda>tip_h.
     bindM (portM (fk_head P)) (\<lambda>local_tip.
     let refuse = contiguous_parent_refuse blk tip_h local_tip (fc_contiguous_bind cfg) in
     if refuse \<noteq> [] then refuse_or_fail_closed P refuse peer tip_h target (Some blk)
     else bindM (portM (fk_expected_parent P tip_h)) (\<lambda>local_parent.
       let refuse2 = same_height_parent_refuse blk tip_h local_tip local_parent (fc_same_height_bind cfg) in
       if refuse2 \<noteq> [] then refuse_or_fail_closed P refuse2 peer tip_h target (Some blk)
       else reorg_to P cfg target peer hint sourced_peer blk tip_h)))"

definition body_gates ::
  "'w fork_ports \<Rightarrow> fork_config \<Rightarrow> string \<Rightarrow> string \<Rightarrow> fork_peer option \<Rightarrow> string \<Rightarrow> pydict \<Rightarrow> int \<Rightarrow>
     ('w, fork_outcome) fork_m" where
  "body_gates P cfg target peer hint sourced_peer blk local_h =
     bindM (portM (fk_tip_evidence P blk)) (\<lambda>tip_ev.
     if tip_ev \<noteq> [] then
       refuse_or_fail_closed P (if is_malicious_refuse tip_ev then tip_ev else ''tip_evidence_enforce_refuse'')
         peer local_h target (Some blk)
     else
       (let refuse = fetched_head_refuse target blk (fc_head_bind cfg) in
        if refuse \<noteq> [] then refuse_or_fail_closed P refuse peer local_h target (Some blk)
        else parent_binds P cfg target peer hint sourced_peer blk))"

definition fetch_and_reconcile ::
  "'w fork_ports \<Rightarrow> fork_config \<Rightarrow> string \<Rightarrow> string \<Rightarrow> fork_peer option \<Rightarrow> int \<Rightarrow> ('w, fork_outcome) fork_m" where
  "fetch_and_reconcile P cfg target peer hint local_h =
     bindM (fetch_target_block P target hint) (\<lambda>r.
     case r of
       None \<Rightarrow>
         bindM (portM (fk_progress P (''Could not fetch head block '' @ short_target target @ '' for reconcile'')))
           (\<lambda>_. returnM (fo_fetch_failed local_h target))
     | Some (blk, sourced_peer) \<Rightarrow>
         body_gates P cfg target (if sourced_peer \<noteq> [] then sourced_peer else peer) hint sourced_peer blk local_h)"

definition run_to_head_inner ::
  "'w fork_ports \<Rightarrow> string \<Rightarrow> fork_peer option \<Rightarrow> fork_config \<Rightarrow> bool \<Rightarrow> ('w, fork_outcome) fork_m" where
  "run_to_head_inner P target_head hint cfg ghost_probe =
     bindM (portM (fk_height P)) (\<lambda>local_h.
     let target = py_strip target_head; peer = (case hint of None \<Rightarrow> [] | Some p \<Rightarrow> fp_id p) in
     if target = [] then returnM (fo_refused ''empty_target_head'' local_h [] [])
     else bindM (portM (fk_head P)) (\<lambda>hd'.
       let local_head = py_strip hd' in
       if local_head \<noteq> [] \<and> same_ci local_head target then
         returnM (fo_skipped local_h target ''already_at_head'')
       else bindM (if ghost_probe then portM (fk_ghost_probe P target hint) else returnM []) (\<lambda>refuse.
         if refuse \<noteq> [] then refuse_or_fail_closed P refuse peer local_h target None
         else fetch_and_reconcile P cfg target peer hint local_h)))"

section \<open>Reconciling at the same height\<close>

text \<open>The part of \<open>_run_same_height_inner\<close> after the GHOST attempt.\<close>

definition same_height_peer ::
  "'w fork_ports \<Rightarrow> fork_peer \<Rightarrow> fork_config \<Rightarrow> int \<Rightarrow> string \<Rightarrow> ('w, fork_outcome) fork_m" where
  "same_height_peer P peer cfg local_h local_head =
     (let peer_head = py_strip (fp_head peer) in
      if peer_head = [] \<or> (local_head \<noteq> [] \<and> same_ci peer_head local_head) then
        returnM (fo_skipped local_h (str_or peer_head local_head) ''same_head'')
      else
        bindM (if fc_fork_probe cfg then portM (fk_fork_probe P peer) else returnM []) (\<lambda>refuse.
        if refuse \<noteq> [] then refuse_or_fail_closed P refuse (fp_id peer) local_h peer_head None
        else
          bindM (portM (fk_progress P (''Fork at #'' @ py_str_int (fp_height peer) @ '': local=''
                   @ take 12 local_head @ '' peer='' @ take 12 peer_head))) (\<lambda>_.
          run_to_head_inner P peer_head (Some peer) cfg False)))"

definition run_same_height_inner ::
  "'w fork_ports \<Rightarrow> fork_peer \<Rightarrow> fork_config \<Rightarrow> ('w, fork_outcome) fork_m" where
  "run_same_height_inner P peer cfg =
     bindM (portM (fk_height P)) (\<lambda>local_h.
     bindM (portM (fk_head P)) (\<lambda>hd'.
     let local_head = py_strip hd' in
     bindM (if fc_prefer_ghost cfg then portM (fk_ghost_head P) else returnM []) (\<lambda>g.
     let ghost = py_strip g in
     if ghost \<noteq> [] \<and> \<not> same_ci ghost local_head then
       bindM (run_to_head_inner P ghost (Some peer) cfg (fc_ghost_probe cfg)) (\<lambda>out.
       if fo_status out = FS_Complete then returnM out
       else same_height_peer P peer cfg local_h local_head)
     else same_height_peer P peer cfg local_h local_head)))"

text \<open>
  The public methods: the deliberate exception passes, any other becomes an error outcome, which
  reads the height again (and may raise from there).
\<close>

definition guard_errors :: "'w fork_ports \<Rightarrow> string \<Rightarrow> ('w, fork_outcome) fork_m \<Rightarrow> ('w, fork_outcome) fork_m" where
  "guard_errors P target m =
     catchM m (\<lambda>e. case e of
       ForkMalicious out ev \<Rightarrow> raiseM e
     | ForkPort msg \<Rightarrow>
         bindM (portM (fk_height P)) (\<lambda>h. returnM (fo_error ''fork_reconcile_exception'' h target msg)))"

definition run_same_height :: "'w fork_ports \<Rightarrow> fork_peer \<Rightarrow> fork_config \<Rightarrow> ('w, fork_outcome) fork_m" where
  "run_same_height P peer cfg = guard_errors P (fp_head peer) (run_same_height_inner P peer cfg)"

definition run_to_head ::
  "'w fork_ports \<Rightarrow> string \<Rightarrow> fork_peer option \<Rightarrow> fork_config \<Rightarrow> bool \<Rightarrow> ('w, fork_outcome) fork_m" where
  "run_to_head P target hint cfg ghost_probe =
     guard_errors P target (run_to_head_inner P (py_strip target) hint cfg ghost_probe)"

end
