(* ===== verification/ForkLaws.thy ===== *)
theory ForkLaws
  imports Fork
begin

text \<open>
  The contract between the fork service and its ports (the locale \<open>fork_laws\<close>): the chain is a view
  \<open>cv\<close> of the world that only \<open>reorg_and_import\<close> changes, and the chain reads are functions of it. The
  service's lemmas under this contract say what a call may do to the chain: nothing, or a single
  reorganisation to a block that passed every gate.
\<close>

section \<open>What a call may do to the chain\<close>

text \<open>The reads of the chain port on a chain \<open>c\<close>.\<close>

record 'c chain_view =
  cvw_height :: "'c \<Rightarrow> string + int"
  cvw_head :: "'c \<Rightarrow> string + string"
  cvw_parent :: "int \<Rightarrow> 'c \<Rightarrow> string + string"
  cvw_ancestor :: "string \<Rightarrow> 'c \<Rightarrow> string + int option"

text \<open>Block \<open>blk\<close> may be imported on chain \<open>c\<close> for \<open>target\<close>, after a rollback to \<open>r\<close>.\<close>

definition reorg_allowed ::
  "'c chain_view \<Rightarrow> fork_config \<Rightarrow> string \<Rightarrow> 'c \<Rightarrow> pydict \<Rightarrow> int \<Rightarrow> bool" where
  "reorg_allowed V cfg target c blk r \<longleftrightarrow>
     fetched_head_refuse target blk (fc_head_bind cfg) = []
     \<and> (\<exists>h tip parent a. cvw_height V c = Inr h \<and> cvw_head V c = Inr tip \<and> cvw_parent V h c = Inr parent
          \<and> contiguous_parent_refuse blk h tip (fc_contiguous_bind cfg) = []
          \<and> same_height_parent_refuse blk h tip parent (fc_same_height_bind cfg) = []
          \<and> cvw_ancestor V (pget_str blk ''parent_hash'') c = Inr (Some a)
          \<and> r = min a (fork_block_height blk 0 - 1))"

text \<open>A finished call for \<open>target\<close> has the target as its head, as far as the head can be read.\<close>

definition head_matches :: "'c chain_view \<Rightarrow> fork_config \<Rightarrow> string \<Rightarrow> 'c \<Rightarrow> bool" where
  "head_matches V cfg target c \<longleftrightarrow>
     (\<exists>tip. cvw_head V c = Inr tip \<and> tip_head_refuse target tip (fc_tip_bind cfg) = [])"

locale fork_laws =
  fixes P :: "'w fork_ports" and V :: "'c chain_view" and cv :: "'w \<Rightarrow> 'c"
    and import :: "int \<Rightarrow> pydict \<Rightarrow> 'c \<Rightarrow> 'c set"
  assumes height_read: "fst (fk_height P w) = cvw_height V (cv w) \<and> cv (snd (fk_height P w)) = cv w"
    and head_read: "fst (fk_head P w) = cvw_head V (cv w) \<and> cv (snd (fk_head P w)) = cv w"
    and parent_read: "fst (fk_expected_parent P n w) = cvw_parent V n (cv w) \<and> cv (snd (fk_expected_parent P n w)) = cv w"
    and ancestor_read: "fst (fk_find_ancestor P p w) = cvw_ancestor V p (cv w) \<and> cv (snd (fk_find_ancestor P p w)) = cv w"
    and fetch_keeps: "cv (snd (fk_fetch P p h w)) = cv w"
    and fork_probe_keeps: "cv (snd (fk_fork_probe P q w)) = cv w"
    and ghost_probe_keeps: "cv (snd (fk_ghost_probe P h ho w)) = cv w"
    and bump_keeps: "cv (snd (fk_bump P reason w)) = cv w"
    and set_tip_keeps: "cv (snd (fk_set_tip P p n h w)) = cv w"
    and ghost_head_keeps: "cv (snd (fk_ghost_head P w)) = cv w"
    and peers_keeps: "cv (snd (fk_peers_for_head P h w)) = cv w"
    and all_peers_keeps: "cv (snd (fk_all_peers P w)) = cv w"
    and note_risk_keeps: "cv (snd (fk_note_risk P w)) = cv w"
    and progress_keeps: "cv (snd (fk_progress P msg w)) = cv w"
    and tip_evidence_keeps: "cv (snd (fk_tip_evidence P blk w)) = cv w"
    and note_attempt_keeps: "cv (snd (fk_note_attempt P p reason w)) = cv w"
    and emit_keeps: "cv (snd (fk_emit P ev w)) = cv w"
    and strike_keeps: "cv (snd (fk_strike P p reason w)) = cv w"
    and reorg_imports: "cv (snd (fk_reorg_import P r blk w)) \<in> import r blk (cv w)"
begin

lemmas keeps = fetch_keeps fork_probe_keeps ghost_probe_keeps bump_keeps set_tip_keeps ghost_head_keeps
  peers_keeps all_peers_keeps note_risk_keeps progress_keeps tip_evidence_keeps note_attempt_keeps
  emit_keeps strike_keeps

text \<open>The chains a call for \<open>target\<close> may leave behind, starting on \<open>c\<close>.\<close>

definition reach :: "fork_config \<Rightarrow> string \<Rightarrow> 'c \<Rightarrow> 'c set" where
  "reach cfg target c = insert c (\<Union>{import r blk c | r blk. reorg_allowed V cfg target c blk r})"

lemma keep_port:
  assumes "\<And>w. cv (snd (m w)) = cv w" and "cv s = c"
    and "\<And>a t. cv t = c \<Longrightarrow> Q a t" and "\<And>e t. cv t = c \<Longrightarrow> E (ForkPort e) t"
  shows "wpM (portM m) Q E s"
proof -
  obtain r t where m: "m s = (r, t)" by fastforce
  with assms(1) [of s] assms(2) have "cv t = c" by simp
  with m assms(3,4) show ?thesis
    by (cases r) (simp_all add: wpM_def portM_def catchM_def raiseM_def)
qed

lemma read_port:
  assumes "\<And>w. fst (m w) = g (cv w) \<and> cv (snd (m w)) = cv w" and "cv s = c"
    and "\<And>a t. cv t = c \<Longrightarrow> g c = Inr a \<Longrightarrow> Q a t" and "\<And>e t. cv t = c \<Longrightarrow> E (ForkPort e) t"
  shows "wpM (portM m) Q E s"
proof -
  obtain r t where m: "m s = (r, t)" by fastforce
  with assms(1) [of s] assms(2) have "cv t = c" "g c = r" by auto
  with m assms(3,4) show ?thesis
    by (cases r) (simp_all add: wpM_def portM_def catchM_def raiseM_def)
qed

lemmas port_rules = keeps [THEN keep_port]
  read_port [where m = "fk_height P" and g = "cvw_height V", OF height_read]
  read_port [where m = "fk_head P" and g = "cvw_head V", OF head_read]
  read_port [where m = "fk_expected_parent P h" and g = "cvw_parent V h" for h, OF parent_read]
  read_port [where m = "fk_find_ancestor P p" and g = "cvw_ancestor V p" for p, OF ancestor_read]

lemmas port_here = port_rules [OF refl]

text \<open>A refusal leaves the chain alone and is not complete.\<close>

lemma escalate_keeps:
  "cv s = c \<Longrightarrow> wpM (fork_escalate P r peer) (\<lambda>_ t. cv t = c) (\<lambda>_ t. cv t = c) s"
  unfolding fork_escalate_def Let_def by (auto simp: wp_rules intro!: port_rules)

lemma fail_closed_keeps:
  assumes "cv s = c"
  shows "wpM (fork_fail_closed P reason peer h target block detail) (\<lambda>_ _. False) (\<lambda>_ t. cv t = c) s"
  unfolding fork_fail_closed_def wp_bind
  by (rule wp_mono [OF escalate_keeps [OF assms]]) (auto simp: Let_def wp_rules intro!: port_rules)

lemma refuse_keeps:
  assumes "cv s = c"
  shows "wpM (refuse_or_fail_closed P reason peer h target block)
     (\<lambda>out t. fo_status out \<noteq> FS_Complete \<and> cv t = c) (\<lambda>_ t. cv t = c) s"
  unfolding refuse_or_fail_closed_def wp_if using assms
  by (auto simp: wp_rules fo_refused_def intro!: port_rules intro: wp_mono [OF fail_closed_keeps])

lemma fetch_loop_keeps:
  "cv s = c \<Longrightarrow> wpM (fetch_loop P target ps tried) (\<lambda>_ t. cv t = c) (\<lambda>_ t. cv t = c) s"
proof (induction ps arbitrary: tried s)
  case Nil
  then show ?case by (simp add: wp_rules)
next
  case (Cons p ps)
  then show ?case by (auto simp: wp_rules intro!: port_rules split: option.split)
qed

lemma fetch_target_keeps:
  "cv s = c \<Longrightarrow> wpM (fetch_target_block P target hint) (\<lambda>_ t. cv t = c) (\<lambda>_ t. cv t = c) s"
  unfolding fetch_target_block_def Let_def
  by (auto simp: wp_rules intro!: port_rules fetch_loop_keeps)

text \<open>After a successful import the chain stays, and completing needs the head to match.\<close>

lemma after_import_keeps:
  assumes "cv s = c"
  shows "wpM (after_import P cfg target peer hint src blk bh)
     (\<lambda>out t. (fo_status out = FS_Complete \<longrightarrow> head_matches V cfg target c) \<and> cv t = c) (\<lambda>_ t. cv t = c) s"
  unfolding after_import_def Let_def using assms
  by (auto simp: wp_rules head_matches_def fo_complete_def intro!: port_rules intro: wp_mono [OF refuse_keeps])

lemma reorg_port:
  assumes "cv s = c"
    and "\<And>a t. cv t \<in> import r blk c \<Longrightarrow> Q a t" and "\<And>e t. cv t \<in> import r blk c \<Longrightarrow> E (ForkPort e) t"
  shows "wpM (portM (fk_reorg_import P r blk)) Q E s"
proof -
  obtain x t where m: "fk_reorg_import P r blk s = (x, t)" by fastforce
  with reorg_imports [of r blk s] assms(1) have "cv t \<in> import r blk c" by simp
  with m assms(2,3) show ?thesis
    by (cases x) (simp_all add: wpM_def portM_def catchM_def raiseM_def)
qed

text \<open>The postcondition of a reconcile call that started on \<open>c\<close>.\<close>

definition reconciled :: "fork_config \<Rightarrow> string \<Rightarrow> 'c \<Rightarrow> fork_outcome \<Rightarrow> 'w \<Rightarrow> bool" where
  "reconciled cfg target c out t \<longleftrightarrow> cv t \<in> reach cfg target c
     \<and> (fo_status out = FS_Complete \<longrightarrow> head_matches V cfg target (cv t))"

lemma reach_self [simp]: "c \<in> reach cfg target c"
  by (simp add: reach_def)

lemma reconciled_open: "cv t \<in> reach cfg target c \<Longrightarrow> fo_status out \<noteq> FS_Complete \<Longrightarrow> reconciled cfg target c out t"
  by (simp add: reconciled_def)

lemma refuse_reconciled:
  "cv s = c \<Longrightarrow> wpM (refuse_or_fail_closed P reason peer h target' block)
     (reconciled cfg target c) (\<lambda>_ t. cv t \<in> reach cfg target c) s"
  by (rule wp_mono [OF refuse_keeps]) (auto simp: reconciled_def)

lemma reorg_to_reconciled:
  assumes "cv s = c" and "fetched_head_refuse target blk (fc_head_bind cfg) = []"
    and "cvw_height V c = Inr h" "cvw_head V c = Inr tip" "cvw_parent V h c = Inr parent"
    and "contiguous_parent_refuse blk h tip (fc_contiguous_bind cfg) = []"
    and "same_height_parent_refuse blk h tip parent (fc_same_height_bind cfg) = []"
  shows "wpM (reorg_to P cfg target peer hint src blk h) (reconciled cfg target c)
     (\<lambda>_ t. cv t \<in> reach cfg target c) s"
proof -
  have R: "c' \<in> reach cfg target c"
    if "cvw_ancestor V (pget_str blk ''parent_hash'') c = Inr (Some a)" "c' \<in> import (min a (fork_block_height blk 0 - 1)) blk c" for a c'
    using that assms(2-) by (fastforce simp: reach_def reorg_allowed_def)
  have A: "wpM (after_import P cfg target peer hint src blk bh) (reconciled cfg target c)
      (\<lambda>_ t. cv t \<in> reach cfg target c) t" if "cv t \<in> reach cfg target c" for bh t
    by (rule wp_mono [OF after_import_keeps [OF refl]]) (use that in \<open>auto simp: reconciled_def\<close>)
  show ?thesis
    unfolding reorg_to_def Let_def assms(1) [symmetric]
    by (auto simp: wp_rules fo_no_ancestor_def fo_import_failed_def intro!: port_here reorg_port [OF refl]
        A [unfolded assms(1) [symmetric]] reconciled_open split: option.split)
      (blast intro: R [unfolded assms(1) [symmetric]])+
qed

lemma parent_binds_reconciled:
  assumes "cv s = c" and "fetched_head_refuse target blk (fc_head_bind cfg) = []"
  shows "wpM (parent_binds P cfg target peer hint src blk) (reconciled cfg target c)
     (\<lambda>_ t. cv t \<in> reach cfg target c) s"
  unfolding parent_binds_def Let_def using assms
  by (auto simp: wp_rules intro!: port_rules refuse_reconciled intro: reorg_to_reconciled)

lemma body_gates_reconciled:
  "cv s = c \<Longrightarrow> wpM (body_gates P cfg target peer hint src blk h) (reconciled cfg target c)
     (\<lambda>_ t. cv t \<in> reach cfg target c) s"
  unfolding body_gates_def Let_def
  by (auto simp: wp_rules intro!: port_rules refuse_reconciled parent_binds_reconciled)

lemma fetch_and_reconcile_reconciled:
  assumes "cv s = c"
  shows "wpM (fetch_and_reconcile P cfg target peer hint h) (reconciled cfg target c)
     (\<lambda>_ t. cv t \<in> reach cfg target c) s"
  unfolding fetch_and_reconcile_def wp_bind
  by (rule wp_mono [OF fetch_target_keeps [OF assms]])
     (auto simp: wp_rules fo_fetch_failed_def
       intro!: port_rules body_gates_reconciled reconciled_open split: option.split)

lemma run_to_head_inner_reconciled:
  assumes "cv s = c"
  shows "wpM (run_to_head_inner P target hint cfg gp) (reconciled cfg (py_strip target) c)
     (\<lambda>_ t. cv t \<in> reach cfg (py_strip target) c) s"
  unfolding run_to_head_inner_def Let_def using assms
  by (auto simp: wp_rules fo_refused_def fo_skipped_def
      intro!: port_rules refuse_reconciled reconciled_open fetch_and_reconcile_reconciled)

lemma guard_errors_reach:
  assumes "wpM m Q (\<lambda>_ t. cv t \<in> S) s"
    and "\<And>h target msg t. cv t \<in> S \<Longrightarrow> Q (fo_error ''fork_reconcile_exception'' h target msg) t"
  shows "wpM (guard_errors P target m) Q (\<lambda>_ t. cv t \<in> S) s"
  unfolding guard_errors_def wp_catch
  by (rule wp_mono [OF assms(1)]) (auto simp: wp_rules intro!: port_rules assms(2) split: fork_exc.split)

lemma run_to_head_reconciled:
  "wpM (run_to_head P target hint cfg gp) (reconciled cfg (py_strip target) (cv s))
     (\<lambda>_ t. cv t \<in> reach cfg (py_strip target) (cv s)) s"
  unfolding run_to_head_def
  by (rule guard_errors_reach) (use run_to_head_inner_reconciled [OF refl, of "py_strip target"] in
      \<open>auto simp: reconciled_def fo_error_def\<close>)

text \<open>At the same height: the GHOST head may be tried first, then the peer's head.\<close>

definition reach_same :: "fork_config \<Rightarrow> string \<Rightarrow> 'c \<Rightarrow> 'c set" where
  "reach_same cfg target c = (\<Union>c1\<in>insert c (\<Union>ghost. reach cfg ghost c). reach cfg target c1)"

definition same_height_post :: "fork_config \<Rightarrow> string \<Rightarrow> 'c \<Rightarrow> fork_outcome \<Rightarrow> 'w \<Rightarrow> bool" where
  "same_height_post cfg target c out t \<longleftrightarrow> cv t \<in> reach_same cfg target c
     \<and> (fo_status out = FS_Complete \<longrightarrow> (\<exists>h. h \<noteq> [] \<and> head_matches V cfg h (cv t)))"

lemma reach_same_first: "c1 \<in> reach cfg ghost c \<Longrightarrow> c1 \<in> reach_same cfg target c"
  unfolding reach_same_def using reach_self by blast

lemma reach_same_second:
  "c1 = c \<or> c1 \<in> reach cfg ghost c \<Longrightarrow> c2 \<in> reach cfg target c1 \<Longrightarrow> c2 \<in> reach_same cfg target c"
  unfolding reach_same_def by blast

lemma same_height_open:
  "cv t \<in> reach_same cfg target c \<Longrightarrow> fo_status out \<noteq> FS_Complete \<Longrightarrow> same_height_post cfg target c out t"
  by (simp add: same_height_post_def)

lemma same_height_peer_post:
  assumes "cv s = c \<or> (\<exists>ghost. cv s \<in> reach cfg ghost c)"
  shows "wpM (same_height_peer P peer cfg h lh) (same_height_post cfg (py_strip (fp_head peer)) c)
     (\<lambda>_ t. cv t \<in> reach_same cfg (py_strip (fp_head peer)) c) s"
proof -
  let ?T = "py_strip (fp_head peer)"
  have into: "c2 \<in> reach_same cfg ?T c" if "c2 \<in> reach cfg ?T (cv s)" for c2
    using that assms reach_same_second by blast
  have self: "cv s \<in> reach_same cfg T c" for T
    using assms reach_same_first [OF reach_self] reach_same_first by blast
  have ref: "wpM (refuse_or_fail_closed P reason pid k tg None) (same_height_post cfg ?T c)
      (\<lambda>_ t. cv t \<in> reach_same cfg ?T c) t" if "cv t = cv s" for reason pid k tg t
    by (rule wp_mono [OF refuse_keeps [OF that]]) (auto simp: same_height_post_def self)
  have run: "wpM (run_to_head_inner P ?T (Some peer) cfg False) (same_height_post cfg ?T c)
      (\<lambda>_ t. cv t \<in> reach_same cfg ?T c) t" if "cv t = cv s" "?T \<noteq> []" for t
    by (rule wp_mono [OF run_to_head_inner_reconciled [OF that(1)]])
       (use that(2) in \<open>auto simp: same_height_post_def reconciled_def intro: into\<close>)
  show ?thesis
    unfolding same_height_peer_def Let_def
    by (auto simp: wp_rules fo_skipped_def self intro!: port_here ref run same_height_open)
qed

lemma run_same_height_inner_post:
  "wpM (run_same_height_inner P peer cfg) (same_height_post cfg (py_strip (fp_head peer)) (cv s))
     (\<lambda>_ t. cv t \<in> reach_same cfg (py_strip (fp_head peer)) (cv s)) s"
proof -
  let ?T = "py_strip (fp_head peer)"
  have tail: "wpM (same_height_peer P peer cfg h lh) (same_height_post cfg ?T (cv s))
      (\<lambda>_ t. cv t \<in> reach_same cfg ?T (cv s)) t" if "cv t = cv s \<or> (\<exists>g. cv t \<in> reach cfg g (cv s))" for h lh t
    using that by (rule same_height_peer_post)
  have self: "cv s \<in> reach_same cfg ?T (cv s)" by (rule reach_same_first [OF reach_self])
  have ghost: "wpM (run_to_head_inner P (py_strip g) (Some peer) cfg gp) Q E t"
    if "cv t = cv s" and "\<And>out u. reconciled cfg (py_strip g) (cv s) out u \<Longrightarrow> Q out u"
      and "\<And>e u. cv u \<in> reach cfg (py_strip g) (cv s) \<Longrightarrow> E e u" for g gp t Q E
    using run_to_head_inner_reconciled [OF that(1), of "py_strip g" "Some peer" cfg gp]
    by (rule wp_mono) (use that(2,3) in auto)
  show ?thesis
    unfolding run_same_height_inner_def Let_def
    by (auto simp: wp_rules self same_height_post_def [of _ _ "cv s"] reconciled_def
        intro!: port_here tail ghost intro: reach_same_first)
qed

lemma run_same_height_post:
  "wpM (run_same_height P peer cfg) (same_height_post cfg (py_strip (fp_head peer)) (cv s))
     (\<lambda>_ t. cv t \<in> reach_same cfg (py_strip (fp_head peer)) (cv s)) s"
  unfolding run_same_height_def
  by (rule guard_errors_reach)
     (use run_same_height_inner_post in \<open>auto simp: same_height_post_def fo_error_def\<close>)

end

end
