(* ===== verification/ForkAdapters.thy ===== *)
theory ForkAdapters
  imports ForkLaws
begin

text \<open>
  The adapters of \<open>network/fork_adapters.py\<close> that put the P2P node behind the fork ports. The node is
  the record \<open>fork_node\<close>: the chain it holds, the rest of the node as an external state \<open>'x\<close>, and the
  fields the adapters themselves keep or write. The blockchain, the network solicits and the
  node methods called are outside this component: \<open>node_ops\<close> gives each as an operation that may raise
  (left) and, for a reorganisation, changes the chain. A block dictionary is copied unchanged, and the
  coroutine and its thread-safe wait are the operation they wait for.
\<close>

section \<open>The node\<close>

record fork_tip =
  ft_height :: int
  ft_head :: string

record ('c, 'x) fork_node =
  fn_chain :: 'c
  fn_ext :: 'x
  fn_peer_ids :: "string list"
  fn_bound :: string
  fn_known :: "string list"
  fn_tips :: "(string \<times> fork_tip) list"
  fn_attempts :: "(string \<times> int) list"
  fn_log :: "fork_evidence list"
  fn_last :: "fork_evidence option"
  fn_bus :: "fork_evidence list option"
  fn_totals :: "(string \<times> int) list"

record ('c, 'x) node_ops =
  no_height :: "'c \<Rightarrow> string + int"
  no_head :: "'c \<Rightarrow> string + string"
  no_parent :: "int \<Rightarrow> 'c \<Rightarrow> string + string"
  no_ancestor :: "(string \<Rightarrow> 'c \<Rightarrow> string + int option) option"
  no_reorg_async :: "(int \<Rightarrow> pydict \<Rightarrow> 'c \<Rightarrow> (string + bool) \<times> 'c) option"
  no_reorg_sync :: "int \<Rightarrow> pydict \<Rightarrow> 'c \<Rightarrow> (string + bool) \<times> 'c"
  no_request :: "string \<Rightarrow> string \<Rightarrow> 'x \<Rightarrow> (string + pydict option) \<times> 'x"
  no_fork_probe :: "string \<Rightarrow> 'x \<Rightarrow> (string + string) \<times> 'x"
  no_ghost_probe :: "string \<Rightarrow> string \<Rightarrow> 'x \<Rightarrow> (string + string) \<times> 'x"
  no_bump_fork :: "string \<Rightarrow> 'x \<Rightarrow> 'x"
  no_bump_ghost :: "string \<Rightarrow> 'x \<Rightarrow> 'x"
  no_counter :: "string \<Rightarrow> 'x \<Rightarrow> 'x"
  no_ghost_head :: "'c \<Rightarrow> 'x \<Rightarrow> string + string"
  no_risk :: "int list \<Rightarrow> 'x \<Rightarrow> 'x"
  no_progress :: "string \<Rightarrow> 'x \<Rightarrow> 'x"
  no_tip_evidence :: "pydict \<Rightarrow> 'c \<Rightarrow> 'x \<Rightarrow> string + string"
  no_strike :: "string \<Rightarrow> string \<Rightarrow> 'x \<Rightarrow> (string + bool) \<times> 'x"
  no_remove :: "string \<Rightarrow> 'x \<Rightarrow> 'x"

section \<open>ForkReconcileP2PChainAdapter\<close>

definition lift_read :: "('s \<Rightarrow> string + 'a) \<Rightarrow> ('s, 'a) port" where
  "lift_read f s = (f s, s)"

text \<open>A read whose exception is logged and replaced by a default.\<close>

definition read_or :: "'a \<Rightarrow> ('s \<Rightarrow> string + 'a) \<Rightarrow> ('s, 'a) port" where
  "read_or d f s = (Inr (case f s of Inl e \<Rightarrow> d | Inr a \<Rightarrow> a), s)"

definition fad_height :: "('c, 'x) node_ops \<Rightarrow> (('c, 'x) fork_node, int) port" where
  "fad_height N = lift_read (\<lambda>s. no_height N (fn_chain s))"

definition fad_head :: "('c, 'x) node_ops \<Rightarrow> (('c, 'x) fork_node, string) port" where
  "fad_head N = read_or [] (\<lambda>s. no_head N (fn_chain s))"

definition fad_expected_parent :: "('c, 'x) node_ops \<Rightarrow> int \<Rightarrow> (('c, 'x) fork_node, string) port" where
  "fad_expected_parent N h = read_or (replicate 64 (CHR ''0'')) (\<lambda>s. no_parent N h (fn_chain s))"

definition fad_find_ancestor ::
  "('c, 'x) node_ops \<Rightarrow> string \<Rightarrow> (('c, 'x) fork_node, int option) port" where
  "fad_find_ancestor N p =
     (case no_ancestor N of None \<Rightarrow> returnM None
      | Some f \<Rightarrow> read_or None (\<lambda>s. f p (fn_chain s)))"

text \<open>
  The asynchronous path when there is a loop, and the synchronous one as the fallback when that
  raised, on the chain as the first attempt left it.
\<close>

definition reorg_chain :: "('c, 'x) node_ops \<Rightarrow> int \<Rightarrow> pydict \<Rightarrow> 'c \<Rightarrow> bool \<times> 'c" where
  "reorg_chain N r blk c =
     (let sync = (\<lambda>c. case no_reorg_sync N r blk c of (Inl e, c') \<Rightarrow> (False, c') | (Inr b, c') \<Rightarrow> (b, c'))
      in case no_reorg_async N of
           None \<Rightarrow> sync c
         | Some f \<Rightarrow> (case f r blk c of (Inr b, c') \<Rightarrow> (b, c') | (Inl e, c') \<Rightarrow> sync c'))"

definition fad_reorg_import ::
  "('c, 'x) node_ops \<Rightarrow> int \<Rightarrow> pydict \<Rightarrow> (('c, 'x) fork_node, bool) port" where
  "fad_reorg_import N r blk s =
     (let (ok, c) = reorg_chain N r blk (fn_chain s) in (Inr ok, s\<lparr>fn_chain := c\<rparr>))"

section \<open>ForkReconcileP2PFetchAdapter and ForkReconcileP2PProbeAdapter\<close>

definition fad_fetch ::
  "('c, 'x) node_ops \<Rightarrow> string \<Rightarrow> string \<Rightarrow> (('c, 'x) fork_node, pydict option) port" where
  "fad_fetch N p h s =
     (if p \<notin> set (fn_known s) then (Inr None, s)
      else if py_strip h = [] then (Inr None, s)
      else (let (r, x) = no_request N p (py_strip h) (fn_ext s)
            in (Inr (case r of Inl e \<Rightarrow> None | Inr b \<Rightarrow> b), s\<lparr>fn_ext := x\<rparr>)))"

definition probe_result_or :: "string + string \<Rightarrow> string" where
  "probe_result_or r = (case r of Inl e \<Rightarrow> ''fork_probe_adapter_error'' | Inr s \<Rightarrow> s)"

definition fad_fork_probe ::
  "('c, 'x) node_ops \<Rightarrow> fork_peer \<Rightarrow> (('c, 'x) fork_node, string) port" where
  "fad_fork_probe N p s =
     (let (r, x) = no_fork_probe N (fn_bound s) (fn_ext s) in (Inr (probe_result_or r), s\<lparr>fn_ext := x\<rparr>))"

definition fad_ghost_probe ::
  "('c, 'x) node_ops \<Rightarrow> string \<Rightarrow> fork_peer option \<Rightarrow> (('c, 'x) fork_node, string) port" where
  "fad_ghost_probe N h hint s =
     (let (r, x) = no_ghost_probe N h (fn_bound s) (fn_ext s)
      in (Inr (probe_result_or r), s\<lparr>fn_ext := x\<rparr>))"

section \<open>ForkReconcileP2PSideEffectAdapter\<close>

definition bump_total :: "string \<Rightarrow> ('c, 'x) fork_node \<Rightarrow> ('c, 'x) fork_node" where
  "bump_total name s = s\<lparr>fn_totals := dset name (dget_or (fn_totals s) name 0 + 1) (fn_totals s)\<rparr>"

definition starts_with :: "string \<Rightarrow> string \<Rightarrow> bool" where
  "starts_with pre s = (take (length pre) s = pre)"

definition fad_bump :: "('c, 'x) node_ops \<Rightarrow> string \<Rightarrow> (('c, 'x) fork_node, unit) port" where
  "fad_bump N r s =
     (let ext = (\<lambda>f s. s\<lparr>fn_ext := f (fn_ext s)\<rparr>);
          s1 = (if starts_with ''fork_'' r then
                  (let t = ext (no_bump_fork N r) s
                   in if r = ''fork_same_height_spam'' then ext (no_counter N ''fork_same_height_spam_total'') t else t)
                else if starts_with ''ghost_'' r then ext (no_bump_ghost N r) s
                else if r = ''reconcile_head_hash_mismatch'' then
                  bump_total ''_reconcile_head_hash_mismatch_total'' s
                else if r = ''reconcile_contiguous_parent_mismatch'' then
                  bump_total ''_reconcile_contiguous_parent_mismatch_total'' s
                else if r = ''reconcile_same_height_parent_mismatch'' then
                  bump_total ''_reconcile_same_height_parent_mismatch_total'' s
                else if r = ''reconcile_tip_head_mismatch'' then
                  bump_total ''_reconcile_tip_head_mismatch_total'' s
                else if r = ''tip_evidence_enforce_refuse'' then
                  ext (no_counter N ''dispatch_tip_evidence_refuse_total'') s
                else s)
      in (Inr (), ext (no_counter N (''fork_refuse_'' @ r @ ''_total'')) s1))"

definition fad_set_tip :: "string \<Rightarrow> int \<Rightarrow> string \<Rightarrow> (('c, 'x) fork_node, unit) port" where
  "fad_set_tip p h hd' s =
     (if p = fn_bound s \<or> p \<in> set (fn_peer_ids s)
      then (Inr (), s\<lparr>fn_tips := dset p \<lparr>ft_height = h, ft_head = hd'\<rparr> (fn_tips s)\<rparr>)
      else (Inr (), s))"

definition fad_ghost_head :: "('c, 'x) node_ops \<Rightarrow> (('c, 'x) fork_node, string) port" where
  "fad_ghost_head N = read_or [] (\<lambda>s. no_ghost_head N (fn_chain s) (fn_ext s))"

definition tip_of :: "('c, 'x) fork_node \<Rightarrow> string \<Rightarrow> fork_tip" where
  "tip_of s p = dget_or (fn_tips s) p \<lparr>ft_height = 0, ft_head = []\<rparr>"

definition fad_peers_for_head :: "string \<Rightarrow> (('c, 'x) fork_node, string list) port" where
  "fad_peers_for_head h s =
     (let want = norm_hash h
      in (Inr (if want = [] then []
               else filter (\<lambda>p. let hd' = norm_hash (ft_head (tip_of s p)) in hd' \<noteq> [] \<and> hd' = want)
                      (fn_peer_ids s)), s))"

definition fad_all_peers :: "(('c, 'x) fork_node, string list) port" where
  "fad_all_peers s = (Inr (fn_peer_ids s), s)"

definition fad_note_risk :: "('c, 'x) node_ops \<Rightarrow> (('c, 'x) fork_node, unit) port" where
  "fad_note_risk N s =
     (Inr (), s\<lparr>fn_ext := no_risk N (map (\<lambda>p. ft_height (tip_of s p)) (fn_peer_ids s)) (fn_ext s)\<rparr>)"

definition fad_progress :: "('c, 'x) node_ops \<Rightarrow> string \<Rightarrow> (('c, 'x) fork_node, unit) port" where
  "fad_progress N msg s = (Inr (), s\<lparr>fn_ext := no_progress N msg (fn_ext s)\<rparr>)"

text \<open>The decision of the evidence bridge, already reduced to its refuse reason by \<open>no_tip_evidence\<close>.\<close>

definition fad_tip_evidence :: "('c, 'x) node_ops \<Rightarrow> pydict \<Rightarrow> (('c, 'x) fork_node, string) port" where
  "fad_tip_evidence N blk = read_or [] (\<lambda>s. no_tip_evidence N blk (fn_chain s) (fn_ext s))"

definition fad_note_attempt :: "string \<Rightarrow> string \<Rightarrow> (('c, 'x) fork_node, int) port" where
  "fad_note_attempt p reason s =
     (let key = p @ '':'' @ reason;
          d1 = dset key (dget_or (fn_attempts s) key 0 + 1) (fn_attempts s);
          total' = dget_or d1 p 0 + 1
      in (Inr total', s\<lparr>fn_attempts := dset p total' d1\<rparr>))"

definition fad_emit :: "('c, 'x) node_ops \<Rightarrow> fork_evidence \<Rightarrow> (('c, 'x) fork_node, unit) port" where
  "fad_emit N ev s =
     (let s1 = s\<lparr>fn_log := fn_log s @ [ev]\<rparr>;
          s2 = s1\<lparr>fn_ext := no_counter N ''fork_security_evidence_total'' (fn_ext s1)\<rparr>;
          s3 = s2\<lparr>fn_last := Some ev\<rparr>
      in (Inr (), s3\<lparr>fn_bus := map_option (\<lambda>es. es @ [ev]) (fn_bus s3)\<rparr>))"

definition fad_strike :: "('c, 'x) node_ops \<Rightarrow> string \<Rightarrow> string \<Rightarrow> (('c, 'x) fork_node, unit) port" where
  "fad_strike N p reason s =
     (if p = fn_bound s \<or> p \<in> set (fn_peer_ids s) then
        (case no_strike N p (str_or reason ''fork_malicious'') (fn_ext s) of
           (Inl e, x) \<Rightarrow> (Inr (), s\<lparr>fn_ext := x\<rparr>)
         | (Inr banned, x) \<Rightarrow>
             (Inr (), s\<lparr>fn_ext := (if banned then no_remove N p x else x)\<rparr>))
      else (Inr (), s))"

definition fork_adapters :: "('c, 'x) node_ops \<Rightarrow> ('c, 'x) fork_node fork_ports" where
  "fork_adapters N = \<lparr>fk_height = fad_height N, fk_head = fad_head N,
     fk_expected_parent = fad_expected_parent N, fk_find_ancestor = fad_find_ancestor N,
     fk_reorg_import = fad_reorg_import N, fk_fetch = fad_fetch N, fk_fork_probe = fad_fork_probe N,
     fk_ghost_probe = fad_ghost_probe N, fk_bump = fad_bump N, fk_set_tip = fad_set_tip,
     fk_ghost_head = fad_ghost_head N, fk_peers_for_head = fad_peers_for_head,
     fk_all_peers = fad_all_peers, fk_note_risk = fad_note_risk N, fk_progress = fad_progress N,
     fk_tip_evidence = fad_tip_evidence N, fk_note_attempt = fad_note_attempt,
     fk_emit = fad_emit N, fk_strike = fad_strike N\<rparr>"

section \<open>The adapters meet the contract\<close>

definition node_view :: "('c, 'x) node_ops \<Rightarrow> 'c chain_view" where
  "node_view N = \<lparr>cvw_height = no_height N,
     cvw_head = (\<lambda>c. Inr (case no_head N c of Inl e \<Rightarrow> [] | Inr h \<Rightarrow> h)),
     cvw_parent = (\<lambda>n c. Inr (case no_parent N n c of Inl e \<Rightarrow> replicate 64 (CHR ''0'') | Inr h \<Rightarrow> h)),
     cvw_ancestor = (\<lambda>p c. case no_ancestor N of None \<Rightarrow> Inr None
        | Some f \<Rightarrow> Inr (case f p c of Inl e \<Rightarrow> None | Inr a \<Rightarrow> a))\<rparr>"

lemmas fad_defs = fad_height_def fad_head_def fad_expected_parent_def fad_find_ancestor_def
  fad_reorg_import_def fad_fetch_def fad_fork_probe_def fad_ghost_probe_def fad_set_tip_def
  fad_ghost_head_def fad_peers_for_head_def fad_all_peers_def fad_note_risk_def fad_progress_def
  fad_tip_evidence_def fad_note_attempt_def fad_emit_def fad_strike_def lift_read_def read_or_def

interpretation fork: fork_laws "fork_adapters N" "node_view N" fn_chain "\<lambda>r blk c. {snd (reorg_chain N r blk c)}"
  for N :: "('c, 'x) node_ops"
proof
  show "fn_chain (snd (fk_bump (fork_adapters N) reason w)) = fn_chain w" for reason w
    by (simp add: fork_adapters_def fad_bump_def bump_total_def Let_def)
qed (simp_all add: fork_adapters_def node_view_def fad_defs returnM_def Let_def split: prod.split sum.split option.split)

end
