(* ===== verification/ForkProps.thy ===== *)
theory ForkProps
  imports ForkAdapters
begin

text \<open>
  What fork reconciliation promises behind the node's adapters: the chain is only ever changed by a
  reorganisation to a block that passed every enabled gate at the tip, a completed call has the target
  as its head, and a hostile body is refused by an exception after its evidence and strike.
\<close>

section \<open>A concrete node\<close>

text \<open>A chain of block hashes, genesis first, one peer that serves the blocks of a competing branch.\<close>

definition chain_ops :: "(string list, unit) node_ops" where
  "chain_ops = \<lparr>no_height = (\<lambda>c. Inr (int (length c) - 1)), no_head = (\<lambda>c. Inr (last c)),
     no_parent = (\<lambda>h c. Inr (if 0 < h \<and> h \<le> int (length c) then c ! nat (h - 1) else [])),
     no_ancestor = Some (\<lambda>p c. Inr (if p \<in> set c then Some (int (length (takeWhile (\<lambda>x. x \<noteq> p) c))) else None)),
     no_reorg_async = None,
     no_reorg_sync = (\<lambda>r b c. (Inr True, take (nat (r + 1)) c @ [fork_block_hash b])),
     no_request = (\<lambda>p h x. (Inr (Some [(''hash'', PStr h), (''height'', PInt 2), (''parent_hash'', PStr ''b1'')]), x)),
     no_fork_probe = (\<lambda>p x. (Inr [], x)), no_ghost_probe = (\<lambda>h p x. (Inr [], x)),
     no_bump_fork = (\<lambda>r x. x), no_bump_ghost = (\<lambda>r x. x), no_counter = (\<lambda>r x. x),
     no_ghost_head = (\<lambda>c x. Inr []), no_risk = (\<lambda>hs x. x), no_progress = (\<lambda>m x. x),
     no_tip_evidence = (\<lambda>b c x. Inr []), no_strike = (\<lambda>p r x. (Inr True, x)), no_remove = (\<lambda>p x. x)\<rparr>"

definition demo_node :: "(string list, unit) fork_node" where
  "demo_node = \<lparr>fn_chain = [''g'', ''b1'', ''b2''], fn_ext = (), fn_peer_ids = [''p''], fn_bound = ''p'',
     fn_known = [''p''], fn_tips = [], fn_attempts = [], fn_log = [], fn_last = None, fn_bus = Some [],
     fn_totals = []\<rparr>"

definition demo_fork_peer :: fork_peer where
  "demo_fork_peer = \<lparr>fp_id = ''p'', fp_height = 2, fp_head = ''c2''\<rparr>"

section \<open>Refusing a hostile body\<close>

text \<open>The attempts of a peer, over all reasons, in the adapter's table.\<close>

definition attempts_of :: "('c, 'x) fork_node \<Rightarrow> string \<Rightarrow> int" where
  "attempts_of s p = dget_or (fn_attempts s) p 0"

lemma attempt_key [simp]: "p @ c # r \<noteq> p" "p \<noteq> p @ c # r"
  by simp_all

lemma note_attempt_total:
  "fad_note_attempt p reason s = (Inr n, t) \<Longrightarrow> n = attempts_of s p + 1 \<and> attempts_of t p = n \<and> fn_log t = fn_log s"
  by (auto simp: fad_note_attempt_def attempts_of_def Let_def)

lemma fad_bump_frame:
  "fst (fad_bump N r s) = Inr () \<and> fn_attempts (snd (fad_bump N r s)) = fn_attempts s
     \<and> fn_log (snd (fad_bump N r s)) = fn_log s \<and> fn_chain (snd (fad_bump N r s)) = fn_chain s"
  by (simp add: fad_bump_def bump_total_def Let_def)

lemma fad_emit_frame:
  "fst (fad_emit N ev s) = Inr () \<and> fn_log (snd (fad_emit N ev s)) = fn_log s @ [ev]
     \<and> fn_attempts (snd (fad_emit N ev s)) = fn_attempts s"
  by (simp add: fad_emit_def Let_def)

lemma fad_strike_frame:
  "fst (fad_strike N p r s) = Inr () \<and> fn_log (snd (fad_strike N p r s)) = fn_log s
     \<and> fn_attempts (snd (fad_strike N p r s)) = fn_attempts s"
  by (simp add: fad_strike_def split: sum.split prod.split)

lemma portM_return: "fst (m s) = Inr a \<Longrightarrow> wpM (portM m) Q E s = Q a (snd (m s))"
  by (cases "m s") (auto simp: wpM_def portM_def catchM_def)

text \<open>The attempt counters are not read by the side effects that follow them.\<close>

lemma attempts_commute:
  "snd (fad_bump N r (s\<lparr>fn_attempts := a\<rparr>)) = (snd (fad_bump N r s))\<lparr>fn_attempts := a\<rparr>"
  "snd (fad_emit N ev (s\<lparr>fn_attempts := a\<rparr>)) = (snd (fad_emit N ev s))\<lparr>fn_attempts := a\<rparr>"
  "snd (fad_strike N p r (s\<lparr>fn_attempts := a\<rparr>)) = (snd (fad_strike N p r s))\<lparr>fn_attempts := a\<rparr>"
  by (simp_all add: fad_bump_def fad_emit_def fad_strike_def bump_total_def Let_def split: prod.split sum.split)

definition counted :: "string \<Rightarrow> string \<Rightarrow> ('c, 'x) fork_node \<Rightarrow> (string \<times> int) list" where
  "counted p reason s = fn_attempts (snd (fad_note_attempt p reason s))"

lemma note_attempt_counts:
  "fad_note_attempt p reason s = (Inr (attempts_of s p + 1), s\<lparr>fn_attempts := counted p reason s\<rparr>)"
  "attempts_of (s\<lparr>fn_attempts := counted p reason u\<rparr>) p = attempts_of u p + 1"
  by (simp_all add: fad_note_attempt_def counted_def attempts_of_def Let_def)

text \<open>The evidence, the counters of the refusal, the strike and the removal of a banned peer, on the state with the raised
  attempt counter.\<close>

definition punished :: "('c, 'x) node_ops \<Rightarrow> string \<Rightarrow> fork_evidence \<Rightarrow> ('c, 'x) fork_node \<Rightarrow> ('c, 'x) fork_node" where
  "punished N p ev s = snd (fad_strike N p (fe_reason ev) (snd (fad_emit N ev (snd (fad_bump N (fe_reason ev) s)))))"

lemma fork_fail_closed_wp:
  assumes "0 \<le> attempts_of s p" and r: "r \<noteq> []"
  shows "wpM (fork_fail_closed (fork_adapters N) r p h target block detail) (\<lambda>_ _. False)
     (\<lambda>e t. \<exists>out ev. e = ForkMalicious out ev \<and> fo_status out = FS_Refused \<and> fn_log t = fn_log s @ [ev]
        \<and> fe_peer ev = p \<and> attempts_of s p < attempts_of t p
        \<and> fe_reason ev = (if attempts_of s p + 1 \<ge> 3 then ''fork_same_height_spam'' else r)
        \<and> t = punished N p ev (s\<lparr>fn_attempts := fn_attempts t\<rparr>)) s"
proof -
  let ?A = "fork_adapters N"
  have ops: "fk_note_attempt ?A = fad_note_attempt" "fk_bump ?A = fad_bump N" "fk_emit ?A = fad_emit N"
      "fk_strike ?A = fad_strike N" by (simp_all add: fork_adapters_def)
  have ports: "wpM (portM (fad_note_attempt p rr)) Q E u = Q (attempts_of u p + 1) (u\<lparr>fn_attempts := counted p rr u\<rparr>)"
    "wpM (portM (fad_bump N rr)) Q' E u = Q' () (snd (fad_bump N rr u))"
    "wpM (portM (fad_emit N ev)) Q' E u = Q' () (snd (fad_emit N ev u))"
    "wpM (portM (fad_strike N p rr)) Q' E u = Q' () (snd (fad_strike N p rr u))" for rr Q Q' E u ev
    using fad_bump_frame [of N rr u] fad_emit_frame [of N ev u] fad_strike_frame [of N p rr u]
    by (simp_all add: portM_return note_attempt_counts)
  have frame: "attempts_of (snd (fad_bump N rr u)) q = attempts_of u q" "fn_log (snd (fad_bump N rr u)) = fn_log u"
    "fn_log (snd (fad_emit N ev u)) = fn_log u @ [ev]" "fn_log (snd (fad_strike N q rr u)) = fn_log u" for rr u q ev
    using fad_bump_frame [of N rr u] fad_emit_frame [of N ev u] fad_strike_frame [of N q rr u] by (simp_all add: attempts_of_def)
  have after: "attempts_of (u\<lparr>fn_attempts := a\<rparr>) p = dget_or a p 0" "dget_or (counted p rr u) p 0 = attempts_of u p + 1" for u a rr
    using note_attempt_counts(2) [where s = u and p = p and reason = rr and u = u] by (simp_all add: attempts_of_def)
  show ?thesis
    using assms
    by (auto simp: fork_fail_closed_def fork_escalate_def ops wp_rules Let_def str_or_def fork_spam_threshold_def
        fork_build_evidence_def fo_refused_def ports frame attempts_commute after punished_def)
qed

section \<open>What reconciliation does to the chain\<close>

definition chain_after ::
  "('c, 'x) node_ops \<Rightarrow> fork_config \<Rightarrow> string \<Rightarrow> 'c \<Rightarrow> 'c \<Rightarrow> bool" where
  "chain_after N cfg target c c' \<longleftrightarrow> c' = c \<or> (\<exists>blk r. reorg_allowed (node_view N) cfg target c blk r
     \<and> c' = snd (reorg_chain N r blk c))"

lemma reach_chain_after:
  "c' \<in> fork_laws.reach (node_view N) (\<lambda>r blk c. {snd (reorg_chain N r blk c)}) cfg target c
     \<longleftrightarrow> chain_after N cfg target c c'"
  by (auto simp: fork.reach_def chain_after_def)

definition demo_run :: "(fork_exc + fork_outcome) \<times> (string list, unit) fork_node" where
  "demo_run = run_to_head (fork_adapters chain_ops) '' c2'' (Some demo_fork_peer) fork_config_default True demo_node"

lemma demo_run_completes:
  "fst demo_run = Inr (fo_complete 2 ''c2'')" "fn_chain (snd demo_run) = [''g'', ''b1'', ''c2'']"
  by code_simp+

text \<open>C9: a reconcile call to a target head leaves the chain as it was, or changes it by one single
  reorganisation on it: to a body whose hash is the target's, whose parent passes the contiguous and
  same-height binds at the tip of that chain, rolled back to the common ancestor (or right below the body
  when that is lower). This holds on every path, exceptions included. And a completed call has the
  target as the head of the chain it leaves.\<close>

theorem fork_single_gated_reorg:
  assumes "run_to_head (fork_adapters N) target hint cfg gp s = (res, t)"
  shows "chain_after N cfg (py_strip target) (fn_chain s) (fn_chain t)
     \<and> (\<forall>out. res = Inr out \<longrightarrow> fo_status out = FS_Complete
          \<longrightarrow> head_matches (node_view N) cfg (py_strip target) (fn_chain t))"
  using fork.run_to_head_reconciled [of N target hint cfg gp s] assms
  by (cases res) (auto simp: wpM_def fork.reconciled_def reach_chain_after)

lemma fork_single_gated_reorg_witness:
  "fst demo_run = Inr (fo_complete 2 ''c2'') \<and> fn_chain (snd demo_run) = [''g'', ''b1'', ''c2'']
     \<and> chain_after chain_ops fork_config_default ''c2'' [''g'', ''b1'', ''b2''] [''g'', ''b1'', ''c2'']
     \<and> head_matches (node_view chain_ops) fork_config_default ''c2'' [''g'', ''b1'', ''c2'']"
proof -
  have r: "run_to_head (fork_adapters chain_ops) '' c2'' (Some demo_fork_peer) fork_config_default True demo_node
      = (fst demo_run, snd demo_run)" by (simp add: demo_run_def)
  have x: "fn_chain demo_node = [''g'', ''b1'', ''b2'']" "py_strip '' c2'' = ''c2''"
    "fo_status (fo_complete 2 ''c2'') = FS_Complete" by code_simp+
  show ?thesis
    using fork_single_gated_reorg [OF r] demo_run_completes by (simp add: x)
qed

text \<open>A same-height reconcile call, which may first try the head the fork choice prefers and then the
  peer's, makes at most two gated reorganisations, the second one on the chain the first one left and to
  the peer's claimed head. If it completes, the head is one it was asked for: non-empty and matched
  by the chain it leaves.\<close>

theorem same_height_gated_reorgs:
  assumes "run_same_height (fork_adapters N) peer cfg s = (res, t)"
  shows "(\<exists>ghost c1. chain_after N cfg ghost (fn_chain s) c1
        \<and> chain_after N cfg (py_strip (fp_head peer)) c1 (fn_chain t))
     \<and> (\<forall>out. res = Inr out \<longrightarrow> fo_status out = FS_Complete
          \<longrightarrow> (\<exists>h. h \<noteq> [] \<and> head_matches (node_view N) cfg h (fn_chain t)))"
proof -
  have "\<exists>ghost c1. chain_after N cfg ghost c c1 \<and> chain_after N cfg target c1 c'"
    if "c' \<in> fork_laws.reach_same (node_view N) (\<lambda>r blk c. {snd (reorg_chain N r blk c)}) cfg target c" for c c' target
    using that fork.reach_self by (fastforce simp: fork.reach_same_def reach_chain_after [symmetric])
  then show ?thesis
    using fork.run_same_height_post [of N peer cfg s] assms
    by (cases res) (auto simp: wpM_def fork.same_height_post_def)
qed

definition demo_same :: "(fork_exc + fork_outcome) \<times> (string list, unit) fork_node" where
  "demo_same = run_same_height (fork_adapters chain_ops) demo_fork_peer fork_config_default demo_node"

lemma same_height_gated_reorgs_witness:
  "fst demo_same = Inr (fo_complete 2 ''c2'') \<and> fn_chain (snd demo_same) = [''g'', ''b1'', ''c2'']
     \<and> (\<exists>h. h \<noteq> [] \<and> head_matches (node_view chain_ops) fork_config_default h [''g'', ''b1'', ''c2''])"
proof -
  have r: "run_same_height (fork_adapters chain_ops) demo_fork_peer fork_config_default demo_node
      = (fst demo_same, snd demo_same)" by (simp add: demo_same_def)
  have x: "fst demo_same = Inr (fo_complete 2 ''c2'')" "fn_chain (snd demo_same) = [''g'', ''b1'', ''c2'']"
    "fo_status (fo_complete 2 ''c2'') = FS_Complete" by code_simp+
  show ?thesis using same_height_gated_reorgs [OF r] by (simp add: x)
qed

section \<open>A hostile body\<close>

text \<open>A body that the binds refuse at the chain \<open>c\<close>.\<close>

definition hostile_body :: "('c, 'x) node_ops \<Rightarrow> fork_config \<Rightarrow> string \<Rightarrow> 'c \<Rightarrow> pydict \<Rightarrow> bool" where
  "hostile_body N cfg target c blk \<longleftrightarrow>
     fetched_head_refuse target blk (fc_head_bind cfg) \<noteq> []
     \<or> (\<exists>h tip parent. no_height N c = Inr h \<and> cvw_head (node_view N) c = Inr tip
          \<and> cvw_parent (node_view N) h c = Inr parent
          \<and> (contiguous_parent_refuse blk h tip (fc_contiguous_bind cfg) \<noteq> []
             \<or> same_height_parent_refuse blk h tip parent (fc_same_height_bind cfg) \<noteq> []))"

text \<open>The answer to it, for the peer \<open>p\<close>.\<close>

definition refused_hostile ::
  "('c, 'x) node_ops \<Rightarrow> ('c, 'x) fork_node \<Rightarrow> string \<Rightarrow> fork_exc \<Rightarrow> ('c, 'x) fork_node \<Rightarrow> bool" where
  "refused_hostile N s p e t \<longleftrightarrow> fn_chain t = fn_chain s
     \<and> (\<exists>out ev. e = ForkMalicious out ev \<and> fo_status out = FS_Refused \<and> fn_log t = fn_log s @ [ev]
          \<and> fe_peer ev = p \<and> is_malicious_refuse (fe_reason ev) \<and> attempts_of s p < attempts_of t p
          \<and> (attempts_of s p + 1 \<ge> 3 \<longrightarrow> fe_reason ev = ''fork_same_height_spam'')
          \<and> t = punished N p ev (s\<lparr>fn_attempts := fn_attempts t\<rparr>))"

lemma refuse_hostile_wp:
  assumes "0 \<le> attempts_of s p" "is_malicious_refuse r"
  shows "wpM (refuse_or_fail_closed (fork_adapters N) r p h target block) (\<lambda>_ _. False)
     (refused_hostile N s p) s"
proof -
  have "r \<noteq> []" using assms(2) by (auto simp: is_malicious_refuse_def malicious_refuse_codes_def)
  note fc = wp_conj [OF fork_fail_closed_wp [OF assms(1) this, of N h target block "[]"]
      fork.fail_closed_keeps [OF refl, of N r p h target block "[]"]]
  show ?thesis
    unfolding refuse_or_fail_closed_def wp_if using assms(2)
    by (auto intro!: wp_mono [OF fc] simp: refused_hostile_def
        is_malicious_refuse_def malicious_refuse_codes_def)
qed

lemma refuse_codes:
  "fetched_head_refuse target blk b \<noteq> [] \<Longrightarrow> is_malicious_refuse (fetched_head_refuse target blk b)"
  "contiguous_parent_refuse blk h tip b \<noteq> [] \<Longrightarrow> is_malicious_refuse (contiguous_parent_refuse blk h tip b)"
  "same_height_parent_refuse blk h tip parent b \<noteq> [] \<Longrightarrow>
     is_malicious_refuse (same_height_parent_refuse blk h tip parent b)"
  "is_malicious_refuse ''tip_evidence_enforce_refuse''"
  by (auto simp: fetched_head_refuse_def contiguous_parent_refuse_def same_height_parent_refuse_def Let_def
      is_malicious_refuse_def malicious_refuse_codes_def split: if_splits)

lemma portM_read: "fst (m s) = Inr a \<Longrightarrow> snd (m s) = s \<Longrightarrow> wpM (portM m) Q E s = Q a s"
  by (simp add: portM_return)

lemma fad_reads:
  "fk_tip_evidence (fork_adapters N) blk s = (fst (fad_tip_evidence N blk s), s)"
  "fk_head (fork_adapters N) s = (cvw_head (node_view N) (fn_chain s), s)"
  "fk_expected_parent (fork_adapters N) h s = (cvw_parent (node_view N) h (fn_chain s), s)"
  "fk_height (fork_adapters N) s = (no_height N (fn_chain s), s)"
  by (simp_all add: fork_adapters_def fad_defs node_view_def)

lemma wp_evidence_read:
  "wpM (portM (fk_tip_evidence (fork_adapters N) blk)) Q E s =
     Q (case fst (fad_tip_evidence N blk s) of Inr a \<Rightarrow> a | Inl e \<Rightarrow> []) s"
  by (subst portM_read) (simp_all add: fad_reads fad_defs)

lemma wp_head_read:
  "wpM (portM (fk_head (fork_adapters N))) Q E s =
     Q (case cvw_head (node_view N) (fn_chain s) of Inr a \<Rightarrow> a | Inl e \<Rightarrow> []) s"
  by (subst portM_read) (simp_all add: fad_reads node_view_def)

lemma wp_parent_read:
  "wpM (portM (fk_expected_parent (fork_adapters N) h)) Q E s =
     Q (case cvw_parent (node_view N) h (fn_chain s) of Inr a \<Rightarrow> a | Inl e \<Rightarrow> []) s"
  by (subst portM_read) (simp_all add: fad_reads node_view_def)

lemma wp_height_read:
  "no_height N (fn_chain s) = Inr k \<Longrightarrow> wpM (portM (fk_height (fork_adapters N))) Q E s = Q k s"
  by (subst portM_read) (simp_all add: fad_reads)

lemma parent_binds_hostile:
  assumes "0 \<le> attempts_of s p" "no_height N (fn_chain s) = Inr k"
    and "hostile_body N cfg target (fn_chain s) blk" "fetched_head_refuse target blk (fc_head_bind cfg) = []"
  shows "wpM (parent_binds (fork_adapters N) cfg target p hint src blk) (\<lambda>_ _. False) (refused_hostile N s p) s"
proof -
  have ref: "wpM (refuse_or_fail_closed (fork_adapters N) r p h target b) (\<lambda>_ _. False) (refused_hostile N s p) s"
    if "is_malicious_refuse r" for r h b
    using refuse_hostile_wp [OF assms(1) that] by simp
  show ?thesis
    using assms(2-)
    by (auto simp: parent_binds_def hostile_body_def wp_rules wp_height_read wp_head_read wp_parent_read Let_def
        intro!: ref refuse_codes)
qed

text \<open>C10: a fetched body that fails a bind (its hash is not the target's, or its parent is not the tip
  right below it or not the parent of the tip at the same height) never gets to the reorganisation:
  the call raises the deliberate refusal with the chain unchanged. One piece of evidence against the peer
  that served it is appended to the log under a malicious reason code, the peer's attempt counter is raised, and
  from the third attempt on the reason is spam; and the state is exactly the one in which the refusal was counted, the
  evidence emitted and the peer struck under that reason, which removes it when the strike bans it.\<close>

theorem hostile_body_fails_closed:
  assumes "hostile_body N cfg target (fn_chain s) blk"
    and "no_height N (fn_chain s) = Inr k" and "0 \<le> attempts_of s p"
    and "body_gates (fork_adapters N) cfg target p hint src blk h s = (res, t)"
  shows "\<exists>e. res = Inl e \<and> refused_hostile N s p e t"
proof -
  have "wpM (body_gates (fork_adapters N) cfg target p hint src blk h) (\<lambda>_ _. False) (refused_hostile N s p) s"
    unfolding body_gates_def wp_bind wp_evidence_read Let_def wp_if
    using refuse_hostile_wp [OF assms(3)] parent_binds_hostile [OF assms(3,2,1)] refuse_codes
    by auto
  then show ?thesis using assms(4) by (cases res) (auto simp: wpM_def)
qed

definition demo_hostile :: pydict where
  "demo_hostile = [(''hash'', PStr ''d2''), (''height'', PInt 2), (''parent_hash'', PStr ''b1'')]"

lemma hostile_body_fails_closed_witness:
  "hostile_body chain_ops fork_config_default ''c2'' (fn_chain demo_node) demo_hostile
     \<and> (\<exists>e. fst (body_gates (fork_adapters chain_ops) fork_config_default ''c2'' ''p'' None ''p'' demo_hostile 2 demo_node) = Inl e
          \<and> refused_hostile chain_ops demo_node ''p'' e
              (snd (body_gates (fork_adapters chain_ops) fork_config_default ''c2'' ''p'' None ''p'' demo_hostile 2 demo_node)))"
proof -
  have h: "hostile_body chain_ops fork_config_default ''c2'' (fn_chain demo_node) demo_hostile"
    unfolding hostile_body_def by (rule disjI1) code_simp
  have x: "no_height chain_ops (fn_chain demo_node) = Inr 2" "0 \<le> attempts_of demo_node ''p''" by code_simp+
  show ?thesis
    using h hostile_body_fails_closed [OF h x prod.collapse [symmetric], of None "''p''" 2] by auto
qed

section \<open>A body at height zero\<close>

text \<open>A declared height of zero is read as the default, so the binds, which read it with the default
  minus one, do not apply to a body that declares height zero.\<close>

lemma zero_height_unbound:
  "fork_block_height [(''height'', PInt 0)] (- 1) = - 1"
  "same_height_parent_refuse [(''hash'', PStr ''x''), (''height'', PInt 0), (''parent_hash'', PStr ''q'')] 0 ''g'' ''p'' True = []"
  by code_simp+

end
