(* ===== verification/Bytes.thy ===== *)
theory Bytes
  imports Prelude "HOL-Library.Word" "HOL-Library.List_Lexorder" "HOL-Library.Sublist"
begin

text \<open>
  Byte strings as the code handles them: a Python \<open>bytes\<close> is a list of \<open>8 word\<close>, ordered
  lexicographically by unsigned bytes (the order of \<open>List_Lexorder\<close>, which is also the order of a
  key-value store). Big-endian integers (\<open>int.to_bytes\<close>, \<open>int.from_bytes\<close> and \<open>struct.pack\<close>),
  \<open>bytes.fromhex\<close>, \<open>str.zfill\<close> and the UTF-8 encoding of a string of code points below 256.
\<close>

type_synonym byte = "8 word"

section \<open>Big-endian integers\<close>

primrec be_bytes :: "nat \<Rightarrow> int \<Rightarrow> byte list" where
  "be_bytes 0 v = []"
| "be_bytes (Suc n) v = be_bytes n (v div 256) @ [word_of_int v]"

definition be_value :: "byte list \<Rightarrow> int" where
  "be_value bs = foldl (\<lambda>a b. a * 256 + uint b) 0 bs"

lemma length_be_bytes [simp]: "length (be_bytes n v) = n"
  by (induction n arbitrary: v) simp_all

lemma be_value_Nil [simp]: "be_value [] = 0"
  by (simp add: be_value_def)

lemma be_value_snoc [simp]: "be_value (bs @ [b]) = be_value bs * 256 + uint b"
  by (simp add: be_value_def)

lemma be_value_nonneg [simp]: "0 \<le> be_value bs"
  by (induction bs rule: rev_induct) simp_all

lemma byte_bound [simp]: "0 \<le> uint (b :: byte)" "uint (b :: byte) < 256"
  using uint_lt2p [of b] by simp_all

lemma be_value_less: "be_value bs < 256 ^ length bs"
proof (induction bs rule: rev_induct)
  case (snoc b bs)
  define p where "p = (256 :: int) ^ length bs"
  have "be_value bs + 1 \<le> p" using snoc by (simp add: p_def)
  then have "be_value bs * 256 + uint b < p * 256" using byte_bound(2) [of b] by linarith
  then show ?case by (simp add: p_def mult.commute)
qed simp

lemma uint_of_int_byte: "uint (word_of_int v :: byte) = v mod 256"
  by (simp add: uint_word_of_int)

lemma be_value_bytes [simp]: "be_value (be_bytes n v) = v mod 256 ^ n"
proof (induction n arbitrary: v)
  case (Suc n)
  have "v div 256 mod 256 ^ n * 256 + v mod 256 = v mod (256 * 256 ^ n)"
    by (simp add: zmod_zmult2_eq)
  with Suc show ?case by (simp add: uint_of_int_byte)
qed simp

lemma be_bytes_value: "length bs = n \<Longrightarrow> be_bytes n (be_value bs) = bs"
proof (induction bs arbitrary: n rule: rev_induct)
  case (snoc b bs)
  then obtain m where n: "n = Suc m" "length bs = m" by (cases n) auto
  have "(be_value bs * 256 + uint b) div 256 = be_value bs"
    using byte_bound [of b] by (simp add: div_add1_eq)
  moreover have "word_of_int (be_value bs * 256 + uint b) = b"
  proof -
    have "(be_value bs * 256 + uint b) mod 256 = uint b" by (simp add: mod_pos_pos_trivial)
    then show ?thesis by (metis uint_of_int_byte word_uint_eqI)
  qed
  ultimately show ?case using snoc.IH [OF n(2)] n by simp
qed simp

lemma be_bytes_inj:
  "be_bytes n v = be_bytes n w \<longleftrightarrow> v mod 256 ^ n = w mod 256 ^ n"
  by (metis be_bytes_value be_value_bytes length_be_bytes)

lemma snoc_less:
  fixes x y :: "'a :: linorder"
  shows "length xs = length ys \<Longrightarrow> xs @ [x] < ys @ [y] \<longleftrightarrow> xs < ys \<or> xs = ys \<and> x < y"
  by (induction xs ys rule: list_induct2) auto

lemma be_bytes_less_iff:
  assumes "0 \<le> v" "v < 256 ^ n" "0 \<le> w" "w < 256 ^ n"
  shows "be_bytes n v < be_bytes n w \<longleftrightarrow> v < w"
  using assms
proof (induction n arbitrary: v w)
  case (Suc n)
  have b: "v div 256 < 256 ^ n" "w div 256 < 256 ^ n" "0 \<le> v div 256" "0 \<le> w div 256"
    using Suc.prems by (simp_all add: div_less_iff_less_mult mult.commute)
  have e: "be_bytes n (v div 256) = be_bytes n (w div 256) \<longleftrightarrow> v div 256 = w div 256"
    using b by (simp add: be_bytes_inj)
  have "(word_of_int v :: byte) < word_of_int w \<longleftrightarrow> v mod 256 < w mod 256"
    by (simp add: word_less_def uint_of_int_byte)
  moreover have "v < w \<longleftrightarrow> v div 256 < w div 256 \<or> v div 256 = w div 256 \<and> v mod 256 < w mod 256"
    using mult_div_mod_eq [of 256 v] mult_div_mod_eq [of 256 w] by (smt (verit) pos_mod_bound pos_mod_sign)
  ultimately show ?case using Suc.IH [OF b(3,1,4,2)] e by (simp add: snoc_less)
qed simp

section \<open>Text as bytes\<close>

definition utf8_char :: "char \<Rightarrow> byte list" where
  "utf8_char c = (let n = of_char c :: nat in
     if n < 128 then [of_nat n] else [of_nat (192 + n div 64), of_nat (128 + n mod 64)])"

definition utf8 :: "string \<Rightarrow> byte list" where
  "utf8 s = concat (map utf8_char s)"

lemma utf8_simps [simp]: "utf8 [] = []" "utf8 (c # s) = utf8_char c @ utf8 s" "utf8 (s @ t) = utf8 s @ utf8 t"
  by (simp_all add: utf8_def)

lemma of_nat_byte_inj: "a < 256 \<Longrightarrow> b < 256 \<Longrightarrow> (of_nat a :: byte) = of_nat b \<longleftrightarrow> a = b"
  by (simp add: word_of_nat_eq_iff take_bit_nat_eq_self)

lemma utf8_char_append: "utf8_char c @ r = utf8_char d @ r' \<longleftrightarrow> c = d \<and> r = r'"
proof -
  define n where "n = (of_char c :: nat)"
  define m where "m = (of_char d :: nat)"
  have b: "n < 256" "m < 256" by (simp_all add: n_def m_def)
  then have l: "192 + n div 64 < 256" "128 + n mod 64 < 256" "192 + m div 64 < 256" "128 + m mod 64 < 256"
    by simp_all
  have "n = m" if "n div 64 = m div 64" "n mod 64 = m mod 64" using that div_mult_mod_eq by metis
  moreover have "n = m \<longleftrightarrow> c = d" by (simp add: n_def m_def)
  ultimately show ?thesis
    unfolding utf8_char_def Let_def n_def [symmetric] m_def [symmetric]
    using b l by (auto simp: of_nat_byte_inj simp del: of_nat_add of_nat_numeral)
qed

lemma utf8_append_inj: "length s = length t \<Longrightarrow> utf8 s @ r = utf8 t @ r' \<longleftrightarrow> s = t \<and> r = r'"
  by (induction s t arbitrary: r r' rule: list_induct2) (auto simp: utf8_char_append)

lemma utf8_char_not_Nil [simp]: "utf8_char c \<noteq> []"
  by (simp add: utf8_char_def Let_def)

lemma prefix_utf8 [simp]: "prefix (utf8 s) (utf8 t) \<longleftrightarrow> prefix s t"
proof (induction s arbitrary: t)
  case (Cons c s)
  then show ?case by (cases t) (auto simp: prefix_def utf8_char_append)
qed simp

lemma utf8_inj [simp]: "utf8 s = utf8 t \<longleftrightarrow> s = t"
  using prefix_utf8 [of s t] prefix_utf8 [of t s] by (metis prefix_order.antisym prefix_order.refl)

text \<open>\<open>bytes.fromhex\<close>, \<open>None\<close> when it raises: ASCII white space is skipped between the pairs.\<close>

definition ascii_space :: "char \<Rightarrow> bool" where
  "ascii_space c = (let n = of_char c :: nat in (9 \<le> n \<and> n \<le> 13) \<or> n = 32)"

definition hex_val :: "char \<Rightarrow> nat option" where
  "hex_val c = (let n = of_char c :: nat in
     if 48 \<le> n \<and> n \<le> 57 then Some (n - 48) else if 97 \<le> n \<and> n \<le> 102 then Some (n - 87)
     else if 65 \<le> n \<and> n \<le> 70 then Some (n - 55) else None)"

fun from_hex :: "string \<Rightarrow> byte list option" where
  "from_hex [] = Some []"
| "from_hex (c # cs) =
     (if ascii_space c then from_hex cs
      else (case cs of [] \<Rightarrow> None
        | d # ds \<Rightarrow> (case (hex_val c, hex_val d) of
              (Some x, Some y) \<Rightarrow> map_option (Cons (of_nat (16 * x + y))) (from_hex ds)
            | _ \<Rightarrow> None)))"

text \<open>\<open>s.zfill(n)\<close>: zeros on the left, behind a sign.\<close>

definition py_zfill :: "nat \<Rightarrow> string \<Rightarrow> string" where
  "py_zfill n s = (let pad = replicate (n - length s) (CHR ''0'') in
     case s of [] \<Rightarrow> pad
     | c # cs \<Rightarrow> if c = CHR ''+'' \<or> c = CHR ''-'' then c # pad @ cs else pad @ s)"

definition lower_hex :: "char \<Rightarrow> bool" where
  "lower_hex c = (let n = of_char c :: nat in (48 \<le> n \<and> n \<le> 57) \<or> (97 \<le> n \<and> n \<le> 102))"

lemma lower_hex_val: "lower_hex c \<Longrightarrow> \<exists>x. hex_val c = Some x \<and> x < 16 \<and> \<not> ascii_space c"
  by (auto simp: lower_hex_def hex_val_def ascii_space_def Let_def)

lemma lower_hex_inj: "lower_hex c \<Longrightarrow> lower_hex d \<Longrightarrow> hex_val c = hex_val d \<longleftrightarrow> c = d"
proof -
  define n where "n = (of_char c :: nat)"
  define m where "m = (of_char d :: nat)"
  assume "lower_hex c" "lower_hex d"
  then have "hex_val c = hex_val d \<longleftrightarrow> n = m"
    unfolding lower_hex_def hex_val_def Let_def n_def [symmetric] m_def [symmetric] by auto
  also have "n = m \<longleftrightarrow> c = d" by (simp add: n_def m_def)
  finally show ?thesis .
qed

lemma from_hex_lower:
  assumes "length h = 2 * n" "\<forall>c\<in>set h. lower_hex c"
  shows "\<exists>bs. from_hex h = Some bs \<and> length bs = n"
  using assms
proof (induction n arbitrary: h)
  case (Suc n)
  then obtain c d t where h: "h = c # d # t" "length t = 2 * n" by (auto simp: length_Suc_conv numeral_2_eq_2)
  with Suc obtain bs where "from_hex t = Some bs" "length bs = n" by fastforce
  with h Suc.prems(2) lower_hex_val [of c] lower_hex_val [of d] show ?case by auto
qed simp

lemma from_hex_inj:
  assumes "length g = length h" "\<forall>c\<in>set g. lower_hex c" "\<forall>c\<in>set h. lower_hex c"
    and "from_hex g = from_hex h" "length g = 2 * n"
  shows "g = h"
  using assms
proof (induction n arbitrary: g h)
  case (Suc n)
  obtain c d t where g: "g = c # d # t" "length t = 2 * n"
    using Suc.prems(5) by (auto simp: length_Suc_conv numeral_2_eq_2)
  obtain c' d' t' where h': "h = c' # d' # t'"
    using Suc.prems(1,5) by (cases h; cases "tl h") auto
  note h = g(1) h' g(2)
  from h Suc.prems obtain x y x' y' where v: "hex_val c = Some x" "hex_val d = Some y" "hex_val c' = Some x'"
      "hex_val d' = Some y'" "x < 16" "y < 16" "x' < 16" "y' < 16" and ns: "\<not> ascii_space c" "\<not> ascii_space c'"
    using lower_hex_val [of c] lower_hex_val [of d] lower_hex_val [of c'] lower_hex_val [of d'] by auto
  obtain bs where bs: "from_hex t = Some bs" using from_hex_lower [OF h(3)] h(1) Suc.prems(2) by auto
  obtain bs' where bs': "from_hex t' = Some bs'"
    using from_hex_lower [of t' n] h Suc.prems by auto
  have e: "(of_nat (16 * x + y) :: byte) = of_nat (16 * x' + y')" and "bs = bs'"
    using Suc.prems(4) by (simp_all add: h(1,2) v ns bs bs')
  moreover have "16 * x + y < 256" "16 * x' + y' < 256" using v(5-8) by simp_all
  ultimately have *: "16 * x + y = 16 * x' + y'" using of_nat_byte_inj by blast
  then have "x = x'" using v(6,8) by linarith
  with * have "y = y'" by simp
  have "c = c'" "d = d'" using \<open>x = x'\<close> \<open>y = y'\<close> lower_hex_inj [of c c'] lower_hex_inj [of d d'] v h(1,2) Suc.prems(2,3) by simp_all
  moreover have "t = t'"
    using Suc.IH [of t t'] h Suc.prems(1-3) by (simp add: bs bs' \<open>bs = bs'\<close>)
  ultimately show ?case by (simp add: h(1,2))
qed simp

end
