(* ===== verification/Keycodec.thy ===== *)
theory Keycodec
  imports Bytes
begin

unbundle bit_operations_syntax

text \<open>
  The binary keys of the chain store, \<open>storage/keycodec.py\<close>, as its Python code computes them (the
  native module that may replace it is not modelled). A function that raises \<open>ValueError\<close> is an option.
  Keys are compared by the store as byte strings. \<open>store_key\<close> names the kinds of record the store
  writes, and \<open>key_of\<close> is the code's key for each.
\<close>

section \<open>Prefixes and integers\<close>

definition P_BLOCK_HEIGHT :: "byte list" where "P_BLOCK_HEIGHT = [0x01]"
definition P_BLOCK_HASH :: "byte list" where "P_BLOCK_HASH = [0x02]"
definition P_BLOCK_TX :: "byte list" where "P_BLOCK_TX = [0x03]"
definition P_TX :: "byte list" where "P_TX = [0x04]"
definition P_TX_FROM :: "byte list" where "P_TX_FROM = [0x06]"
definition P_TX_TO :: "byte list" where "P_TX_TO = [0x07]"
definition P_TX_RECENT :: "byte list" where "P_TX_RECENT = [0x08]"
definition P_ACCOUNT :: "byte list" where "P_ACCOUNT = [0x10]"
definition P_VALIDATOR :: "byte list" where "P_VALIDATOR = [0x20]"
definition P_META :: "byte list" where "P_META = [0x40]"
definition P_BURN :: "byte list" where "P_BURN = [0x41]"
definition P_PROPOSER_AUDIT :: "byte list" where "P_PROPOSER_AUDIT = [0x42]"
definition P_TX_PROP :: "byte list" where "P_TX_PROP = [0x44]"
definition P_BRIDGE_LOCK :: "byte list" where "P_BRIDGE_LOCK = [0x50]"
definition P_BRIDGE_CREDIT :: "byte list" where "P_BRIDGE_CREDIT = [0x51]"
definition P_EVM_LOG :: "byte list" where "P_EVM_LOG = [0x52]"
definition P_EVM_LOG_TX :: "byte list" where "P_EVM_LOG_TX = [0x53]"
definition P_NFT_TOKEN :: "byte list" where "P_NFT_TOKEN = [0x54]"
definition P_NFT_OFFER :: "byte list" where "P_NFT_OFFER = [0x55]"
definition P_NFT_AUCTION :: "byte list" where "P_NFT_AUCTION = [0x56]"
definition P_NFT_SALE :: "byte list" where "P_NFT_SALE = [0x57]"

lemmas P_defs = P_BLOCK_HEIGHT_def P_BLOCK_HASH_def P_BLOCK_TX_def P_TX_def P_TX_FROM_def P_TX_TO_def
  P_TX_RECENT_def P_ACCOUNT_def P_VALIDATOR_def P_META_def P_BURN_def P_PROPOSER_AUDIT_def P_TX_PROP_def
  P_BRIDGE_LOCK_def P_BRIDGE_CREDIT_def P_EVM_LOG_def P_EVM_LOG_TX_def P_NFT_TOKEN_def P_NFT_OFFER_def
  P_NFT_AUCTION_def P_NFT_SALE_def

definition pack_u32 :: "int \<Rightarrow> byte list" where
  "pack_u32 v = be_bytes 4 (v AND 0xFFFFFFFF)"

definition unpack_u32 :: "byte list \<Rightarrow> int option" where
  "unpack_u32 d = (if length d \<noteq> 4 then None else Some (be_value d))"

definition pack_u64 :: "int \<Rightarrow> byte list" where
  "pack_u64 v = be_bytes 8 (v AND 0xFFFFFFFFFFFFFFFF)"

definition unpack_u64 :: "byte list \<Rightarrow> int option" where
  "unpack_u64 d = (if length d \<noteq> 8 then None else Some (be_value d))"

section \<open>Hashes and addresses\<close>

definition strip_0x :: "string \<Rightarrow> string" where
  "strip_0x h = (if take 2 h = ''0x'' then drop 2 h else h)"

definition normalize_hash_key :: "string \<Rightarrow> byte list option" where
  "normalize_hash_key s =
     (let h = strip_0x (norm_hash s) in if length h \<noteq> 64 then None else from_hex h)"

text \<open>\<open>s.zfill(64)[-64:]\<close>.\<close>

definition last64 :: "string \<Rightarrow> string" where
  "last64 s = (let z = py_zfill 64 s in drop (length z - 64) z)"

definition key_tx :: "string \<Rightarrow> byte list option" where
  "key_tx s = map_option (\<lambda>b. P_TX @ b) (from_hex (last64 (strip_0x (norm_hash s))))"

definition tx_hash_body :: "string \<Rightarrow> byte list option" where
  "tx_hash_body s = map_option (drop (length P_TX)) (key_tx s)"

definition normalize_address_key :: "string \<Rightarrow> string" where
  "normalize_address_key a = norm_hash a"

section \<open>Keys\<close>

definition key_block_height :: "int \<Rightarrow> byte list" where
  "key_block_height h = P_BLOCK_HEIGHT @ pack_u64 h"

definition key_block_hash_to_height :: "string \<Rightarrow> byte list option" where
  "key_block_hash_to_height s = map_option (\<lambda>b. P_BLOCK_HASH @ b) (normalize_hash_key s)"

definition key_block_tx :: "int \<Rightarrow> string \<Rightarrow> byte list option" where
  "key_block_tx h s = map_option (\<lambda>k. P_BLOCK_TX @ pack_u64 h @ drop 1 k) (key_tx s)"

definition prefix_tx_from :: "string \<Rightarrow> byte list" where
  "prefix_tx_from a = P_TX_FROM @ utf8 (normalize_address_key a)"

definition prefix_tx_to :: "string \<Rightarrow> byte list" where
  "prefix_tx_to a = P_TX_TO @ utf8 (normalize_address_key a)"

definition key_tx_from_index :: "string \<Rightarrow> int \<Rightarrow> string \<Rightarrow> byte list option" where
  "key_tx_from_index a h s =
     map_option (\<lambda>b. P_TX_FROM @ utf8 (normalize_address_key a) @ pack_u64 h @ b) (tx_hash_body s)"

definition key_tx_to_index :: "string \<Rightarrow> int \<Rightarrow> string \<Rightarrow> byte list option" where
  "key_tx_to_index a h s =
     map_option (\<lambda>b. P_TX_TO @ utf8 (normalize_address_key a) @ pack_u64 h @ b) (tx_hash_body s)"

definition key_tx_recent_index :: "int \<Rightarrow> int \<Rightarrow> string \<Rightarrow> byte list option" where
  "key_tx_recent_index h ts s =
     map_option (\<lambda>b. P_TX_RECENT @ pack_u64 (2 ^ 64 - 1 - h) @ pack_u64 (2 ^ 64 - 1 - ts) @ b) (tx_hash_body s)"

definition key_tx_prop :: "string \<Rightarrow> string \<Rightarrow> byte list option" where
  "key_tx_prop s stage = map_option (\<lambda>b. P_TX_PROP @ b @ take 16 (utf8 stage)) (tx_hash_body s)"

definition prefix_tx_prop :: "string \<Rightarrow> byte list option" where
  "prefix_tx_prop s = map_option (\<lambda>b. P_TX_PROP @ b) (tx_hash_body s)"

definition key_bridge_lock :: "string \<Rightarrow> byte list option" where
  "key_bridge_lock s = map_option (\<lambda>b. P_BRIDGE_LOCK @ b) (tx_hash_body s)"

definition key_bridge_credit :: "string \<Rightarrow> byte list option" where
  "key_bridge_credit s = map_option (\<lambda>b. P_BRIDGE_CREDIT @ b) (from_hex (last64 (remove_0x (norm_hash s))))"

definition key_evm_log :: "int \<Rightarrow> string \<Rightarrow> int \<Rightarrow> byte list option" where
  "key_evm_log h s i = map_option (\<lambda>b. P_EVM_LOG @ pack_u64 h @ b @ pack_u32 i) (tx_hash_body s)"

definition key_evm_log_tx :: "string \<Rightarrow> int \<Rightarrow> byte list option" where
  "key_evm_log_tx s i = map_option (\<lambda>b. P_EVM_LOG_TX @ b @ pack_u32 i) (tx_hash_body s)"

definition prefix_evm_logs_block :: "int \<Rightarrow> byte list" where
  "prefix_evm_logs_block h = P_EVM_LOG @ pack_u64 h"

definition prefix_evm_logs_tx :: "string \<Rightarrow> byte list option" where
  "prefix_evm_logs_tx s = map_option (\<lambda>b. P_EVM_LOG_TX @ b) (tx_hash_body s)"

text \<open>The exclusive end of a family: one byte, wrapping at 256.\<close>

definition prefix_family_end :: "byte list \<Rightarrow> byte list option" where
  "prefix_family_end p = (case p of [] \<Rightarrow> None | b # bs \<Rightarrow> Some [b + 1])"

text \<open>An identifier behind its length, as the three NFT keys have it.\<close>

definition len_prefixed :: "string \<Rightarrow> byte list" where
  "len_prefixed s = (let t = utf8 (py_strip s) in pack_u32 (int (length t)) @ t)"

definition key_nft_token :: "string \<Rightarrow> byte list" where
  "key_nft_token s = P_NFT_TOKEN @ len_prefixed s"

definition key_nft_offer :: "string \<Rightarrow> byte list" where
  "key_nft_offer s = P_NFT_OFFER @ len_prefixed s"

definition key_nft_auction :: "string \<Rightarrow> byte list" where
  "key_nft_auction s = P_NFT_AUCTION @ len_prefixed s"

definition key_nft_sale :: "int \<Rightarrow> int \<Rightarrow> byte list" where
  "key_nft_sale created n = P_NFT_SALE @ pack_u64 (2 ^ 64 - 1 - created) @ pack_u64 n"

definition key_account :: "string \<Rightarrow> byte list" where
  "key_account a = P_ACCOUNT @ utf8 (normalize_address_key a)"

definition key_validator :: "string \<Rightarrow> byte list" where
  "key_validator a = P_VALIDATOR @ utf8 (normalize_address_key a)"

definition key_meta :: "string \<Rightarrow> byte list" where
  "key_meta n = P_META @ utf8 n"

definition key_burn :: "int \<Rightarrow> byte list" where
  "key_burn h = P_BURN @ pack_u64 h"

definition key_proposer_audit :: "int \<Rightarrow> byte list" where
  "key_proposer_audit h = P_PROPOSER_AUDIT @ pack_u64 h"

text \<open>\<open>iter_prefix_keys\<close>: the rows up to the first whose key has not the prefix.\<close>

fun iter_prefix_keys :: "(byte list \<times> 'v) list \<Rightarrow> byte list \<Rightarrow> (byte list \<times> 'v) list" where
  "iter_prefix_keys [] p = []"
| "iter_prefix_keys ((k, v) # rows) p =
     (if \<not> prefix p k then [] else (k, v) # iter_prefix_keys rows p)"

section \<open>The records of the store\<close>

datatype store_key =
    KBlockHeight int | KBlockHash string | KTx string | KBlockTx int string
  | KTxFrom string int string | KTxTo string int string | KTxRecent int int string
  | KTxProp string string | KBridgeLock string | KBridgeCredit string
  | KEvmLog int string int | KEvmLogTx string int
  | KNftToken string | KNftOffer string | KNftAuction string | KNftSale int int
  | KAccount string | KValidator string | KMeta string | KBurn int | KProposerAudit int

fun key_of :: "store_key \<Rightarrow> byte list option" where
  "key_of (KBlockHeight h) = Some (key_block_height h)"
| "key_of (KBlockHash s) = key_block_hash_to_height s"
| "key_of (KTx s) = key_tx s"
| "key_of (KBlockTx h s) = key_block_tx h s"
| "key_of (KTxFrom a h s) = key_tx_from_index a h s"
| "key_of (KTxTo a h s) = key_tx_to_index a h s"
| "key_of (KTxRecent h t s) = key_tx_recent_index h t s"
| "key_of (KTxProp s g) = key_tx_prop s g"
| "key_of (KBridgeLock s) = key_bridge_lock s"
| "key_of (KBridgeCredit s) = key_bridge_credit s"
| "key_of (KEvmLog h s i) = key_evm_log h s i"
| "key_of (KEvmLogTx s i) = key_evm_log_tx s i"
| "key_of (KNftToken s) = Some (key_nft_token s)"
| "key_of (KNftOffer s) = Some (key_nft_offer s)"
| "key_of (KNftAuction s) = Some (key_nft_auction s)"
| "key_of (KNftSale t n) = Some (key_nft_sale t n)"
| "key_of (KAccount a) = Some (key_account a)"
| "key_of (KValidator a) = Some (key_validator a)"
| "key_of (KMeta n) = Some (key_meta n)"
| "key_of (KBurn h) = Some (key_burn h)"
| "key_of (KProposerAudit h) = Some (key_proposer_audit h)"

end
