(* ===== verification/KeycodecProps.thy ===== *)
theory KeycodecProps
  imports Keycodec
begin

text \<open>
  What the key codec promises: distinct records have distinct keys, numbers sort as bytes the way they
  sort as numbers, and a prefix scan returns a record family. The locale \<open>prefix_codec\<close> is interpreted
  on the integer segments and on the length-prefixed identifiers.
\<close>

section \<open>Segments\<close>

lemma pack_u32_mod: "pack_u32 v = be_bytes 4 (v mod 2 ^ 32)"
  using take_bit_eq_mask [of 32 v] by (simp add: pack_u32_def take_bit_int_def mask_eq_exp_minus_1)

lemma pack_u64_mod: "pack_u64 v = be_bytes 8 (v mod 2 ^ 64)"
  using take_bit_eq_mask [of 64 v] by (simp add: pack_u64_def take_bit_int_def mask_eq_exp_minus_1)

lemma length_pack [simp]: "length (pack_u32 v) = 4" "length (pack_u64 v) = 8"
  by (simp_all add: pack_u32_def pack_u64_def)

definition u32 :: "int \<Rightarrow> bool" where "u32 v \<longleftrightarrow> 0 \<le> v \<and> v < 2 ^ 32"
definition u64 :: "int \<Rightarrow> bool" where "u64 v \<longleftrightarrow> 0 \<le> v \<and> v < 2 ^ 64"

lemma unpack_pack [simp]:
  "unpack_u32 (pack_u32 v) = Some (v mod 2 ^ 32)" "unpack_u64 (pack_u64 v) = Some (v mod 2 ^ 64)"
  by (simp_all add: unpack_u32_def unpack_u64_def pack_u32_mod pack_u64_mod)

definition dec_u32 :: "byte list \<Rightarrow> (int \<times> byte list) option" where
  "dec_u32 bs = map_option (\<lambda>v. (v, drop 4 bs)) (unpack_u32 (take 4 bs))"

definition dec_u64 :: "byte list \<Rightarrow> (int \<times> byte list) option" where
  "dec_u64 bs = map_option (\<lambda>v. (v, drop 8 bs)) (unpack_u64 (take 8 bs))"

definition dec_id :: "byte list \<Rightarrow> (byte list \<times> byte list) option" where
  "dec_id bs = (case dec_u32 bs of None \<Rightarrow> None
     | Some (n, r) \<Rightarrow> if int (length r) < n then None else Some (take (nat n) r, drop (nat n) r))"

interpretation seg32: prefix_codec pack_u32 dec_u32 u32
  by unfold_locales (simp add: dec_u32_def u32_def)

interpretation seg64: prefix_codec pack_u64 dec_u64 u64
  by unfold_locales (simp add: dec_u64_def u64_def)

text \<open>An identifier behind its length.\<close>

definition id_segment :: "byte list \<Rightarrow> byte list" where
  "id_segment t = pack_u32 (int (length t)) @ t"

interpretation seg_id: prefix_codec id_segment dec_id "\<lambda>t. u32 (int (length t))"
  by unfold_locales (simp add: dec_id_def id_segment_def seg32.dec_enc)

lemma len_prefixed_segment: "len_prefixed s = id_segment (utf8 (py_strip s))"
  by (simp add: len_prefixed_def id_segment_def Let_def)

section \<open>Canonical hashes\<close>

definition hash_ok :: "string \<Rightarrow> bool" where
  "hash_ok s \<longleftrightarrow> length s = 64 \<and> (\<forall>c\<in>set s. lower_hex c)"

lemma lower_hex_char: "lower_hex c \<Longrightarrow> \<not> py_is_space c \<and> py_lower_char c = c \<and> c \<noteq> CHR ''x'' \<and> c \<noteq> CHR ''+'' \<and> c \<noteq> CHR ''-''"
  by (auto simp: lower_hex_def py_is_space_def py_lower_char_def Let_def)

lemma hash_ok_norm: "hash_ok s \<Longrightarrow> norm_hash s = s"
  using lower_hex_char by (force simp: hash_ok_def norm_hash_def py_strip_no_space py_lower_def intro: map_idI)

lemma hash_ok_no_x: "hash_ok s \<Longrightarrow> CHR ''x'' \<notin> set s"
  using lower_hex_char by (fastforce simp: hash_ok_def)

lemma strip_0x_hash: "hash_ok s \<Longrightarrow> strip_0x s = s"
proof -
  assume "hash_ok s"
  then have "CHR ''x'' \<notin> set (take 2 s)" using hash_ok_no_x in_set_takeD by metis
  then show ?thesis by (auto simp: strip_0x_def)
qed

lemma remove_0x_id: "CHR ''x'' \<notin> set s \<Longrightarrow> remove_0x s = s"
  by (induction s rule: remove_0x.induct) auto

lemma last64_hash: "hash_ok s \<Longrightarrow> last64 s = s"
  by (auto simp: last64_def py_zfill_def hash_ok_def Let_def split: list.split)

lemma hash_body:
  assumes "hash_ok s"
  obtains b where "from_hex s = Some b" "length b = 32"
  using from_hex_lower [of s 32] assms by (auto simp: hash_ok_def)

lemma hash_keys:
  assumes "hash_ok s"
  shows "tx_hash_body s = from_hex s" "normalize_hash_key s = from_hex s" "key_tx s = map_option (\<lambda>b. P_TX @ b) (from_hex s)"
    "from_hex (last64 (remove_0x (norm_hash s))) = from_hex s"
proof -
  have n: "norm_hash s = s" "strip_0x s = s" "last64 s = s" "remove_0x s = s" "length s = 64"
    using assms by (simp_all add: hash_ok_norm strip_0x_hash last64_hash remove_0x_id hash_ok_no_x hash_ok_def)
  show k: "key_tx s = map_option (\<lambda>b. P_TX @ b) (from_hex s)" by (simp add: key_tx_def n)
  show "tx_hash_body s = from_hex s" by (cases "from_hex s") (simp_all add: tx_hash_body_def k)
  show "normalize_hash_key s = from_hex s" by (simp add: normalize_hash_key_def n)
  show "from_hex (last64 (remove_0x (norm_hash s))) = from_hex s" by (simp add: n)
qed

lemma hash_ok_inj: "hash_ok s \<Longrightarrow> hash_ok t \<Longrightarrow> from_hex s = from_hex t \<longleftrightarrow> s = t"
  using from_hex_inj [of s t 32] by (auto simp: hash_ok_def)

section \<open>Distinct records\<close>

definition addr_ok :: "string \<Rightarrow> bool" where "addr_ok a \<longleftrightarrow> normalize_address_key a = a"
definition id_ok :: "string \<Rightarrow> bool" where "id_ok s \<longleftrightarrow> py_strip s = s \<and> u32 (int (length (utf8 s)))"
definition stage_ok :: "string \<Rightarrow> bool" where "stage_ok g \<longleftrightarrow> length (utf8 g) \<le> 16"

text \<open>The records whose parameters are in range and in normal form.\<close>

fun key_ok :: "store_key \<Rightarrow> bool" where
  "key_ok (KBlockHeight h) = u64 h"
| "key_ok (KBlockHash s) = hash_ok s"
| "key_ok (KTx s) = hash_ok s"
| "key_ok (KBlockTx h s) = (u64 h \<and> hash_ok s)"
| "key_ok (KTxFrom a h s) = (addr_ok a \<and> u64 h \<and> hash_ok s)"
| "key_ok (KTxTo a h s) = (addr_ok a \<and> u64 h \<and> hash_ok s)"
| "key_ok (KTxRecent h t s) = (u64 h \<and> u64 t \<and> hash_ok s)"
| "key_ok (KTxProp s g) = (hash_ok s \<and> stage_ok g)"
| "key_ok (KBridgeLock s) = hash_ok s"
| "key_ok (KBridgeCredit s) = hash_ok s"
| "key_ok (KEvmLog h s i) = (u64 h \<and> hash_ok s \<and> u32 i)"
| "key_ok (KEvmLogTx s i) = (hash_ok s \<and> u32 i)"
| "key_ok (KNftToken s) = id_ok s"
| "key_ok (KNftOffer s) = id_ok s"
| "key_ok (KNftAuction s) = id_ok s"
| "key_ok (KNftSale t n) = (u64 t \<and> u64 n)"
| "key_ok (KAccount a) = addr_ok a"
| "key_ok (KValidator a) = addr_ok a"
| "key_ok (KMeta n) = True"
| "key_ok (KBurn h) = u64 h"
| "key_ok (KProposerAudit h) = u64 h"

definition hx :: "string \<Rightarrow> byte list" where
  "hx s = the (from_hex s)"

lemma from_hex_hx: "hash_ok s \<Longrightarrow> from_hex s = Some (hx s)"
  by (metis hash_body hx_def option.sel)

lemma length_hx [simp]: "hash_ok s \<Longrightarrow> length (hx s) = 32"
  by (metis hash_body hx_def option.sel)

lemma hx_inj [simp]: "hash_ok s \<Longrightarrow> hash_ok t \<Longrightarrow> hx s = hx t \<longleftrightarrow> s = t"
  using hash_ok_inj by (metis from_hex_hx)

lemma pack_inj [simp]:
  "u64 v \<Longrightarrow> u64 w \<Longrightarrow> pack_u64 v = pack_u64 w \<longleftrightarrow> v = w"
  "u32 v \<Longrightarrow> u32 w \<Longrightarrow> pack_u32 v = pack_u32 w \<longleftrightarrow> v = w"
  using seg64.enc_inj seg32.enc_inj by blast+

lemma u64_descending [simp]: "u64 v \<Longrightarrow> u64 (18446744073709551615 - v)"
  by (auto simp: u64_def)

text \<open>The family byte of a record, and the rest of its key.\<close>

fun family_of :: "store_key \<Rightarrow> byte" where
  "family_of (KBlockHeight h) = 0x01" | "family_of (KBlockHash s) = 0x02" | "family_of (KBlockTx h s) = 0x03"
| "family_of (KTx s) = 0x04" | "family_of (KTxFrom a h s) = 0x06" | "family_of (KTxTo a h s) = 0x07"
| "family_of (KTxRecent h t s) = 0x08" | "family_of (KAccount a) = 0x10" | "family_of (KValidator a) = 0x20"
| "family_of (KMeta n) = 0x40" | "family_of (KBurn h) = 0x41" | "family_of (KProposerAudit h) = 0x42"
| "family_of (KTxProp s g) = 0x44" | "family_of (KBridgeLock s) = 0x50" | "family_of (KBridgeCredit s) = 0x51"
| "family_of (KEvmLog h s i) = 0x52" | "family_of (KEvmLogTx s i) = 0x53" | "family_of (KNftToken s) = 0x54"
| "family_of (KNftOffer s) = 0x55" | "family_of (KNftAuction s) = 0x56" | "family_of (KNftSale t n) = 0x57"

fun rest_of :: "store_key \<Rightarrow> byte list" where
  "rest_of (KBlockHeight h) = pack_u64 h" | "rest_of (KBlockHash s) = hx s"
| "rest_of (KBlockTx h s) = pack_u64 h @ hx s" | "rest_of (KTx s) = hx s"
| "rest_of (KTxFrom a h s) = utf8 a @ pack_u64 h @ hx s" | "rest_of (KTxTo a h s) = utf8 a @ pack_u64 h @ hx s"
| "rest_of (KTxRecent h t s) = pack_u64 (2 ^ 64 - 1 - h) @ pack_u64 (2 ^ 64 - 1 - t) @ hx s"
| "rest_of (KAccount a) = utf8 a" | "rest_of (KValidator a) = utf8 a" | "rest_of (KMeta n) = utf8 n"
| "rest_of (KBurn h) = pack_u64 h" | "rest_of (KProposerAudit h) = pack_u64 h"
| "rest_of (KTxProp s g) = hx s @ utf8 g" | "rest_of (KBridgeLock s) = hx s" | "rest_of (KBridgeCredit s) = hx s"
| "rest_of (KEvmLog h s i) = pack_u64 h @ hx s @ pack_u32 i" | "rest_of (KEvmLogTx s i) = hx s @ pack_u32 i"
| "rest_of (KNftToken s) = id_segment (utf8 s)" | "rest_of (KNftOffer s) = id_segment (utf8 s)"
| "rest_of (KNftAuction s) = id_segment (utf8 s)"
| "rest_of (KNftSale t n) = pack_u64 (2 ^ 64 - 1 - t) @ pack_u64 n"

lemmas key_defs = key_block_height_def key_block_hash_to_height_def key_block_tx_def key_tx_from_index_def
  key_tx_to_index_def key_tx_recent_index_def key_tx_prop_def key_bridge_lock_def key_bridge_credit_def
  key_evm_log_def key_evm_log_tx_def key_nft_token_def key_nft_offer_def key_nft_auction_def key_nft_sale_def
  key_account_def key_validator_def key_meta_def key_burn_def key_proposer_audit_def

lemma key_of_parts: "key_ok k \<Longrightarrow> key_of k = Some (family_of k # rest_of k)"
  by (cases k) (simp_all add: key_defs P_defs hash_keys from_hex_hx addr_ok_def id_ok_def stage_ok_def
      len_prefixed_segment)

lemma id_segment_inj [simp]: "id_ok s \<Longrightarrow> id_ok t \<Longrightarrow> id_segment (utf8 s) = id_segment (utf8 t) \<longleftrightarrow> s = t"
  using seg_id.enc_inj [of "utf8 s" "utf8 t"] by (auto simp: id_ok_def)

lemma family_rest_inj:
  "key_ok k \<Longrightarrow> key_ok k' \<Longrightarrow> family_of k = family_of k' \<Longrightarrow> rest_of k = rest_of k' \<Longrightarrow> k = k'"
  by (cases k; cases k'; simp)

text \<open>C11: the keys of the store never collide. For records whose numbers fit their width, whose hashes
  are canonical and whose addresses and identifiers are in normal form, the codec returns a key, and two
  records have the same key only when they are the same record: neither the families nor the variable
  length parts (addresses, stages, identifiers) can be confused.\<close>

theorem store_keys_distinct:
  assumes "key_ok k" and "key_ok k'"
  shows "key_of k \<noteq> None \<and> (key_of k = key_of k' \<longleftrightarrow> k = k')"
  using family_rest_inj [OF assms] key_of_parts [OF assms(1)] key_of_parts [OF assms(2)] by auto

definition demo_hash :: "string" where
  "demo_hash = replicate 63 (CHR ''a'') @ ''1''"

lemma store_keys_distinct_witness:
  "key_of (KTxFrom ''alice'' 5 demo_hash) \<noteq> None
     \<and> key_of (KTxFrom ''alice'' 5 demo_hash) \<noteq> key_of (KTxTo ''alice'' 5 demo_hash)"
proof -
  have "key_ok (KTxFrom ''alice'' 5 demo_hash)" "key_ok (KTxTo ''alice'' 5 demo_hash)" by code_simp+
  from store_keys_distinct [OF this] show ?thesis by simp
qed

section \<open>Order\<close>

lemma pack_less [simp]: "u64 v \<Longrightarrow> u64 w \<Longrightarrow> pack_u64 v < pack_u64 w \<longleftrightarrow> v < w"
  using be_bytes_less_iff [of v 8 w] by (simp add: pack_u64_mod u64_def)

lemma append_less:
  fixes x :: "'a :: linorder list"
  shows "length x = length y \<Longrightarrow> x @ r < y @ r' \<longleftrightarrow> x < y \<or> x = y \<and> r < r'"
  by (induction x y rule: list_induct2) auto

lemma append_le:
  fixes x :: "'a :: linorder list"
  shows "length x = length y \<Longrightarrow> x @ r \<le> y @ r' \<longleftrightarrow> x < y \<or> x = y \<and> r \<le> r'"
  by (induction x y rule: list_induct2) auto

text \<open>numbers in keys sort as numbers. A scan of the block heights goes up, a scan of the recent
  transactions and of the sales goes down in time (a later record has the smaller key), and a log
  record lies between the bounds of a height range exactly when its height is in the range.\<close>

theorem key_order:
  assumes "u64 a" "u64 b" and "key_ok (KTxRecent h t s)" "key_ok (KTxRecent h' t' s')"
    and "key_ok (KEvmLog n x i)" "u64 lo" "u64 (hi + 1)"
  shows "(key_block_height a < key_block_height b \<longleftrightarrow> a < b)
    \<and> (h' < h \<or> h' = h \<and> t' < t \<longrightarrow> the (key_tx_recent_index h t s) < the (key_tx_recent_index h' t' s'))
    \<and> (b < a \<longrightarrow> key_nft_sale a k < key_nft_sale b k')
    \<and> (prefix_evm_logs_block lo \<le> the (key_evm_log n x i)
         \<and> the (key_evm_log n x i) < prefix_evm_logs_block (hi + 1) \<longleftrightarrow> lo \<le> n \<and> n \<le> hi)"
proof -
  have 1: "key_block_height a < key_block_height b \<longleftrightarrow> a < b"
    using assms(1,2) by (simp add: key_block_height_def P_defs)
  have 2: "the (key_tx_recent_index h t s) < the (key_tx_recent_index h' t' s')" if "h' < h \<or> h' = h \<and> t' < t"
    using assms(3,4) that by (auto simp: key_tx_recent_index_def P_defs hash_keys from_hex_hx append_less)
  have 3: "key_nft_sale a k < key_nft_sale b k'" if "b < a"
    using assms(1,2) that by (simp add: key_nft_sale_def P_defs append_less)
  have k: "the (key_evm_log n x i) = P_EVM_LOG @ pack_u64 n @ hx x @ pack_u32 i" and n: "u64 n"
    using assms(5) by (simp_all add: key_evm_log_def hash_keys from_hex_hx)
  have 4: "prefix_evm_logs_block lo \<le> the (key_evm_log n x i) \<longleftrightarrow> lo \<le> n"
    using append_le [of "pack_u64 lo" "pack_u64 n" "[]" "hx x @ pack_u32 i"] assms(6) n
    by (auto simp: prefix_evm_logs_block_def k P_defs)
  have 5: "the (key_evm_log n x i) < prefix_evm_logs_block (hi + 1) \<longleftrightarrow> n \<le> hi"
    using append_less [of "pack_u64 n" "pack_u64 (hi + 1)" "hx x @ pack_u32 i" "[]"] assms(7) n
    by (auto simp: prefix_evm_logs_block_def k P_defs)
  show ?thesis using 1 2 3 4 5 by simp
qed

lemma key_order_witness:
  "the (key_tx_recent_index 9 50 demo_hash) < the (key_tx_recent_index 9 40 demo_hash)
     \<and> prefix_evm_logs_block 3 \<le> the (key_evm_log 5 demo_hash 0)
     \<and> the (key_evm_log 5 demo_hash 0) < prefix_evm_logs_block (6 + 1)"
proof -
  have 1: "u64 1" "u64 2" "u64 3" "u64 (6 + 1)" by code_simp+
  have 2: "key_ok (KTxRecent 9 50 demo_hash)" "key_ok (KTxRecent 9 40 demo_hash)" "key_ok (KEvmLog 5 demo_hash 0)"
    by code_simp+
  show ?thesis using key_order [OF 1(1,2) 2 1(3,4)] by simp
qed

section \<open>Scans\<close>

lemma past_prefix:
  fixes p :: "'a :: linorder list"
  shows "p \<le> k \<Longrightarrow> \<not> prefix p k \<Longrightarrow> k \<le> k' \<Longrightarrow> \<not> prefix p k'"
proof (induction p arbitrary: k k')
  case (Cons a p)
  then show ?case by (cases k; cases k') (auto simp: prefix_Cons)
qed simp

lemma iter_prefix_filter:
  "sorted (map fst rows) \<Longrightarrow> \<forall>k\<in>fst ` set rows. p \<le> k \<Longrightarrow>
     iter_prefix_keys rows p = filter (\<lambda>(k, v). prefix p k) rows"
proof (induction rows p rule: iter_prefix_keys.induct)
  case (2 k v rows p)
  show ?case
  proof (cases "prefix p k")
    case False
    then have "filter (\<lambda>(k, v). prefix p k) rows = []"
      using "2.prems" past_prefix [of p k] by (force simp: filter_empty_conv)
    with False show ?thesis by simp
  qed (use 2 in simp)
qed simp

lemma prefix_cons_one: "prefix (b # p) (c # k) \<longleftrightarrow> b = c \<and> prefix p k"
  by simp

lemma tx_from_prefix:
  assumes "addr_ok a" "key_ok r" "\<forall>b h s. r = KTxFrom b h s \<longrightarrow> length (utf8 b) = length (utf8 a)"
  shows "prefix (prefix_tx_from a) (the (key_of r)) \<longleftrightarrow> (\<exists>h s. r = KTxFrom a h s)"
proof -
  have k: "the (key_of r) = family_of r # rest_of r" using key_of_parts [OF assms(2)] by simp
  have p: "prefix_tx_from a = 0x06 # utf8 a" using assms(1) by (simp add: prefix_tx_from_def P_defs addr_ok_def)
  show ?thesis
  proof (cases "\<exists>b h s. r = KTxFrom b h s")
    case True
    then obtain b h s where r: "r = KTxFrom b h s" by blast
    have "prefix (utf8 a) (utf8 b @ pack_u64 h @ hx s) \<longleftrightarrow> a = b"
      using assms(3) r by (auto simp: prefix_def append_eq_append_conv)
    with r k p show ?thesis by auto
  next
    case False
    then have "family_of r \<noteq> 0x06" by (cases r) simp_all
    with False show ?thesis by (auto simp: k p)
  qed
qed

text \<open>the scan of an address's sent transactions is exact. On any sorted run of records that starts
  at or after the address's prefix, iter_prefix_keys returns the records of that address's index and no
  others, in their order, as long as the addresses of the index have the same encoded length.\<close>

theorem address_scan_exact:
  assumes "addr_ok a" and "\<forall>r\<in>set recs. key_ok (fst r)"
    and "\<forall>r\<in>set recs. \<forall>b h s. fst r = KTxFrom b h s \<longrightarrow> length (utf8 b) = length (utf8 a)"
    and "sorted (map (\<lambda>r. the (key_of (fst r))) recs)"
    and "\<forall>r\<in>set recs. prefix_tx_from a \<le> the (key_of (fst r))"
  shows "iter_prefix_keys (map (\<lambda>r. (the (key_of (fst r)), snd r)) recs) (prefix_tx_from a)
    = map (\<lambda>r. (the (key_of (fst r)), snd r)) (filter (\<lambda>r. \<exists>h s. fst r = KTxFrom a h s) recs)"
proof -
  have "filter (\<lambda>r. prefix (prefix_tx_from a) (the (key_of (fst r)))) recs
      = filter (\<lambda>r. \<exists>h s. fst r = KTxFrom a h s) recs"
    using tx_from_prefix [OF assms(1)] assms(2,3) by (intro filter_cong) auto
  then show ?thesis
    using iter_prefix_filter [of "map (\<lambda>r. (the (key_of (fst r)), snd r)) recs" "prefix_tx_from a"] assms(4,5)
    by (simp add: comp_def filter_map case_prod_unfold image_image)
qed

definition demo_records :: "(store_key \<times> nat) list" where
  "demo_records = [(KTxFrom ''alice'' 5 demo_hash, 1), (KTxFrom ''alice'' 7 demo_hash, 2), (KTxFrom ''bobby'' 1 demo_hash, 3),
     (KTxTo ''alice'' 5 demo_hash, 4)]"

lemma address_scan_exact_witness:
  "map snd (iter_prefix_keys (map (\<lambda>r. (the (key_of (fst r)), snd r)) demo_records) (prefix_tx_from ''alice'')) = [1, 2]"
proof -
  have 1: "addr_ok ''alice''" "\<forall>r\<in>set demo_records. key_ok (fst r)"
    "sorted (map (\<lambda>r. the (key_of (fst r))) demo_records)"
    "\<forall>r\<in>set demo_records. prefix_tx_from ''alice'' \<le> the (key_of (fst r))" by code_simp+
  have 2: "\<forall>r\<in>set demo_records. \<forall>b h s. fst r = KTxFrom b h s \<longrightarrow> length (utf8 b) = length (utf8 ''alice'')"
    by (auto simp: demo_records_def utf8_char_def Let_def)
  show ?thesis using address_scan_exact [OF 1(1,2) 2 1(3,4)] by (simp add: demo_records_def)
qed

text \<open>Without the same length it is not: a scan for the label \<open>pool\<close> also takes the keys of \<open>pool2\<close>,
  and the height read behind the prefix is not a height.\<close>

lemma address_scan_longer_label:
  "prefix (prefix_tx_from ''pool'') (the (key_tx_from_index ''pool2'' 1 demo_hash))"
  "unpack_u64 (take 8 (drop (length (prefix_tx_from ''pool'')) (the (key_tx_from_index ''pool2'' 1 demo_hash)))) = Some 3602879701896396800"
  by code_simp+

end
