(* ===== verification/Rlp.thy ===== *)
theory Rlp
  imports Bytes
begin

text \<open>
  The RLP codec of \<open>crypto/rlp.py\<close>, in its Python code (the native kernel that may replace it is not
  modelled). An item is a byte string, an integer or a list. Encoding raises, as \<open>None\<close>, for a negative
  integer and for a string too long for its length byte; decoding raises the code's \<open>ValueError\<close>s.
  Decoding recurses on positions: \<open>rlp_decode\<close> has fuel, and \<open>rlp_decode_total\<close> shows how much is
  always enough, which is what \<open>rlp_decode_at\<close> gives it.
\<close>

datatype rlp_item = RBytes "byte list" | RInt int | RList "rlp_item list"

datatype rlp_error = RlpTruncated | RlpInvalidList | RlpTrailing | RlpExpectedScalar | RlpFuel

section \<open>Encoding\<close>

fun bit_length :: "nat \<Rightarrow> nat" where
  "bit_length n = (if n = 0 then 0 else Suc (bit_length (n div 2)))"

declare bit_length.simps [simp del]

lemma bit_length_0 [simp]: "bit_length 0 = 0"
  by (simp add: bit_length.simps [of 0])

text \<open>\<open>_python_int_to_bytes\<close>; \<open>to_bytes\<close> raises for a negative value.\<close>

definition int_to_bytes :: "int \<Rightarrow> byte list option" where
  "int_to_bytes v =
     (if v = 0 then Some []
      else if v < 0 then None
      else Some (be_bytes ((bit_length (nat v) + 7) div 8) v))"

text \<open>\<open>bytes([n])\<close>.\<close>

definition one_byte :: "nat \<Rightarrow> byte option" where
  "one_byte n = (if n < 256 then Some (of_nat n) else None)"

definition rlp_string :: "byte list \<Rightarrow> byte list option" where
  "rlp_string d =
     (if length d = 1 \<and> d ! 0 \<le> 0x7F then Some d
      else if d = [] then Some [0x80]
      else map_option (\<lambda>b. b # d) (one_byte (0x80 + length d)))"

definition rlp_wrap_list :: "byte list \<Rightarrow> byte list option" where
  "rlp_wrap_list payload =
     (if length payload \<le> 55 then map_option (\<lambda>b. b # payload) (one_byte (0xC0 + length payload))
      else (case int_to_bytes (int (length payload)) of
              None \<Rightarrow> None
            | Some lb \<Rightarrow> map_option (\<lambda>b. b # lb @ payload) (one_byte (0xF7 + length lb))))"

text \<open>
  \<open>_python_encode\<close> and \<open>_python_normalize_item\<close>, which hand every item that is not theirs to the other
  and so agree on all items; \<open>rlp_payload\<close> joins the children of a list.
\<close>

fun rlp_encode :: "rlp_item \<Rightarrow> byte list option" and rlp_payload :: "rlp_item list \<Rightarrow> byte list option" where
  "rlp_encode (RBytes d) = rlp_string d"
| "rlp_encode (RInt v) = (case int_to_bytes v of None \<Rightarrow> None | Some d \<Rightarrow> rlp_string d)"
| "rlp_encode (RList xs) = (case rlp_payload xs of None \<Rightarrow> None | Some p \<Rightarrow> rlp_wrap_list p)"
| "rlp_payload [] = Some []"
| "rlp_payload (x # xs) =
     (case rlp_encode x of None \<Rightarrow> None | Some b \<Rightarrow> map_option (\<lambda>p. b @ p) (rlp_payload xs))"

section \<open>Decoding\<close>

text \<open>The first branch is for a prefix of a short form, with which no caller comes here.\<close>

definition decode_length :: "byte list \<Rightarrow> nat \<Rightarrow> nat \<Rightarrow> rlp_error + (nat \<times> nat)" where
  "decode_length data pos offset =
     (if pos \<ge> length data then Inl RlpTruncated
      else (let p = unat (data ! pos) in
        if p < offset + 0x37 then Inr (p - offset, pos + 1)
        else (let n = p - (offset + 0x37); start = pos + 1; end' = start + n in
          if end' > length data then Inl RlpTruncated
          else Inr (nat (be_value (take n (drop start data))), end'))))"

definition slice_at :: "byte list \<Rightarrow> nat \<Rightarrow> nat \<Rightarrow> rlp_error + (rlp_item \<times> nat)" where
  "slice_at data start n =
     (if start + n > length data then Inl RlpTruncated
      else Inr (RBytes (take n (drop start data)), start + n))"

text \<open>
  The branches of \<open>_python_decode\<close> on the prefix byte, up to the loop over the children of a list: the
  answer (left), or the range of the children (right).
\<close>

definition rlp_head ::
  "byte list \<Rightarrow> nat \<Rightarrow> (rlp_error + (rlp_item \<times> nat)) + (nat \<times> nat)" where
  "rlp_head data pos =
     (if pos \<ge> length data then Inl (Inl RlpTruncated)
      else (let p = unat (data ! pos) in
        if p \<le> 0x7F then Inl (Inr (RBytes [data ! pos], pos + 1))
        else if p \<le> 0xB7 then
          (if p - 0x80 = 0 then Inl (Inr (RBytes [], pos + 1)) else Inl (slice_at data (pos + 1) (p - 0x80)))
        else if p \<le> 0xBF then
          (case decode_length data pos 0x80 of Inl e \<Rightarrow> Inl (Inl e)
           | Inr (n, start) \<Rightarrow> Inl (slice_at data start n))
        else if p \<le> 0xF7 then
          (let start = pos + 1; end' = start + (p - 0xC0) in
           if end' > length data then Inl (Inl RlpTruncated) else Inr (start, end'))
        else
          (case decode_length data pos 0xC0 of Inl e \<Rightarrow> Inl (Inl e)
           | Inr (n, start) \<Rightarrow>
               if start + n > length data then Inl (Inl RlpTruncated) else Inr (start, start + n))))"

text \<open>The check behind the loop: the children have to end where the list does.\<close>

definition list_end :: "nat \<Rightarrow> rlp_error + (rlp_item list \<times> nat) \<Rightarrow> rlp_error + (rlp_item \<times> nat)" where
  "list_end end' r = (case r of Inl e \<Rightarrow> Inl e
     | Inr (items, cursor) \<Rightarrow> if cursor \<noteq> end' then Inl RlpInvalidList else Inr (RList items, end'))"

fun rlp_decode :: "nat \<Rightarrow> byte list \<Rightarrow> nat \<Rightarrow> rlp_error + (rlp_item \<times> nat)"
  and rlp_children :: "nat \<Rightarrow> byte list \<Rightarrow> nat \<Rightarrow> nat \<Rightarrow> rlp_error + (rlp_item list \<times> nat)"
where
  "rlp_decode 0 data pos = Inl RlpFuel"
| "rlp_decode (Suc f) data pos =
     (case rlp_head data pos of
        Inl r \<Rightarrow> r
      | Inr (start, end') \<Rightarrow> list_end end' (rlp_children f data start end'))"
| "rlp_children 0 data cursor end' = Inl RlpFuel"
| "rlp_children (Suc f) data cursor end' =
     (if cursor < end' then
        (case rlp_decode f data cursor of Inl e \<Rightarrow> Inl e
         | Inr (child, next') \<Rightarrow>
             (case rlp_children f data next' end' of Inl e \<Rightarrow> Inl e
              | Inr (cs, last') \<Rightarrow> Inr (child # cs, last')))
      else Inr ([], cursor))"

definition rlp_decode_at :: "byte list \<Rightarrow> nat \<Rightarrow> rlp_error + (rlp_item \<times> nat)" where
  "rlp_decode_at data pos = rlp_decode (2 * (length data - pos) + 1) data pos"

definition decode_single :: "byte list \<Rightarrow> rlp_error + rlp_item" where
  "decode_single data =
     (case rlp_decode_at data 0 of Inl e \<Rightarrow> Inl e
      | Inr (item, end') \<Rightarrow> if end' \<noteq> length data then Inl RlpTrailing else Inr item)"

fun item_to_int :: "rlp_item \<Rightarrow> rlp_error + int" where
  "item_to_int (RInt v) = Inr v"
| "item_to_int (RList xs) = Inl RlpExpectedScalar"
| "item_to_int (RBytes d) = (if d = [] then Inr 0 else Inr (be_value d))"

section \<open>Termination and bounds\<close>

lemma slice_at_bounds: "slice_at data start n = Inr (x, e) \<Longrightarrow> e = start + n \<and> e \<le> length data"
  by (auto simp: slice_at_def split: if_splits)

lemma slice_at_fuel [simp]: "slice_at data start n \<noteq> Inl RlpFuel"
  by (simp add: slice_at_def)

lemma decode_length_bounds:
  "decode_length data pos offset = Inr (n, start) \<Longrightarrow> pos < start \<and> start \<le> length data"
  by (auto simp: decode_length_def Let_def split: if_splits)

lemma decode_length_fuel [simp]: "decode_length data pos offset \<noteq> Inl RlpFuel"
  by (simp add: decode_length_def Let_def)

lemma list_end_Inr: "list_end e r = Inr (x, e') \<longleftrightarrow> (\<exists>items. r = Inr (items, e) \<and> x = RList items \<and> e' = e)"
  by (auto simp: list_end_def split: sum.split)

lemma list_end_fuel: "list_end e r = Inl RlpFuel \<longleftrightarrow> r = Inl RlpFuel"
  by (auto simp: list_end_def split: sum.split)

lemma rlp_head_range:
  "rlp_head data pos = Inr (start, end') \<Longrightarrow> pos < start \<and> start \<le> end' \<and> end' \<le> length data"
  by (auto simp: rlp_head_def Let_def dest: decode_length_bounds split: if_splits sum.splits)

lemma rlp_head_answer:
  "rlp_head data pos = Inl (Inr (x, e)) \<Longrightarrow> pos < e \<and> e \<le> length data"
  "rlp_head data pos \<noteq> Inl (Inl RlpFuel)"
  by (auto simp: rlp_head_def Let_def dest!: decode_length_bounds slice_at_bounds split: if_splits sum.splits)

lemma decode_bounds:
  "rlp_decode f data pos = Inr (x, e) \<Longrightarrow> pos < e \<and> e \<le> length data"
  by (cases f) (auto simp: list_end_Inr dest!: rlp_head_range rlp_head_answer(1) split: sum.splits)

lemma decode_fuel:
  "2 * (length data - pos) + 1 \<le> f \<Longrightarrow> rlp_decode f data pos \<noteq> Inl RlpFuel"
  "2 * (length data - cursor) + 2 \<le> f \<Longrightarrow> end' \<le> length data \<Longrightarrow> rlp_children f data cursor end' \<noteq> Inl RlpFuel"
proof (induction f data pos and f data cursor end' rule: rlp_decode_rlp_children.induct)
  case (2 f data pos)
  show ?case
  proof (cases "rlp_head data pos")
    case (Inl r)
    then show ?thesis using rlp_head_answer(2) by auto
  next
    case (Inr r)
    obtain start end' where r: "r = (start, end')" by fastforce
    with Inr have "pos < start" "start \<le> end'" "end' \<le> length data" using rlp_head_range by blast+
    then have "rlp_children f data start end' \<noteq> Inl RlpFuel"
      using "2.IH" [OF Inr r [symmetric]] "2.prems" by linarith
    with Inr r show ?thesis by (simp add: list_end_fuel)
  qed
next
  case (4 f data cursor end')
  show ?case
  proof (cases "cursor < end'")
    case True
    have d: "rlp_decode f data cursor \<noteq> Inl RlpFuel" using "4.IH"(1) [OF True] "4.prems" by simp
    show ?thesis
    proof (cases "rlp_decode f data cursor")
      case (Inr r)
      obtain child nxt where r: "r = (child, nxt)" by fastforce
      have "cursor < nxt" "nxt \<le> length data" using decode_bounds Inr r by metis+
      then have "rlp_children f data nxt end' \<noteq> Inl RlpFuel"
        using "4.IH"(2) [OF True Inr r [symmetric]] "4.prems" True by linarith
      with Inr r True show ?thesis by (auto split: sum.split)
    qed (use d True in auto)
  qed simp
qed simp_all

end
