(* ===== verification/RlpProps.thy ===== *)
theory RlpProps
  imports Rlp
begin

text \<open>
  Round trip and safety of the RLP codec. Items whose strings have at most 55 bytes decode to
  themselves, integers becoming their big-endian bytes; the locale \<open>prefix_codec\<close>, interpreted on
  \<open>rlp_encode\<close> and \<open>rlp_decode\<close>, gives unique decoding. Longer strings do not survive: the encoder has
  no long-string form.
\<close>

section \<open>Encoded heads\<close>

lemma less_bit_length: "n < 2 ^ bit_length n"
proof (induction n rule: bit_length.induct)
  case (1 n)
  show ?case
  proof (cases "n = 0")
    case False
    then have "n div 2 < 2 ^ bit_length (n div 2)" using 1 by simp
    then have "n < 2 * 2 ^ bit_length (n div 2)" by linarith
    with False show ?thesis by (simp add: bit_length.simps [of n])
  qed simp
qed

lemma int_to_bytes_value:
  assumes "int_to_bytes v = Some d"
  shows "be_value d = v \<and> 0 \<le> v \<and> (v \<noteq> 0 \<longrightarrow> d \<noteq> [])"
proof (cases "v = 0")
  case False
  let ?l = "(bit_length (nat v) + 7) div 8"
  from False assms have v: "0 < v" and d: "d = be_bytes ?l v" by (auto simp: int_to_bytes_def split: if_splits)
  have "nat v < 2 ^ bit_length (nat v)" by (rule less_bit_length)
  also have "\<dots> \<le> 2 ^ (8 * ?l)" by (rule power_increasing) simp_all
  finally have "v < 256 ^ ?l" using v by (simp add: power_mult nat_less_iff)
  moreover have "?l \<noteq> 0" using v by (simp add: bit_length.simps [of "nat v"])
  ultimately show ?thesis using v by (auto simp: d dest: arg_cong [where f = length])
qed (use assms in \<open>simp add: int_to_bytes_def\<close>)

lemma unat_one_byte: "one_byte n = Some b \<Longrightarrow> unat b = n \<and> n < 256"
  by (auto simp: one_byte_def unat_of_nat split: if_splits)

lemma rlp_head_string:
  assumes "rlp_string d = Some b" "length d \<le> 55"
  shows "rlp_head (pre @ b @ rest) (length pre) = Inl (Inr (RBytes d, length pre + length b)) \<and> b \<noteq> []"
proof (cases "length d = 1 \<and> d ! 0 \<le> 0x7F")
  case True
  then obtain x where d: "d = [x]" "x \<le> 0x7F" by (auto simp: length_Suc_conv)
  then have "unat x \<le> 127" by (simp add: word_le_nat_alt)
  moreover have "b = [x]" using assms(1) d by (simp add: rlp_string_def)
  ultimately show ?thesis using d by (simp add: rlp_head_def nth_append)
next
  case False
  show ?thesis
  proof (cases "d = []")
    case True
    with assms(1) have "b = [0x80]" by (simp add: rlp_string_def)
    with True show ?thesis by (simp add: rlp_head_def nth_append)
  next
    case d: False
    with assms(1) False obtain x where b: "b = x # d" "one_byte (0x80 + length d) = Some x"
      by (auto simp: rlp_string_def split: if_splits)
    have "unat x = 0x80 + length d" using unat_one_byte [OF b(2)] by simp
    with b d assms(2) show ?thesis by (auto simp: rlp_head_def nth_append slice_at_def Let_def)
  qed
qed

lemma rlp_head_list:
  assumes "rlp_wrap_list p = Some b"
  obtains h where "b = h @ p" "h \<noteq> []"
    "\<And>pre rest. rlp_head (pre @ b @ rest) (length pre) = Inr (length (pre @ h), length (pre @ h) + length p)"
proof (cases "length p \<le> 55")
  case True
  with assms obtain x where b: "b = x # p" "one_byte (0xC0 + length p) = Some x"
    by (auto simp: rlp_wrap_list_def)
  have "unat x = 0xC0 + length p" using unat_one_byte [OF b(2)] by simp
  with True b show thesis
    by (intro that [of "[x]"]) (auto simp: rlp_head_def nth_append Let_def)
next
  case False
  with assms obtain lb x where lb: "int_to_bytes (int (length p)) = Some lb" "one_byte (0xF7 + length lb) = Some x"
      and b: "b = x # lb @ p"
    by (auto simp: rlp_wrap_list_def split: option.splits)
  have x: "unat x = 0xF7 + length lb" using unat_one_byte [OF lb(2)] by simp
  have v: "be_value lb = int (length p)" "lb \<noteq> []" using int_to_bytes_value [OF lb(1)] False by auto
  have "decode_length (pre @ b @ rest) (length pre) 0xC0 = Inr (length p, length (pre @ x # lb))" for pre rest
    using v by (simp add: decode_length_def b nth_append x)
  then show thesis
    using v(2) by (intro that [of "x # lb"]) (auto simp: rlp_head_def b nth_append x Let_def)
qed

section \<open>The round trip\<close>

fun rlp_small :: "rlp_item \<Rightarrow> bool" where
  "rlp_small (RBytes d) = (length d \<le> 55)"
| "rlp_small (RInt v) = (case int_to_bytes v of None \<Rightarrow> False | Some d \<Rightarrow> length d \<le> 55)"
| "rlp_small (RList xs) = list_all rlp_small xs"

fun rlp_norm :: "rlp_item \<Rightarrow> rlp_item" where
  "rlp_norm (RBytes d) = RBytes d"
| "rlp_norm (RInt v) = RBytes (the (int_to_bytes v))"
| "rlp_norm (RList xs) = RList (map rlp_norm xs)"

lemma rlp_encode_not_Nil: "rlp_encode x = Some b \<Longrightarrow> b \<noteq> []"
  by (cases x) (auto simp: rlp_string_def rlp_wrap_list_def split: if_splits option.splits)

lemma decode_encode_fuel:
  "rlp_small x \<Longrightarrow> rlp_encode x = Some b \<Longrightarrow> 2 * length b + 1 \<le> f \<Longrightarrow>
     rlp_decode f (pre @ b @ rest) (length pre) = Inr (rlp_norm x, length pre + length b)"
  "list_all rlp_small xs \<Longrightarrow> rlp_payload xs = Some b \<Longrightarrow> 2 * length b + 2 \<le> f \<Longrightarrow>
     rlp_children f (pre @ b @ rest) (length pre) (length pre + length b) = Inr (map rlp_norm xs, length pre + length b)"
proof (induction x and xs arbitrary: b f pre rest and b f pre rest rule: rlp_encode_rlp_payload.induct)
  case (1 d)
  then show ?case using rlp_head_string [of d b pre rest] by (cases f) simp_all
next
  case (2 v)
  then obtain d where "int_to_bytes v = Some d" "rlp_string d = Some b" "length d \<le> 55"
    by (auto split: option.splits)
  then show ?case using 2(3) rlp_head_string [of d b pre rest] by (cases f) simp_all
next
  case (3 xs)
  then obtain p where p: "rlp_payload xs = Some p" "rlp_wrap_list p = Some b" by (auto split: option.splits)
  obtain h where h: "b = h @ p" "h \<noteq> []"
      "rlp_head (pre @ b @ rest) (length pre) = Inr (length (pre @ h), length (pre @ h) + length p)"
    using rlp_head_list [OF p(2)] by metis
  obtain f' where f: "f = Suc f'" using "3.prems"(3) by (cases f) auto
  have "Suc (length p) \<le> length b" using h(1,2) by (cases h) auto
  then have "2 * length p + 2 \<le> f'" using "3.prems"(3) f by simp
  then have "rlp_children f' ((pre @ h) @ p @ rest) (length (pre @ h)) (length (pre @ h) + length p)
      = Inr (map rlp_norm xs, length (pre @ h) + length p)"
    using "3.IH" [of p f' "pre @ h" rest] "3.prems"(1) p(1) by simp
  then show ?case using h f by (simp add: list_end_def)
next
  case (5 x xs)
  then obtain c p where c: "rlp_encode x = Some c" "rlp_payload xs = Some p" "b = c @ p"
    by (auto split: option.splits)
  obtain f' where f: "f = Suc f'" using "5.prems"(3) by (cases f) auto
  have "c \<noteq> []" using rlp_encode_not_Nil [OF c(1)] .
  then have n: "Suc 0 \<le> length c" "c \<noteq> []" by (cases c; simp)+
  have "rlp_decode f' (pre @ c @ p @ rest) (length pre) = Inr (rlp_norm x, length pre + length c)"
    using "5.IH"(1) [of c f' pre "p @ rest"] "5.prems" c f by simp
  moreover have "rlp_children f' ((pre @ c) @ p @ rest) (length (pre @ c)) (length (pre @ c) + length p)
      = Inr (map rlp_norm xs, length (pre @ c) + length p)"
    using "5.IH"(2) [of c p f' "pre @ c" rest] "5.prems" c f n by simp
  ultimately show ?case using c f n by (simp add: add.assoc)
next
  case 4
  then show ?case by (cases f) simp_all
qed

definition rlp_normal :: "rlp_item \<Rightarrow> bool" where
  "rlp_normal x \<longleftrightarrow> rlp_small x \<and> rlp_encode x \<noteq> None \<and> rlp_norm x = x"

definition rlp_bytes :: "rlp_item \<Rightarrow> byte list" where
  "rlp_bytes x = the (rlp_encode x)"

definition rlp_front :: "byte list \<Rightarrow> (rlp_item \<times> byte list) option" where
  "rlp_front bs = (case rlp_decode_at bs 0 of Inl e \<Rightarrow> None | Inr (x, e) \<Rightarrow> Some (x, drop e bs))"

lemma decode_at_encode:
  assumes "rlp_small x" "rlp_encode x = Some b"
  shows "rlp_decode_at (pre @ b @ rest) (length pre) = Inr (rlp_norm x, length pre + length b)"
  unfolding rlp_decode_at_def by (rule decode_encode_fuel(1)) (use assms in simp_all)

interpretation rlp: prefix_codec rlp_bytes rlp_front rlp_normal
  using decode_at_encode [of _ _ "[]", simplified]
  by unfold_locales (auto simp: rlp_front_def rlp_bytes_def rlp_normal_def)

text \<open>C12: an item whose strings and integers take at most 55 bytes each, nested to any depth, is read
  back by decode_single from its encoding, integers as their big-endian bytes; from the middle of a
  message the decoder reads exactly the item's bytes. So two such items in normal form with the same
  encoding are equal.\<close>

theorem rlp_round_trip:
  assumes "rlp_small x" and "rlp_encode x = Some b"
  shows "decode_single b = Inr (rlp_norm x)
    \<and> rlp_decode_at (pre @ b @ rest) (length pre) = Inr (rlp_norm x, length pre + length b)
    \<and> (\<forall>y. rlp_normal x \<longrightarrow> rlp_normal y \<longrightarrow> rlp_encode y = Some b \<longrightarrow> x = y)"
  using decode_at_encode [OF assms] decode_at_encode [OF assms, of "[]" "[]"] assms(2) rlp.enc_inj [of x]
  by (auto simp: decode_single_def rlp_bytes_def)

definition demo_item :: rlp_item where
  "demo_item = RList [RInt 0, RInt 300, RBytes [0x7F], RBytes (replicate 55 0xAB), RList []]"

lemma rlp_round_trip_witness:
  "decode_single (the (rlp_encode demo_item))
     = Inr (RList [RBytes [], RBytes [1, 44], RBytes [0x7F], RBytes (replicate 55 0xAB), RList []])"
proof -
  have s: "rlp_small demo_item" by code_simp
  have "rlp_encode demo_item \<noteq> None" by code_simp
  then obtain b where b: "rlp_encode demo_item = Some b" by blast
  have n: "rlp_norm demo_item = RList [RBytes [], RBytes [1, 44], RBytes [0x7F], RBytes (replicate 55 0xAB), RList []]"
    by code_simp
  show ?thesis using rlp_round_trip [OF s b] by (simp add: b n)
qed

text \<open>decoding any bytes, hostile ones included, from any position ends with an answer (the fuel
  given is always enough) and, when it succeeds, has consumed at least one byte and none behind the end.\<close>

theorem rlp_decode_total:
  "rlp_decode_at data pos \<noteq> Inl RlpFuel
     \<and> (\<forall>x e. rlp_decode_at data pos = Inr (x, e) \<longrightarrow> pos < e \<and> e \<le> length data)"
  unfolding rlp_decode_at_def using decode_fuel(1) [OF order_refl] decode_bounds by blast

lemma rlp_decode_total_witness:
  "rlp_decode_at [0xC2, 0x81, 0x80, 0xFF] 0 = Inr (RList [RBytes [0x80]], 3) \<and> (0 :: nat) < 3
     \<and> 3 \<le> length [0xC2, 0x81, 0x80, 0xFF :: byte]"
proof -
  have "rlp_decode_at [0xC2, 0x81, 0x80, 0xFF] 0 = Inr (RList [RBytes [0x80]], 3)" by code_simp
  with rlp_decode_total [of "[0xC2, 0x81, 0x80, 0xFF]" 0] show ?thesis by blast
qed

text \<open>A string of 56 bytes gets a length byte that means something else: its encoding does not decode.\<close>

lemma rlp_long_string_lost:
  "map_option decode_single (rlp_encode (RBytes (replicate 56 0))) = Some (Inl RlpTrailing)"
  "rlp_encode (RBytes (replicate 128 0)) = None"
  by code_simp+

end
