(* ===== verification/Ghost.thy ===== *)
theory Ghost
  imports Prelude "HOL-Library.Char_ord" "HOL-Library.List_Lexorder"
begin

text \<open>
  The GHOST fork choice of \<open>consensus/ghost.py\<close>, in its Python reference code (the native kernels that
  may replace it are not modelled): the block tree is a dictionary from hashes to nodes with a parent,
  children and a number; weights are another. The depth-first loop of \<open>_cumulative_weight_py\<close> does not
  return on a cyclic tree, so it is a partial function, \<open>None\<close> when it does not return; the walks built on
  it are too. The properties are in \<open>GhostProps\<close>.
\<close>

record ghost_node =
  gn_parent :: "string option"
  gn_children :: "string list"
  gn_number :: int

type_synonym ghost_tree = "(string \<times> ghost_node) list"
type_synonym ghost_weights = "(string \<times> int) list"

text \<open>\<open>tree.get(n, {}).get("children", [])\<close>, and the same for the parent and the number.\<close>

definition children_of :: "ghost_tree \<Rightarrow> string \<Rightarrow> string list" where
  "children_of t n = (case dget t n of None \<Rightarrow> [] | Some d \<Rightarrow> gn_children d)"

definition parent_of :: "ghost_tree \<Rightarrow> string \<Rightarrow> string option" where
  "parent_of t n = (case dget t n of None \<Rightarrow> None | Some d \<Rightarrow> gn_parent d)"

definition number_of :: "ghost_tree \<Rightarrow> string \<Rightarrow> int" where
  "number_of t n = (case dget t n of None \<Rightarrow> 0 | Some d \<Rightarrow> gn_number d)"

section \<open>Cumulative weight\<close>

text \<open>The loop, with the top of the stack at the head of the list, and the memo it leaves.\<close>

partial_function (option) cw_loop ::
  "ghost_tree \<Rightarrow> ghost_weights \<Rightarrow> (string \<times> bool) list \<Rightarrow> (string \<times> int) list \<Rightarrow> (string \<times> int) list option"
where
  "cw_loop t w stack memo =
     (case stack of
        [] \<Rightarrow> Some memo
      | (node, expanded) # st \<Rightarrow>
          if expanded then
            (let total = dget_or w node 0 + sum_list (map (\<lambda>c. dget_or memo c 0) (children_of t node))
             in cw_loop t w st (dset node total memo))
          else
            cw_loop t w (map (\<lambda>c. (c, False)) (filter (\<lambda>c. dget memo c = None) (children_of t node))
                           @ (node, True) # st) memo)"

declare cw_loop.simps [code]

definition cumulative_weight :: "ghost_tree \<Rightarrow> ghost_weights \<Rightarrow> string \<Rightarrow> int option" where
  "cumulative_weight t w b =
     (case cw_loop t w [(b, False)] [] of
        None \<Rightarrow> None
      | Some memo \<Rightarrow> Some (dget_or memo b (dget_or w b 0)))"

section \<open>Choosing the root and the head\<close>

definition forest_roots :: "ghost_tree \<Rightarrow> string list" where
  "forest_roots t = map fst (filter (\<lambda>(h, d). gn_parent d = None) t)"

text \<open>The loop of \<open>_pick_genesis\<close> over several roots, with the best root and weight so far.\<close>

fun pick_root ::
  "ghost_tree \<Rightarrow> ghost_weights \<Rightarrow> string list \<Rightarrow> string option \<Rightarrow> int \<Rightarrow> string option option"
where
  "pick_root t w [] best best_w = Some best"
| "pick_root t w (r # rs) best best_w =
     (case cumulative_weight t w r of
        None \<Rightarrow> None
      | Some cum \<Rightarrow>
          if cum > best_w \<or> (cum = best_w \<and> (case best of None \<Rightarrow> True | Some b \<Rightarrow> r < b))
          then pick_root t w rs (Some r) cum
          else pick_root t w rs best best_w)"

definition pick_genesis :: "ghost_tree \<Rightarrow> ghost_weights \<Rightarrow> string option option" where
  "pick_genesis t w =
     (case forest_roots t of [] \<Rightarrow> Some None | [r] \<Rightarrow> Some (Some r)
      | rs \<Rightarrow> pick_root t w rs None (- 1))"

text \<open>The loop over the children: the heaviest, then the higher number, then the smaller hash.\<close>

fun best_child ::
  "ghost_tree \<Rightarrow> ghost_weights \<Rightarrow> string list \<Rightarrow> string option \<Rightarrow> int \<Rightarrow> string option option"
where
  "best_child t w [] best best_w = Some best"
| "best_child t w (c # cs) best best_w =
     (case cumulative_weight t w c of
        None \<Rightarrow> None
      | Some cum \<Rightarrow>
          if cum > best_w then best_child t w cs (Some c) cum
          else (case best of
              None \<Rightarrow> best_child t w cs best best_w
            | Some b \<Rightarrow>
                if cum = best_w
                   \<and> (number_of t c > number_of t b \<or> (number_of t c = number_of t b \<and> c < b))
                then best_child t w cs (Some c) best_w
                else best_child t w cs best best_w))"

partial_function (option) ghost_walk ::
  "ghost_tree \<Rightarrow> ghost_weights \<Rightarrow> string \<Rightarrow> string list \<Rightarrow> string option"
where
  "ghost_walk t w current visited =
     (if current \<in> set visited then Some current
      else if children_of t current = [] then Some current
      else (case best_child t w (children_of t current) None (- 1) of
          None \<Rightarrow> None
        | Some None \<Rightarrow> Some current
        | Some (Some c) \<Rightarrow> ghost_walk t w c (current # visited)))"

declare ghost_walk.simps [code]

definition select_head :: "ghost_tree \<Rightarrow> ghost_weights \<Rightarrow> string option option" where
  "select_head t w =
     (if t = [] then Some None
      else (case pick_genesis t w of
          None \<Rightarrow> None
        | Some None \<Rightarrow> Some None
        | Some (Some g) \<Rightarrow> map_option Some (ghost_walk t w g [])))"

text \<open>The walk back to the root; the chain is collected from the head and reversed at the end.\<close>

partial_function (option) chain_back :: "ghost_tree \<Rightarrow> string option \<Rightarrow> string list \<Rightarrow> string list option" where
  "chain_back t current chain =
     (case current of
        None \<Rightarrow> Some (rev chain)
      | Some c \<Rightarrow> if c = [] then Some (rev chain) else chain_back t (parent_of t c) (chain @ [c]))"

declare chain_back.simps [code]

definition chain_from_head :: "ghost_tree \<Rightarrow> ghost_weights \<Rightarrow> string list option" where
  "chain_from_head t w =
     (case select_head t w of
        None \<Rightarrow> None
      | Some None \<Rightarrow> Some []
      | Some (Some h) \<Rightarrow> if h = [] then Some [] else chain_back t (Some h) [])"

end
