(* ===== verification/GhostProps.thy ===== *)
theory GhostProps
  imports Ghost
begin

text \<open>
  The GHOST loops against their specification. On a forest (children and parents agree, no cycle) the
  depth-first loop returns the sum of the weights of the block and all its descendants, and the walk
  goes from the heaviest root to a leaf, at every step to the child whose subtree is heaviest.
\<close>

section \<open>Forests\<close>

definition child_rel :: "ghost_tree \<Rightarrow> (string \<times> string) set" where
  "child_rel t = {(n, c). c \<in> set (children_of t n)}"

definition forest :: "ghost_tree \<Rightarrow> bool" where
  "forest t \<longleftrightarrow> distinct (map fst t)
     \<and> (\<forall>n. distinct (children_of t n))
     \<and> (\<forall>n c. c \<in> set (children_of t n) \<longleftrightarrow> parent_of t c = Some n)
     \<and> (\<forall>n c. c \<in> set (children_of t n) \<longrightarrow> c \<in> fst ` set t)
     \<and> acyclic (child_rel t)"

definition descendants :: "ghost_tree \<Rightarrow> string \<Rightarrow> string set" where
  "descendants t n = {m. (n, m) \<in> (child_rel t)\<^sup>*}"

text \<open>The specification: the weight of a block is that of everything built on it.\<close>

definition subtree_weight :: "ghost_tree \<Rightarrow> ghost_weights \<Rightarrow> string \<Rightarrow> int" where
  "subtree_weight t w n = (\<Sum>m\<in>descendants t n. dget_or w m 0)"

lemma in_tree: "n \<in> fst ` set t \<longleftrightarrow> dget t n \<noteq> None"
  by (simp add: map_of_eq_None_iff)

lemma has_children: "c \<in> set (children_of t n) \<Longrightarrow> n \<in> fst ` set t"
  by (cases "dget t n") (simp_all add: children_of_def in_tree)

lemma child_rel_subset: "child_rel t \<subseteq> (fst ` set t) \<times> (\<Union>n\<in>fst ` set t. set (children_of t n))"
  by (auto simp: child_rel_def dest: has_children intro: has_children)

lemma finite_child_rel: "finite (child_rel t)"
  by (rule finite_subset [OF child_rel_subset]) auto

lemma forest_wf: "forest t \<Longrightarrow> wf ((child_rel t)\<inverse>)"
  by (intro finite_acyclic_wf) (simp_all add: finite_child_rel forest_def)

lemma finite_descendants [simp]: "finite (descendants t n)"
proof -
  have "descendants t n \<subseteq> insert n (Range (child_rel t))"
    by (auto simp: descendants_def elim: rtranclE)
  then show ?thesis by (rule finite_subset) (simp add: finite_child_rel finite_Range)
qed

lemma descendants_unfold: "descendants t n = insert n (\<Union>c\<in>set (children_of t n). descendants t c)"
proof -
  have "(n, m) \<in> (child_rel t)\<^sup>* \<longleftrightarrow> m = n \<or> (\<exists>c\<in>set (children_of t n). (c, m) \<in> (child_rel t)\<^sup>*)" for m
    by (auto simp: child_rel_def elim: converse_rtranclE intro: converse_rtrancl_into_rtrancl)
  then show ?thesis by (auto simp: descendants_def)
qed

lemma forest_no_cycle: "forest t \<Longrightarrow> (n, n) \<notin> (child_rel t)\<^sup>+"
  by (simp add: forest_def acyclic_def)

lemma forest_not_below: "forest t \<Longrightarrow> c \<in> set (children_of t n) \<Longrightarrow> n \<notin> descendants t c"
  using forest_no_cycle [of t n] by (auto simp: descendants_def child_rel_def intro: rtrancl_into_trancl2)

lemma forest_unique_parent: "forest t \<Longrightarrow> single_valued ((child_rel t)\<inverse>)"
  by (auto simp: single_valued_def child_rel_def forest_def)

lemma forest_siblings_disjoint:
  assumes "forest t" "c \<in> set (children_of t n)" "d \<in> set (children_of t n)" "c \<noteq> d"
  shows "descendants t c \<inter> descendants t d = {}"
proof (rule ccontr)
  let ?R = "child_rel t"
  assume "descendants t c \<inter> descendants t d \<noteq> {}"
  then obtain m where "(m, c) \<in> (?R\<inverse>)\<^sup>*" "(m, d) \<in> (?R\<inverse>)\<^sup>*" by (auto simp: descendants_def rtrancl_converse)
  then have "(c, d) \<in> (?R\<inverse>)\<^sup>* \<or> (d, c) \<in> (?R\<inverse>)\<^sup>*"
    using single_valued_confluent [OF forest_unique_parent [OF assms(1)]] by blast
  moreover have False if p: "(x, y) \<in> ?R\<^sup>*" "x \<noteq> y" "x \<in> set (children_of t n)" "y \<in> set (children_of t n)" for x y
  proof -
    obtain z where z: "(x, z) \<in> ?R\<^sup>*" "(z, y) \<in> ?R" using p(1,2) by (blast elim: rtranclE)
    then have "z = n" using p(4) assms(1) by (auto simp: child_rel_def forest_def)
    with z(1) p(3) forest_not_below [OF assms(1)] show False by (auto simp: descendants_def)
  qed
  ultimately show False using assms(2-4) by (auto simp: rtrancl_converse)
qed

lemma subtree_weight_unfold:
  assumes "forest t"
  shows "subtree_weight t w n = dget_or w n 0 + sum_list (map (subtree_weight t w) (children_of t n))"
proof -
  let ?C = "set (children_of t n)"
  have "n \<notin> (\<Union>c\<in>?C. descendants t c)" using forest_not_below [OF assms] by blast
  then have "subtree_weight t w n = dget_or w n 0 + (\<Sum>m\<in>(\<Union>c\<in>?C. descendants t c). dget_or w m 0)"
    by (simp add: subtree_weight_def descendants_unfold [of t n])
  also have "(\<Sum>m\<in>(\<Union>c\<in>?C. descendants t c). dget_or w m 0) = (\<Sum>c\<in>?C. subtree_weight t w c)"
    unfolding subtree_weight_def using forest_siblings_disjoint [OF assms]
    by (intro sum.UNION_disjoint) auto
  also have "\<dots> = sum_list (map (subtree_weight t w) (children_of t n))"
    using assms by (simp add: forest_def sum_list_distinct_conv_sum_set)
  finally show ?thesis .
qed

section \<open>The depth-first loop\<close>

definition memo_ok :: "ghost_tree \<Rightarrow> ghost_weights \<Rightarrow> (string \<times> int) list \<Rightarrow> bool" where
  "memo_ok t w memo \<longleftrightarrow> (\<forall>m v. dget memo m = Some v \<longrightarrow> v = subtree_weight t w m)"

text \<open>What processing a part of the stack does to the memo.\<close>

definition extends_memo ::
  "ghost_tree \<Rightarrow> ghost_weights \<Rightarrow> string set \<Rightarrow> (string \<times> int) list \<Rightarrow> (string \<times> int) list \<Rightarrow> bool" where
  "extends_memo t w ns memo memo' \<longleftrightarrow>
     memo_ok t w memo' \<and> (\<forall>m v. dget memo m = Some v \<longrightarrow> dget memo' m = Some v)
     \<and> (\<forall>n\<in>ns. dget memo' n = Some (subtree_weight t w n))"

lemma visit_children:
  assumes "\<And>c st memo. c \<in> set cs \<Longrightarrow> memo_ok t w memo \<Longrightarrow>
      \<exists>memo'. cw_loop t w ((c, False) # st) memo = cw_loop t w st memo' \<and> extends_memo t w {c} memo memo'"
    and "memo_ok t w memo"
  shows "\<exists>memo'. cw_loop t w (map (\<lambda>c. (c, False)) cs @ st) memo = cw_loop t w st memo'
     \<and> extends_memo t w (set cs) memo memo'"
  using assms
proof (induction cs arbitrary: memo)
  case Nil
  then show ?case by (auto simp: extends_memo_def)
next
  case (Cons c cs)
  obtain m1 where 1: "cw_loop t w ((c, False) # map (\<lambda>c. (c, False)) cs @ st) memo
      = cw_loop t w (map (\<lambda>c. (c, False)) cs @ st) m1" "extends_memo t w {c} memo m1"
    using Cons.prems by (metis list.set_intros(1))
  then have "memo_ok t w m1" by (simp add: extends_memo_def)
  then obtain m2 where 2: "cw_loop t w (map (\<lambda>c. (c, False)) cs @ st) m1 = cw_loop t w st m2"
      "extends_memo t w (set cs) m1 m2"
    using Cons.IH Cons.prems(1) by (metis list.set_intros(2))
  from 1(2) 2(2) have "extends_memo t w (set (c # cs)) memo m2" by (auto simp: extends_memo_def)
  with 1(1) 2(1) show ?case by auto
qed

lemma visit:
  assumes "forest t" "memo_ok t w memo"
  shows "\<exists>memo'. cw_loop t w ((n, False) # st) memo = cw_loop t w st memo' \<and> extends_memo t w {n} memo memo'"
  using assms(2)
proof (induction n arbitrary: st memo rule: wf_induct_rule [OF forest_wf [OF assms(1)]])
  case (1 n)
  let ?cs = "filter (\<lambda>c. dget memo c = None) (children_of t n)"
  have "\<exists>memo'. cw_loop t w (map (\<lambda>c. (c, False)) ?cs @ (n, True) # st) memo = cw_loop t w ((n, True) # st) memo'
     \<and> extends_memo t w (set ?cs) memo memo'"
    by (rule visit_children) (use 1 in \<open>auto simp: child_rel_def\<close>)
  then obtain m1 where m1: "cw_loop t w (map (\<lambda>c. (c, False)) ?cs @ (n, True) # st) memo = cw_loop t w ((n, True) # st) m1"
      "extends_memo t w (set ?cs) memo m1" by blast
  have "dget_or m1 c 0 = subtree_weight t w c" if c: "c \<in> set (children_of t n)" for c
  proof (cases "dget memo c")
    case None
    with c m1(2) have "dget m1 c = Some (subtree_weight t w c)" by (simp add: extends_memo_def)
    then show ?thesis by (simp add: dget_or_def)
  next
    case (Some v)
    with m1(2) "1.prems" have "dget m1 c = Some v" "v = subtree_weight t w c"
      unfolding extends_memo_def memo_ok_def by blast+
    then show ?thesis by (simp add: dget_or_def)
  qed
  then have "map (\<lambda>c. dget_or m1 c 0) (children_of t n) = map (subtree_weight t w) (children_of t n)" by simp
  then have total: "dget_or w n 0 + sum_list (map (\<lambda>c. dget_or m1 c 0) (children_of t n)) = subtree_weight t w n"
    by (simp only: subtree_weight_unfold [OF assms(1), of w n])
  have "cw_loop t w ((n, False) # st) memo = cw_loop t w ((n, True) # st) m1"
    by (subst cw_loop.simps) (simp add: m1(1))
  also have "\<dots> = cw_loop t w st (dset n (subtree_weight t w n) m1)"
    by (subst cw_loop.simps) (simp add: total Let_def)
  finally have "cw_loop t w ((n, False) # st) memo = cw_loop t w st (dset n (subtree_weight t w n) m1)" .
  moreover have "extends_memo t w {n} memo (dset n (subtree_weight t w n) m1)"
    using m1(2) "1.prems" by (auto simp: extends_memo_def memo_ok_def)
  ultimately show ?case by blast
qed

lemma cumulative_weight_eq:
  assumes "forest t"
  shows "cumulative_weight t w n = Some (subtree_weight t w n)"
proof -
  obtain memo where "cw_loop t w [(n, False)] [] = cw_loop t w [] memo" "extends_memo t w {n} [] memo"
    using visit [OF assms, of w "[]" n "[]"] by (auto simp: memo_ok_def)
  moreover have "cw_loop t w [] memo = Some memo" by (subst cw_loop.simps) simp
  ultimately show ?thesis by (simp add: cumulative_weight_def extends_memo_def dget_or_def)
qed

section \<open>The best child and the best root\<close>

definition heavier :: "ghost_tree \<Rightarrow> ghost_weights \<Rightarrow> string \<Rightarrow> string \<Rightarrow> bool" where
  "heavier t w c d \<longleftrightarrow> subtree_weight t w c > subtree_weight t w d
     \<or> (subtree_weight t w c = subtree_weight t w d
        \<and> (number_of t c > number_of t d \<or> (number_of t c = number_of t d \<and> c < d)))"

definition heavier_root :: "ghost_tree \<Rightarrow> ghost_weights \<Rightarrow> string \<Rightarrow> string \<Rightarrow> bool" where
  "heavier_root t w c d \<longleftrightarrow> subtree_weight t w c > subtree_weight t w d
     \<or> (subtree_weight t w c = subtree_weight t w d \<and> c < d)"

definition ghost_step :: "ghost_tree \<Rightarrow> ghost_weights \<Rightarrow> string \<Rightarrow> string \<Rightarrow> bool" where
  "ghost_step t w n c \<longleftrightarrow> c \<in> set (children_of t n)
     \<and> (\<forall>d\<in>set (children_of t n). d \<noteq> c \<longrightarrow> heavier t w c d)"

definition best_root :: "ghost_tree \<Rightarrow> ghost_weights \<Rightarrow> string \<Rightarrow> bool" where
  "best_root t w g \<longleftrightarrow> g \<in> fst ` set t \<and> parent_of t g = None
     \<and> (\<forall>r\<in>fst ` set t. parent_of t r = None \<longrightarrow> r \<noteq> g \<longrightarrow> heavier_root t w g r)"

lemma heavier_trans: "heavier t w a b \<Longrightarrow> heavier t w b c \<Longrightarrow> heavier t w a c"
  unfolding heavier_def by (elim disjE conjE) (auto dest: less_trans)

lemma heavier_total: "a \<noteq> b \<Longrightarrow> \<not> heavier t w a b \<Longrightarrow> heavier t w b a"
  unfolding heavier_def by (auto simp: not_less dest: le_neq_trans)

lemma heavier_root_trans: "heavier_root t w a b \<Longrightarrow> heavier_root t w b c \<Longrightarrow> heavier_root t w a c"
  unfolding heavier_root_def by (elim disjE conjE) (auto dest: less_trans)

lemma heavier_root_total: "a \<noteq> b \<Longrightarrow> \<not> heavier_root t w a b \<Longrightarrow> heavier_root t w b a"
  unfolding heavier_root_def by (auto simp: not_less dest: le_neq_trans)

lemma best_child_loop:
  assumes "forest t"
  shows "distinct (b # cs) \<Longrightarrow> \<exists>r. best_child t w cs (Some b) (subtree_weight t w b) = Some (Some r)
     \<and> r \<in> set (b # cs) \<and> (\<forall>d\<in>set (b # cs). d \<noteq> r \<longrightarrow> heavier t w r d)"
proof (induction cs arbitrary: b)
  case (Cons c cs)
  show ?case
  proof (cases "heavier t w c b")
    case True
    then have "best_child t w (c # cs) (Some b) (subtree_weight t w b) = best_child t w cs (Some c) (subtree_weight t w c)"
      by (auto simp: cumulative_weight_eq [OF assms] heavier_def)
    moreover obtain r where "best_child t w cs (Some c) (subtree_weight t w c) = Some (Some r)" "r \<in> set (c # cs)"
        "\<forall>d\<in>set (c # cs). d \<noteq> r \<longrightarrow> heavier t w r d"
      using Cons.IH [of c] Cons.prems by auto
    ultimately show ?thesis using True by (auto dest: heavier_trans)
  next
    case False
    then have "best_child t w (c # cs) (Some b) (subtree_weight t w b) = best_child t w cs (Some b) (subtree_weight t w b)"
      by (auto simp: cumulative_weight_eq [OF assms] heavier_def)
    moreover obtain r where "best_child t w cs (Some b) (subtree_weight t w b) = Some (Some r)" "r \<in> set (b # cs)"
        "\<forall>d\<in>set (b # cs). d \<noteq> r \<longrightarrow> heavier t w r d"
      using Cons.IH [of b] Cons.prems by auto
    moreover have "heavier t w b c" using False Cons.prems heavier_total by auto
    ultimately show ?thesis by (auto dest: heavier_trans)
  qed
qed simp

lemma pick_root_loop:
  assumes "forest t"
  shows "distinct (b # rs) \<Longrightarrow> \<exists>r. pick_root t w rs (Some b) (subtree_weight t w b) = Some (Some r)
     \<and> r \<in> set (b # rs) \<and> (\<forall>d\<in>set (b # rs). d \<noteq> r \<longrightarrow> heavier_root t w r d)"
proof (induction rs arbitrary: b)
  case (Cons c cs)
  show ?case
  proof (cases "heavier_root t w c b")
    case True
    then have "pick_root t w (c # cs) (Some b) (subtree_weight t w b) = pick_root t w cs (Some c) (subtree_weight t w c)"
      by (auto simp: cumulative_weight_eq [OF assms] heavier_root_def)
    moreover obtain r where "pick_root t w cs (Some c) (subtree_weight t w c) = Some (Some r)" "r \<in> set (c # cs)"
        "\<forall>d\<in>set (c # cs). d \<noteq> r \<longrightarrow> heavier_root t w r d"
      using Cons.IH [of c] Cons.prems by auto
    ultimately show ?thesis using True by (auto dest: heavier_root_trans)
  next
    case False
    then have "pick_root t w (c # cs) (Some b) (subtree_weight t w b) = pick_root t w cs (Some b) (subtree_weight t w b)"
      by (auto simp: cumulative_weight_eq [OF assms] heavier_root_def)
    moreover obtain r where "pick_root t w cs (Some b) (subtree_weight t w b) = Some (Some r)" "r \<in> set (b # cs)"
        "\<forall>d\<in>set (b # cs). d \<noteq> r \<longrightarrow> heavier_root t w r d"
      using Cons.IH [of b] Cons.prems by auto
    moreover have "heavier_root t w b c" using False Cons.prems heavier_root_total by auto
    ultimately show ?thesis by (auto dest: heavier_root_trans)
  qed
qed simp

section \<open>The head\<close>

definition weights_nonneg :: "ghost_weights \<Rightarrow> bool" where
  "weights_nonneg w \<longleftrightarrow> (\<forall>v\<in>snd ` set w. 0 \<le> v)"

lemma weights_nonneg_get: "weights_nonneg w \<Longrightarrow> 0 \<le> dget_or w b 0"
  by (force simp: weights_nonneg_def dget_or_def split: option.splits dest: map_of_SomeD)

lemma subtree_weight_nonneg: "weights_nonneg w \<Longrightarrow> 0 \<le> subtree_weight t w n"
  by (simp add: subtree_weight_def sum_nonneg weights_nonneg_get)

lemma best_child_step:
  assumes "forest t" "weights_nonneg w" "children_of t n \<noteq> []"
  shows "\<exists>c. best_child t w (children_of t n) None (- 1) = Some (Some c) \<and> ghost_step t w n c"
proof -
  obtain b cs where cs: "children_of t n = b # cs" using assms(3) by (cases "children_of t n") auto
  have "best_child t w (b # cs) None (- 1) = best_child t w cs (Some b) (subtree_weight t w b)"
    using subtree_weight_nonneg [OF assms(2), of t b] by (simp add: cumulative_weight_eq [OF assms(1)])
  moreover have "distinct (b # cs)" using assms(1) cs by (metis forest_def)
  ultimately show ?thesis using best_child_loop [OF assms(1), of b cs w] by (auto simp: cs ghost_step_def)
qed

lemma roots_of:
  assumes "forest t"
  shows "set (forest_roots t) = {r \<in> fst ` set t. parent_of t r = None}"
proof (rule set_eqI)
  fix r
  have dist: "(r, d) \<in> set t \<longleftrightarrow> dget t r = Some d" for d using assms by (simp add: forest_def)
  have "r \<in> set (forest_roots t) \<longleftrightarrow> (\<exists>d. (r, d) \<in> set t \<and> gn_parent d = None)"
    unfolding forest_roots_def by force
  then show "r \<in> set (forest_roots t) \<longleftrightarrow> r \<in> {r \<in> fst ` set t. parent_of t r = None}"
    by (cases "dget t r") (simp_all add: dist in_tree parent_of_def)
qed

lemma roots_distinct: "forest t \<Longrightarrow> distinct (forest_roots t)"
  by (auto simp: forest_roots_def forest_def distinct_map inj_on_def)

lemma roots_exist:
  assumes "forest t" "t \<noteq> []"
  shows "forest_roots t \<noteq> []"
proof
  assume none: "forest_roots t = []"
  have "acyclic ((child_rel t)\<inverse>)" using assms(1) by (simp add: forest_def)
  then have "wf (child_rel t)"
    using finite_acyclic_wf [of "child_rel t"] assms(1) by (simp add: forest_def finite_child_rel)
  then obtain r where r: "r \<in> fst ` set t" "\<forall>m. (m, r) \<in> child_rel t \<longrightarrow> m \<notin> fst ` set t"
    using wfE_min [of "child_rel t" "fst (hd t)" "fst ` set t"] assms(2) by (metis hd_in_set image_eqI)
  have "parent_of t r \<noteq> None" using r(1) none roots_of [OF assms(1)] by auto
  then obtain m where "r \<in> set (children_of t m)" using assms(1) by (auto simp: forest_def)
  with r(2) has_children show False by (auto simp: child_rel_def)
qed

lemma pick_genesis_best:
  assumes "forest t" "t \<noteq> []" "weights_nonneg w"
  shows "\<exists>g. pick_genesis t w = Some (Some g) \<and> best_root t w g"
proof -
  obtain r rs where rs: "forest_roots t = r # rs" using roots_exist [OF assms(1,2)] by (cases "forest_roots t") auto
  have roots: "\<And>x. x \<in> fst ` set t \<and> parent_of t x = None \<longleftrightarrow> x \<in> set (r # rs)"
    using roots_of [OF assms(1)] rs by auto
  have dist: "distinct (r # rs)" using roots_distinct [OF assms(1)] rs by simp
  have "pick_root t w (r # rs) None (- 1) = pick_root t w rs (Some r) (subtree_weight t w r)"
    using subtree_weight_nonneg [OF assms(3), of t r] by (simp add: cumulative_weight_eq [OF assms(1)])
  then obtain g where "pick_root t w (r # rs) None (- 1) = Some (Some g)" "g \<in> set (r # rs)"
      "\<forall>d\<in>set (r # rs). d \<noteq> g \<longrightarrow> heavier_root t w g d"
    using pick_root_loop [OF assms(1) dist, of w] by auto
  moreover have "pick_genesis t w = pick_root t w (r # rs) None (- 1)" if "rs \<noteq> []"
    using that by (cases rs) (simp_all add: pick_genesis_def rs)
  moreover have "pick_genesis t w = Some (Some r)" if "rs = []" using that by (simp add: pick_genesis_def rs)
  ultimately have "pick_genesis t w = Some (Some g)" by (cases "rs = []") auto
  moreover have "best_root t w g"
    unfolding best_root_def using roots \<open>g \<in> set (r # rs)\<close> \<open>\<forall>d\<in>set (r # rs). d \<noteq> g \<longrightarrow> heavier_root t w g d\<close> by blast
  ultimately show ?thesis by blast
qed

lemma ghost_walk_path:
  assumes "forest t" "weights_nonneg w" "\<forall>v\<in>set visited. (v, n) \<in> (child_rel t)\<^sup>+"
  shows "\<exists>p. p \<noteq> [] \<and> hd p = n \<and> successively (ghost_step t w) p \<and> children_of t (last p) = []
     \<and> ghost_walk t w n visited = Some (last p)"
  using assms(3)
proof (induction n arbitrary: visited rule: wf_induct_rule [OF forest_wf [OF assms(1)]])
  case (1 n)
  have new: "n \<notin> set visited" using 1(2) forest_no_cycle [OF assms(1)] by blast
  show ?case
  proof (cases "children_of t n = []")
    case True
    then have "ghost_walk t w n visited = Some n" by (subst ghost_walk.simps) simp
    with True show ?thesis by (intro exI [of _ "[n]"]) simp
  next
    case False
    then obtain c where c: "best_child t w (children_of t n) None (- 1) = Some (Some c)" "ghost_step t w n c"
      using best_child_step [OF assms(1,2)] by blast
    have rel: "(n, c) \<in> child_rel t" using c(2) by (simp add: ghost_step_def child_rel_def)
    then obtain p where p: "p \<noteq> []" "hd p = c" "successively (ghost_step t w) p" "children_of t (last p) = []"
        "ghost_walk t w c (n # visited) = Some (last p)"
      using "1.IH" [of c "n # visited"] 1(2) by (auto intro: trancl_into_trancl)
    have "ghost_walk t w n visited = ghost_walk t w c (n # visited)"
      by (subst ghost_walk.simps) (simp add: new False c(1))
    with p c(2) show ?thesis by (intro exI [of _ "n # p"]) (simp add: successively_Cons)
  qed
qed

lemma chain_back_path:
  assumes "p \<noteq> []" "parent_of t (hd p) = None" "[] \<notin> set p"
    "successively (\<lambda>a b. parent_of t b = Some a) p"
  shows "chain_back t (Some (last p)) acc = Some (p @ rev acc)"
  using assms
proof (induction p arbitrary: acc rule: rev_induct)
  case (snoc c p)
  have end0: "chain_back t None (acc @ [c]) = Some (c # rev acc)" by (subst chain_back.simps) simp
  have "chain_back t (Some c) acc = chain_back t (parent_of t c) (acc @ [c])"
    using snoc.prems by (subst chain_back.simps) auto
  with snoc end0 show ?case
    by (cases "p = []") (auto simp: successively_append_iff)
qed simp

text \<open>The specification of the head: a path of heaviest steps from the heaviest root to a leaf.\<close>

definition heaviest_path :: "ghost_tree \<Rightarrow> ghost_weights \<Rightarrow> string list \<Rightarrow> bool" where
  "heaviest_path t w p \<longleftrightarrow> p \<noteq> [] \<and> best_root t w (hd p) \<and> successively (ghost_step t w) p
     \<and> children_of t (last p) = []"

lemma heaviest_path_in_tree:
  assumes "forest t" "heaviest_path t w p" "x \<in> set p"
  shows "x \<in> fst ` set t"
proof -
  have "successively (ghost_step t w) q \<Longrightarrow> q \<noteq> [] \<Longrightarrow> hd q \<in> fst ` set t \<Longrightarrow> set q \<subseteq> fst ` set t" for q
  proof (induction q)
    case (Cons a q)
    show ?case
    proof (cases "q = []")
      case False
      with Cons.prems have "ghost_step t w a (hd q)" "successively (ghost_step t w) q" by (auto simp: successively_Cons)
      moreover from this(1) have "hd q \<in> fst ` set t" using assms(1) unfolding ghost_step_def forest_def by blast
      ultimately show ?thesis using Cons False by auto
    qed (use Cons.prems in simp)
  qed simp
  then show ?thesis using assms(2,3) by (auto simp: heaviest_path_def best_root_def)
qed

lemma select_head_path:
  assumes "forest t" "t \<noteq> []" "weights_nonneg w" "[] \<notin> fst ` set t"
  shows "\<exists>p. heaviest_path t w p \<and> select_head t w = Some (Some (last p)) \<and> chain_from_head t w = Some p"
proof -
  obtain g where g: "pick_genesis t w = Some (Some g)" "best_root t w g" using pick_genesis_best [OF assms(1-3)] by blast
  obtain p where p: "p \<noteq> []" "hd p = g" "successively (ghost_step t w) p" "children_of t (last p) = []"
      "ghost_walk t w g [] = Some (last p)"
    using ghost_walk_path [OF assms(1,3), of "[]" g] by auto
  have path: "heaviest_path t w p" using p g(2) by (simp add: heaviest_path_def)
  have head: "select_head t w = Some (Some (last p))" using assms(2) g(1) p(5) by (simp add: select_head_def)
  have ne: "[] \<notin> set p" using heaviest_path_in_tree [OF assms(1) path] assms(4) by blast
  have "successively (\<lambda>a b. parent_of t b = Some a) p"
    using p(3) assms(1) by (auto simp: ghost_step_def forest_def elim: successively_mono)
  then have "chain_back t (Some (last p)) [] = Some p"
    using chain_back_path [OF p(1) _ ne, of t "[]"] g(2) p(2) by (simp add: best_root_def)
  then have "chain_from_head t w = Some p" using head ne p(1) last_in_set by (fastforce simp: chain_from_head_def)
  with path head show ?thesis by blast
qed

end
