(* ===== verification/Lmd.thy ===== *)
theory Lmd
  imports Ghost
begin

text \<open>
  The table of latest messages of \<open>consensus/lmd.py\<close> (its Python path) and the epoch arithmetic of
  \<open>consensus/epoch.py\<close>. A vote is a block hash with a slot; only a vote for a later slot replaces the
  one recorded. The table turns into the weights of the GHOST fork choice.
\<close>

record lmd_table =
  latest_vote :: "(string \<times> (string \<times> int)) list"
  validator_stake :: "(string \<times> int) list"

definition lmd_init :: lmd_table where
  "lmd_init = \<lparr>latest_vote = [], validator_stake = []\<rparr>"

text \<open>\<open>None\<close> is \<open>ValueError("stake_required")\<close>.\<close>

definition lmd_add_validator :: "string \<Rightarrow> int \<Rightarrow> lmd_table \<Rightarrow> lmd_table option" where
  "lmd_add_validator v stake l =
     (if stake \<le> 0 then None else Some (l\<lparr>validator_stake := dset v stake (validator_stake l)\<rparr>))"

definition lmd_update :: "string \<Rightarrow> string \<Rightarrow> int \<Rightarrow> lmd_table \<Rightarrow> bool \<times> lmd_table" where
  "lmd_update v b slot l =
     (if dget (validator_stake l) v = None then (False, l)
      else if (case dget (latest_vote l) v of None \<Rightarrow> True | Some (_, current) \<Rightarrow> slot > current)
      then (True, l\<lparr>latest_vote := dset v (b, slot) (latest_vote l)\<rparr>)
      else (False, l))"

text \<open>The loop of \<open>get_weights\<close> over the recorded votes.\<close>

fun weights_loop ::
  "(string \<times> int) list \<Rightarrow> (string \<times> (string \<times> int)) list \<Rightarrow> ghost_weights \<Rightarrow> ghost_weights"
where
  "weights_loop stakes [] w = w"
| "weights_loop stakes ((v, (b, slot)) # votes) w =
     weights_loop stakes votes (dset b (dget_or w b 0 + dget_or stakes v 0) w)"

definition lmd_weights :: "lmd_table \<Rightarrow> ghost_weights" where
  "lmd_weights l = weights_loop (validator_stake l) (latest_vote l) []"

definition lmd_get_vote :: "string \<Rightarrow> lmd_table \<Rightarrow> (string \<times> int) option" where
  "lmd_get_vote v l = dget (latest_vote l) v"

text \<open>\<open>get_stats()["total_stake"]\<close>.\<close>

definition lmd_total_stake :: "lmd_table \<Rightarrow> int" where
  "lmd_total_stake l = sum_list (map snd (validator_stake l))"

section \<open>Epochs\<close>

text \<open>An epoch size of 0, on which the code raises \<open>ZeroDivisionError\<close>, is outside the model.\<close>

definition epoch_of :: "int \<Rightarrow> int \<Rightarrow> int" where
  "epoch_of sz n = n div sz"

definition is_epoch_boundary :: "int \<Rightarrow> int \<Rightarrow> bool" where
  "is_epoch_boundary sz n \<longleftrightarrow> n mod sz = 0"

definition epoch_start :: "int \<Rightarrow> int \<Rightarrow> int" where
  "epoch_start sz e = e * sz"

definition epoch_end :: "int \<Rightarrow> int \<Rightarrow> int" where
  "epoch_end sz e = (e + 1) * sz - 1"

section \<open>What the table holds\<close>

definition lmd_ok :: "lmd_table \<Rightarrow> bool" where
  "lmd_ok l \<longleftrightarrow> distinct (map fst (latest_vote l)) \<and> distinct (map fst (validator_stake l))
     \<and> (\<forall>(v, s)\<in>set (validator_stake l). 0 < s)
     \<and> fst ` set (latest_vote l) \<subseteq> fst ` set (validator_stake l)"

lemma lmd_ok_init [simp]: "lmd_ok lmd_init"
  by (simp add: lmd_ok_def lmd_init_def)

lemma dset_key_set: "fst ` set (dset k v d) = insert k (fst ` set d)"
  by (simp only: dom_map_of_conv_image_fst [symmetric] update_conv' dom_fun_upd option.distinct if_False)

lemma lmd_ok_add:
  assumes "lmd_ok l" "lmd_add_validator v s l = Some l'"
  shows "lmd_ok l'"
proof -
  have l': "l' = l\<lparr>validator_stake := dset v s (validator_stake l)\<rparr>" "0 < s"
    using assms(2) by (auto simp: lmd_add_validator_def split: if_splits)
  have "\<forall>x\<in>set (dset v s (validator_stake l)). 0 < snd x"
    using assms(1) l'(2) set_dset_subset [of v s "validator_stake l"] unfolding lmd_ok_def by fastforce
  moreover have "fst ` set (latest_vote l) \<subseteq> fst ` set (dset v s (validator_stake l))"
    using assms(1) unfolding dset_key_set lmd_ok_def by blast
  ultimately show ?thesis using assms(1) by (simp add: lmd_ok_def l'(1) case_prod_beta)
qed

lemma lmd_ok_update: "lmd_ok l \<Longrightarrow> lmd_ok (snd (lmd_update v b slot l))"
  by (auto simp: lmd_ok_def lmd_update_def dset_key_set map_of_eq_None_iff)

lemma validator_stake_update [simp]: "validator_stake (snd (lmd_update v b slot l)) = validator_stake l"
  by (simp add: lmd_update_def)

text \<open>The stake whose latest message is in a set of blocks.\<close>

definition lmd_stake_on :: "lmd_table \<Rightarrow> string set \<Rightarrow> int" where
  "lmd_stake_on l B =
     (\<Sum>v\<in>{v. \<exists>b slot. dget (latest_vote l) v = Some (b, slot) \<and> b \<in> B}. dget_or (validator_stake l) v 0)"

lemma weights_loop_get:
  "dget_or (weights_loop stakes votes w) b 0
     = dget_or w b 0 + sum_list (map (\<lambda>(v, c). if fst c = b then dget_or stakes v 0 else 0) votes)"
  by (induction stakes votes w rule: weights_loop.induct) (auto simp: dget_or_def split: option.splits)

lemma sum_votes:
  assumes "distinct (map fst votes)"
  shows "sum_list (map (\<lambda>(v, c). if P (fst c) then f v else (0::int)) votes)
     = (\<Sum>v\<in>{v. \<exists>b slot. dget votes v = Some (b, slot) \<and> P b}. f v)"
proof -
  have "{v. \<exists>b slot. dget votes v = Some (b, slot) \<and> P b} = fst ` {x \<in> set votes. P (fst (snd x))}"
    using assms by (force simp: image_iff)
  moreover have "inj_on fst {x \<in> set votes. P (fst (snd x))}"
    using assms by (auto simp: distinct_map inj_on_def)
  ultimately have "(\<Sum>v\<in>{v. \<exists>b slot. dget votes v = Some (b, slot) \<and> P b}. f v)
      = (\<Sum>x\<in>{x \<in> set votes. P (fst (snd x))}. f (fst x))" by (simp add: sum.reindex)
  also have "\<dots> = (\<Sum>x\<in>set votes. if P (fst (snd x)) then f (fst x) else 0)"
    by (simp add: sum.If_cases Int_def)
  also have "\<dots> = sum_list (map (\<lambda>(v, c). if P (fst c) then f v else 0) votes)"
    using assms by (simp add: sum_list_distinct_conv_sum_set distinct_map case_prod_beta)
  finally show ?thesis by simp
qed

lemma lmd_weights_get:
  assumes "lmd_ok l"
  shows "dget_or (lmd_weights l) b 0 = lmd_stake_on l {b}"
  using sum_votes [of "latest_vote l" "\<lambda>c. c = b" "\<lambda>v. dget_or (validator_stake l) v 0"] assms
  by (simp add: lmd_weights_def weights_loop_get lmd_stake_on_def lmd_ok_def) (simp add: dget_or_def)

text \<open>The sum of the weights over a finite set of blocks.\<close>

lemma finite_lmd_votes: "finite {v. \<exists>b slot. dget (latest_vote l) v = Some (b, slot) \<and> b \<in> B}"
  by (rule finite_subset [OF _ finite_dom_map_of [of "latest_vote l"]]) auto

lemma lmd_weights_sum:
  assumes "lmd_ok l" "finite B"
  shows "(\<Sum>b\<in>B. dget_or (lmd_weights l) b 0) = lmd_stake_on l B"
  using assms(2)
proof (induction B)
  case (insert b B)
  let ?V = "\<lambda>B. {v. \<exists>b slot. dget (latest_vote l) v = Some (b, slot) \<and> b \<in> B}"
  have "?V (insert b B) = ?V {b} \<union> ?V B" "?V {b} \<inter> ?V B = {}" using insert by auto
  then have "lmd_stake_on l (insert b B) = lmd_stake_on l {b} + lmd_stake_on l B"
    unfolding lmd_stake_on_def by (simp only: sum.union_disjoint [OF finite_lmd_votes finite_lmd_votes])
  with insert show ?case by (simp add: lmd_weights_get [OF assms(1)])
qed (simp add: lmd_stake_on_def)

text \<open>The latest message: the vote recorded has the highest slot of all the votes seen, and is the first of them.\<close>

fun lmd_run :: "(string \<times> string \<times> int) list \<Rightarrow> lmd_table \<Rightarrow> lmd_table" where
  "lmd_run [] l = l"
| "lmd_run ((v, b, slot) # votes) l = lmd_run votes (snd (lmd_update v b slot l))"

fun latest_message :: "string \<Rightarrow> (string \<times> string \<times> int) list \<Rightarrow> (string \<times> int) option \<Rightarrow> (string \<times> int) option" where
  "latest_message v [] best = best"
| "latest_message v ((u, b, slot) # votes) best =
     latest_message v votes
       (if u = v \<and> (case best of None \<Rightarrow> True | Some (_, s) \<Rightarrow> s < slot) then Some (b, slot) else best)"

lemma lmd_run_stake [simp]: "validator_stake (lmd_run votes l) = validator_stake l"
  by (induction votes l rule: lmd_run.induct) simp_all

lemma lmd_run_ok: "lmd_ok l \<Longrightarrow> lmd_ok (lmd_run votes l)"
  by (induction votes l rule: lmd_run.induct) (simp_all add: lmd_ok_update)

lemma lmd_update_get:
  "dget (latest_vote (snd (lmd_update u b slot l))) v =
     (if u = v \<and> dget (validator_stake l) v \<noteq> None
         \<and> (case dget (latest_vote l) v of None \<Rightarrow> True | Some (_, s) \<Rightarrow> s < slot)
      then Some (b, slot) else dget (latest_vote l) v)"
  by (auto simp: lmd_update_def)

lemma lmd_run_latest:
  "dget (latest_vote (lmd_run votes l)) v =
     (if dget (validator_stake l) v = None then dget (latest_vote l) v
      else latest_message v votes (dget (latest_vote l) v))"
  by (induction votes l rule: lmd_run.induct) (simp_all add: lmd_update_get)

end
