(* ===== verification/Slashing.thy ===== *)
theory Slashing
  imports Prelude
begin

text \<open>
  The slashing engine of \<open>consensus/slashing.py\<close>, in its Python path (the native checks that may
  replace the comparison of two hashes are not modelled). The callback an embedding registers is a
  field of the engine, over a world of the embedding: it may change the world and may raise, in which
  case the exception leaves \<open>_slash\<close> after the validator was recorded as slashed. The time stamp of an
  event and the printed lines are left out.
\<close>

record slash_event =
  sev_validator :: string
  sev_reason :: string
  sev_epoch :: int
  sev_penalty :: int

type_synonym 'w slash_callback = "string \<Rightarrow> string \<Rightarrow> int \<Rightarrow> int \<Rightarrow> ('w, string, unit) exs"

record 'w slashing_engine =
  sl_votes :: "(string \<times> (int \<times> string) list) list"
  sl_proposals :: "(int \<times> (string \<times> string) list) list"
  sl_slashed :: "string set"
  sl_events :: "slash_event list"
  sl_missed :: "(string \<times> int) list"
  sl_stakes :: "(string \<times> int) list"
  sl_callback :: "'w slash_callback option"
  sl_world :: 'w

definition slashing_init :: "'w \<Rightarrow> 'w slashing_engine" where
  "slashing_init world = \<lparr>sl_votes = [], sl_proposals = [], sl_slashed = {}, sl_events = [], sl_missed = [],
     sl_stakes = [], sl_callback = None, sl_world = world\<rparr>"

definition penalties :: "(string \<times> int) list" where
  "penalties = [(''double_vote'', 100), (''double_proposal'', 200), (''offline'', 10), (''invalid_proposal'', 50),
     (''surround_vote'', 75)]"

definition register_slash_validator :: "string \<Rightarrow> int \<Rightarrow> ('w slashing_engine, string, unit) exs" where
  "register_slash_validator v stake =
     (if stake \<le> 0 then raiseM ''stake_required''
      else modM (\<lambda>e. e\<lparr>sl_stakes := dset v stake (sl_stakes e)\<rparr>))"

definition register_slash_callback :: "'w slash_callback \<Rightarrow> 'w slashing_engine \<Rightarrow> 'w slashing_engine" where
  "register_slash_callback cb e = e\<lparr>sl_callback := Some cb\<rparr>"

definition run_callback :: "'w slash_callback option \<Rightarrow> string \<Rightarrow> string \<Rightarrow> int \<Rightarrow> int
    \<Rightarrow> ('w slashing_engine, string, unit) exs" where
  "run_callback cb v reason epoch penalty =
     (case cb of
        None \<Rightarrow> returnM ()
      | Some f \<Rightarrow> (\<lambda>e. case f v reason epoch penalty (sl_world e) of (r, w) \<Rightarrow> (r, e\<lparr>sl_world := w\<rparr>)))"

definition slash :: "string \<Rightarrow> string \<Rightarrow> int \<Rightarrow> ('w slashing_engine, string, unit) exs" where
  "slash v reason epoch = (\<lambda>e.
     if v \<in> sl_slashed e then (Inr (), e)
     else
       (let penalty = dget_or penalties reason 50;
            e1 = e\<lparr>sl_slashed := insert v (sl_slashed e),
                   sl_events := sl_events e @ [\<lparr>sev_validator = v, sev_reason = reason, sev_epoch = epoch,
                                                sev_penalty = penalty\<rparr>]\<rparr>
        in run_callback (sl_callback e) v reason epoch penalty e1))"

definition votes_of :: "'w slashing_engine \<Rightarrow> string \<Rightarrow> (int \<times> string) list" where
  "votes_of e v = dget_or (sl_votes e) v []"

definition record_slot_vote :: "string \<Rightarrow> int \<Rightarrow> string \<Rightarrow> ('w slashing_engine, string, bool) exs" where
  "record_slot_vote v slot h = (\<lambda>e.
     if v \<in> sl_slashed e then (Inr False, e)
     else
       (let e1 = e\<lparr>sl_votes := dset v (votes_of e v) (sl_votes e)\<rparr>
        in case dget (votes_of e v) slot of
             Some h' \<Rightarrow>
               if h' \<noteq> h then bindM (slash v ''double_vote'' slot) (\<lambda>_. returnM False) e1
               else (Inr True, e1)
           | None \<Rightarrow> (Inr True, e1\<lparr>sl_votes := dset v (dset slot h (votes_of e v)) (sl_votes e1)\<rparr>)))"

definition slashing_add_vote :: "string \<Rightarrow> int \<Rightarrow> string \<Rightarrow> ('w slashing_engine, string, bool) exs" where
  "slashing_add_vote v slot h = (\<lambda>e. if v \<in> sl_slashed e then (Inr False, e) else record_slot_vote v slot h e)"

definition get_stake :: "string \<Rightarrow> 'w slashing_engine \<Rightarrow> int" where
  "get_stake v e = (if v \<in> sl_slashed e then 0 else dget_or (sl_stakes e) v 0)"

definition total_active_slash_stake :: "'w slashing_engine \<Rightarrow> int" where
  "total_active_slash_stake e = sum_list (map snd (filter (\<lambda>(v, s). v \<notin> sl_slashed e) (sl_stakes e)))"

text \<open>\<open>self.proposals[height]\<close> of a \<open>defaultdict\<close>: reading creates the entry.\<close>

definition proposals_at :: "'w slashing_engine \<Rightarrow> int \<Rightarrow> (string \<times> string) list" where
  "proposals_at e h = dget_or (sl_proposals e) h []"

definition record_proposal :: "string \<Rightarrow> int \<Rightarrow> string \<Rightarrow> ('w slashing_engine, string, bool) exs" where
  "record_proposal v height digest = (\<lambda>e.
     let slot = proposals_at e height;
         e1 = e\<lparr>sl_proposals := dset height slot (sl_proposals e)\<rparr>
     in case dget slot v of
          Some prior \<Rightarrow>
            if prior = digest then (Inr True, e1)
            else if v \<notin> sl_slashed e
              then bindM (slash v ''double_proposal'' (height div 32)) (\<lambda>_. returnM False) e1
            else (Inr False, e1)
        | None \<Rightarrow> (Inr True, e1\<lparr>sl_proposals := dset height (dset v digest slot) (sl_proposals e1)\<rparr>))"

definition record_missed_attestation :: "string \<Rightarrow> ('w slashing_engine, string, unit) exs" where
  "record_missed_attestation v = (\<lambda>e.
     if v \<in> sl_slashed e then (Inr (), e)
     else
       (let n = dget_or (sl_missed e) v 0 + 1;
            e1 = e\<lparr>sl_missed := dset v n (sl_missed e)\<rparr>
        in if n > 50 then slash v ''offline'' 0 e1 else (Inr (), e1)))"

definition report_invalid_proposal :: "string \<Rightarrow> int \<Rightarrow> ('w slashing_engine, string, unit) exs" where
  "report_invalid_proposal v height = slash v ''invalid_proposal'' (height div 32)"

definition clear_epoch :: "int \<Rightarrow> 'w slashing_engine \<Rightarrow> 'w slashing_engine" where
  "clear_epoch epoch e = e\<lparr>sl_votes := map (\<lambda>(v, d). (v, filter (\<lambda>(k, _). k \<noteq> epoch) d)) (sl_votes e)\<rparr>"

definition slashed_stake :: "'w slashing_engine \<Rightarrow> int" where
  "slashed_stake e = (\<Sum>v\<in>sl_slashed e. dget_or (sl_stakes e) v 0)"

section \<open>Slashing is final, and a recorded vote is never replaced\<close>

text \<open>What every operation keeps of the engine, whatever the registered callback does.\<close>

definition slash_grows :: "'w slashing_engine \<Rightarrow> 'w slashing_engine \<Rightarrow> bool" where
  "slash_grows e e' \<longleftrightarrow> sl_slashed e \<subseteq> sl_slashed e' \<and> sl_stakes e' = sl_stakes e
     \<and> (\<exists>evs. sl_events e' = sl_events e @ evs \<and> sl_slashed e' = sl_slashed e \<union> sev_validator ` set evs)
     \<and> (\<forall>v s h. dget (votes_of e v) s = Some h \<longrightarrow> dget (votes_of e' v) s = Some h)
     \<and> (\<forall>n v h. dget (proposals_at e n) v = Some h \<longrightarrow> dget (proposals_at e' n) v = Some h)"

lemma slash_grows_refl [simp]: "slash_grows e e"
  by (simp add: slash_grows_def)

lemma slash_grows_trans: "slash_grows a b \<Longrightarrow> slash_grows b c \<Longrightarrow> slash_grows a c"
  unfolding slash_grows_def by (elim conjE exE) (auto simp: image_Un)

text \<open>The cases of \<open>_slash\<close>.\<close>

lemma slash_cases:
  obtains (already) "v \<in> sl_slashed e" "slash v reason epoch e = (Inr (), e)"
  | (fresh) r w where "v \<notin> sl_slashed e"
      "slash v reason epoch e = (r, e\<lparr>sl_slashed := insert v (sl_slashed e),
         sl_events := sl_events e @ [\<lparr>sev_validator = v, sev_reason = reason, sev_epoch = epoch,
           sev_penalty = dget_or penalties reason 50\<rparr>], sl_world := w\<rparr>)"
proof (cases "v \<in> sl_slashed e")
  case True
  then show ?thesis by (intro already) (simp_all add: slash_def)
next
  case False
  let ?ev = "\<lparr>sev_validator = v, sev_reason = reason, sev_epoch = epoch, sev_penalty = dget_or penalties reason 50\<rparr>"
  let ?e = "e\<lparr>sl_slashed := insert v (sl_slashed e), sl_events := sl_events e @ [?ev]\<rparr>"
  have "slash v reason epoch e = run_callback (sl_callback e) v reason epoch (dget_or penalties reason 50) ?e"
    using False by (simp add: slash_def Let_def)
  moreover have "\<exists>r w. run_callback cb v reason epoch p ?e = (r, ?e\<lparr>sl_world := w\<rparr>)" for cb p
  proof (cases cb)
    case None
    then show ?thesis by (intro exI [of _ "Inr ()"] exI [of _ "sl_world e"]) (simp add: run_callback_def returnM_def)
  qed (auto simp: run_callback_def split: prod.splits)
  ultimately obtain r w where "slash v reason epoch e = (r, ?e\<lparr>sl_world := w\<rparr>)" by metis
  with False show ?thesis by (intro fresh [of r w]) simp_all
qed

lemma slash_grows_slash: "slash_grows e (snd (slash v reason epoch e))"
  by (rule slash_cases [of v e reason epoch]) (auto simp: slash_grows_def votes_of_def proposals_at_def)

lemma slash_slashes: "v \<in> sl_slashed (snd (slash v reason epoch e))"
  by (rule slash_cases [of v e reason epoch]) auto

lemma bind_return_state: "snd (bindM m (\<lambda>_. returnM b) e) = snd (m e)"
  by (auto simp: bindM_def returnM_def split: prod.splits sum.splits)

lemma votes_of_set [simp]: "votes_of (e\<lparr>sl_votes := dset v d (sl_votes e)\<rparr>) u = (if u = v then d else votes_of e u)"
  by (simp add: votes_of_def dget_or_def)

lemma proposals_at_set [simp]:
  "proposals_at (e\<lparr>sl_proposals := dset n d (sl_proposals e)\<rparr>) m = (if m = n then d else proposals_at e m)"
  by (simp add: proposals_at_def dget_or_def)

lemma touched_votes_grow [simp]: "slash_grows e (e\<lparr>sl_votes := dset v (votes_of e v) (sl_votes e)\<rparr>)"
  by (simp add: slash_grows_def) (simp add: proposals_at_def)

lemma touched_proposals_grow [simp]: "slash_grows e (e\<lparr>sl_proposals := dset n (proposals_at e n) (sl_proposals e)\<rparr>)"
  by (simp add: slash_grows_def) (simp add: votes_of_def)

lemma record_slot_vote_grows: "slash_grows e (snd (record_slot_vote v slot h e))"
proof (cases "v \<in> sl_slashed e \<or> dget (votes_of e v) slot \<noteq> None")
  case True
  then show ?thesis
    by (auto simp: record_slot_vote_def Let_def bind_return_state
        intro: slash_grows_trans [OF touched_votes_grow slash_grows_slash])
next
  case False
  then show ?thesis
    by (simp add: record_slot_vote_def Let_def slash_grows_def) (simp add: proposals_at_def)
qed

lemma record_proposal_grows: "slash_grows e (snd (record_proposal v n h e))"
proof (cases "dget (proposals_at e n) v")
  case (Some prior)
  then show ?thesis
    by (auto simp: record_proposal_def Let_def bind_return_state
        intro: slash_grows_trans [OF touched_proposals_grow slash_grows_slash])
next
  case None
  then show ?thesis
    by (simp add: record_proposal_def Let_def slash_grows_def) (simp add: votes_of_def)
qed

lemma slashing_add_vote_grows: "slash_grows e (snd (slashing_add_vote v slot h e))"
  using record_slot_vote_grows by (auto simp: slashing_add_vote_def)

lemma record_missed_grows: "slash_grows e (snd (record_missed_attestation v e))"
proof -
  have "slash_grows e (e\<lparr>sl_missed := m\<rparr>)" for m
    by (simp add: slash_grows_def votes_of_def proposals_at_def)
  then show ?thesis
    by (auto simp: record_missed_attestation_def Let_def intro: slash_grows_trans [OF _ slash_grows_slash])
qed

end
