(* ===== verification/SlashingProps.thy ===== *)
theory SlashingProps
  imports Slashing
begin

text \<open>
  Who is slashed. A run is any sequence of the operations the engine offers to its embedding (except the
  housekeeping \<open>clear_epoch\<close>), whatever the registered callback does: a validator is slashed at the end
  exactly when the sequence holds an offence of it.
\<close>

datatype slash_op =
    SVote string int string
  | SProposal string int string
  | SMissed string
  | SInvalid string int

fun slash_step :: "slash_op \<Rightarrow> 'w slashing_engine \<Rightarrow> 'w slashing_engine" where
  "slash_step (SVote v slot h) e = snd (slashing_add_vote v slot h e)"
| "slash_step (SProposal v n h) e = snd (record_proposal v n h e)"
| "slash_step (SMissed v) e = snd (record_missed_attestation v e)"
| "slash_step (SInvalid v n) e = snd (report_invalid_proposal v n e)"

definition slash_run :: "slash_op list \<Rightarrow> 'w slashing_engine \<Rightarrow> 'w slashing_engine" where
  "slash_run ops e = fold slash_step ops e"

definition missed_count :: "string \<Rightarrow> slash_op list \<Rightarrow> int" where
  "missed_count v ops = int (length (filter (\<lambda>x. x = SMissed v) ops))"

text \<open>The specification of an offence.\<close>

definition offence :: "slash_op list \<Rightarrow> string \<Rightarrow> bool" where
  "offence ops v \<longleftrightarrow>
     (\<exists>slot h h'. h \<noteq> h' \<and> SVote v slot h \<in> set ops \<and> SVote v slot h' \<in> set ops)
   \<or> (\<exists>n h h'. h \<noteq> h' \<and> SProposal v n h \<in> set ops \<and> SProposal v n h' \<in> set ops)
   \<or> (\<exists>n. SInvalid v n \<in> set ops)
   \<or> missed_count v ops > 50"

text \<open>What the engine remembers of a validator it has not slashed: all of its votes, proposals and absences.\<close>

definition remembers :: "slash_op list \<Rightarrow> 'w slashing_engine \<Rightarrow> string \<Rightarrow> bool" where
  "remembers ops e v \<longleftrightarrow>
     (\<forall>slot h. SVote v slot h \<in> set ops \<longleftrightarrow> dget (votes_of e v) slot = Some h)
   \<and> (\<forall>n h. SProposal v n h \<in> set ops \<longleftrightarrow> dget (proposals_at e n) v = Some h)
   \<and> dget_or (sl_missed e) v 0 = missed_count v ops"

definition accountable :: "slash_op list \<Rightarrow> 'w slashing_engine \<Rightarrow> bool" where
  "accountable ops e \<longleftrightarrow> (\<forall>v. (v \<in> sl_slashed e \<longleftrightarrow> offence ops v) \<and> (v \<notin> sl_slashed e \<longrightarrow> remembers ops e v))"

lemma offence_mono: "offence ops v \<Longrightarrow> offence (ops @ [x]) v"
  by (auto simp: offence_def missed_count_def) blast+

definition subject :: "slash_op \<Rightarrow> string" where
  "subject op = (case op of SVote v _ _ \<Rightarrow> v | SProposal v _ _ \<Rightarrow> v | SMissed v \<Rightarrow> v | SInvalid v _ \<Rightarrow> v)"

lemma other_op:
  assumes "subject op \<noteq> v"
  shows "offence (ops @ [op]) v \<longleftrightarrow> offence ops v" "missed_count v (ops @ [op]) = missed_count v ops"
  using assms by (cases op; simp add: subject_def offence_def missed_count_def)+

lemma remembers_no_offence:
  assumes "remembers ops e v" "\<nexists>n. SInvalid v n \<in> set ops" "missed_count v ops \<le> 50"
  shows "\<not> offence ops v"
  using assms unfolding offence_def remembers_def by (metis not_less option.inject)

lemma slash_frame [simp]:
  "sl_slashed (snd (slash v reason epoch e)) = insert v (sl_slashed e)"
  "votes_of (snd (slash v reason epoch e)) u = votes_of e u"
  "proposals_at (snd (slash v reason epoch e)) n = proposals_at e n"
  "sl_missed (snd (slash v reason epoch e)) = sl_missed e"
  by (rule slash_cases [of v e reason epoch]; auto simp: votes_of_def proposals_at_def)+

text \<open>The effect of each operation on what is remembered.\<close>

lemma votes_of_other [simp]:
  "votes_of (e\<lparr>sl_proposals := p\<rparr>) u = votes_of e u" "votes_of (e\<lparr>sl_missed := m\<rparr>) u = votes_of e u"
  by (simp_all add: votes_of_def)

lemma proposals_at_other [simp]:
  "proposals_at (e\<lparr>sl_votes := p\<rparr>) n = proposals_at e n" "proposals_at (e\<lparr>sl_missed := m\<rparr>) n = proposals_at e n"
  by (simp_all add: proposals_at_def)

lemma vote_effect:
  "slash_step (SVote v slot h) e =
     (if v \<in> sl_slashed e then e
      else (case dget (votes_of e v) slot of
          None \<Rightarrow> e\<lparr>sl_votes := dset v (dset slot h (votes_of e v)) (dset v (votes_of e v) (sl_votes e))\<rparr>
        | Some h' \<Rightarrow> (let e1 = e\<lparr>sl_votes := dset v (votes_of e v) (sl_votes e)\<rparr>
                     in if h' = h then e1 else snd (slash v ''double_vote'' slot e1))))"
  by (simp add: slashing_add_vote_def record_slot_vote_def Let_def bind_return_state split: option.split)

lemma proposal_effect:
  "slash_step (SProposal v n h) e =
     (case dget (proposals_at e n) v of
          None \<Rightarrow> e\<lparr>sl_proposals := dset n (dset v h (proposals_at e n)) (dset n (proposals_at e n) (sl_proposals e))\<rparr>
        | Some h' \<Rightarrow> (let e1 = e\<lparr>sl_proposals := dset n (proposals_at e n) (sl_proposals e)\<rparr>
                     in if h' = h \<or> v \<in> sl_slashed e then e1
                        else snd (slash v ''double_proposal'' (n div 32) e1)))"
  by (simp add: record_proposal_def Let_def bind_return_state split: option.split)

lemma missed_effect:
  "slash_step (SMissed v) e =
     (if v \<in> sl_slashed e then e
      else (let n = dget_or (sl_missed e) v 0 + 1; e1 = e\<lparr>sl_missed := dset v n (sl_missed e)\<rparr>
            in if n > 50 then snd (slash v ''offline'' 0 e1) else e1))"
  by (simp add: record_missed_attestation_def Let_def)

lemma untouched:
  assumes "subject op \<noteq> v"
  shows "v \<in> sl_slashed (slash_step op e) \<longleftrightarrow> v \<in> sl_slashed e"
    "votes_of (slash_step op e) v = votes_of e v"
    "dget (proposals_at (slash_step op e) n) v = dget (proposals_at e n) v"
    "dget_or (sl_missed (slash_step op e)) v 0 = dget_or (sl_missed e) v 0"
proof -
  show "v \<in> sl_slashed (slash_step op e) \<longleftrightarrow> v \<in> sl_slashed e"
    using assms by (cases op) (auto simp: subject_def vote_effect proposal_effect missed_effect Let_def
        report_invalid_proposal_def simp del: slash_step.simps(1-3) split: option.split)
  show "votes_of (slash_step op e) v = votes_of e v"
    using assms by (cases op) (auto simp: subject_def vote_effect proposal_effect missed_effect Let_def
        report_invalid_proposal_def simp del: slash_step.simps(1-3) split: option.split)
  show "dget (proposals_at (slash_step op e) n) v = dget (proposals_at e n) v"
    using assms by (cases op) (auto simp: subject_def vote_effect proposal_effect missed_effect Let_def
        report_invalid_proposal_def simp del: slash_step.simps(1-3) split: option.split)
  show "dget_or (sl_missed (slash_step op e)) v 0 = dget_or (sl_missed e) v 0"
    using assms by (cases op) (auto simp: subject_def vote_effect proposal_effect missed_effect Let_def
        report_invalid_proposal_def dget_or_def simp del: slash_step.simps(1-3) split: option.split)
qed

lemma untouched_remembers:
  assumes "subject op \<noteq> v"
  shows "remembers (ops @ [op]) (slash_step op e) v \<longleftrightarrow> remembers ops e v"
proof -
  have "SVote v slot h \<in> set (ops @ [op]) \<longleftrightarrow> SVote v slot h \<in> set ops"
    "SProposal v n h \<in> set (ops @ [op]) \<longleftrightarrow> SProposal v n h \<in> set ops" for slot n h
    using assms by (auto simp: subject_def)
  then show ?thesis by (simp only: remembers_def untouched [OF assms] other_op [OF assms])
qed

text \<open>One step, for the validator it is about.\<close>

lemma subject_step:
  assumes "accountable ops e" "subject op = v"
  shows "(v \<in> sl_slashed (slash_step op e) \<longleftrightarrow> offence (ops @ [op]) v)
     \<and> (v \<notin> sl_slashed (slash_step op e) \<longrightarrow> remembers (ops @ [op]) (slash_step op e) v)"
proof (cases "v \<in> sl_slashed e")
  case True
  then have "offence (ops @ [op]) v" using assms(1) offence_mono by (auto simp: accountable_def)
  moreover have "v \<in> sl_slashed (slash_step op e)"
    using True assms(2) by (cases op) (auto simp: subject_def vote_effect proposal_effect missed_effect Let_def
        report_invalid_proposal_def simp del: slash_step.simps(1-3) split: option.split)
  ultimately show ?thesis by simp
next
  case False
  then have good: "\<not> offence ops v" and rem: "remembers ops e v" using assms(1) by (auto simp: accountable_def)
  have quiet: "\<nexists>n. SInvalid v n \<in> set ops" "missed_count v ops \<le> 50" using good by (auto simp: offence_def)
  have keep: "\<not> offence (ops @ [op]) v" if "remembers (ops @ [op]) (slash_step op e) v"
      "\<nexists>n. op = SInvalid v n" "op = SMissed v \<Longrightarrow> missed_count v (ops @ [op]) \<le> 50"
    using that quiet by (intro remembers_no_offence [OF that(1)]) (auto simp: missed_count_def split: if_splits)
  show ?thesis
  proof (cases op)
    case (SVote u slot h)
    with assms(2) have op: "op = SVote v slot h" by (simp add: subject_def)
    show ?thesis
    proof (cases "\<exists>h'. dget (votes_of e v) slot = Some h' \<and> h' \<noteq> h")
      case True
      then obtain h' where "SVote v slot h' \<in> set ops" "h' \<noteq> h" using rem by (auto simp: remembers_def)
      then have "h' \<noteq> h \<and> SVote v slot h' \<in> set (ops @ [op]) \<and> SVote v slot h \<in> set (ops @ [op])" by (simp add: op)
      then have "offence (ops @ [op]) v" unfolding offence_def by blast
      with True False show ?thesis by (auto simp: op vote_effect Let_def simp del: slash_step.simps)
    next
      case conflict: False
      then have "remembers (ops @ [op]) (slash_step op e) v" "v \<notin> sl_slashed (slash_step op e)"
        using rem False by (auto simp: op vote_effect remembers_def missed_count_def Let_def simp del: slash_step.simps
            split: option.split if_splits)
      with keep op show ?thesis by simp
    qed
  next
    case (SProposal u n h)
    with assms(2) have op: "op = SProposal v n h" by (simp add: subject_def)
    show ?thesis
    proof (cases "\<exists>h'. dget (proposals_at e n) v = Some h' \<and> h' \<noteq> h")
      case True
      then obtain h' where "SProposal v n h' \<in> set ops" "h' \<noteq> h" using rem by (auto simp: remembers_def)
      then have "h' \<noteq> h \<and> SProposal v n h' \<in> set (ops @ [op]) \<and> SProposal v n h \<in> set (ops @ [op])" by (simp add: op)
      then have "offence (ops @ [op]) v" unfolding offence_def by blast
      with True False show ?thesis by (auto simp: op proposal_effect Let_def simp del: slash_step.simps)
    next
      case conflict: False
      then have "remembers (ops @ [op]) (slash_step op e) v" "v \<notin> sl_slashed (slash_step op e)"
        using rem False by (auto simp: op proposal_effect remembers_def missed_count_def Let_def simp del: slash_step.simps
            split: option.split if_splits)
      with keep op show ?thesis by simp
    qed
  next
    case (SMissed u)
    with assms(2) have op: "op = SMissed v" by (simp add: subject_def)
    have count: "missed_count v (ops @ [op]) = missed_count v ops + 1" by (simp add: op missed_count_def)
    show ?thesis
    proof (cases "missed_count v ops + 1 > 50")
      case True
      then have "offence (ops @ [op]) v" by (simp add: offence_def count)
      moreover have "v \<in> sl_slashed (slash_step op e)"
        using True False rem by (simp add: op missed_effect remembers_def Let_def del: slash_step.simps)
      ultimately show ?thesis by simp
    next
      case small: False
      then have "remembers (ops @ [op]) (slash_step op e) v" "v \<notin> sl_slashed (slash_step op e)"
        using rem False count by (auto simp: op missed_effect remembers_def Let_def dget_or_def simp del: slash_step.simps)
      with keep small count op show ?thesis by simp
    qed
  next
    case (SInvalid u n)
    with assms(2) have op: "op = SInvalid v n" by (simp add: subject_def)
    then show ?thesis by (auto simp: report_invalid_proposal_def offence_def)
  qed
qed

lemma accountable_step: "accountable ops e \<Longrightarrow> accountable (ops @ [op]) (slash_step op e)"
  unfolding accountable_def [of "ops @ [op]"]
  using subject_step untouched(1) untouched_remembers other_op(1) by (metis accountable_def)

lemma accountable_run: "accountable [] e \<Longrightarrow> accountable ops (slash_run ops e)"
  by (induction ops rule: rev_induct) (simp_all add: slash_run_def accountable_step)

lemma accountable_fresh:
  assumes "sl_votes e = []" "sl_proposals e = []" "sl_slashed e = {}" "sl_missed e = []"
  shows "accountable [] e"
  using assms by (simp add: accountable_def offence_def remembers_def votes_of_def proposals_at_def missed_count_def dget_or_def)

text \<open>The log of events holds every slashed validator once.\<close>

definition logged :: "'w slashing_engine \<Rightarrow> bool" where
  "logged e \<longleftrightarrow> sev_validator ` set (sl_events e) = sl_slashed e \<and> distinct (map sev_validator (sl_events e))"

lemma logged_slash: "logged e \<Longrightarrow> logged (snd (slash v reason epoch e))"
  by (rule slash_cases [of v e reason epoch]) (auto simp: logged_def)

lemma logged_other [simp]:
  "logged (e\<lparr>sl_votes := a\<rparr>) = logged e" "logged (e\<lparr>sl_proposals := b\<rparr>) = logged e" "logged (e\<lparr>sl_missed := m\<rparr>) = logged e"
  by (simp_all add: logged_def)

lemma logged_step: "logged e \<Longrightarrow> logged (slash_step op e)"
  by (cases op) (auto simp: vote_effect proposal_effect missed_effect report_invalid_proposal_def Let_def
      simp del: slash_step.simps(1-3) intro: logged_slash split: option.split)

lemma logged_run: "logged e \<Longrightarrow> logged (slash_run ops e)"
  by (induction ops rule: rev_induct) (simp_all add: slash_run_def logged_step)

section \<open>Properties\<close>

text \<open>C14: Slashing is exactly for offences. On a fresh engine, after any sequence of votes, proposals, missed attestations and reports, and whatever the registered callback does, a validator is slashed if and only if the sequence holds two votes of it for one slot, two proposals of it at one height, more than fifty absences or a report of an invalid proposal; an event is logged once for each slashed validator.\<close>

lemma slashed_iff_offence:
  fixes e :: "'w slashing_engine"
  assumes "sl_votes e = []" "sl_proposals e = []" "sl_slashed e = {}" "sl_missed e = []" "sl_events e = []"
  shows "(v \<in> sl_slashed (slash_run ops e) \<longleftrightarrow> offence ops v)
     \<and> sev_validator ` set (sl_events (slash_run ops e)) = sl_slashed (slash_run ops e)
     \<and> distinct (map sev_validator (sl_events (slash_run ops e)))"
proof -
  have "accountable ops (slash_run ops e)" using assms by (intro accountable_run accountable_fresh)
  moreover have "logged (slash_run ops e)" using assms by (intro logged_run) (simp add: logged_def)
  ultimately show ?thesis by (simp add: accountable_def logged_def)
qed

lemma slashed_iff_offence_witness:
  "let ops = [SVote ''v'' 1 ''a'', SVote ''w'' 1 ''a'', SVote ''v'' 1 ''b''];
       e = slash_run ops (slashing_init ())
   in ''v'' \<in> sl_slashed e \<and> ''w'' \<notin> sl_slashed e"
proof -
  let ?ops = "[SVote ''v'' 1 ''a'', SVote ''w'' 1 ''a'', SVote ''v'' 1 ''b'']"
  have "offence ?ops ''v''"
    unfolding offence_def by (intro disjI1 exI [of _ 1] exI [of _ "''a''"] exI [of _ "''b''"]) simp
  moreover have "\<not> offence ?ops ''w''" by (simp add: offence_def missed_count_def)
  ultimately show ?thesis
    using slashed_iff_offence [of "slashing_init ()" "''v''" ?ops] slashed_iff_offence [of "slashing_init ()" "''w''" ?ops]
    by (simp add: slashing_init_def)
qed

end
