(* ===== verification/Floats.thy ===== *)
theory Floats
  imports Main
begin

text \<open>
  IEEE double arithmetic as far as the modules use it: the product of a non-negative integer with a double
  between 1/2 and 1, which the consensus code uses for its two-thirds quorums. Such a double is a natural
  number over \<open>2^53\<close>; converting the integer and multiplying round to 53 significant bits, half to even.
  Scaled by \<open>2^53\<close> the product is a natural number, so rounding it is exact. With the double nearest to
  \<open>2 / 3\<close> the truncated product is the exact floor of two thirds, and the rounded-up one the exact
  ceiling, for integers below \<open>2^51\<close>.
\<close>

fun bit_len :: "nat \<Rightarrow> nat" where
  "bit_len n = (if n = 0 then 0 else Suc (bit_len (n div 2)))"

declare bit_len.simps [simp del]

definition round53 :: "nat \<Rightarrow> nat" where
  "round53 n =
     (let k = bit_len n - 53; q = n div 2 ^ k; r = n mod 2 ^ k
      in if k = 0 then n
         else (if 2 * r > 2 ^ k \<or> (2 * r = 2 ^ k \<and> odd q) then q + 1 else q) * 2 ^ k)"

text \<open>The double nearest to \<open>2 / 3\<close>, and the product with it; both scaled by \<open>2^53\<close>.\<close>

definition two_thirds :: nat where
  "two_thirds = 6004799503160661"

definition double_product :: "nat \<Rightarrow> nat \<Rightarrow> nat" where
  "double_product n m = round53 (round53 n * m)"

section \<open>Rounding\<close>

lemma bit_len_numeral:
  "bit_len 0 = 0" "bit_len (Suc 0) = 1" "bit_len (numeral (Num.Bit0 n)) = Suc (bit_len (numeral n))"
  "bit_len (numeral (Num.Bit1 n)) = Suc (bit_len (numeral n))"
  by (subst bit_len.simps; simp add: bit_len.simps)+

lemma bit_len_bound: "n < 2 ^ bit_len n"
proof (induction n rule: bit_len.induct)
  case (1 n)
  then show ?case by (cases "n = 0") (auto simp: bit_len.simps [of n])
qed

lemma bit_len_le: "n < 2 ^ m \<Longrightarrow> bit_len n \<le> m"
proof (induction n arbitrary: m rule: bit_len.induct)
  case (1 n)
  show ?case
  proof (cases "n = 0")
    case False
    with 1(2) obtain m' where m: "m = Suc m'" by (cases m) auto
    then have "n div 2 < 2 ^ m'" using 1(2) by auto
    with 1(1) False m show ?thesis by (simp add: bit_len.simps [of n])
  qed (simp add: bit_len.simps)
qed

text \<open>Half a unit in the last place.\<close>

lemma round53_near:
  fixes n :: nat
  defines "u \<equiv> 2 ^ (bit_len n - 53)"
  shows "2 * round53 n \<le> 2 * n + u" "2 * n \<le> 2 * round53 n + u"
proof -
  have n: "n = n div u * u + n mod u" by simp
  have r: "n mod u < u" by (simp add: u_def)
  have R: "round53 n = (if bit_len n - 53 = 0 then n
      else (if 2 * (n mod u) > u \<or> (2 * (n mod u) = u \<and> odd (n div u)) then n div u * u + u else n div u * u))"
    by (simp add: round53_def u_def Let_def)
  show "2 * round53 n \<le> 2 * n + u" unfolding R using n r by (auto; linarith)
  show "2 * n \<le> 2 * round53 n + u" unfolding R using n r by (auto; linarith)
qed

lemma round53_small: "n < 2 ^ 53 \<Longrightarrow> round53 n = n"
  using bit_len_le [of n 53] by (simp add: round53_def Let_def)

lemma round53_up:
  fixes n :: nat
  defines "u \<equiv> 2 ^ (bit_len n - 53)"
  assumes "bit_len n > 53" "n < a" "u dvd a" "2 * (a - n) \<le> u" "2 * (a - n) = u \<Longrightarrow> odd (a div u - 1)"
  shows "a \<le> round53 n"
proof -
  obtain q where q: "a = u * q" using assms(4) by blast
  have u: "0 < u" by (simp add: u_def)
  have le: "a \<le> n div u * u + u"
  proof -
    have "n mod u < u" "n = n div u * u + n mod u" using u by simp_all
    then have "a < 2 * u + n div u * u" using assms(5) by linarith
    then have "u * q < u * (n div u + 2)" by (simp add: q algebra_simps)
    then have "q < n div u + 2" unfolding mult_less_cancel1 by blast
    then have "u * q \<le> u * (n div u + 1)" by (intro mult_le_mono2) simp
    then show ?thesis by (simp add: q algebra_simps)
  qed
  have n: "n = n div u * u + n mod u" by simp
  have "u dvd a - n div u * u" using assms(4) by simp
  moreover have "a - n div u * u > 0" using n assms(3) by linarith
  ultimately have "u \<le> a - n div u * u" by (simp add: dvd_imp_le)
  with le assms(3) n have a: "a = n div u * u + u" by linarith
  then have diff: "a - n = u - n mod u" using n by linarith
  have R: "round53 n = (if 2 * (n mod u) > u \<or> (2 * (n mod u) = u \<and> odd (n div u)) then n div u * u + u else n div u * u)"
    using assms(2) by (simp add: round53_def u_def Let_def)
  have "odd (n div u)" if "2 * (n mod u) = u" using that assms(6) diff a u by simp
  moreover have "2 * (n mod u) \<ge> u" using diff assms(5) by linarith
  ultimately show ?thesis using a by (auto simp: R)
qed

section \<open>Two thirds, rounded down and up\<close>

lemma threshold_multiple:
  fixes m :: nat
  assumes "0 < m" "m < 2 ^ 50"
  shows "m * 2 ^ 54 \<le> round53 (m * 18014398509481983)"
proof -
  let ?n = "m * 18014398509481983"
  have big: "2 ^ 53 \<le> ?n" using assms(1) by simp
  have long: "53 < bit_len ?n"
  proof (rule ccontr)
    assume "\<not> 53 < bit_len ?n"
    then have "(2::nat) ^ bit_len ?n \<le> 2 ^ 53" by (intro power_increasing) auto
    with bit_len_bound [of ?n] big show False by linarith
  qed
  have "?n < 2 ^ 104" using assms(2) by simp
  then have "bit_len ?n \<le> 104" by (rule bit_len_le)
  then obtain j where j: "bit_len ?n = 54 + j" "j \<le> 50" using long that [of "bit_len ?n - 54"] by simp
  have bound: "?n < 2 ^ 54 * 2 ^ j" using bit_len_bound [of ?n] unfolding j(1) by (simp only: power_add)
  have m: "m \<le> 2 ^ j"
  proof (rule ccontr)
    assume "\<not> m \<le> 2 ^ j"
    then have "(2 ^ j + 1) * 18014398509481983 \<le> ?n" by (intro mult_le_mono1) simp
    moreover have "(2::nat) ^ j \<le> 2 ^ 50" using j(2) by (intro power_increasing) auto
    ultimately show False using bound by simp
  qed
  have diff: "m * 2 ^ 54 - ?n = m" by simp
  have unit: "bit_len ?n - 53 = Suc j" using j(1) by simp
  have split54: "(2::nat) ^ 54 = 2 ^ Suc j * 2 ^ (53 - j)" using j(2) by (simp flip: power_add power_Suc)
  show ?thesis
  proof (rule round53_up, unfold unit diff)
    show "53 < bit_len ?n" by (rule long)
    show "?n < m * 2 ^ 54" using assms(1) by simp
    show "2 ^ Suc j dvd m * 2 ^ 54" unfolding split54 by simp
    show "2 * m \<le> 2 ^ Suc j" using m by simp
    assume "2 * m = 2 ^ Suc j"
    then have "m = 2 ^ j" by simp
    then have "m * 2 ^ 54 div 2 ^ Suc j = (2 ^ 53 :: nat)" by simp
    then show "odd (m * 2 ^ 54 div 2 ^ Suc j - 1)" by simp
  qed
qed

lemma round53_below:
  fixes n :: nat
  defines "u \<equiv> 2 ^ (bit_len n - 53)"
  assumes "n \<le> a" "u dvd a"
  shows "round53 n \<le> a"
proof -
  obtain q where q: "a = u * q" using assms(3) by blast
  have u: "0 < u" by (simp add: u_def)
  have R: "round53 n = (if bit_len n - 53 = 0 then n
      else (if 2 * (n mod u) > u \<or> (2 * (n mod u) = u \<and> odd (n div u)) then n div u * u + u else n div u * u))"
    by (simp add: round53_def u_def Let_def)
  have n: "n = n div u * u + n mod u" by simp
  show ?thesis
  proof (cases "n mod u = 0")
    case True
    with n assms(2) u show ?thesis by (auto simp: R)
  next
    case False
    have "n div u * u < n" using False n by linarith
    then have "u * (n div u) < u * q" using assms(2) unfolding q by (simp only: mult.commute [of u] less_le_trans)
    then have "n div u < q" by simp
    then have up: "u * (n div u + 1) \<le> u * q" by (intro mult_le_mono2) simp
    then have "n div u * u + u \<le> a" by (simp add: q algebra_simps)
    with assms(2) show ?thesis by (auto simp: R)
  qed
qed

lemma threshold_multiple_exact:
  assumes "m < 2 ^ 50"
  shows "round53 (m * 18014398509481983) = m * 2 ^ 54"
proof (cases "m = 0")
  case False
  let ?n = "m * 18014398509481983"
  have "?n < 2 ^ 104" using assms by simp
  then have "bit_len ?n - 53 \<le> 54" using bit_len_le [of ?n 104] by simp
  then have "(2::nat) ^ (bit_len ?n - 53) dvd m * 2 ^ 54" by (intro dvd_mult le_imp_power_dvd)
  then have "round53 ?n \<le> m * 2 ^ 54" by (intro round53_below) simp_all
  with threshold_multiple [of m] False assms show ?thesis by simp
qed (simp add: round53_def bit_len.simps)

lemma threshold_floor:
  fixes t :: nat
  assumes "t < 2 ^ 51"
  shows "round53 (t * 6004799503160661) div 2 ^ 53 = 2 * t div 3"
proof -
  let ?n = "t * 6004799503160661" let ?R = "round53 ?n" let ?u = "2 ^ (bit_len ?n - 53) :: nat"
  have "?n < 2 ^ 104" using assms by simp
  then have "bit_len ?n - 53 \<le> 51" using bit_len_le [of ?n 104] by simp
  then have u: "?u \<le> 2 ^ 51" by (intro power_increasing) auto
  have near: "2 * ?R \<le> 2 * ?n + 2 ^ 51" "2 * ?n \<le> 2 * ?R + 2 ^ 51" using round53_near [of ?n] u by linarith+
  define m where "m = t div 3"
  have m: "m < 2 ^ 50" using assms by (simp add: m_def)
  consider (zero) "t = 3 * m" | (one) "t = 3 * m + 1" | (two) "t = 3 * m + 2" unfolding m_def by linarith
  then show ?thesis
  proof cases
    case zero
    have n: "?n = m * 18014398509481983" by (simp add: zero)
    have low: "m * 2 ^ 54 \<le> ?R" using threshold_multiple [of m] m by (cases "m = 0") (simp_all add: n)
    have "?R < (2 * m + 1) * 2 ^ 53" using near(1) unfolding n by simp
    with low have "?R div 2 ^ 53 = 2 * m" by (intro div_nat_eqI) simp_all
    then show ?thesis by (simp add: zero)
  next
    case one
    have "?R div 2 ^ 53 = 2 * m" using near m by (intro div_nat_eqI) (simp_all add: one)
    then show ?thesis by (simp add: one)
  next
    case two
    have "?R div 2 ^ 53 = 2 * m + 1" using near m by (intro div_nat_eqI) (simp_all add: two)
    then show ?thesis by (simp add: two)
  qed
qed

lemma threshold_ceiling:
  fixes t :: nat
  assumes "t < 2 ^ 51"
  shows "(round53 (t * 6004799503160661) + (2 ^ 53 - 1)) div 2 ^ 53 = (2 * t + 2) div 3"
proof -
  let ?n = "t * 6004799503160661" let ?R = "round53 ?n" let ?u = "2 ^ (bit_len ?n - 53) :: nat"
  have "?n < 2 ^ 104" using assms by simp
  then have "bit_len ?n - 53 \<le> 51" using bit_len_le [of ?n 104] by simp
  then have u: "?u \<le> 2 ^ 51" by (intro power_increasing) auto
  have near: "2 * ?R \<le> 2 * ?n + 2 ^ 51" "2 * ?n \<le> 2 * ?R + 2 ^ 51" using round53_near [of ?n] u by linarith+
  define m where "m = t div 3"
  have m: "m < 2 ^ 50" using assms by (simp add: m_def)
  consider (zero) "t = 3 * m" | (one) "t = 3 * m + 1" | (two) "t = 3 * m + 2" unfolding m_def by linarith
  then show ?thesis
  proof cases
    case zero
    have "?n = m * 18014398509481983" by (simp add: zero)
    then have "?R = m * 2 ^ 54" by (simp only: threshold_multiple_exact [OF m])
    then have "(?R + (2 ^ 53 - 1)) div 2 ^ 53 = 2 * m" by (intro div_nat_eqI) simp_all
    then show ?thesis by (simp add: zero)
  next
    case one
    have "(?R + (2 ^ 53 - 1)) div 2 ^ 53 = 2 * m + 1" using near m by (intro div_nat_eqI) (simp_all add: one)
    then show ?thesis by (simp add: one)
  next
    case two
    have "(?R + (2 ^ 53 - 1)) div 2 ^ 53 = 2 * m + 2" using near m by (intro div_nat_eqI) (simp_all add: two)
    then show ?thesis by (simp add: two)
  qed
qed

section \<open>A tenth, rounded down\<close>

text \<open>The mantissa of the double nearest to \<open>0.1\<close>, which is this number over \<open>2^56\<close>.\<close>

definition one_tenth :: nat where
  "one_tenth = 7205759403792794"

lemma round53_above:
  fixes n :: nat
  defines "u \<equiv> 2 ^ (bit_len n - 53)"
  assumes "a \<le> n" "u dvd a"
  shows "a \<le> round53 n"
proof -
  obtain q where q: "a = u * q" using assms(3) by blast
  then have "a \<le> n div u * u" using assms(2) by (metis div_le_mono div_mult_self1_is_m mult.commute mult_le_mono2 u_def zero_less_numeral zero_less_power)
  also have "n div u * u \<le> round53 n" by (simp add: round53_def u_def Let_def)
  finally show ?thesis .
qed

text \<open>One unit in the last place against the number; the floor after rounding, when rounding cannot reach the next multiple.\<close>

lemma ulp_bound: "53 < bit_len n \<Longrightarrow> 2 ^ (bit_len n - 53) * 2 ^ 52 \<le> n"
proof -
  assume big: "53 < bit_len n"
  then have "\<not> n < 2 ^ (bit_len n - 1)" using bit_len_le [of n "bit_len n - 1"] by linarith
  moreover have "bit_len n - 1 = (bit_len n - 53) + 52" using big by linarith
  ultimately show ?thesis by (simp only: not_less power_add)
qed

lemma round53_floor:
  assumes "n * 2 ^ k \<le> N" "N < 2 ^ (53 + k)" "2 * N + 2 ^ (bit_len N - 53) < 2 * ((n + 1) * 2 ^ k)"
  shows "round53 N div 2 ^ k = n"
proof -
  have "bit_len N - 53 \<le> k" using bit_len_le [OF assms(2)] by linarith
  then have "2 ^ (bit_len N - 53) dvd (2 :: nat) ^ k" by (rule le_imp_power_dvd)
  then have "n * 2 ^ k \<le> round53 N" using assms(1) by (intro round53_above) simp_all
  moreover have "round53 N < (n + 1) * 2 ^ k" using round53_near(1) [of N] assms(3) by linarith
  ultimately show ?thesis by (intro div_nat_eqI) (simp_all add: algebra_simps)
qed

lemma tenth_floor:
  assumes "n < 2 ^ 49"
  shows "double_product n one_tenth div 2 ^ 56 = n div 10"
proof -
  let ?x = "n * one_tenth" let ?u = "2 ^ (bit_len ?x - 53) :: nat" let ?q = "n div 10"
  have ten: "10 * ?x = n * 2 ^ 56 + 4 * n" by (simp add: one_tenth_def)
  have n: "n = 10 * ?q + n mod 10" "n mod 10 \<le> 9" by simp_all
  have "?x < 2 ^ 49 * 2 ^ 53" by (rule mult_strict_mono) (use assms in \<open>simp_all add: one_tenth_def\<close>)
  then have k: "bit_len ?x \<le> 102" by (intro bit_len_le) simp
  then have u: "?u \<le> 2 ^ 49" by (intro power_increasing) simp_all
  have dp: "double_product n one_tenth = round53 ?x"
    using assms round53_small [of n] by (simp add: double_product_def)
  have "10 * ?q * 2 ^ 56 \<le> n * 2 ^ 56" using n by (intro mult_le_mono1) linarith
  then have "?q * 2 ^ 56 \<le> ?x" using ten by linarith
  moreover have "?u dvd ?q * 2 ^ 56" using k by (intro dvd_mult le_imp_power_dvd) simp
  ultimately have lo: "?q * 2 ^ 56 \<le> round53 ?x" by (rule round53_above)
  have "n * 2 ^ 56 \<le> (10 * ?q + 9) * 2 ^ 56" using n by (intro mult_le_mono1) linarith
  then have "10 * ?x \<le> (10 * ?q + 9) * 2 ^ 56 + 4 * 2 ^ 49" using ten assms by linarith
  moreover have "2 * round53 ?x \<le> 2 * ?x + ?u" by (rule round53_near)
  ultimately have "10 * round53 ?x \<le> (10 * ?q + 9) * 2 ^ 56 + 4 * 2 ^ 49 + 5 * 2 ^ 49" using u by linarith
  then have hi: "round53 ?x < (?q + 1) * 2 ^ 56" by simp
  show ?thesis unfolding dp
  proof (rule div_nat_eqI)
    show "2 ^ 56 * ?q \<le> round53 ?x" using lo by (simp add: mult.commute)
    show "round53 ?x < 2 ^ 56 * Suc ?q" using hi by (simp add: mult.commute)
  qed
qed

end
