(* ===== verification/Finality.thy ===== *)
theory Finality
  imports Lmd Floats
begin

text \<open>
  The finality gadgets of \<open>consensus/finality_casper.py\<close> and \<open>consensus/finality_beacon.py\<close>, in their
  Python paths: votes are accumulated as weights per epoch and block, the heaviest block of an epoch is
  justified when it reaches the threshold, and the epoch before a justified one is finalized.
\<close>

section \<open>The threshold\<close>

text \<open>
  \<open>int(total_stake * (2 / 3))\<close>, with the double arithmetic of \<open>Floats\<close>. Stakes of \<open>2^1024\<close> and above,
  on which the conversion raises \<open>OverflowError\<close>, and negative ones are outside the model.
\<close>

definition ffg_threshold :: "int \<Rightarrow> int" where
  "ffg_threshold stake = int (double_product (nat stake) two_thirds div 2 ^ 53)"

text \<open>\<open>max(votes.items(), key=lambda x: x[1])\<close>: the first of the heaviest.\<close>

fun best_item :: "(string \<times> int) list \<Rightarrow> (string \<times> int) option" where
  "best_item [] = None"
| "best_item (x # xs) =
     (case best_item xs of None \<Rightarrow> Some x | Some y \<Rightarrow> if snd x \<ge> snd y then Some x else Some y)"

section \<open>Casper\<close>

record casper_finality =
  cf_votes :: "(int \<times> (string \<times> int) list) list"
  cf_total :: int
  cf_justified :: "int set"
  cf_finalized :: "int set"
  cf_blocks :: "(int \<times> string) list"

definition casper_init :: casper_finality where
  "casper_init = \<lparr>cf_votes = [], cf_total = 0, cf_justified = {}, cf_finalized = {}, cf_blocks = []\<rparr>"

definition casper_set_total :: "int \<Rightarrow> casper_finality \<Rightarrow> casper_finality" where
  "casper_set_total n f = f\<lparr>cf_total := n\<rparr>"

definition casper_justify :: "int \<Rightarrow> string \<Rightarrow> casper_finality \<Rightarrow> casper_finality" where
  "casper_justify epoch h f =
     (if epoch \<in> cf_justified f then f
      else f\<lparr>cf_justified := insert epoch (cf_justified f), cf_blocks := dset epoch h (cf_blocks f)\<rparr>)"

definition casper_try_finalize :: "int \<Rightarrow> casper_finality \<Rightarrow> casper_finality" where
  "casper_try_finalize epoch f =
     (if epoch - 1 \<in> cf_justified f \<and> epoch - 1 \<notin> cf_finalized f
      then f\<lparr>cf_finalized := insert (epoch - 1) (cf_finalized f)\<rparr> else f)"

definition casper_best :: "int \<Rightarrow> casper_finality \<Rightarrow> (string \<times> int) option" where
  "casper_best epoch f = (case dget (cf_votes f) epoch of None \<Rightarrow> None | Some vs \<Rightarrow> best_item vs)"

definition casper_evaluate :: "int \<Rightarrow> casper_finality \<Rightarrow> casper_finality" where
  "casper_evaluate epoch f =
     (case casper_best epoch f of
        None \<Rightarrow> f
      | Some (h, weight) \<Rightarrow>
          if weight \<ge> ffg_threshold (cf_total f)
          then casper_try_finalize epoch (casper_justify epoch h f) else f)"

definition casper_add_vote :: "int \<Rightarrow> string \<Rightarrow> int \<Rightarrow> casper_finality \<Rightarrow> casper_finality" where
  "casper_add_vote epoch h weight f =
     (let vs = dget_or (cf_votes f) epoch []
      in casper_evaluate epoch (f\<lparr>cf_votes := dset epoch (dset h (dget_or vs h 0 + weight) vs) (cf_votes f)\<rparr>))"

definition casper_is_finalized :: "int \<Rightarrow> int \<Rightarrow> casper_finality \<Rightarrow> bool" where
  "casper_is_finalized sz n f \<longleftrightarrow> epoch_of sz n \<in> cf_finalized f"

section \<open>Beacon\<close>

record beacon_finality =
  bf_epoch_size :: int
  bf_total :: int
  bf_votes :: "(int \<times> (string \<times> int) list) list"
  bf_justified_checkpoint :: "int option"
  bf_justified_block :: "string option"
  bf_finalized_checkpoint :: "int option"
  bf_finalized_block :: "string option"
  bf_justified :: "int set"
  bf_finalized :: "int set"
  bf_blocks :: "(int \<times> string) list"

definition beacon_init :: "int \<Rightarrow> beacon_finality" where
  "beacon_init sz = \<lparr>bf_epoch_size = sz, bf_total = 0, bf_votes = [], bf_justified_checkpoint = None,
     bf_justified_block = None, bf_finalized_checkpoint = None, bf_finalized_block = None,
     bf_justified = {}, bf_finalized = {}, bf_blocks = []\<rparr>"

definition beacon_set_total :: "int \<Rightarrow> beacon_finality \<Rightarrow> beacon_finality" where
  "beacon_set_total n f = f\<lparr>bf_total := n\<rparr>"

definition beacon_best :: "int \<Rightarrow> beacon_finality \<Rightarrow> (string \<times> int) option" where
  "beacon_best epoch f = (case dget (bf_votes f) epoch of None \<Rightarrow> None | Some vs \<Rightarrow> best_item vs)"

definition beacon_finalize_prev :: "int \<Rightarrow> beacon_finality \<Rightarrow> beacon_finality" where
  "beacon_finalize_prev epoch f =
     (let prev = epoch - 1
      in if prev \<in> bf_justified f \<and> prev \<notin> bf_finalized f
         then f\<lparr>bf_finalized := insert prev (bf_finalized f), bf_finalized_checkpoint := Some prev,
                bf_finalized_block := dget (bf_blocks f) prev\<rparr>
         else f)"

definition beacon_evaluate :: "int \<Rightarrow> beacon_finality \<Rightarrow> beacon_finality" where
  "beacon_evaluate epoch f =
     (case beacon_best epoch f of
        None \<Rightarrow> f
      | Some (h, weight) \<Rightarrow>
          if weight \<ge> ffg_threshold (bf_total f) \<and> epoch \<notin> bf_justified f
          then beacon_finalize_prev epoch
                 (f\<lparr>bf_justified := insert epoch (bf_justified f), bf_blocks := dset epoch h (bf_blocks f),
                    bf_justified_checkpoint := Some epoch, bf_justified_block := Some h\<rparr>)
          else f)"

definition beacon_add_vote :: "string \<Rightarrow> string \<Rightarrow> int \<Rightarrow> int \<Rightarrow> beacon_finality \<Rightarrow> beacon_finality" where
  "beacon_add_vote v h slot weight f =
     (let epoch = epoch_of (bf_epoch_size f) slot; vs = dget_or (bf_votes f) epoch []
      in beacon_evaluate epoch (f\<lparr>bf_votes := dset epoch (dset h (dget_or vs h 0 + weight) vs) (bf_votes f)\<rparr>))"

definition beacon_is_justified :: "int \<Rightarrow> beacon_finality \<Rightarrow> bool" where
  "beacon_is_justified epoch f \<longleftrightarrow> epoch \<in> bf_justified f"

definition beacon_is_finalized :: "int \<Rightarrow> beacon_finality \<Rightarrow> bool" where
  "beacon_is_finalized n f \<longleftrightarrow> epoch_of (bf_epoch_size f) n \<in> bf_finalized f"

section \<open>The interface of a finality gadget\<close>

text \<open>
  What both gadgets promise of an update: justification and finalization are never taken back, and an
  epoch is finalized only with it and the next one justified.
\<close>

locale ffg_gadget =
  fixes justified finalized :: "'s \<Rightarrow> int set"
    and update :: "'op \<Rightarrow> 's \<Rightarrow> 's"
  assumes justified_grows: "justified s \<subseteq> justified (update op s)"
    and finalized_grows: "finalized s \<subseteq> finalized (update op s)"
    and finalized_new: "e \<in> finalized (update op s) \<Longrightarrow> e \<notin> finalized s
        \<Longrightarrow> e \<in> justified (update op s) \<and> e + 1 \<in> justified (update op s)"
begin

definition two_step :: "'s \<Rightarrow> bool" where
  "two_step s \<longleftrightarrow> (\<forall>e\<in>finalized s. e \<in> justified s \<and> e + 1 \<in> justified s)"

lemma two_step_update: "two_step s \<Longrightarrow> two_step (update op s)"
  unfolding two_step_def using justified_grows finalized_new by blast

lemma two_step_run: "two_step s \<Longrightarrow> two_step (fold update ops s)"
  by (induction ops arbitrary: s) (simp_all add: two_step_update)

lemma justified_run: "justified s \<subseteq> justified (fold update ops s)"
proof (induction ops arbitrary: s)
  case (Cons op ops)
  show ?case using justified_grows [of s op] Cons.IH [of "update op s"] by (simp add: subset_trans)
qed simp

lemma finalized_run: "finalized s \<subseteq> finalized (fold update ops s)"
proof (induction ops arbitrary: s)
  case (Cons op ops)
  show ?case using finalized_grows [of s op] Cons.IH [of "update op s"] by (simp add: subset_trans)
qed simp

end

text \<open>The updates of a gadget: a new total stake, or a vote.\<close>

datatype casper_op = CTotal int | CVote int string int

fun casper_step :: "casper_op \<Rightarrow> casper_finality \<Rightarrow> casper_finality" where
  "casper_step (CTotal n) f = casper_set_total n f"
| "casper_step (CVote epoch h weight) f = casper_add_vote epoch h weight f"

datatype beacon_op = BTotal int | BVote string string int int

fun beacon_step :: "beacon_op \<Rightarrow> beacon_finality \<Rightarrow> beacon_finality" where
  "beacon_step (BTotal n) f = beacon_set_total n f"
| "beacon_step (BVote v h slot weight) f = beacon_add_vote v h slot weight f"

interpretation casper: ffg_gadget cf_justified cf_finalized casper_step
proof
  fix f op e
  show "cf_justified f \<subseteq> cf_justified (casper_step op f)"
    by (cases op) (auto simp: casper_set_total_def casper_add_vote_def casper_evaluate_def casper_try_finalize_def
        casper_justify_def Let_def split: option.splits)
  show "cf_finalized f \<subseteq> cf_finalized (casper_step op f)"
    by (cases op) (auto simp: casper_set_total_def casper_add_vote_def casper_evaluate_def casper_try_finalize_def
        casper_justify_def Let_def split: option.splits)
  assume "e \<in> cf_finalized (casper_step op f)" "e \<notin> cf_finalized f"
  then show "e \<in> cf_justified (casper_step op f) \<and> e + 1 \<in> cf_justified (casper_step op f)"
    by (cases op) (auto simp: casper_set_total_def casper_add_vote_def casper_evaluate_def casper_try_finalize_def
        casper_justify_def Let_def split: option.splits if_splits)
qed

interpretation beacon: ffg_gadget bf_justified bf_finalized beacon_step
proof
  fix f op e
  show "bf_justified f \<subseteq> bf_justified (beacon_step op f)"
    by (cases op) (auto simp: beacon_set_total_def beacon_add_vote_def beacon_evaluate_def beacon_finalize_prev_def
        Let_def split: option.splits)
  show "bf_finalized f \<subseteq> bf_finalized (beacon_step op f)"
    by (cases op) (auto simp: beacon_set_total_def beacon_add_vote_def beacon_evaluate_def beacon_finalize_prev_def
        Let_def split: option.splits)
  assume "e \<in> bf_finalized (beacon_step op f)" "e \<notin> bf_finalized f"
  then show "e \<in> bf_justified (beacon_step op f) \<and> e + 1 \<in> bf_justified (beacon_step op f)"
    by (cases op) (auto simp: beacon_set_total_def beacon_add_vote_def beacon_evaluate_def beacon_finalize_prev_def
        Let_def split: option.splits if_splits)
qed

end
