(* ===== verification/FinalityProps.thy ===== *)
theory FinalityProps
  imports Finality
begin

text \<open>
  The float threshold of the finality gadgets is the exact floor of two thirds of the stake, for any stake
  below \<open>2^51\<close> satoshi; and the two-step rule of both gadgets, from their common interface.
\<close>

section \<open>Properties\<close>

lemma threshold_nat:
  assumes "0 \<le> stake" "stake < 2 ^ 51"
  shows "ffg_threshold stake = 2 * stake div 3"
proof -
  have nat: "nat stake < 2 ^ 51" using assms by (simp add: nat_less_iff)
  then have "ffg_threshold stake = int (round53 (nat stake * 6004799503160661) div 2 ^ 53)"
    unfolding ffg_threshold_def double_product_def two_thirds_def by (simp add: round53_small)
  also have "\<dots> = int (2 * nat stake div 3)" by (simp only: threshold_floor [OF nat])
  also have "\<dots> = 2 * stake div 3" using assms(1) by (simp add: zdiv_int)
  finally show ?thesis .
qed

text \<open>C15: The threshold of the finality gadgets, computed by a float multiplication and a truncation, is exactly the floor of two thirds of the total stake, for every total below 2^51.\<close>

lemma ffg_threshold_exact:
  assumes "0 \<le> stake" "stake < 2 ^ 51"
  shows "ffg_threshold stake = 2 * stake div 3 \<and> 3 * ffg_threshold stake \<le> 2 * stake
     \<and> 2 * stake < 3 * ffg_threshold stake + 3"
  using threshold_nat [OF assms] by (simp; presburger)

lemma ffg_threshold_exact_witness: "ffg_threshold 100000000 = 66666666 \<and> ffg_threshold 4 = 2"
  using ffg_threshold_exact [of 100000000] ffg_threshold_exact [of 4] by simp

text \<open>C16: The two-step rule. In both finality gadgets, after any sequence of votes and stake changes, every finalized epoch is justified and so is the one after it, and neither a justified nor a finalized epoch is ever taken back by what follows.\<close>

lemma two_step_finality:
  "cf_finalized (fold casper_step ops casper_init)
     \<subseteq> {e. {e, e + 1} \<subseteq> cf_justified (fold casper_step ops casper_init)}
   \<and> bf_finalized (fold beacon_step bops (beacon_init sz))
     \<subseteq> {e. {e, e + 1} \<subseteq> bf_justified (fold beacon_step bops (beacon_init sz))}
   \<and> cf_finalized (fold casper_step ops casper_init) \<subseteq> cf_finalized (fold casper_step (ops @ ops') casper_init)
   \<and> bf_finalized (fold beacon_step bops (beacon_init sz)) \<subseteq> bf_finalized (fold beacon_step (bops @ bops') (beacon_init sz))
   \<and> cf_justified (fold casper_step ops casper_init) \<subseteq> cf_justified (fold casper_step (ops @ ops') casper_init)
   \<and> bf_justified (fold beacon_step bops (beacon_init sz)) \<subseteq> bf_justified (fold beacon_step (bops @ bops') (beacon_init sz))"
proof -
  have "casper.two_step (fold casper_step ops casper_init)"
    by (rule casper.two_step_run) (simp add: casper.two_step_def casper_init_def)
  moreover have "beacon.two_step (fold beacon_step bops (beacon_init sz))"
    by (rule beacon.two_step_run) (simp add: beacon.two_step_def beacon_init_def)
  ultimately show ?thesis
    using casper.finalized_run [of "fold casper_step ops casper_init" ops']
      beacon.finalized_run [of "fold beacon_step bops (beacon_init sz)" bops']
      casper.justified_run [of "fold casper_step ops casper_init" ops']
      beacon.justified_run [of "fold beacon_step bops (beacon_init sz)" bops']
    by (auto simp: casper.two_step_def beacon.two_step_def)
qed

section \<open>Two observations\<close>

text \<open>Half of a stake of 4 reaches the threshold: two conflicting blocks can both have it.\<close>

lemma half_of_four_justifies:
  "1 \<in> cf_justified (fold casper_step [CTotal 4, CVote 1 ''a'' 2] casper_init)
   \<and> 1 \<in> cf_justified (fold casper_step [CTotal 4, CVote 1 ''b'' 2] casper_init)"
proof -
  have "ffg_threshold 4 = 2" by (simp add: threshold_nat)
  then show ?thesis
    by (simp add: casper_init_def casper_set_total_def casper_add_vote_def casper_evaluate_def casper_best_def
        casper_try_finalize_def casper_justify_def dget_or_def)
qed

text \<open>
  When epoch 2 is justified before epoch 1, the Beacon gadget never finalizes epoch 1, whatever votes
  for epoch 2 follow; the Casper gadget does.
\<close>

lemma beacon_late_epoch:
  assumes "epoch + 1 \<in> bf_justified f" "epoch \<notin> bf_finalized f" "epoch_of (bf_epoch_size f) slot = epoch + 1"
  shows "epoch \<notin> bf_finalized (beacon_add_vote v h slot weight f)"
  using assms by (simp add: beacon_add_vote_def beacon_evaluate_def Let_def split: option.splits)

end
