(* ===== verification/Engines.thy ===== *)
theory Engines
  imports Finality Slashing PyVal
begin

text \<open>
  The three consensus engines \<open>consensus/engine_casper.py\<close>, \<open>consensus/engine_beacon.py\<close> and
  \<open>consensus/engine_slashing.py\<close>: a block tree grown by \<open>add_block\<close>, the table of latest messages, a
  finality gadget and, in the last, the slashing engine. The three modules repeat the code of \<open>add_block\<close>;
  it is one definition here. Statistics and printing are left out, and so is the slot counter none of the
  engines uses. Hashes are strings, as the annotations say: a block whose hash or parent is another truthy
  value is answered with \<open>Inl ''TypeError''\<close>, which stands for leaving the model.
\<close>

section \<open>The block tree\<close>

definition hash_of_block :: "pydict \<Rightarrow> pyval" where
  "hash_of_block b = py_or (pget b ''hash'') (pget b ''block_hash'')"

definition parent_of_block :: "pydict \<Rightarrow> pyval" where
  "parent_of_block b = py_or (py_or (pget b ''parent_hash'') (pget b ''parent'')) PNone"

definition number_of_block :: "pydict \<Rightarrow> int option" where
  "number_of_block b = py_int (py_or (dget_or b ''number'' (dget_or b ''height'' (PInt 0))) (PInt 0))"

definition add_node :: "string \<Rightarrow> string option \<Rightarrow> int \<Rightarrow> ghost_tree \<Rightarrow> ghost_tree" where
  "add_node h parent n t =
     (case dget t h of
        None \<Rightarrow> dset h \<lparr>gn_parent = parent, gn_children = [], gn_number = n\<rparr> t
      | Some d \<Rightarrow> dset h (d\<lparr>gn_parent := (if gn_parent d = None then parent else gn_parent d), gn_number := n\<rparr>) t)"

definition add_child :: "string \<Rightarrow> string \<Rightarrow> ghost_tree \<Rightarrow> ghost_tree" where
  "add_child p h t =
     (let t1 = (if dget t p = None then dset p \<lparr>gn_parent = None, gn_children = [], gn_number = 0\<rparr> t else t)
      in case dget t1 p of
           None \<Rightarrow> t1
         | Some d \<Rightarrow> if h \<in> set (gn_children d) then t1 else dset p (d\<lparr>gn_children := gn_children d @ [h]\<rparr>) t1)"

definition tree_insert :: "string \<Rightarrow> string option \<Rightarrow> int \<Rightarrow> ghost_tree \<Rightarrow> ghost_tree" where
  "tree_insert h parent n t =
     (let t1 = add_node h parent n t in case parent of None \<Rightarrow> t1 | Some p \<Rightarrow> add_child p h t1)"

text \<open>The tree together with the blocks it was built from.\<close>

record block_tree =
  bt_tree :: ghost_tree
  bt_blocks :: "(string \<times> pydict) list"

definition tree_add_block :: "pydict \<Rightarrow> (block_tree, string, unit) exs" where
  "tree_add_block b =
     (case (hash_of_block b, parent_of_block b, number_of_block b) of
        (PStr h, PNone, Some n) \<Rightarrow> modM (\<lambda>t. t\<lparr>bt_blocks := dset h b (bt_blocks t), bt_tree := tree_insert h None n (bt_tree t)\<rparr>)
      | (PStr h, PStr p, Some n) \<Rightarrow>
          modM (\<lambda>t. t\<lparr>bt_blocks := dset h b (bt_blocks t), bt_tree := tree_insert h (Some p) n (bt_tree t)\<rparr>)
      | (_, _, None) \<Rightarrow> raiseM ''ValueError''
      | _ \<Rightarrow> raiseM ''TypeError'')"

text \<open>\<open>get_epoch(block.get("number", 0))\<close>: \<open>None\<close> and strings have no floor division.\<close>

definition block_epoch :: "int \<Rightarrow> pydict \<Rightarrow> int option" where
  "block_epoch sz b =
     (case dget_or b ''number'' (PInt 0) of
        PInt n \<Rightarrow> Some (epoch_of sz n) | PBool x \<Rightarrow> Some (epoch_of sz (if x then 1 else 0)) | _ \<Rightarrow> None)"

definition tree_block :: "block_tree \<Rightarrow> string \<Rightarrow> pydict option" where
  "tree_block t h = (case dget (bt_blocks t) h of Some b \<Rightarrow> if b = [] then None else Some b | None \<Rightarrow> None)"

definition tree_head :: "lmd_table \<Rightarrow> block_tree \<Rightarrow> string option option" where
  "tree_head l t = select_head (bt_tree t) (lmd_weights l)"

definition tree_head_block :: "lmd_table \<Rightarrow> block_tree \<Rightarrow> pydict option option" where
  "tree_head_block l t =
     (case tree_head l t of
        None \<Rightarrow> None
      | Some None \<Rightarrow> Some None
      | Some (Some h) \<Rightarrow> Some (if h = [] then None else dget (bt_blocks t) h))"

definition tree_head_height :: "lmd_table \<Rightarrow> block_tree \<Rightarrow> pyval option" where
  "tree_head_height l t =
     (case tree_head_block l t of
        None \<Rightarrow> None
      | Some (Some (x # b)) \<Rightarrow> Some (dget_or (x # b) ''number'' (PInt 0))
      | Some _ \<Rightarrow> Some (PInt 0))"

text \<open>Running an operation of a part of the state.\<close>

definition onM :: "('s \<Rightarrow> 'p) \<Rightarrow> ('p \<Rightarrow> 's \<Rightarrow> 's) \<Rightarrow> ('p, 'e, 'a) exs \<Rightarrow> ('s, 'e, 'a) exs" where
  "onM get put m = (\<lambda>s. case m (get s) of (r, p) \<Rightarrow> (r, put p s))"

section \<open>The Casper engine\<close>

record casper_engine =
  ce_lmd :: lmd_table
  ce_finality :: casper_finality
  ce_epoch_size :: int
  ce_tree :: block_tree

definition ce_init :: "int \<Rightarrow> casper_engine" where
  "ce_init sz = \<lparr>ce_lmd = lmd_init, ce_finality = casper_init, ce_epoch_size = sz,
     ce_tree = \<lparr>bt_tree = [], bt_blocks = []\<rparr>\<rparr>"

definition ce_add_validator :: "string \<Rightarrow> int \<Rightarrow> (casper_engine, string, unit) exs" where
  "ce_add_validator v stake = (\<lambda>e.
     case lmd_add_validator v stake (ce_lmd e) of
       None \<Rightarrow> (Inl ''stake_required'', e)
     | Some l \<Rightarrow> (Inr (), e\<lparr>ce_lmd := l, ce_finality := casper_set_total (lmd_total_stake l) (ce_finality e)\<rparr>))"

definition ce_add_block :: "pydict \<Rightarrow> (casper_engine, string, unit) exs" where
  "ce_add_block b = onM ce_tree (\<lambda>t e. e\<lparr>ce_tree := t\<rparr>) (tree_add_block b)"

definition ce_on_attestation :: "string \<Rightarrow> string \<Rightarrow> int \<Rightarrow> (casper_engine, string, bool) exs" where
  "ce_on_attestation v h slot = (\<lambda>e.
     let (result, l) = lmd_update v h slot (ce_lmd e);
         e1 = e\<lparr>ce_lmd := l\<rparr>
     in case tree_block (ce_tree e1) h of
          None \<Rightarrow> (Inr result, e1)
        | Some b \<Rightarrow>
            (case block_epoch (ce_epoch_size e1) b of
               None \<Rightarrow> (Inl ''TypeError'', e1)
             | Some epoch \<Rightarrow>
                 (Inr result,
                  e1\<lparr>ce_finality := casper_add_vote epoch h (dget_or (lmd_weights l) h 0) (ce_finality e1)\<rparr>)))"

definition ce_get_head :: "casper_engine \<Rightarrow> string option option" where
  "ce_get_head e = tree_head (ce_lmd e) (ce_tree e)"

definition ce_cumulative_weight :: "casper_engine \<Rightarrow> string \<Rightarrow> int option" where
  "ce_cumulative_weight e h = cumulative_weight (bt_tree (ce_tree e)) (lmd_weights (ce_lmd e)) h"

definition ce_is_finalized :: "string \<Rightarrow> casper_engine \<Rightarrow> string + bool" where
  "ce_is_finalized h e =
     (case tree_block (ce_tree e) h of
        None \<Rightarrow> Inr False
      | Some b \<Rightarrow>
          (case block_epoch (ce_epoch_size e) b of
             None \<Rightarrow> Inl ''TypeError'' | Some epoch \<Rightarrow> Inr (epoch \<in> cf_finalized (ce_finality e))))"

section \<open>The Beacon engine\<close>

record beacon_engine =
  be_lmd :: lmd_table
  be_finality :: beacon_finality
  be_tree :: block_tree

definition be_init :: "int \<Rightarrow> beacon_engine" where
  "be_init sz = \<lparr>be_lmd = lmd_init, be_finality = beacon_init sz, be_tree = \<lparr>bt_tree = [], bt_blocks = []\<rparr>\<rparr>"

definition be_add_validator :: "string \<Rightarrow> int \<Rightarrow> (beacon_engine, string, unit) exs" where
  "be_add_validator v stake = (\<lambda>e.
     case lmd_add_validator v stake (be_lmd e) of
       None \<Rightarrow> (Inl ''stake_required'', e)
     | Some l \<Rightarrow> (Inr (), e\<lparr>be_lmd := l, be_finality := beacon_set_total (lmd_total_stake l) (be_finality e)\<rparr>))"

definition be_add_block :: "pydict \<Rightarrow> (beacon_engine, string, unit) exs" where
  "be_add_block b = onM be_tree (\<lambda>t e. e\<lparr>be_tree := t\<rparr>) (tree_add_block b)"

definition be_on_attestation :: "string \<Rightarrow> string \<Rightarrow> int \<Rightarrow> beacon_engine \<Rightarrow> bool \<times> beacon_engine" where
  "be_on_attestation v h slot e =
     (let (result, l) = lmd_update v h slot (be_lmd e);
          e1 = e\<lparr>be_lmd := l\<rparr>
      in if result
         then (True, e1\<lparr>be_finality := beacon_add_vote v h slot (dget_or (validator_stake l) v 0) (be_finality e1)\<rparr>)
         else (False, e1))"

definition be_get_head :: "beacon_engine \<Rightarrow> string option option" where
  "be_get_head e = tree_head (be_lmd e) (be_tree e)"

definition be_is_finalized :: "string \<Rightarrow> beacon_engine \<Rightarrow> string + bool" where
  "be_is_finalized h e =
     (case tree_block (be_tree e) h of
        None \<Rightarrow> Inr False
      | Some b \<Rightarrow>
          (case block_epoch (bf_epoch_size (be_finality e)) b of
             None \<Rightarrow> Inl ''TypeError'' | Some epoch \<Rightarrow> Inr (epoch \<in> bf_finalized (be_finality e))))"

section \<open>The engine with slashing\<close>

record 'w slashing_consensus =
  se_lmd :: lmd_table
  se_finality :: beacon_finality
  se_slashing :: "'w slashing_engine"
  se_epoch_size :: int
  se_tree :: block_tree

definition se_init :: "int \<Rightarrow> 'w \<Rightarrow> 'w slashing_consensus" where
  "se_init sz world = \<lparr>se_lmd = lmd_init, se_finality = beacon_init sz, se_slashing = slashing_init world,
     se_epoch_size = sz, se_tree = \<lparr>bt_tree = [], bt_blocks = []\<rparr>\<rparr>"

definition se_set_total :: "'w slashing_consensus \<Rightarrow> 'w slashing_consensus" where
  "se_set_total e = e\<lparr>se_finality := beacon_set_total (total_active_slash_stake (se_slashing e)) (se_finality e)\<rparr>"

definition se_add_validator :: "string \<Rightarrow> int \<Rightarrow> ('w slashing_consensus, string, unit) exs" where
  "se_add_validator v stake = (\<lambda>e.
     case lmd_add_validator v stake (se_lmd e) of
       None \<Rightarrow> (Inl ''stake_required'', e)
     | Some l \<Rightarrow>
         bindM (onM se_slashing (\<lambda>s e. e\<lparr>se_slashing := s\<rparr>) (register_slash_validator v stake)) (\<lambda>_. modM se_set_total)
           (e\<lparr>se_lmd := l\<rparr>))"

definition se_add_block :: "pydict \<Rightarrow> ('w slashing_consensus, string, unit) exs" where
  "se_add_block b = onM se_tree (\<lambda>t e. e\<lparr>se_tree := t\<rparr>) (tree_add_block b)"

text \<open>The votes of \<open>on_attestation\<close> once the slashing engine let the attestation through.\<close>

definition se_count_vote :: "string \<Rightarrow> string \<Rightarrow> int \<Rightarrow> ('w slashing_consensus, string, unit) exs" where
  "se_count_vote v h slot = (\<lambda>e.
     let stake = get_stake v (se_slashing e)
     in if stake > 0
        then
          (let e1 = e\<lparr>se_lmd := snd (lmd_update v h slot (se_lmd e))\<rparr>
           in case tree_block (se_tree e1) h of
                None \<Rightarrow> (Inr (), e1)
              | Some b \<Rightarrow>
                  (case block_epoch (se_epoch_size e1) b of
                     None \<Rightarrow> (Inl ''TypeError'', e1)
                   | Some _ \<Rightarrow> (Inr (), e1\<lparr>se_finality := beacon_add_vote v h slot stake (se_finality e1)\<rparr>)))
        else (Inr (), e))"

definition se_on_attestation :: "string \<Rightarrow> string \<Rightarrow> int \<Rightarrow> ('w slashing_consensus, string, bool) exs" where
  "se_on_attestation v h slot =
     bindM (onM se_slashing (\<lambda>s e. e\<lparr>se_slashing := s\<rparr>) (slashing_add_vote v slot h)) (\<lambda>ok.
       if \<not> ok then returnM False
       else bindM (se_count_vote v h slot) (\<lambda>_. bindM (modM se_set_total) (\<lambda>_. returnM True)))"

definition se_get_head :: "'w slashing_consensus \<Rightarrow> string option option" where
  "se_get_head e = tree_head (se_lmd e) (se_tree e)"

definition se_is_finalized :: "string \<Rightarrow> 'w slashing_consensus \<Rightarrow> string + bool" where
  "se_is_finalized h e =
     (case tree_block (se_tree e) h of
        None \<Rightarrow> Inr False
      | Some b \<Rightarrow>
          (case block_epoch (bf_epoch_size (se_finality e)) b of
             None \<Rightarrow> Inl ''TypeError'' | Some epoch \<Rightarrow> Inr (epoch \<in> bf_finalized (se_finality e))))"

end
