(* ===== verification/EngineProps.thy ===== *)
theory EngineProps
  imports Engines GhostProps FinalityProps
begin

text \<open>
  The fork choice of the consensus engines. Blocks whose parents are a function of their hashes and do not
  run in a circle (which hashing gives them) keep the block tree a forest, so the GHOST loops return and the
  head is the one of the specification in \<open>GhostProps\<close>, over the stakes of the latest messages. What the
  three engines share is the interface \<open>fork_choice_engine\<close>.
\<close>

section \<open>Inserting into the tree\<close>

lemma children_of_set [simp]: "children_of (dset k d t) n = (if n = k then gn_children d else children_of t n)"
  by (simp add: children_of_def)

lemma parent_of_set [simp]: "parent_of (dset k d t) n = (if n = k then gn_parent d else parent_of t n)"
  by (simp add: parent_of_def)

lemma children_of_none: "dget t n = None \<Longrightarrow> children_of t n = []"
  by (simp add: children_of_def)

lemma parent_of_none: "dget t n = None \<Longrightarrow> parent_of t n = None"
  by (simp add: parent_of_def)

lemma add_node_eq:
  "\<exists>d. add_node h parent n t = dset h d t \<and> gn_children d = children_of t h
     \<and> gn_parent d = (if parent_of t h = None then parent else parent_of t h)"
proof (cases "dget t h")
  case None
  then show ?thesis by (intro exI [of _ "\<lparr>gn_parent = parent, gn_children = [], gn_number = n\<rparr>"])
    (simp add: add_node_def children_of_def parent_of_def)
next
  case (Some d)
  then show ?thesis by (intro exI [of _ "d\<lparr>gn_parent := (if gn_parent d = None then parent else gn_parent d), gn_number := n\<rparr>"])
    (simp add: add_node_def children_of_def parent_of_def)
qed

lemma add_node_children [simp]: "children_of (add_node h parent n t) m = children_of t m"
  using add_node_eq [of h parent n t] by auto

lemma add_node_parent [simp]:
  "parent_of (add_node h parent n t) m = (if m = h \<and> parent_of t h = None then parent else parent_of t m)"
  using add_node_eq [of h parent n t] by auto

lemma add_node_keys [simp]: "fst ` set (add_node h parent n t) = insert h (fst ` set t)"
  using add_node_eq [of h parent n t] by (elim exE conjE) (simp only: dset_key_set)

lemma add_node_distinct [simp]: "distinct (map fst t) \<Longrightarrow> distinct (map fst (add_node h parent n t))"
  using add_node_eq [of h parent n t] by auto

lemma add_child_cases:
  obtains (there) "h \<in> set (children_of t p)" "p \<in> fst ` set t" "add_child p h t = t"
  | (new) d t1 where "h \<notin> set (children_of t p)" "add_child p h t = dset p d t1" "gn_children d = children_of t p @ [h]"
      "gn_parent d = parent_of t p" "t1 = t \<or> (\<exists>x. t1 = dset p x t)"
proof (cases "dget t p")
  case None
  let ?x = "\<lparr>gn_parent = None, gn_children = [], gn_number = 0\<rparr>"
  show ?thesis by (rule new [of "?x\<lparr>gn_children := [h]\<rparr>" "dset p ?x t"])
    (use None in \<open>auto simp: add_child_def children_of_none parent_of_none Let_def\<close>)
next
  case (Some d)
  have keys: "p \<in> fst ` set t" using Some by (simp only: in_tree) simp
  show ?thesis
  proof (cases "h \<in> set (gn_children d)")
    case True
    then show ?thesis using there keys Some by (simp add: add_child_def children_of_def)
  next
    case False
    then show ?thesis using new [of "d\<lparr>gn_children := gn_children d @ [h]\<rparr>" t] Some
      by (simp add: add_child_def children_of_def parent_of_def)
  qed
qed

lemma add_child_children [simp]:
  "children_of (add_child p h t) m =
     (if m = p \<and> h \<notin> set (children_of t p) then children_of t p @ [h] else children_of t m)"
  by (rule add_child_cases [of h t p]) auto

lemma add_child_parent [simp]: "parent_of (add_child p h t) m = parent_of t m"
  by (rule add_child_cases [of h t p]) auto

lemma add_child_keys [simp]: "fst ` set (add_child p h t) = insert p (fst ` set t)"
proof (rule add_child_cases [of h t p])
  fix d t1
  assume "add_child p h t = dset p d t1" "t1 = t \<or> (\<exists>x. t1 = dset p x t)"
  then show ?thesis by (elim disjE exE) (simp_all only: dset_key_set insert_absorb2)
qed (simp add: insert_absorb)

lemma add_child_distinct [simp]: "distinct (map fst t) \<Longrightarrow> distinct (map fst (add_child p h t))"
  by (rule add_child_cases [of h t p]) auto

definition tree_holds :: "(string \<times> string) set \<Rightarrow> ghost_tree \<Rightarrow> bool" where
  "tree_holds L t \<longleftrightarrow> distinct (map fst t) \<and> (\<forall>n. distinct (children_of t n))
     \<and> (\<forall>n c. c \<in> set (children_of t n) \<longleftrightarrow> (n, c) \<in> L) \<and> (\<forall>n c. parent_of t c = Some n \<longleftrightarrow> (n, c) \<in> L)
     \<and> Range L \<subseteq> fst ` set t"

lemma tree_holds_forest: "tree_holds L t \<Longrightarrow> acyclic L \<Longrightarrow> forest t"
proof -
  assume t: "tree_holds L t" and "acyclic L"
  moreover have "child_rel t = L" using t by (auto simp: tree_holds_def child_rel_def)
  ultimately show "forest t" by (auto simp: tree_holds_def forest_def)
qed

lemma tree_insert_root:
  assumes "tree_holds L t"
  shows "tree_holds L (tree_insert h None n t)"
proof -
  have "parent_of (add_node h None n t) c = parent_of t c" for c by simp
  with assms show ?thesis
    unfolding tree_holds_def tree_insert_def by (simp only: Let_def option.case add_node_children add_node_keys
        add_node_distinct simp_thms subset_insertI2)
qed

lemma tree_insert_child:
  assumes "tree_holds L t" "single_valued ((insert (p, h) L)\<inverse>)"
  shows "tree_holds (insert (p, h) L) (tree_insert h (Some p) n t)"
proof -
  have only: "q = p" if "(q, h) \<in> L" for q using assms(2) that by (auto simp: single_valued_def)
  have L: "c \<in> set (children_of t m) \<longleftrightarrow> (m, c) \<in> L" "parent_of t c = Some m \<longleftrightarrow> (m, c) \<in> L" for m c
    using assms(1) by (auto simp: tree_holds_def)
  have parent: "parent_of t h = None \<or> parent_of t h = Some p" using only L(2) by (cases "parent_of t h") auto
  let ?t = "tree_insert h (Some p) n t"
  have "children_of ?t m = (if m = p \<and> h \<notin> set (children_of t p) then children_of t p @ [h] else children_of t m)" for m
    by (simp add: tree_insert_def Let_def)
  then have "distinct (children_of ?t m)" "c \<in> set (children_of ?t m) \<longleftrightarrow> (m, c) \<in> insert (p, h) L" for m c
    using assms(1) L(1) by (auto simp: tree_holds_def)
  moreover have "parent_of ?t c = Some m \<longleftrightarrow> (m, c) \<in> insert (p, h) L" for m c
    using parent L(2) [of c m] L(2) [of h m] by (auto simp: tree_insert_def Let_def)
  moreover have "fst ` set ?t = insert p (insert h (fst ` set t))" "distinct (map fst ?t)"
    using assms(1) by (simp_all add: tree_insert_def Let_def tree_holds_def)
  ultimately show ?thesis using assms(1) by (auto simp: tree_holds_def)
qed

text \<open>The weights of a table of positive stakes are positive.\<close>

lemma lmd_weights_nonneg:
  assumes "lmd_ok l"
  shows "weights_nonneg (lmd_weights l)"
proof -
  have stakes: "0 \<le> dget_or (validator_stake l) v 0" for v
    using assms by (force simp: lmd_ok_def dget_or_def split: option.splits dest: map_of_SomeD)
  have "weights_nonneg w \<Longrightarrow> weights_nonneg (weights_loop (validator_stake l) votes w)" for votes w
  proof (induction "validator_stake l" votes w rule: weights_loop.induct)
    case (2 v b slot votes w)
    have "0 \<le> dget_or w b 0 + dget_or (validator_stake l) v 0"
      using stakes [of v] weights_nonneg_get [OF 2(2), of b] by simp
    then have "weights_nonneg (dset b (dget_or w b 0 + dget_or (validator_stake l) v 0) w)"
      using 2(2) set_dset_subset [of b "dget_or w b 0 + dget_or (validator_stake l) v 0" w]
      unfolding weights_nonneg_def by fastforce
    with 2 show ?case by simp
  qed simp
  from this [of "[]"] show ?thesis by (simp add: lmd_weights_def) (simp add: weights_nonneg_def)
qed

section \<open>The interface of a fork choice\<close>

datatype engine_op = EValidator string int | EBlock pydict | EAttest string string int

text \<open>The links between the blocks of a run, from parent to child.\<close>

definition links :: "engine_op list \<Rightarrow> (string \<times> string) set" where
  "links ops = {(p, h). \<exists>b. EBlock b \<in> set ops \<and> hash_of_block b = PStr h \<and> parent_of_block b = PStr p
     \<and> number_of_block b \<noteq> None}"

definition hash_linked :: "engine_op list \<Rightarrow> bool" where
  "hash_linked ops \<longleftrightarrow> single_valued ((links ops)\<inverse>) \<and> acyclic (links ops)
     \<and> (\<forall>b. EBlock b \<in> set ops \<longrightarrow> hash_of_block b \<noteq> PStr [])"

lemma links_snoc:
  "links (ops @ [op]) =
     (case op of EBlock b \<Rightarrow>
        (case (hash_of_block b, parent_of_block b, number_of_block b) of
           (PStr h, PStr p, Some n) \<Rightarrow> insert (p, h) (links ops) | _ \<Rightarrow> links ops)
      | _ \<Rightarrow> links ops)"
  by (auto simp: links_def split: engine_op.splits pyval.splits option.splits)

lemma tree_add_block_holds:
  assumes "tree_holds L (bt_tree t)" "[] \<notin> fst ` set (bt_tree t)" "hash_of_block b \<noteq> PStr []"
    and "L' = (case (hash_of_block b, parent_of_block b, number_of_block b) of
           (PStr h, PStr p, Some n) \<Rightarrow> insert (p, h) L | _ \<Rightarrow> L)" "single_valued (L'\<inverse>)"
  shows "tree_holds L' (bt_tree (snd (tree_add_block b t))) \<and> [] \<notin> fst ` set (bt_tree (snd (tree_add_block b t)))"
proof -
  have parent: "parent_of_block b \<noteq> PStr []" by (auto simp: parent_of_block_def py_or_def)
  have keys: "[] \<notin> fst ` set (tree_insert h p n (bt_tree t))" if "h \<noteq> []" "p \<noteq> Some []" for h p n
    using that assms(2) by (cases p) (simp_all add: tree_insert_def Let_def)
  consider (root) h n where "hash_of_block b = PStr h" "parent_of_block b = PNone" "number_of_block b = Some n"
    | (child) h p n where "hash_of_block b = PStr h" "parent_of_block b = PStr p" "number_of_block b = Some n"
    | (bad) "L' = L" "snd (tree_add_block b t) = t"
    unfolding assms(4)
    by (cases "hash_of_block b"; cases "parent_of_block b"; cases "number_of_block b")
      (auto simp: tree_add_block_def raiseM_def)
  then show ?thesis
  proof cases
    case (root h n)
    then have "h \<noteq> []" using assms(3) by simp
    with root assms(1,4) tree_insert_root keys [of h None n] show ?thesis
      by (simp add: tree_add_block_def modM_def)
  next
    case (child h p n)
    then have "h \<noteq> []" "p \<noteq> []" using assms(3) parent by simp_all
    with child assms(1,4,5) tree_insert_child keys [of h "Some p" n] show ?thesis
      by (simp add: tree_add_block_def modM_def)
  qed (use assms(1,2) in simp)
qed

locale fork_choice_engine =
  fixes lmd :: "'s \<Rightarrow> lmd_table" and tree :: "'s \<Rightarrow> block_tree" and step :: "engine_op \<Rightarrow> 's \<Rightarrow> 's"
  assumes lmd_step: "lmd_ok (lmd s) \<Longrightarrow> lmd_ok (lmd (step op s))"
    and tree_step: "tree (step (EBlock b) s) = snd (tree_add_block b (tree s))"
    and tree_other: "(\<nexists>b. op = EBlock b) \<Longrightarrow> tree (step op s) = tree s"
begin

lemma run_lmd: "lmd_ok (lmd s) \<Longrightarrow> lmd_ok (lmd (fold step ops s))"
  by (induction ops arbitrary: s) (simp_all add: lmd_step)

lemma run_tree:
  assumes "bt_tree (tree s) = []" "hash_linked ops"
  shows "tree_holds (links ops) (bt_tree (tree (fold step ops s))) \<and> [] \<notin> fst ` set (bt_tree (tree (fold step ops s)))"
  using assms(2)
proof (induction ops rule: rev_induct)
  case Nil
  then show ?case by (simp add: assms(1) tree_holds_def links_def children_of_def parent_of_def)
next
  case (snoc op ops)
  have sub: "links ops \<subseteq> links (ops @ [op])" by (auto simp: links_def)
  have "single_valued ((links ops)\<inverse>)"
    using snoc.prems sub single_valued_subset [of "(links ops)\<inverse>" "(links (ops @ [op]))\<inverse>"] by (auto simp: hash_linked_def)
  then have "hash_linked ops" using snoc.prems sub acyclic_subset unfolding hash_linked_def by fastforce
  with snoc.IH have IH: "tree_holds (links ops) (bt_tree (tree (fold step ops s)))"
    "[] \<notin> fst ` set (bt_tree (tree (fold step ops s)))" by auto
  show ?case
  proof (cases "\<exists>b. op = EBlock b")
    case True
    then obtain b where op: "op = EBlock b" by blast
    have "tree_holds (links (ops @ [op])) (bt_tree (snd (tree_add_block b (tree (fold step ops s)))))
       \<and> [] \<notin> fst ` set (bt_tree (snd (tree_add_block b (tree (fold step ops s)))))"
      using IH snoc.prems by (intro tree_add_block_holds [where L = "links ops"]) (simp_all add: hash_linked_def links_snoc op)
    then show ?thesis by (simp add: op tree_step)
  next
    case False
    then have "links (ops @ [op]) = links ops" by (cases op) (auto simp: links_snoc)
    with False IH tree_other [of op] show ?thesis by simp
  qed
qed

text \<open>The head of the fork choice after any run: the loops return, and the path is the heaviest.\<close>

lemma run_head:
  assumes "bt_tree (tree s) = []" "lmd_ok (lmd s)" "hash_linked ops" "bt_tree (tree (fold step ops s)) \<noteq> []"
  defines "e \<equiv> fold step ops s"
  shows "(\<forall>n. subtree_weight (bt_tree (tree e)) (lmd_weights (lmd e)) n
            = lmd_stake_on (lmd e) (descendants (bt_tree (tree e)) n))
     \<and> (\<exists>p. heaviest_path (bt_tree (tree e)) (lmd_weights (lmd e)) p
          \<and> tree_head (lmd e) (tree e) = Some (Some (last p)))"
proof -
  have ok: "lmd_ok (lmd e)" unfolding e_def by (rule run_lmd [OF assms(2)])
  have holds: "tree_holds (links ops) (bt_tree (tree e))" "[] \<notin> fst ` set (bt_tree (tree e))"
    using run_tree [OF assms(1,3)] by (simp_all add: e_def)
  then have forest: "forest (bt_tree (tree e))" using assms(3) tree_holds_forest by (auto simp: hash_linked_def)
  have "weights_nonneg (lmd_weights (lmd e))" by (rule lmd_weights_nonneg [OF ok])
  then obtain p where "heaviest_path (bt_tree (tree e)) (lmd_weights (lmd e)) p"
      "tree_head (lmd e) (tree e) = Some (Some (last p))"
    using select_head_path [OF forest _ _ holds(2)] assms(4) by (auto simp: e_def tree_head_def)
  then show ?thesis using lmd_weights_sum [OF ok] by (auto simp: subtree_weight_def)
qed

end

section \<open>The engines\<close>

fun casper_engine_step :: "engine_op \<Rightarrow> casper_engine \<Rightarrow> casper_engine" where
  "casper_engine_step (EValidator v stake) e = snd (ce_add_validator v stake e)"
| "casper_engine_step (EBlock b) e = snd (ce_add_block b e)"
| "casper_engine_step (EAttest v h slot) e = snd (ce_on_attestation v h slot e)"

fun beacon_engine_step :: "engine_op \<Rightarrow> beacon_engine \<Rightarrow> beacon_engine" where
  "beacon_engine_step (EValidator v stake) e = snd (be_add_validator v stake e)"
| "beacon_engine_step (EBlock b) e = snd (be_add_block b e)"
| "beacon_engine_step (EAttest v h slot) e = snd (be_on_attestation v h slot e)"

fun slashing_engine_step :: "engine_op \<Rightarrow> 'w slashing_consensus \<Rightarrow> 'w slashing_consensus" where
  "slashing_engine_step (EValidator v stake) e = snd (se_add_validator v stake e)"
| "slashing_engine_step (EBlock b) e = snd (se_add_block b e)"
| "slashing_engine_step (EAttest v h slot) e = snd (se_on_attestation v h slot e)"

lemma onM_state [simp]: "snd (onM get put m e) = put (snd (m (get e))) e"
  by (simp add: onM_def split: prod.split)

interpretation casper_choice: fork_choice_engine ce_lmd ce_tree casper_engine_step
proof
  fix e op b
  show "lmd_ok (ce_lmd e) \<Longrightarrow> lmd_ok (ce_lmd (casper_engine_step op e))"
    by (cases op) (auto simp: ce_add_validator_def ce_add_block_def ce_on_attestation_def Let_def case_prod_beta
        lmd_ok_update intro: lmd_ok_add split: option.split)
  show "ce_tree (casper_engine_step (EBlock b) e) = snd (tree_add_block b (ce_tree e))"
    by (simp add: ce_add_block_def)
  show "\<nexists>b. op = EBlock b \<Longrightarrow> ce_tree (casper_engine_step op e) = ce_tree e"
    by (cases op) (auto simp: ce_add_validator_def ce_on_attestation_def Let_def case_prod_beta split: option.split)
qed

interpretation beacon_choice: fork_choice_engine be_lmd be_tree beacon_engine_step
proof
  fix e op b
  show "lmd_ok (be_lmd e) \<Longrightarrow> lmd_ok (be_lmd (beacon_engine_step op e))"
    by (cases op) (auto simp: be_add_validator_def be_add_block_def be_on_attestation_def Let_def case_prod_beta
        lmd_ok_update intro: lmd_ok_add split: option.split)
  show "be_tree (beacon_engine_step (EBlock b) e) = snd (tree_add_block b (be_tree e))"
    by (simp add: be_add_block_def)
  show "\<nexists>b. op = EBlock b \<Longrightarrow> be_tree (beacon_engine_step op e) = be_tree e"
    by (cases op) (auto simp: be_add_validator_def be_on_attestation_def Let_def case_prod_beta split: option.split)
qed

lemma se_count_vote_effect:
  "se_tree (snd (se_count_vote v h slot e)) = se_tree e"
  "lmd_ok (se_lmd e) \<Longrightarrow> lmd_ok (se_lmd (snd (se_count_vote v h slot e)))"
  by (auto simp: se_count_vote_def Let_def lmd_ok_update split: option.split)

lemma se_set_total_effect [simp]: "se_tree (se_set_total e) = se_tree e" "se_lmd (se_set_total e) = se_lmd e"
  by (simp_all add: se_set_total_def)

lemma se_attest_effect:
  "se_tree (snd (se_on_attestation v h slot e)) = se_tree e"
  "lmd_ok (se_lmd e) \<Longrightarrow> lmd_ok (se_lmd (snd (se_on_attestation v h slot e)))"
proof -
  let ?s = "snd (slashing_add_vote v slot h (se_slashing e))" let ?e = "e\<lparr>se_slashing := ?s\<rparr>"
  let ?c = "snd (se_count_vote v h slot ?e)"
  have cases: "snd (se_on_attestation v h slot e) \<in> {?e, ?c, se_set_total ?c}"
    by (auto simp: se_on_attestation_def bindM_def onM_def returnM_def modM_def split: prod.splits sum.splits)
  from cases show "se_tree (snd (se_on_attestation v h slot e)) = se_tree e"
    using se_count_vote_effect(1) [of v h slot ?e] by auto
  from cases show "lmd_ok (se_lmd (snd (se_on_attestation v h slot e)))" if "lmd_ok (se_lmd e)"
    using that se_count_vote_effect(2) [of ?e v h slot] by auto
qed

interpretation slashing_choice: fork_choice_engine se_lmd se_tree slashing_engine_step
proof
  fix e :: "'w slashing_consensus" and op b
  show "lmd_ok (se_lmd e) \<Longrightarrow> lmd_ok (se_lmd (slashing_engine_step op e))"
    by (cases op) (auto simp: se_add_validator_def se_add_block_def bindM_def onM_def modM_def
        intro: lmd_ok_add se_attest_effect(2) split: option.split prod.split sum.split)
  show "se_tree (slashing_engine_step (EBlock b) e) = snd (tree_add_block b (se_tree e))"
    by (simp add: se_add_block_def)
  show "\<nexists>b. op = EBlock b \<Longrightarrow> se_tree (slashing_engine_step op e) = se_tree e"
    by (cases op) (auto simp: se_add_validator_def bindM_def onM_def modM_def se_attest_effect(1)
        split: option.split prod.split sum.split)
qed

section \<open>Properties\<close>

definition sample_tree :: ghost_tree where
  "sample_tree = [(''g'', \<lparr>gn_parent = None, gn_children = [''a'', ''b''], gn_number = 0\<rparr>),
     (''a'', \<lparr>gn_parent = Some ''g'', gn_children = [], gn_number = 1\<rparr>),
     (''b'', \<lparr>gn_parent = Some ''g'', gn_children = [], gn_number = 1\<rparr>)]"

lemma sample_forest: "forest sample_tree"
proof -
  let ?L = "{(''g'', ''b''), (''g'', ''a'')}"
  have "tree_holds ?L (tree_insert ''b'' (Some ''g'') 1 (tree_insert ''a'' (Some ''g'') 1 (tree_insert ''g'' None 0 [])))"
    by (intro tree_insert_child tree_insert_root) (auto simp: tree_holds_def children_of_def parent_of_def single_valued_def)
  moreover have "tree_insert ''b'' (Some ''g'') 1 (tree_insert ''a'' (Some ''g'') 1 (tree_insert ''g'' None 0 [])) = sample_tree"
    by (simp add: tree_insert_def add_node_def add_child_def Let_def sample_tree_def)
  moreover have "acyclic ?L" by (simp add: acyclic_insert rtrancl_insert wf_acyclic)
  ultimately show ?thesis using tree_holds_forest by metis
qed

text \<open>On a forest the depth-first loop of the fork choice returns, and it returns the sum of the weights of the block and of all its descendants.\<close>

lemma ghost_weight_is_subtree:
  assumes "forest t"
  shows "cumulative_weight t w n = Some (\<Sum>m\<in>descendants t n. dget_or w m 0)"
  using cumulative_weight_eq [OF assms] by (simp add: subtree_weight_def)

lemma ghost_weight_is_subtree_witness: "cumulative_weight sample_tree [(''a'', 3), (''b'', 4)] ''g'' = Some 7"
proof -
  have "descendants sample_tree ''g'' = {''g'', ''a'', ''b''}"
  proof -
    have "descendants sample_tree ''a'' = {''a''}" "descendants sample_tree ''b'' = {''b''}"
      by (subst descendants_unfold, simp add: children_of_def sample_tree_def)+
    then show ?thesis by (subst descendants_unfold) (auto simp: children_of_def sample_tree_def)
  qed
  then show ?thesis
    using ghost_weight_is_subtree [OF sample_forest, of "[(''a'', 3), (''b'', 4)]" "''g''"] by (simp add: dget_or_def)
qed

text \<open>C13: The head of the fork choice. In each of the three engines, after any run of registrations, blocks and attestations whose blocks are hash linked (the parent is a function of the hash and no chain of parents is a circle), the head returned is the last block of a path that starts at the heaviest root, goes at every step to the heaviest child (then the higher number, then the smaller hash) and ends at a leaf, where a block weighs the stakes of the validators whose latest message is that block or a descendant of it.\<close>

lemma engine_head_is_lmd_ghost:
  fixes ops :: "engine_op list" and sz :: int and world :: 'w
  defines "ce \<equiv> fold casper_engine_step ops (ce_init sz)"
    and "be \<equiv> fold beacon_engine_step ops (be_init sz)"
    and "se \<equiv> fold slashing_engine_step ops (se_init sz world)"
  assumes "hash_linked ops" "bt_tree (ce_tree ce) \<noteq> []" "bt_tree (be_tree be) \<noteq> []" "bt_tree (se_tree se) \<noteq> []"
  shows "(\<exists>p. heaviest_path (bt_tree (ce_tree ce)) (lmd_weights (ce_lmd ce)) p \<and> ce_get_head ce = Some (Some (last p)))
     \<and> (\<exists>p. heaviest_path (bt_tree (be_tree be)) (lmd_weights (be_lmd be)) p \<and> be_get_head be = Some (Some (last p)))
     \<and> (\<exists>p. heaviest_path (bt_tree (se_tree se)) (lmd_weights (se_lmd se)) p \<and> se_get_head se = Some (Some (last p)))
     \<and> subtree_weight (bt_tree (ce_tree ce)) (lmd_weights (ce_lmd ce)) n
         = lmd_stake_on (ce_lmd ce) (descendants (bt_tree (ce_tree ce)) n)
     \<and> subtree_weight (bt_tree (be_tree be)) (lmd_weights (be_lmd be)) n
         = lmd_stake_on (be_lmd be) (descendants (bt_tree (be_tree be)) n)
     \<and> subtree_weight (bt_tree (se_tree se)) (lmd_weights (se_lmd se)) n
         = lmd_stake_on (se_lmd se) (descendants (bt_tree (se_tree se)) n)"
  using casper_choice.run_head [of "ce_init sz" ops] beacon_choice.run_head [of "be_init sz" ops]
    slashing_choice.run_head [of "se_init sz world" ops] assms(4-7)
  by (simp add: ce_def be_def se_def ce_get_head_def be_get_head_def se_get_head_def ce_init_def be_init_def se_init_def)

definition sample_ops :: "engine_op list" where
  "sample_ops = [EValidator ''v'' 30, EValidator ''w'' 70, EBlock [(''hash'', PStr ''g''), (''number'', PInt 0)],
     EBlock [(''hash'', PStr ''a''), (''parent_hash'', PStr ''g''), (''number'', PInt 1)], EAttest ''v'' ''a'' 1]"

lemma sample_blocks:
  "hash_of_block [(''hash'', PStr ''g''), (''number'', PInt 0)] = PStr ''g''"
  "parent_of_block [(''hash'', PStr ''g''), (''number'', PInt 0)] = PNone"
  "number_of_block [(''hash'', PStr ''g''), (''number'', PInt 0)] = Some 0"
  "hash_of_block [(''hash'', PStr ''a''), (''parent_hash'', PStr ''g''), (''number'', PInt 1)] = PStr ''a''"
  "parent_of_block [(''hash'', PStr ''a''), (''parent_hash'', PStr ''g''), (''number'', PInt 1)] = PStr ''g''"
  "number_of_block [(''hash'', PStr ''a''), (''parent_hash'', PStr ''g''), (''number'', PInt 1)] = Some 1"
  by (simp_all add: hash_of_block_def parent_of_block_def number_of_block_def py_or_def pget_def dget_or_def)

lemma sample_linked: "hash_linked sample_ops"
proof -
  have block: "EBlock b \<in> set sample_ops \<longleftrightarrow> b \<in> {[(''hash'', PStr ''g''), (''number'', PInt 0)],
      [(''hash'', PStr ''a''), (''parent_hash'', PStr ''g''), (''number'', PInt 1)]}" for b
    by (simp add: sample_ops_def)
  have links: "links sample_ops = {(''g'', ''a'')}"
    unfolding links_def block by (auto simp: sample_blocks)
  have "acyclic {(''g'', ''a'')}" by (simp add: acyclic_insert wf_acyclic)
  then show ?thesis unfolding hash_linked_def links block by (auto simp: single_valued_def sample_blocks)
qed

lemmas run_engines = sample_ops_def ce_init_def be_init_def se_init_def lmd_init_def ce_add_validator_def be_add_validator_def
  se_add_validator_def lmd_add_validator_def ce_add_block_def be_add_block_def se_add_block_def tree_add_block_def
  hash_of_block_def parent_of_block_def number_of_block_def py_or_def pget_def dget_or_def tree_insert_def add_node_def
  add_child_def modM_def onM_def bindM_def Let_def

lemma engine_head_is_lmd_ghost_witness:
  "\<exists>p. heaviest_path (bt_tree (ce_tree (fold casper_engine_step sample_ops (ce_init 3))))
         (lmd_weights (ce_lmd (fold casper_engine_step sample_ops (ce_init 3)))) p
     \<and> ce_get_head (fold casper_engine_step sample_ops (ce_init 3)) = Some (Some (last p))"
proof -
  have "bt_tree (ce_tree (fold casper_engine_step sample_ops (ce_init 3))) \<noteq> []"
    by (simp add: run_engines casper_choice.tree_other del: casper_engine_step.simps(3))
  moreover have "bt_tree (be_tree (fold beacon_engine_step sample_ops (be_init 3))) \<noteq> []"
    by (simp add: run_engines beacon_choice.tree_other del: beacon_engine_step.simps(3))
  moreover have "bt_tree (se_tree (fold slashing_engine_step sample_ops (se_init 3 ()))) \<noteq> []"
    by (simp add: run_engines slashing_choice.tree_other register_slash_validator_def se_set_total_def
        del: slashing_engine_step.simps(3))
  ultimately show ?thesis
    using engine_head_is_lmd_ghost [OF sample_linked, of 3 "()" "[]"] by blast
qed

end
