(* ===== verification/EngineNotes.thy ===== *)
theory EngineNotes
  imports EngineProps
begin

text \<open>
  What modelling the consensus engines showed: runs on which the code does not do what its documentation
  says, each computed on the definitions of \<open>Engines\<close>.
\<close>

lemmas engine_runs = run_engines ce_on_attestation_def se_on_attestation_def se_count_vote_def returnM_def raiseM_def
  lmd_update_def lmd_weights_def lmd_total_stake_def tree_block_def block_epoch_def epoch_of_def
  casper_init_def casper_set_total_def casper_add_vote_def casper_evaluate_def casper_best_def casper_justify_def
  casper_try_finalize_def beacon_init_def beacon_set_total_def beacon_add_vote_def beacon_evaluate_def
  beacon_best_def beacon_finalize_prev_def se_set_total_def register_slash_validator_def slashing_init_def
  slashing_add_vote_def record_slot_vote_def votes_of_def get_stake_def total_active_slash_stake_def

text \<open>A validator with 30 of 100 justifies an epoch alone, by sending one attestation three times.\<close>

lemma casper_counts_repeats:
  "1 \<in> cf_justified (ce_finality (fold casper_engine_step
     (sample_ops @ [EAttest ''v'' ''a'' 1, EAttest ''v'' ''a'' 1]) (ce_init 1)))"
  by (simp add: engine_runs threshold_nat)

lemma slashing_counts_repeats:
  "1 \<in> bf_justified (se_finality (fold slashing_engine_step
     (sample_ops @ [EAttest ''v'' ''a'' 1, EAttest ''v'' ''a'' 1]) (se_init 1 ())))"
  by (simp add: engine_runs threshold_nat)

text \<open>With no stake the threshold is 0: the attestation of anyone justifies.\<close>

lemma casper_no_stake:
  "0 \<in> cf_justified (ce_finality (fold casper_engine_step
     [EBlock [(''hash'', PStr ''g''), (''number'', PInt 0)], EAttest ''x'' ''g'' 0] (ce_init 1)))"
  by (simp add: engine_runs threshold_nat)

text \<open>Slashing a validator leaves its latest message in the table the fork choice weighs.\<close>

lemma slashed_message_stays:
  assumes "slashing_add_vote v slot h (se_slashing e) = (r, s)" "r \<noteq> Inr True"
  shows "se_lmd (snd (se_on_attestation v h slot e)) = se_lmd e"
  using assms by (auto simp: se_on_attestation_def bindM_def onM_def returnM_def split: sum.splits)

text \<open>
  A second block with the hash of a known one that names itself as its parent puts a circle under the
  root, and choosing the head does not return.
\<close>

definition circle_tree :: ghost_tree where
  "circle_tree = [(''g'', \<lparr>gn_parent = None, gn_children = [''h''], gn_number = 0\<rparr>),
     (''h'', \<lparr>gn_parent = Some ''g'', gn_children = [''h''], gn_number = 1\<rparr>)]"

lemma circle_loops: "cw_loop circle_tree w ((''h'', False) # st) [] = None"
proof (rule ccontr)
  let ?P = "\<lambda>t (w :: ghost_weights) s (m :: (string \<times> int) list) (y :: (string \<times> int) list).
    \<forall>st. t = circle_tree \<longrightarrow> s = (''h'', False) # st \<longrightarrow> m \<noteq> []"
  assume "cw_loop circle_tree w ((''h'', False) # st) [] \<noteq> None"
  then obtain y where y: "cw_loop circle_tree w ((''h'', False) # st) [] = Some y" by blast
  have "?P circle_tree w ((''h'', False) # st) [] y"
  proof (rule cw_loop.raw_induct [where P = ?P, OF _ y], intro allI impI notI)
    fix f t w s m y st
    assume IH: "\<And>t w s m y. f t w s m = Some y \<Longrightarrow> ?P t w s m y"
      and body: "(case s of [] \<Rightarrow> Some m
        | (node, expanded) # st \<Rightarrow>
            if expanded
            then let total = dget_or w node 0 + (\<Sum>c\<leftarrow>children_of t node. dget_or m c 0) in f t w st (dset node total m)
            else f t w (map (\<lambda>c. (c, False)) (filter (\<lambda>c. dget m c = None) (children_of t node)) @ (node, True) # st) m) = Some y"
      and "t = circle_tree" "s = (''h'', False) # st" "m = []"
    then have "f circle_tree w ((''h'', False) # (''h'', True) # st) [] = Some y"
      by (simp add: children_of_def) (simp add: circle_tree_def)
    from IH [OF this] show False by blast
  qed
  then show False by blast
qed

lemma self_parent_hangs:
  "ce_get_head (fold casper_engine_step
     [EBlock [(''hash'', PStr ''g''), (''number'', PInt 0)],
      EBlock [(''hash'', PStr ''h''), (''parent_hash'', PStr ''g''), (''number'', PInt 1)],
      EBlock [(''hash'', PStr ''h''), (''parent_hash'', PStr ''h''), (''number'', PInt 1)]] (ce_init 3)) = None"
    (is "ce_get_head ?e = None")
proof -
  have "bt_tree (ce_tree ?e) = circle_tree" by (simp add: run_engines circle_tree_def)
  moreover have "select_head circle_tree w = None" for w
  proof -
    have "pick_genesis circle_tree w = Some (Some ''g'')" by (simp add: pick_genesis_def forest_roots_def circle_tree_def)
    moreover have "cumulative_weight circle_tree w ''h'' = None" using circle_loops by (simp add: cumulative_weight_def)
    then have "ghost_walk circle_tree w ''g'' [] = None"
      by (subst ghost_walk.simps) (simp add: children_of_def, simp add: circle_tree_def)
    ultimately show ?thesis by (simp add: select_head_def) (simp add: circle_tree_def)
  qed
  ultimately show ?thesis by (simp add: ce_get_head_def tree_head_def)
qed

end
