(* ===== verification/Amount.thy ===== *)
theory Amount
  imports PyVal
begin

text \<open>
  The integer money helpers of \<open>runtime/amount.py\<close> (their Python paths) on the scalar values of \<open>PyVal\<close>,
  with the part of the decimal module they use: reading a decimal literal, the product with \<open>10^6\<close> in the
  default context of 28 digits rounding half to even, and \<open>quantize\<close> to an integer rounding down, which
  raises \<open>InvalidOperation\<close> when the result needs more than 28 digits. An amount given as a float is the
  decimal it prints as; \<open>from_satoshi_float\<close> is in \<open>FloatText\<close>, the other helpers that return floats for display are not
  modelled.
\<close>

section \<open>Decimals\<close>

text \<open>A finite decimal: sign, coefficient and exponent.\<close>

record decimal =
  dec_neg :: bool
  dec_coeff :: nat
  dec_exp :: int

definition all_digits :: "string \<Rightarrow> bool" where
  "all_digits s \<longleftrightarrow> list_all (\<lambda>c. dec_digit c \<noteq> None) s"

definition digits_nat :: "string \<Rightarrow> nat" where
  "digits_nat s = foldl (\<lambda>n c. 10 * n + (case dec_digit c of None \<Rightarrow> 0 | Some d \<Rightarrow> nat d)) 0 s"

definition take_digits :: "string \<Rightarrow> string \<times> string" where
  "take_digits s = (takeWhile (\<lambda>c. dec_digit c \<noteq> None) s, dropWhile (\<lambda>c. dec_digit c \<noteq> None) s)"

definition take_sign :: "string \<Rightarrow> bool \<times> string" where
  "take_sign s = (case s of c # cs \<Rightarrow> if c = CHR ''-'' then (True, cs) else if c = CHR ''+'' then (False, cs) else (False, s)
     | [] \<Rightarrow> (False, []))"

text \<open>\<open>Decimal(s)\<close> for a finite literal; \<open>None\<close> for the rest, infinities and NaNs included.\<close>

definition decimal_of_str :: "string \<Rightarrow> decimal option" where
  "decimal_of_str s =
     (let (neg, s1) = take_sign (filter (\<lambda>c. c \<noteq> CHR ''_'') (py_strip s));
          (whole, s2) = take_digits s1;
          (frac, s3) = (case s2 of c # cs \<Rightarrow> if c = CHR ''.'' then take_digits cs else ([], s2) | [] \<Rightarrow> ([], []))
      in if whole @ frac = [] then None
         else (case s3 of
             [] \<Rightarrow> Some \<lparr>dec_neg = neg, dec_coeff = digits_nat (whole @ frac), dec_exp = - int (length frac)\<rparr>
           | c # cs \<Rightarrow>
               (let (eneg, ds) = take_sign cs
                in if c \<in> {CHR ''e'', CHR ''E''} \<and> ds \<noteq> [] \<and> all_digits ds
                   then Some \<lparr>dec_neg = neg, dec_coeff = digits_nat (whole @ frac),
                          dec_exp = (if eneg then - int (digits_nat ds) else int (digits_nat ds)) - int (length frac)\<rparr>
                   else None)))"

definition decimal_of_int :: "int \<Rightarrow> decimal" where
  "decimal_of_int n = \<lparr>dec_neg = n < 0, dec_coeff = nat \<bar>n\<bar>, dec_exp = 0\<rparr>"

fun dec_len :: "nat \<Rightarrow> nat" where
  "dec_len n = (if n = 0 then 0 else Suc (dec_len (n div 10)))"

declare dec_len.simps [simp del]

lemma dec_len_of: "dec_len 0 = 0" "dec_len (Suc 0) = Suc 0" "dec_len (numeral k) = Suc (dec_len (numeral k div 10))"
  by (simp_all add: dec_len.simps [of 0] dec_len.simps [of "Suc 0"] dec_len.simps [of "numeral k"])

text \<open>Rounding a coefficient to 28 digits, half to even.\<close>

definition round28 :: "nat \<Rightarrow> nat" where
  "round28 n =
     (let k = dec_len n - 28; q = n div 10 ^ k; r = n mod 10 ^ k
      in if k = 0 then n
         else (if 2 * r > 10 ^ k \<or> (2 * r = 10 ^ k \<and> odd q) then q + 1 else q) * 10 ^ k)"

text \<open>\<open>int((d * 1000000).quantize(Decimal("1"), rounding=ROUND_DOWN))\<close>.\<close>

definition scale_down :: "decimal \<Rightarrow> string + int" where
  "scale_down d =
     (let c = round28 (dec_coeff d * 1000000);
          v = (if c = 0 then 0 else if dec_exp d \<ge> 0 then c * 10 ^ nat (dec_exp d) else c div 10 ^ nat (- dec_exp d))
      in if dec_len v > 28 then Inl ''InvalidOperation''
         else Inr (if dec_neg d then - int v else int v))"

section \<open>Amounts\<close>

definition to_satoshi :: "pyval \<Rightarrow> string + int" where
  "to_satoshi amount =
     (case amount of
        PBool b \<Rightarrow> Inl ''bool is not a valid amount''
      | PInt n \<Rightarrow> scale_down (decimal_of_int n)
      | PNone \<Rightarrow> Inl ''invalid amount''
      | PStr s \<Rightarrow> (case decimal_of_str s of None \<Rightarrow> Inl ''invalid amount'' | Some d \<Rightarrow> scale_down d))"

text \<open>\<open>int(v)\<close> in the same result type.\<close>

definition int_or_raise :: "pyval \<Rightarrow> string + int" where
  "int_or_raise v = (case py_int v of None \<Rightarrow> Inl ''ValueError'' | Some n \<Rightarrow> Inr n)"

definition bind_sum :: "'e + 'a \<Rightarrow> ('a \<Rightarrow> 'e + 'b) \<Rightarrow> 'e + 'b" where
  "bind_sum m f = (case m of Inl e \<Rightarrow> Inl e | Inr a \<Rightarrow> f a)"

lemma bind_sum_Inr: "bind_sum m f = Inr b \<longleftrightarrow> (\<exists>a. m = Inr a \<and> f a = Inr b)"
  by (cases m) (simp_all add: bind_sum_def)

lemma bind_sum_simps [simp]: "bind_sum (Inl e) f = Inl e" "bind_sum (Inr a) f = f a"
  by (simp_all add: bind_sum_def)

text \<open>The value is present: neither \<open>None\<close> nor the empty string.\<close>

definition given :: "pyval \<Rightarrow> bool" where
  "given v \<longleftrightarrow> v \<noteq> PNone \<and> v \<noteq> PStr []"

definition account_satoshi :: "pydict option \<Rightarrow> string + int" where
  "account_satoshi row =
     (case row of
        None \<Rightarrow> Inr 0
      | Some r \<Rightarrow>
          if r = [] then Inr 0
          else (case py_int (pget r ''balance_satoshi'') of
              Some n \<Rightarrow> Inr (max 0 n)
            | None \<Rightarrow> bind_sum (to_satoshi (py_or (dget_or r ''balance'' (PInt 0)) (PInt 0))) (\<lambda>n. Inr (max 0 n))))"

definition try_debit_satoshi :: "int \<Rightarrow> pyval \<Rightarrow> int option \<Rightarrow> string + int" where
  "try_debit_satoshi cur debit_abs debit_satoshi =
     bind_sum (case debit_satoshi of Some n \<Rightarrow> Inr n | None \<Rightarrow> to_satoshi debit_abs) (\<lambda>debit.
       if debit < 0 then Inl ''debit must be non-negative''
       else if cur < debit then Inl ''insufficient_balance''
       else Inr (cur - debit))"

definition apply_satoshi_delta :: "int \<Rightarrow> int \<Rightarrow> int" where
  "apply_satoshi_delta cur delta = max 0 (cur + delta)"

definition apply_delta_satoshi :: "int \<Rightarrow> pyval \<Rightarrow> string + int" where
  "apply_delta_satoshi cur delta_abs = bind_sum (to_satoshi delta_abs) (\<lambda>d. Inr (max 0 (cur + d)))"

definition can_afford_transfer_sat :: "int \<Rightarrow> int \<Rightarrow> bool" where
  "can_afford_transfer_sat sender total_cost \<longleftrightarrow> sender \<ge> max 0 total_cost"

definition parse_abs_int :: "pyval \<Rightarrow> bool \<Rightarrow> string + int" where
  "parse_abs_int raw allow_negative =
     bind_sum
       (case raw of
          PBool b \<Rightarrow> Inl ''must be an integer ABS amount''
        | PNone \<Rightarrow> Inr 0
        | PInt n \<Rightarrow> Inr n
        | PStr s0 \<Rightarrow>
            (let s = py_strip s0
             in if s = [] then Inr 0
                else if take 2 (py_lower s) = ''0x'' then Inl ''must be integer ABS, not hex wei''
                else (case decimal_of_str s of
                    None \<Rightarrow> Inl ''invalid''
                  | Some d \<Rightarrow>
                      (let sgn = (\<lambda>v. if dec_neg d then - int v else int v)
                       in if dec_exp d \<ge> 0 then Inr (sgn (dec_coeff d * 10 ^ nat (dec_exp d)))
                          else if dec_coeff d mod 10 ^ nat (- dec_exp d) = 0
                               then Inr (sgn (dec_coeff d div 10 ^ nat (- dec_exp d)))
                          else Inl ''must be a whole ABS amount''))))
       (\<lambda>n. if n < 0 \<and> \<not> allow_negative then Inl ''must be >= 0'' else Inr n)"

text \<open>One field of \<open>tx_money_satoshi\<close>: the first satoshi key that reads as an integer, else the first ABS key present.\<close>

fun first_int :: "pydict \<Rightarrow> string list \<Rightarrow> int option" where
  "first_int d [] = None"
| "first_int d (k # ks) = (case py_int (pget d k) of Some n \<Rightarrow> Some (max 0 n) | None \<Rightarrow> first_int d ks)"

fun first_present :: "pydict \<Rightarrow> string list \<Rightarrow> pyval" where
  "first_present d [] = PInt 0"
| "first_present d (k # ks) = (if pget d k \<noteq> PNone then pget d k else first_present d ks)"

definition money_field :: "pydict \<Rightarrow> string list \<Rightarrow> string list \<Rightarrow> string + int" where
  "money_field d sat_keys abs_keys =
     (case first_int d sat_keys of
        Some n \<Rightarrow> Inr n
      | None \<Rightarrow> bind_sum (to_satoshi (first_present d abs_keys)) (\<lambda>n. Inr (max 0 n)))"

definition tx_money_satoshi :: "pydict \<Rightarrow> string + (int \<times> int \<times> int)" where
  "tx_money_satoshi d =
     bind_sum (money_field d [''value_satoshi'', ''amount_satoshi''] [''value'', ''amount'']) (\<lambda>v.
     bind_sum (money_field d [''fee_satoshi''] [''fee'']) (\<lambda>f.
     bind_sum (money_field d [''burned_satoshi''] [''burned'']) (\<lambda>b. Inr (v, f, b))))"

section \<open>Whole amounts\<close>

lemma dec_len_le: "n < 10 ^ k \<Longrightarrow> dec_len n \<le> k"
proof (induction n arbitrary: k rule: dec_len.induct)
  case (1 n)
  show ?case
  proof (cases "n = 0")
    case False
    with 1(2) obtain k' where k: "k = Suc k'" by (cases k) auto
    then have "n div 10 < 10 ^ k'" using 1(2) by auto
    with 1(1) False k show ?thesis by (simp add: dec_len.simps [of n])
  qed (simp add: dec_len.simps)
qed

lemma round28_small: "n < 10 ^ 28 \<Longrightarrow> round28 n = n"
  using dec_len_le [of n 28] by (simp add: round28_def Let_def)

lemma scale_down_exact:
  assumes "m < 10 ^ 22"
  shows "scale_down \<lparr>dec_neg = neg, dec_coeff = m, dec_exp = 0\<rparr> = Inr ((if neg then - int m else int m) * 1000000)"
proof -
  have "m * 1000000 < 10 ^ 28" using assms by simp
  then have "round28 (m * 1000000) = m * 1000000" "\<not> 28 < dec_len (m * 1000000)"
    using round28_small dec_len_le by (simp_all add: not_less)
  moreover have "\<not> 28 < dec_len 0" by (simp add: dec_len.simps)
  ultimately show ?thesis by (simp add: scale_down_def Let_def)
qed

lemma to_satoshi_int_exact:
  assumes "\<bar>n\<bar> < 10 ^ 22"
  shows "to_satoshi (PInt n) = Inr (n * 1000000)"
proof -
  have "nat \<bar>n\<bar> < 10 ^ 22" using assms by simp
  from scale_down_exact [OF this, of "n < 0"] show ?thesis by (simp add: to_satoshi_def decimal_of_int_def)
qed

end
