(* ===== verification/StateEngine.thy ===== *)
theory StateEngine
  imports Amount
begin

text \<open>
  The deterministic state transitions of \<open>execution/state_engine.py\<close>, in its Python path. Accounts are a
  dictionary keyed by what a transaction names (a string, or \<open>None\<close> when the field is missing); balances
  and nonces are unbounded integers. The hash of an account dictionary (native code), the genesis hash and
  the clock are parameters. \<open>transition\<close> works on a deep copy which it drops when a transaction raises, so
  the transactions are functions from accounts to an error or new accounts.
\<close>

record account_state =
  acc_balance :: int
  acc_nonce :: int
  acc_code_hash :: string
  acc_storage_root :: string

type_synonym accounts = "(pyval \<times> account_state) list"

definition new_account :: "int \<Rightarrow> account_state" where
  "new_account balance = \<lparr>acc_balance = balance, acc_nonce = 0, acc_code_hash = [], acc_storage_root = []\<rparr>"

record block_state =
  bs_accounts :: accounts
  bs_number :: pyval
  bs_hash :: pyval
  bs_parent :: pyval
  bs_root :: string
  bs_timestamp :: pyval

text \<open>A block: its header fields and its transactions, each a dictionary.\<close>

record exec_block =
  eb_fields :: pydict
  eb_txs :: "pydict list"

section \<open>A transaction\<close>

text \<open>\<open>tx.get(a, tx.get(b, default))\<close>.\<close>

definition get_alt :: "pydict \<Rightarrow> string \<Rightarrow> string \<Rightarrow> pyval \<Rightarrow> pyval" where
  "get_alt d a b v = dget_or d a (dget_or d b v)"

definition tx_amount :: "pydict \<Rightarrow> string + int" where
  "tx_amount tx =
     (let raw = get_alt tx ''amount_satoshi'' ''value_satoshi'' PNone
      in if given raw then
           bind_sum (int_or_raise raw) (\<lambda>n.
             let amount = max 0 n; raw_abs = get_alt tx ''value'' ''amount'' PNone
             in if given raw_abs then
                  bind_sum (to_satoshi raw_abs) (\<lambda>m. if m \<noteq> amount then Inl ''value_satoshi_mismatch'' else Inr amount)
                else Inr amount)
         else bind_sum (to_satoshi (get_alt tx ''amount'' ''value'' (PInt 0))) (\<lambda>n. Inr (max 0 n)))"

definition tx_fee :: "pydict \<Rightarrow> string + int" where
  "tx_fee tx =
     (let raw = pget tx ''fee_satoshi''
      in if given raw then
           bind_sum (int_or_raise raw) (\<lambda>n.
             let fee = max 0 n
             in if given (pget tx ''fee'') then
                  bind_sum (to_satoshi (pget tx ''fee'')) (\<lambda>m. if m \<noteq> fee then Inl ''fee_satoshi_mismatch'' else Inr fee)
                else Inr fee)
         else bind_sum (to_satoshi (py_or (dget_or tx ''fee'' (PInt 0)) (PInt 0))) (\<lambda>n. Inr (max 0 n)))"

definition tx_from :: "pydict \<Rightarrow> pyval" where
  "tx_from tx = get_alt tx ''from'' ''from_addr'' PNone"

definition tx_to :: "pydict \<Rightarrow> pyval" where
  "tx_to tx = get_alt tx ''to'' ''to_addr'' PNone"

text \<open>\<open>a == n\<close> with an integer: booleans are integers.\<close>

definition py_eq_int :: "pyval \<Rightarrow> int \<Rightarrow> bool" where
  "py_eq_int v n = (case v of PInt i \<Rightarrow> i = n | PBool b \<Rightarrow> (if b then 1 else 0) = n | _ \<Rightarrow> False)"

definition ensure_account :: "pyval \<Rightarrow> accounts \<Rightarrow> accounts" where
  "ensure_account a accs = (if dget accs a = None then dset a (new_account 0) accs else accs)"

definition acc_of :: "accounts \<Rightarrow> pyval \<Rightarrow> account_state" where
  "acc_of accs a = dget_or accs a (new_account 0)"

definition apply_transaction :: "pydict \<Rightarrow> accounts \<Rightarrow> string + accounts" where
  "apply_transaction tx accs =
     bind_sum (tx_amount tx) (\<lambda>amount.
     bind_sum (tx_fee tx) (\<lambda>fee.
       let frm = tx_from tx; to = tx_to tx;
           accs1 = ensure_account frm accs;
           total = amount + fee; sender = acc_of accs1 frm
       in if acc_balance sender < total then Inl ''Insufficient balance''
          else if \<not> py_eq_int (dget_or tx ''nonce'' (PInt (acc_nonce sender))) (acc_nonce sender) then Inl ''Invalid nonce''
          else
            (let accs2 = dset frm (sender\<lparr>acc_balance := acc_balance sender - total, acc_nonce := acc_nonce sender + 1\<rparr>) accs1;
                 accs3 = ensure_account to accs2; dest = acc_of accs3 to
             in Inr (dset to (dest\<lparr>acc_balance := acc_balance dest + amount\<rparr>) accs3))))"

fun apply_transactions :: "pydict list \<Rightarrow> accounts \<Rightarrow> string + accounts" where
  "apply_transactions [] accs = Inr accs"
| "apply_transactions (tx # txs) accs = bind_sum (apply_transaction tx accs) (apply_transactions txs)"

section \<open>The engine\<close>

record state_env =
  se_root_of :: "accounts \<Rightarrow> string"
  se_genesis_hash :: string
  se_now :: int

record state_engine =
  st_state :: "block_state option"
  st_genesis_alloc :: "(string \<times> int) list"

definition state_engine_init :: state_engine where
  "state_engine_init = \<lparr>st_state = None, st_genesis_alloc = []\<rparr>"

fun alloc_satoshi :: "(string \<times> pyval) list \<Rightarrow> string + (string \<times> int) list" where
  "alloc_satoshi [] = Inr []"
| "alloc_satoshi ((a, v) # xs) =
     bind_sum (to_satoshi v) (\<lambda>n. bind_sum (alloc_satoshi xs) (\<lambda>ys. Inr ((a, n) # ys)))"

definition create_genesis :: "state_env \<Rightarrow> (string \<times> pyval) list \<Rightarrow> state_engine \<Rightarrow> (string + block_state) \<times> state_engine" where
  "create_genesis env alloc s =
     (let alloc1 = (if alloc = [] then [(''foundation'', PInt 1000000), (''validator'', PInt 100000)] else alloc)
      in case alloc_satoshi alloc1 of
           Inl e \<Rightarrow> (Inl e, s)
         | Inr sats \<Rightarrow>
             (let accs = map (\<lambda>(a, n). (PStr a, new_account n)) sats;
                  b = \<lparr>bs_accounts = accs, bs_number = PInt 0, bs_hash = PStr (se_genesis_hash env),
                       bs_parent = PStr (replicate 64 (CHR ''0'')), bs_root = se_root_of env accs,
                       bs_timestamp = PInt (se_now env)\<rparr>
              in (Inr b, s\<lparr>st_state := Some b, st_genesis_alloc := sats\<rparr>)))"

text \<open>\<open>block[k]\<close>.\<close>

definition field_or_raise :: "pydict \<Rightarrow> string \<Rightarrow> string + pyval" where
  "field_or_raise d k = (case dget d k of None \<Rightarrow> Inl ''KeyError'' | Some v \<Rightarrow> Inr v)"

definition next_state :: "state_env \<Rightarrow> exec_block \<Rightarrow> block_state \<Rightarrow> string + block_state" where
  "next_state env b st =
     bind_sum (apply_transactions (eb_txs b) (bs_accounts st)) (\<lambda>accs.
     bind_sum (field_or_raise (eb_fields b) ''number'') (\<lambda>n.
     bind_sum (field_or_raise (eb_fields b) ''hash'') (\<lambda>h.
     bind_sum (field_or_raise (eb_fields b) ''parent_hash'') (\<lambda>p.
     bind_sum (field_or_raise (eb_fields b) ''timestamp'') (\<lambda>t.
       Inr \<lparr>bs_accounts = accs, bs_number = n, bs_hash = h, bs_parent = p, bs_root = se_root_of env accs,
            bs_timestamp = t\<rparr>)))))"

definition transition :: "state_env \<Rightarrow> exec_block \<Rightarrow> state_engine \<Rightarrow> (string + block_state) \<times> state_engine" where
  "transition env b s =
     (case st_state s of
        None \<Rightarrow> (Inl ''No state initialized'', s)
      | Some st \<Rightarrow>
          (case next_state env b st of Inl e \<Rightarrow> (Inl e, s) | Inr st' \<Rightarrow> (Inr st', s\<lparr>st_state := Some st'\<rparr>)))"

definition commit_block :: "state_env \<Rightarrow> exec_block \<Rightarrow> state_engine \<Rightarrow> (string + block_state) \<times> state_engine" where
  "commit_block env b s = transition env b s"

definition balance_satoshi_of :: "state_engine \<Rightarrow> string \<Rightarrow> int" where
  "balance_satoshi_of s a =
     (case st_state s of None \<Rightarrow> 0
      | Some st \<Rightarrow> (case dget (bs_accounts st) (PStr a) of None \<Rightarrow> 0 | Some acc \<Rightarrow> acc_balance acc))"

definition nonce_of :: "state_engine \<Rightarrow> string \<Rightarrow> int" where
  "nonce_of s a =
     (case st_state s of None \<Rightarrow> 0
      | Some st \<Rightarrow> (case dget (bs_accounts st) (PStr a) of None \<Rightarrow> 0 | Some acc \<Rightarrow> acc_nonce acc))"

definition state_root_of :: "state_engine \<Rightarrow> string" where
  "state_root_of s = (case st_state s of None \<Rightarrow> [] | Some st \<Rightarrow> bs_root st)"

definition copy_engine :: "state_engine \<Rightarrow> state_engine" where
  "copy_engine s = \<lparr>st_state = st_state s, st_genesis_alloc = []\<rparr>"

section \<open>One transaction\<close>

definition total_supply :: "accounts \<Rightarrow> int" where
  "total_supply accs = sum_list (map (\<lambda>(a, acc). acc_balance acc) accs)"

definition accounts_ok :: "accounts \<Rightarrow> bool" where
  "accounts_ok accs \<longleftrightarrow> distinct (map fst accs) \<and> (\<forall>(a, acc)\<in>set accs. 0 \<le> acc_balance acc \<and> 0 \<le> acc_nonce acc)"

lemma supply_dset:
  "distinct (map fst accs) \<Longrightarrow> total_supply (dset a acc accs) = total_supply accs + acc_balance acc - acc_balance (acc_of accs a)"
  by (induction accs) (auto simp: total_supply_def acc_of_def dget_or_def new_account_def map_of_eq_None_iff
      split: option.split)

lemma acc_of_dset [simp]: "acc_of (dset a acc accs) b = (if a = b then acc else acc_of accs b)"
  by (simp add: acc_of_def dget_or_def)

lemma acc_of_ensure [simp]: "acc_of (ensure_account a accs) b = acc_of accs b"
  by (auto simp: ensure_account_def acc_of_def dget_or_def)

lemma distinct_ensure [simp]: "distinct (map fst accs) \<Longrightarrow> distinct (map fst (ensure_account a accs))"
  by (simp add: ensure_account_def)

lemma supply_ensure [simp]: "distinct (map fst accs) \<Longrightarrow> total_supply (ensure_account a accs) = total_supply accs"
  by (auto simp: ensure_account_def supply_dset) (simp add: acc_of_def dget_or_def new_account_def)

lemma accounts_ok_dset:
  "accounts_ok accs \<Longrightarrow> 0 \<le> acc_balance acc \<Longrightarrow> 0 \<le> acc_nonce acc \<Longrightarrow> accounts_ok (dset a acc accs)"
  using set_dset_subset [of a acc accs] by (auto simp: accounts_ok_def)

lemma accounts_ok_get: "accounts_ok accs \<Longrightarrow> 0 \<le> acc_balance (acc_of accs a) \<and> 0 \<le> acc_nonce (acc_of accs a)"
  by (force simp: accounts_ok_def acc_of_def dget_or_def new_account_def split: option.splits dest: map_of_SomeD)

lemma accounts_ok_ensure [simp]: "accounts_ok accs \<Longrightarrow> accounts_ok (ensure_account a accs)"
  by (simp add: ensure_account_def accounts_ok_dset new_account_def)

lemma max_bind: "bind_sum m (\<lambda>n. Inr (max 0 n)) = Inr r \<Longrightarrow> 0 \<le> (r :: int)"
  by (auto simp: bind_sum_Inr)

lemma tx_amount_nonneg: "tx_amount tx = Inr n \<Longrightarrow> 0 \<le> n"
  by (auto simp: tx_amount_def Let_def bind_sum_Inr split: if_splits)

lemma tx_fee_nonneg: "tx_fee tx = Inr n \<Longrightarrow> 0 \<le> n"
  by (auto simp: tx_fee_def Let_def bind_sum_Inr split: if_splits)

text \<open>The fee a transaction pays, and the effect of a transaction that is accepted.\<close>

definition fee_of :: "pydict \<Rightarrow> int" where
  "fee_of tx = (case tx_fee tx of Inl _ \<Rightarrow> 0 | Inr n \<Rightarrow> n)"

lemma fee_of_nonneg [simp]: "0 \<le> fee_of tx"
  using tx_fee_nonneg by (auto simp: fee_of_def split: sum.split)

lemma apply_transaction_ok:
  assumes "apply_transaction tx accs = Inr accs'" "accounts_ok accs"
  shows "accounts_ok accs'" "total_supply accs' = total_supply accs - fee_of tx"
    "acc_nonce (acc_of accs' a) = acc_nonce (acc_of accs a) + (if a = tx_from tx then 1 else 0)"
    "py_eq_int (dget_or tx ''nonce'' (PInt (acc_nonce (acc_of accs (tx_from tx))))) (acc_nonce (acc_of accs (tx_from tx)))"
proof -
  obtain amount fee where amt: "tx_amount tx = Inr amount" "tx_fee tx = Inr fee"
    using assms(1) by (auto simp: apply_transaction_def bind_sum_Inr)
  define frm where "frm = tx_from tx"
  define to where "to = tx_to tx"
  define sender where "sender = acc_of accs frm"
  define accs2 where "accs2 = dset frm (sender\<lparr>acc_balance := acc_balance sender - (amount + fee),
     acc_nonce := acc_nonce sender + 1\<rparr>) (ensure_account frm accs)"
  define dest where "dest = acc_of accs2 to"
  have guards: "amount + fee \<le> acc_balance sender" "py_eq_int (dget_or tx ''nonce'' (PInt (acc_nonce sender))) (acc_nonce sender)"
    and accs': "accs' = dset to (dest\<lparr>acc_balance := acc_balance dest + amount\<rparr>) (ensure_account to accs2)"
    using assms(1) amt by (simp_all add: apply_transaction_def Let_def frm_def to_def sender_def accs2_def dest_def not_less
        split: if_splits)
  have nonneg: "0 \<le> amount" "0 \<le> fee" using amt tx_amount_nonneg tx_fee_nonneg by auto
  have s: "0 \<le> acc_balance sender" "0 \<le> acc_nonce sender" using accounts_ok_get [OF assms(2)] by (simp_all add: sender_def)
  have ok2: "accounts_ok accs2"
    unfolding accs2_def using assms(2) guards(1) s by (intro accounts_ok_dset) simp_all
  have d: "0 \<le> acc_balance dest" "0 \<le> acc_nonce dest" using accounts_ok_get [OF ok2] by (simp_all add: dest_def)
  show "accounts_ok accs'" unfolding accs' using ok2 d nonneg by (intro accounts_ok_dset) simp_all
  have dist: "distinct (map fst accs)" "distinct (map fst accs2)" using assms(2) ok2 by (simp_all add: accounts_ok_def)
  have "total_supply accs2 = total_supply accs - (amount + fee)"
    unfolding accs2_def using dist(1) by (simp add: supply_dset sender_def)
  moreover have "total_supply accs' = total_supply accs2 + amount"
    unfolding accs' using dist(2) by (simp add: supply_dset dest_def)
  ultimately show "total_supply accs' = total_supply accs - fee_of tx" by (simp add: fee_of_def amt(2))
  show "acc_nonce (acc_of accs' a) = acc_nonce (acc_of accs a) + (if a = tx_from tx then 1 else 0)"
    by (auto simp: accs' dest_def accs2_def sender_def frm_def)
  show "py_eq_int (dget_or tx ''nonce'' (PInt (acc_nonce (acc_of accs (tx_from tx))))) (acc_nonce (acc_of accs (tx_from tx)))"
    using guards(2) by (simp add: sender_def frm_def)
qed

end
