(* ===== verification/StateProps.thy ===== *)
theory StateProps
  imports StateEngine
begin

text \<open>
  The supply, the balances and the nonces over any run of the state engine, and why a block that was
  accepted is refused the second time.
\<close>

section \<open>A block\<close>

definition sent_by :: "pyval \<Rightarrow> pydict list \<Rightarrow> int" where
  "sent_by a txs = int (length (filter (\<lambda>tx. tx_from tx = a) txs))"

definition fees_of :: "pydict list \<Rightarrow> int" where
  "fees_of txs = sum_list (map fee_of txs)"

lemma sent_by_simps [simp]:
  "sent_by a [] = 0" "sent_by a (tx # txs) = (if tx_from tx = a then 1 else 0) + sent_by a txs"
  "sent_by a (xs @ ys) = sent_by a xs + sent_by a ys" "0 \<le> sent_by a txs"
  by (simp_all add: sent_by_def)

lemma apply_transactions_ok:
  assumes "apply_transactions txs accs = Inr accs'" "accounts_ok accs"
  shows "accounts_ok accs' \<and> total_supply accs' = total_supply accs - fees_of txs
     \<and> (\<forall>a. acc_nonce (acc_of accs' a) = acc_nonce (acc_of accs a) + sent_by a txs)"
  using assms
proof (induction txs accs rule: apply_transactions.induct)
  case (2 tx txs accs)
  then obtain accs1 where 1: "apply_transaction tx accs = Inr accs1" "apply_transactions txs accs1 = Inr accs'"
    by (auto simp: bind_sum_Inr)
  note step = apply_transaction_ok [OF 1(1) 2(3)]
  from "2.IH" [OF 1(2) step(1)] step(2,3) show ?case by (auto simp: fees_of_def)
qed (simp add: fees_of_def)

lemma apply_transactions_split:
  "apply_transactions (xs @ ys) accs = bind_sum (apply_transactions xs accs) (apply_transactions ys)"
  by (induction xs accs rule: apply_transactions.induct)
    (auto simp: bind_sum_def split: sum.split)

text \<open>The nonce of each transaction, where it names one.\<close>

lemma apply_transactions_nonce:
  assumes "apply_transactions (xs @ tx # ys) accs = Inr accs'" "accounts_ok accs" "dget tx ''nonce'' = Some v"
  shows "py_eq_int v (acc_nonce (acc_of accs (tx_from tx)) + sent_by (tx_from tx) xs)"
proof -
  obtain accs1 where 1: "apply_transactions xs accs = Inr accs1" "apply_transactions (tx # ys) accs1 = Inr accs'"
    using assms(1) by (auto simp: apply_transactions_split bind_sum_Inr)
  then obtain accs2 where 2: "apply_transaction tx accs1 = Inr accs2" by (auto simp: bind_sum_Inr)
  note mid = apply_transactions_ok [OF 1(1) assms(2)]
  have "py_eq_int v (acc_nonce (acc_of accs1 (tx_from tx)))"
    using apply_transaction_ok(4) [OF 2] mid assms(3) by (simp add: dget_or_def)
  with mid show ?thesis by simp
qed

lemma py_eq_int_unique: "py_eq_int v m \<Longrightarrow> py_eq_int v n \<Longrightarrow> m = n"
  by (auto simp: py_eq_int_def split: pyval.splits)

section \<open>Runs\<close>

fun run_blocks :: "state_env \<Rightarrow> exec_block list \<Rightarrow> state_engine \<Rightarrow> exec_block list \<times> state_engine" where
  "run_blocks env [] s = ([], s)"
| "run_blocks env (b # bs) s =
     (case transition env b s of
        (Inl _, s') \<Rightarrow> run_blocks env bs s'
      | (Inr _, s') \<Rightarrow> (let (acc, s2) = run_blocks env bs s' in (b # acc, s2)))"

definition accounts_in :: "state_engine \<Rightarrow> accounts" where
  "accounts_in s = (case st_state s of None \<Rightarrow> [] | Some st \<Rightarrow> bs_accounts st)"

lemma transition_cases:
  obtains (refused) e where "transition env b s = (Inl e, s)"
  | (taken) st st' where "st_state s = Some st" "transition env b s = (Inr st', s\<lparr>st_state := Some st'\<rparr>)"
      "apply_transactions (eb_txs b) (bs_accounts st) = Inr (bs_accounts st')"
proof (cases "st_state s")
  case None
  then show ?thesis by (intro refused) (simp add: transition_def)
next
  case (Some st)
  show ?thesis
  proof (cases "next_state env b st")
    case (Inl e)
    then show ?thesis by (intro refused) (simp add: transition_def Some)
  next
    case (Inr st')
    then have "apply_transactions (eb_txs b) (bs_accounts st) = Inr (bs_accounts st')"
      by (auto simp: next_state_def bind_sum_Inr)
    with Inr show ?thesis by (intro taken) (simp_all add: transition_def Some)
  qed
qed

lemma run_blocks_ok:
  assumes "accounts_ok (accounts_in s)"
  shows "let (accepted, s') = run_blocks env bs s; txs = concat (map eb_txs accepted)
     in accounts_ok (accounts_in s') \<and> total_supply (accounts_in s') = total_supply (accounts_in s) - fees_of txs
       \<and> (\<forall>a. acc_nonce (acc_of (accounts_in s') a) = acc_nonce (acc_of (accounts_in s) a) + sent_by a txs)"
  using assms
proof (induction env bs s rule: run_blocks.induct)
  case (2 env b bs s)
  show ?case
  proof (cases rule: transition_cases [of env b s])
    case (refused e)
    with 2 show ?thesis by simp
  next
    case (taken st st')
    let ?s = "s\<lparr>st_state := Some st'\<rparr>"
    have acc: "accounts_in s = bs_accounts st" "accounts_in ?s = bs_accounts st'" using taken(1) by (simp_all add: accounts_in_def)
    note step = apply_transactions_ok [OF taken(3)]
    from "2.prems" step acc have "accounts_ok (accounts_in ?s)" by simp
    with "2.IH"(2) [OF taken(2) [symmetric]] have "let (accepted, s') = run_blocks env bs ?s; txs = concat (map eb_txs accepted)
      in accounts_ok (accounts_in s') \<and> total_supply (accounts_in s') = total_supply (accounts_in ?s) - fees_of txs
       \<and> (\<forall>a. acc_nonce (acc_of (accounts_in s') a) = acc_nonce (acc_of (accounts_in ?s) a) + sent_by a txs)" by simp
    with step acc "2.prems" taken(2) show ?thesis
      by (auto simp: Let_def case_prod_beta fees_of_def)
  qed
qed (simp add: fees_of_def)

section \<open>Properties\<close>

lemma genesis_ok:
  assumes "create_genesis env alloc s = (Inr b, s0)" "distinct (map fst alloc)" "\<forall>n\<in>snd ` set (st_genesis_alloc s0). 0 \<le> n"
  shows "accounts_ok (accounts_in s0)" "total_supply (accounts_in s0) = sum_list (map snd (st_genesis_alloc s0))"
    "acc_nonce (acc_of (accounts_in s0) a) = 0"
proof -
  let ?alloc = "if alloc = [] then [(''foundation'', PInt 1000000), (''validator'', PInt 100000)] else alloc"
  obtain sats where sats: "alloc_satoshi ?alloc = Inr sats" "st_genesis_alloc s0 = sats"
      "accounts_in s0 = map (\<lambda>(a, n). (PStr a, new_account n)) sats"
    using assms(1) by (auto simp: create_genesis_def Let_def accounts_in_def split: sum.splits)
  have keys: "alloc_satoshi xs = Inr ys \<Longrightarrow> map fst ys = map fst xs" for xs ys
    by (induction xs arbitrary: ys rule: alloc_satoshi.induct) (auto simp: bind_sum_Inr)
  have "distinct (map fst sats)" using keys [OF sats(1)] assms(2) by auto
  then have "distinct (map fst (accounts_in s0))"
    by (auto simp: sats(3) distinct_map inj_on_def o_def case_prod_beta)
  then show "accounts_ok (accounts_in s0)" using assms(3) by (auto simp: accounts_ok_def sats new_account_def)
  show "total_supply (accounts_in s0) = sum_list (map snd (st_genesis_alloc s0))"
    by (simp add: sats total_supply_def new_account_def o_def case_prod_beta)
  have "acc_nonce acc = 0" if "dget (accounts_in s0) a = Some acc" for acc
    using map_of_SomeD [OF that] by (auto simp: sats new_account_def)
  then show "acc_nonce (acc_of (accounts_in s0) a) = 0"
    by (auto simp: acc_of_def dget_or_def new_account_def split: option.split)
qed

text \<open>C17: The state stays well formed and money is conserved. After a genesis with no negative balance and any sequence of blocks, refused ones included, no balance and no nonce is negative, the total supply is the genesis allocation less the fees of the transactions of the accepted blocks, and the nonce of an account is the number of transactions it sent in them.\<close>

lemma state_run_well_formed:
  assumes "create_genesis env alloc s = (Inr b, s0)" "distinct (map fst alloc)" "\<forall>n\<in>snd ` set (st_genesis_alloc s0). 0 \<le> n"
    "run_blocks env bs s0 = (accepted, s1)"
  shows "accounts_ok (accounts_in s1)
     \<and> total_supply (accounts_in s1) = sum_list (map snd (st_genesis_alloc s0)) - fees_of (concat (map eb_txs accepted))
     \<and> acc_nonce (acc_of (accounts_in s1) a) = sent_by a (concat (map eb_txs accepted))"
  using run_blocks_ok [OF genesis_ok(1) [OF assms(1-3)], of env bs] genesis_ok [OF assms(1-3)] assms(4)
  by (simp add: Let_def)

definition demo_env :: state_env where
  "demo_env = \<lparr>se_root_of = (\<lambda>_. ''r''), se_genesis_hash = ''g'', se_now = 0\<rparr>"

definition demo_block :: exec_block where
  "demo_block = \<lparr>eb_fields = [(''number'', PInt 1), (''hash'', PStr ''h''), (''parent_hash'', PStr ''g''), (''timestamp'', PInt 1)],
     eb_txs = [[(''from'', PStr ''a''), (''to'', PStr ''b''), (''amount_satoshi'', PInt 5), (''fee_satoshi'', PInt 1), (''nonce'', PInt 0)]]\<rparr>"

definition demo_start :: state_engine where
  "demo_start = snd (create_genesis demo_env [(''a'', PInt 1)] state_engine_init)"

lemma demo_genesis:
  "\<exists>b. create_genesis demo_env [(''a'', PInt 1)] state_engine_init = (Inr b, demo_start)"
  "st_genesis_alloc demo_start = [(''a'', 1000000)]"
  "st_state demo_start \<noteq> None" "accounts_in demo_start = [(PStr ''a'', new_account 1000000)]"
  by (simp_all add: demo_start_def create_genesis_def to_satoshi_int_exact Let_def accounts_in_def)

lemma demo_runs: "\<exists>s1. run_blocks demo_env [demo_block] demo_start = ([demo_block], s1)"
proof -
  obtain st where st: "st_state demo_start = Some st" "bs_accounts st = [(PStr ''a'', new_account 1000000)]"
    using demo_genesis(3,4) by (auto simp: accounts_in_def)
  have "tx_amount (hd (eb_txs demo_block)) = Inr 5" "tx_fee (hd (eb_txs demo_block)) = Inr 1"
    by (simp_all add: demo_block_def tx_amount_def tx_fee_def get_alt_def pget_def dget_or_def given_def int_or_raise_def Let_def)
  then show ?thesis
    by (simp add: transition_def st next_state_def demo_block_def apply_transaction_def tx_from_def tx_to_def get_alt_def
        dget_or_def field_or_raise_def acc_of_def ensure_account_def new_account_def py_eq_int_def Let_def)
qed

lemma state_run_well_formed_witness:
  "\<exists>s1. run_blocks demo_env [demo_block] demo_start = ([demo_block], s1)
     \<and> total_supply (accounts_in s1) = 999999 \<and> acc_nonce (acc_of (accounts_in s1) (PStr ''a'')) = 1"
proof -
  obtain b s1 where 1: "create_genesis demo_env [(''a'', PInt 1)] state_engine_init = (Inr b, demo_start)"
      "run_blocks demo_env [demo_block] demo_start = ([demo_block], s1)"
    using demo_genesis(1) demo_runs by blast
  have "fees_of (eb_txs demo_block) = 1" "sent_by (PStr ''a'') (eb_txs demo_block) = 1"
    by (simp_all add: demo_block_def fees_of_def fee_of_def tx_fee_def get_alt_def pget_def dget_or_def given_def
        int_or_raise_def Let_def tx_from_def)
  then show ?thesis
    using state_run_well_formed [OF 1(1) _ _ 1(2), of "PStr ''a''"] 1(2) by (simp add: demo_genesis(2))
qed

text \<open>C18: No replay. A block that was accepted and holds a transaction naming its nonce is refused, and changes nothing, whenever it is offered again, whatever blocks came in between.\<close>

lemma accepted_block_not_replayed:
  assumes "accounts_ok (accounts_in s)" "transition env b s = (Inr st1, s1)" "run_blocks env bs s1 = (accepted, s2)"
    and "tx \<in> set (eb_txs b)" "dget tx ''nonce'' = Some v"
  shows "\<exists>e. transition env' b s2 = (Inl e, s2)"
proof -
  obtain st where st: "st_state s = Some st" "s1 = s\<lparr>st_state := Some st1\<rparr>"
      "apply_transactions (eb_txs b) (bs_accounts st) = Inr (bs_accounts st1)"
    using assms(2) by (cases rule: transition_cases [of env b s]) auto
  have acc: "accounts_in s = bs_accounts st" "accounts_in s1 = bs_accounts st1" using st by (simp_all add: accounts_in_def)
  obtain xs ys where tx: "eb_txs b = xs @ tx # ys" using assms(4) split_list by metis
  let ?a = "tx_from tx"
  note first = apply_transactions_ok [OF st(3)]
  have ok1: "accounts_ok (accounts_in s1)" using first assms(1) acc by simp
  note later = run_blocks_ok [OF ok1, of env bs]
  show ?thesis
  proof (cases rule: transition_cases [of env' b s2])
    case (taken st2 st3)
    have acc2: "accounts_in s2 = bs_accounts st2" using taken(1) by (simp add: accounts_in_def)
    have "py_eq_int v (acc_nonce (acc_of (accounts_in s) ?a) + sent_by ?a xs)"
      using apply_transactions_nonce [of xs tx ys] st(3) assms(1,5) acc by (simp add: tx)
    moreover have "py_eq_int v (acc_nonce (acc_of (accounts_in s2) ?a) + sent_by ?a xs)"
      using apply_transactions_nonce [OF taken(3) [unfolded tx] _ assms(5)] later assms(3) by (simp add: acc2 Let_def)
    ultimately have same: "acc_nonce (acc_of (accounts_in s) ?a) = acc_nonce (acc_of (accounts_in s2) ?a)"
      using py_eq_int_unique by fastforce
    have "acc_nonce (acc_of (accounts_in s2) ?a) \<ge> acc_nonce (acc_of (accounts_in s1) ?a)"
      using later assms(3) by (simp add: Let_def)
    moreover have "acc_nonce (acc_of (accounts_in s1) ?a) = acc_nonce (acc_of (accounts_in s) ?a) + sent_by ?a (eb_txs b)"
      using first assms(1) acc by simp
    moreover have "0 < sent_by ?a (eb_txs b)" by (simp add: tx add_nonneg_pos add_pos_nonneg)
    ultimately show ?thesis using same by linarith
  qed blast
qed

lemma accepted_block_not_replayed_witness:
  "\<exists>e s1. run_blocks demo_env [demo_block] demo_start = ([demo_block], s1) \<and> transition demo_env demo_block s1 = (Inl e, s1)"
proof -
  obtain st1 s1 where 1: "transition demo_env demo_block demo_start = (Inr st1, s1)"
    using demo_runs by (auto split: sum.splits prod.splits)
  have "accounts_ok (accounts_in demo_start)" by (simp add: demo_genesis(4) accounts_ok_def new_account_def)
  moreover have "hd (eb_txs demo_block) \<in> set (eb_txs demo_block)" "dget (hd (eb_txs demo_block)) ''nonce'' = Some (PInt 0)"
    by (simp_all add: demo_block_def)
  moreover have "run_blocks demo_env [] s1 = ([], s1)" by simp
  ultimately obtain e where "transition demo_env demo_block s1 = (Inl e, s1)"
    using accepted_block_not_replayed [OF _ 1] by blast
  with 1 show ?thesis by auto
qed

section \<open>An observation\<close>

text \<open>A transaction without a nonce is given the expected one, so a block of such transactions is accepted again.\<close>

lemma nonce_defaults:
  "dget tx ''nonce'' = None \<Longrightarrow> py_eq_int (dget_or tx ''nonce'' (PInt n)) n"
  by (simp add: dget_or_def py_eq_int_def)

end
