(* ===== verification/CrossShard.thy ===== *)
theory CrossShard
  imports Amount Floats
begin

text \<open>
  The cross-shard coordinator of \<open>consensus/cross_shard_coordinator.py\<close>: acknowledgements of the two-phase
  commit and their quorums, the resharding plan, and the migration of balances between shards. The quorum
  ratio is a float between 1/2 and 1, kept as its product with \<open>2^53\<close>; sets of shard numbers and of
  validator names are sets. The hash that assigns an address to a shard is native code and a parameter;
  the store that holds the balances is a parameter too, over a world. Time stamps, the lock, the float
  balances for display and the status views are left out, and so is \<open>discover_migrations\<close>, which reads
  balances through floats.
\<close>

record reshard_plan =
  rp_from :: int
  rp_to :: int
  rp_epoch :: int
  rp_status :: string

record mig_row =
  mr_address :: string
  mr_from :: int
  mr_to :: int
  mr_status :: string

record cross_shard =
  cx_num_shards :: int
  cx_quorum :: nat
  cx_acks :: "(string \<times> int set) list"
  cx_required :: "(string \<times> int set) list"
  cx_vacks :: "(string \<times> (int \<times> string set) list) list"
  cx_validators :: "(int \<times> string set) list"
  cx_plan :: "reshard_plan option"
  cx_queue :: "mig_row list"
  cx_overrides :: "(string \<times> int) list"

text \<open>\<open>max(0.5, min(1.0, q))\<close> on the scaled float.\<close>

definition cx_init :: "int \<Rightarrow> nat \<Rightarrow> cross_shard" where
  "cx_init n q = \<lparr>cx_num_shards = max 1 n, cx_quorum = max (2 ^ 52) (min (2 ^ 53) q), cx_acks = [], cx_required = [],
     cx_vacks = [], cx_validators = [], cx_plan = None, cx_queue = [], cx_overrides = []\<rparr>"

section \<open>Committees and quorums\<close>

text \<open>\<open>max(1, math.ceil(n * validator_quorum))\<close>.\<close>

definition cx_quorum_size :: "cross_shard \<Rightarrow> int \<Rightarrow> int" where
  "cx_quorum_size c members =
     (let n = max 0 members
      in if n \<le> 0 then 0
         else max 1 (int ((double_product (nat n) (cx_quorum c) + (2 ^ 53 - 1)) div 2 ^ 53)))"

definition cx_committee :: "cross_shard \<Rightarrow> int \<Rightarrow> string set" where
  "cx_committee c sid = dget_or (cx_validators c) sid {}"

definition register_shard_validator :: "int \<Rightarrow> string \<Rightarrow> cross_shard \<Rightarrow> cross_shard" where
  "register_shard_validator sid v c =
     (let vid = py_strip v
      in if vid = [] then c
         else c\<lparr>cx_validators := dset sid (insert vid (cx_committee c sid)) (cx_validators c)\<rparr>)"

text \<open>One shard of \<open>load_shard_committees\<close>, then all of them; both count the validators added.\<close>

fun load_members :: "int \<Rightarrow> string list \<Rightarrow> cross_shard \<Rightarrow> int \<times> cross_shard" where
  "load_members sid [] c = (0, c)"
| "load_members sid (m # ms) c =
     (let vid = py_strip m
      in if vid \<noteq> [] \<and> vid \<notin> cx_committee c sid
         then (let (n, c') = load_members sid ms
                   (c\<lparr>cx_validators := dset sid (insert vid (cx_committee c sid)) (cx_validators c)\<rparr>)
               in (n + 1, c'))
         else load_members sid ms c)"

fun load_shard_committees :: "(int \<times> string list) list \<Rightarrow> cross_shard \<Rightarrow> int \<times> cross_shard" where
  "load_shard_committees [] c = (0, c)"
| "load_shard_committees ((sid, ms) # cs) c =
     (let c0 = c\<lparr>cx_validators := dset sid (cx_committee c sid) (cx_validators c)\<rparr>;
          (n, c1) = load_members sid ms c0; (k, c2) = load_shard_committees cs c1
      in (n + k, c2))"

definition shard_for_address :: "(string \<Rightarrow> nat) \<Rightarrow> cross_shard \<Rightarrow> string \<Rightarrow> int \<Rightarrow> int" where
  "shard_for_address hash c a n = int (hash a) mod max 1 (if n = 0 then cx_num_shards c else n)"

text \<open>The committees of a manifest: an explicit shard, or the hash of the validator's name.\<close>

fun manifest_committees ::
  "(string \<Rightarrow> nat) \<Rightarrow> int \<Rightarrow> pydict list \<Rightarrow> (int \<times> string list) list \<Rightarrow> string + (int \<times> string list) list"
where
  "manifest_committees hash n [] cs = Inr cs"
| "manifest_committees hash n (row # rows) cs =
     (let vid = py_strip (py_str (py_or (py_or (pget row ''node_id'') (pget row ''address'')) (PStr [])))
      in if vid = [] then manifest_committees hash n rows cs
         else bind_sum (if pget row ''shard_id'' \<noteq> PNone
                        then bind_sum (int_or_raise (pget row ''shard_id'')) (\<lambda>i. Inr (i mod n))
                        else Inr (int (hash vid) mod n))
           (\<lambda>sid. manifest_committees hash n rows (dset sid (dget_or cs sid [] @ [vid]) cs)))"

definition load_validators_from_manifest ::
  "(string \<Rightarrow> nat) \<Rightarrow> pydict list \<Rightarrow> int option \<Rightarrow> cross_shard \<Rightarrow> string + (int \<times> cross_shard)" where
  "load_validators_from_manifest hash rows num c =
     (let n = max 1 (case num of Some k \<Rightarrow> if k = 0 then cx_num_shards c else k | None \<Rightarrow> cx_num_shards c)
      in bind_sum (manifest_committees hash n rows []) (\<lambda>cs. Inr (load_shard_committees cs c)))"

section \<open>Two-phase commit\<close>

definition required_shards :: "int \<Rightarrow> int \<Rightarrow> int set" where
  "required_shards from to = {from, to}"

definition cx_begin :: "string \<Rightarrow> int \<Rightarrow> int \<Rightarrow> cross_shard \<Rightarrow> cross_shard" where
  "cx_begin tx from to c =
     c\<lparr>cx_required := dset tx (required_shards from to) (cx_required c),
       cx_acks := (if dget (cx_acks c) tx = None then dset tx {} (cx_acks c) else cx_acks c),
       cx_vacks := filter (\<lambda>(k, _). k \<noteq> tx) (cx_vacks c)\<rparr>"

definition acks_of :: "cross_shard \<Rightarrow> string \<Rightarrow> int set" where
  "acks_of c tx = dget_or (cx_acks c) tx {}"

definition vacks_of :: "cross_shard \<Rightarrow> string \<Rightarrow> int \<Rightarrow> string set" where
  "vacks_of c tx sid = dget_or (dget_or (cx_vacks c) tx []) sid {}"

definition shard_quorum_met :: "cross_shard \<Rightarrow> string \<Rightarrow> int \<Rightarrow> bool" where
  "shard_quorum_met c tx sid =
     (if cx_committee c sid = {} then sid \<in> acks_of c tx
      else int (card (vacks_of c tx sid)) \<ge> cx_quorum_size c (int (card (cx_committee c sid))))"

definition cx_quorum_reached :: "cross_shard \<Rightarrow> string \<Rightarrow> bool" where
  "cx_quorum_reached c tx =
     (let req = dget_or (cx_required c) tx {} in req \<noteq> {} \<and> (\<forall>sid\<in>req. shard_quorum_met c tx sid))"

definition record_validator_ack :: "string \<Rightarrow> int \<Rightarrow> string \<Rightarrow> cross_shard \<Rightarrow> bool \<times> cross_shard" where
  "record_validator_ack tx sid v c =
     (let vid = py_strip v
      in if vid = [] then (False, c)
         else if sid \<notin> dget_or (cx_required c) tx {} then (False, c)
         else if cx_committee c sid \<noteq> {} \<and> vid \<notin> cx_committee c sid then (False, c)
         else
           (let c1 = c\<lparr>cx_vacks := dset tx (dset sid (insert vid (vacks_of c tx sid)) (dget_or (cx_vacks c) tx []))
                        (cx_vacks c)\<rparr>;
                c2 = (if shard_quorum_met c1 tx sid
                      then c1\<lparr>cx_acks := dset tx (insert sid (acks_of c1 tx)) (cx_acks c1)\<rparr> else c1)
            in (cx_quorum_reached c2 tx, c2)))"

definition record_ack :: "string \<Rightarrow> int \<Rightarrow> cross_shard \<Rightarrow> bool \<times> cross_shard" where
  "record_ack tx sid c =
     (if dget_or (cx_required c) tx {} = {} then (False, c)
      else if cx_committee c sid \<noteq> {} then (False, c)
      else
        (let c1 = c\<lparr>cx_acks := dset tx (insert sid (acks_of c tx)) (cx_acks c)\<rparr>
         in (cx_quorum_reached c1 tx, c1)))"

definition cx_clear :: "string \<Rightarrow> cross_shard \<Rightarrow> cross_shard" where
  "cx_clear tx c =
     c\<lparr>cx_acks := filter (\<lambda>(k, _). k \<noteq> tx) (cx_acks c), cx_required := filter (\<lambda>(k, _). k \<noteq> tx) (cx_required c),
       cx_vacks := filter (\<lambda>(k, _). k \<noteq> tx) (cx_vacks c)\<rparr>"

section \<open>Resharding\<close>

definition plan_reshard :: "int \<Rightarrow> int \<Rightarrow> cross_shard \<Rightarrow> cross_shard" where
  "plan_reshard n epoch c =
     c\<lparr>cx_plan := Some \<lparr>rp_from = cx_num_shards c, rp_to = max 1 n, rp_epoch = epoch, rp_status = ''planned''\<rparr>,
       cx_queue := []\<rparr>"

definition queue_address_migration :: "string \<Rightarrow> int \<Rightarrow> int \<Rightarrow> cross_shard \<Rightarrow> cross_shard" where
  "queue_address_migration a from to c =
     c\<lparr>cx_queue := cx_queue c @ [\<lparr>mr_address = a, mr_from = from, mr_to = to, mr_status = ''pending''\<rparr>]\<rparr>"

fun done_overrides :: "mig_row list \<Rightarrow> (string \<times> int) list \<Rightarrow> (string \<times> int) list" where
  "done_overrides [] os = os"
| "done_overrides (r # rs) os =
     done_overrides rs
       (if mr_status r = ''done'' \<and> mr_address r \<noteq> [] then dset (py_lower (mr_address r)) (mr_to r) os else os)"

definition apply_reshard :: "cross_shard \<Rightarrow> bool \<times> cross_shard" where
  "apply_reshard c =
     (case cx_plan c of
        None \<Rightarrow> (False, c)
      | Some p \<Rightarrow>
          if rp_status p \<noteq> ''planned'' then (False, c)
          else (True, c\<lparr>cx_num_shards := rp_to p, cx_plan := Some (p\<lparr>rp_status := ''active''\<rparr>),
                        cx_overrides := done_overrides (cx_queue c) (cx_overrides c)\<rparr>))"

definition resolve_shard :: "string \<Rightarrow> int \<Rightarrow> cross_shard \<Rightarrow> int" where
  "resolve_shard a fallback c = dget_or (cx_overrides c) (py_lower a) fallback"

definition pending_migrations :: "cross_shard \<Rightarrow> mig_row list" where
  "pending_migrations c = filter (\<lambda>r. mr_status r = ''pending'') (cx_queue c)"

text \<open>The first pending or debited row of an address is done, and the address lives on its target shard.\<close>

fun complete_row :: "string \<Rightarrow> mig_row list \<Rightarrow> (mig_row \<times> mig_row list) option" where
  "complete_row a [] = None"
| "complete_row a (r # rs) =
     (if py_lower (mr_address r) = py_lower a \<and> mr_status r \<in> {''pending'', ''debited''}
      then Some (r, r\<lparr>mr_status := ''done''\<rparr> # rs)
      else (case complete_row a rs of None \<Rightarrow> None | Some (r', rs') \<Rightarrow> Some (r', r # rs')))"

definition complete_migration :: "string \<Rightarrow> cross_shard \<Rightarrow> bool \<times> cross_shard" where
  "complete_migration a c =
     (case complete_row a (cx_queue c) of
        None \<Rightarrow> (False, c)
      | Some (r, q) \<Rightarrow> (True, c\<lparr>cx_queue := q, cx_overrides := dset (py_lower a) (mr_to r) (cx_overrides c)\<rparr>))"

section \<open>Moving balances\<close>

text \<open>The store: reading a balance (\<open>None\<close> where the code catches a conversion error), adding to one, and the key
  it files a value under that is no string. A store may lack either method.\<close>

record 'w mig_db =
  md_read :: "(string \<Rightarrow> 'w \<Rightarrow> int option) option"
  md_delta :: "(string \<Rightarrow> int \<Rightarrow> 'w \<Rightarrow> 'w) option"
  md_key :: "pyval \<Rightarrow> string"

datatype mig_payload = ZeroBalance string | Move string int int int

definition read_balance_satoshi :: "'w mig_db \<Rightarrow> string \<Rightarrow> 'w \<Rightarrow> int option" where
  "read_balance_satoshi db a w = (if a = [] then None else case md_read db of None \<Rightarrow> None | Some f \<Rightarrow> f a w)"

definition apply_delta :: "'w mig_db \<Rightarrow> string \<Rightarrow> int \<Rightarrow> 'w \<Rightarrow> bool \<times> 'w" where
  "apply_delta db a d w =
     (if a = [] \<or> d = 0 then (False, w)
      else case md_delta db of None \<Rightarrow> (False, w) | Some f \<Rightarrow> (True, f a d w))"

text \<open>The payload, and the row it is given, which it marks as debited.\<close>

definition export_migration_debit ::
  "mig_row \<Rightarrow> 'w mig_db \<Rightarrow> (int \<Rightarrow> bool) \<Rightarrow> cross_shard \<times> 'w \<Rightarrow> (mig_payload option \<times> mig_row) \<times> cross_shard \<times> 'w" where
  "export_migration_debit r db owns s =
     (if \<not> owns (mr_from r) \<or> mr_address r = [] then ((None, r), s)
      else (case read_balance_satoshi db (mr_address r) (snd s) of
          None \<Rightarrow> ((None, r), s)
        | Some sats \<Rightarrow>
            if sats \<le> 0 then ((Some (ZeroBalance (mr_address r)), r), snd (complete_migration (mr_address r) (fst s)), snd s)
            else (case apply_delta db (mr_address r) (- sats) (snd s) of
                (False, w) \<Rightarrow> ((None, r), fst s, w)
              | (True, w) \<Rightarrow> ((Some (Move (mr_address r) (mr_from r) (mr_to r) sats), r\<lparr>mr_status := ''debited''\<rparr>), fst s, w))))"

text \<open>
  An address that is no string is credited like any other; only then \<open>complete_migration\<close> calls its \<open>lower\<close>, when the
  queue has a row to compare it with.
\<close>

definition credited_key :: "'w mig_db \<Rightarrow> pyval \<Rightarrow> string" where
  "credited_key db v = (case v of PStr a \<Rightarrow> a | _ \<Rightarrow> md_key db v)"

definition complete_credited :: "pyval \<Rightarrow> cross_shard \<Rightarrow> (string + bool) \<times> cross_shard" where
  "complete_credited v c =
     (case v of PStr a \<Rightarrow> (Inr True, snd (complete_migration a c))
      | _ \<Rightarrow> (if cx_queue c = [] then Inr True else Inl ''AttributeError'', c))"

definition apply_migration_credit ::
  "pydict \<Rightarrow> 'w mig_db \<Rightarrow> (int \<Rightarrow> bool) \<Rightarrow> cross_shard \<times> 'w \<Rightarrow> (string + bool) \<times> cross_shard \<times> 'w" where
  "apply_migration_credit payload db owns s =
     (if pget payload ''type'' \<noteq> PStr ''shard_migration'' then (Inr False, s)
      else (case py_int (dget_or payload ''to_shard'' (PInt (- 1))) of
          None \<Rightarrow> (Inl (if pget payload ''to_shard'' = PNone then ''TypeError'' else ''ValueError''), s)
        | Some to \<Rightarrow>
            if \<not> owns to then (Inr False, s)
            else
              (let addr = dget_or payload ''address'' (PStr [])
               in if \<not> py_truthy addr then (Inr False, s)
                  else (case py_int (pget payload ''balance_satoshi'') of
                      None \<Rightarrow> (Inr False, s)
                    | Some sats \<Rightarrow>
                        if sats \<le> 0 then (Inr False, s)
                        else (case apply_delta db (credited_key db addr) sats (snd s) of
                            (False, w) \<Rightarrow> (Inr False, fst s, w)
                          | (True, w) \<Rightarrow> (case complete_credited addr (fst s) of (r, c) \<Rightarrow> (r, c, w)))))))"

fun process_rows ::
  "'w mig_db \<Rightarrow> (int \<Rightarrow> bool) \<Rightarrow> mig_row list \<Rightarrow> cross_shard \<times> 'w \<Rightarrow> mig_payload list \<times> cross_shard \<times> 'w"
where
  "process_rows db owns [] s = ([], s)"
| "process_rows db owns (r # rs) s =
     (if owns (mr_from r) \<and> owns (mr_to r)
      then process_rows db owns rs (snd (complete_migration (mr_address r) (fst s)), snd s)
      else (case export_migration_debit r db owns s of
          ((Some (Move a f t n), _), s1) \<Rightarrow> (let (ps, s2) = process_rows db owns rs s1 in (Move a f t n # ps, s2))
        | (_, s1) \<Rightarrow> process_rows db owns rs s1))"

text \<open>\<open>process_local_migrations\<close>: the payloads to send (its counters follow from them).\<close>

definition process_local_migrations ::
  "'w mig_db \<Rightarrow> (int \<Rightarrow> bool) \<Rightarrow> int \<Rightarrow> cross_shard \<times> 'w \<Rightarrow> mig_payload list \<times> cross_shard \<times> 'w" where
  "process_local_migrations db owns limit s =
     process_rows db owns (take (nat (max 1 limit)) (pending_migrations (fst s))) s"

end
