(* ===== verification/FeePlan.thy ===== *)
theory FeePlan
  imports Amount
begin

text \<open>
  The fee plan of a transfer, \<open>plan_transfer_fees_sat\<close> and \<open>resolve_tx_value_satoshi\<close> of \<open>src/runtime/amount.py\<close> (the
  Python path), over the decimals of \<open>Amount\<close>: products are rounded to 28 digits as in the default context. An
  amount is the decimal it prints as, because \<open>to_satoshi\<close> reads \<open>str\<close> of a float. The split of a fee is exact: what is
  burned and what the proposer gets are not negative and add up to the fee.
\<close>

section \<open>Products and comparisons of decimals\<close>

definition dec_mul :: "decimal \<Rightarrow> decimal \<Rightarrow> decimal" where
  "dec_mul a b = \<lparr>dec_neg = (dec_neg a \<noteq> dec_neg b), dec_coeff = round28 (dec_coeff a * dec_coeff b), dec_exp = dec_exp a + dec_exp b\<rparr>"

definition dec_signed :: "decimal \<Rightarrow> int" where
  "dec_signed a = (if dec_neg a then - int (dec_coeff a) else int (dec_coeff a))"

definition dec_less :: "decimal \<Rightarrow> decimal \<Rightarrow> bool" where
  "dec_less a b =
     (let e = min (dec_exp a) (dec_exp b)
      in dec_signed a * 10 ^ nat (dec_exp a - e) < dec_signed b * 10 ^ nat (dec_exp b - e))"

text \<open>\<open>int(d.to_integral_value(rounding=ROUND_DOWN))\<close>.\<close>

definition dec_trunc :: "decimal \<Rightarrow> int" where
  "dec_trunc a =
     (let v = (if dec_exp a \<ge> 0 then dec_coeff a * 10 ^ nat (dec_exp a) else dec_coeff a div 10 ^ nat (- dec_exp a))
      in if dec_neg a then - int v else int v)"

section \<open>The plan\<close>

record fee_plan =
  fp_fee :: int
  fp_burned :: int
  fp_miner_fee :: int
  fp_value :: int
  fp_total_cost :: int

definition clamp_rate :: "decimal \<Rightarrow> decimal" where
  "clamp_rate rate =
     (let r = (if dec_less rate (decimal_of_int 0) then decimal_of_int 0 else rate)
      in if dec_less (decimal_of_int 1) r then decimal_of_int 1 else r)"

definition burned_part :: "int \<Rightarrow> decimal \<Rightarrow> int" where
  "burned_part fee rate = dec_trunc (dec_mul (decimal_of_int fee) (clamp_rate rate))"

text \<open>\<open>gas_used\<close> is given after a contract ran; \<open>value_satoshi\<close> when it is known.\<close>

definition plan_transfer_fees_sat :: "int \<Rightarrow> decimal \<Rightarrow> decimal \<Rightarrow> decimal \<Rightarrow> int option \<Rightarrow> int option \<Rightarrow> string + fee_plan" where
  "plan_transfer_fees_sat gas gas_price burn_rate value gas_used value_satoshi =
     (if dec_less gas_price (decimal_of_int 0) then Inl ''negative gas_price_wei''
      else
        (let fee1 = dec_mul (decimal_of_int gas) gas_price;
             fee_abs = (case gas_used of
                 None \<Rightarrow> fee1
               | Some g \<Rightarrow> (let fee2 = dec_mul (decimal_of_int g) gas_price in if dec_less fee1 fee2 then fee2 else fee1))
         in bind_sum (scale_down fee_abs) (\<lambda>fee.
            bind_sum (case value_satoshi of Some v \<Rightarrow> if v < 0 then Inl ''value_negative'' else Inr v | None \<Rightarrow> scale_down value) (\<lambda>v.
            Inr \<lparr>fp_fee = fee, fp_burned = burned_part fee burn_rate, fp_miner_fee = fee - burned_part fee burn_rate,
              fp_value = v, fp_total_cost = v + fee\<rparr>))))"

definition resolve_value_satoshi :: "decimal \<Rightarrow> int option \<Rightarrow> string + int" where
  "resolve_value_satoshi value amount_satoshi =
     (case amount_satoshi of
        Some v \<Rightarrow> if v < 0 then Inl ''value_negative'' else Inr v
      | None \<Rightarrow> scale_down value)"

section \<open>The split is exact\<close>

lemma dec_len_bounds: "0 < n \<Longrightarrow> 10 ^ (dec_len n - 1) \<le> n" and dec_len_less: "n < 10 ^ dec_len n"
proof (induction n rule: dec_len.induct)
  case (1 n)
  {
    case 1
    show ?case
    proof (cases "n < 10")
      case True
      then have "n div 10 = 0" by simp
      then show ?thesis using 1 by (simp add: dec_len.simps [of n] dec_len.simps [of 0])
    next
      case False
      then have pos: "0 < n div 10" by simp
      then have "1 \<le> dec_len (n div 10)" by (simp add: dec_len.simps [of "n div 10"])
      then obtain k where k: "dec_len (n div 10) = Suc k" by (cases "dec_len (n div 10)") auto
      have "10 ^ k \<le> n div 10" using "1.IH"(1) pos 1 by (simp add: k)
      then have "10 * 10 ^ k \<le> n" by linarith
      then show ?thesis using 1 by (simp add: dec_len.simps [of n] k)
    qed
  next
    case 2
    show ?case
    proof (cases "n = 0")
      case False
      have "n div 10 < 10 ^ dec_len (n div 10)" using "1.IH"(2) False by simp
      then have "n < 10 * 10 ^ dec_len (n div 10)" by linarith
      then show ?thesis using False by (simp add: dec_len.simps [of n])
    qed simp
  }
qed

lemma next_multiple: "(n :: nat) = q * d + r \<Longrightarrow> 0 < r \<Longrightarrow> n \<le> M * d \<Longrightarrow> q \<le> M \<Longrightarrow> q + 1 \<le> M"
  by (cases "q = M") simp_all

lemma ten_power_le: "(10 :: nat) ^ j \<le> 1 \<Longrightarrow> j = 0"
  using one_less_power [of "10 :: nat" j] by (cases "j = 0") simp_all

lemma round28_bound:
  assumes "n \<le> b * 10 ^ m" "b < 10 ^ 28"
  shows "round28 n \<le> b * 10 ^ m"
proof (cases "dec_len n \<le> 28")
  case True
  with assms show ?thesis by (simp add: round28_def)
next
  case False
  define k where "k = dec_len n - 28"
  have k: "0 < k" "dec_len n - 1 = 27 + k" using False by (simp_all add: k_def)
  have n: "10 ^ (27 + k) \<le> n" using dec_len_bounds [of n] False k(2) by (cases n) (simp_all add: dec_len.simps [of 0])
  have "k \<le> m"
  proof (rule ccontr)
    assume "\<not> k \<le> m"
    then have km: "28 + m \<le> 27 + k" by simp
    have "b * 10 ^ m < 10 ^ 28 * 10 ^ m" using assms(2) by (intro mult_strict_right_mono) simp_all
    also have "\<dots> = 10 ^ (28 + m)" by (simp only: power_add)
    also have "\<dots> \<le> 10 ^ (27 + k)" using km by (rule power_increasing) simp
    also note n
    finally show False using assms(1) by linarith
  qed
  then have m: "b * 10 ^ m = (b * 10 ^ (m - k)) * 10 ^ k" by (simp add: power_add [symmetric] mult.assoc)
  let ?M = "b * 10 ^ (m - k)" and ?q = "n div 10 ^ k" and ?r = "n mod 10 ^ k"
  have qr: "n = ?q * 10 ^ k + ?r" by (simp only: div_mult_mod_eq)
  have q: "?q \<le> ?M" using assms(1) m by (metis div_le_mono nonzero_mult_div_cancel_right power_not_zero zero_neq_numeral)
  have up: "?q + 1 \<le> ?M" if "0 < ?r" using qr that assms(1) [unfolded m] q by (rule next_multiple)
  have "round28 n = (if 2 * ?r > 10 ^ k \<or> (2 * ?r = 10 ^ k \<and> odd ?q) then ?q + 1 else ?q) * 10 ^ k"
    using k(1) by (simp add: round28_def Let_def k_def)
  moreover have "0 < ?r" if "2 * ?r > 10 ^ k \<or> (2 * ?r = 10 ^ k \<and> odd ?q)" using that by (cases ?r) auto
  ultimately have "round28 n \<le> ?M * 10 ^ k" using q up by (auto intro: mult_right_mono)
  then show ?thesis by (simp only: m)
qed

lemma dec_less_zero: "dec_less a (decimal_of_int 0) \<longleftrightarrow> dec_signed a < 0"
  by (simp add: dec_less_def Let_def decimal_of_int_def dec_signed_def [of "\<lparr>dec_neg = n, dec_coeff = c, dec_exp = e\<rparr>" for n c e]
      mult_less_0_iff)

lemma dec_less_irrefl: "\<not> dec_less a a"
  by (simp add: dec_less_def)

lemma clamp_rate_range:
  "\<not> dec_neg (clamp_rate rate) \<or> dec_coeff (clamp_rate rate) = 0" "\<not> dec_less (decimal_of_int 1) (clamp_rate rate)"
proof -
  define r where "r = (if dec_less rate (decimal_of_int 0) then decimal_of_int 0 else rate)"
  have clamp: "clamp_rate rate = (if dec_less (decimal_of_int 1) r then decimal_of_int 1 else r)"
    by (simp add: clamp_rate_def r_def Let_def)
  have "0 \<le> dec_signed r" by (simp add: r_def dec_less_zero) (simp add: decimal_of_int_def dec_signed_def)
  then have "\<not> dec_neg r \<or> dec_coeff r = 0" by (simp add: dec_signed_def split: if_splits)
  then show "\<not> dec_neg (clamp_rate rate) \<or> dec_coeff (clamp_rate rate) = 0"
    by (simp add: clamp) (simp add: decimal_of_int_def)
  show "\<not> dec_less (decimal_of_int 1) (clamp_rate rate)" by (simp add: clamp dec_less_irrefl)
qed

lemma trunc_part:
  assumes "\<not> dec_less (decimal_of_int 1) r" "\<not> dec_neg r \<or> dec_coeff r = 0" "0 \<le> fee" "fee < 10 ^ 28"
  shows "0 \<le> dec_trunc (dec_mul (decimal_of_int fee) r)" "dec_trunc (dec_mul (decimal_of_int fee) r) \<le> fee"
proof -
  let ?c = "round28 (nat fee * dec_coeff r)"
  have zero: "round28 0 = 0" by (simp add: round28_def dec_len.simps [of 0])
  have mul: "dec_mul (decimal_of_int fee) r = \<lparr>dec_neg = dec_neg r, dec_coeff = ?c, dec_exp = dec_exp r\<rparr>"
    using assms(3) by (simp add: dec_mul_def decimal_of_int_def)
  have "int (dec_coeff r) * 10 ^ nat (dec_exp r - min 0 (dec_exp r)) \<le> 10 ^ nat (- min 0 (dec_exp r))"
    using assms(1, 2) by (cases "dec_neg r") (auto simp: dec_less_def Let_def decimal_of_int_def dec_signed_def)
  then have le1: "dec_coeff r * 10 ^ nat (dec_exp r - min 0 (dec_exp r)) \<le> 10 ^ nat (- min 0 (dec_exp r))"
    by (metis (mono_tags, lifting) of_nat_le_iff of_nat_mult of_nat_numeral of_nat_power)
  have fee28: "nat fee < 10 ^ 28" using assms(3, 4) by (simp add: nat_less_iff)
  let ?v = "if dec_exp r \<ge> 0 then ?c * 10 ^ nat (dec_exp r) else ?c div 10 ^ nat (- dec_exp r)"
  have v: "?v \<le> nat fee"
  proof (cases "dec_exp r \<ge> 0")
    case True
    with le1 have "dec_coeff r * 10 ^ nat (dec_exp r) \<le> 1" by simp
    moreover have "dec_coeff r \<le> dec_coeff r * 10 ^ nat (dec_exp r)" "dec_coeff r \<noteq> 0 \<Longrightarrow> 10 ^ nat (dec_exp r) \<le> dec_coeff r * 10 ^ nat (dec_exp r)"
      by simp_all
    ultimately have "dec_coeff r = 0 \<or> dec_coeff r = 1 \<and> (10 :: nat) ^ nat (dec_exp r) \<le> 1" by linarith
    then have "dec_coeff r = 0 \<or> dec_coeff r = 1 \<and> nat (dec_exp r) = 0"
      using ten_power_le by blast
    then show ?thesis using True zero round28_bound [of "nat fee" "nat fee" 0] fee28 by auto
  next
    case False
    with le1 have "nat fee * dec_coeff r \<le> nat fee * 10 ^ nat (- dec_exp r)" by (simp add: mult_left_mono)
    then have "?c \<le> nat fee * 10 ^ nat (- dec_exp r)" using fee28 by (rule round28_bound)
    then have "?c div 10 ^ nat (- dec_exp r) \<le> nat fee * 10 ^ nat (- dec_exp r) div 10 ^ nat (- dec_exp r)" by (rule div_le_mono)
    then show ?thesis using False by simp
  qed
  have trunc: "dec_trunc (dec_mul (decimal_of_int fee) r) = (if dec_neg r then - int ?v else int ?v)"
    by (simp add: mul dec_trunc_def Let_def)
  have neg: "dec_neg r \<Longrightarrow> ?v = 0" using assms(2) zero by auto
  define v' where "v' = ?v"
  have "dec_trunc (dec_mul (decimal_of_int fee) r) = (if dec_neg r then - int v' else int v')" "dec_neg r \<Longrightarrow> v' = 0" "v' \<le> nat fee"
    using trunc neg v by (simp_all add: v'_def)
  with assms(3) show "0 \<le> dec_trunc (dec_mul (decimal_of_int fee) r)" "dec_trunc (dec_mul (decimal_of_int fee) r) \<le> fee"
    by (cases "dec_neg r"; simp)+
qed

lemma burned_part_range: "0 \<le> fee \<Longrightarrow> fee < 10 ^ 28 \<Longrightarrow> 0 \<le> burned_part fee rate \<and> burned_part fee rate \<le> fee"
  unfolding burned_part_def using trunc_part clamp_rate_range by blast

lemma round28_zero: "round28 0 = 0"
  by (simp add: round28_def dec_len.simps [of 0])

lemma scale_down_range:
  assumes "scale_down d = Inr fee" "0 \<le> dec_signed d"
  shows "0 \<le> fee \<and> fee < 10 ^ 28"
proof -
  define v where "v = (if round28 (dec_coeff d * 1000000) = 0 then 0 else
     if dec_exp d \<ge> 0 then round28 (dec_coeff d * 1000000) * 10 ^ nat (dec_exp d) else round28 (dec_coeff d * 1000000) div 10 ^ nat (- dec_exp d))"
  have sd: "scale_down d = (if dec_len v > 28 then Inl ''InvalidOperation'' else Inr (if dec_neg d then - int v else int v))"
    by (simp add: scale_down_def Let_def v_def)
  have len: "dec_len v \<le> 28" and fee: "fee = (if dec_neg d then - int v else int v)"
    using assms(1) sd by (auto split: if_splits)
  have "v < 10 ^ dec_len v" by (rule dec_len_less)
  also have "\<dots> \<le> 10 ^ 28" using len by (intro power_increasing) simp_all
  finally have lt: "v < 10 ^ 28" .
  have "dec_neg d \<Longrightarrow> v = 0" using assms(2) by (simp add: dec_signed_def v_def round28_zero)
  with lt fee show ?thesis by (cases "dec_neg d") simp_all
qed

lemma dec_mul_nonneg:
  assumes "0 \<le> gas" "\<not> dec_less p (decimal_of_int 0)"
  shows "0 \<le> dec_signed (dec_mul (decimal_of_int gas) p)"
proof -
  have "\<not> dec_neg p \<or> dec_coeff p = 0" using assms(2) by (simp add: dec_less_zero dec_signed_def split: if_splits)
  then show ?thesis using assms(1) by (auto simp: dec_signed_def dec_mul_def decimal_of_int_def round28_zero)
qed

lemma dec_less_nonneg: "dec_less a b \<Longrightarrow> 0 \<le> dec_signed a \<Longrightarrow> 0 \<le> dec_signed b"
proof (rule ccontr)
  assume less: "dec_less a b" and a: "0 \<le> dec_signed a" and b: "\<not> 0 \<le> dec_signed b"
  have "dec_signed b * 10 ^ nat (dec_exp b - min (dec_exp a) (dec_exp b)) \<le> 0"
    using b by (simp add: mult_nonpos_nonneg)
  moreover have "0 \<le> dec_signed a * 10 ^ nat (dec_exp a - min (dec_exp a) (dec_exp b))" using a by simp
  ultimately show False using less by (simp add: dec_less_def Let_def)
qed

text \<open>C32: the fee plan conserves money. Whatever the gas price, the burn rate (clamped to [0, 1]) and the gas used, when
  a plan is returned the part burned and the part paid to the proposer are both not negative and add up exactly to the
  fee, and the total cost is the value plus the fee.\<close>

theorem fee_plan_conserves:
  assumes "0 \<le> gas" "plan_transfer_fees_sat gas gas_price burn_rate value gas_used value_satoshi = Inr p"
  shows "0 \<le> fp_burned p \<and> 0 \<le> fp_miner_fee p \<and> fp_burned p + fp_miner_fee p = fp_fee p
     \<and> fp_total_cost p = fp_value p + fp_fee p"
proof -
  define fee1 where "fee1 = dec_mul (decimal_of_int gas) gas_price"
  define abs where "abs = (case gas_used of
                 None \<Rightarrow> fee1
               | Some g \<Rightarrow> (let fee2 = dec_mul (decimal_of_int g) gas_price in if dec_less fee1 fee2 then fee2 else fee1))"
  have price: "\<not> dec_less gas_price (decimal_of_int 0)"
    using assms(2) by (auto simp: plan_transfer_fees_sat_def split: if_splits)
  have fee1: "0 \<le> dec_signed fee1" unfolding fee1_def using assms(1) price by (rule dec_mul_nonneg)
  then have abs: "0 \<le> dec_signed abs"
    by (auto simp: abs_def Let_def dest: dec_less_nonneg split: option.splits)
  have plan: "bind_sum (scale_down abs) (\<lambda>fee.
            bind_sum (case value_satoshi of Some v \<Rightarrow> if v < 0 then Inl ''value_negative'' else Inr v | None \<Rightarrow> scale_down value) (\<lambda>v.
            Inr \<lparr>fp_fee = fee, fp_burned = burned_part fee burn_rate, fp_miner_fee = fee - burned_part fee burn_rate,
              fp_value = v, fp_total_cost = v + fee\<rparr>)) = Inr p"
    using assms(2) price unfolding plan_transfer_fees_sat_def fee1_def [symmetric] Let_def abs_def by simp
  then obtain fee v where fee: "scale_down abs = Inr fee"
    and p: "p = \<lparr>fp_fee = fee, fp_burned = burned_part fee burn_rate, fp_miner_fee = fee - burned_part fee burn_rate,
              fp_value = v, fp_total_cost = v + fee\<rparr>"
    by (auto simp: bind_sum_def split: sum.splits)
  from scale_down_range [OF fee abs] burned_part_range [of fee burn_rate] show ?thesis by (simp add: p)
qed

lemma fee_plan_conserves_witness:
  "\<exists>p. plan_transfer_fees_sat 21000 \<lparr>dec_neg = False, dec_coeff = 1, dec_exp = - 9\<rparr> \<lparr>dec_neg = False, dec_coeff = 33, dec_exp = - 2\<rparr>
        (decimal_of_int 5) (Some 30000) None = Inr p
     \<and> 0 \<le> fp_burned p \<and> 0 \<le> fp_miner_fee p \<and> fp_burned p + fp_miner_fee p = fp_fee p
     \<and> fp_total_cost p = fp_value p + fp_fee p"
proof -
  have "plan_transfer_fees_sat 21000 \<lparr>dec_neg = False, dec_coeff = 1, dec_exp = - 9\<rparr> \<lparr>dec_neg = False, dec_coeff = 33, dec_exp = - 2\<rparr>
        (decimal_of_int 5) (Some 30000) None = Inr \<lparr>fp_fee = 30, fp_burned = 9, fp_miner_fee = 21, fp_value = 5000000, fp_total_cost = 5000030\<rparr>"
    by (simp add: plan_transfer_fees_sat_def burned_part_def clamp_rate_def dec_less_def dec_signed_def dec_mul_def dec_trunc_def
        decimal_of_int_def round28_def scale_down_def bind_sum_def Let_def dec_len_of)
  from fee_plan_conserves [OF _ this] this show ?thesis by simp
qed

end
