(* ===== verification/FloatText.thy ===== *)
theory FloatText
  imports Floats Amount
begin

text \<open>
  The float of an amount and the text Python prints it as: \<open>float\<close> of a decimal is the nearest double, ties to even, and
  \<open>str\<close> of a float is the shortest decimal that the double is the nearest to, the closest one of that length. The doubles
  from \<open>10^-7\<close> up are multiples of \<open>2^-80\<close>, so here a double is a natural number of such units; an amount of at least one satoshi
  is in that range. Below \<open>2^33\<close> doubles are closer together than satoshi, and the text gives the amount back.
\<close>

section \<open>Doubles\<close>

text \<open>The quotient rounded to 53 bits, when it has as many.\<close>

definition quotient53 :: "nat \<Rightarrow> nat \<Rightarrow> nat" where
  "quotient53 n d =
     (let k = bit_len (n div d) - 53; u = d * 2 ^ k; q = n div u; r = n mod u
      in (if 2 * r > u \<or> (2 * r = u \<and> odd q) then q + 1 else q) * 2 ^ k)"

definition double_of :: "nat \<Rightarrow> nat \<Rightarrow> nat" where
  "double_of n d = quotient53 (n * 2 ^ 80) d"

section \<open>The shortest text\<close>

text \<open>The multiples of \<open>10^t\<close> next to the double that read back as it; of two the closer, and the even one of two as close.\<close>

definition multiple_at :: "nat \<Rightarrow> int \<Rightarrow> nat option" where
  "multiple_at x t =
     (let a = 10 ^ nat t; b = 10 ^ nat (- t); u = a * 2 ^ 80; c = x * b div u; r = x * b mod u
      in if double_of (c * a) b = x
         then if double_of (Suc c * a) b = x \<and> (2 * r > u \<or> (2 * r = u \<and> odd c)) then Some (Suc c) else Some c
         else if double_of (Suc c * a) b = x then Some (Suc c)
         else None)"

fun shortest_from :: "nat \<Rightarrow> nat \<Rightarrow> int \<Rightarrow> (nat \<times> int) option" where
  "shortest_from 0 x t = None"
| "shortest_from (Suc fuel) x t =
     (case multiple_at x t of Some c \<Rightarrow> Some (c, t) | None \<Rightarrow> shortest_from fuel x (t - 1))"

text \<open>Seventeen digits are enough for every double, and one from \<open>10^-7\<close> up has at most 6 zeros after its point.\<close>

definition shortest :: "nat \<Rightarrow> (nat \<times> int) option" where
  "shortest x = shortest_from 25 x (int (dec_len (x div 2 ^ 80)))"

section \<open>Rounding\<close>

lemma bit_len_lower: "0 < n \<Longrightarrow> 2 ^ (bit_len n - 1) \<le> n"
proof (rule ccontr)
  assume "0 < n" "\<not> 2 ^ (bit_len n - 1) \<le> n"
  then have "bit_len n \<le> bit_len n - 1" by (intro bit_len_le) simp
  with \<open>0 < n\<close> show False by (simp add: bit_len.simps [of n])
qed

lemma quotient53_near:
  fixes n d :: nat
  assumes "0 < d"
  defines "u \<equiv> d * 2 ^ (bit_len (n div d) - 53)"
  shows "2 * (d * quotient53 n d) \<le> 2 * n + u" "2 * n \<le> 2 * (d * quotient53 n d) + u"
proof -
  define q r where "q = n div u" and "r = n mod u"
  have n: "n = q * u + r" by (simp add: q_def r_def)
  have "r < u" using assms(1) by (simp add: r_def u_def)
  have R: "d * quotient53 n d = (if 2 * r > u \<or> (2 * r = u \<and> odd q) then q * u + u else q * u)"
    by (simp add: quotient53_def Let_def q_def r_def u_def algebra_simps)
  show "2 * (d * quotient53 n d) \<le> 2 * n + u" unfolding R using n \<open>r < u\<close> by auto
  show "2 * n \<le> 2 * (d * quotient53 n d) + u" unfolding R using n \<open>r < u\<close> by auto
qed

lemma quotient53_above:
  assumes "d * 2 ^ m \<le> n" "52 \<le> m" "0 < d"
  shows "2 ^ m \<le> quotient53 n d"
proof -
  define N where "N = n div d"
  define k where "k = bit_len N - 53"
  have N: "2 ^ m \<le> N" using assms(1,3) by (simp add: N_def less_eq_div_iff_mult_less_eq mult.commute)
  then have "2 ^ m < (2 :: nat) ^ bit_len N" using bit_len_bound le_less_trans by blast
  then have m: "m < bit_len N" by simp
  have "0 < N" using N by (metis gr0I le_zero_eq power_not_zero zero_neq_numeral)
  then have "2 ^ (bit_len N - 1) \<le> N" by (rule bit_len_lower)
  have "k \<le> bit_len N - 1" "52 \<le> bit_len N - 1" using m assms(2) by (simp_all add: k_def)
  then have "2 ^ (bit_len N - 1) = 2 ^ (bit_len N - 1 - k) * (2 :: nat) ^ k" by (simp flip: power_add)
  also have "2 ^ (bit_len N - 1 - k) \<le> N div 2 ^ k"
    using \<open>2 ^ (bit_len N - 1) \<le> N\<close> \<open>2 ^ (bit_len N - 1) = _\<close> by (simp add: less_eq_div_iff_mult_less_eq)
  also have "N div 2 ^ k = n div (d * 2 ^ k)" by (simp add: N_def div_mult2_eq)
  also have "n div (d * 2 ^ k) * 2 ^ k \<le> quotient53 n d"
    by (simp add: quotient53_def Let_def N_def k_def)
  finally have "2 ^ (bit_len N - 1) \<le> quotient53 n d" by simp
  moreover have "2 ^ m \<le> (2 :: nat) ^ (bit_len N - 1)" using m by (intro power_increasing) simp_all
  ultimately show ?thesis by (rule order_trans [rotated])
qed

lemma quotient53_scale: "0 < k \<Longrightarrow> quotient53 (n * k) (d * k) = quotient53 n d"
proof -
  assume k: "0 < k"
  have div: "n * k div (d * k) = n div d" using k by simp
  define u where "u = d * 2 ^ (bit_len (n div d) - 53)"
  have u: "d * k * 2 ^ (bit_len (n div d) - 53) = u * k" by (simp add: u_def)
  have "n * k div (u * k) = n div u" "n * k mod (u * k) = n mod u * k" using k by simp_all
  moreover have "(2 * (n mod u * k) > u * k) = (2 * (n mod u) > u)" "(2 * (n mod u * k) = u * k) = (2 * (n mod u) = u)"
    using k by (metis mult.assoc mult_less_cancel2) (metis k mult.assoc mult_right_cancel neq0_conv)
  ultimately show ?thesis unfolding quotient53_def Let_def div u by (simp add: u_def)
qed

lemma double_scale: "0 < k \<Longrightarrow> double_of (n * k) (d * k) = double_of n d"
  using quotient53_scale [of k "n * 2 ^ 80" d] by (simp add: double_of_def ac_simps)

section \<open>Amounts below the limit\<close>

text \<open>The number of satoshi in \<open>2^33\<close> coins.\<close>

definition exact_limit :: nat where
  "exact_limit = 8589934592000000"

lemma double_amount:
  assumes "n < exact_limit"
  defines "x \<equiv> double_of n (10 ^ 6)"
  shows "2 * (10 ^ 6 * x) \<le> 2 * (n * 2 ^ 80) + 10 ^ 6 * 2 ^ 60" "2 * (n * 2 ^ 80) \<le> 2 * (10 ^ 6 * x) + 10 ^ 6 * 2 ^ 60" "x < 2 ^ 113"
proof -
  define u where "u = (2 :: nat) ^ (bit_len (n * 2 ^ 80 div 10 ^ 6) - 53)"
  have "n * 2 ^ 80 div 10 ^ 6 < 2 ^ 113" using assms(1) by (simp add: exact_limit_def div_less_iff_less_mult)
  then have "bit_len (n * 2 ^ 80 div 10 ^ 6) \<le> 113" by (rule bit_len_le)
  then have "u \<le> 2 ^ 60" unfolding u_def by (intro power_increasing) simp_all
  moreover have "2 * (10 ^ 6 * x) \<le> 2 * (n * 2 ^ 80) + 10 ^ 6 * u" "2 * (n * 2 ^ 80) \<le> 2 * (10 ^ 6 * x) + 10 ^ 6 * u"
    using quotient53_near [of "10 ^ 6" "n * 2 ^ 80"] by (simp_all add: x_def double_of_def u_def)
  ultimately show "2 * (10 ^ 6 * x) \<le> 2 * (n * 2 ^ 80) + 10 ^ 6 * 2 ^ 60" "2 * (n * 2 ^ 80) \<le> 2 * (10 ^ 6 * x) + 10 ^ 6 * 2 ^ 60"
    by simp_all
  then show "x < 2 ^ 113" using assms(1) by (simp add: exact_limit_def)
qed

lemma double_inj:
  assumes "n < exact_limit" "double_of m (10 ^ 6) = double_of n (10 ^ 6)"
  shows "m = n"
proof -
  note near = double_amount [OF assms(1)]
  have "m < exact_limit"
  proof (rule ccontr)
    assume "\<not> m < exact_limit"
    then have "10 ^ 6 * 2 ^ 113 \<le> m * 2 ^ 80" by (simp add: exact_limit_def)
    then have "2 ^ 113 \<le> double_of m (10 ^ 6)" unfolding double_of_def by (rule quotient53_above) simp_all
    with near(3) assms(2) show False by simp
  qed
  note near' = double_amount [OF this, unfolded assms(2)]
  have "\<not> n < m"
  proof
    assume "n < m"
    then have "(n + 1) * 2 ^ 80 \<le> m * 2 ^ 80" by (intro mult_right_mono) simp_all
    with near(1,2) near'(1,2) show False by simp
  qed
  moreover have "\<not> m < n"
  proof
    assume "m < n"
    then have "(m + 1) * 2 ^ 80 \<le> n * 2 ^ 80" by (intro mult_right_mono) simp_all
    with near(1,2) near'(1,2) show False by simp
  qed
  ultimately show ?thesis by simp
qed

lemma multiple_at_sound: "multiple_at x t = Some c \<Longrightarrow> double_of (c * 10 ^ nat t) (10 ^ nat (- t)) = x"
  by (auto simp: multiple_at_def Let_def split: if_splits)

lemma multiple_at_None:
  assumes "multiple_at x t = None"
  defines "c \<equiv> x * 10 ^ nat (- t) div (10 ^ nat t * 2 ^ 80)"
  shows "double_of (c * 10 ^ nat t) (10 ^ nat (- t)) \<noteq> x" "double_of (Suc c * 10 ^ nat t) (10 ^ nat (- t)) \<noteq> x"
  using assms(1) unfolding multiple_at_def Let_def c_def [symmetric] by (auto split: if_splits)

lemma multiple_at_satoshi:
  assumes "n < exact_limit"
  shows "multiple_at (double_of n (10 ^ 6)) (- 6) \<noteq> None"
proof -
  define x where "x = double_of n (10 ^ 6)"
  define c where "c = x * 10 ^ 6 div 2 ^ 80"
  note near = double_amount [OF assms, folded x_def]
  have "c * 2 ^ 80 \<le> x * 10 ^ 6" "x * 10 ^ 6 < (c + 1) * 2 ^ 80"
    unfolding c_def by (simp_all only: div_times_less_eq_dividend) (simp add: dividend_less_times_div)
  with near(1,2) have "c * 2 ^ 80 < (n + 1) * 2 ^ 80" "n * 2 ^ 80 < (c + 2) * 2 ^ 80" by simp_all
  then have "c \<le> n" "n \<le> Suc c" by simp_all
  then have "n = c \<or> n = Suc c" by linarith
  moreover have "double_of c (10 ^ 6) \<noteq> x \<and> double_of (Suc c) (10 ^ 6) \<noteq> x" if "multiple_at x (- 6) = None"
    using multiple_at_None [OF that] by (simp add: c_def)
  ultimately show ?thesis by (auto simp: x_def)
qed

lemma shortest_from_Some:
  assumes "multiple_at x s \<noteq> None" "s \<le> t" "nat (t - s) < fuel"
  shows "\<exists>c t'. shortest_from fuel x t = Some (c, t') \<and> s \<le> t' \<and> multiple_at x t' = Some c"
  using assms
proof (induction fuel arbitrary: t)
  case (Suc fuel)
  show ?case
  proof (cases "multiple_at x t")
    case None
    with Suc.prems have "s \<le> t - 1" by (cases "s = t") auto
    moreover from this Suc.prems have "nat (t - 1 - s) < fuel" by linarith
    ultimately show ?thesis using Suc.IH [of "t - 1"] Suc.prems(1) None by simp
  qed (use Suc.prems in auto)
qed simp

lemma multiple_at_double:
  assumes "multiple_at x t = Some c" "- 6 \<le> t"
  shows "double_of (c * 10 ^ nat (t + 6)) (10 ^ 6) = x"
  proof (cases "0 \<le> t")
    case True
    then have "c * 10 ^ nat (t + 6) = c * 10 ^ nat t * 10 ^ 6" by (simp add: nat_add_distrib power_add)
    moreover have "double_of (c * 10 ^ nat t * 10 ^ 6) (10 ^ 6) = x"
      using multiple_at_sound [OF assms(1)] double_scale [of "10 ^ 6" "c * 10 ^ nat t" 1] True by simp
    ultimately show ?thesis by (simp only:)
  next
    case False
    with assms(2) have "nat (- t) + nat (t + 6) = 6" by linarith
    then have "(10 :: nat) ^ nat (- t) * 10 ^ nat (t + 6) = 10 ^ 6" by (simp only: flip: power_add)
    with multiple_at_sound [OF assms(1)] double_scale [of "10 ^ nat (t + 6)" c "10 ^ nat (- t)"] False show ?thesis by simp
  qed

theorem shortest_amount:
  assumes "n < exact_limit"
  shows "\<exists>c t. shortest (double_of n (10 ^ 6)) = Some (c, t) \<and> - 6 \<le> t \<and> c * 10 ^ nat (t + 6) = n"
proof -
  define x where "x = double_of n (10 ^ 6)"
  have "x div 2 ^ 80 < 10 ^ 10" using double_amount(3) [OF assms, folded x_def] by (simp add: div_less_iff_less_mult)
  then have "dec_len (x div 2 ^ 80) \<le> 10" by (rule dec_len_le)
  then have "- 6 \<le> int (dec_len (x div 2 ^ 80))" "nat (int (dec_len (x div 2 ^ 80)) - - 6) < 25" by linarith+
  from shortest_from_Some [OF multiple_at_satoshi [OF assms, folded x_def] this]
  obtain c t where c: "shortest x = Some (c, t)" "- 6 \<le> t" "multiple_at x t = Some c"
    unfolding shortest_def by blast
  have "double_of (c * 10 ^ nat (t + 6)) (10 ^ 6) = x" using c(3,2) by (rule multiple_at_double)
  then have "c * 10 ^ nat (t + 6) = n" using double_inj [OF assms] by (simp add: x_def)
  with c show ?thesis by (auto simp: x_def)
qed

section \<open>The text of an amount\<close>

text \<open>A whole number below \<open>10^16\<close> is printed with its digits and a point and a zero, a larger one with an exponent.\<close>

definition printed :: "bool \<Rightarrow> nat \<Rightarrow> decimal" where
  "printed neg x =
     (case shortest x of
        None \<Rightarrow> \<lparr>dec_neg = neg, dec_coeff = 0, dec_exp = - 1\<rparr>
      | Some (c, t) \<Rightarrow>
          if 0 \<le> t \<and> c * 10 ^ nat t < 10 ^ 16 then \<lparr>dec_neg = neg, dec_coeff = c * 10 ^ Suc (nat t), dec_exp = - 1\<rparr>
          else \<lparr>dec_neg = neg, dec_coeff = c, dec_exp = t\<rparr>)"

text \<open>
  \<open>from_satoshi_float(n)\<close>, as the decimal it prints as: the quotient by \<open>10^6\<close> in a context of 28 digits, the nearest double,
  its text. (Amounts beyond the doubles, which would be infinite, are beyond every range here.)
\<close>

definition sat_decimal :: "int \<Rightarrow> decimal" where
  "sat_decimal n = printed (n < 0) (double_of (round28 (nat \<bar>n\<bar>)) (10 ^ 6))"

lemma scale_down_value:
  assumes "d = \<lparr>dec_neg = neg, dec_coeff = c, dec_exp = t\<rparr>" "c < 10 ^ 22" "t < 0" "- 7 \<le> t" "c * 10 ^ nat (t + 7) = 10 * n" "n < 10 ^ 28"
  shows "scale_down d = Inr (if neg then - int n else int n)"
proof -
  have "c * 1000000 < 10 ^ 28" using assms(2) by simp
  then have "round28 (c * 1000000) = c * 1000000" by (rule round28_small)
  moreover have "c * 1000000 div 10 ^ nat (- t) = n"
  proof -
    have "nat (- t) + nat (t + 7) = 7" using assms(3,4) by linarith
    then have "(10 :: nat) ^ 7 = 10 ^ nat (- t) * 10 ^ nat (t + 7)" by (simp only: flip: power_add)
    then have "c * 1000000 * 10 ^ nat (t + 7) = n * 10 ^ nat (- t) * 10 ^ nat (t + 7)" using assms(5) by (simp add: ac_simps)
    then have "c * 1000000 = n * 10 ^ nat (- t)" by simp
    then show ?thesis by simp
  qed
  moreover have "dec_len n \<le> 28" using assms(6) by (rule dec_len_le)
  ultimately show ?thesis using assms(1,3) by (auto simp: scale_down_def Let_def)
qed

text \<open>Below the limit the float of an amount says what it is.\<close>

lemma scale_down_sat:
  assumes "\<bar>n\<bar> < int exact_limit"
  shows "scale_down (sat_decimal n) = Inr n"
proof -
  define m where "m = nat \<bar>n\<bar>"
  have m: "m < exact_limit" using assms by (simp add: m_def)
  then have "m < 10 ^ 28" by (simp add: exact_limit_def)
  then have "round28 m = m" by (rule round28_small)
  from shortest_amount [OF m] obtain c t where c: "shortest (double_of m (10 ^ 6)) = Some (c, t)" "- 6 \<le> t" "c * 10 ^ nat (t + 6) = m"
    by blast
  have n: "n = (if n < 0 then - int m else int m)" by (simp add: m_def)
  have "1 \<le> (10 :: nat) ^ nat (t + 6)" by simp
  then have "c \<le> m" unfolding c(3) [symmetric] by simp
  have "scale_down (sat_decimal n) = Inr (if n < 0 then - int m else int m)"
  proof (cases "0 \<le> t")
    case True
    then have whole: "c * 10 ^ nat t * 1000000 = m" using c(3) by (simp add: nat_add_distrib power_add)
    then have "c * 10 ^ nat t < 10 ^ 16" using m by (simp add: exact_limit_def)
    then have "sat_decimal n = \<lparr>dec_neg = n < 0, dec_coeff = c * 10 ^ Suc (nat t), dec_exp = - 1\<rparr>"
      using True c(1) \<open>round28 m = m\<close> by (simp add: sat_decimal_def printed_def m_def)
    then show ?thesis
      by (rule scale_down_value) (use whole m in \<open>simp_all add: exact_limit_def\<close>)
  next
    case False
    then have "sat_decimal n = \<lparr>dec_neg = n < 0, dec_coeff = c, dec_exp = t\<rparr>"
      using c(1) \<open>round28 m = m\<close> by (simp add: sat_decimal_def printed_def m_def)
    then show ?thesis
    proof (rule scale_down_value)
      have "nat (t + 7) = Suc (nat (t + 6))" using c(2) by (simp add: nat_add_distrib Suc_nat_eq_nat_zadd1)
      then show "c * 10 ^ nat (t + 7) = 10 * m" using c(3) by simp
    qed (use False c(2) \<open>c \<le> m\<close> m in \<open>simp_all add: exact_limit_def\<close>)
  qed
  with n show ?thesis by simp
qed

text \<open>From the limit on it may say another amount.\<close>

lemma double_of_numeral:
  "double_of n d = (let m = n * 2 ^ 80; k = bit_len (m div d) - 53; u = d * 2 ^ k; q = m div u; r = m mod u
      in (if 2 * r > u \<or> (2 * r = u \<and> odd q) then q + 1 else q) * 2 ^ k)"
  by (simp add: double_of_def quotient53_def Let_def)

lemma large_double:
  assumes "double_of m (10 ^ 6) = 10384593717069657562904001872134144"
  shows "m \<in> {8589934592000001, 8589934592000002}"
proof -
  define u where "u = (2 :: nat) ^ (bit_len (m * 2 ^ 80 div 10 ^ 6) - 53)"
  have "m * 2 ^ 80 div 10 ^ 6 < 2 ^ 114"
  proof (rule ccontr)
    assume "\<not> m * 2 ^ 80 div 10 ^ 6 < 2 ^ 114"
    then have "10 ^ 6 * 2 ^ 114 \<le> m * 2 ^ 80" by (simp add: div_less_iff_less_mult)
    then have "2 ^ 114 \<le> double_of m (10 ^ 6)" unfolding double_of_def by (rule quotient53_above) simp_all
    with assms show False by simp
  qed
  then have "bit_len (m * 2 ^ 80 div 10 ^ 6) \<le> 114" by (rule bit_len_le)
  then have "u \<le> 2 ^ 61" unfolding u_def by (intro power_increasing) simp_all
  moreover note quotient53_near [of "10 ^ 6" "m * 2 ^ 80", folded u_def double_of_def, unfolded assms]
  ultimately have "8589934592000001 \<le> m" "m \<le> 8589934592000002" by simp_all
  then show ?thesis by auto
qed

lemma large_amount_changes: "scale_down (sat_decimal 8589934592000001) = Inr 8589934592000002"
proof -
  let ?x = "10384593717069657562904001872134144"
  have six: "multiple_at ?x (- 6) = Some 8589934592000002"
    by (simp add: multiple_at_def double_of_numeral bit_len_numeral Let_def)
  have "dec_len (?x div 2 ^ 80) \<le> 10" by (rule dec_len_le) simp
  then have "- 6 \<le> int (dec_len (?x div 2 ^ 80))" "nat (int (dec_len (?x div 2 ^ 80)) - - 6) < 25" by linarith+
  from shortest_from_Some [OF _ this] six
  obtain c t where c: "shortest ?x = Some (c, t)" "- 6 \<le> t" "multiple_at ?x t = Some c"
    unfolding shortest_def by blast
  have m: "c * 10 ^ nat (t + 6) \<in> {8589934592000001, 8589934592000002}"
    using multiple_at_double [OF c(3,2)] by (rule large_double)
  have "t = - 6"
  proof (rule ccontr)
    assume "t \<noteq> - 6"
    with c(2) have "nat (t + 6) \<noteq> 0" by simp
    then have "10 dvd c * 10 ^ nat (t + 6)" by (simp add: dvd_power)
    with m show False by auto
  qed
  with c six have "shortest ?x = Some (8589934592000002, - 6)" by simp
  moreover have "double_of 8589934592000001 1000000 = ?x" by (simp add: double_of_numeral bit_len_numeral)
  ultimately have "sat_decimal 8589934592000001 = \<lparr>dec_neg = False, dec_coeff = 8589934592000002, dec_exp = - 6\<rparr>"
    by (simp add: sat_decimal_def printed_def round28_small)
  then show ?thesis by (simp add: scale_down_def round28_small Let_def dec_len_of)
qed

end
