(* ===== verification/Merkle.thy ===== *)
theory Merkle
  imports Prelude
begin

text \<open>
  Merkle trees over strings: the Python bodies of \<open>merkle_root\<close>, \<open>generate_proof\<close>, \<open>verify_proof\<close> and
  \<open>merkle_root_from_proof\<close> of \<open>src/crypto/native.py\<close> (which \<open>src/crypto/merkle.py\<close> re-exports) and
  \<open>Hasher.merkle_root\<close> of \<open>src/crypto/hashing.py\<close>. The hash \<open>H\<close> of a string (\<open>hash_data\<close>: the hexadecimal SHA-256
  of its UTF-8 form) is a parameter; what is used of it is that all hashes have one length. A proof is complete,
  and whoever proves another item at the same depth exhibits two strings with one hash, found among the strings the
  two computations hash. Two weaknesses of the construction are shown: a duplicated last item and an inner node
  passed off as an item.
\<close>

section \<open>The tree\<close>

text \<open>One step of the loops: the last entry is doubled when the number is odd, and neighbours are hashed together.\<close>

definition pad_layer :: "string list \<Rightarrow> string list" where
  "pad_layer layer = (if odd (length layer) then layer @ [last layer] else layer)"

fun pair_up :: "(string \<Rightarrow> string) \<Rightarrow> string list \<Rightarrow> string list" where
  "pair_up H (a # b # layer) = H (a @ b) # pair_up H layer"
| "pair_up H layer = []"

lemma length_pair_up [simp]: "length (pair_up H layer) = length layer div 2"
  by (induction H layer rule: pair_up.induct) auto

lemma length_pad [simp]: "length (pad_layer layer) div 2 = (length layer + 1) div 2"
  by (auto simp: pad_layer_def elim: oddE)

function merkle_reduce :: "(string \<Rightarrow> string) \<Rightarrow> string list \<Rightarrow> string list" where
  "merkle_reduce H layer =
     (if length layer > 1 then merkle_reduce H (pair_up H (pad_layer layer)) else layer)"
  by auto
termination
  by (relation "measure (\<lambda>(H, layer). length layer)") auto

declare merkle_reduce.simps [simp del]

definition merkle_root_strings :: "(string \<Rightarrow> string) \<Rightarrow> string list \<Rightarrow> string" where
  "merkle_root_strings H items = (if items = [] then H ''empty'' else merkle_reduce H (map H items) ! 0)"

text \<open>\<open>Hasher.merkle_root\<close>: the same loop over strings that are hashes already.\<close>

definition hasher_merkle_root :: "(string \<Rightarrow> string) \<Rightarrow> string list \<Rightarrow> string" where
  "hasher_merkle_root H hashes = (if hashes = [] then H ''empty'' else merkle_reduce H hashes ! 0)"

section \<open>Proofs\<close>

function proof_loop :: "(string \<Rightarrow> string) \<Rightarrow> string list \<Rightarrow> nat \<Rightarrow> string list" where
  "proof_loop H layer index =
     (if length layer > 1
      then (let padded = pad_layer layer;
                sibling_index = (if even index then index + 1 else index - 1)
            in (if sibling_index < length padded then [padded ! sibling_index] else [])
               @ proof_loop H (pair_up H padded) (index div 2))
      else [])"
  by auto
termination
  by (relation "measure (\<lambda>(H, layer, index). length layer)") auto

declare proof_loop.simps [simp del]

definition generate_proof :: "(string \<Rightarrow> string) \<Rightarrow> string list \<Rightarrow> int \<Rightarrow> string list" where
  "generate_proof H items target_index =
     (if target_index < 0 then []
      else if items = [] \<or> target_index \<ge> int (length items) then []
      else proof_loop H (map H items) (nat target_index))"

primrec proof_fold :: "(string \<Rightarrow> string) \<Rightarrow> string \<Rightarrow> string list \<Rightarrow> nat \<Rightarrow> string" where
  "proof_fold H current [] index = current"
| "proof_fold H current (sibling # proof) index =
     proof_fold H (H (if even index then current @ sibling else sibling @ current)) proof (index div 2)"

definition merkle_root_from_proof :: "(string \<Rightarrow> string) \<Rightarrow> string \<Rightarrow> string list \<Rightarrow> int \<Rightarrow> string" where
  "merkle_root_from_proof H item proof target_index =
     (if target_index < 0 then H item else proof_fold H (H item) proof (nat target_index))"

definition verify_proof :: "(string \<Rightarrow> string) \<Rightarrow> string \<Rightarrow> string list \<Rightarrow> string \<Rightarrow> int \<Rightarrow> bool" where
  "verify_proof H item proof expected_root target_index =
     (if target_index < 0 then False else merkle_root_from_proof H item proof target_index = expected_root)"

section \<open>Completeness\<close>

lemma pad_nth: "i < length layer \<Longrightarrow> pad_layer layer ! i = layer ! i"
  by (simp add: pad_layer_def nth_append)

lemma even_pad [simp]: "even (length (pad_layer layer))"
  by (simp add: pad_layer_def)

lemma pair_up_nth: "2 * j + 1 < length layer \<Longrightarrow> pair_up H layer ! j = H (layer ! (2 * j) @ layer ! (2 * j + 1))"
proof (induction H layer arbitrary: j rule: pair_up.induct)
  case (1 H a b layer)
  then show ?case by (cases j) auto
qed auto

text \<open>The node above position \<open>i\<close> and the sibling of \<open>i\<close>.\<close>

definition sib :: "nat \<Rightarrow> nat" where
  "sib i = (if even i then i + 1 else i - 1)"

lemma padded_bounds:
  assumes "i < length layer"
  shows "i < length (pad_layer layer)" "sib i < length (pad_layer layer)" "2 * (i div 2) + 1 < length (pad_layer layer)"
proof -
  have le: "length layer \<le> length (pad_layer layer)" by (simp add: pad_layer_def)
  with assms show i: "i < length (pad_layer layer)" by simp
  obtain m where m: "length (pad_layer layer) = 2 * m" using even_pad by (rule evenE)
  from i m show "sib i < length (pad_layer layer)" by (auto simp: sib_def elim!: evenE oddE)
  from i m show "2 * (i div 2) + 1 < length (pad_layer layer)" by presburger
qed

lemma above:
  assumes "i < length layer"
  shows "pair_up H (pad_layer layer) ! (i div 2)
    = H (if even i then pad_layer layer ! i @ pad_layer layer ! sib i else pad_layer layer ! sib i @ pad_layer layer ! i)"
    "i div 2 < length (pair_up H (pad_layer layer))"
proof -
  show "pair_up H (pad_layer layer) ! (i div 2)
      = H (if even i then pad_layer layer ! i @ pad_layer layer ! sib i else pad_layer layer ! sib i @ pad_layer layer ! i)"
    using pair_up_nth [OF padded_bounds(3) [OF assms], of H] by (auto simp: sib_def elim!: evenE oddE)
  show "i div 2 < length (pair_up H (pad_layer layer))" using assms by simp
qed

lemma proof_loop_step:
  assumes "length layer > 1" "i < length layer"
  shows "proof_loop H layer i = pad_layer layer ! sib i # proof_loop H (pair_up H (pad_layer layer)) (i div 2)"
  using assms padded_bounds(2) [OF assms(2)] by (subst proof_loop.simps) (simp add: sib_def Let_def)

lemma proof_folds_to_root:
  "i < length layer \<Longrightarrow> proof_fold H (layer ! i) (proof_loop H layer i) i = merkle_reduce H layer ! 0"
proof (induction H layer arbitrary: i rule: merkle_reduce.induct)
  case (1 H layer)
  show ?case
  proof (cases "length layer > 1")
    case True
    have "proof_fold H (layer ! i) (proof_loop H layer i) i
        = proof_fold H (pair_up H (pad_layer layer) ! (i div 2)) (proof_loop H (pair_up H (pad_layer layer)) (i div 2)) (i div 2)"
      using 1(2) True by (simp add: proof_loop_step above(1) pad_nth)
    also have "\<dots> = merkle_reduce H (pair_up H (pad_layer layer)) ! 0"
      using above(2) [OF 1(2)] by (rule 1(1) [OF True])
    finally show ?thesis using True by (simp add: merkle_reduce.simps [of H layer])
  next
    case False
    with 1(2) have "i = 0" by simp
    with False show ?thesis by (simp add: merkle_reduce.simps [of H layer] proof_loop.simps [of H layer])
  qed
qed

section \<open>Soundness\<close>

text \<open>The strings the root computation hashes above a layer, and those the check of a proof hashes.\<close>

function layer_hashed :: "(string \<Rightarrow> string) \<Rightarrow> string list \<Rightarrow> string set" where
  "layer_hashed H layer =
     (if length layer > 1
      then {pad_layer layer ! (2 * j) @ pad_layer layer ! (2 * j + 1) | j. 2 * j + 1 < length (pad_layer layer)}
        \<union> layer_hashed H (pair_up H (pad_layer layer))
      else {})"
  by auto
termination
  by (relation "measure (\<lambda>(H, layer). length layer)") auto

declare layer_hashed.simps [simp del]

primrec fold_hashed :: "(string \<Rightarrow> string) \<Rightarrow> string \<Rightarrow> string list \<Rightarrow> nat \<Rightarrow> string set" where
  "fold_hashed H current [] index = {}"
| "fold_hashed H current (sibling # proof) index =
     (let combined = (if even index then current @ sibling else sibling @ current)
      in insert combined (fold_hashed H (H combined) proof (index div 2)))"

definition collides :: "(string \<Rightarrow> string) \<Rightarrow> string set \<Rightarrow> string set \<Rightarrow> bool" where
  "collides H A B \<longleftrightarrow> (\<exists>x\<in>A. \<exists>y\<in>B. x \<noteq> y \<and> H x = H y)"

lemma collides_mono: "collides H A B \<Longrightarrow> A \<subseteq> A' \<Longrightarrow> B \<subseteq> B' \<Longrightarrow> collides H A' B'"
  by (auto simp: collides_def)

lemma pair_up_lengths: "(\<And>x. length (H x) = n) \<Longrightarrow> y \<in> set (pair_up H layer) \<Longrightarrow> length y = n"
  by (induction H layer rule: pair_up.induct) auto

lemma fold_sound:
  assumes "\<And>x. length (H x) = n" "\<forall>x\<in>set layer. length x = n" "i < length layer" "length current = n"
    and "length proof = length (proof_loop H layer i)"
    and "proof_fold H current proof i = merkle_reduce H layer ! 0"
  shows "current = layer ! i \<or> collides H (layer_hashed H layer) (fold_hashed H current proof i)"
  using assms
proof (induction H layer arbitrary: i current "proof" rule: merkle_reduce.induct)
  case (1 H layer)
  note n = 1(2) and lens0 = 1(3) and i = 1(4)
  show ?case
  proof (cases "length layer > 1")
    case True
    let ?pad = "pad_layer layer"
    let ?up = "pair_up H ?pad"
    from 1 True obtain s p where p: "proof = s # p" "length p = length (proof_loop H ?up (i div 2))"
      by (cases "proof") (simp_all add: proof_loop_step)
    define c where "c = (if even i then current @ s else s @ current)"
    define x where "x = (if even i then ?pad ! i @ ?pad ! sib i else ?pad ! sib i @ ?pad ! i)"
    have lens: "length y = n" if "y \<in> set ?pad" for y
    proof -
      have "last layer \<in> set layer" using True by (cases layer) auto
      with that lens0 show ?thesis by (auto simp: pad_layer_def split: if_splits)
    qed
    have up_lens: "\<forall>y\<in>set ?up. length y = n" using n by (blast intro: pair_up_lengths)
    have up: "?up ! (i div 2) = H x" "i div 2 < length ?up" using above [OF 1(4), of H] by (simp_all add: x_def)
    have x: "x \<in> layer_hashed H layer"
      using padded_bounds(3) [OF 1(4)] True
      by (subst layer_hashed.simps) (auto simp: x_def sib_def intro!: exI [of _ "i div 2"] elim!: evenE oddE)
    have cin: "c \<in> fold_hashed H current proof i" by (simp add: p c_def Let_def)
    have sub: "layer_hashed H ?up \<subseteq> layer_hashed H layer"
      "fold_hashed H (H c) p (i div 2) \<subseteq> fold_hashed H current proof i"
      using True by (subst (2) layer_hashed.simps, auto simp: p c_def Let_def)
    have "proof_fold H (H c) p (i div 2) = merkle_reduce H ?up ! 0"
      using 1(7) True by (simp add: p c_def merkle_reduce.simps [of H layer])
    from 1(1) [OF True n up_lens up(2) n p(2) this]
    have "H c = H x \<or> collides H (layer_hashed H ?up) (fold_hashed H (H c) p (i div 2))" by (simp add: up)
    then show ?thesis
    proof
      assume eq: "H c = H x"
      show ?thesis
      proof (cases "c = x")
        case True
        have "length (?pad ! i) = n" using lens padded_bounds(1) [OF 1(4)] by simp
        with True 1(5) have "current = ?pad ! i" by (auto simp: c_def x_def split: if_splits)
        then show ?thesis by (simp add: pad_nth 1(4))
      next
        case False
        then have "x \<noteq> c \<and> H x = H c" using eq by simp
        with x cin have "collides H (layer_hashed H layer) (fold_hashed H current proof i)"
          unfolding collides_def by (intro bexI [of _ x] bexI [of _ c])
        then show ?thesis ..
      qed
    qed (use sub collides_mono in blast)
  next
    case False
    with 1(4) have "layer = [layer ! i]" "i = 0" by (cases layer; simp)+
    with 1(6,7) False show ?thesis by (simp add: proof_loop.simps [of H layer] merkle_reduce.simps [of H layer])
  qed
qed

section \<open>What inclusion proofs show\<close>

text \<open>C33: An item is proved by the proof generated for its position, and by nothing else: if a proof of that length is
  accepted for another string at the position, then two different strings with one hash have been found, one among
  those the root was computed from and one among those the check hashed. All hashes have one length, as hexadecimal
  SHA-256 has.\<close>

theorem merkle_proof_sound_complete:
  assumes "\<And>x. length (H x) = n" "0 \<le> i" "i < int (length items)"
  shows "verify_proof H (items ! nat i) (generate_proof H items i) (merkle_root_strings H items) i
    \<and> (verify_proof H item proof (merkle_root_strings H items) i \<and> length proof = length (generate_proof H items i)
        \<and> item \<noteq> items ! nat i \<longrightarrow>
      collides H (set items \<union> layer_hashed H (map H items)) (insert item (fold_hashed H (H item) proof (nat i))))"
proof (intro conjI impI)
  have i: "nat i < length items" "items \<noteq> []" "\<not> int (length items) \<le> i" using assms(2,3) by auto
  then show "verify_proof H (items ! nat i) (generate_proof H items i) (merkle_root_strings H items) i"
    using proof_folds_to_root [of "nat i" "map H items" H] assms(2,3)
    by (simp add: verify_proof_def merkle_root_from_proof_def generate_proof_def merkle_root_strings_def)
  assume v: "verify_proof H item proof (merkle_root_strings H items) i
    \<and> length proof = length (generate_proof H items i) \<and> item \<noteq> items ! nat i"
  have "H item = map H items ! nat i \<or> collides H (layer_hashed H (map H items)) (fold_hashed H (H item) proof (nat i))"
    by (rule fold_sound [where n = n])
      (use assms v i in \<open>simp_all add: verify_proof_def merkle_root_from_proof_def generate_proof_def merkle_root_strings_def\<close>)
  then show "collides H (set items \<union> layer_hashed H (map H items)) (insert item (fold_hashed H (H item) proof (nat i)))"
  proof
    assume "H item = map H items ! nat i"
    then have "H (items ! nat i) = H item" using i by simp
    with v i(1) show ?thesis unfolding collides_def by (metis UnI1 insertI1 nth_mem)
  qed (rule collides_mono, auto)
qed

text \<open>A toy hash of length two, with which the tree of three items can be evaluated.\<close>

definition toy_hash :: "string \<Rightarrow> string" where
  "toy_hash s = [if even (length (filter (\<lambda>c. c = CHR ''b'') s)) then CHR ''a'' else CHR ''b'', CHR ''.'']"

theorem merkle_proof_sound_complete_witness:
  "verify_proof toy_hash ''b'' (generate_proof toy_hash [''a'', ''b'', ''c''] 1) (merkle_root_strings toy_hash [''a'', ''b'', ''c'']) 1
   \<and> \<not> verify_proof toy_hash ''x'' (generate_proof toy_hash [''a'', ''b'', ''c''] 1) (merkle_root_strings toy_hash [''a'', ''b'', ''c'']) 1"
proof -
  have "\<And>x. length (toy_hash x) = 2" by (simp add: toy_hash_def)
  from merkle_proof_sound_complete [OF this, of 1 "[''a'', ''b'', ''c'']"]
  have "verify_proof toy_hash ''b'' (generate_proof toy_hash [''a'', ''b'', ''c''] 1) (merkle_root_strings toy_hash [''a'', ''b'', ''c'']) 1"
    by simp
  moreover have "\<not> verify_proof toy_hash ''x'' (generate_proof toy_hash [''a'', ''b'', ''c''] 1) (merkle_root_strings toy_hash [''a'', ''b'', ''c'']) 1"
    by code_simp
  ultimately show ?thesis ..
qed

text \<open>Doubling the last of an odd number of items, more than one, does not change the root.\<close>

lemma duplicated_last_same_root:
  assumes "odd (length xs)" "length xs > 1"
  shows "merkle_root_strings H (xs @ [last xs]) = merkle_root_strings H xs"
proof -
  have "xs \<noteq> []" using assms(2) by auto
  then have "pad_layer (map H xs) = map H (xs @ [last xs])" "pad_layer (map H (xs @ [last xs])) = map H (xs @ [last xs])"
    using assms by (simp_all add: pad_layer_def last_map)
  then show ?thesis
    using assms \<open>xs \<noteq> []\<close> by (simp add: merkle_root_strings_def merkle_reduce.simps [of H "map H xs"]
        merkle_reduce.simps [of H "map H xs @ [H (last xs)]"])
qed

text \<open>The concatenation below an inner node passes for an item, one level up.\<close>

lemma inner_node_verifies:
  assumes "0 \<le> i" "i < int (length items)" "length items > 1"
  shows "verify_proof H (let pad = pad_layer (map H items); j = 2 * (nat i div 2) in pad ! j @ pad ! (j + 1))
    (tl (generate_proof H items i)) (merkle_root_strings H items) (i div 2)"
proof -
  let ?up = "pair_up H (pad_layer (map H items))"
  have i: "nat i < length (map H items)" "length (map H items) > 1" "nat (i div 2) = nat i div 2"
    using assms by (simp_all add: nat_div_distrib)
  have "generate_proof H items i = proof_loop H (map H items) (nat i)" using assms by (auto simp: generate_proof_def)
  then have "tl (generate_proof H items i) = proof_loop H ?up (nat i div 2)" by (simp add: proof_loop_step [OF i(2,1)])
  moreover have "merkle_root_strings H items = merkle_reduce H ?up ! 0"
    using assms(3) by (auto simp: merkle_root_strings_def merkle_reduce.simps [of H "map H items"])
  moreover have "H (let pad = pad_layer (map H items); j = 2 * (nat i div 2) in pad ! j @ pad ! (j + 1)) = ?up ! (nat i div 2)"
    using pair_up_nth [OF padded_bounds(3) [OF i(1)], of H] by (simp add: Let_def)
  ultimately show ?thesis
    using proof_folds_to_root [OF above(2) [OF i(1), of H], of H] assms(1) i(3)
    by (simp add: verify_proof_def merkle_root_from_proof_def)
qed

end
