(* ===== verification/ChainTypes.thy ===== *)
theory ChainTypes
  imports FeePlan FloatText Merkle "HOL-Library.List_Lexorder" "HOL-Library.Char_ord"
begin

text \<open>
  Transactions and blocks of \<open>src/core/blockchain.py\<close>: their constructors with every check, the fields a block hash
  commits to, and reading back from a dictionary what \<open>to_dict\<close> wrote. A value is a float, here the decimal it prints as. The
  floats \<open>fee\<close> and \<open>burned\<close> are \<open>from_satoshi_float\<close> of a number of satoshi, which stands for them; reading them back takes the
  number through the float (\<open>sat_decimal\<close>). The display float \<open>total_burned\<close> is the sum of the numbers, without the rounding of
  its float additions.
  The text that is hashed has every float as its number of satoshi, so the amount of a transaction is hashed as that number
  (left where the conversion, and so the hash, raises).
  The hash functions are parameters.
\<close>

section \<open>Transactions\<close>

record transaction =
  ct_hash :: string
  ct_from :: string
  ct_to :: string
  ct_value :: decimal
  ct_nonce :: int
  ct_gas :: int
  ct_data :: string
  ct_signature :: string
  ct_public_key :: string
  ct_timestamp :: int
  ct_amount :: "int option"
  ct_block_height :: int
  ct_gas_used :: int
  ct_fee :: int
  ct_burned :: int
  ct_status :: "int option"

text \<open>
  The constructor, on a record of its arguments; \<open>now\<close> is the clock it reads when no time stamp is given, \<open>thash\<close> the hash
  of the transaction.
\<close>

definition transaction_init :: "(transaction \<Rightarrow> string) \<Rightarrow> int \<Rightarrow> transaction \<Rightarrow> string + transaction" where
  "transaction_init thash now a =
     (if ct_gas a \<le> 0 then Inl ''gas_required''
      else
        bind_sum
          (case ct_amount a of
             None \<Rightarrow> Inr ()
           | Some s \<Rightarrow>
               if s < 0 then Inl ''value_negative''
               else bind_sum (scale_down (ct_value a)) (\<lambda>v. if v \<noteq> s then Inl ''value_satoshi_mismatch'' else Inr ()))
          (\<lambda>_. let t = a\<lparr>ct_timestamp := (if ct_timestamp a = 0 then now else ct_timestamp a), ct_block_height := 0,
                         ct_gas_used := ct_gas a, ct_fee := 0, ct_burned := 0, ct_status := None\<rparr>
               in Inr (t\<lparr>ct_hash := str_or (ct_hash a) (thash t)\<rparr>)))"

text \<open>\<open>Transaction.from_dict\<close> of what \<open>to_dict\<close> wrote.\<close>

definition reload_transaction :: "(transaction \<Rightarrow> string) \<Rightarrow> int \<Rightarrow> transaction \<Rightarrow> string + transaction" where
  "reload_transaction thash now t =
     (if ct_gas t \<le> 0 then Inl ''gas_required''
      else
        bind_sum
          (case ct_amount t of
             Some s \<Rightarrow>
               if s < 0 then Inl ''value_negative''
               else
                 bind_sum (scale_down (ct_value t)) (\<lambda>v. bind_sum (scale_down (sat_decimal v)) (\<lambda>v'.
                   if v' \<noteq> s then Inl ''value_satoshi_mismatch'' else Inr (sat_decimal s)))
           | None \<Rightarrow> bind_sum (scale_down (ct_value t)) (\<lambda>v. Inr (sat_decimal v)))
          (\<lambda>value. bind_sum (transaction_init thash now (t\<lparr>ct_value := value\<rparr>)) (\<lambda>t'.
             bind_sum (scale_down (sat_decimal (ct_fee t))) (\<lambda>fee.
             bind_sum (scale_down (sat_decimal (ct_burned t))) (\<lambda>burned.
               Inr (t'\<lparr>ct_gas_used := ct_gas_used t, ct_fee := fee, ct_burned := burned,
                       ct_block_height := ct_block_height t, ct_status := ct_status t\<rparr>))))))"

text \<open>\<open>resolve_tx_value_satoshi(tx)\<close>, and the fee plans the chain asks for.\<close>

definition tx_value_satoshi :: "transaction \<Rightarrow> string + int" where
  "tx_value_satoshi t = resolve_value_satoshi (ct_value t) (ct_amount t)"

section \<open>Blocks\<close>

record block =
  bk_height :: int
  bk_parent :: string
  bk_miner :: string
  bk_txs :: "transaction list"
  bk_timestamp :: int
  bk_extra :: string
  bk_state_root :: string
  bk_tx_root :: string
  bk_tx_count :: int
  bk_gas_used :: int
  bk_total_burned :: int
  bk_hash :: string

record canonical_tx =
  cn_hash :: string
  cn_from :: string
  cn_to :: string
  cn_amount :: "string + int"
  cn_fee :: "string + int"
  cn_nonce :: int
  cn_timestamp :: int

record canonical_block =
  cb_height :: int
  cb_parent :: string
  cb_miner :: string
  cb_timestamp :: int
  cb_extra :: string
  cb_state_root :: string
  cb_txs :: "canonical_tx list"

record account_row =
  ar_balance :: int
  ar_nonce :: int
  ar_code :: "string option"
  ar_storage :: "string option"

record chain_hashes =
  hs_tx :: "transaction \<Rightarrow> string"
  hs_block :: "canonical_block \<Rightarrow> string"
  hs_digest :: "string \<Rightarrow> string"
  hs_state :: "(string \<times> account_row) list \<Rightarrow> string"

definition canonical_tx_of :: "transaction \<Rightarrow> canonical_tx" where
  "canonical_tx_of t = \<lparr>cn_hash = ct_hash t, cn_from = ct_from t, cn_to = ct_to t, cn_amount = scale_down (ct_value t),
     cn_fee = scale_down (sat_decimal (ct_fee t)), cn_nonce = ct_nonce t, cn_timestamp = ct_timestamp t\<rparr>"

definition canonical_block_of :: "block \<Rightarrow> canonical_block" where
  "canonical_block_of b = \<lparr>cb_height = bk_height b, cb_parent = bk_parent b, cb_miner = bk_miner b, cb_timestamp = bk_timestamp b,
     cb_extra = bk_extra b, cb_state_root = bk_state_root b, cb_txs = map canonical_tx_of (sort_key ct_hash (bk_txs b))\<rparr>"

definition block_hash_of :: "chain_hashes \<Rightarrow> block \<Rightarrow> string" where
  "block_hash_of hs b = hs_block hs (canonical_block_of b)"

definition tx_root_of :: "chain_hashes \<Rightarrow> transaction list \<Rightarrow> string" where
  "tx_root_of hs txs = merkle_root_strings (hs_digest hs) (if txs = [] then [''empty''] else map ct_hash txs)"

definition block_init :: "chain_hashes \<Rightarrow> int \<Rightarrow> int \<Rightarrow> string \<Rightarrow> string \<Rightarrow> transaction list \<Rightarrow> int \<Rightarrow> string \<Rightarrow> string \<Rightarrow> string \<Rightarrow> block" where
  "block_init hs now height parent miner txs timestamp block_hash extra state_root =
     (let b = \<lparr>bk_height = height, bk_parent = parent, bk_miner = miner, bk_txs = txs,
               bk_timestamp = (if timestamp = 0 then now else timestamp), bk_extra = extra, bk_state_root = state_root,
               bk_tx_root = tx_root_of hs txs, bk_tx_count = int (length txs), bk_gas_used = sum_list (map ct_gas_used txs),
               bk_total_burned = sum_list (map ct_burned txs), bk_hash = block_hash\<rparr>
      in b\<lparr>bk_hash := str_or block_hash (block_hash_of hs b)\<rparr>)"

fun map_sum :: "('a \<Rightarrow> 'e + 'b) \<Rightarrow> 'a list \<Rightarrow> 'e + 'b list" where
  "map_sum f [] = Inr []"
| "map_sum f (x # xs) = bind_sum (f x) (\<lambda>y. bind_sum (map_sum f xs) (\<lambda>ys. Inr (y # ys)))"

text \<open>\<open>Block.from_dict\<close> of what \<open>to_dict\<close> wrote.\<close>

definition reload_block :: "chain_hashes \<Rightarrow> int \<Rightarrow> block \<Rightarrow> string + block" where
  "reload_block hs now b =
     bind_sum (map_sum (reload_transaction (hs_tx hs) now) (bk_txs b)) (\<lambda>txs.
       Inr ((block_init hs now (bk_height b) (bk_parent b) (bk_miner b) txs (bk_timestamp b) (bk_hash b) (bk_extra b)
               (bk_state_root b))\<lparr>bk_total_burned := bk_total_burned b\<rparr>))"

section \<open>What reading back changes\<close>

lemma map_sum_length: "map_sum f xs = Inr ys \<Longrightarrow> length ys = length xs"
  by (induction xs arbitrary: ys) (auto simp: bind_sum_Inr)

lemma map_sum_Inr: "map_sum f xs = Inr ys \<longleftrightarrow> list_all2 (\<lambda>x y. f x = Inr y) xs ys"
  by (induction xs arbitrary: ys) (auto simp: bind_sum_Inr list_all2_Cons1)

text \<open>
  A block hash commits to the hash, the parties, the amount, the fee and the nonce of a transaction, not to its data, its gas
  limit, its signature or its key.
\<close>

lemma hash_ignores_data:
  "block_hash_of hs (b\<lparr>bk_txs := map (\<lambda>t. t\<lparr>ct_data := d, ct_gas := g, ct_signature := s, ct_public_key := k\<rparr>) txs\<rparr>)
     = block_hash_of hs (b\<lparr>bk_txs := txs\<rparr>)"
proof -
  have "sort_key ct_hash (map (\<lambda>t. t\<lparr>ct_data := d, ct_gas := g, ct_signature := s, ct_public_key := k\<rparr>) txs)
     = map (\<lambda>t. t\<lparr>ct_data := d, ct_gas := g, ct_signature := s, ct_public_key := k\<rparr>) (sort_key ct_hash txs)"
  proof (induction txs)
    case (Cons t txs)
    have ins: "insort_key ct_hash (t\<lparr>ct_data := d, ct_gas := g, ct_signature := s, ct_public_key := k\<rparr>)
         (map (\<lambda>t. t\<lparr>ct_data := d, ct_gas := g, ct_signature := s, ct_public_key := k\<rparr>) xs)
       = map (\<lambda>t. t\<lparr>ct_data := d, ct_gas := g, ct_signature := s, ct_public_key := k\<rparr>) (insort_key ct_hash t xs)" for xs
      by (induction xs) simp_all
    show ?case by (simp add: Cons ins)
  qed simp
  moreover have "canonical_tx_of (t\<lparr>ct_data := d, ct_gas := g, ct_signature := s, ct_public_key := k\<rparr>) = canonical_tx_of t" for t
    by (simp add: canonical_tx_of_def)
  ultimately show ?thesis by (simp add: block_hash_of_def canonical_block_of_def comp_def)
qed

text \<open>C40: a transaction of less than 2^33 coins survives storage. What the constructor accepted, with whatever applying it
  wrote into the receipt fields since, is read back with its value rounded down to whole satoshi and every other field as it was,
  and it still moves the same number of satoshi and enters a block hash alike. The floats of the program give an amount below
  2^33 coins back exactly, and the next one above no more (large_amount_refused).\<close>

theorem stored_transaction_same:
  assumes "transaction_init thash now a = Inr t0" "now \<noteq> 0" "ct_hash t0 \<noteq> []"
    and "scale_down (ct_value a) = Inr v" "\<bar>v\<bar> < 2 ^ 33 * 1000000" "\<bar>f\<bar> < 2 ^ 33 * 1000000" "\<bar>b\<bar> < 2 ^ 33 * 1000000"
    and "t = t0\<lparr>ct_fee := f, ct_burned := b, ct_gas_used := g, ct_block_height := h, ct_status := st\<rparr>"
    and "now' \<noteq> 0"
  shows "reload_transaction thash now' t = Inr (t\<lparr>ct_value := sat_decimal v\<rparr>)
     \<and> tx_value_satoshi (t\<lparr>ct_value := sat_decimal v\<rparr>) = tx_value_satoshi t \<and> tx_value_satoshi t = Inr v
     \<and> canonical_tx_of (t\<lparr>ct_value := sat_decimal v\<rparr>) = canonical_tx_of t"
proof -
  have gas: "\<not> ct_gas a \<le> 0" using assms(1) by (auto simp: transaction_init_def split: if_splits)
  have amount: "s = v \<and> \<not> s < 0" if "ct_amount a = Some s" for s
    using assms(1,4) gas that by (auto simp: transaction_init_def split: if_splits)
  obtain ts hh where t0: "t0 = a\<lparr>ct_timestamp := ts, ct_block_height := 0, ct_gas_used := ct_gas a, ct_fee := 0, ct_burned := 0,
      ct_status := None, ct_hash := hh\<rparr>" "ts \<noteq> 0"
  proof
    let ?ts = "if ct_timestamp a = 0 then now else ct_timestamp a"
    show "t0 = a\<lparr>ct_timestamp := ?ts, ct_block_height := 0, ct_gas_used := ct_gas a, ct_fee := 0, ct_burned := 0,
      ct_status := None, ct_hash := ct_hash t0\<rparr>"
      using assms(1) gas by (auto simp: transaction_init_def bind_sum_Inr Let_def)
    show "?ts \<noteq> 0" using assms(2) by simp
  qed
  have fields: "ct_value t = ct_value a" "ct_amount t = ct_amount a" "ct_gas t = ct_gas a" "ct_timestamp t \<noteq> 0" "ct_hash t \<noteq> []"
    "ct_fee t = f" "ct_burned t = b"
    using assms(3,8) t0 by simp_all
  have limit: "2 ^ 33 * 1000000 = int exact_limit" by (simp add: exact_limit_def)
  note sats = assms(5,6,7) [unfolded limit, THEN scale_down_sat]
  note sat = sats(1)
  have "reload_transaction thash now' t = Inr (t\<lparr>ct_value := sat_decimal v\<rparr>)"
  proof (cases "ct_amount a")
    case None
    then show ?thesis using fields gas assms(4) sats
      by (simp add: reload_transaction_def transaction_init_def Let_def str_or_def)
  next
    case (Some s)
    then show ?thesis using fields gas assms(4) amount [OF Some] sats
      by (simp add: reload_transaction_def transaction_init_def Let_def str_or_def)
  qed
  moreover have "tx_value_satoshi (t\<lparr>ct_value := sat_decimal v\<rparr>) = tx_value_satoshi t \<and> tx_value_satoshi t = Inr v"
    using fields assms(4) amount sat by (cases "ct_amount a") (auto simp: tx_value_satoshi_def resolve_value_satoshi_def)
  moreover have "canonical_tx_of (t\<lparr>ct_value := sat_decimal v\<rparr>) = canonical_tx_of t"
    using fields assms(4) sat by (simp add: canonical_tx_of_def)
  ultimately show ?thesis by simp
qed

definition demo_transfer :: transaction where
  "demo_transfer = \<lparr>ct_hash = ''h'', ct_from = ''0xa'', ct_to = ''0xb'', ct_value = \<lparr>dec_neg = False, dec_coeff = 25, dec_exp = - 7\<rparr>,
     ct_nonce = 0, ct_gas = 21000, ct_data = [], ct_signature = [], ct_public_key = [], ct_timestamp = 7, ct_amount = None,
     ct_block_height = 0, ct_gas_used = 21000, ct_fee = 0, ct_burned = 0, ct_status = None\<rparr>"

lemma dust_value: "scale_down (ct_value demo_transfer) = Inr 2"
  by (simp add: demo_transfer_def scale_down_def round28_def Let_def dec_len_of)

lemma demo_transfer_init: "transaction_init thash now demo_transfer = Inr demo_transfer"
  by (simp add: transaction_init_def demo_transfer_def str_or_def)

lemma stored_transaction_same_witness:
  "reload_transaction (\<lambda>_. ''h'') 9 (demo_transfer\<lparr>ct_fee := 3, ct_status := Some 1\<rparr>)
     = Inr (demo_transfer\<lparr>ct_fee := 3, ct_status := Some 1, ct_value := sat_decimal 2\<rparr>)"
  using stored_transaction_same [OF demo_transfer_init [of "\<lambda>_. ''h''" 9], where now' = 9 and f = 3 and b = 0 and g = 21000
      and h = 0 and st = "Some 1" and v = 2] dust_value
  by (simp add: demo_transfer_def)

text \<open>From \<open>2^33\<close> coins on, an amount may not have a float that reads back as it: one given in satoshi is refused.\<close>

lemma large_amount_refused:
  "transaction_init thash now (demo_transfer\<lparr>ct_value := sat_decimal 8589934592000001, ct_amount := Some 8589934592000001\<rparr>)
     = Inl ''value_satoshi_mismatch''"
  by (simp add: transaction_init_def demo_transfer_def large_amount_changes)

end
