(* ===== verification/PoolLocks.thy ===== *)
theory PoolLocks
  imports Prelude Registry
begin

text \<open>
  The genesis allocations of \<open>src/runtime/tokenomics.py\<close> and the locks on the system pools, \<open>PoolLockManager\<close> of
  \<open>src/runtime/pool_locks.py\<close>. The state is the value under the key \<open>pool_locks_state\<close> of the meta table, as this class
  writes it: every pool has its integer satoshi fields, and the floats beside them are for display and left out, with the
  names and the descriptions. A refusal is the reason up to the point where it starts to quote amounts.
\<close>

section \<open>Allocations\<close>

record alloc_pool =
  ap_id :: string
  ap_amount :: int
  ap_address :: string
  ap_locked :: bool
  ap_release :: string

definition default_founder :: string where
  "default_founder = ''0xbeb0962327d6f0ad8de263bd883bb184e88744a2''"

definition staking_addr :: string where
  "staking_addr = ''0xstaking0000000000000000000000000000001''"

text \<open>The products with the shares are exact in floating point.\<close>

definition build_allocations :: "string \<Rightarrow> alloc_pool list" where
  "build_allocations founder =
     [\<lparr>ap_id = ''founder'', ap_amount = 38454000, ap_address = str_or founder default_founder, ap_locked = False,
        ap_release = ''genesis''\<rparr>,
      \<lparr>ap_id = ''ecosystem'', ap_amount = 22100000, ap_address = ''0xecosystem000000000000000000000000000001'', ap_locked = True,
        ap_release = ''genesis''\<rparr>,
      \<lparr>ap_id = ''treasury'', ap_amount = 22100000, ap_address = ''0xtreasury00000000000000000000000000001'', ap_locked = True,
        ap_release = ''genesis''\<rparr>,
      \<lparr>ap_id = ''staking'', ap_amount = 27846000, ap_address = staking_addr, ap_locked = True, ap_release = ''staking''\<rparr>,
      \<lparr>ap_id = ''mining'', ap_amount = 110500000, ap_address = ''mining_pool'', ap_locked = False, ap_release = ''mining''\<rparr>]"

definition max_supply_abs :: int where
  "max_supply_abs = 221000000"

definition genesis_balances :: "string \<Rightarrow> (string \<times> int) list" where
  "genesis_balances founder =
     foldl (\<lambda>d p. if ap_release p = ''genesis'' then dset (ap_address p) (ap_amount p) d else d) [] (build_allocations founder)"

definition resolve_founder_address :: "string \<Rightarrow> string \<Rightarrow> string" where
  "resolve_founder_address founder miner = str_or founder (str_or miner default_founder)"

section \<open>Pools\<close>

record pool_info =
  pi_id :: string
  pi_locked :: bool
  pi_total :: int
  pi_released :: int
  pi_spent :: int
  pi_unlocked :: bool
  pi_votes :: "(string \<times> bool) list"

record pool_state =
  ps_pools :: "(string \<times> pool_info) list"
  ps_epochs :: int
  ps_last :: int

definition staking_release_epochs :: int where
  "staking_release_epochs = 100"

definition dao_vote_bps :: int where
  "dao_vote_bps = 5100"

text \<open>What \<open>_ensure_state\<close> writes when there is no state, and what \<open>_state\<close> reads.\<close>

definition new_pool :: "alloc_pool \<Rightarrow> pool_info" where
  "new_pool p = \<lparr>pi_id = ap_id p, pi_locked = ap_locked p, pi_total = ap_amount p * 1000000, pi_released = 0, pi_spent = 0,
     pi_unlocked = False, pi_votes = []\<rparr>"

definition fresh_pool_state :: "string \<Rightarrow> pool_state" where
  "fresh_pool_state founder =
     \<lparr>ps_pools = foldl (\<lambda>d p. if ap_id p \<in> {''ecosystem'', ''treasury'', ''staking''} then dset (ap_address p) (new_pool p) d else d)
        [] (build_allocations founder),
      ps_epochs = 0, ps_last = - 1\<rparr>"

definition ensure_pool_state :: "string \<Rightarrow> pool_state option \<Rightarrow> pool_state" where
  "ensure_pool_state founder st = (case st of Some s \<Rightarrow> s | None \<Rightarrow> fresh_pool_state founder)"

definition pool_state_of :: "pool_state option \<Rightarrow> pool_state" where
  "pool_state_of st = (case st of Some s \<Rightarrow> s | None \<Rightarrow> \<lparr>ps_pools = [], ps_epochs = 0, ps_last = - 1\<rparr>)"

definition is_system_pool :: "pool_state \<Rightarrow> string \<Rightarrow> bool" where
  "is_system_pool s a \<longleftrightarrow> dget (ps_pools s) a \<noteq> None"

definition pool_spendable :: "pool_info \<Rightarrow> int \<Rightarrow> int" where
  "pool_spendable i db_balance =
     (if pi_id i = ''staking'' then max 0 (max 0 (pi_released i) - max 0 (pi_spent i))
      else if pi_id i \<in> {''ecosystem'', ''treasury''} then
        (if \<not> pi_unlocked i then 0 else max 0 (max 0 (pi_total i) - max 0 (pi_spent i)))
      else max 0 db_balance)"

definition spendable_balance_sat :: "pool_state \<Rightarrow> string \<Rightarrow> int \<Rightarrow> int" where
  "spendable_balance_sat s a db_balance =
     (case dget (ps_pools s) a of None \<Rightarrow> max 0 db_balance | Some i \<Rightarrow> pool_spendable i db_balance)"

definition is_outgoing_allowed_sat :: "pool_state \<Rightarrow> string \<Rightarrow> int \<Rightarrow> int \<Rightarrow> bool \<times> string" where
  "is_outgoing_allowed_sat s a need db_sat =
     (case dget (ps_pools s) a of
        None \<Rightarrow> (True, ''ok'')
      | Some i \<Rightarrow>
          if need < 0 \<or> db_sat < 0 then (False, ''pool_amount_unparseable'')
          else if need > spendable_balance_sat s a db_sat then
            (if pi_id i \<in> {''ecosystem'', ''treasury''} \<and> \<not> pi_unlocked i then (False, pi_id i @ ''_dao_locked'')
             else if pi_id i = ''staking'' then (False, ''staking_locked'')
             else (False, ''pool_locked''))
          else (True, ''ok''))"

definition record_outgoing_sat :: "string \<Rightarrow> int \<Rightarrow> pool_state \<Rightarrow> string + pool_state" where
  "record_outgoing_sat a n s =
     (case dget (ps_pools s) a of
        None \<Rightarrow> Inr s
      | Some i \<Rightarrow>
          if n < 0 then Inl ''value_negative''
          else Inr (s\<lparr>ps_pools := dset a (i\<lparr>pi_spent := max 0 (max 0 (pi_spent i) + n)\<rparr>) (ps_pools s)\<rparr>))"

section \<open>Epochs\<close>

definition release_staking :: "pool_state \<Rightarrow> pool_state" where
  "release_staking s =
     (case dget (ps_pools s) staking_addr of
        None \<Rightarrow> s
      | Some i \<Rightarrow>
          (let total = max 0 (pi_total i); released = max 0 (pi_released i);
               new_released = (if ps_epochs s + 1 \<ge> staking_release_epochs then total
                               else min total (released + total div staking_release_epochs))
           in if ps_epochs s < staking_release_epochs
              then s\<lparr>ps_pools := dset staking_addr (i\<lparr>pi_released := max 0 new_released\<rparr>) (ps_pools s), ps_epochs := ps_epochs s + 1\<rparr>
              else s))"

definition on_epoch_boundary :: "int \<Rightarrow> pool_state \<Rightarrow> pool_state" where
  "on_epoch_boundary epoch s = (if epoch \<le> ps_last s then s else (release_staking s)\<lparr>ps_last := epoch\<rparr>)"

definition catch_up_epochs :: "int \<Rightarrow> pool_state \<Rightarrow> pool_state" where
  "catch_up_epochs current s = foldl (\<lambda>s e. on_epoch_boundary (int e) s) s [0..<nat (max 0 current) + 1]"

section \<open>Votes\<close>

record vote_answer =
  va_votes :: int
  va_validators :: int
  va_quorum :: bool
  va_unlocked :: bool

text \<open>The key of the voter: as it is, or the first one equal up to case.\<close>

definition resolve_voter :: "registry \<Rightarrow> string \<Rightarrow> string option" where
  "resolve_voter reg voter =
     (if dget reg voter \<noteq> None then Some voter else find (\<lambda>a. py_lower a = py_lower voter) (map fst reg))"

definition pool_with_id :: "pool_state \<Rightarrow> string \<Rightarrow> string option" where
  "pool_with_id s pid = map_option fst (find (\<lambda>(_, i). pi_id i = pid) (ps_pools s))"

definition dao_vote :: "string \<Rightarrow> string \<Rightarrow> registry option \<Rightarrow> pool_state \<Rightarrow> (string + vote_answer) \<times> pool_state" where
  "dao_vote pool_id voter reg s =
     (if pool_id \<notin> {''ecosystem'', ''treasury''} then (Inl ''invalid_pool'', s)
      else
        (case (case reg of None \<Rightarrow> Some voter | Some r \<Rightarrow> resolve_voter r voter) of
           None \<Rightarrow> (Inl ''not_a_validator'', s)
         | Some voter \<Rightarrow>
             (case pool_with_id s pool_id of
                None \<Rightarrow> (Inl ''pool_not_found'', s)
              | Some a \<Rightarrow>
                  (case dget (ps_pools s) a of
                     None \<Rightarrow> (Inl ''pool_not_found'', s)
                   | Some i \<Rightarrow>
                       (let votes = dset voter True (pi_votes i);
                            total = (case reg of None \<Rightarrow> 0 | Some r \<Rightarrow> int (length r));
                            quorum = (if total \<le> 0 then False else int (length votes) * 10000 \<ge> total * dao_vote_bps);
                            i1 = i\<lparr>pi_votes := votes\<rparr>;
                            i2 = (if quorum then i1\<lparr>pi_unlocked := True, pi_locked := False\<rparr> else i1)
                        in (Inr \<lparr>va_votes = int (length votes), va_validators = total, va_quorum = quorum, va_unlocked = pi_unlocked i2\<rparr>,
                            s\<lparr>ps_pools := dset a i2 (ps_pools s)\<rparr>))))))"

section \<open>Status\<close>

record pool_status =
  pst_address :: string
  pst_id :: string
  pst_total :: int
  pst_released :: int
  pst_spent :: int
  pst_spendable :: int
  pst_locked :: bool
  pst_unlocked :: bool
  pst_votes :: nat

definition pool_status_of :: "pool_state \<Rightarrow> pool_status list" where
  "pool_status_of s =
     map (\<lambda>(a, i). let spendable = spendable_balance_sat s a (max 0 (pi_total i))
       in \<lparr>pst_address = a, pst_id = pi_id i, pst_total = max 0 (pi_total i), pst_released = max 0 (pi_released i),
           pst_spent = max 0 (pi_spent i), pst_spendable = spendable, pst_locked = pi_locked i \<and> spendable \<le> 0,
           pst_unlocked = pi_unlocked i, pst_votes = length (pi_votes i)\<rparr>) (ps_pools s)"

section \<open>Runs\<close>

text \<open>An outgoing transfer is recorded, as a transfer applies it, after it was allowed.\<close>

datatype pool_event = PE_Epoch int | PE_Vote string string "registry option" | PE_Outgoing string int int

fun pool_step :: "pool_state \<Rightarrow> pool_event \<Rightarrow> pool_state" where
  "pool_step s (PE_Epoch e) = on_epoch_boundary e s"
| "pool_step s (PE_Vote p v reg) = snd (dao_vote p v reg s)"
| "pool_step s (PE_Outgoing a n db) =
     (if fst (is_outgoing_allowed_sat s a n db) then (case record_outgoing_sat a n s of Inr s' \<Rightarrow> s' | Inl _ \<Rightarrow> s) else s)"

text \<open>
  Nothing leaves the staking pool before it is released, and nothing leaves the two others before a vote unlocks them.
\<close>

definition pool_ok :: "int \<Rightarrow> string \<Rightarrow> pool_info \<Rightarrow> bool" where
  "pool_ok epochs a i \<longleftrightarrow>
     0 \<le> pi_spent i \<and> 0 \<le> pi_released i \<and> pi_released i \<le> pi_total i
     \<and> (pi_id i = ''staking'' \<longleftrightarrow> a = staking_addr)
     \<and> (if a = staking_addr
        then pi_spent i \<le> pi_released i \<and> pi_released i = (if epochs = 100 then pi_total i else epochs * (pi_total i div 100))
        else pi_id i \<in> {''ecosystem'', ''treasury''} \<and> pi_spent i \<le> (if pi_unlocked i then pi_total i else 0))"

definition pools_ok :: "pool_state \<Rightarrow> bool" where
  "pools_ok s \<longleftrightarrow> 0 \<le> ps_epochs s \<and> ps_epochs s \<le> 100 \<and> (\<forall>a i. dget (ps_pools s) a = Some i \<longrightarrow> pool_ok (ps_epochs s) a i)"

lemma pools_okD: "pools_ok s \<Longrightarrow> dget (ps_pools s) a = Some i \<Longrightarrow> pool_ok (ps_epochs s) a i"
  by (simp add: pools_ok_def)

lemma pools_ok_dset: "pools_ok s \<Longrightarrow> pool_ok (ps_epochs s) a i \<Longrightarrow> pools_ok (s\<lparr>ps_pools := dset a i (ps_pools s)\<rparr>)"
  by (simp add: pools_ok_def)

lemma fresh_ok: "pools_ok (fresh_pool_state founder)"
  by (simp add: fresh_pool_state_def build_allocations_def new_pool_def pools_ok_def pool_ok_def staking_addr_def)

lemma release_bound: "0 \<le> (t :: int) \<Longrightarrow> e < 100 \<Longrightarrow> e * (t div 100) + t div 100 \<le> t"
proof -
  assume "0 \<le> t" "e < 100"
  then have "(e + 1) * (t div 100) \<le> 100 * (t div 100)" by (intro mult_right_mono) simp_all
  then show ?thesis by (simp add: algebra_simps)
qed

lemma release_ok: "pools_ok s \<Longrightarrow> pools_ok (release_staking s)"
proof (cases "dget (ps_pools s) staking_addr")
  case (Some i)
  assume ok: "pools_ok s"
  from pools_okD [OF ok Some] have i: "pool_ok (ps_epochs s) staking_addr i" .
  show ?thesis
  proof (cases "ps_epochs s < 100")
    case True
    define r where "r = (if ps_epochs s + 1 \<ge> 100 then pi_total i else min (pi_total i) (pi_released i + pi_total i div 100))"
    have nn: "0 \<le> ps_epochs s" using ok by (simp add: pools_ok_def)
    have b: "ps_epochs s * (pi_total i div 100) + pi_total i div 100 \<le> pi_total i" "0 \<le> pi_total i"
      using i True release_bound [of "pi_total i" "ps_epochs s"] by (auto simp: pool_ok_def)
    have r: "r = (if ps_epochs s + 1 = 100 then pi_total i else (ps_epochs s + 1) * (pi_total i div 100))"
      using i True b by (auto simp: r_def pool_ok_def algebra_simps)
    have "pi_released i \<le> r" using i True b by (auto simp: r_def pool_ok_def)
    then have new: "pool_ok (ps_epochs s + 1) staking_addr (i\<lparr>pi_released := max 0 r\<rparr>)"
      using i r b True nn by (auto simp: pool_ok_def algebra_simps)
    have rel: "release_staking s = s\<lparr>ps_pools := dset staking_addr (i\<lparr>pi_released := max 0 r\<rparr>) (ps_pools s), ps_epochs := ps_epochs s + 1\<rparr>"
      using Some True i b by (simp add: release_staking_def Let_def r_def staking_release_epochs_def pool_ok_def)
    have "pool_ok (ps_epochs s + 1) a j" if "dget (dset staking_addr (i\<lparr>pi_released := max 0 r\<rparr>) (ps_pools s)) a = Some j" for a j
      using that new pools_okD [OF ok, of a j] by (cases "a = staking_addr") (simp_all add: pool_ok_def)
    then show ?thesis using rel True nn by (simp add: pools_ok_def)
  next
    case False
    then show ?thesis using ok Some by (simp add: release_staking_def Let_def staking_release_epochs_def)
  qed
qed (simp add: release_staking_def)

lemma epoch_ok: "pools_ok s \<Longrightarrow> pools_ok (on_epoch_boundary e s)"
  using release_ok [of s] by (simp add: on_epoch_boundary_def pools_ok_def)

lemma vote_ok: "pools_ok s \<Longrightarrow> pools_ok (snd (dao_vote p v reg s))"
  by (auto simp: dao_vote_def Let_def pool_ok_def intro!: pools_ok_dset dest: pools_okD split: option.splits if_splits)

lemma outgoing_ok:
  assumes ok: "pools_ok s" and allowed: "fst (is_outgoing_allowed_sat s a n db)" and rec: "record_outgoing_sat a n s = Inr s'"
  shows "pools_ok s'"
proof (cases "dget (ps_pools s) a")
  case None
  then show ?thesis using ok rec by (simp add: record_outgoing_sat_def)
next
  case (Some i)
  have i: "pool_ok (ps_epochs s) a i" using ok Some by (rule pools_okD)
  have n: "0 \<le> n" "n \<le> pool_spendable i db"
    using allowed Some by (auto simp: is_outgoing_allowed_sat_def spendable_balance_sat_def split: if_splits)
  have "pool_ok (ps_epochs s) a (i\<lparr>pi_spent := max 0 (max 0 (pi_spent i) + n)\<rparr>)"
    using i n by (auto simp: pool_ok_def pool_spendable_def split: if_splits)
  moreover have "s' = s\<lparr>ps_pools := dset a (i\<lparr>pi_spent := max 0 (max 0 (pi_spent i) + n)\<rparr>) (ps_pools s)\<rparr>"
    using rec Some by (simp add: record_outgoing_sat_def split: if_splits)
  ultimately show ?thesis using ok by (simp add: pools_ok_dset)
qed

lemma pool_step_ok: "pools_ok s \<Longrightarrow> pools_ok (pool_step s ev)"
  by (cases ev) (auto simp: epoch_ok vote_ok dest: outgoing_ok split: sum.splits)

interpretation pool_locks: component pool_step pools_ok
  by unfold_locales (rule pool_step_ok)

text \<open>C38: the pool locks hold over any run of epoch boundaries, votes and transfers that were allowed before they are
  recorded: of the staking pool at most the released part is spent, one hundredth of the total per epoch counted and the
  whole after the hundredth; of the two other pools nothing is spent before a vote unlocked them, and never more than their
  total.\<close>

theorem pool_locks_hold:
  assumes "dget (ps_pools (foldl pool_step (ensure_pool_state founder None) evs)) a = Some i"
  shows "if a = staking_addr
     then 0 \<le> pi_spent i \<and> pi_spent i \<le> pi_released i \<and> pi_released i \<le> pi_total i
        \<and> (let e = ps_epochs (foldl pool_step (ensure_pool_state founder None) evs)
           in pi_released i = (if e = 100 then pi_total i else e * (pi_total i div 100)))
     else 0 \<le> pi_spent i \<and> pi_spent i \<le> (if pi_unlocked i then pi_total i else 0)"
  using pools_okD [OF pool_locks.run_keeps [OF fresh_ok] , of founder evs a i] assms
  by (auto simp: ensure_pool_state_def pool_ok_def Let_def split: if_splits)

lemma pool_locks_hold_witness:
  "\<exists>i. dget (ps_pools (foldl pool_step (ensure_pool_state ''0xf'' None) [PE_Epoch 0, PE_Epoch 1, PE_Outgoing staking_addr 500000000000 0]))
          staking_addr = Some i
     \<and> pi_spent i = 500000000000 \<and> pi_released i = 556920000000
     \<and> (let e = ps_epochs (foldl pool_step (ensure_pool_state ''0xf'' None) [PE_Epoch 0, PE_Epoch 1, PE_Outgoing staking_addr 500000000000 0])
        in e = 2 \<and> pi_released i = e * (pi_total i div 100) \<and> pi_spent i \<le> pi_released i)"
proof -
  define s where "s = foldl pool_step (ensure_pool_state ''0xf'' None) [PE_Epoch 0, PE_Epoch 1, PE_Outgoing staking_addr 500000000000 0]"
  have e: "map_option (\<lambda>i. (pi_released i, pi_spent i)) (dget (ps_pools s) staking_addr) = Some (556920000000, 500000000000) \<and> ps_epochs s = 2"
    unfolding s_def by code_simp
  then obtain i where i: "dget (ps_pools s) staking_addr = Some i" "pi_released i = 556920000000" "pi_spent i = 500000000000" by auto
  from pool_locks_hold [of "''0xf''" "[PE_Epoch 0, PE_Epoch 1, PE_Outgoing staking_addr 500000000000 0]" staking_addr i] i e
  show ?thesis unfolding s_def by (auto simp: Let_def)
qed

section \<open>Notes\<close>

text \<open>
  The release of the staking pool is genuine bookkeeping, but the pool itself is never minted: only the allocations of
  release type \<open>genesis\<close> get a balance, and the staking pool has its own.
\<close>

lemma staking_pool_not_minted:
  "dget (genesis_balances founder) staking_addr = (if founder = staking_addr then Some 38454000 else None)"
  by (simp add: genesis_balances_def build_allocations_def staking_addr_def str_or_def default_founder_def)

text \<open>
  The votes of a pool are kept under the name the voter gave, without a registry too: two votes sent before the registry
  was wired make the quorum of the first vote of one validator out of five.
\<close>

definition plain_validator :: "string \<Rightarrow> string \<times> vstate" where
  "plain_validator a = (a, snd (hd (snd (register_validator a 1 []))))"

lemma votes_of_strangers_count:
  "(let r = map plain_validator [''0xa'', ''0xb'', ''0xc'', ''0xd'', ''0xe''];
        s = snd (dao_vote ''treasury'' ''nobody'' None (snd (dao_vote ''treasury'' ''no one'' None (fresh_pool_state ''0xf''))))
    in case fst (dao_vote ''treasury'' ''0xa'' (Some r) s) of Inr v \<Rightarrow> va_votes v = 3 \<and> va_validators v = 5 \<and> va_unlocked v | Inl _ \<Rightarrow> False)"
  by code_simp

end
