(* ===== verification/ChainStore.thy ===== *)
theory ChainStore
  imports ChainTypes PoolLocks
begin

text \<open>
  The SQLite store of the chain: the tables of \<open>src/storage/database.py\<close> the chain reads and writes (accounts, blocks, the
  meta keys, the active validators, the log of root mismatches) behind \<open>src/storage/adapters/rocks_adapter.py\<close>, the adapter
  \<open>open_storage\<close> puts around both engines. A connection has the tables as it sees them, the tables a rollback returns to,
  and whether a transaction is open: a statement that changes a table opens one, \<open>atomic\<close> opens one explicitly and fails
  when one is open, and every method that commits ends the transaction whatever it belongs to.

  A row keeps its balance in satoshi; the float column beside it is derived from that and left out, and a float a method is
  given stands as the satoshi it is converted to. A stored block is the block, its JSON text is
  not modelled, and neither are the index tables (transactions, receipts, audit, statistics) and failures of the engine.
\<close>

section \<open>Tables and transactions\<close>

record mismatch =
  mm_height :: int
  mm_peer :: string
  mm_computed :: string
  mm_proposer :: string

record tables =
  tb_accounts :: "(string \<times> account_row) list"
  tb_blocks :: "(int \<times> block) list"
  tb_pools :: "pool_state option"
  tb_founder :: "string option"
  tb_chain_tip :: "int option"
  tb_live_root :: "(string \<times> int) option"
  tb_validators :: "string list"
  tb_mismatches :: "mismatch list"

record store =
  st_live :: tables
  st_saved :: tables
  st_open :: bool

definition dml :: "(tables \<Rightarrow> tables) \<Rightarrow> store \<Rightarrow> store" where
  "dml f s = s\<lparr>st_live := f (st_live s), st_open := True\<rparr>"

definition commit :: "store \<Rightarrow> store" where
  "commit s = s\<lparr>st_saved := st_live s, st_open := False\<rparr>"

definition rollback :: "store \<Rightarrow> store" where
  "rollback s = s\<lparr>st_live := st_saved s, st_open := False\<rparr>"

definition begin_immediate :: "(store, string, unit) exs" where
  "begin_immediate s =
     (if st_open s then (Inl ''cannot start a transaction within a transaction'', s)
      else (Inr (), s\<lparr>st_saved := st_live s, st_open := True\<rparr>))"

section \<open>Accounts\<close>

definition new_row :: "int \<Rightarrow> int \<Rightarrow> account_row" where
  "new_row sat n = \<lparr>ar_balance = sat, ar_nonce = n, ar_code = None, ar_storage = None\<rparr>"

definition st_row :: "store \<Rightarrow> string \<Rightarrow> account_row option" where
  "st_row s a = dget (tb_accounts (st_live s)) a"

definition get_balance_satoshi :: "store \<Rightarrow> string \<Rightarrow> int" where
  "get_balance_satoshi s a = (case st_row s a of None \<Rightarrow> 0 | Some r \<Rightarrow> max 0 (ar_balance r))"

definition get_nonce :: "store \<Rightarrow> string \<Rightarrow> int" where
  "get_nonce s a = (case st_row s a of None \<Rightarrow> 0 | Some r \<Rightarrow> ar_nonce r)"

text \<open>\<open>get_account\<close> of the adapter, which strips the address.\<close>

definition get_account :: "store \<Rightarrow> string \<Rightarrow> account_row option" where
  "get_account s a = (if py_strip a = [] then None else st_row s (py_strip a))"

definition put_row :: "string \<Rightarrow> account_row \<Rightarrow> tables \<Rightarrow> tables" where
  "put_row a r t = t\<lparr>tb_accounts := dset a r (tb_accounts t)\<rparr>"

definition balance_delta_satoshi :: "string \<Rightarrow> int \<Rightarrow> store \<Rightarrow> store" where
  "balance_delta_satoshi a delta s =
     dml (put_row a (case st_row s a of
         None \<Rightarrow> new_row (apply_satoshi_delta 0 delta) 0
       | Some r \<Rightarrow> r\<lparr>ar_balance := apply_satoshi_delta (ar_balance r) delta\<rparr>)) s"

definition nonce_increment :: "string \<Rightarrow> store \<Rightarrow> store" where
  "nonce_increment a s =
     dml (put_row a (case st_row s a of None \<Rightarrow> new_row 0 1 | Some r \<Rightarrow> r\<lparr>ar_nonce := ar_nonce r + 1\<rparr>)) s"

definition increment_nonce :: "string \<Rightarrow> store \<Rightarrow> store" where
  "increment_nonce a s = commit (nonce_increment a s)"

text \<open>\<open>dual_write_balance\<close> on a balance in satoshi, and on a whole number of coins.\<close>

definition set_balance :: "string \<Rightarrow> int \<Rightarrow> store \<Rightarrow> store" where
  "set_balance a coins s =
     commit (dml (put_row a (case st_row s a of
         None \<Rightarrow> new_row (max 0 (coins * 1000000)) 0
       | Some r \<Rightarrow> r\<lparr>ar_balance := max 0 (coins * 1000000)\<rparr>)) s)"

definition save_account :: "string \<Rightarrow> int \<Rightarrow> int \<Rightarrow> string option \<Rightarrow> string option \<Rightarrow> store \<Rightarrow> store" where
  "save_account a sat n code storage s =
     commit (dml (put_row a \<lparr>ar_balance = max 0 sat, ar_nonce = n, ar_code = code, ar_storage = storage\<rparr>) s)"

definition reset_accounts_from_alloc :: "(string \<times> int) list \<Rightarrow> store \<Rightarrow> store" where
  "reset_accounts_from_alloc alloc s =
     dml (\<lambda>t. t\<lparr>tb_accounts := map (\<lambda>(a, coins). (a, new_row (max 0 (coins * 1000000)) 0)) alloc\<rparr>) s"

definition get_total_supply :: "store \<Rightarrow> decimal" where
  "get_total_supply s = sat_decimal (sum_list (map (\<lambda>(a, r). ar_balance r) (tb_accounts (st_live s))))"

text \<open>\<open>compute_state_root\<close> hashes the rows in the order of their addresses.\<close>

definition compute_state_root :: "chain_hashes \<Rightarrow> store \<Rightarrow> string" where
  "compute_state_root hs s = hs_state hs (sort_key fst (tb_accounts (st_live s)))"

section \<open>Blocks\<close>

definition get_block :: "store \<Rightarrow> int \<Rightarrow> block option" where
  "get_block s h = dget (tb_blocks (st_live s)) h"

definition get_block_by_hash :: "store \<Rightarrow> string \<Rightarrow> block option" where
  "get_block_by_hash s digest = map_option snd (find (\<lambda>(h, b). bk_hash b = digest) (tb_blocks (st_live s)))"

definition tip_of :: "(int \<times> block) list \<Rightarrow> int option" where
  "tip_of bs = (if bs = [] then None else Some (foldr (\<lambda>(h, _). max h) bs (fst (hd bs))))"

definition get_last_block :: "store \<Rightarrow> block option" where
  "get_last_block s = (case tip_of (tb_blocks (st_live s)) of None \<Rightarrow> None | Some h \<Rightarrow> get_block s h)"

definition get_chain_tip :: "store \<Rightarrow> int" where
  "get_chain_tip s = (case tip_of (tb_blocks (st_live s)) of None \<Rightarrow> 0 | Some h \<Rightarrow> h)"

text \<open>\<open>INSERT OR REPLACE\<close>: the height is the key and the hash is unique.\<close>

definition insert_block :: "block \<Rightarrow> tables \<Rightarrow> tables" where
  "insert_block b t =
     t\<lparr>tb_blocks := filter (\<lambda>(h, x). h \<noteq> bk_height b \<and> bk_hash x \<noteq> bk_hash b) (tb_blocks t) @ [(bk_height b, b)]\<rparr>"

definition save_block :: "block \<Rightarrow> store \<Rightarrow> store" where
  "save_block b s = commit (dml (insert_block b) s)"

definition reorg_truncate_above :: "int \<Rightarrow> store \<Rightarrow> store" where
  "reorg_truncate_above keep s =
     dml (\<lambda>t. t\<lparr>tb_blocks := filter (\<lambda>(h, _). \<not> h > keep) (tb_blocks t), tb_mismatches := filter (\<lambda>m. \<not> mm_height m > keep) (tb_mismatches t)\<rparr>) s"

text \<open>The meta table, key by key; \<open>set_meta\<close> commits.\<close>

definition set_meta :: "(tables \<Rightarrow> tables) \<Rightarrow> store \<Rightarrow> store" where
  "set_meta f s = commit (dml f s)"

definition record_state_root_mismatch :: "int \<Rightarrow> string \<Rightarrow> string \<Rightarrow> string \<Rightarrow> store \<Rightarrow> store" where
  "record_state_root_mismatch h peer computed proposer s =
     commit (dml (\<lambda>t. t\<lparr>tb_mismatches := tb_mismatches t @ [\<lparr>mm_height = h, mm_peer = peer, mm_computed = computed, mm_proposer = proposer\<rparr>]\<rparr>) s)"

section \<open>Blocks of statements\<close>

text \<open>\<open>with atomic():\<close> around a body that may raise.\<close>

definition atomicM :: "(store, string, 'a) exs \<Rightarrow> (store, string, 'a) exs" where
  "atomicM body = bindM begin_immediate (\<lambda>_ s.
     case body s of (Inr a, s') \<Rightarrow> (Inr a, commit s') | (Inl e, s') \<Rightarrow> (Inl e, rollback s'))"

definition truncate_all_blocks :: "(store, string, int) exs" where
  "truncate_all_blocks = atomicM (\<lambda>s. (Inr (int (length (tb_blocks (st_live s)))), dml (\<lambda>t. t\<lparr>tb_blocks := []\<rparr>) s))"

definition truncate_chain_state :: "int \<Rightarrow> (store, string, int) exs" where
  "truncate_chain_state h = atomicM (\<lambda>s. (Inr (max 0 (get_chain_tip s - h)), reorg_truncate_above h s))"

section \<open>The commit of a block\<close>

record tip_meta =
  tm_height :: int
  tm_head :: string
  tm_root :: string

text \<open>
  \<open>_RocksUoW.commit\<close>: the tip is compared with the expected one, a block whose hash is stored already is accepted as a
  repetition, and otherwise the block is written into the open transaction, or into one of its own, and the tip meta after
  it, which on this store commits.
\<close>

definition apply_tip_meta :: "tip_meta \<Rightarrow> store \<Rightarrow> store" where
  "apply_tip_meta tip s =
     (let s1 = set_meta (\<lambda>t. t\<lparr>tb_chain_tip := Some (tm_height tip)\<rparr>) s
      in if tm_root tip = [] then s1 else set_meta (\<lambda>t. t\<lparr>tb_live_root := Some (tm_root tip, tm_height tip)\<rparr>) s1)"

definition commit_block_bundle :: "block \<Rightarrow> tip_meta \<Rightarrow> (store, string, unit) exs" where
  "commit_block_bundle b tip s =
     (let body = (\<lambda>s. (Inr (), apply_tip_meta tip (dml (insert_block b) s)))
      in if st_open s then body s else atomicM body s)"

definition uow_commit :: "string \<Rightarrow> int \<Rightarrow> block \<Rightarrow> tip_meta \<Rightarrow> (store, string, unit) exs" where
  "uow_commit expected_parent expected_tip b tip s =
     (let tip_h = get_chain_tip s; tip_hash = (case get_last_block s of None \<Rightarrow> [] | Some x \<Rightarrow> bk_hash x)
      in if expected_tip \<ge> 0 \<and> tip_h \<noteq> expected_tip then (Inl ''stale_tip_height'', s)
         else if expected_parent \<noteq> [] \<and> tip_h > 0 \<and> py_lower tip_hash \<noteq> py_lower expected_parent
           then (Inl ''expected_parent_mismatch'', s)
         else if py_strip (bk_hash b) \<noteq> [] \<and> get_block_by_hash s (py_strip (bk_hash b)) \<noteq> None then (Inr (), s)
         else commit_block_bundle (b\<lparr>bk_hash := (if tm_head tip = [] then py_strip (bk_hash b) else tm_head tip),
                                    bk_parent := str_or (py_strip (bk_parent b)) (bk_parent b),
                                    bk_state_root := str_or (tm_root tip) (bk_state_root b)\<rparr>) tip s)"

text \<open>The repair when a store is opened: the tip is rewound to a stored body.\<close>

fun consistent_height :: "store \<Rightarrow> nat \<Rightarrow> nat" where
  "consistent_height s 0 = 0"
| "consistent_height s (Suc n) = (if get_block s (int (Suc n)) \<noteq> None then Suc n else consistent_height s n)"

definition repair_tip_consistency :: "store \<Rightarrow> store" where
  "repair_tip_consistency s =
     (let tip = get_chain_tip s; c = int (consistent_height s (nat tip))
      in if tip \<le> 0 \<or> c = tip then s else reorg_truncate_above c s)"

section \<open>What a failed transaction leaves behind\<close>

text \<open>The statements the chain issues inside \<open>atomic()\<close>.\<close>

datatype store_op =
  SO_Delta string int | SO_Nonce string | SO_Insert block | SO_Truncate int | SO_Reset "(string \<times> int) list"
| SO_Save string int int "string option" "string option" | SO_SetBalance string int | SO_Pools pool_state | SO_Tip tip_meta

fun run_op :: "store \<Rightarrow> store_op \<Rightarrow> store" where
  "run_op s (SO_Delta a d) = balance_delta_satoshi a d s"
| "run_op s (SO_Nonce a) = nonce_increment a s"
| "run_op s (SO_Insert b) = dml (insert_block b) s"
| "run_op s (SO_Truncate h) = reorg_truncate_above h s"
| "run_op s (SO_Reset alloc) = reset_accounts_from_alloc alloc s"
| "run_op s (SO_Save a sat n code st) = save_account a sat n code st s"
| "run_op s (SO_SetBalance a coins) = set_balance a coins s"
| "run_op s (SO_Pools p) = set_meta (\<lambda>t. t\<lparr>tb_pools := Some p\<rparr>) s"
| "run_op s (SO_Tip tip) = apply_tip_meta tip s"

fun op_commits :: "store_op \<Rightarrow> bool" where
  "op_commits (SO_Save _ _ _ _ _) = True"
| "op_commits (SO_SetBalance _ _) = True"
| "op_commits (SO_Pools _) = True"
| "op_commits (SO_Tip _) = True"
| "op_commits _ = False"

definition statements :: "store_op list \<Rightarrow> string option \<Rightarrow> (store, string, unit) exs" where
  "statements ops err s = ((case err of None \<Rightarrow> Inr () | Some e \<Rightarrow> Inl e), foldl run_op s ops)"

text \<open>The statements up to the last one that commits.\<close>

definition committed :: "store_op list \<Rightarrow> store_op list" where
  "committed ops = rev (dropWhile (\<lambda>op. \<not> op_commits op) (rev ops))"

lemma committed_snoc: "committed (ops @ [op]) = (if op_commits op then ops @ [op] else committed ops)"
  by (simp add: committed_def)

lemmas store_ops = balance_delta_satoshi_def nonce_increment_def reorg_truncate_above_def reset_accounts_from_alloc_def
  save_account_def set_balance_def set_meta_def apply_tip_meta_def dml_def commit_def Let_def

lemma op_saved: "st_saved (run_op s op) = (if op_commits op then st_live (run_op s op) else st_saved s)"
  by (cases op) (simp_all add: store_ops)

lemma saved_after: "st_saved s = st_live s \<Longrightarrow> st_saved (foldl run_op s ops) = st_live (foldl run_op s (committed ops))"
proof (induction ops rule: rev_induct)
  case Nil
  then show ?case by (simp add: committed_def)
next
  case (snoc op ops)
  then show ?case by (simp add: op_saved committed_snoc)
qed

text \<open>C39: what survives a transaction. When the statements of an atomic block all succeed, the tables are those after all of
  them, durable, and no transaction is open. When one raises, the tables are those after the last statement that committed on
  its own, and those before the transaction when none did.\<close>

theorem atomic_survivors:
  assumes "\<not> st_open s"
  shows "st_live (snd (atomicM (statements ops err) s))
       = st_live (foldl run_op (s\<lparr>st_saved := st_live s, st_open := True\<rparr>) (case err of None \<Rightarrow> ops | Some e \<Rightarrow> committed ops))
     \<and> st_saved (snd (atomicM (statements ops err) s)) = st_live (snd (atomicM (statements ops err) s))
     \<and> \<not> st_open (snd (atomicM (statements ops err) s))
     \<and> fst (atomicM (statements ops err) s) = (case err of None \<Rightarrow> Inr () | Some e \<Rightarrow> Inl e)"
  using assms saved_after [of "s\<lparr>st_saved := st_live s, st_open := True\<rparr>" ops]
  by (cases err) (simp_all add: atomicM_def begin_immediate_def bindM_def statements_def commit_def rollback_def)

definition empty_store :: store where
  "empty_store = (let t = \<lparr>tb_accounts = [], tb_blocks = [], tb_pools = None, tb_founder = None, tb_chain_tip = None, tb_live_root = None,
      tb_validators = [], tb_mismatches = []\<rparr> in \<lparr>st_live = t, st_saved = t, st_open = False\<rparr>)"

text \<open>A credit is undone with its transaction, unless a later statement of it committed.\<close>

lemma atomic_survivors_witness:
  "get_balance_satoshi (snd (atomicM (statements [SO_Delta ''0xa'' 5, SO_Nonce ''0xb''] (Some ''nonce_mismatch'')) empty_store)) ''0xa'' = 0
   \<and> get_balance_satoshi (snd (atomicM (statements [SO_Delta ''0xa'' 5, SO_Pools (fresh_pool_state ''0xf''), SO_Delta ''0xa'' 7]
        (Some ''nonce_mismatch'')) empty_store)) ''0xa'' = 5"
proof -
  have o: "\<not> st_open empty_store" by (simp add: empty_store_def Let_def)
  note live = conjunct1 [OF atomic_survivors [OF o]]
  show ?thesis
    by (simp add: get_balance_satoshi_def st_row_def live)
      (simp add: committed_def store_ops empty_store_def put_row_def st_row_def new_row_def apply_satoshi_delta_def)
qed

end
