(* ===== verification/CrossShardProps.thy ===== *)
theory CrossShardProps
  imports CrossShard ChainStore
begin

text \<open>
  What a reached cross-shard quorum rests on, and the conservation of money when balances leave for another
  shard.
\<close>

section \<open>Runs of the two-phase commit\<close>

datatype cx_op = CBegin string int int | CVAck string int string | CAck string int | CClear string

fun cx_step :: "cx_op \<Rightarrow> cross_shard \<Rightarrow> cross_shard" where
  "cx_step (CBegin tx from to) c = cx_begin tx from to c"
| "cx_step (CVAck tx sid v) c = snd (record_validator_ack tx sid v c)"
| "cx_step (CAck tx sid) c = snd (record_ack tx sid c)"
| "cx_step (CClear tx) c = cx_clear tx c"

definition cx_run :: "cx_op list \<Rightarrow> cross_shard \<Rightarrow> cross_shard" where
  "cx_run ops c = fold cx_step ops c"

text \<open>The committee members whose acknowledgement is in the run.\<close>

definition acked_members :: "cx_op list \<Rightarrow> cross_shard \<Rightarrow> string \<Rightarrow> int \<Rightarrow> string set" where
  "acked_members ops c tx sid = {v \<in> cx_committee c sid. \<exists>raw. CVAck tx sid raw \<in> set ops \<and> py_strip raw = v}"

definition cx_rests :: "cx_op list \<Rightarrow> cross_shard \<Rightarrow> bool" where
  "cx_rests ops c \<longleftrightarrow> (\<forall>tx sid.
     (cx_committee c sid \<noteq> {} \<longrightarrow> vacks_of c tx sid \<subseteq> acked_members ops c tx sid)
   \<and> (cx_committee c sid = {} \<longrightarrow> sid \<in> acks_of c tx \<longrightarrow>
        CAck tx sid \<in> set ops \<or> (\<exists>raw. CVAck tx sid raw \<in> set ops)))"

lemma dget_or_filter_key: "dget_or (filter (\<lambda>(k, _). k \<noteq> a) d) b v = (if b = a then v else dget_or d b v)"
  by (induction d) (auto simp: dget_or_def split: option.splits)

lemma step_committee [simp]: "cx_committee (cx_step op c) sid = cx_committee c sid"
  by (cases op) (simp_all add: cx_begin_def record_validator_ack_def record_ack_def cx_clear_def cx_committee_def Let_def)

lemma run_committee: "cx_committee (cx_run ops c) sid = cx_committee c sid"
  by (induction ops arbitrary: c) (simp_all add: cx_run_def)

lemma vacks_of_step:
  "vacks_of (cx_step op c) tx sid \<subseteq> vacks_of c tx sid
     \<union> {v. \<exists>raw. op = CVAck tx sid raw \<and> py_strip raw = v \<and> (cx_committee c sid = {} \<or> v \<in> cx_committee c sid)}"
  by (cases op) (auto simp: cx_begin_def record_validator_ack_def record_ack_def cx_clear_def vacks_of_def Let_def
      dget_or_filter_key split: if_splits; simp add: dget_or_def)+

lemma acks_of_step:
  "acks_of (cx_step op c) tx \<subseteq> acks_of c tx \<union> {sid. op = CAck tx sid \<or> (\<exists>raw. op = CVAck tx sid raw)}"
  by (cases op) (auto simp: cx_begin_def record_validator_ack_def record_ack_def cx_clear_def acks_of_def Let_def
      dget_or_filter_key split: if_splits)

lemma cx_rests_step:
  assumes "cx_rests ops c"
  shows "cx_rests (ops @ [op]) (cx_step op c)"
  unfolding cx_rests_def
proof (intro allI conjI impI)
  fix tx sid
  assume "cx_committee (cx_step op c) sid \<noteq> {}"
  then have members: "cx_committee c sid \<noteq> {}" by simp
  then have old: "vacks_of c tx sid \<subseteq> acked_members ops c tx sid" using assms by (simp add: cx_rests_def)
  show "vacks_of (cx_step op c) tx sid \<subseteq> acked_members (ops @ [op]) (cx_step op c) tx sid"
  proof
    fix v
    assume "v \<in> vacks_of (cx_step op c) tx sid"
    with vacks_of_step have "v \<in> vacks_of c tx sid
      \<or> (\<exists>raw. op = CVAck tx sid raw \<and> py_strip raw = v \<and> (cx_committee c sid = {} \<or> v \<in> cx_committee c sid))" by blast
    with members old have "v \<in> acked_members ops c tx sid
      \<or> (\<exists>raw. op = CVAck tx sid raw \<and> py_strip raw = v \<and> v \<in> cx_committee c sid)" by blast
    then show "v \<in> acked_members (ops @ [op]) (cx_step op c) tx sid" by (auto simp: acked_members_def)
  qed
next
  fix tx sid
  assume empty: "cx_committee (cx_step op c) sid = {}" and "sid \<in> acks_of (cx_step op c) tx"
  then have "sid \<in> acks_of c tx \<or> op = CAck tx sid \<or> (\<exists>raw. op = CVAck tx sid raw)" using acks_of_step by blast
  moreover have "CAck tx sid \<in> set ops \<or> (\<exists>raw. CVAck tx sid raw \<in> set ops)" if "sid \<in> acks_of c tx"
    using that empty assms unfolding cx_rests_def by simp
  ultimately show "CAck tx sid \<in> set (ops @ [op]) \<or> (\<exists>raw. CVAck tx sid raw \<in> set (ops @ [op]))" by auto
qed

lemma cx_rests_run: "cx_rests [] c \<Longrightarrow> cx_rests ops (cx_run ops c)"
  by (induction ops rule: rev_induct) (simp_all add: cx_run_def cx_rests_step)

lemma cx_run_quorum [simp]: "cx_quorum (cx_run ops c) = cx_quorum c"
proof -
  have "cx_quorum (cx_step op c) = cx_quorum c" for op c
    by (cases op) (simp_all add: cx_begin_def record_validator_ack_def record_ack_def cx_clear_def Let_def)
  then show ?thesis by (induction ops arbitrary: c) (simp_all add: cx_run_def)
qed

section \<open>The size of a quorum\<close>

lemma quorum_size_exact:
  assumes "cx_quorum c = two_thirds" "0 < n" "n < 2 ^ 51"
  shows "cx_quorum_size c n = (2 * n + 2) div 3"
proof -
  have n: "nat n < 2 ^ 51" "nat n < 2 ^ 53" using assms(3) by (simp_all add: nat_less_iff)
  have "cx_quorum_size c n = max 1 (int ((2 * nat n + 2) div 3))"
    using assms(1,2) threshold_ceiling [OF n(1)] round53_small [OF n(2)]
    by (simp add: cx_quorum_size_def double_product_def two_thirds_def)
  also have "int ((2 * nat n + 2) div 3) = (2 * n + 2) div 3" using assms(2) by (simp add: zdiv_int)
  finally show ?thesis using assms(2) by simp
qed

section \<open>Money leaving for another shard\<close>

fun moved :: "string \<Rightarrow> mig_payload list \<Rightarrow> int" where
  "moved a [] = 0"
| "moved a (Move b f t n # ps) = (if a = b then n else 0) + moved a ps"
| "moved a (ZeroBalance b # ps) = moved a ps"

definition sent_from :: "(int \<Rightarrow> bool) \<Rightarrow> mig_row set \<Rightarrow> mig_payload \<Rightarrow> bool" where
  "sent_from owns R p \<longleftrightarrow> (\<exists>r\<in>R. \<exists>n>0. p = Move (mr_address r) (mr_from r) (mr_to r) n \<and> mr_address r \<noteq> [] \<and> owns (mr_from r) \<and> \<not> owns (mr_to r))"

lemma sent_from_mono: "sent_from owns R p \<Longrightarrow> R \<subseteq> S \<Longrightarrow> sent_from owns S p"
  unfolding sent_from_def by blast

text \<open>
  What the stores of the repository promise: a balance is not negative, and a change is added as it is unless the result would
  be negative, where they clamp.
\<close>

definition clamping_store :: "'w mig_db \<Rightarrow> ('w \<Rightarrow> string \<Rightarrow> int) \<Rightarrow> (string \<Rightarrow> int \<Rightarrow> 'w \<Rightarrow> 'w) \<Rightarrow> bool" where
  "clamping_store db bal add \<longleftrightarrow> md_read db = Some (\<lambda>a w. Some (bal w a)) \<and> md_delta db = Some add
     \<and> (\<forall>a w. 0 \<le> bal w a) \<and> (\<forall>a d w b. 0 < bal w a \<longrightarrow> bal (add a d w) b = (if b = a then max 0 (bal w b + d) else bal w b))"

definition leaving :: "(int \<Rightarrow> bool) \<Rightarrow> mig_row \<Rightarrow> bool" where
  "leaving owns r \<longleftrightarrow> owns (mr_from r) \<and> \<not> owns (mr_to r) \<and> mr_address r \<noteq> []"

lemma process_rows_conserves:
  assumes db: "clamping_store db bal add"
  shows "process_rows db owns rows (c, w) = (ps, c', w') \<Longrightarrow>
     bal w' a + moved a ps = bal w a \<and> 0 \<le> moved a ps \<and> (\<forall>p\<in>set ps. sent_from owns (set rows) p)
     \<and> (\<forall>r\<in>set rows. leaving owns r \<longrightarrow> bal w' (mr_address r) = 0)"
proof (induction rows arbitrary: c w ps a)
  case (Cons r rows)
  have nonneg: "0 \<le> bal v b" for v b using db by (simp add: clamping_store_def)
  have stays: "bal w' b = 0" if "process_rows db owns rows (d, v) = (qs, c', w')" "bal v b = 0" for b d v qs
  proof -
    have "bal w' b + moved b qs = 0" "0 \<le> moved b qs" using Cons.IH [OF that(1), of b] that(2) by simp_all
    with nonneg [of w' b] show ?thesis by linarith
  qed
  show ?case
  proof (cases "owns (mr_from r) \<and> owns (mr_to r)")
    case True
    with Cons.prems have "process_rows db owns rows (snd (complete_migration (mr_address r) c), w) = (ps, c', w')" by simp
    from Cons.IH [OF this] show ?thesis using True sent_from_mono [of owns "set rows" _ "set (r # rows)"] by (auto simp: leaving_def)
  next
    case False
    consider (none) c1 q where "export_migration_debit r db owns (c, w) = ((None, q), c1, w)" "\<not> leaving owns r"
      | (zero) c1 q where "export_migration_debit r db owns (c, w) = ((Some (ZeroBalance (mr_address r)), q), c1, w)"
          "bal w (mr_address r) = 0"
      | (move) q where "export_migration_debit r db owns (c, w)
          = ((Some (Move (mr_address r) (mr_from r) (mr_to r) (bal w (mr_address r))), q), c, add (mr_address r) (- bal w (mr_address r)) w)"
          "0 < bal w (mr_address r)" "owns (mr_from r)" "mr_address r \<noteq> []"
    proof (cases "owns (mr_from r) \<and> mr_address r \<noteq> []")
      case True
      show thesis
      proof (cases "bal w (mr_address r) \<le> 0")
        case le: True
        then have "bal w (mr_address r) = 0" using db by (simp add: clamping_store_def order_antisym)
        then show thesis using db True zero by (simp add: clamping_store_def export_migration_debit_def read_balance_satoshi_def)
      next
        case False
        then show thesis using db True move
          by (simp add: clamping_store_def export_migration_debit_def read_balance_satoshi_def apply_delta_def)
      qed
    next
      case False
      then show thesis by (intro none) (auto simp: export_migration_debit_def leaving_def)
    qed
    then show ?thesis
    proof cases
      case (none c1 q)
      with False Cons.prems have "process_rows db owns rows (c1, w) = (ps, c', w')" by auto
      from Cons.IH [OF this] none(2) show ?thesis using sent_from_mono [of owns "set rows" _ "set (r # rows)"] by auto
    next
      case (zero c1 q)
      with False Cons.prems have run: "process_rows db owns rows (c1, w) = (ps, c', w')" by auto
      from Cons.IH [OF run] stays [OF run zero(2)] show ?thesis
        using sent_from_mono [of owns "set rows" _ "set (r # rows)"] by auto
    next
      case (move q)
      let ?w = "add (mr_address r) (- bal w (mr_address r)) w"
      let ?p = "Move (mr_address r) (mr_from r) (mr_to r) (bal w (mr_address r))"
      obtain ps1 where ps1: "ps = ?p # ps1" "process_rows db owns rows (c, ?w) = (ps1, c', w')"
      proof -
        obtain ps1 s2 where 1: "process_rows db owns rows (c, ?w) = (ps1, s2)"
          by (cases "process_rows db owns rows (c, ?w)") blast
        with move False Cons.prems have "ps = ?p # ps1" "s2 = (c', w')" by (auto simp: Let_def)
        with 1 that show thesis by simp
      qed
      have w: "bal ?w b = (if b = mr_address r then 0 else bal w b)" for b using db move(2) by (simp add: clamping_store_def)
      have "bal w' a + moved a ps = bal w a" "0 \<le> moved a ps"
        using Cons.IH [OF ps1(2), of a] w move(2) by (auto simp: ps1(1))
      moreover have "sent_from owns (set (r # rows)) ?p" using move(2-4) False by (auto simp: sent_from_def)
      moreover have "bal w' (mr_address r) = 0" using stays [OF ps1(2)] w [of "mr_address r"] by simp
      moreover have "\<forall>p\<in>set ps1. sent_from owns (set (r # rows)) p" "\<forall>q\<in>set rows. leaving owns q \<longrightarrow> bal w' (mr_address q) = 0"
        using Cons.IH [OF ps1(2)] sent_from_mono [of owns "set rows" _ "set (r # rows)"] by auto
      ultimately show ?thesis by (simp add: ps1(1))
    qed
  qed
qed auto

text \<open>The store of the chain: SQLite keeps a number under its digits and \<open>True\<close> under 1.\<close>

definition chain_db :: "store mig_db" where
  "chain_db = \<lparr>md_read = Some (\<lambda>a s. Some (get_balance_satoshi s a)), md_delta = Some balance_delta_satoshi,
     md_key = (\<lambda>v. case py_int v of Some n \<Rightarrow> py_str_int n | None \<Rightarrow> [])\<rparr>"

lemma chain_delta:
  assumes "(case st_row s a of None \<Rightarrow> True | Some r \<Rightarrow> 0 \<le> ar_balance r)"
  shows "get_balance_satoshi (balance_delta_satoshi a d s) b = (if b = a then max 0 (get_balance_satoshi s b + d) else get_balance_satoshi s b)"
  using assms by (simp add: get_balance_satoshi_def balance_delta_satoshi_def st_row_def dml_def put_row_def new_row_def
      apply_satoshi_delta_def split: option.splits)

lemma balance_nonneg: "0 \<le> get_balance_satoshi s a"
  by (simp add: get_balance_satoshi_def split: option.split)

lemma chain_positive: "0 < get_balance_satoshi s a \<Longrightarrow> (case st_row s a of None \<Rightarrow> True | Some r \<Rightarrow> 0 \<le> ar_balance r)"
  by (auto simp: get_balance_satoshi_def max_def split: option.splits if_splits)

lemma chain_db_clamps: "clamping_store chain_db get_balance_satoshi balance_delta_satoshi"
  using chain_delta [OF chain_positive] by (auto simp: clamping_store_def chain_db_def get_balance_satoshi_def split: option.split)

text \<open>What goes over the wire for a payload.\<close>

fun payload_dict :: "mig_payload \<Rightarrow> pydict" where
  "payload_dict (Move a f t n) = [(''type'', PStr ''shard_migration''), (''address'', PStr a), (''from_shard'', PInt f),
     (''to_shard'', PInt t), (''balance_satoshi'', PInt n)]"
| "payload_dict (ZeroBalance a) = [(''address'', PStr a), (''status'', PStr ''zero_balance''), (''balance_satoshi'', PInt 0)]"

section \<open>Properties\<close>

text \<open>C19: What a cross-shard quorum rests on. With the default ratio and committees fixed before the transfers begin, whenever the coordinator reports a quorum for a transfer, each shard it requires has, if it has a committee, acknowledgements of at least two thirds of distinct committee members, each recorded in the run, and, if it has none, an acknowledgement of the shard.\<close>

lemma cross_shard_quorum_safe:
  assumes "cx_quorum c0 = two_thirds" "cx_acks c0 = []" "cx_vacks c0 = []"
    and "cx_quorum_reached (cx_run ops c0) tx" "sid \<in> dget_or (cx_required (cx_run ops c0)) tx {}"
    and "finite (cx_committee c0 sid)" "card (cx_committee c0 sid) < 2 ^ 51"
  shows "(cx_committee c0 sid = {} \<longrightarrow> CAck tx sid \<in> set ops \<or> (\<exists>raw. CVAck tx sid raw \<in> set ops))
     \<and> 3 * card (acked_members ops c0 tx sid) \<ge> 2 * card (cx_committee c0 sid)"
proof (cases "cx_committee c0 sid = {}")
  case True
  have "cx_rests [] c0" using assms(2,3) by (simp add: cx_rests_def vacks_of_def acks_of_def dget_or_def)
  then have rests: "cx_rests ops (cx_run ops c0)" by (rule cx_rests_run)
  have "sid \<in> acks_of (cx_run ops c0) tx"
    using assms(4,5) True by (auto simp: cx_quorum_reached_def shard_quorum_met_def run_committee Let_def)
  with rests True show ?thesis by (auto simp: cx_rests_def run_committee)
next
  case False
  let ?c = "cx_run ops c0" let ?n = "int (card (cx_committee c0 sid))"
  have "cx_rests [] c0" using assms(2,3) by (simp add: cx_rests_def vacks_of_def acks_of_def dget_or_def)
  then have rests: "cx_rests ops ?c" by (rule cx_rests_run)
  have ratio: "cx_quorum ?c = two_thirds" using assms(1) cx_run_quorum by simp
  have pos: "0 < ?n" using False assms(6) by (simp add: card_gt_0_iff)
  have "shard_quorum_met ?c tx sid" using assms(4,5) by (simp add: cx_quorum_reached_def Let_def)
  then have "cx_quorum_size ?c ?n \<le> int (card (vacks_of ?c tx sid))"
    using False unfolding shard_quorum_met_def run_committee by simp
  moreover have "vacks_of ?c tx sid \<subseteq> acked_members ops ?c tx sid" using rests False by (simp add: cx_rests_def run_committee)
  then have "card (vacks_of ?c tx sid) \<le> card (acked_members ops c0 tx sid)"
    using assms(6) by (intro card_mono) (auto simp: acked_members_def run_committee)
  moreover have "cx_quorum_size ?c ?n = (2 * ?n + 2) div 3" using quorum_size_exact [OF ratio pos] assms(7) by simp
  ultimately have "(2 * ?n + 2) div 3 \<le> int (card (acked_members ops c0 tx sid))" by linarith
  then have "2 * ?n \<le> 3 * int (card (acked_members ops c0 tx sid))" by linarith
  then show ?thesis using False by linarith
qed

definition demo_committees :: cross_shard where
  "demo_committees = snd (load_shard_committees [(0, [''a'', ''b'', ''c'']), (1, [])] (cx_init 2 two_thirds))"

definition demo_acks :: "cx_op list" where
  "demo_acks = [CBegin ''t'' 0 1, CVAck ''t'' 0 ''a'', CAck ''t'' 1, CVAck ''t'' 0 ''b'']"

lemma demo_committees_eq:
  "demo_committees = \<lparr>cx_num_shards = 2, cx_quorum = two_thirds, cx_acks = [], cx_required = [], cx_vacks = [],
     cx_validators = [(0, {''c'', ''b'', ''a''}), (1, {})], cx_plan = None, cx_queue = [], cx_overrides = []\<rparr>"
proof -
  have "max (2 ^ 52) (min (2 ^ 53) two_thirds) = two_thirds" by (simp add: two_thirds_def)
  then show ?thesis
    by (simp add: demo_committees_def cx_init_def cx_committee_def dget_or_def py_strip_no_space py_is_space_def Let_def)
qed

lemma demo_acks_run:
  "cx_run demo_acks demo_committees = demo_committees\<lparr>cx_required := [(''t'', {0, 1})], cx_acks := [(''t'', {0, 1})],
     cx_vacks := [(''t'', [(0, {''b'', ''a''})])]\<rparr>"
proof -
  have strip: "py_strip ''a'' = ''a''" "py_strip ''b'' = ''b''" by (simp_all add: py_strip_no_space py_is_space_def)
  have three: "cx_quorum_size c 3 = 2" if "cx_quorum c = two_thirds" for c using quorum_size_exact [OF that, of 3] by simp
  show ?thesis
    by (simp add: cx_run_def demo_acks_def demo_committees_eq cx_begin_def record_validator_ack_def record_ack_def
        required_shards_def strip vacks_of_def acks_of_def cx_committee_def shard_quorum_met_def three dget_or_def Let_def)
qed

lemma cross_shard_quorum_safe_witness:
  "3 * card (acked_members demo_acks demo_committees ''t'' 0) \<ge> 2 * card (cx_committee demo_committees 0)"
proof -
  have three: "cx_quorum_size c 3 = 2" if "cx_quorum c = two_thirds" for c using quorum_size_exact [OF that, of 3] by simp
  have "cx_quorum_reached (cx_run demo_acks demo_committees) ''t''"
    unfolding demo_acks_run
    by (simp add: demo_committees_eq cx_quorum_reached_def shard_quorum_met_def cx_committee_def vacks_of_def
        acks_of_def three dget_or_def Let_def)
  moreover have "0 \<in> dget_or (cx_required (cx_run demo_acks demo_committees)) ''t'' {}"
    by (simp add: demo_acks_run dget_or_def)
  moreover have "cx_committee demo_committees 0 = {''c'', ''b'', ''a''}" by (simp add: demo_committees_eq cx_committee_def dget_or_def)
  ultimately show ?thesis
    using cross_shard_quorum_safe [of demo_committees demo_acks "''t''" 0] by (simp add: demo_committees_eq)
qed

text \<open>C20: A migration neither loses nor makes money. When a node processes its pending migrations over the store of the chain,
  which clamps at zero, every address keeps its balance except for the amounts in the payloads that were produced, each of
  which is positive and comes from a pending row of a shard this node owns, for a shard it does not; the addresses of the
  processed rows that leave have nothing left. A node that owns the target shard and whose row for the address, if any, is
  not negative credits such a payload with exactly its amount, and no other balance changes.\<close>

lemma migration_conserves:
  assumes "process_local_migrations chain_db owns limit (c, w) = (ps, c', w')"
  shows "get_balance_satoshi w' a + moved a ps = get_balance_satoshi w a
     \<and> (\<forall>p\<in>set ps. sent_from owns (set (pending_migrations c)) p)
     \<and> (\<forall>r\<in>set (take (nat (max 1 limit)) (pending_migrations c)). leaving owns r \<longrightarrow> get_balance_satoshi w' (mr_address r) = 0)
     \<and> (Move b f t n \<in> set ps \<and> owns' t \<and> (case st_row v b of None \<Rightarrow> True | Some r \<Rightarrow> 0 \<le> ar_balance r) \<longrightarrow>
          fst (apply_migration_credit (payload_dict (Move b f t n)) chain_db owns' (d, v)) = Inr True
          \<and> get_balance_satoshi (snd (snd (apply_migration_credit (payload_dict (Move b f t n)) chain_db owns' (d, v)))) a
              = get_balance_satoshi v a + (if a = b then n else 0))"
proof -
  have run: "process_rows chain_db owns (take (nat (max 1 limit)) (pending_migrations c)) (c, w) = (ps, c', w')"
    using assms by (simp add: process_local_migrations_def)
  note moves = process_rows_conserves [OF chain_db_clamps run, of a]
  have sent: "\<forall>p\<in>set ps. sent_from owns (set (pending_migrations c)) p"
    using moves sent_from_mono [OF _ set_take_subset] by blast
  have credit: "fst (apply_migration_credit (payload_dict (Move b f t n)) chain_db owns' (d, v)) = Inr True
      \<and> get_balance_satoshi (snd (snd (apply_migration_credit (payload_dict (Move b f t n)) chain_db owns' (d, v)))) a
          = get_balance_satoshi v a + (if a = b then n else 0)"
    if "Move b f t n \<in> set ps" "owns' t" "case st_row v b of None \<Rightarrow> True | Some r \<Rightarrow> 0 \<le> ar_balance r"
  proof -
    have n: "0 < n" "b \<noteq> []" using sent that(1) by (auto simp: sent_from_def)
    then show ?thesis
      using that(2) chain_delta [OF that(3), of n a]
      by (simp add: apply_migration_credit_def pget_def dget_or_def apply_delta_def credited_key_def complete_credited_def chain_db_def
          get_balance_satoshi_def split: option.split)
  qed
  show ?thesis using moves sent credit by blast
qed

definition demo_queue :: cross_shard where
  "demo_queue = queue_address_migration ''x'' 0 1 (cx_init 2 two_thirds)"

definition demo_holder :: store where
  "demo_holder = balance_delta_satoshi ''x'' 7 empty_store"

lemma migration_conserves_witness:
  "(let (ps, c', w') = process_local_migrations chain_db (\<lambda>s. s = 0) 20 (demo_queue, demo_holder)
    in ps = [Move ''x'' 0 1 7] \<and> get_balance_satoshi w' ''x'' = 0
       \<and> get_balance_satoshi (snd (snd (apply_migration_credit (payload_dict (hd ps)) chain_db (\<lambda>s. s = 1) (demo_queue, empty_store)))) ''x'' = 7)"
proof -
  obtain ps c' w' where run: "process_local_migrations chain_db (\<lambda>s. s = 0) 20 (demo_queue, demo_holder) = (ps, c', w')"
    using prod_cases3 by blast
  have start: "get_balance_satoshi empty_store ''x'' = 0" "st_row empty_store ''x'' = None"
    by (simp_all add: get_balance_satoshi_def st_row_def empty_store_def Let_def)
  then have seven: "get_balance_satoshi demo_holder ''x'' = 7" by (simp add: demo_holder_def chain_delta)
  then have ps: "ps = [Move ''x'' 0 1 7]" using run
    by (simp add: process_local_migrations_def demo_queue_def queue_address_migration_def cx_init_def pending_migrations_def
        export_migration_debit_def read_balance_satoshi_def apply_delta_def chain_db_def Let_def)
  note whole = migration_conserves [OF run, where a = "''x''" and b = "''x''" and f = 0 and t = 1 and n = 7 and owns' = "\<lambda>s. s = 1"
      and d = demo_queue and v = empty_store]
  from whole show ?thesis using start seven by (simp add: run ps)
qed

section \<open>Observations\<close>

text \<open>A transfer that is begun again keeps the acknowledgements of shards without a committee: it has its quorum at once.\<close>

lemma begin_again_has_quorum:
  "cx_quorum_reached (cx_run [CBegin ''t'' 0 1, CAck ''t'' 0, CAck ''t'' 1, CBegin ''t'' 0 1] (cx_init 2 q)) ''t''"
  by (simp add: cx_run_def cx_init_def cx_begin_def record_ack_def required_shards_def acks_of_def cx_committee_def
      cx_quorum_reached_def shard_quorum_met_def dget_or_def Let_def)

text \<open>A credit that arrives twice is paid twice.\<close>

lemma credit_replayed:
  assumes "owns 1" "case st_row (snd s) ''x'' of None \<Rightarrow> True | Some r \<Rightarrow> 0 \<le> ar_balance r"
  defines "payload \<equiv> [(''type'', PStr ''shard_migration''), (''to_shard'', PInt 1), (''address'', PStr ''x''), (''balance_satoshi'', PInt 5)]"
  shows "get_balance_satoshi (snd (snd (apply_migration_credit payload chain_db owns (snd (apply_migration_credit payload chain_db owns s))))) ''x''
     = get_balance_satoshi (snd s) ''x'' + 10"
proof -
  have pay: "snd (snd (apply_migration_credit payload chain_db owns t)) = balance_delta_satoshi ''x'' 5 (snd t)" for t
    using assms(1) by (simp add: apply_migration_credit_def apply_delta_def credited_key_def complete_credited_def chain_db_def pget_def
        dget_or_def payload_def)
  have five: "get_balance_satoshi (balance_delta_satoshi ''x'' 5 (snd s)) ''x'' = get_balance_satoshi (snd s) ''x'' + 5"
    using chain_delta [OF assms(2), of 5 "''x''"] balance_nonneg [of "snd s" "''x''"] by simp
  then have "0 < get_balance_satoshi (balance_delta_satoshi ''x'' 5 (snd s)) ''x''"
    using balance_nonneg [of "snd s" "''x''"] by simp
  from chain_delta [OF chain_positive [OF this], of 5 "''x''"] show ?thesis
    using five balance_nonneg [of "snd s" "''x''"] by (simp add: pay)
qed

end
