(* ===== verification/CatchUp.thy ===== *)
theory CatchUp
  imports PyVal
begin

text \<open>
  Catching up with a peer that is ahead: \<open>sync/catchup/types.py\<close>, \<open>policy.py\<close>, \<open>orchestrator.py\<close> and the
  service of \<open>path_a.py\<close>. The service drives four ports (the record \<open>cu_ports\<close>), whose operations act on a
  world \<open>'w\<close> and may raise. A fetched batch is a list of bodies, \<open>None\<close> for one that is not a dictionary.
  The download loop of \<open>run_ahead\<close> need not end against a hostile peer, so it is a partial function:
  \<open>None\<close> is a call that does not return. The peer view is frozen, so the target of a call does not change.
  The fetch timeout, which is only passed on, is left out, and a dash in a message is written as two hyphens.
\<close>

section \<open>Types\<close>

datatype cu_status = CU_Skipped | CU_Refused | CU_Stalled | CU_Incomplete | CU_Complete | CU_Error

record cu_peer =
  cup_id :: string
  cup_height :: int
  cup_head :: string

definition cu_peer_init :: "cu_peer \<Rightarrow> cu_peer" where
  "cu_peer_init p = p\<lparr>cup_head := py_strip (cup_head p)\<rparr>"

record cu_config =
  cuc_batch :: int
  cuc_require_head :: bool
  cuc_tip_bind :: bool
  cuc_height_bind :: bool
  cuc_parent_bind :: bool
  cuc_tip_probe :: bool
  cuc_head_probe :: bool

definition cu_config_init :: "cu_config \<Rightarrow> cu_config" where
  "cu_config_init c = c\<lparr>cuc_batch := max 1 (cuc_batch c)\<rparr>"

definition cu_config_default :: cu_config where
  "cu_config_default = \<lparr>cuc_batch = 32, cuc_require_head = True, cuc_tip_bind = True, cuc_height_bind = True,
     cuc_parent_bind = True, cuc_tip_probe = True, cuc_head_probe = True\<rparr>"

record cu_outcome =
  cuo_status :: cu_status
  cuo_reason :: string
  cuo_height :: int
  cuo_target :: int
  cuo_imported :: int
  cuo_reached :: bool
  cuo_detail :: string

definition cuo_ok :: "cu_outcome \<Rightarrow> bool" where
  "cuo_ok out \<longleftrightarrow> cuo_status out = CU_Complete"

definition cuo_skipped :: "int \<Rightarrow> int \<Rightarrow> string \<Rightarrow> cu_outcome" where
  "cuo_skipped h t reason = \<lparr>cuo_status = CU_Skipped, cuo_reason = reason, cuo_height = h, cuo_target = t,
     cuo_imported = 0, cuo_reached = False, cuo_detail = []\<rparr>"

definition cuo_refused :: "string \<Rightarrow> int \<Rightarrow> int \<Rightarrow> string \<Rightarrow> cu_outcome" where
  "cuo_refused reason h t detail = \<lparr>cuo_status = CU_Refused, cuo_reason = str_or reason ''refused'', cuo_height = h,
     cuo_target = t, cuo_imported = 0, cuo_reached = False, cuo_detail = detail\<rparr>"

definition cuo_stalled :: "int \<Rightarrow> int \<Rightarrow> int \<Rightarrow> string \<Rightarrow> string \<Rightarrow> cu_outcome" where
  "cuo_stalled h t n reason detail = \<lparr>cuo_status = CU_Stalled, cuo_reason = reason, cuo_height = h, cuo_target = t,
     cuo_imported = n, cuo_reached = False, cuo_detail = detail\<rparr>"

definition cuo_incomplete :: "int \<Rightarrow> int \<Rightarrow> int \<Rightarrow> string \<Rightarrow> string \<Rightarrow> cu_outcome" where
  "cuo_incomplete h t n reason detail = \<lparr>cuo_status = CU_Incomplete, cuo_reason = reason, cuo_height = h, cuo_target = t,
     cuo_imported = n, cuo_reached = False, cuo_detail = detail\<rparr>"

definition cuo_complete :: "int \<Rightarrow> int \<Rightarrow> int \<Rightarrow> cu_outcome" where
  "cuo_complete h t n = \<lparr>cuo_status = CU_Complete, cuo_reason = ''ok'', cuo_height = h, cuo_target = t,
     cuo_imported = n, cuo_reached = True, cuo_detail = []\<rparr>"

definition cuo_error :: "string \<Rightarrow> int \<Rightarrow> int \<Rightarrow> int \<Rightarrow> string \<Rightarrow> cu_outcome" where
  "cuo_error reason h t n detail = \<lparr>cuo_status = CU_Error, cuo_reason = str_or reason ''error'', cuo_height = h,
     cuo_target = t, cuo_imported = n, cuo_reached = False, cuo_detail = detail\<rparr>"

section \<open>CatchUpPolicy\<close>

text \<open>\<open>blk.get("height", blk.get("number", None))\<close>.\<close>

definition raw_height :: "pydict \<Rightarrow> pyval" where
  "raw_height b = dget_or b ''height'' (pget b ''number'')"

definition ahead_refuse :: "int \<Rightarrow> int \<Rightarrow> string \<Rightarrow> pydict option \<Rightarrow> bool \<Rightarrow> string" where
  "ahead_refuse our_h peer_h peer_head local_blk require_head =
     (if \<not> require_head then []
      else if peer_h \<le> our_h then []
      else if py_strip peer_head = [] then ''catch_up_no_head''
      else (case local_blk of
          None \<Rightarrow> []
        | Some b \<Rightarrow>
            (let local_h = (if raw_height b = PNone then - 1 else case py_int (raw_height b) of None \<Rightarrow> - 1 | Some n \<Rightarrow> n)
             in if local_h \<ge> 0 \<and> local_h \<noteq> peer_h then ''catch_up_head_height_mismatch'' else [])))"

definition height_continuity_refuse :: "pydict \<Rightarrow> int \<Rightarrow> bool \<Rightarrow> string" where
  "height_continuity_refuse b expected enabled =
     (if \<not> enabled then []
      else if raw_height b = PNone then []
      else (case py_int (raw_height b) of
          None \<Rightarrow> ''catch_up_height_continuity_mismatch''
        | Some got \<Rightarrow>
            if got < 0 \<or> expected < 0 then []
            else if got \<noteq> expected then ''catch_up_height_continuity_mismatch'' else []))"

definition catch_up_parent_refuse :: "pydict \<Rightarrow> string \<Rightarrow> bool \<Rightarrow> string" where
  "catch_up_parent_refuse b expected enabled =
     (if \<not> enabled then []
      else
        (let expect = norm_hash expected; got = norm_hash (pget_str b ''parent_hash'')
         in if expect = [] then []
            else if got \<noteq> [] \<and> got \<noteq> expect then ''catch_up_contiguous_parent_mismatch'' else []))"

definition catch_up_tip_refuse :: "string \<Rightarrow> string \<Rightarrow> bool \<Rightarrow> string" where
  "catch_up_tip_refuse local_head peer_head enabled =
     (if \<not> enabled then []
      else
        (let l = norm_hash local_head; p = norm_hash peer_head
         in if p = [] then [] else if l \<noteq> [] \<and> l \<noteq> p then ''catch_up_tip_head_mismatch'' else []))"

definition tip_at_height_refuse :: "int \<Rightarrow> int \<Rightarrow> string \<Rightarrow> string \<Rightarrow> bool \<Rightarrow> string" where
  "tip_at_height_refuse local_h peer_h local_head peer_head enabled =
     (if \<not> enabled then []
      else if local_h \<le> 0 \<or> peer_h \<le> 0 \<or> local_h \<noteq> peer_h then []
      else catch_up_tip_refuse local_head peer_head True)"

section \<open>The ports\<close>

text \<open>\<open>get_block\<close> takes a height or a hash.\<close>

datatype block_key = AtHeight int | OfHash string

type_synonym ('w, 'a) cu_m = "('w, string, 'a) exs"

record 'w cu_ports =
  cu_height :: "('w, int) cu_m"
  cu_needs_genesis :: "('w, bool) cu_m option"
  cu_head :: "('w, string) cu_m"
  cu_expected_parent :: "int \<Rightarrow> ('w, string) cu_m"
  cu_get_block :: "block_key \<Rightarrow> ('w, pydict option) cu_m"
  cu_import :: "pydict \<Rightarrow> ('w, bool) cu_m"
  cu_find_ancestor :: "string \<Rightarrow> ('w, int option) cu_m"
  cu_reorg :: "int \<Rightarrow> ('w, bool) cu_m"
  cu_fetch :: "string \<Rightarrow> int \<Rightarrow> int \<Rightarrow> string \<Rightarrow> ('w, pydict option list option) cu_m"
  cu_local_probe :: "cu_peer \<Rightarrow> ('w, string) cu_m"
  cu_peer_probe :: "cu_peer \<Rightarrow> ('w, string) cu_m"
  cu_bump :: "string \<Rightarrow> ('w, unit) cu_m"
  cu_note_fail :: "string \<Rightarrow> ('w, unit) cu_m"
  cu_set_height :: "string \<Rightarrow> int \<Rightarrow> ('w, unit) cu_m"
  cu_running :: "('w, bool) cu_m"
  cu_batch_size :: "('w, int) cu_m"
  cu_progress :: "string \<Rightarrow> ('w, unit) cu_m"

section \<open>One body\<close>

definition cu_block_height :: "pydict \<Rightarrow> int \<Rightarrow> int" where
  "cu_block_height b d =
     (if pget b ''height'' \<noteq> PNone then (case py_int (pget b ''height'') of None \<Rightarrow> d | Some n \<Rightarrow> n)
      else if pget b ''number'' \<noteq> PNone then (case py_int (pget b ''number'') of None \<Rightarrow> d | Some n \<Rightarrow> n)
      else d)"

definition cu_block_hash :: "pydict \<Rightarrow> string" where
  "cu_block_hash b = py_strip (py_str (py_or (py_or (pget b ''hash'') (pget b ''block_hash'')) (PStr [])))"

datatype import_result = IOk | IRefuse | IFail | IReorg

text \<open>Replacing an exception by a value.\<close>

definition or_else :: "'a \<Rightarrow> ('w, 'a) cu_m \<Rightarrow> ('w, 'a) cu_m" where
  "or_else d m = catchM m (\<lambda>_. returnM d)"

definition refuse_body :: "'w cu_ports \<Rightarrow> string \<Rightarrow> ('w, import_result) cu_m" where
  "refuse_body P reason = bindM (cu_bump P reason) (\<lambda>_. returnM IRefuse)"

definition import_failed_at :: "'w cu_ports \<Rightarrow> int \<Rightarrow> ('w, import_result) cu_m" where
  "import_failed_at P h =
     bindM (cu_progress P (''Import failed at #'' @ py_str_int h @ '', aborting batch'')) (\<lambda>_. returnM IFail)"

text \<open>The body is on the chain already.\<close>

definition is_duplicate :: "'w cu_ports \<Rightarrow> int \<Rightarrow> string \<Rightarrow> ('w, bool) cu_m" where
  "is_duplicate P body_h cand =
     (if body_h < 0 then returnM False
      else bindM (or_else None (cu_get_block P (AtHeight body_h))) (\<lambda>existing.
        returnM (case existing of
            None \<Rightarrow> False
          | Some b \<Rightarrow> cand \<noteq> [] \<and> cu_block_hash b \<noteq> [] \<and> py_lower cand = py_lower (cu_block_hash b))))"

definition roll_back :: "'w cu_ports \<Rightarrow> string \<Rightarrow> int \<Rightarrow> ('w, import_result) cu_m" where
  "roll_back P parent fail_h =
     bindM (if parent = [] then returnM None else or_else None (cu_find_ancestor P parent)) (\<lambda>ancestor.
       case ancestor of
         None \<Rightarrow> import_failed_at P fail_h
       | Some a \<Rightarrow>
           bindM (cu_height P) (\<lambda>h.
             if a < h
             then bindM (cu_reorg P a) (\<lambda>ok.
                    if ok
                    then bindM (cu_progress P (''Fork resolved -- reorg to #'' @ py_str_int a @ '', retry import''))
                           (\<lambda>_. returnM IReorg)
                    else import_failed_at P fail_h)
             else import_failed_at P fail_h))"

text \<open>What follows a refused import: an extension of the tip is not a fork, a known body is a duplicate, else roll back.\<close>

definition after_failed_import :: "'w cu_ports \<Rightarrow> cu_peer \<Rightarrow> pydict \<Rightarrow> int \<Rightarrow> ('w, import_result) cu_m" where
  "after_failed_import P peer b expected =
     bindM (cu_note_fail P (cup_id peer)) (\<lambda>_.
       let parent = py_strip (pget_str b ''parent_hash''); cand = cu_block_hash b; body_h = cu_block_height b (- 1);
           fail_h = (if body_h \<ge> 0 then body_h else expected)
       in bindM (cu_head P) (\<lambda>hd.
            let local_head = py_strip hd
            in if parent \<noteq> [] \<and> local_head \<noteq> [] \<and> py_lower parent = py_lower local_head then import_failed_at P fail_h
               else bindM (is_duplicate P body_h cand) (\<lambda>dup.
                 if dup
                 then bindM (cu_progress P (''Duplicate #'' @ py_str_int body_h @ '' already canonical, skip reorg''))
                        (\<lambda>_. returnM IFail)
                 else roll_back P parent fail_h)))"

text \<open>The binds of a body, then its import.\<close>

definition parent_bind :: "'w cu_ports \<Rightarrow> cu_config \<Rightarrow> pydict \<Rightarrow> int \<Rightarrow> ('w, string) cu_m" where
  "parent_bind P cfg b tip_h =
     (let body_h = cu_block_height b (- 1)
      in if body_h \<ge> 0 \<and> tip_h \<ge> 0 \<and> body_h = tip_h + 1 \<and> cuc_parent_bind cfg
         then bindM (cu_head P) (\<lambda>hd. returnM (catch_up_parent_refuse b hd True))
         else returnM [])"

definition tip_bind_refuse :: "cu_config \<Rightarrow> cu_peer \<Rightarrow> pydict \<Rightarrow> bool" where
  "tip_bind_refuse cfg peer b \<longleftrightarrow>
     (let body_h = cu_block_height b (- 1); want = py_strip (cup_head peer); got = cu_block_hash b
      in body_h \<ge> 0 \<and> cup_height peer \<ge> 0 \<and> body_h = cup_height peer \<and> cuc_tip_bind cfg
         \<and> want \<noteq> [] \<and> got \<noteq> [] \<and> py_lower want \<noteq> py_lower got)"

definition gated_import ::
  "'w cu_ports \<Rightarrow> cu_peer \<Rightarrow> cu_config \<Rightarrow> pydict \<Rightarrow> int \<Rightarrow> string \<Rightarrow> ('w, import_result) cu_m" where
  "gated_import P peer cfg b expected contig =
     (if contig \<noteq> [] then refuse_body P contig
      else if tip_bind_refuse cfg peer b then refuse_body P ''catch_up_tip_head_mismatch''
      else bindM (cu_import P b) (\<lambda>ok.
        if ok then returnM IOk else after_failed_import P peer b expected))"

definition import_one :: "'w cu_ports \<Rightarrow> cu_peer \<Rightarrow> cu_config \<Rightarrow> pydict \<Rightarrow> int \<Rightarrow> ('w, import_result) cu_m" where
  "import_one P peer cfg b expected =
     (let cont = height_continuity_refuse b expected (cuc_height_bind cfg)
      in if cont \<noteq> [] then refuse_body P cont
         else bindM (cu_height P) (\<lambda>tip_h.
           bindM (parent_bind P cfg b tip_h) (gated_import P peer cfg b expected)))"

section \<open>A batch\<close>

text \<open>The loop over the bodies: the cursor, the count of imports, whether any was imported, whether the
  batch was aborted; or the error outcome when a body raised.\<close>

record cu_progress_state =
  cps_cursor :: int
  cps_imported :: int
  cps_any :: bool
  cps_abort :: bool

fun import_batch ::
  "'w cu_ports \<Rightarrow> cu_peer \<Rightarrow> cu_config \<Rightarrow> pydict option list \<Rightarrow> cu_progress_state
     \<Rightarrow> ('w, cu_outcome + cu_progress_state) cu_m"
where
  "import_batch P peer cfg [] st = returnM (Inr st)"
| "import_batch P peer cfg (None # bs) st = returnM (Inr (st\<lparr>cps_abort := True\<rparr>))"
| "import_batch P peer cfg (Some b # bs) st =
     bindM (catchM (bindM (import_one P peer cfg b (cps_cursor st)) (\<lambda>r. returnM (Inr r))) (\<lambda>e. returnM (Inl e)))
       (\<lambda>r. case r of
          Inl e \<Rightarrow>
            bindM (cu_height P) (\<lambda>tip.
              bindM (cu_progress P (''Sync block error at #'' @ py_str_int (cps_cursor st) @ '': '' @ e)) (\<lambda>_.
                returnM (Inl (cuo_error ''import_exception'' tip (cup_height peer) (cps_imported st) e))))
        | Inr IRefuse \<Rightarrow> returnM (Inr (st\<lparr>cps_abort := True\<rparr>))
        | Inr IFail \<Rightarrow> returnM (Inr (st\<lparr>cps_abort := True\<rparr>))
        | Inr IReorg \<Rightarrow>
            bindM (cu_height P) (\<lambda>h. returnM (Inr (st\<lparr>cps_cursor := h + 1, cps_any := True, cps_abort := True\<rparr>)))
        | Inr IOk \<Rightarrow>
            import_batch P peer cfg bs
              (st\<lparr>cps_cursor := cu_block_height b (cps_cursor st) + 1, cps_imported := cps_imported st + 1, cps_any := True\<rparr>))"

section \<open>The loop\<close>

text \<open>The end of a call: at the peer's height the head must be the peer's.\<close>

definition cu_finish :: "'w cu_ports \<Rightarrow> cu_peer \<Rightarrow> cu_config \<Rightarrow> int \<Rightarrow> ('w, cu_outcome) cu_m" where
  "cu_finish P peer cfg imported =
     bindM (cu_height P) (\<lambda>tip.
       if tip \<ge> cup_height peer
       then bindM (cu_head P) (\<lambda>hd.
              let refuse = tip_at_height_refuse tip (cup_height peer) hd (cup_head peer) (cuc_tip_bind cfg)
              in if refuse \<noteq> []
                 then bindM (cu_bump P refuse) (\<lambda>_.
                   bindM (cu_progress P (''Sync incomplete tip-head refuse '' @ refuse @ '' tip=#'' @ py_str_int tip)) (\<lambda>_.
                     returnM (cuo_incomplete tip (cup_height peer) imported refuse [])))
                 else bindM (cu_progress P (''Sync complete. Our height: '' @ py_str_int tip)) (\<lambda>_.
                   returnM (cuo_complete tip (cup_height peer) imported)))
       else bindM (cu_progress P (''Sync incomplete. Our height: '' @ py_str_int tip @ '' (peer target #''
                 @ py_str_int (cup_height peer) @ '')'')) (\<lambda>_.
              returnM (cuo_incomplete tip (cup_height peer) imported ''incomplete'' [])))"

datatype cu_next = Done cu_outcome | Again int int

definition after_batch ::
  "'w cu_ports \<Rightarrow> cu_peer \<Rightarrow> cu_config \<Rightarrow> cu_outcome + cu_progress_state \<Rightarrow> ('w, cu_next) cu_m" where
  "after_batch P peer cfg r =
     (case r of
        Inl out \<Rightarrow> returnM (Done out)
      | Inr st \<Rightarrow>
          if \<not> cps_any st
          then bindM (cu_height P) (\<lambda>tip. returnM (Done (cuo_incomplete tip (cup_height peer) (cps_imported st)
                 ''batch_no_progress'' (''cursor='' @ py_str_int (cps_cursor st)))))
          else bindM (cu_height P) (\<lambda>tip.
                 bindM (cu_set_height P (cup_id peer) (max (cup_height peer) tip)) (\<lambda>_.
                   if cps_abort st \<and> cps_cursor st > cup_height peer
                   then bindM (cu_finish P peer cfg (cps_imported st)) (\<lambda>out. returnM (Done out))
                   else returnM (Again (cps_cursor st) (cps_imported st)))))"

definition cu_round :: "'w cu_ports \<Rightarrow> cu_peer \<Rightarrow> cu_config \<Rightarrow> int \<Rightarrow> int \<Rightarrow> ('w, cu_next) cu_m" where
  "cu_round P peer cfg cursor imported =
     bindM (cu_running P) (\<lambda>running.
       if running \<and> cursor \<le> cup_height peer
       then bindM (cu_expected_parent P cursor) (\<lambda>parent.
              bindM (cu_fetch P (cup_id peer) cursor (min (cursor + cuc_batch cfg - 1) (cup_height peer)) parent) (\<lambda>blocks.
                case blocks of
                  None \<Rightarrow>
                    bindM (cu_progress P (''Sync stalled at #'' @ py_str_int cursor @ '' (no blocks response)'')) (\<lambda>_.
                      bindM (cu_height P) (\<lambda>tip.
                        returnM (Done (cuo_stalled tip (cup_height peer) imported ''fetch_stall'' (''cursor='' @ py_str_int cursor)))))
                | Some [] \<Rightarrow>
                    bindM (cu_height P) (\<lambda>tip.
                      returnM (Done (cuo_incomplete tip (cup_height peer) imported ''empty_batch'' (''cursor='' @ py_str_int cursor))))
                | Some (b # bs) \<Rightarrow>
                    bindM (import_batch P peer cfg (b # bs)
                             \<lparr>cps_cursor = cursor, cps_imported = imported, cps_any = False, cps_abort = False\<rparr>)
                      (after_batch P peer cfg)))
       else bindM (cu_finish P peer cfg imported) (\<lambda>out. returnM (Done out)))"

partial_function (option) cu_loop ::
  "'w cu_ports \<Rightarrow> cu_peer \<Rightarrow> cu_config \<Rightarrow> int \<Rightarrow> int \<Rightarrow> 'w \<Rightarrow> ((string + cu_outcome) \<times> 'w) option"
where
  "cu_loop ports peer cfg cursor imported w =
     (case cu_round ports peer cfg cursor imported w of
        (Inl e, w') \<Rightarrow> Some (Inl e, w')
      | (Inr (Done out), w') \<Rightarrow> Some (Inr out, w')
      | (Inr (Again c n), w') \<Rightarrow> cu_loop ports peer cfg c n w')"

declare cu_loop.simps [code]

section \<open>run_ahead\<close>

text \<open>Whether the local store is empty; a port without the method has a block.\<close>

definition needs_genesis :: "'w cu_ports \<Rightarrow> int \<Rightarrow> ('w, bool) cu_m" where
  "needs_genesis P local_h =
     (case cu_needs_genesis P of None \<Rightarrow> returnM False | Some m \<Rightarrow> catchM m (\<lambda>_. returnM (local_h \<le> 0)))"

definition start_cursor :: "bool \<Rightarrow> int \<Rightarrow> int \<Rightarrow> int" where
  "start_cursor needs local_h peer_h =
     (if needs then 0 else if local_h = 0 then (if peer_h = 0 then 0 else 1) else local_h + 1)"

definition refuse_ahead :: "'w cu_ports \<Rightarrow> string \<Rightarrow> int \<Rightarrow> int \<Rightarrow> ('w, cu_outcome option) cu_m" where
  "refuse_ahead P reason h t =
     (if reason = [] then returnM None
      else bindM (cu_bump P reason) (\<lambda>_. returnM (Some (cuo_refused reason h t []))))"

text \<open>The gates before the download: \<open>Some\<close> an outcome that ends the call.\<close>

definition ahead_gates :: "'w cu_ports \<Rightarrow> cu_peer \<Rightarrow> cu_config \<Rightarrow> int \<Rightarrow> bool \<Rightarrow> ('w, cu_outcome option) cu_m" where
  "ahead_gates P peer cfg local_h needs =
     (let peer_h = cup_height peer; hd = py_strip (cup_head peer)
      in if peer_h < local_h \<or> (peer_h = local_h \<and> \<not> needs) \<or> peer_h < 0
         then returnM (Some (cuo_skipped local_h peer_h ''not_ahead''))
         else
           bindM (if hd = [] then returnM None else or_else None (cu_get_block P (OfHash hd))) (\<lambda>blk.
           bindM (refuse_ahead P (ahead_refuse (if needs \<and> local_h = 0 then - 1 else local_h) peer_h hd blk
                    (cuc_require_head cfg)) local_h peer_h) (\<lambda>r1.
             if r1 \<noteq> None then returnM r1
             else
               bindM (if cuc_tip_probe cfg then cu_local_probe P peer else returnM []) (\<lambda>p1.
               bindM (refuse_ahead P p1 local_h peer_h) (\<lambda>r2.
                 if r2 \<noteq> None then returnM r2
                 else
                   bindM (if cuc_head_probe cfg then cu_peer_probe P peer else returnM []) (\<lambda>p2.
                     refuse_ahead P p2 local_h peer_h))))))"

text \<open>Everything before the loop: an outcome, or the cursor it starts at.\<close>

definition run_prologue :: "'w cu_ports \<Rightarrow> cu_peer \<Rightarrow> cu_config \<Rightarrow> ('w, cu_outcome + int) cu_m" where
  "run_prologue P peer cfg =
     bindM (cu_height P) (\<lambda>local_h.
     bindM (needs_genesis P local_h) (\<lambda>needs.
     bindM (ahead_gates P peer cfg local_h needs) (\<lambda>r.
       case r of
         Some out \<Rightarrow> returnM (Inl out)
       | None \<Rightarrow>
           bindM (cu_progress P (''Syncing from #'' @ py_str_int local_h @ '' to #'' @ py_str_int (cup_height peer)
                   @ '' via '' @ take 8 (cup_id peer))) (\<lambda>_.
             returnM (Inr (start_cursor needs local_h (cup_height peer)))))))"

definition run_ahead_inner :: "'w cu_ports \<Rightarrow> cu_peer \<Rightarrow> cu_config \<Rightarrow> 'w \<Rightarrow> ((string + cu_outcome) \<times> 'w) option" where
  "run_ahead_inner P peer cfg w =
     (case run_prologue P peer cfg w of
        (Inl e, w') \<Rightarrow> Some (Inl e, w')
      | (Inr (Inl out), w') \<Rightarrow> Some (Inr out, w')
      | (Inr (Inr cursor), w') \<Rightarrow> cu_loop P peer cfg cursor 0 w')"

text \<open>Any exception becomes an error outcome.\<close>

definition run_ahead :: "'w cu_ports \<Rightarrow> cu_peer \<Rightarrow> cu_config \<Rightarrow> 'w \<Rightarrow> ((string + cu_outcome) \<times> 'w) option" where
  "run_ahead P peer cfg w =
     (case run_ahead_inner P peer cfg w of
        None \<Rightarrow> None
      | Some (Inr out, w') \<Rightarrow> Some (Inr out, w')
      | Some (Inl e, w') \<Rightarrow>
          Some (bindM (cu_height P) (\<lambda>h. returnM (cuo_error ''path_a_exception'' h (cup_height peer) 0 e)) w'))"

text \<open>Without a configuration: the defaults, with the batch size of the side port.\<close>

definition default_config :: "'w cu_ports \<Rightarrow> ('w, cu_config) cu_m" where
  "default_config P =
     bindM (cu_batch_size P) (\<lambda>n.
       returnM (cu_config_init (cu_config_default\<lparr>cuc_batch := max 1 (if n = 0 then 32 else n)\<rparr>)))"

end
