(* ===== verification/CatchUpLaws.thy ===== *)
theory CatchUpLaws
  imports CatchUp ForkLaws
begin

text \<open>
  The contract between the catch-up service and its ports (the locale \<open>catchup_laws\<close>): the chain is a view
  \<open>cv\<close> of the world, which only \<open>import_block\<close> and \<open>reorg_to_ancestor\<close> change, and the chain reads are
  functions of it (the reads of \<open>chain_view\<close>, shared with fork reconciliation). Under it a call changes
  the chain only in the steps of \<open>cu_step\<close>, and completes only at the peer's tip.
\<close>

section \<open>What a call may do to the chain\<close>

text \<open>Body \<open>b\<close> passes the binds at cursor \<open>n\<close> on chain \<open>c\<close>.\<close>

definition body_gate :: "'c chain_view \<Rightarrow> cu_config \<Rightarrow> cu_peer \<Rightarrow> int \<Rightarrow> pydict \<Rightarrow> 'c \<Rightarrow> bool" where
  "body_gate V cfg peer n b c \<longleftrightarrow>
     height_continuity_refuse b n (cuc_height_bind cfg) = [] \<and> \<not> tip_bind_refuse cfg peer b
     \<and> (\<exists>h. cvw_height V c = Inr h
          \<and> (cu_block_height b (- 1) \<ge> 0 \<and> h \<ge> 0 \<and> cu_block_height b (- 1) = h + 1 \<and> cuc_parent_bind cfg
             \<longrightarrow> (\<exists>tip. cvw_head V c = Inr tip \<and> catch_up_parent_refuse b tip True = [])))"

text \<open>The chain may be rolled back to \<open>a\<close> after body \<open>b\<close> was refused on it: its parent is not the tip, and \<open>a\<close>
  is the height of the parent, below the tip.\<close>

definition rollback_gate :: "'c chain_view \<Rightarrow> pydict \<Rightarrow> int \<Rightarrow> 'c \<Rightarrow> bool" where
  "rollback_gate V b a c \<longleftrightarrow>
     (let parent = py_strip (pget_str b ''parent_hash'')
      in parent \<noteq> [] \<and> cvw_ancestor V parent c = Inr (Some a)
         \<and> (\<exists>h tip. cvw_height V c = Inr h \<and> a < h \<and> cvw_head V c = Inr tip
              \<and> (py_strip tip = [] \<or> py_lower parent \<noteq> py_lower (py_strip tip))))"

text \<open>
  A call is at a cursor, the height it asks for next, and a chain. It imports a body that passes the binds at the cursor and
  goes on above it; or the import is refused, which leaves the cursor; or after a refused import the chain is rolled back,
  and when that succeeded the cursor is above the new height.
\<close>

definition after_reorg :: "'c chain_view \<Rightarrow> int \<Rightarrow> bool \<Rightarrow> 'c \<Rightarrow> int" where
  "after_reorg V n ok c = (if ok then (case cvw_height V c of Inr h \<Rightarrow> h + 1 | Inl _ \<Rightarrow> n) else n)"

inductive cu_step ::
  "'c chain_view \<Rightarrow> (pydict \<Rightarrow> 'c \<Rightarrow> (bool \<times> 'c) set) \<Rightarrow> (int \<Rightarrow> 'c \<Rightarrow> (bool \<times> 'c) set) \<Rightarrow> cu_config \<Rightarrow> cu_peer
     \<Rightarrow> int \<times> 'c \<Rightarrow> int \<times> 'c \<Rightarrow> bool"
  for V imp rb cfg peer
where
  take_body: "body_gate V cfg peer n b c \<Longrightarrow> (True, c') \<in> imp b c
    \<Longrightarrow> cu_step V imp rb cfg peer (n, c) (cu_block_height b n + 1, c')"
| refuse_body: "body_gate V cfg peer n b c \<Longrightarrow> (False, c') \<in> imp b c \<Longrightarrow> cu_step V imp rb cfg peer (n, c) (n, c')"
| roll_back: "body_gate V cfg peer n b c \<Longrightarrow> (False, c1) \<in> imp b c \<Longrightarrow> rollback_gate V b a c1 \<Longrightarrow> (ok, c') \<in> rb a c1
    \<Longrightarrow> cu_step V imp rb cfg peer (n, c) (after_reorg V n ok c', c')"

text \<open>The cursors a call may start at: the height above the chain, or the genesis block of an empty one.\<close>

definition first_cursor :: "'c chain_view \<Rightarrow> cu_peer \<Rightarrow> bool \<Rightarrow> 'c \<Rightarrow> int \<Rightarrow> bool" where
  "first_cursor V peer needs c n \<longleftrightarrow> (\<exists>h. cvw_height V c = Inr h \<and> n = start_cursor needs h (cup_height peer))"

text \<open>At the peer's height or above; at the peer's height with the peer's head.\<close>

definition caught_up :: "'c chain_view \<Rightarrow> cu_config \<Rightarrow> cu_peer \<Rightarrow> 'c \<Rightarrow> bool" where
  "caught_up V cfg peer c \<longleftrightarrow>
     (\<exists>h tip. cvw_height V c = Inr h \<and> h \<ge> cup_height peer \<and> cvw_head V c = Inr tip
        \<and> tip_at_height_refuse h (cup_height peer) tip (cup_head peer) (cuc_tip_bind cfg) = [])"

locale catchup_laws =
  fixes P :: "'w cu_ports" and V :: "'c chain_view" and cv :: "'w \<Rightarrow> 'c"
    and imp :: "pydict \<Rightarrow> 'c \<Rightarrow> (bool \<times> 'c) set" and rb :: "int \<Rightarrow> 'c \<Rightarrow> (bool \<times> 'c) set"
  assumes height_read: "fst (cu_height P w) = cvw_height V (cv w) \<and> cv (snd (cu_height P w)) = cv w"
    and head_read: "fst (cu_head P w) = cvw_head V (cv w) \<and> cv (snd (cu_head P w)) = cv w"
    and ancestor_read: "fst (cu_find_ancestor P p w) = cvw_ancestor V p (cv w) \<and> cv (snd (cu_find_ancestor P p w)) = cv w"
    and genesis_keeps: "cu_needs_genesis P = Some m \<Longrightarrow> cv (snd (m w)) = cv w"
    and parent_keeps: "cv (snd (cu_expected_parent P n w)) = cv w"
    and block_keeps: "cv (snd (cu_get_block P k w)) = cv w"
    and fetch_keeps: "cv (snd (cu_fetch P i from to p w)) = cv w"
    and local_probe_keeps: "cv (snd (cu_local_probe P q w)) = cv w"
    and peer_probe_keeps: "cv (snd (cu_peer_probe P q w)) = cv w"
    and bump_keeps: "cv (snd (cu_bump P r w)) = cv w"
    and note_keeps: "cv (snd (cu_note_fail P i w)) = cv w"
    and set_height_keeps: "cv (snd (cu_set_height P i n w)) = cv w"
    and running_keeps: "cv (snd (cu_running P w)) = cv w"
    and progress_keeps: "cv (snd (cu_progress P msg w)) = cv w"
    and import_in: "(fst (cu_import P b w) = Inr True, cv (snd (cu_import P b w))) \<in> imp b (cv w)"
    and reorg_in: "(fst (cu_reorg P a w) = Inr True, cv (snd (cu_reorg P a w))) \<in> rb a (cv w)"
begin

lemma keep_cu:
  assumes "\<And>w. cv (snd (m w)) = cv w" and "cv s = c" and "\<And>a t. cv t = c \<Longrightarrow> Q a t" and "\<And>e t. cv t = c \<Longrightarrow> E e t"
  shows "wpM m Q E s"
proof -
  obtain r t where m: "m s = (r, t)" by fastforce
  with assms(1) [of s] assms(2) have "cv t = c" by simp
  with m assms(3,4) show ?thesis by (cases r) (simp_all add: wpM_def)
qed

lemma read_cu:
  assumes "\<And>w. fst (m w) = g (cv w) \<and> cv (snd (m w)) = cv w" and "cv s = c"
    and "\<And>a t. cv t = c \<Longrightarrow> g c = Inr a \<Longrightarrow> Q a t" and "\<And>e t. cv t = c \<Longrightarrow> E e t"
  shows "wpM m Q E s"
proof -
  obtain r t where m: "m s = (r, t)" by fastforce
  with assms(1) [of s] assms(2) have "cv t = c" "g c = r" by auto
  with m assms(3,4) show ?thesis by (cases r) (simp_all add: wpM_def)
qed

lemma change_cu:
  assumes "\<And>w. (fst (m w) = Inr True, cv (snd (m w))) \<in> f (cv w)" and "cv s = c"
    and "\<And>a t. (a, cv t) \<in> f c \<Longrightarrow> Q a t" and "\<And>e t. (False, cv t) \<in> f c \<Longrightarrow> E e t"
  shows "wpM m Q E s"
proof -
  obtain r t where m: "m s = (r, t)" by fastforce
  with assms(1) [of s] assms(2) have "(r = Inr True, cv t) \<in> f c" by simp
  with m assms(3,4) show ?thesis by (cases r) (auto simp: wpM_def)
qed

lemmas keeps = parent_keeps block_keeps fetch_keeps local_probe_keeps peer_probe_keeps bump_keeps note_keeps
  set_height_keeps running_keeps progress_keeps

lemmas cu_rules = keeps [THEN keep_cu]
  read_cu [where m = "cu_height P" and g = "cvw_height V", OF height_read]
  read_cu [where m = "cu_head P" and g = "cvw_head V", OF head_read]
  read_cu [where m = "cu_find_ancestor P p" and g = "cvw_ancestor V p" for p, OF ancestor_read]

lemmas cu_here = cu_rules [OF refl]

abbreviation step :: "cu_config \<Rightarrow> cu_peer \<Rightarrow> int \<times> 'c \<Rightarrow> int \<times> 'c \<Rightarrow> bool" where
  "step cfg peer \<equiv> cu_step V imp rb cfg peer"

text \<open>One body is one step, or none; what its result says of the cursor.\<close>

fun body_post :: "cu_config \<Rightarrow> cu_peer \<Rightarrow> int \<Rightarrow> pydict \<Rightarrow> 'c \<Rightarrow> import_result \<Rightarrow> 'w \<Rightarrow> bool" where
  "body_post cfg peer n b c IOk t = step cfg peer (n, c) (cu_block_height b n + 1, cv t)"
| "body_post cfg peer n b c IReorg t = step cfg peer (n, c) (after_reorg V n True (cv t), cv t)"
| "body_post cfg peer n b c IRefuse t = (cv t = c)"
| "body_post cfg peer n b c IFail t = step cfg peer (n, c) (n, cv t)"

definition body_exc :: "cu_config \<Rightarrow> cu_peer \<Rightarrow> int \<Rightarrow> 'c \<Rightarrow> 'w \<Rightarrow> bool" where
  "body_exc cfg peer n c t \<longleftrightarrow> cv t = c \<or> (\<exists>m. step cfg peer (n, c) (m, cv t))"

lemma body_exc_intros [intro]: "cv t = c \<Longrightarrow> body_exc cfg peer n c t" "step cfg peer (n, c) (m, cv t) \<Longrightarrow> body_exc cfg peer n c t"
  by (auto simp: body_exc_def)

lemma failed_at_step:
  assumes "step cfg peer (n, c) (n, cv s)"
  shows "wpM (import_failed_at P h) (body_post cfg peer n b c) (\<lambda>_. body_exc cfg peer n c) s"
  unfolding import_failed_at_def wp_bind wp_return by (rule keep_cu [OF progress_keeps refl]) (use assms in auto)

lemma roll_back_step:
  assumes "cv s = c1" "body_gate V cfg peer n b c" "(False, c1) \<in> imp b c" "parent = py_strip (pget_str b ''parent_hash'')"
    and "cvw_head V c1 = Inr tip" "py_strip tip = [] \<or> py_lower parent \<noteq> py_lower (py_strip tip) \<or> parent = []"
  shows "wpM (roll_back P parent fail_h) (body_post cfg peer n b c) (\<lambda>_. body_exc cfg peer n c) s"
proof -
  let ?Q = "body_post cfg peer n b c" let ?E = "\<lambda>_. body_exc cfg peer n c"
  have c1: "step cfg peer (n, c) (n, c1)" using assms(2,3) cu_step.refuse_body by metis
  have here: "?E x t" if "cv t = c1" for x t using that c1 by auto
  have failed: "wpM (import_failed_at P fail_h) ?Q ?E t" if "cv t = c1" for t using failed_at_step that c1 by simp
  show ?thesis
  proof (cases "parent = []")
    case True
    then show ?thesis using failed [OF assms(1)] unfolding roll_back_def by (simp add: wp_rules)
  next
    case False
    have reorg: "wpM (cu_reorg P a) (\<lambda>ok. wpM (if ok then bindM (cu_progress P msg) (\<lambda>_. returnM IReorg) else import_failed_at P fail_h)
          ?Q ?E) ?E u"
      if "cv u = c1" "cvw_ancestor V parent c1 = Inr (Some a)" "cvw_height V c1 = Inr h" "a < h" for a h u msg
    proof (rule change_cu [where f = "rb a", OF reorg_in that(1)])
      have gate: "rollback_gate V b a c1" using that(2-4) assms(4-6) False by (auto simp: rollback_gate_def Let_def)
      have rolled: "step cfg peer (n, c) (after_reorg V n ok (cv t), cv t)" if "(ok, cv t) \<in> rb a c1" for ok t
        by (rule cu_step.roll_back [where imp = imp and rb = rb and b = b]) (rule assms gate that)+
      show "?E e t" if "(False, cv t) \<in> rb a c1" for e t using rolled [OF that] by auto
      show "wpM (if ok then bindM (cu_progress P msg) (\<lambda>_. returnM IReorg) else import_failed_at P fail_h) ?Q ?E t"
        if r: "(ok, cv t) \<in> rb a c1" for ok t
      proof (cases ok)
        case True
        have "wpM (cu_progress P msg) (\<lambda>_ t. step cfg peer (n, c) (after_reorg V n True (cv t), cv t)) ?E t"
          by (rule keep_cu [OF progress_keeps refl]) (use rolled [OF r] True in auto)
        with True show ?thesis by (simp add: wp_rules)
      next
        case no: False
        have "step cfg peer (n, c) (n, cv t)" using rolled [OF r] no by (simp add: after_reorg_def)
        from failed_at_step [OF this] no show ?thesis by simp
      qed
    qed
    have height: "wpM (cu_height P) (\<lambda>h. wpM (if a < h then bindM (cu_reorg P a) (\<lambda>ok.
          if ok then bindM (cu_progress P msg) (\<lambda>_. returnM IReorg) else import_failed_at P fail_h) else import_failed_at P fail_h)
          ?Q ?E) ?E u"
      if "cv u = c1" "cvw_ancestor V parent c1 = Inr (Some a)" for a u msg
      by (rule read_cu [where g = "cvw_height V", OF height_read that(1)])
        (auto simp: here wp_bind [of "cu_reorg P a"] reorg that(2) failed)
    have "wpM (or_else None (cu_find_ancestor P parent)) (\<lambda>r. wpM (case r of None \<Rightarrow> import_failed_at P fail_h
          | Some a \<Rightarrow> bindM (cu_height P) (\<lambda>h. if a < h then bindM (cu_reorg P a) (\<lambda>ok.
              if ok then bindM (cu_progress P (''Fork resolved -- reorg to #'' @ py_str_int a @ '', retry import'')) (\<lambda>_. returnM IReorg)
              else import_failed_at P fail_h) else import_failed_at P fail_h)) ?Q ?E) ?E s"
      unfolding or_else_def wp_catch wp_return
      by (rule read_cu [where g = "cvw_ancestor V parent", OF ancestor_read assms(1)])
        (auto simp: failed wp_bind [of "cu_height P"] height split: option.split)
    with False show ?thesis by (simp add: roll_back_def wp_bind [of "or_else _ _"])
  qed
qed

lemma after_failed_step:
  assumes "cv s = c1" "body_gate V cfg peer n b c" "(False, c1) \<in> imp b c"
  shows "wpM (after_failed_import P peer b m) (body_post cfg peer n b c) (\<lambda>_. body_exc cfg peer n c) s"
proof -
  let ?Q = "body_post cfg peer n b c" let ?E = "\<lambda>_. body_exc cfg peer n c" let ?parent = "py_strip (pget_str b ''parent_hash'')"
  have c1: "step cfg peer (n, c) (n, c1)" using assms(2,3) cu_step.refuse_body by metis
  have here: "?E x t" if "cv t = c1" for x t using that c1 by auto
  have failed: "wpM (import_failed_at P h) ?Q ?E t" if "cv t = c1" for h t using failed_at_step that c1 by simp
  have skip: "wpM (bindM (cu_progress P msg) (\<lambda>_. returnM IFail)) ?Q ?E t" if "cv t = c1" for msg t
    unfolding wp_bind wp_return by (rule keep_cu [OF progress_keeps that]) (use c1 in auto)
  have dup: "wpM (is_duplicate P h cand) Q ?E u"
    if "cv u = c1" "\<And>x t. cv t = c1 \<Longrightarrow> Q x t" for h cand u Q
    unfolding is_duplicate_def or_else_def using that here by (auto simp: wp_rules intro!: cu_rules)
  have tail: "wpM (is_duplicate P h cand) (\<lambda>d. wpM (if d then bindM (cu_progress P msg) (\<lambda>_. returnM IFail) else roll_back P ?parent fail_h)
      ?Q ?E) ?E u"
    if "cv u = c1" "cvw_head V c1 = Inr tip" "py_strip tip = [] \<or> py_lower ?parent \<noteq> py_lower (py_strip tip) \<or> ?parent = []"
    for h cand fail_h msg tip u
    by (rule dup [OF that(1)]) (use roll_back_step [OF _ assms(2,3) refl that(2,3)] skip in auto)
  have head: "wpM (cu_head P) (\<lambda>hd. wpM (if ?parent \<noteq> [] \<and> py_strip hd \<noteq> [] \<and> py_lower ?parent = py_lower (py_strip hd)
        then import_failed_at P fail_h
        else bindM (is_duplicate P h cand) (\<lambda>d. if d then bindM (cu_progress P msg) (\<lambda>_. returnM IFail) else roll_back P ?parent fail_h))
      ?Q ?E) ?E u" if "cv u = c1" for u h cand fail_h msg
  proof (rule read_cu [where g = "cvw_head V", OF head_read that])
    fix tip t
    assume t: "cv t = c1" "cvw_head V c1 = Inr tip"
    show "wpM (if ?parent \<noteq> [] \<and> py_strip tip \<noteq> [] \<and> py_lower ?parent = py_lower (py_strip tip)
        then import_failed_at P fail_h
        else bindM (is_duplicate P h cand) (\<lambda>d. if d then bindM (cu_progress P msg) (\<lambda>_. returnM IFail) else roll_back P ?parent fail_h))
      ?Q ?E t"
      using failed [OF t(1)] tail [OF t] by (auto simp: wp_bind [of "is_duplicate P h cand"])
  qed (rule here)
  show ?thesis
    unfolding after_failed_import_def Let_def wp_bind [of "cu_note_fail _ _"]
    by (rule keep_cu [OF note_keeps assms(1)]) (simp_all only: here wp_bind [of "cu_head P"] head)
qed

lemma refuse_body_step: "cv s = c \<Longrightarrow> wpM (refuse_body P r) (body_post cfg peer n b c) (\<lambda>_. body_exc cfg peer n c) s"
  unfolding refuse_body_def wp_bind wp_return by (rule keep_cu [OF bump_keeps]) auto

lemma gated_import_step:
  assumes "cv s = c" "contig = [] \<Longrightarrow> \<not> tip_bind_refuse cfg peer b \<Longrightarrow> body_gate V cfg peer n b c"
  shows "wpM (gated_import P peer cfg b n contig) (body_post cfg peer n b c) (\<lambda>_. body_exc cfg peer n c) s"
proof (cases "contig = [] \<and> \<not> tip_bind_refuse cfg peer b")
  case True
  then have gate: "body_gate V cfg peer n b c" using assms(2) by blast
  have "wpM (cu_import P b) (\<lambda>ok. wpM (if ok then returnM IOk else after_failed_import P peer b n)
      (body_post cfg peer n b c) (\<lambda>_. body_exc cfg peer n c)) (\<lambda>_. body_exc cfg peer n c) s"
  proof (rule change_cu [where f = "imp b", OF import_in assms(1)])
    show "body_exc cfg peer n c t" if "(False, cv t) \<in> imp b c" for e t using cu_step.refuse_body [where imp = imp and rb = rb, OF gate that] by auto
    show "wpM (if ok then returnM IOk else after_failed_import P peer b n) (body_post cfg peer n b c) (\<lambda>_. body_exc cfg peer n c) t"
      if i: "(ok, cv t) \<in> imp b c" for ok t
      using i take_body [OF gate, of "cv t" imp rb] after_failed_step [OF refl gate, of t n] by (cases ok) (simp_all add: wp_return)
  qed
  with True show ?thesis by (simp add: gated_import_def wp_bind)
next
  case False
  then show ?thesis using refuse_body_step [OF assms(1)] by (auto simp: gated_import_def)
qed

lemma import_one_step:
  assumes "cv s = c"
  shows "wpM (import_one P peer cfg b n) (body_post cfg peer n b c) (\<lambda>_. body_exc cfg peer n c) s"
proof (cases "height_continuity_refuse b n (cuc_height_bind cfg) = []")
  case True
  have bind: "wpM (parent_bind P cfg b h) (\<lambda>contig. wpM (gated_import P peer cfg b n contig)
      (body_post cfg peer n b c) (\<lambda>_. body_exc cfg peer n c)) (\<lambda>_. body_exc cfg peer n c) u"
    if "cv u = c" "cvw_height V c = Inr h" for h u
  proof (cases "cu_block_height b (- 1) \<ge> 0 \<and> h \<ge> 0 \<and> cu_block_height b (- 1) = h + 1 \<and> cuc_parent_bind cfg")
    case bound: True
    have "wpM (cu_head P) (\<lambda>tip. wpM (gated_import P peer cfg b n (catch_up_parent_refuse b tip True))
        (body_post cfg peer n b c) (\<lambda>_. body_exc cfg peer n c)) (\<lambda>_. body_exc cfg peer n c) u"
      by (rule read_cu [where g = "cvw_head V", OF head_read that(1)])
        (use that(2) True in \<open>auto simp: body_gate_def intro!: gated_import_step\<close>)
    with bound show ?thesis by (simp add: parent_bind_def wp_rules)
  next
    case False
    then show ?thesis using gated_import_step [of u c "[]" cfg peer b n] that True
      by (auto simp: parent_bind_def wp_rules body_gate_def Let_def)
  qed
  show ?thesis
    using True by (simp add: import_one_def wp_bind)
      (rule read_cu [where g = "cvw_height V", OF height_read assms], auto simp: bind)
next
  case False
  then show ?thesis using refuse_body_step [OF assms] by (simp add: import_one_def Let_def)
qed

text \<open>The chains a call can reach, and what its outcome promises of the last one.\<close>

definition reach :: "cu_config \<Rightarrow> cu_peer \<Rightarrow> int \<times> 'c \<Rightarrow> int \<times> 'c \<Rightarrow> bool" where
  "reach cfg peer = (step cfg peer)\<^sup>*\<^sup>*"

definition ended :: "cu_config \<Rightarrow> cu_peer \<Rightarrow> int \<times> 'c \<Rightarrow> 'w \<Rightarrow> bool" where
  "ended cfg peer p t \<longleftrightarrow> (\<exists>m. reach cfg peer p (m, cv t))"

lemma reach_intros [simp, intro]:
  "reach cfg peer p p" "reach cfg peer p q \<Longrightarrow> step cfg peer q q' \<Longrightarrow> reach cfg peer p q'"
  by (auto simp: reach_def)

lemma ended_intro [intro]: "reach cfg peer p (m, cv t) \<Longrightarrow> ended cfg peer p t"
  by (auto simp: ended_def)

lemma ended_same: "ended cfg peer p s \<Longrightarrow> cv t = cv s \<Longrightarrow> ended cfg peer p t"
  by (simp add: ended_def)

lemma exc_ended: "reach cfg peer p (n, c) \<Longrightarrow> body_exc cfg peer n c t \<Longrightarrow> ended cfg peer p t"
  by (auto simp: body_exc_def ended_def)

definition honest_outcome :: "cu_config \<Rightarrow> cu_peer \<Rightarrow> int \<times> 'c \<Rightarrow> cu_outcome \<Rightarrow> 'w \<Rightarrow> bool" where
  "honest_outcome cfg peer p out t \<longleftrightarrow>
     ended cfg peer p t \<and> (cuo_status out = CU_Complete \<longrightarrow> caught_up V cfg peer (cv t))"

text \<open>A read or a side effect at the end of a call.\<close>

lemma height_keeps: "cv (snd (cu_height P w)) = cv w" and head_keeps: "cv (snd (cu_head P w)) = cv w"
  by (simp_all add: height_read head_read)

lemma ended_here:
  "ended cfg peer p s \<Longrightarrow> (\<And>w. cv (snd (m w)) = cv w) \<Longrightarrow> (\<And>a t. ended cfg peer p t \<Longrightarrow> Q a t)
     \<Longrightarrow> wpM m Q (\<lambda>_. ended cfg peer p) s"
  by (rule keep_cu) (auto intro: ended_same)

lemma reach_here:
  "reach cfg peer p (n, cv s) \<Longrightarrow> (\<And>w. cv (snd (m w)) = cv w) \<Longrightarrow> (\<And>a t. reach cfg peer p (n, cv t) \<Longrightarrow> Q a t)
     \<Longrightarrow> wpM m Q (\<lambda>_. ended cfg peer p) s"
  by (rule keep_cu) auto

fun batch_post :: "cu_config \<Rightarrow> cu_peer \<Rightarrow> int \<times> 'c \<Rightarrow> cu_outcome + cu_progress_state \<Rightarrow> 'w \<Rightarrow> bool" where
  "batch_post cfg peer p (Inl out) t \<longleftrightarrow> ended cfg peer p t \<and> cuo_status out \<noteq> CU_Complete"
| "batch_post cfg peer p (Inr st) t \<longleftrightarrow> reach cfg peer p (cps_cursor st, cv t)"

lemma import_batch_reach:
  "reach cfg peer p (cps_cursor st, cv s) \<Longrightarrow>
     wpM (import_batch P peer cfg bs st) (batch_post cfg peer p) (\<lambda>_. ended cfg peer p) s"
proof (induction bs arbitrary: st s)
  case (Cons bo bs)
  show ?case
  proof (cases bo)
    case (Some b)
    have err: "wpM (bindM (cu_height P) (\<lambda>tip. bindM (cu_progress P (msg tip)) (\<lambda>_.
          returnM (Inl (cuo_error ''import_exception'' tip (cup_height peer) k e)))))
        (batch_post cfg peer p) (\<lambda>_. ended cfg peer p) t" if "ended cfg peer p t" for msg k e t
      using that by (auto simp: wp_rules cuo_error_def intro!: ended_here height_keeps progress_keeps)
    have reorg: "wpM (bindM (cu_height P) (\<lambda>h. returnM (Inr (st\<lparr>cps_cursor := h + 1, cps_any := True, cps_abort := True\<rparr>))))
        (batch_post cfg peer p) (\<lambda>_. ended cfg peer p) t" if "reach cfg peer p (after_reorg V n True (cv t), cv t)" for n t
      unfolding wp_bind wp_return
      by (rule read_cu [where g = "cvw_height V", OF height_read refl]) (use that in \<open>auto simp: after_reorg_def ended_def\<close>)
    have body: "wpM (case r of
          Inl e \<Rightarrow> bindM (cu_height P) (\<lambda>tip. bindM (cu_progress P (''Sync block error at #'' @ py_str_int (cps_cursor st) @ '': '' @ e)) (\<lambda>_.
                returnM (Inl (cuo_error ''import_exception'' tip (cup_height peer) (cps_imported st) e))))
        | Inr IRefuse \<Rightarrow> returnM (Inr (st\<lparr>cps_abort := True\<rparr>))
        | Inr IFail \<Rightarrow> returnM (Inr (st\<lparr>cps_abort := True\<rparr>))
        | Inr IReorg \<Rightarrow> bindM (cu_height P) (\<lambda>h. returnM (Inr (st\<lparr>cps_cursor := h + 1, cps_any := True, cps_abort := True\<rparr>)))
        | Inr IOk \<Rightarrow> import_batch P peer cfg bs
              (st\<lparr>cps_cursor := cu_block_height b (cps_cursor st) + 1, cps_imported := cps_imported st + 1, cps_any := True\<rparr>))
      (batch_post cfg peer p) (\<lambda>_. ended cfg peer p) t"
      if "case r of Inl e \<Rightarrow> body_exc cfg peer (cps_cursor st) (cv s) t | Inr x \<Rightarrow> body_post cfg peer (cps_cursor st) b (cv s) x t" for r t
    proof (cases r)
      case (Inl e)
      then show ?thesis using err exc_ended [OF Cons.prems] that by simp
    next
      case (Inr x)
      show ?thesis
      proof (cases x)
        case IOk
        then have "reach cfg peer p (cu_block_height b (cps_cursor st) + 1, cv t)" using Inr that Cons.prems by auto
        then show ?thesis using Inr IOk by (auto intro: Cons.IH)
      next
        case IReorg
        then have "reach cfg peer p (after_reorg V (cps_cursor st) True (cv t), cv t)" using Inr that Cons.prems by auto
        then show ?thesis using Inr IReorg reorg by simp
      qed (use Inr that Cons.prems in \<open>auto simp: wp_return\<close>)
    qed
    show ?thesis unfolding Some import_batch.simps wp_bind wp_catch wp_return
      by (rule wp_mono [OF import_one_step [OF refl]]) (rule body, simp)+
  qed (use Cons.prems in \<open>simp add: wp_rules\<close>)
qed (simp add: wp_rules)

lemma finish_honest:
  assumes "ended cfg peer p s"
  shows "wpM (cu_finish P peer cfg n) (honest_outcome cfg peer p) (\<lambda>_. ended cfg peer p) s"
proof -
  have here: "ended cfg peer p t" if "cv t = cv s" for t using ended_same [OF assms that] .
  have head: "wpM (cu_head P) (\<lambda>hd. wpM (let refuse = tip_at_height_refuse tip (cup_height peer) hd (cup_head peer) (cuc_tip_bind cfg)
              in if refuse \<noteq> []
                 then bindM (cu_bump P refuse) (\<lambda>_.
                   bindM (cu_progress P (''Sync incomplete tip-head refuse '' @ refuse @ '' tip=#'' @ py_str_int tip)) (\<lambda>_.
                     returnM (cuo_incomplete tip (cup_height peer) n refuse [])))
                 else bindM (cu_progress P (''Sync complete. Our height: '' @ py_str_int tip)) (\<lambda>_.
                   returnM (cuo_complete tip (cup_height peer) n)))
          (honest_outcome cfg peer p) (\<lambda>_. ended cfg peer p)) (\<lambda>_. ended cfg peer p) u"
    if "cv u = cv s" "cvw_height V (cv s) = Inr tip" "tip \<ge> cup_height peer" for u tip
    by (rule read_cu [where g = "cvw_head V", OF head_read that(1)])
      (use that(2,3) here in \<open>auto simp: Let_def wp_rules honest_outcome_def caught_up_def cuo_incomplete_def cuo_complete_def
        intro!: cu_rules\<close>)
  show ?thesis unfolding cu_finish_def wp_bind [of "cu_height P"]
    by (rule read_cu [where g = "cvw_height V", OF height_read refl])
      (use here in \<open>auto simp: wp_bind [of "cu_head P"] head wp_bind [of "cu_progress P _"] wp_return honest_outcome_def
        cuo_incomplete_def intro!: cu_rules\<close>)
qed

text \<open>One turn of the loop, and the loop.\<close>

definition honest_next :: "cu_config \<Rightarrow> cu_peer \<Rightarrow> int \<times> 'c \<Rightarrow> cu_next \<Rightarrow> 'w \<Rightarrow> bool" where
  "honest_next cfg peer p r t \<longleftrightarrow>
     (case r of Done out \<Rightarrow> honest_outcome cfg peer p out t | Again n k \<Rightarrow> reach cfg peer p (n, cv t))"

lemma finish_done:
  assumes "ended cfg peer p s"
  shows "wpM (bindM (cu_finish P peer cfg n) (\<lambda>out. returnM (Done out))) (honest_next cfg peer p) (\<lambda>_. ended cfg peer p) s"
  unfolding wp_bind wp_return by (rule wp_mono [OF finish_honest [OF assms]]) (simp_all add: honest_next_def)

lemma after_batch_honest:
  assumes "batch_post cfg peer p r s"
  shows "wpM (after_batch P peer cfg r) (honest_next cfg peer p) (\<lambda>_. ended cfg peer p) s"
proof (cases r)
  case (Inl out)
  then show ?thesis using assms by (simp add: after_batch_def wp_return honest_next_def honest_outcome_def)
next
  case (Inr st)
  show ?thesis
  proof (cases "cps_any st")
    case True
    then show ?thesis using assms Inr
      by (auto simp: after_batch_def wp_bind [of "cu_height P"] wp_bind [of "cu_set_height P _ _"] wp_return
        wp_if honest_next_def intro!: reach_here height_keeps set_height_keeps finish_done)
  next
    case False
    then show ?thesis using assms Inr
      by (auto simp: after_batch_def wp_rules honest_next_def honest_outcome_def cuo_incomplete_def
        intro!: reach_here height_keeps)
  qed
qed

lemma round_honest:
  assumes "reach cfg peer p (n, cv s)"
  shows "wpM (cu_round P peer cfg n k) (honest_next cfg peer p) (\<lambda>_. ended cfg peer p) s"
proof -
  let ?st = "\<lparr>cps_cursor = n, cps_imported = k, cps_any = False, cps_abort = False\<rparr>"
  have batch: "wpM (bindM (import_batch P peer cfg bs ?st) (after_batch P peer cfg)) (honest_next cfg peer p)
      (\<lambda>_. ended cfg peer p) u" if "reach cfg peer p (n, cv u)" for bs u
  proof -
    have "reach cfg peer p (cps_cursor ?st, cv u)" using that by simp
    then show ?thesis unfolding wp_bind by (rule wp_mono [OF import_batch_reach]) (auto intro: after_batch_honest)
  qed
  have blocks: "wpM (case blocks of
        None \<Rightarrow>
          bindM (cu_progress P m1) (\<lambda>_. bindM (cu_height P) (\<lambda>tip. returnM (Done (cuo_stalled tip (cup_height peer) k m2 m3))))
      | Some [] \<Rightarrow> bindM (cu_height P) (\<lambda>tip. returnM (Done (cuo_incomplete tip (cup_height peer) k m4 m5)))
      | Some (b # bs) \<Rightarrow> bindM (import_batch P peer cfg (b # bs) ?st) (after_batch P peer cfg))
    (honest_next cfg peer p) (\<lambda>_. ended cfg peer p) u"
    if "reach cfg peer p (n, cv u)" for blocks m1 m2 m3 m4 m5 u
    using that batch
    by (auto simp: wp_bind [of "cu_progress P _"] wp_bind [of "cu_height P"] wp_return honest_next_def honest_outcome_def
      cuo_stalled_def cuo_incomplete_def split: option.split list.split intro!: reach_here height_keeps progress_keeps)
  show ?thesis
    unfolding cu_round_def wp_bind [of "cu_running P"]
    by (rule reach_here [OF assms running_keeps])
      (auto simp: wp_if wp_bind [of "cu_expected_parent P _"] wp_bind [of "cu_fetch P _ _ _ _"] simp del: wp_bind
        intro!: finish_done reach_here parent_keeps fetch_keeps blocks)
qed

lemma loop_honest:
  assumes "reach cfg peer p (n, cv s)" "cu_loop P peer cfg n k s = Some (r, t)"
  shows "case r of Inl e \<Rightarrow> ended cfg peer p t | Inr out \<Rightarrow> honest_outcome cfg peer p out t"
proof -
  let ?G = "\<lambda>Q q d (m :: int) (j :: int) u y. Q = P \<longrightarrow> q = peer \<longrightarrow> d = cfg \<longrightarrow> reach cfg peer p (m, cv u)
    \<longrightarrow> (case fst y of Inl (e :: string) \<Rightarrow> ended cfg peer p (snd y) | Inr out \<Rightarrow> honest_outcome cfg peer p out (snd y))"
  have "?G P peer cfg n k s (r, t)"
  proof (rule cu_loop.raw_induct [where P = ?G, OF _ assms(2)], intro impI)
    fix f Q q d m j u y
    assume IH: "\<And>Q q d m j u y. f Q q d m j u = Some y \<Longrightarrow> ?G Q q d m j u y"
      and body: "(case cu_round Q q d m j u of
          (Inl e, w') \<Rightarrow> Some (Inl e, w')
        | (Inr (Done out), w') \<Rightarrow> Some (Inr out, w')
        | (Inr (Again c n), w') \<Rightarrow> f Q q d c n w') = Some y"
      and eq: "Q = P" "q = peer" "d = cfg" and u: "reach cfg peer p (m, cv u)"
    obtain x w' where x: "cu_round P peer cfg m j u = (x, w')" by fastforce
    with round_honest [OF u, of j]
    have post: "case x of Inl e \<Rightarrow> ended cfg peer p w' | Inr nx \<Rightarrow> honest_next cfg peer p nx w'"
      by (simp add: wpM_def split: sum.splits)
    show "case fst y of Inl e \<Rightarrow> ended cfg peer p (snd y) | Inr out \<Rightarrow> honest_outcome cfg peer p out (snd y)"
    proof (cases x)
      case (Inl e)
      then show ?thesis using body post by (auto simp: eq x)
    next
      case (Inr nx)
      show ?thesis
      proof (cases nx)
        case (Done out)
        then show ?thesis using body post Inr by (auto simp: eq x honest_next_def)
      next
        case (Again n' k')
        then have "f P peer cfg n' k' w' = Some y" "reach cfg peer p (n', cv w')"
          using body post Inr by (simp_all add: eq x honest_next_def)
        with IH show ?thesis by blast
      qed
    qed
  qed
  with assms(1) show ?thesis by (simp split: sum.splits)
qed

text \<open>The gates, the prologue and the whole call. Up to the loop the chain is as it was.\<close>

lemma same_here:
  "cv s = c \<Longrightarrow> (\<And>w. cv (snd (m w)) = cv w) \<Longrightarrow> (\<And>a t. cv t = c \<Longrightarrow> Q a t) \<Longrightarrow> wpM m Q (\<lambda>_ t. cv t = c) s"
  by (rule keep_cu) auto

lemma refuse_ahead_same:
  "cv s = c \<Longrightarrow>
     wpM (refuse_ahead P m h n) (\<lambda>r t. cv t = c \<and> (\<forall>out. r = Some out \<longrightarrow> cuo_status out \<noteq> CU_Complete)) (\<lambda>_ t. cv t = c) s"
  unfolding refuse_ahead_def by (auto simp: wp_rules cuo_refused_def intro!: same_here bump_keeps)

lemma probe_same:
  assumes "cv s = c" "\<And>w. cv (snd (m w)) = cv w" "\<And>r t. cv t = c \<Longrightarrow> wpM (f r) Q (\<lambda>_ t. cv t = c) t"
  shows "wpM (if b then m else returnM []) (\<lambda>r. wpM (f r) Q (\<lambda>_ t. cv t = c)) (\<lambda>_ t. cv t = c) s"
proof (cases b)
  case True
  have "wpM m (\<lambda>r. wpM (f r) Q (\<lambda>_ t. cv t = c)) (\<lambda>_ t. cv t = c) s" by (rule same_here [OF assms(1,2)]) (rule assms(3))
  with True show ?thesis by simp
qed (simp add: wp_return assms)

lemma ahead_gates_same:
  assumes "cv s = c"
  shows "wpM (ahead_gates P peer cfg h needs)
           (\<lambda>r t. cv t = c \<and> (\<forall>out. r = Some out \<longrightarrow> cuo_status out \<noteq> CU_Complete)) (\<lambda>_ t. cv t = c) s"
proof -
  let ?E = "\<lambda>_ t. cv t = c"
  let ?Q = "\<lambda>r t. cv t = c \<and> (\<forall>out. r = Some out \<longrightarrow> cuo_status out \<noteq> CU_Complete)"
  have last: "wpM (bindM (if cuc_head_probe cfg then cu_peer_probe P peer else returnM []) (\<lambda>p. refuse_ahead P p h k)) ?Q ?E u"
    if "cv u = c" for k u
    unfolding wp_bind by (rule probe_same [OF that peer_probe_keeps refuse_ahead_same])
  have refused: "wpM (bindM (refuse_ahead P m h k) (\<lambda>r. if r \<noteq> None then returnM r else f)) ?Q ?E u"
    if "cv u = c" "\<And>t. cv t = c \<Longrightarrow> wpM f ?Q ?E t" for m k f u
    unfolding wp_bind
    by (rule wp_mono [OF refuse_ahead_same [OF that(1)]]) (use that(2) in \<open>auto simp: wp_return\<close>)
  have middle: "wpM (bindM (if cuc_tip_probe cfg then cu_local_probe P peer else returnM []) (\<lambda>p.
      bindM (refuse_ahead P p h k) (\<lambda>r. if r \<noteq> None then returnM r
        else bindM (if cuc_head_probe cfg then cu_peer_probe P peer else returnM []) (\<lambda>p. refuse_ahead P p h k)))) ?Q ?E u"
    if "cv u = c" for k u
    unfolding wp_bind [of "if _ then cu_local_probe P peer else _"]
    by (rule probe_same [OF that local_probe_keeps]) (rule refused, assumption, rule last)
  have block: "wpM (if b then returnM None else or_else None (cu_get_block P k)) Q ?E u"
    if "cv u = c" "\<And>r t. cv t = c \<Longrightarrow> Q r t" for b k Q u
    using that by (auto simp: or_else_def wp_rules intro!: keep_cu [OF block_keeps refl])
  show ?thesis
  proof (cases "cup_height peer < h \<or> (cup_height peer = h \<and> \<not> needs) \<or> cup_height peer < 0")
    case True
    then show ?thesis using assms by (simp add: ahead_gates_def Let_def wp_return cuo_skipped_def)
  next
    case False
    show ?thesis unfolding ahead_gates_def Let_def if_not_P [OF False] wp_bind [of "if _ then _ else or_else _ _"]
      by (rule block [OF assms]) (rule refused, assumption, rule middle)
  qed
qed

definition prologue_post :: "cu_peer \<Rightarrow> 'c \<Rightarrow> cu_outcome + int \<Rightarrow> bool" where
  "prologue_post peer c r \<longleftrightarrow>
     (case r of Inl out \<Rightarrow> cuo_status out \<noteq> CU_Complete
      | Inr n \<Rightarrow> (\<exists>needs. first_cursor V peer needs c n \<and> (needs \<longrightarrow> cu_needs_genesis P \<noteq> None)))"

lemma prologue_same:
  assumes "cv s = c"
  shows "wpM (run_prologue P peer cfg) (\<lambda>r t. cv t = c \<and> prologue_post peer c r) (\<lambda>_ t. cv t = c) s"
proof -
  let ?E = "\<lambda>_ t. cv t = c"
  have needs: "wpM (needs_genesis P h) Q ?E u"
    if "cv u = c" "\<And>r t. cv t = c \<Longrightarrow> (r \<longrightarrow> cu_needs_genesis P \<noteq> None) \<Longrightarrow> Q r t" for h Q u
    using that genesis_keeps
    by (auto simp: needs_genesis_def wp_rules split: option.split intro!: keep_cu [OF genesis_keeps refl])
  have rest: "wpM (needs_genesis P h) (\<lambda>needs. wpM (ahead_gates P peer cfg h needs) (\<lambda>r. wpM (case r of
         Some out \<Rightarrow> returnM (Inl out)
       | None \<Rightarrow> bindM (cu_progress P (m h)) (\<lambda>_. returnM (Inr (start_cursor needs h (cup_height peer)))))
       (\<lambda>r t. cv t = c \<and> prologue_post peer c r) ?E) ?E) ?E u"
    if "cv u = c" "cvw_height V c = Inr h" for h u m
  proof (rule needs [OF that(1)])
    fix g t
    assume t: "cv t = c" "g \<longrightarrow> cu_needs_genesis P \<noteq> None"
    have start: "prologue_post peer c (Inr (start_cursor g h (cup_height peer)))"
      using that(2) t(2) unfolding prologue_post_def first_cursor_def by auto
    show "wpM (ahead_gates P peer cfg h g) (\<lambda>r. wpM (case r of
         Some out \<Rightarrow> returnM (Inl out)
       | None \<Rightarrow> bindM (cu_progress P (m h)) (\<lambda>_. returnM (Inr (start_cursor g h (cup_height peer)))))
       (\<lambda>r t. cv t = c \<and> prologue_post peer c r) ?E) ?E t"
      by (rule wp_mono [OF ahead_gates_same [OF t(1)]])
        (use start in \<open>auto simp: wp_return wp_bind prologue_post_def split: option.split intro!: same_here progress_keeps\<close>)
  qed
  show ?thesis
    unfolding run_prologue_def wp_bind [of "cu_height P"] wp_bind [of "needs_genesis P _"] wp_bind [of "ahead_gates _ _ _ _ _"]
    by (rule read_cu [where g = "cvw_height V", OF height_read assms]) (rule rest, assumption+)
qed

text \<open>The chain is as it was, or the call went its steps from the first cursor.\<close>

definition call_reach :: "cu_config \<Rightarrow> cu_peer \<Rightarrow> 'c \<Rightarrow> 'c \<Rightarrow> bool" where
  "call_reach cfg peer c c' \<longleftrightarrow> c' = c
     \<or> (\<exists>needs n m. first_cursor V peer needs c n \<and> (needs \<longrightarrow> cu_needs_genesis P \<noteq> None) \<and> reach cfg peer (n, c) (m, c'))"

theorem run_ahead_honest:
  assumes "run_ahead P peer cfg s = Some (r, t)"
  shows "call_reach cfg peer (cv s) (cv t)
    \<and> (\<forall>out. r = Inr out \<longrightarrow> cuo_status out = CU_Complete \<longrightarrow> caught_up V cfg peer (cv t))"
proof -
  let ?good = "\<lambda>r t. call_reach cfg peer (cv s) (cv t)
    \<and> (\<forall>out. r = Inr out \<longrightarrow> cuo_status out = CU_Complete \<longrightarrow> caught_up V cfg peer (cv t))"
  obtain x w where inner: "run_ahead_inner P peer cfg s = Some (x, w)"
    using assms by (auto simp: run_ahead_def split: option.splits)
  have good: "?good x w"
  proof -
    obtain y u where pro: "run_prologue P peer cfg s = (y, u)" by fastforce
    have start: "cv u = cv s" "\<And>r. y = Inr r \<Longrightarrow> prologue_post peer (cv s) r"
      using prologue_same [OF refl, where s = s and cfg = cfg and peer = peer] pro by (auto simp: wpM_def split: sum.splits)
    show ?thesis
    proof (cases "\<exists>n. y = Inr (Inr n)")
      case True
      then obtain n where n: "y = Inr (Inr n)" by blast
      then have run: "cu_loop P peer cfg n 0 u = Some (x, w)" using inner pro by (simp add: run_ahead_inner_def)
      obtain needs where first: "first_cursor V peer needs (cv s) n" "needs \<longrightarrow> cu_needs_genesis P \<noteq> None"
        using start(2) [OF n] by (auto simp: prologue_post_def)
      have "reach cfg peer (n, cv s) (n, cv u)" using start(1) by simp
      from loop_honest [OF this run] first show ?thesis
        unfolding call_reach_def honest_outcome_def ended_def by (cases x) auto
    next
      case False
      then show ?thesis using inner pro start
        by (cases y) (auto simp: run_ahead_inner_def call_reach_def prologue_post_def split: sum.splits)
    qed
  qed
  show ?thesis
  proof (cases x)
    case (Inl e)
    have "wpM (bindM (cu_height P) (\<lambda>h. returnM (cuo_error ''path_a_exception'' h (cup_height peer) 0 e)))
        (\<lambda>out t. ?good (Inr out) t) (\<lambda>e t. ?good (Inl e) t) w"
      unfolding wp_bind wp_return
      by (rule keep_cu [OF height_keeps refl]) (use good in \<open>simp_all add: cuo_error_def\<close>)
    then show ?thesis using assms inner Inl by (auto simp: run_ahead_def wpM_def split: sum.splits)
  next
    case (Inr out)
    then show ?thesis using assms inner good by (auto simp: run_ahead_def)
  qed
qed

end

end
