(* ===== verification/CatchUpAdapters.thy ===== *)
theory CatchUpAdapters
  imports CatchUpLaws
begin

text \<open>
  The adapters of \<open>network/catchup_adapters.py\<close> that put the P2P node behind the catch-up ports. The node
  is the record \<open>cu_node\<close>: its chain, the rest of it as an external state \<open>'x\<close>, the height it keeps of the
  bound peer and the progress lines it has printed. The blockchain, the apply queue and the node methods
  the adapters call are outside this component: \<open>cu_ops\<close> gives each as an operation that may raise. A
  coroutine and the wait for it are the operation it runs. A wire message is its type and its data, where
  only a list of bodies is told apart.
\<close>

section \<open>The node\<close>

record ('c, 'x) cu_node =
  cn_chain :: 'c
  cn_ext :: 'x
  cn_peer_height :: "int option"
  cn_out :: "string list"

record wire_msg =
  wm_type :: string
  wm_data :: "pydict option list option"

text \<open>An optional method is \<open>None\<close> when the blockchain or the node does not have it.\<close>

record ('c, 'x) cu_ops =
  co_height :: "'c \<Rightarrow> string + int option"
  co_head :: "'c \<Rightarrow> string + string"
  co_parent :: "int \<Rightarrow> 'c \<Rightarrow> string + string"
  co_block :: "block_key \<Rightarrow> 'c \<Rightarrow> string + pydict option"
  co_import :: "pydict \<Rightarrow> 'c \<Rightarrow> 'x \<Rightarrow> (string + bool) \<times> 'c \<times> 'x"
  co_ancestor :: "(string \<Rightarrow> 'c \<Rightarrow> string + int option) option"
  co_block_by_hash :: "(string \<Rightarrow> 'c \<Rightarrow> string + pydict option) option"
  co_reorg :: "(int \<Rightarrow> 'c \<Rightarrow> (string + bool) \<times> 'c) option"
  co_queue :: "(int \<Rightarrow> 'c \<Rightarrow> (string + bool) \<times> 'c) option"
  co_loop_running :: "'x \<Rightarrow> bool"
  co_wait :: "int \<Rightarrow> int \<Rightarrow> string \<Rightarrow> 'x \<Rightarrow> (string + wire_msg option) \<times> 'x"
  co_local_probe :: "'c \<Rightarrow> 'x \<Rightarrow> (string + string) \<times> 'x"
  co_peer_probe :: "'c \<Rightarrow> 'x \<Rightarrow> (string + string) \<times> 'x"
  co_bump :: "string \<Rightarrow> 'x \<Rightarrow> (string + unit) \<times> 'x"
  co_note_fail :: "'x \<Rightarrow> (string + unit) \<times> 'x"
  co_running :: "'x \<Rightarrow> bool option"
  co_batch :: "'x \<Rightarrow> string + int option"

type_synonym ('c, 'x, 'a) cu_port = "(('c, 'x) cu_node, 'a) cu_m"

text \<open>A read of the chain; one whose exception is logged and replaced by a default; a call on the rest of the node.\<close>

definition chain_read :: "('c \<Rightarrow> string + 'a) \<Rightarrow> ('c, 'x, 'a) cu_port" where
  "chain_read f s = (f (cn_chain s), s)"

definition chain_read_or :: "'a \<Rightarrow> ('c \<Rightarrow> string + 'a) \<Rightarrow> ('c, 'x, 'a) cu_port" where
  "chain_read_or d f = chain_read (\<lambda>c. Inr (case f c of Inl e \<Rightarrow> d | Inr a \<Rightarrow> a))"

definition ext_call :: "('c \<Rightarrow> 'x \<Rightarrow> (string + 'a) \<times> 'x) \<Rightarrow> (string + 'a \<Rightarrow> 'b) \<Rightarrow> ('c, 'x, 'b) cu_port" where
  "ext_call f g s = (let (r, x) = f (cn_chain s) (cn_ext s) in (Inr (g r), s\<lparr>cn_ext := x\<rparr>))"

section \<open>CatchUpP2PChainAdapter\<close>

definition chain_height :: "('c, 'x) cu_ops \<Rightarrow> 'c \<Rightarrow> string + int" where
  "chain_height N c = (case co_height N c of Inl e \<Rightarrow> Inl e | Inr None \<Rightarrow> Inr 0 | Inr (Some h) \<Rightarrow> Inr h)"

definition cad_height :: "('c, 'x) cu_ops \<Rightarrow> ('c, 'x, int) cu_port" where
  "cad_height N = chain_read (chain_height N)"

definition cad_head :: "('c, 'x) cu_ops \<Rightarrow> ('c, 'x, string) cu_port" where
  "cad_head N = chain_read_or [] (co_head N)"

definition cad_expected_parent :: "('c, 'x) cu_ops \<Rightarrow> int \<Rightarrow> ('c, 'x, string) cu_port" where
  "cad_expected_parent N h = chain_read_or (replicate 64 (CHR ''0'')) (co_parent N h)"

definition cad_get_block :: "('c, 'x) cu_ops \<Rightarrow> block_key \<Rightarrow> ('c, 'x, pydict option) cu_port" where
  "cad_get_block N k = chain_read_or None (co_block N k)"

definition import_false :: "string + bool \<Rightarrow> bool" where
  "import_false r = (case r of Inl e \<Rightarrow> False | Inr b \<Rightarrow> b)"

definition cad_import :: "('c, 'x) cu_ops \<Rightarrow> pydict \<Rightarrow> ('c, 'x, bool) cu_port" where
  "cad_import N b s =
     (let (r, c, x) = co_import N b (cn_chain s) (cn_ext s)
      in (Inr (import_false r), s\<lparr>cn_chain := c, cn_ext := x\<rparr>))"

text \<open>\<open>find_ancestor_height\<close>: the blockchain's own, or the height of the block with that hash, where
  \<open>int(... or -1)\<close> makes height 0 into \<open>-1\<close>.\<close>

definition ancestor_of :: "('c, 'x) cu_ops \<Rightarrow> string \<Rightarrow> 'c \<Rightarrow> int option" where
  "ancestor_of N p c =
     (case co_ancestor N of
        Some f \<Rightarrow> (case f p c of Inl e \<Rightarrow> None | Inr a \<Rightarrow> a)
      | None \<Rightarrow>
          (case co_block_by_hash N of
             None \<Rightarrow> None
           | Some f \<Rightarrow>
               (case f (py_strip p) c of
                  Inl e \<Rightarrow> None
                | Inr None \<Rightarrow> None
                | Inr (Some b) \<Rightarrow>
                    py_int (py_or (dget_or b ''height'' (dget_or b ''number'' (PInt (- 1)))) (PInt (- 1))))))"

definition cad_find_ancestor :: "('c, 'x) cu_ops \<Rightarrow> string \<Rightarrow> ('c, 'x, int option) cu_port" where
  "cad_find_ancestor N p = chain_read (\<lambda>c. Inr (ancestor_of N p c))"

text \<open>A reorganisation goes through the apply queue when the node has one, and then needs its running loop.\<close>

definition reorg_result :: "('c, 'x) cu_ops \<Rightarrow> int \<Rightarrow> 'c \<Rightarrow> 'x \<Rightarrow> (string + bool) \<times> 'c" where
  "reorg_result N h c x =
     (case co_reorg N of
        None \<Rightarrow> (Inr False, c)
      | Some direct \<Rightarrow>
          (case co_queue N of
             Some submit \<Rightarrow> if co_loop_running N x then submit h c else (Inr False, c)
           | None \<Rightarrow> direct h c))"

definition cad_reorg :: "('c, 'x) cu_ops \<Rightarrow> int \<Rightarrow> ('c, 'x, bool) cu_port" where
  "cad_reorg N h s =
     (let (r, c) = reorg_result N h (cn_chain s) (cn_ext s) in (Inr (import_false r), s\<lparr>cn_chain := c\<rparr>))"

section \<open>CatchUpP2PFetchAdapter and CatchUpP2PProbeAdapter\<close>

definition cad_fetch :: "('c, 'x) cu_ops \<Rightarrow> string \<Rightarrow> int \<Rightarrow> int \<Rightarrow> string \<Rightarrow> ('c, 'x, pydict option list option) cu_port" where
  "cad_fetch N peer_id from_h to_h parent =
     ext_call (\<lambda>_. co_wait N from_h to_h parent)
       (\<lambda>r. case r of
          Inl e \<Rightarrow> None
        | Inr None \<Rightarrow> None
        | Inr (Some msg) \<Rightarrow> if wm_type msg \<noteq> ''blocks'' then None else wm_data msg)"

definition probe_answer :: "string + string \<Rightarrow> string" where
  "probe_answer r = (case r of Inl e \<Rightarrow> ''catch_up_probe_adapter_error'' | Inr s \<Rightarrow> s)"

definition cad_local_probe :: "('c, 'x) cu_ops \<Rightarrow> cu_peer \<Rightarrow> ('c, 'x, string) cu_port" where
  "cad_local_probe N peer = ext_call (co_local_probe N) probe_answer"

definition cad_peer_probe :: "('c, 'x) cu_ops \<Rightarrow> cu_peer \<Rightarrow> ('c, 'x, string) cu_port" where
  "cad_peer_probe N peer = ext_call (co_peer_probe N) probe_answer"

section \<open>CatchUpP2PSideEffectAdapter\<close>

definition cad_bump :: "('c, 'x) cu_ops \<Rightarrow> string \<Rightarrow> ('c, 'x, unit) cu_port" where
  "cad_bump N reason = ext_call (\<lambda>_. co_bump N reason) (\<lambda>_. ())"

definition cad_note_fail :: "('c, 'x) cu_ops \<Rightarrow> string \<Rightarrow> ('c, 'x, unit) cu_port" where
  "cad_note_fail N peer_id = ext_call (\<lambda>_. co_note_fail N) (\<lambda>_. ())"

definition cad_set_height :: "string \<Rightarrow> int \<Rightarrow> ('c, 'x, unit) cu_port" where
  "cad_set_height peer_id h s =
     (Inr (), s\<lparr>cn_peer_height := Some (max (case cn_peer_height s of None \<Rightarrow> 0 | Some n \<Rightarrow> n) h)\<rparr>)"

definition cad_running :: "('c, 'x) cu_ops \<Rightarrow> ('c, 'x, bool) cu_port" where
  "cad_running N s = (Inr (case co_running N (cn_ext s) of None \<Rightarrow> True | Some b \<Rightarrow> b), s)"

definition cad_batch_size :: "('c, 'x) cu_ops \<Rightarrow> ('c, 'x, int) cu_port" where
  "cad_batch_size N s =
     (Inr (case co_batch N (cn_ext s) of
         Inl e \<Rightarrow> 32
       | Inr None \<Rightarrow> 32
       | Inr (Some n) \<Rightarrow> max 1 (if n = 0 then 32 else n)), s)"

definition cad_progress :: "string \<Rightarrow> ('c, 'x, unit) cu_port" where
  "cad_progress msg s = (Inr (), s\<lparr>cn_out := cn_out s @ [''[P2P] '' @ msg]\<rparr>)"

text \<open>The four adapters of one call. The chain adapter has no \<open>needs_genesis\<close>.\<close>

definition build_path_a_adapters :: "('c, 'x) cu_ops \<Rightarrow> ('c, 'x) cu_node cu_ports" where
  "build_path_a_adapters N = \<lparr>cu_height = cad_height N, cu_needs_genesis = None, cu_head = cad_head N,
     cu_expected_parent = cad_expected_parent N, cu_get_block = cad_get_block N, cu_import = cad_import N,
     cu_find_ancestor = cad_find_ancestor N, cu_reorg = cad_reorg N, cu_fetch = cad_fetch N,
     cu_local_probe = cad_local_probe N, cu_peer_probe = cad_peer_probe N, cu_bump = cad_bump N,
     cu_note_fail = cad_note_fail N, cu_set_height = cad_set_height, cu_running = cad_running N,
     cu_batch_size = cad_batch_size N, cu_progress = cad_progress\<rparr>"

section \<open>The adapters meet the contract\<close>

definition cu_view :: "('c, 'x) cu_ops \<Rightarrow> 'c chain_view" where
  "cu_view N = \<lparr>cvw_height = chain_height N,
     cvw_head = (\<lambda>c. Inr (case co_head N c of Inl e \<Rightarrow> [] | Inr h \<Rightarrow> h)),
     cvw_parent = (\<lambda>n c. Inr (case co_parent N n c of Inl e \<Rightarrow> replicate 64 (CHR ''0'') | Inr h \<Rightarrow> h)),
     cvw_ancestor = (\<lambda>p c. Inr (ancestor_of N p c))\<rparr>"

text \<open>What the node may answer and do to its chain when it is asked to import a body, or to roll back.\<close>

definition node_imports :: "('c, 'x) cu_ops \<Rightarrow> pydict \<Rightarrow> 'c \<Rightarrow> (bool \<times> 'c) set" where
  "node_imports N b c = {(import_false r, c') | r c' x x'. co_import N b c x = (r, c', x')}"

definition node_rolls_back :: "('c, 'x) cu_ops \<Rightarrow> int \<Rightarrow> 'c \<Rightarrow> (bool \<times> 'c) set" where
  "node_rolls_back N h c = {(import_false r, c') | r c' x. reorg_result N h c x = (r, c')}"

lemmas cad_defs = cad_height_def cad_head_def cad_expected_parent_def cad_get_block_def cad_import_def
  cad_find_ancestor_def cad_reorg_def cad_fetch_def cad_local_probe_def cad_peer_probe_def cad_bump_def
  cad_note_fail_def cad_set_height_def cad_running_def cad_batch_size_def cad_progress_def
  chain_read_or_def chain_read_def ext_call_def

interpretation path_a: catchup_laws "build_path_a_adapters N" "cu_view N" cn_chain "node_imports N" "node_rolls_back N"
  for N :: "('c, 'x) cu_ops"
  by unfold_locales
    (auto simp: build_path_a_adapters_def cu_view_def cad_defs node_imports_def node_rolls_back_def Let_def
      split: prod.splits)

end
