(* ===== verification/EngineIO.thy ===== *)
theory EngineIO
  imports CatchUp
begin

text \<open>
  The catch-up ports of the synchronisation engine: \<open>sync/catchup/engine_io.py\<close>. One object is all four
  ports. It downloads the peer's chain once into an index by height, checks it, and serves the batches from
  the index. The engine and its node are outside this component: \<open>engine_ops\<close> gives what the object calls of
  them, each an operation on the node's state \<open>'c\<close> that may raise, and \<open>None\<close> where the attribute is missing.
\<close>

record 'c engine_ops =
  en_height :: "'c \<Rightarrow> string + int"
  en_needs_genesis :: "('c \<Rightarrow> string + bool) option"
  en_no_last_block :: "('c \<Rightarrow> string + bool) option"
  en_block :: "(int \<Rightarrow> 'c \<Rightarrow> string + pydict option) option"
  en_resolve :: "(string \<Rightarrow> 'c \<Rightarrow> string + pydict option) option"
  en_block_by_hash :: "(string \<Rightarrow> 'c \<Rightarrow> string + pydict option) option"
  en_head :: "('c \<Rightarrow> string + string) option"
  en_import :: "(pydict \<Rightarrow> 'c \<Rightarrow> (string + bool) \<times> 'c) option"
  en_add_block :: "(pydict \<Rightarrow> 'c \<Rightarrow> (string + bool) \<times> 'c) option"
  en_ancestor :: "(string \<Rightarrow> 'c \<Rightarrow> string + int option) option"
  en_reorg :: "(int \<Rightarrow> 'c \<Rightarrow> (string + bool) \<times> 'c) option"
  en_download :: "string \<Rightarrow> int \<Rightarrow> 'c \<Rightarrow> string + pydict option list"
  en_validate :: "pydict list \<Rightarrow> string \<Rightarrow> int \<Rightarrow> string + bool"

type_synonym block_index = "(int \<times> pydict) list"

record 'c eio =
  eio_node :: 'c
  eio_peer_id :: string
  eio_peer_head :: string
  eio_target :: int
  eio_batch :: int
  eio_running :: bool
  eio_index :: block_index
  eio_ready :: bool
  eio_ok :: bool
  eio_error :: string
  eio_refuses :: "string list"
  eio_fails :: "string list"
  eio_heights :: "(string \<times> int) list"
  eio_progress :: "string list"
  eio_fetches :: "(string \<times> int \<times> int \<times> string) list"

definition eio_init :: "'c \<Rightarrow> string \<Rightarrow> string \<Rightarrow> int \<Rightarrow> int \<Rightarrow> bool \<Rightarrow> 'c eio" where
  "eio_init c peer_id peer_head target batch running =
     \<lparr>eio_node = c, eio_peer_id = peer_id, eio_peer_head = py_strip peer_head, eio_target = target,
      eio_batch = max 1 (if batch = 0 then 32 else batch), eio_running = running, eio_index = [],
      eio_ready = False, eio_ok = True, eio_error = [], eio_refuses = [], eio_fails = [], eio_heights = [],
      eio_progress = [], eio_fetches = []\<rparr>"

definition eio_block_height :: "pydict \<Rightarrow> int \<Rightarrow> int" where
  "eio_block_height b d =
     (if pget b ''height'' \<noteq> PNone then (case py_int (pget b ''height'') of None \<Rightarrow> d | Some n \<Rightarrow> n)
      else if pget b ''number'' \<noteq> PNone then (case py_int (pget b ''number'') of None \<Rightarrow> d | Some n \<Rightarrow> n)
      else d)"

definition eio_block_hash :: "pydict \<Rightarrow> string" where
  "eio_block_hash b = py_strip (py_str (py_or (py_or (pget b ''hash'') (pget b ''block_hash'')) (PStr [])))"

section \<open>The chain port\<close>

type_synonym ('c, 'a) eio_m = "('c eio, 'a) cu_m"

definition node_read :: "('c \<Rightarrow> string + 'a) \<Rightarrow> ('c, 'a) eio_m" where
  "node_read f s = (f (eio_node s), s)"

definition eio_height :: "'c engine_ops \<Rightarrow> ('c, int) eio_m" where
  "eio_height E = node_read (en_height E)"

text \<open>\<open>int(height or 0) <= 0\<close>, or \<open>True\<close> when that raises too.\<close>

definition no_height_yet :: "'c engine_ops \<Rightarrow> ('c, bool) eio_m" where
  "no_height_yet E = catchM (bindM (eio_height E) (\<lambda>h. returnM (h \<le> 0))) (\<lambda>_. returnM True)"

definition eio_needs_genesis :: "'c engine_ops \<Rightarrow> ('c, bool) eio_m" where
  "eio_needs_genesis E =
     (case en_needs_genesis E of
        Some checker \<Rightarrow> catchM (node_read checker) (\<lambda>_. no_height_yet E)
      | None \<Rightarrow>
          (case en_no_last_block E of
             None \<Rightarrow> returnM False
           | Some f \<Rightarrow> catchM (node_read f) (\<lambda>_. no_height_yet E)))"

definition block_at :: "'c engine_ops \<Rightarrow> int \<Rightarrow> ('c, pydict option) eio_m" where
  "block_at E h =
     bindM (getM eio_index) (\<lambda>idx.
       case dget idx h of
         Some b \<Rightarrow> returnM (Some b)
       | None \<Rightarrow> (case en_block E of None \<Rightarrow> returnM None | Some f \<Rightarrow> or_else None (node_read (f h))))"

definition block_of_hash :: "'c engine_ops \<Rightarrow> string \<Rightarrow> ('c, pydict option) eio_m" where
  "block_of_hash E key =
     (if key = [] then returnM None
      else bindM (getM eio_index) (\<lambda>idx.
        case find (\<lambda>b. eio_block_hash b = key) (map snd idx) of
          Some b \<Rightarrow> returnM (Some b)
        | None \<Rightarrow>
            (case en_resolve E of
               Some f \<Rightarrow> node_read (f key)
             | None \<Rightarrow>
                 (case en_block_by_hash E of None \<Rightarrow> returnM None | Some f \<Rightarrow> or_else None (node_read (f key))))))"

text \<open>A string of digits is taken for a height.\<close>

definition eio_get_block :: "'c engine_ops \<Rightarrow> block_key \<Rightarrow> ('c, pydict option) eio_m" where
  "eio_get_block E k =
     (case k of
        AtHeight h \<Rightarrow> block_at E h
      | OfHash s \<Rightarrow>
          (if s \<noteq> [] \<and> list_all (\<lambda>c. dec_digit c \<noteq> None) s
           then block_at E (case int_of_str s of None \<Rightarrow> 0 | Some n \<Rightarrow> n)
           else block_of_hash E (py_strip s)))"

definition eio_head :: "'c engine_ops \<Rightarrow> ('c, string) eio_m" where
  "eio_head E =
     bindM (eio_height E) (\<lambda>tip.
     bindM (eio_get_block E (AtHeight tip)) (\<lambda>blk.
       case blk of
         Some b \<Rightarrow> returnM (eio_block_hash b)
       | None \<Rightarrow> (case en_head E of None \<Rightarrow> returnM [] | Some f \<Rightarrow> or_else [] (node_read f))))"

definition eio_expected_parent :: "'c engine_ops \<Rightarrow> int \<Rightarrow> ('c, string) eio_m" where
  "eio_expected_parent E h =
     (if h \<le> 0 then returnM (replicate 64 (CHR ''0''))
      else bindM (eio_get_block E (AtHeight (h - 1))) (\<lambda>prev.
        let ph = (case prev of None \<Rightarrow> [] | Some b \<Rightarrow> eio_block_hash b)
        in if ph \<noteq> [] then returnM ph
           else bindM (eio_head E) (\<lambda>tip. returnM (str_or tip (replicate 64 (CHR ''0''))))))"

text \<open>A call that may change the node, \<open>False\<close> when it raises.\<close>

definition node_call :: "('c \<Rightarrow> (string + bool) \<times> 'c) \<Rightarrow> ('c, bool) eio_m" where
  "node_call f s =
     (let (r, c) = f (eio_node s) in (Inr (case r of Inl e \<Rightarrow> False | Inr b \<Rightarrow> b), s\<lparr>eio_node := c\<rparr>))"

definition eio_import :: "'c engine_ops \<Rightarrow> pydict \<Rightarrow> ('c, bool) eio_m" where
  "eio_import E b =
     (case (case en_import E of Some f \<Rightarrow> Some f | None \<Rightarrow> en_add_block E) of
        None \<Rightarrow> returnM False
      | Some f \<Rightarrow>
          bindM (node_call (f b)) (\<lambda>ok.
            if ok \<and> eio_block_height b (- 1) \<ge> 0
            then bindM (modM (\<lambda>s. s\<lparr>eio_index := dset (eio_block_height b (- 1)) b (eio_index s)\<rparr>)) (\<lambda>_. returnM ok)
            else returnM ok))"

definition eio_find_ancestor :: "'c engine_ops \<Rightarrow> string \<Rightarrow> ('c, int option) eio_m" where
  "eio_find_ancestor E parent =
     (let key = py_strip parent
      in if key = [] then returnM None
         else (case en_ancestor E of
             Some f \<Rightarrow> or_else None (node_read (f key))
           | None \<Rightarrow>
               bindM (eio_get_block E (OfHash key)) (\<lambda>blk.
                 returnM (case blk of
                     None \<Rightarrow> None
                   | Some b \<Rightarrow> (let h = eio_block_height b (- 1) in if h \<ge> 0 then Some h else None)))))"

definition eio_reorg :: "'c engine_ops \<Rightarrow> int \<Rightarrow> ('c, bool) eio_m" where
  "eio_reorg E h = (case en_reorg E of None \<Rightarrow> returnM False | Some f \<Rightarrow> node_call (f h))"

section \<open>The fetch port\<close>

text \<open>The bodies above the local chain and not above the target, in order of height.\<close>

definition filter_ahead :: "int \<Rightarrow> int \<Rightarrow> pydict option list \<Rightarrow> pydict list" where
  "filter_ahead lo target bs =
     sort_key (\<lambda>b. eio_block_height b 0)
       (filter (\<lambda>b. \<not> eio_block_height b (- 1) \<le> lo \<and> \<not> (target > 0 \<and> eio_block_height b (- 1) > target))
         (map the (filter (\<lambda>b. b \<noteq> None) bs)))"

definition chain_failed :: "string \<Rightarrow> ('c, unit) eio_m" where
  "chain_failed e = modM (\<lambda>s. s\<lparr>eio_ok := False, eio_error := e\<rparr>)"

definition index_blocks :: "pydict list \<Rightarrow> block_index \<Rightarrow> block_index" where
  "index_blocks bs idx =
     foldl (\<lambda>d b. if eio_block_height b (- 1) \<ge> 0 then dset (eio_block_height b (- 1)) b d else d) idx bs"

definition accept_chain :: "pydict list \<Rightarrow> ('c, unit) eio_m" where
  "accept_chain bs = modM (\<lambda>s. s\<lparr>eio_index := index_blocks bs (eio_index s), eio_ok := True, eio_error := []\<rparr>)"

text \<open>The hash the first body must extend: of the local tip, where the node has it.\<close>

definition local_tip_hash :: "'c engine_ops \<Rightarrow> bool \<Rightarrow> int \<Rightarrow> ('c, string) eio_m" where
  "local_tip_hash E needs local_h =
     (if needs then returnM (replicate 64 (CHR ''0''))
      else if local_h \<ge> 0
      then (case en_block E of
          None \<Rightarrow> returnM []
        | Some f \<Rightarrow> bindM (node_read (f local_h)) (\<lambda>t. returnM (case t of None \<Rightarrow> [] | Some b \<Rightarrow> eio_block_hash b)))
      else returnM [])"

definition check_chain :: "'c engine_ops \<Rightarrow> bool \<Rightarrow> int \<Rightarrow> pydict list \<Rightarrow> ('c, unit) eio_m" where
  "check_chain E needs local_h bs =
     (if needs \<and> bs = [] then chain_failed ''genesis_download_empty''
      else if bs = [] then accept_chain bs
      else bindM (local_tip_hash E needs local_h) (\<lambda>prev.
        case en_validate E bs prev (if needs then - 1 else local_h) of
          Inl e \<Rightarrow> raiseM e
        | Inr ok \<Rightarrow>
            if ok then accept_chain bs
            else bindM (chain_failed ''non_contiguous_chain'') (\<lambda>_. modM (\<lambda>s. s\<lparr>eio_index := []\<rparr>))))"

definition download_index :: "'c engine_ops \<Rightarrow> int \<Rightarrow> bool \<Rightarrow> ('c, unit) eio_m" where
  "download_index E local_h needs =
     bindM (getM (\<lambda>s. (eio_peer_head s, eio_target s, eio_node s))) (\<lambda>(head, target, c).
       case en_download E head (if needs then - 1 else local_h) c of
         Inl e \<Rightarrow> chain_failed (''download:'' @ e)
       | Inr bs \<Rightarrow> check_chain E needs local_h (filter_ahead (if needs then - 1 else local_h) target bs))"

definition ensure_ahead_index :: "'c engine_ops \<Rightarrow> ('c, unit) eio_m" where
  "ensure_ahead_index E =
     bindM (getM eio_ready) (\<lambda>ready.
       if ready then returnM ()
       else bindM (modM (\<lambda>s. s\<lparr>eio_ready := True\<rparr>)) (\<lambda>_.
         bindM (eio_height E) (\<lambda>local_h.
         bindM (getM eio_peer_head) (\<lambda>head.
           if head = [] then chain_failed ''no_peer_head''
           else bindM (eio_needs_genesis E) (download_index E local_h)))))"

text \<open>The run of known heights from the first one asked for.\<close>

definition serve :: "block_index \<Rightarrow> int \<Rightarrow> int \<Rightarrow> pydict option list" where
  "serve idx lo hi = takeWhile (\<lambda>b. b \<noteq> None) (map (dget idx) [lo..hi])"

definition eio_fetch :: "'c engine_ops \<Rightarrow> string \<Rightarrow> int \<Rightarrow> int \<Rightarrow> string \<Rightarrow> ('c, pydict option list option) eio_m" where
  "eio_fetch E peer_id lo hi parent =
     bindM (modM (\<lambda>s. s\<lparr>eio_fetches := eio_fetches s @ [(peer_id, lo, hi, parent)]\<rparr>)) (\<lambda>_.
     bindM (ensure_ahead_index E) (\<lambda>_.
       getM (\<lambda>s. if eio_ok s then Some (serve (eio_index s) lo hi) else None)))"

section \<open>The probe port\<close>

definition claimed_height :: "cu_peer \<Rightarrow> 'c eio \<Rightarrow> int" where
  "claimed_height peer s = (if cup_height peer \<noteq> 0 then cup_height peer else eio_target s)"

definition eio_local_probe :: "'c engine_ops \<Rightarrow> cu_peer \<Rightarrow> ('c, string) eio_m" where
  "eio_local_probe E peer =
     bindM (eio_height E) (\<lambda>local_h.
     bindM (getM (claimed_height peer)) (\<lambda>peer_h.
       if peer_h \<le> local_h \<or> local_h \<le> 0 then returnM []
       else bindM (ensure_ahead_index E) (\<lambda>_.
         bindM (getM (\<lambda>s. dget (eio_index s) (local_h + 1))) (\<lambda>first.
           case first of
             None \<Rightarrow> returnM []
           | Some b \<Rightarrow>
               (let parent = py_strip (pget_str b ''parent_hash'')
                in bindM (eio_head E) (\<lambda>tip.
                     returnM (if parent \<noteq> [] \<and> tip \<noteq> [] \<and> py_lower parent \<noteq> py_lower tip
                              then ''catch_up_tip_head_mismatch'' else [])))))))"

definition eio_peer_probe :: "'c engine_ops \<Rightarrow> cu_peer \<Rightarrow> ('c, string) eio_m" where
  "eio_peer_probe E peer =
     bindM (eio_height E) (\<lambda>local_h.
     bindM (getM (claimed_height peer)) (\<lambda>peer_h.
       if peer_h \<le> local_h then returnM []
       else bindM (ensure_ahead_index E) (\<lambda>_.
         getM (\<lambda>s.
           if \<not> eio_ok s then str_or (eio_error s) ''catch_up_peer_head_probe_failed''
           else
             (let head = py_strip (str_or (cup_head peer) (eio_peer_head s))
              in case dget (eio_index s) peer_h of
                   None \<Rightarrow> ''catch_up_peer_head_probe_failed''
                 | Some b \<Rightarrow>
                     if head \<noteq> [] \<and> eio_block_hash b \<noteq> [] \<and> py_lower (eio_block_hash b) \<noteq> py_lower head
                     then ''catch_up_peer_head_hash_mismatch'' else [])))))"

section \<open>The side-effect port\<close>

definition eio_bump :: "string \<Rightarrow> ('c, unit) eio_m" where
  "eio_bump r = modM (\<lambda>s. s\<lparr>eio_refuses := eio_refuses s @ [r]\<rparr>)"

text \<open>A failed import ends the whole call.\<close>

definition eio_note_fail :: "string \<Rightarrow> ('c, unit) eio_m" where
  "eio_note_fail i = modM (\<lambda>s. s\<lparr>eio_fails := eio_fails s @ [i], eio_running := False\<rparr>)"

definition eio_set_height :: "string \<Rightarrow> int \<Rightarrow> ('c, unit) eio_m" where
  "eio_set_height i h = modM (\<lambda>s. s\<lparr>eio_heights := dset i h (eio_heights s)\<rparr>)"

definition eio_on_progress :: "string \<Rightarrow> ('c, unit) eio_m" where
  "eio_on_progress msg = modM (\<lambda>s. s\<lparr>eio_progress := eio_progress s @ [msg]\<rparr>)"

definition engine_io :: "'c engine_ops \<Rightarrow> 'c eio cu_ports" where
  "engine_io E = \<lparr>cu_height = eio_height E, cu_needs_genesis = Some (eio_needs_genesis E), cu_head = eio_head E,
     cu_expected_parent = eio_expected_parent E, cu_get_block = eio_get_block E, cu_import = eio_import E,
     cu_find_ancestor = eio_find_ancestor E, cu_reorg = eio_reorg E, cu_fetch = eio_fetch E,
     cu_local_probe = eio_local_probe E, cu_peer_probe = eio_peer_probe E, cu_bump = eio_bump,
     cu_note_fail = eio_note_fail, cu_set_height = eio_set_height, cu_running = getM eio_running,
     cu_batch_size = getM eio_batch, cu_progress = eio_on_progress\<rparr>"

end
