(* ===== verification/CatchUpBound.thy ===== *)
theory CatchUpBound
  imports EngineIO
begin

text \<open>
  When the catch-up loop ends. The locale \<open>bounded_catchup\<close> states what the ports must promise: the bodies
  served have the heights asked for, and a failed import stops the service. Then the cursor of every further
  round is higher, and every call returns. The ports of the synchronisation engine are an instance.
\<close>

section \<open>Operations that keep a predicate of the state\<close>

definition pres :: "('w \<Rightarrow> bool) \<Rightarrow> ('w, 'e, 'a) exs \<Rightarrow> bool" where
  "pres J m \<longleftrightarrow> (\<forall>w. J w \<longrightarrow> J (snd (m w)))"

named_theorems pres_rules

lemma presD: "pres J m \<Longrightarrow> J w \<Longrightarrow> J (snd (m w))"
  by (simp add: pres_def)

lemma pres_bind [pres_rules]: "pres J m \<Longrightarrow> (\<And>a. pres J (f a)) \<Longrightarrow> pres J (bindM m f)"
  unfolding pres_def bindM_def by (auto split: prod.splits sum.splits)

lemma pres_catch [pres_rules]: "pres J m \<Longrightarrow> (\<And>e. pres J (h e)) \<Longrightarrow> pres J (catchM m h)"
  unfolding pres_def catchM_def by (auto split: prod.splits sum.splits)

lemma pres_simple [pres_rules]: "pres J (returnM a)" "pres J (raiseM e)" "pres J (getM f)"
  by (simp_all add: pres_def exs_defs)

lemma pres_mod [pres_rules]: "(\<And>w. J w \<Longrightarrow> J (f w)) \<Longrightarrow> pres J (modM f)"
  by (simp add: pres_def modM_def)

lemma pres_if [pres_rules]: "(b \<Longrightarrow> pres J m) \<Longrightarrow> (\<not> b \<Longrightarrow> pres J m') \<Longrightarrow> pres J (if b then m else m')"
  by simp

lemma pres_option [pres_rules]:
  "pres J n \<Longrightarrow> (\<And>a. x = Some a \<Longrightarrow> pres J (f a)) \<Longrightarrow> pres J (case x of None \<Rightarrow> n | Some a \<Rightarrow> f a)"
  by (cases x) simp_all

lemma pres_sum [pres_rules]:
  "(\<And>e. pres J (f e)) \<Longrightarrow> (\<And>a. pres J (g a)) \<Longrightarrow> pres J (case x of Inl e \<Rightarrow> f e | Inr a \<Rightarrow> g a)"
  by (cases x) simp_all

lemma pres_key [pres_rules]:
  "(\<And>h. pres J (f h)) \<Longrightarrow> (\<And>s. pres J (g s)) \<Longrightarrow> pres J (case k of AtHeight h \<Rightarrow> f h | OfHash s \<Rightarrow> g s)"
  by (cases k) simp_all

lemma pres_or_else [pres_rules]: "pres J m \<Longrightarrow> pres J (or_else d m)"
  unfolding or_else_def by (intro pres_rules)

lemma pres_conj: "pres J m \<Longrightarrow> pres K m \<Longrightarrow> pres (\<lambda>w. J w \<and> K w) m"
  by (simp add: pres_def)

lemma pres_wp:
  assumes "pres J m" "J s" "\<And>a t. J t \<Longrightarrow> Q a t" "\<And>e t. J t \<Longrightarrow> E e t"
  shows "wpM m Q E s"
proof -
  obtain r t where m: "m s = (r, t)" by fastforce
  with presD [OF assms(1,2)] have "J t" by simp
  with m assms(3,4) show ?thesis by (cases r) (simp_all add: wpM_def)
qed

section \<open>The contract\<close>

text \<open>Every port operation keeps \<open>J\<close>.\<close>

definition ports_keep :: "('w \<Rightarrow> bool) \<Rightarrow> 'w cu_ports \<Rightarrow> bool" where
  "ports_keep J P \<longleftrightarrow>
     pres J (cu_height P) \<and> (\<forall>m. cu_needs_genesis P = Some m \<longrightarrow> pres J m) \<and> pres J (cu_head P)
     \<and> (\<forall>n. pres J (cu_expected_parent P n)) \<and> (\<forall>k. pres J (cu_get_block P k)) \<and> (\<forall>b. pres J (cu_import P b))
     \<and> (\<forall>p. pres J (cu_find_ancestor P p)) \<and> (\<forall>h. pres J (cu_reorg P h))
     \<and> (\<forall>i lo hi p. pres J (cu_fetch P i lo hi p)) \<and> (\<forall>q. pres J (cu_local_probe P q))
     \<and> (\<forall>q. pres J (cu_peer_probe P q)) \<and> (\<forall>r. pres J (cu_bump P r)) \<and> (\<forall>i. pres J (cu_note_fail P i))
     \<and> (\<forall>i h. pres J (cu_set_height P i h)) \<and> pres J (cu_running P) \<and> (\<forall>m. pres J (cu_progress P m))"

text \<open>The bodies of a batch have the heights from \<open>n\<close> on.\<close>

primrec heights_from :: "int \<Rightarrow> pydict option list \<Rightarrow> bool" where
  "heights_from n [] = True"
| "heights_from n (x # xs) = ((\<exists>b. x = Some b \<and> (\<forall>d. cu_block_height b d = n)) \<and> heights_from (n + 1) xs)"

lemma ports_keepD:
  assumes "ports_keep J P"
  shows "pres J (cu_height P)" "cu_needs_genesis P = Some g \<Longrightarrow> pres J g" "pres J (cu_head P)"
    "pres J (cu_expected_parent P n)" "pres J (cu_get_block P k)" "pres J (cu_import P b)"
    "pres J (cu_find_ancestor P p)" "pres J (cu_reorg P h)" "pres J (cu_fetch P i lo hi p)"
    "pres J (cu_local_probe P q)" "pres J (cu_peer_probe P q)" "pres J (cu_bump P r)" "pres J (cu_note_fail P i)"
    "pres J (cu_set_height P i h)" "pres J (cu_running P)" "pres J (cu_progress P m)"
  using assms by (simp_all add: ports_keep_def)

text \<open>What keeps \<open>J\<close> port by port keeps it over a body, the end of a call and the gates.\<close>

lemmas pres_intros = pres_rules ports_keepD

lemma failed_at_pres: "ports_keep J P \<Longrightarrow> pres J (import_failed_at P h)"
  unfolding import_failed_at_def by (intro pres_intros)

lemma roll_back_pres: "ports_keep J P \<Longrightarrow> pres J (roll_back P parent h)"
  unfolding roll_back_def by (intro pres_intros failed_at_pres)

lemma is_duplicate_pres: "ports_keep J P \<Longrightarrow> pres J (is_duplicate P h cand)"
  unfolding is_duplicate_def by (intro pres_intros)

lemma after_failed_pres: "ports_keep J P \<Longrightarrow> pres J (after_failed_import P peer b n)"
  unfolding after_failed_import_def Let_def by (intro pres_intros failed_at_pres roll_back_pres is_duplicate_pres)

lemma refuse_body_pres: "ports_keep J P \<Longrightarrow> pres J (refuse_body P r)"
  unfolding refuse_body_def by (intro pres_intros)

lemma parent_bind_pres: "ports_keep J P \<Longrightarrow> pres J (parent_bind P cfg b h)"
  unfolding parent_bind_def Let_def by (intro pres_intros)

lemma import_one_pres: "ports_keep J P \<Longrightarrow> pres J (import_one P peer cfg b n)"
  unfolding import_one_def gated_import_def Let_def
  by (intro pres_intros after_failed_pres refuse_body_pres parent_bind_pres)

lemma finish_pres: "ports_keep J P \<Longrightarrow> pres J (cu_finish P peer cfg k)"
  unfolding cu_finish_def Let_def by (intro pres_intros)

lemma ahead_gates_pres: "ports_keep J P \<Longrightarrow> pres J (ahead_gates P peer cfg h needs)"
  unfolding ahead_gates_def refuse_ahead_def Let_def by (intro pres_intros)

lemma prologue_pres: "ports_keep J P \<Longrightarrow> pres J (run_prologue P peer cfg)"
  unfolding run_prologue_def needs_genesis_def by (intro pres_intros ahead_gates_pres)

section \<open>Every call returns\<close>

locale bounded_catchup =
  fixes P :: "'w cu_ports" and inv :: "'w \<Rightarrow> bool" and stopped :: "'w \<Rightarrow> bool"
  assumes inv_kept: "ports_keep inv P" and stop_kept: "ports_keep stopped P"
    and fail_stops: "stopped (snd (cu_note_fail P i w))"
    and stopped_reads: "stopped w \<Longrightarrow> fst (cu_running P w) \<noteq> Inr True"
    and served: "inv w \<Longrightarrow> fst (cu_fetch P i lo hi p w) = Inr (Some bs) \<Longrightarrow> heights_from lo bs"
begin

lemma both_kept: "ports_keep (\<lambda>w. inv w \<and> stopped w) P"
  using inv_kept stop_kept by (simp add: ports_keep_def pres_conj)

text \<open>A rollback comes after a failed import, so it finds the service stopped.\<close>

lemma after_failed_stops:
  assumes "inv s"
  shows "wpM (after_failed_import P peer b n) (\<lambda>_ t. inv t \<and> stopped t) (\<lambda>_. inv) s"
proof -
  have note_fail: "wpM (cu_note_fail P i) (\<lambda>_ t. inv t \<and> stopped t) (\<lambda>_ t. inv t \<and> stopped t) s" for i
    using presD [OF ports_keepD(13) [OF inv_kept] assms, of i] fail_stops by (simp add: wp_stateI)
  show ?thesis
    unfolding after_failed_import_def Let_def wp_bind [of "cu_note_fail _ _"]
    by (rule wp_mono [OF note_fail])
      (auto intro!: pres_wp [where J = "\<lambda>w. inv w \<and> stopped w"] pres_rules ports_keepD [OF both_kept]
        failed_at_pres roll_back_pres is_duplicate_pres both_kept)
qed

lemma import_one_stops:
  assumes "inv s"
  shows "wpM (import_one P peer cfg b n) (\<lambda>r t. inv t \<and> (r = IReorg \<longrightarrow> stopped t)) (\<lambda>_. inv) s"
proof -
  have refuse: "wpM (refuse_body P r) (\<lambda>r t. inv t \<and> (r = IReorg \<longrightarrow> stopped t)) (\<lambda>_. inv) u" if "inv u" for r u
    unfolding refuse_body_def wp_bind wp_return by (rule pres_wp [OF ports_keepD(12) [OF inv_kept] that]) simp_all
  have failed: "wpM (after_failed_import P peer b n) (\<lambda>r t. inv t \<and> (r = IReorg \<longrightarrow> stopped t)) (\<lambda>_. inv) u"
    if "inv u" for u
    by (rule wp_mono [OF after_failed_stops [OF that]]) simp_all
  have gated: "wpM (gated_import P peer cfg b n c) (\<lambda>r t. inv t \<and> (r = IReorg \<longrightarrow> stopped t)) (\<lambda>_. inv) u"
    if "inv u" for c u
    using that refuse failed
    by (auto simp: gated_import_def wp_return wp_if wp_bind [of "cu_import P b"]
      intro!: pres_wp [OF ports_keepD(6) [OF inv_kept]])
  show ?thesis
    using assms refuse gated
    by (auto simp: import_one_def Let_def wp_bind intro!: pres_wp [OF ports_keepD(1) [OF inv_kept]]
      pres_wp [OF parent_bind_pres [OF inv_kept]])
qed

text \<open>A batch that made progress moved the cursor on, or stopped the service.\<close>

lemma batch_moves:
  "inv s \<Longrightarrow> heights_from (cps_cursor st) bs \<Longrightarrow> n \<le> cps_cursor st \<Longrightarrow> (cps_any st \<Longrightarrow> n < cps_cursor st) \<Longrightarrow>
     wpM (import_batch P peer cfg bs st)
       (\<lambda>r t. inv t \<and> (\<forall>st'. r = Inr st' \<longrightarrow> cps_any st' \<longrightarrow> stopped t \<or> n < cps_cursor st')) (\<lambda>_. inv) s"
proof (induction bs arbitrary: st s)
  case (Cons x bs)
  then obtain b where b: "x = Some b" "cu_block_height b (cps_cursor st) = cps_cursor st" by auto
  let ?Q = "\<lambda>r t. inv t \<and> (\<forall>st'. r = Inr st' \<longrightarrow> cps_any st' \<longrightarrow> stopped t \<or> n < cps_cursor st')"
  have reorg: "wpM (bindM (cu_height P) (\<lambda>h. returnM (Inr (f h)))) ?Q (\<lambda>_. inv) u" if "inv u \<and> stopped u" for f u
    unfolding wp_bind wp_return by (rule pres_wp [OF ports_keepD(1) [OF both_kept] that]) simp_all
  have raised: "wpM (bindM (cu_height P) (\<lambda>h. bindM (cu_progress P m) (\<lambda>_. returnM (Inl (f h))))) ?Q (\<lambda>_. inv) u"
    if "inv u" for m f u
    unfolding wp_bind wp_return
    by (rule pres_wp [OF ports_keepD(1) [OF inv_kept] that], rule pres_wp [OF ports_keepD(16) [OF inv_kept]]) simp_all
  show ?case
    unfolding b(1) import_batch.simps wp_bind [of "catchM _ _"] wp_catch wp_return wp_bind [of "import_one _ _ _ _ _"]
    by (rule wp_mono [OF import_one_stops [OF Cons.prems(1)]])
      (use Cons.prems b in \<open>auto simp: wp_return split: import_result.split intro!: Cons.IH raised reorg\<close>)
qed (simp add: wp_return)

definition moves :: "int \<Rightarrow> cu_next \<Rightarrow> 'w \<Rightarrow> bool" where
  "moves n x t \<longleftrightarrow> inv t \<and> (case x of Done out \<Rightarrow> True | Again c k \<Rightarrow> stopped t \<or> n < c)"

lemma moves_simps [simp]: "moves n (Done out) t = inv t" "moves n (Again c k) t = (inv t \<and> (stopped t \<or> n < c))"
  by (simp_all add: moves_def)

lemma after_batch_moves:
  assumes "inv s" "\<And>st. r = Inr st \<Longrightarrow> cps_any st \<Longrightarrow> stopped s \<or> n < cps_cursor st"
  shows "wpM (after_batch P peer cfg r) (moves n) (\<lambda>_. inv) s"
proof (cases r)
  case (Inl out)
  then show ?thesis using assms(1) by (simp add: after_batch_def wp_return)
next
  case (Inr st)
  let ?J = "\<lambda>w. inv w \<and> (stopped s \<longrightarrow> stopped w)"
  have keep: "ports_keep ?J P" using inv_kept stop_kept by (simp add: ports_keep_def pres_def)
  show ?thesis
  proof (cases "cps_any st")
    case True
    with Inr assms have "?J s" "stopped s \<or> n < cps_cursor st" by auto
    then show ?thesis using Inr True
      by (auto simp: after_batch_def wp_bind wp_if wp_return intro!: pres_wp [OF ports_keepD(1) [OF keep]]
        pres_wp [OF ports_keepD(14) [OF keep]] pres_wp [OF finish_pres [OF keep]])
  next
    case False
    then show ?thesis using Inr assms(1)
      by (auto simp: after_batch_def wp_bind wp_return intro!: pres_wp [OF ports_keepD(1) [OF inv_kept]])
  qed
qed

text \<open>A round at a cursor above the peer's height, or of a stopped service, is the last one.\<close>

lemma round_moves:
  assumes "inv s"
  shows "wpM (cu_round P peer cfg n k) (moves n) (\<lambda>_. inv) s"
proof -
  have finish: "wpM (bindM (cu_finish P peer cfg k) (\<lambda>out. returnM (Done out))) (moves n) (\<lambda>_. inv) u" if "inv u" for u
    unfolding wp_bind wp_return by (rule pres_wp [OF finish_pres [OF inv_kept] that]) simp_all
  have batch: "wpM (bindM (import_batch P peer cfg bs \<lparr>cps_cursor = n, cps_imported = k, cps_any = False, cps_abort = False\<rparr>)
      (after_batch P peer cfg)) (moves n) (\<lambda>_. inv) u" if "inv u" "heights_from n bs" for bs u
    unfolding wp_bind
    by (rule wp_mono [OF batch_moves [where n = n, OF that(1)]]) (use that(2) in \<open>auto intro!: after_batch_moves\<close>)
  have fetch: "wpM (cu_fetch P i n hi p) (\<lambda>r t. inv t \<and> (\<forall>bs. r = Some bs \<longrightarrow> heights_from n bs)) (\<lambda>_. inv) u"
    if "inv u" for i hi p u
    using presD [OF ports_keepD(9) [OF inv_kept] that, of i n hi p] served [OF that, of i n hi p]
    by (auto simp: wpM_def split: prod.split sum.split)
  have height: "wpM (cu_height P) Q (\<lambda>_. inv) u" if "inv u" "\<And>a t. inv t \<Longrightarrow> Q a t" for Q u
    by (rule pres_wp [OF ports_keepD(1) [OF inv_kept]]) (use that in auto)
  have blocks: "wpM (case blocks of
        None \<Rightarrow>
          bindM (cu_progress P m1) (\<lambda>_. bindM (cu_height P) (\<lambda>tip. returnM (Done (cuo_stalled tip (cup_height peer) k m2 m3))))
      | Some [] \<Rightarrow> bindM (cu_height P) (\<lambda>tip. returnM (Done (cuo_incomplete tip (cup_height peer) k m4 m5)))
      | Some (b # bs) \<Rightarrow> bindM (import_batch P peer cfg (b # bs)
            \<lparr>cps_cursor = n, cps_imported = k, cps_any = False, cps_abort = False\<rparr>) (after_batch P peer cfg))
      (moves n) (\<lambda>_. inv) u"
    if "inv u \<and> (\<forall>bs. blocks = Some bs \<longrightarrow> heights_from n bs)" for blocks m1 m2 m3 m4 m5 u
    using that batch
    by (auto simp: wp_bind [of "cu_progress P _"] wp_bind [of "cu_height P"] wp_return split: option.split list.split
      intro!: height pres_wp [OF ports_keepD(16) [OF inv_kept]])
  have ask: "wpM (bindM (cu_expected_parent P n) (\<lambda>p. bindM (cu_fetch P i n hi p) f)) (moves n) (\<lambda>_. inv) u"
    if "inv u" "\<And>r t. inv t \<and> (\<forall>bs. r = Some bs \<longrightarrow> heights_from n bs) \<Longrightarrow> wpM (f r) (moves n) (\<lambda>_. inv) t" for i hi f u
    unfolding wp_bind
    by (rule pres_wp [OF ports_keepD(4) [OF inv_kept] that(1)], rule wp_mono [OF fetch]) (use that(2) in auto)
  show ?thesis
    unfolding cu_round_def wp_bind [of "cu_running P"] wp_if
    by (rule pres_wp [OF ports_keepD(15) [OF inv_kept] assms])
      (simp_all only: finish if_split, auto intro!: ask blocks)
qed

lemma last_round:
  assumes "stopped s \<or> cup_height peer < n"
  shows "wpM (cu_round P peer cfg n k) (\<lambda>x _. \<exists>out. x = Done out) (\<lambda>_ _. True) s"
proof -
  have running: "wpM (cu_running P) (\<lambda>b _. \<not> (b \<and> n \<le> cup_height peer)) (\<lambda>_ _. True) s"
    using assms stopped_reads [of s] by (auto simp: wpM_def split: prod.split sum.split)
  have finish: "wpM (bindM (cu_finish P peer cfg k) (\<lambda>out. returnM (Done out))) (\<lambda>x _. \<exists>out. x = Done out) (\<lambda>_ _. True) u" for u
    by (simp add: wp_bind wp_return wpM_def split: prod.split sum.split)
  show ?thesis
    unfolding cu_round_def wp_bind [of "cu_running P"]
    by (rule wp_mono [OF running]) (subst if_not_P, assumption, rule finish, simp)
qed

lemma loop_ends:
  assumes "stopped s \<or> cup_height peer < n"
  shows "cu_loop P peer cfg n k s \<noteq> None"
  using last_round [OF assms, of cfg k] by (subst cu_loop.simps) (auto simp: wpM_def split: prod.splits sum.splits)

lemma loop_returns: "inv s \<Longrightarrow> cu_loop P peer cfg n k s \<noteq> None"
proof (induction "nat (cup_height peer + 1 - n)" arbitrary: n k s rule: less_induct)
  case less
  show ?case
  proof (cases "stopped s \<or> cup_height peer < n")
    case False
    have next': "cu_loop P peer cfg c j t \<noteq> None" if "inv t" "stopped t \<or> n < c" for c j t
    proof (cases "stopped t")
      case False
      with that(2) \<open>\<not> (stopped s \<or> cup_height peer < n)\<close> show ?thesis by (intro less.hyps that(1)) auto
    qed (simp add: loop_ends)
    show ?thesis using round_moves [OF less.prems, of peer cfg n k] next'
      by (subst cu_loop.simps) (auto simp: wpM_def split: prod.splits sum.splits cu_next.splits)
  qed (rule loop_ends)
qed

theorem run_ahead_returns: "inv s \<Longrightarrow> run_ahead P peer cfg s \<noteq> None"
  using loop_returns [OF presD [OF prologue_pres [OF inv_kept, of peer cfg], of s], of peer cfg]
  by (auto simp: run_ahead_def run_ahead_inner_def split: option.splits prod.splits sum.splits)

end

section \<open>The ports of the synchronisation engine\<close>

text \<open>A body is filed under its own height.\<close>

definition index_ok :: "block_index \<Rightarrow> bool" where
  "index_ok idx \<longleftrightarrow> (\<forall>(h, b) \<in> set idx. 0 \<le> h \<and> eio_block_height b (- 1) = h)"

abbreviation eio_inv :: "'c eio \<Rightarrow> bool" where
  "eio_inv s \<equiv> index_ok (eio_index s)"

abbreviation eio_stopped :: "'c eio \<Rightarrow> bool" where
  "eio_stopped s \<equiv> \<not> eio_running s"

lemma index_ok_dset: "index_ok idx \<Longrightarrow> 0 \<le> eio_block_height b (- 1) \<Longrightarrow> index_ok (dset (eio_block_height b (- 1)) b idx)"
  using set_dset_subset [of "eio_block_height b (- 1)" b idx] by (fastforce simp: index_ok_def)

lemma index_ok_blocks: "index_ok idx \<Longrightarrow> index_ok (index_blocks bs idx)"
  unfolding index_blocks_def by (induction bs arbitrary: idx) (simp_all add: index_ok_dset)

lemma eio_same_height: "eio_block_height = cu_block_height" and eio_same_hash: "eio_block_hash = cu_block_hash"
  by (simp_all add: fun_eq_iff eio_block_height_def cu_block_height_def eio_block_hash_def cu_block_hash_def)

text \<open>A height that was read does not depend on the default.\<close>

lemma height_read_any: "0 \<le> cu_block_height b (- 1) \<Longrightarrow> cu_block_height b d = cu_block_height b (- 1)"
  by (auto simp: cu_block_height_def split: if_splits option.splits)

lemma serve_heights: "index_ok idx \<Longrightarrow> heights_from lo (serve idx lo hi)"
proof (induction "nat (hi + 1 - lo)" arbitrary: lo)
  case (Suc n)
  then have up: "[lo..hi] = lo # [lo + 1..hi]" by (simp add: upto_rec1)
  have "heights_from (lo + 1) (serve idx (lo + 1) hi)" using Suc by simp
  moreover have "\<forall>d. cu_block_height b d = lo" if "dget idx lo = Some b" for b
    using that Suc.prems height_read_any map_of_SomeD by (fastforce simp: index_ok_def eio_same_height)
  ultimately show ?case by (auto simp: serve_def up)
qed (simp add: serve_def)

lemmas eio_defs = eio_height_def eio_needs_genesis_def no_height_yet_def eio_get_block_def block_at_def block_of_hash_def
  eio_head_def eio_expected_parent_def eio_import_def eio_find_ancestor_def eio_reorg_def eio_local_probe_def
  eio_peer_probe_def eio_bump_def eio_set_height_def eio_on_progress_def

text \<open>What any operation leaves alone: a predicate of the running flag and of the index that filing
  a body by its height keeps.\<close>

lemma node_pres [pres_rules]:
  "pres J (node_read f)" "(\<And>s c. J s \<Longrightarrow> J (s\<lparr>eio_node := c\<rparr>)) \<Longrightarrow> pres J (node_call g)"
  by (auto simp: pres_def node_read_def node_call_def split: prod.split)

lemma ensure_pres:
  assumes "\<And>s r. J s \<Longrightarrow> J (s\<lparr>eio_ready := r\<rparr>)" "\<And>s o' e. J s \<Longrightarrow> J (s\<lparr>eio_ok := o', eio_error := e\<rparr>)"
    and "\<And>s. J s \<Longrightarrow> J (s\<lparr>eio_index := []\<rparr>)"
    and "\<And>s bs. J s \<Longrightarrow> J (s\<lparr>eio_index := index_blocks bs (eio_index s)\<rparr>)"
  shows "pres J (ensure_ahead_index E)"
proof -
  have acc: "pres J (accept_chain bs)" for bs
    unfolding accept_chain_def using assms(2) [OF assms(4)] by (intro pres_mod) simp
  show ?thesis
    unfolding ensure_ahead_index_def download_index_def check_chain_def local_tip_hash_def chain_failed_def
      eio_height_def eio_needs_genesis_def no_height_yet_def case_prod_unfold
    by (intro pres_rules acc assms)
qed

lemma eio_keeps:
  assumes "\<And>s r. J s \<Longrightarrow> J (s\<lparr>eio_ready := r\<rparr>)" "\<And>s o' e. J s \<Longrightarrow> J (s\<lparr>eio_ok := o', eio_error := e\<rparr>)"
    and "\<And>s. J s \<Longrightarrow> J (s\<lparr>eio_index := []\<rparr>)"
    and "\<And>s bs. J s \<Longrightarrow> J (s\<lparr>eio_index := index_blocks bs (eio_index s)\<rparr>)"
    and "\<And>s c. J s \<Longrightarrow> J (s\<lparr>eio_node := c\<rparr>)" "\<And>s x. J s \<Longrightarrow> J (s\<lparr>eio_refuses := x\<rparr>)"
    and "\<And>s x. J s \<Longrightarrow> J (s\<lparr>eio_fails := x, eio_running := False\<rparr>)" "\<And>s x. J s \<Longrightarrow> J (s\<lparr>eio_heights := x\<rparr>)"
    and "\<And>s x. J s \<Longrightarrow> J (s\<lparr>eio_progress := x\<rparr>)" "\<And>s x. J s \<Longrightarrow> J (s\<lparr>eio_fetches := x\<rparr>)"
    and "\<And>s b. J s \<Longrightarrow> 0 \<le> eio_block_height b (- 1) \<Longrightarrow> J (s\<lparr>eio_index := dset (eio_block_height b (- 1)) b (eio_index s)\<rparr>)"
  shows "ports_keep J (engine_io E)"
proof -
  have ensure: "pres J (ensure_ahead_index E)" by (rule ensure_pres) (rule assms, assumption)+
  show ?thesis
    unfolding ports_keep_def engine_io_def cu_ports.simps eio_defs eio_note_fail_def eio_fetch_def Let_def
    by (intro conjI allI impI) (auto intro!: pres_rules ensure assms split: option.split)
qed

interpretation engine: bounded_catchup "engine_io E" eio_inv eio_stopped
  for E :: "'c engine_ops"
proof
  show "ports_keep eio_inv (engine_io E)" "ports_keep eio_stopped (engine_io E)"
    by (rule eio_keeps; simp add: index_ok_blocks index_ok_dset index_ok_def [of "[]"])+
  show "eio_stopped (snd (cu_note_fail (engine_io E) i w))" for i w
    by (simp add: engine_io_def eio_note_fail_def modM_def)
  show "fst (cu_running (engine_io E) w) \<noteq> Inr True" if "eio_stopped w" for w
    using that by (simp add: engine_io_def getM_def)
  show "heights_from lo bs"
    if "eio_inv w" "fst (cu_fetch (engine_io E) i lo hi p w) = Inr (Some bs)" for w i lo hi p bs
  proof -
    have "pres eio_inv (ensure_ahead_index E)"
      by (rule ensure_pres) (simp_all add: index_ok_blocks index_ok_def [of "[]"])
    then have "wpM (eio_fetch E i lo hi p) (\<lambda>r _. \<forall>bs. r = Some bs \<longrightarrow> heights_from lo bs) (\<lambda>_ _. True) w"
      unfolding eio_fetch_def wp_bind wp_mod wp_get
      by (rule pres_wp) (use that(1) serve_heights in auto)
    with that(2) show ?thesis by (auto simp: wpM_def engine_io_def split: prod.splits)
  qed
qed

end
