(* ===== verification/CatchUpProps.thy ===== *)
theory CatchUpProps
  imports CatchUpAdapters CatchUpBound
begin

text \<open>
  The properties of catch-up: what a call may do to the chain of the node, and that the calls of the
  synchronisation engine return. The node of the witnesses holds a list of block dictionaries.
\<close>

section \<open>A node\<close>

definition demo_body :: "int \<Rightarrow> string \<Rightarrow> string \<Rightarrow> pydict" where
  "demo_body h hash parent = [(''height'', PInt h), (''hash'', PStr hash), (''parent_hash'', PStr parent)]"

definition head_of :: "pydict list \<Rightarrow> string" where
  "head_of c = (if c = [] then [] else pget_str (last c) ''hash'')"

fun find_hash :: "string \<Rightarrow> int \<Rightarrow> pydict list \<Rightarrow> int option" where
  "find_hash p n [] = None"
| "find_hash p n (b # bs) = (if pget_str b ''hash'' = p then Some n else find_hash p (n + 1) bs)"

text \<open>Its peer serves, of the bodies it was given, those in the range asked for.\<close>

definition list_node :: "(pydict list, pydict option list) cu_ops" where
  "list_node = \<lparr>co_height = (\<lambda>c. Inr (Some (int (length c) - 1))), co_head = (\<lambda>c. Inr (head_of c)),
     co_parent = (\<lambda>n c. Inr (head_of (take (nat n) c))),
     co_block = (\<lambda>k c. Inr (case k of AtHeight h \<Rightarrow> if 0 \<le> h \<and> nat h < length c then Some (c ! nat h) else None
        | OfHash s \<Rightarrow> find (\<lambda>b. pget_str b ''hash'' = s) c)),
     co_import = (\<lambda>b c x. if pget_str b ''parent_hash'' = head_of c then (Inr True, c @ [b], x) else (Inr False, c, x)),
     co_ancestor = Some (\<lambda>p c. Inr (find_hash p 0 c)), co_block_by_hash = None,
     co_reorg = Some (\<lambda>h c. (Inr True, take (nat h + 1) c)), co_queue = None, co_loop_running = (\<lambda>_. True),
     co_wait = (\<lambda>lo hi p x. (Inr (Some \<lparr>wm_type = ''blocks'',
        wm_data = Some (filter (\<lambda>b. case b of None \<Rightarrow> False | Some b \<Rightarrow> lo \<le> cu_block_height b lo \<and> cu_block_height b lo \<le> hi) x)\<rparr>), x)),
     co_local_probe = (\<lambda>c x. (Inr [], x)), co_peer_probe = (\<lambda>c x. (Inr [], x)), co_bump = (\<lambda>r x. (Inr (), x)),
     co_note_fail = (\<lambda>x. (Inr (), x)), co_running = (\<lambda>_. Some True), co_batch = (\<lambda>_. Inr None)\<rparr>"

definition demo_chain :: "pydict list" where
  "demo_chain = [demo_body 0 ''g'' '''']"

definition demo_cu_node :: "pydict option list \<Rightarrow> (pydict list, pydict option list) cu_node" where
  "demo_cu_node x = \<lparr>cn_chain = demo_chain, cn_ext = x, cn_peer_height = Some 2, cn_out = []\<rparr>"

definition demo_cu_peer :: cu_peer where
  "demo_cu_peer = \<lparr>cup_id = ''p'', cup_height = 2, cup_head = ''b2''\<rparr>"

definition demo_served :: "pydict option list" where
  "demo_served = [Some (demo_body 1 ''b1'' ''g''), Some (demo_body 2 ''b2'' ''b1'')]"

section \<open>What a call does to the chain\<close>

text \<open>C21: whatever a peer serves and whatever the ports raise, a catch-up call leaves the chain as it was or goes steps on it
  from the height above the chain (1 when the chain is at height 0 and the peer is above). A step imports a body that passed
  the binds: its height, when it states one, is the cursor, its parent is the tip when it is right above the tip, and at the
  height of the peer it has the hash of the peer's head; after it the cursor is above the body. When the import was refused
  the cursor stays, or the chain is rolled back to the height of the body's parent, which is below the tip and is not the
  tip, and the cursor is above the new height. A call that reports COMPLETE leaves a chain above the peer's height, or at
  it with the peer's head as far as the two heads are known and the tip bind is on.\<close>

theorem catch_up_gated:
  assumes "run_ahead (build_path_a_adapters N) peer cfg s = Some (r, t)"
  shows "(cn_chain t = cn_chain s
      \<or> (\<exists>h m. chain_height N (cn_chain s) = Inr h
           \<and> (cu_step (cu_view N) (node_imports N) (node_rolls_back N) cfg peer)\<^sup>*\<^sup>*
               (start_cursor False h (cup_height peer), cn_chain s) (m, cn_chain t)))
     \<and> (\<forall>out. r = Inr out \<longrightarrow> cuo_status out = CU_Complete \<longrightarrow> caught_up (cu_view N) cfg peer (cn_chain t))"
proof -
  have "cvw_height (cu_view N) = chain_height N" "cu_needs_genesis (build_path_a_adapters N) = None"
    by (simp_all add: cu_view_def build_path_a_adapters_def)
  then show ?thesis using path_a.run_ahead_honest [OF assms]
    unfolding path_a.call_reach_def path_a.reach_def first_cursor_def by (metis (full_types))
qed

definition demo_catch_up :: "((string + cu_outcome) \<times> (pydict list, pydict option list) cu_node) option" where
  "demo_catch_up = run_ahead (build_path_a_adapters list_node) demo_cu_peer cu_config_default (demo_cu_node demo_served)"

lemma demo_catch_up_result:
  "map_option fst demo_catch_up = Some (Inr (cuo_complete 2 2 2))"
  "map_option (cn_chain \<circ> snd) demo_catch_up = Some (demo_chain @ map the demo_served)"
  by code_simp+

lemma catch_up_gated_witness:
  "(\<exists>m. (cu_step (cu_view list_node) (node_imports list_node) (node_rolls_back list_node) cu_config_default demo_cu_peer)\<^sup>*\<^sup>*
      (1, demo_chain) (m, demo_chain @ map the demo_served))
   \<and> caught_up (cu_view list_node) cu_config_default demo_cu_peer (demo_chain @ map the demo_served)"
proof -
  obtain r t where run: "demo_catch_up = Some (r, t)" using demo_catch_up_result(1) by fastforce
  have r: "r = Inr (cuo_complete 2 2 2)" and chain: "cn_chain t = demo_chain @ map the demo_served"
    using demo_catch_up_result [unfolded run] by simp_all
  have start: "cuo_status (cuo_complete 2 2 2) = CU_Complete" "cn_chain (demo_cu_node demo_served) = demo_chain"
    "chain_height list_node demo_chain = Inr 0" "start_cursor False 0 (cup_height demo_cu_peer) = 1"
    "demo_chain @ map the demo_served \<noteq> demo_chain"
    by (simp_all add: cuo_complete_def demo_cu_node_def chain_height_def list_node_def demo_chain_def demo_cu_peer_def
        start_cursor_def demo_served_def)
  show ?thesis using catch_up_gated [OF run [unfolded demo_catch_up_def]] r chain start by auto
qed

section \<open>The calls that return\<close>

text \<open>C22: a catch-up call of the synchronisation engine returns, whatever chain the peer offers and whatever
  the engine's operations do: a failed import stops the object, and every other round moves the cursor.\<close>

theorem engine_catch_up_returns:
  "\<exists>r t. run_ahead (engine_io E) peer cfg (eio_init c peer_id peer_head target batch running) = Some (r, t)"
proof -
  have "index_ok (eio_index (eio_init c peer_id peer_head target batch running))"
    by (simp add: eio_init_def index_ok_def)
  from engine.run_ahead_returns [OF this, of E peer cfg] show ?thesis by auto
qed

text \<open>The ports of the P2P node do not stop at a failed import, and a body without a height passes every bind. A
  peer that serves the next body and then one without height, whose parent is the genesis block, has the
  chain rolled back to genesis in every round: the call does not return. (The reply check of the native
  library refuses such a reply; nothing in the service does.)\<close>

definition hostile_served :: "pydict option list" where
  "hostile_served = [Some (demo_body 1 ''b1'' ''g''), Some [(''hash'', PStr ''z''), (''parent_hash'', PStr ''g'')]]"

definition hostile_node :: "(pydict list, pydict option list) cu_ops" where
  "hostile_node = list_node\<lparr>co_wait := (\<lambda>lo hi p x. (Inr (Some \<lparr>wm_type = ''blocks'', wm_data = Some x\<rparr>), x))\<rparr>"

abbreviation hostile_ports :: "(pydict list, pydict option list) cu_node cu_ports" where
  "hostile_ports \<equiv> build_path_a_adapters hostile_node"

lemma hostile_round:
  "map_prod id (\<lambda>t. (cn_chain t, cn_ext t)) (cu_round hostile_ports demo_cu_peer cu_config_default 1 k
      \<lparr>cn_chain = demo_chain, cn_ext = hostile_served, cn_peer_height = h, cn_out = out\<rparr>)
   = (Inr (Again 1 (k + 1)), demo_chain, hostile_served)"
  by code_simp

lemma hostile_peer_never_ends:
  "cn_chain u = demo_chain \<Longrightarrow> cn_ext u = hostile_served \<Longrightarrow>
     cu_loop hostile_ports demo_cu_peer cu_config_default 1 k u = None"
proof (rule ccontr)
  let ?G = "\<lambda>Q q d (m :: int) (j :: int) u (y :: (string + cu_outcome) \<times> (pydict list, pydict option list) cu_node).
    \<not> (Q = hostile_ports \<and> q = demo_cu_peer \<and> d = cu_config_default \<and> m = 1
       \<and> cn_chain u = demo_chain \<and> cn_ext u = hostile_served)"
  assume u: "cn_chain u = demo_chain" "cn_ext u = hostile_served"
    and "cu_loop hostile_ports demo_cu_peer cu_config_default 1 k u \<noteq> None"
  then obtain y where y: "cu_loop hostile_ports demo_cu_peer cu_config_default 1 k u = Some y" by blast
  have "?G hostile_ports demo_cu_peer cu_config_default 1 k u y"
  proof (rule cu_loop.raw_induct [where P = ?G, OF _ y], intro notI, elim conjE)
    fix f Q q d m j u y
    assume IH: "\<And>Q q d m j u y. f Q q d m j u = Some y \<Longrightarrow> ?G Q q d m j u y"
      and body: "(case cu_round Q q d m j u of
          (Inl e, w') \<Rightarrow> Some (Inl e, w')
        | (Inr (Done out), w') \<Rightarrow> Some (Inr out, w')
        | (Inr (Again c n), w') \<Rightarrow> f Q q d c n w') = Some y"
      and eq: "Q = hostile_ports" "q = demo_cu_peer" "d = cu_config_default" "m = 1"
        "cn_chain u = demo_chain" "cn_ext u = hostile_served"
    have "u = \<lparr>cn_chain = demo_chain, cn_ext = hostile_served, cn_peer_height = cn_peer_height u, cn_out = cn_out u\<rparr>"
      using eq by simp
    with hostile_round [of j "cn_peer_height u" "cn_out u"]
    obtain t where t: "cu_round hostile_ports demo_cu_peer cu_config_default 1 j u = (Inr (Again 1 (j + 1)), t)"
        "cn_chain t = demo_chain" "cn_ext t = hostile_served"
      by (cases "cu_round hostile_ports demo_cu_peer cu_config_default 1 j u") auto
    have "f hostile_ports demo_cu_peer cu_config_default 1 (j + 1) t = Some y"
      using body unfolding eq(1-4) t(1) by simp
    from IH [OF this] t(2,3) show False by simp
  qed
  with u show False by simp
qed

text \<open>Without \<open>find_ancestor_height\<close> on the blockchain, the adapter reports the genesis block at height \<open>-1\<close>.\<close>

lemma genesis_ancestor_lost:
  assumes "co_ancestor N = None" "co_block_by_hash N = Some f" "f (py_strip p) c = Inr (Some b)"
    and "dget b ''height'' = Some (PInt 0)"
  shows "ancestor_of N p c = Some (- 1)"
  using assms by (simp add: ancestor_of_def dget_or_def py_or_def)

end
