(* ===== verification/TxIdentity.thy ===== *)
theory TxIdentity
  imports Prelude Complex_Main
begin

text \<open>
  The identity of a transaction (\<open>core/tx_identity.py\<close>) and the input checks of
  \<open>middleware/validators.py\<close> the memory pool uses. A floating-point amount is the rational number it stands for; the
  hash functions of the native library and the wallet, the conversion of an amount to satoshi and the clock
  are parameters (the record \<open>tx_env\<close>). A \<open>ValueError\<close> is a left value with its message.
\<close>

record tx_payload =
  tp_from :: string
  tp_to :: string
  tp_value :: rat
  tp_nonce :: int
  tp_gas :: int
  tp_data :: string

record tx_env =
  te_hash :: "tx_payload \<Rightarrow> int \<Rightarrow> string"
  te_signing :: "tx_payload \<Rightarrow> int \<Rightarrow> string"
  te_satoshi :: "rat \<Rightarrow> string + int"
  te_now :: int

section \<open>Identity\<close>

definition require_positive_gas :: "int \<Rightarrow> string + int" where
  "require_positive_gas gas = (if gas \<le> 0 then Inl ''gas_required'' else Inr gas)"

text \<open>The canonical hash and the time it was taken at: the given one, or the clock's.\<close>

definition compute_tx_identity_hash :: "tx_env \<Rightarrow> tx_payload \<Rightarrow> int \<Rightarrow> string + (string \<times> int)" where
  "compute_tx_identity_hash E p timestamp =
     (case require_positive_gas (tp_gas p) of
        Inl e \<Rightarrow> Inl e
      | Inr gas \<Rightarrow> (let ts = (if timestamp \<le> 0 then te_now E else timestamp) in Inr (te_hash E p ts, ts)))"

definition wallet_signing_digest :: "tx_env \<Rightarrow> tx_payload \<Rightarrow> int \<Rightarrow> string + string" where
  "wallet_signing_digest E p chain_id =
     (case require_positive_gas (tp_gas p) of
        Inl e \<Rightarrow> Inl e
      | Inr gas \<Rightarrow> Inr (te_signing E p (if chain_id = 0 then 1 else chain_id)))"

definition drop_0x :: "string \<Rightarrow> string" where
  "drop_0x s = (if take 2 s = ''0x'' then drop 2 s else s)"

definition is_hex_lower :: "char \<Rightarrow> bool" where
  "is_hex_lower c \<longleftrightarrow> c \<in> set ''0123456789abcdef''"

definition looks_like_digest :: "string \<Rightarrow> bool" where
  "looks_like_digest claim =
     (let c = drop_0x (py_lower (py_strip claim)) in length c = 64 \<and> list_all is_hex_lower c)"

definition bind_tx_hash_claim :: "string \<Rightarrow> string \<Rightarrow> string \<Rightarrow> string + string" where
  "bind_tx_hash_claim claimed canonical signing =
     (let claim = py_strip claimed; canon = py_strip canonical
      in if canon = [] then Inl ''tx_hash_mismatch: empty canonical hash''
         else if claim = [] \<or> \<not> looks_like_digest claim then Inr canon
         else if py_lower claim = py_lower canon \<or> (take 2 claim = ''0x'' \<and> py_lower (drop 2 claim) = py_lower canon)
         then Inr canon
         else if signing \<noteq> [] \<and> drop_0x (py_lower claim) = drop_0x (py_lower signing) then Inr canon
         else Inl ''tx_hash_mismatch: client hash does not match payload'')"

definition bind_identity_from_fields ::
  "tx_env \<Rightarrow> string \<Rightarrow> tx_payload \<Rightarrow> int \<Rightarrow> int \<Rightarrow> string + (string \<times> int)" where
  "bind_identity_from_fields E claimed p timestamp chain_id =
     (case require_positive_gas (tp_gas p) of
        Inl e \<Rightarrow> Inl e
      | Inr gas \<Rightarrow>
          (case compute_tx_identity_hash E p timestamp of
             Inl e \<Rightarrow> Inl e
           | Inr (canonical, ts) \<Rightarrow>
               (case wallet_signing_digest E p chain_id of
                  Inl e \<Rightarrow> Inl e
                | Inr signing \<Rightarrow>
                    (case bind_tx_hash_claim claimed canonical signing of
                       Inl e \<Rightarrow> Inl e
                     | Inr bound \<Rightarrow> Inr (bound, ts)))))"

text \<open>A bound identity is the canonical hash of the payload, whatever was claimed.\<close>

lemma bound_is_canonical:
  "bind_identity_from_fields E claimed p timestamp chain_id = Inr (bound, ts) \<Longrightarrow>
     bound = py_strip (te_hash E p ts) \<and> bound \<noteq> [] \<and> 0 < tp_gas p \<and> ts = (if timestamp \<le> 0 then te_now E else timestamp)"
  by (auto simp: bind_identity_from_fields_def compute_tx_identity_hash_def bind_tx_hash_claim_def
    require_positive_gas_def Let_def split: sum.splits prod.splits if_splits)

section \<open>Input checks\<close>

definition is_hex_digit :: "char \<Rightarrow> bool" where
  "is_hex_digit c \<longleftrightarrow> c \<in> set ''0123456789abcdefABCDEF''"

definition validate_address :: "string \<Rightarrow> bool \<times> string" where
  "validate_address a =
     (if a = [] then (False, ''Address must be a non-empty string'')
      else if take 2 a \<noteq> ''0x'' then (False, ''Address must start with 0x'')
      else if length (drop 2 a) \<noteq> 40 then (False, ''Address must be 40 hex characters after 0x'')
      else if \<not> list_all is_hex_digit (drop 2 a) then (False, ''Address contains invalid hex characters'')
      else (True, []))"

text \<open>With the default bounds: a minimum of zero and a maximum of a billion.\<close>

definition validate_amount :: "tx_env \<Rightarrow> rat \<Rightarrow> bool \<times> string" where
  "validate_amount E amount =
     (case (te_satoshi E amount, te_satoshi E 0, te_satoshi E 1000000000) of
        (Inr sats, Inr min_sats, Inr max_sats) \<Rightarrow>
          if sats < 0 then (False, ''Amount must be non-negative'')
          else if min_sats > 0 \<and> sats < min_sats then (False, ''Amount too small (minimum satoshi: '' @ py_str_int min_sats @ '')'')
          else if sats > max_sats then (False, ''Amount too large (maximum satoshi: '' @ py_str_int max_sats @ '')'')
          else (True, [])
      | (Inl e, _, _) \<Rightarrow> (False, ''Amount must be a number ('' @ e @ '')'')
      | (_, Inl e, _) \<Rightarrow> (False, ''Amount must be a number ('' @ e @ '')'')
      | (_, _, Inl e) \<Rightarrow> (False, ''Amount must be a number ('' @ e @ '')''))"

end
