(* ===== verification/Mempool.thy ===== *)
theory Mempool
  imports TxIdentity Floats "HOL-Library.Product_Lexorder"
begin

text \<open>
  The pool of pending transactions (\<open>blockchain/mempool.py\<close>) with its Python store. A transaction object
  that the pool changes (its bound hash, its timestamp, its fee) is returned changed. Signature verification
  and the validation against the chain are parameters (\<open>mp_env\<close>), an exception they let through is a left value.
  The native store, which replaces the dictionary when it is installed, is not modelled.
\<close>

section \<open>Transactions\<close>

record mp_tx =
  mt_hash :: string
  mt_from :: string
  mt_to :: string
  mt_amount :: rat
  mt_fee :: rat
  mt_nonce :: int
  mt_signature :: string
  mt_public_key :: string
  mt_data :: string
  mt_gas :: int
  mt_timestamp :: rat
  mt_fee_sat :: int
  mt_amount_sat :: int

datatype verify_result = Verified bool | VerifyRuntimeError string | VerifyError string

record mp_env =
  me_tx :: tx_env
  me_validators :: bool
  me_ecdsa :: bool
  me_verify :: "mp_tx \<Rightarrow> int \<Rightarrow> verify_result"
  me_verify_batch :: "mp_tx list \<Rightarrow> int \<Rightarrow> string + bool list"
  me_chain :: "(mp_tx \<Rightarrow> string + bool) option"

text \<open>A negative amount in satoshi stands for one not yet converted.\<close>

definition fee_satoshi :: "mp_env \<Rightarrow> mp_tx \<Rightarrow> string + int" where
  "fee_satoshi E tx = (if mt_fee_sat tx < 0 then te_satoshi (me_tx E) (mt_fee tx) else Inr (mt_fee_sat tx))"

definition mempool_tx_init :: "mp_env \<Rightarrow> mp_tx \<Rightarrow> string + mp_tx" where
  "mempool_tx_init E tx =
     (case fee_satoshi E tx of
        Inl e \<Rightarrow> Inl e
      | Inr fee \<Rightarrow>
          (case (if mt_amount_sat tx < 0 then te_satoshi (me_tx E) (mt_amount tx) else Inr (mt_amount_sat tx)) of
             Inl e \<Rightarrow> Inl e
           | Inr amount \<Rightarrow> Inr (tx\<lparr>mt_fee_sat := fee, mt_amount_sat := amount\<rparr>)))"

definition has_valid_signature :: "mp_env \<Rightarrow> bool \<Rightarrow> int \<Rightarrow> mp_tx \<Rightarrow> string + bool" where
  "has_valid_signature E require chain_id tx =
     (if mt_signature tx = [] then Inr (\<not> require)
      else if mt_public_key tx = [] then Inr False
      else if \<not> me_ecdsa E then Inr False
      else (case me_verify E tx chain_id of
          Verified ok \<Rightarrow> Inr ok
        | VerifyRuntimeError e \<Rightarrow> Inl e
        | VerifyError e \<Rightarrow> Inr False))"

text \<open>The address and amount checks, empty when they pass.\<close>

definition fields_refuse :: "mp_env \<Rightarrow> mp_tx \<Rightarrow> string" where
  "fields_refuse E tx =
     (if \<not> me_validators E then (if mt_amount tx < 0 then ''negative_amount'' else [])
      else
        (let from_bad = \<not> fst (validate_address (mt_from tx)) \<and> length (mt_from tx) < 5;
             to_bad = \<not> fst (validate_address (mt_to tx)) \<and> length (mt_to tx) < 5;
             amount = validate_amount (me_tx E) (mt_amount tx)
         in if from_bad then ''invalid_from: '' @ snd (validate_address (mt_from tx))
            else if to_bad then ''invalid_to: '' @ snd (validate_address (mt_to tx))
            else if mt_amount tx < 0 then ''negative_amount''
            else if mt_amount tx > 0 \<and> \<not> fst amount then ''invalid_amount: '' @ snd amount
            else []))"

definition validate_mempool_tx :: "mp_env \<Rightarrow> int \<Rightarrow> mp_tx \<Rightarrow> string + (bool \<times> string \<times> mp_tx)" where
  "validate_mempool_tx E min_fee tx =
     (if mt_hash tx = [] then Inr (False, ''missing_hash'', tx)
      else (case fee_satoshi E tx of
          Inl e \<Rightarrow> Inl e
        | Inr fee \<Rightarrow>
            (let tx1 = tx\<lparr>mt_fee_sat := fee\<rparr>; refuse = fields_refuse E tx1
             in if fee < min_fee then Inr (False, ''fee_too_low (min_satoshi='' @ py_str_int min_fee @ '')'', tx1)
                else if refuse \<noteq> [] then Inr (False, refuse, tx1)
                else if mt_gas tx1 \<le> 0 then Inr (False, ''gas_required'', tx1)
                else Inr (True, ''ok'', tx1))))"

section \<open>The store\<close>

record mempool =
  mp_txs :: "(string \<times> mp_tx) list"
  mp_max :: int
  mp_min_fee :: int
  mp_rejected :: int
  mp_chain_id :: int
  mp_require :: bool

definition mempool_init :: "int \<Rightarrow> int \<Rightarrow> mempool" where
  "mempool_init max_size min_fee =
     \<lparr>mp_txs = [], mp_max = max_size, mp_min_fee = min_fee, mp_rejected = 0, mp_chain_id = 1, mp_require = False\<rparr>"

definition set_blockchain :: "int \<Rightarrow> bool \<Rightarrow> mempool \<Rightarrow> mempool" where
  "set_blockchain chain_id require s = s\<lparr>mp_chain_id := chain_id, mp_require := require\<rparr>"

definition mp_size :: "mempool \<Rightarrow> nat" where
  "mp_size s = length (mp_txs s)"

definition has_transaction :: "string \<Rightarrow> mempool \<Rightarrow> bool" where
  "has_transaction h s \<longleftrightarrow> dget (mp_txs s) h \<noteq> None"

definition get_transaction :: "string \<Rightarrow> mempool \<Rightarrow> mp_tx option" where
  "get_transaction h s = dget (mp_txs s) h"

definition mp_remove :: "string \<Rightarrow> mempool \<Rightarrow> bool \<times> mempool" where
  "mp_remove h s = (has_transaction h s, s\<lparr>mp_txs := AList.delete h (mp_txs s)\<rparr>)"

text \<open>\<open>len < max * 0.8\<close> and \<open>int(len * 0.1)\<close> in doubles.\<close>

definition not_yet_full :: "nat \<Rightarrow> int \<Rightarrow> bool" where
  "not_yet_full n m \<longleftrightarrow> 0 < m \<and> n * 2 ^ 53 < double_product (nat m) one_tenth"

definition cleanup_count :: "nat \<Rightarrow> nat" where
  "cleanup_count n = double_product n one_tenth div 2 ^ 56"

definition cheapest :: "mempool \<Rightarrow> string list" where
  "cheapest s = map mt_hash (take (cleanup_count (mp_size s)) (sort_key mt_fee_sat (map snd (mp_txs s))))"

definition cleanup_python :: "mempool \<Rightarrow> mempool" where
  "cleanup_python s =
     (if not_yet_full (mp_size s) (mp_max s) then s
      else s\<lparr>mp_txs := foldl (\<lambda>d h. AList.delete h d) (mp_txs s) (cheapest s)\<rparr>)"

definition store_put :: "mp_tx \<Rightarrow> mempool \<Rightarrow> bool \<times> mempool" where
  "store_put tx s =
     (if has_transaction (mt_hash tx) s then (False, s)
      else
        (let s1 = (if int (mp_size s) \<ge> mp_max s then cleanup_python s else s)
         in if int (mp_size s1) \<ge> mp_max s1 then (False, s1)
            else (True, s1\<lparr>mp_txs := dset (mt_hash tx) tx (mp_txs s1)\<rparr>)))"

section \<open>Adding\<close>

type_synonym 'a mp_m = "(mempool, string, 'a) exs"

definition mp_reject :: "mp_tx \<Rightarrow> (bool \<times> mp_tx) mp_m" where
  "mp_reject tx = bindM (modM (\<lambda>s. s\<lparr>mp_rejected := mp_rejected s + 1\<rparr>)) (\<lambda>_. returnM (False, tx))"

definition payload_of :: "mp_tx \<Rightarrow> tx_payload" where
  "payload_of tx = \<lparr>tp_from = mt_from tx, tp_to = mt_to tx, tp_value = mt_amount tx, tp_nonce = mt_nonce tx,
     tp_gas = mt_gas tx, tp_data = mt_data tx\<rparr>"

definition py_trunc :: "rat \<Rightarrow> int" where
  "py_trunc r = (if r < 0 then \<lceil>r\<rceil> else \<lfloor>r\<rfloor>)"

text \<open>The transaction under its canonical identity.\<close>

definition bind_tx :: "mp_env \<Rightarrow> int \<Rightarrow> mp_tx \<Rightarrow> string + mp_tx" where
  "bind_tx E chain_id tx =
     (case bind_identity_from_fields (me_tx E) (mt_hash tx) (payload_of tx) (py_trunc (mt_timestamp tx))
             (if chain_id = 0 then 1 else chain_id) of
        Inl e \<Rightarrow> Inl e
      | Inr (bound, ts) \<Rightarrow>
          Inr (tx\<lparr>mt_hash := bound, mt_timestamp := (if py_trunc (mt_timestamp tx) \<le> 0 then of_int ts else mt_timestamp tx)\<rparr>))"

definition chain_gate :: "mp_env \<Rightarrow> bool \<Rightarrow> mp_tx \<Rightarrow> string + bool" where
  "chain_gate E prevalidated tx =
     (case me_chain E of
        None \<Rightarrow> Inr True
      | Some validate \<Rightarrow>
          if prevalidated then Inr True
          else if mt_gas tx \<le> 0 then Inr False
          else validate tx)"

definition lift_sum :: "string + 'a \<Rightarrow> 'a mp_m" where
  "lift_sum r = (case r of Inl e \<Rightarrow> raiseM e | Inr a \<Rightarrow> returnM a)"

definition put_or_reject :: "mp_tx \<Rightarrow> (bool \<times> mp_tx) mp_m" where
  "put_or_reject tx =
     bindM (callM (store_put tx)) (\<lambda>ok. if ok then returnM (True, tx) else mp_reject tx)"

definition mp_add_bound :: "mp_env \<Rightarrow> bool \<Rightarrow> bool \<Rightarrow> mp_tx \<Rightarrow> (bool \<times> mp_tx) mp_m" where
  "mp_add_bound E preverified prevalidated tx =
     bindM (getM (has_transaction (mt_hash tx))) (\<lambda>known.
       if known then returnM (False, tx)
       else bindM (getM id) (\<lambda>s.
       bindM (lift_sum (validate_mempool_tx E (mp_min_fee s) tx)) (\<lambda>(valid, reason, tx1).
         if \<not> valid then mp_reject tx1
         else
           bindM (lift_sum (if preverified then Inr True else has_valid_signature E (mp_require s) (mp_chain_id s) tx1)) (\<lambda>sig.
             if \<not> sig then mp_reject tx1
             else bindM (lift_sum (chain_gate E prevalidated tx1)) (\<lambda>ok.
               if \<not> ok then mp_reject tx1 else put_or_reject tx1)))))"

definition mp_add :: "mp_env \<Rightarrow> bool \<Rightarrow> bool \<Rightarrow> mp_tx \<Rightarrow> (bool \<times> mp_tx) mp_m" where
  "mp_add E preverified prevalidated tx =
     bindM (getM mp_chain_id) (\<lambda>chain_id.
       if mt_gas tx \<le> 0 then mp_reject tx
       else (case bind_tx E chain_id tx of
           Inl e \<Rightarrow> mp_reject tx
         | Inr bound \<Rightarrow> mp_add_bound E preverified prevalidated bound))"

text \<open>Without the identity and the checks, for internal transactions.\<close>

definition mp_add_raw :: "mp_env \<Rightarrow> mp_tx \<Rightarrow> bool mp_m" where
  "mp_add_raw E tx =
     bindM (getM (has_transaction (mt_hash tx))) (\<lambda>known.
       if known then returnM False
       else bindM (lift_sum (fee_satoshi E tx)) (\<lambda>fee.
         bindM (getM mp_min_fee) (\<lambda>min_fee.
           if fee < min_fee then returnM False else callM (store_put (tx\<lparr>mt_fee_sat := fee\<rparr>)))))"

section \<open>Batches\<close>

text \<open>Unsigned transactions and those without a key are decided at once, the rest in one batch.\<close>

definition needs_verify :: "mp_tx \<Rightarrow> bool" where
  "needs_verify tx \<longleftrightarrow> mt_signature tx \<noteq> [] \<and> mt_public_key tx \<noteq> []"

fun spread :: "bool \<Rightarrow> mp_tx list \<Rightarrow> bool list \<Rightarrow> bool list" where
  "spread require [] oks = []"
| "spread require (tx # txs) oks =
     (if mt_signature tx = [] then (\<not> require) # spread require txs oks
      else if mt_public_key tx = [] then False # spread require txs oks
      else (case oks of [] \<Rightarrow> False # spread require txs [] | ok # rest \<Rightarrow> ok # spread require txs rest))"

definition verify_signatures_batch :: "mp_env \<Rightarrow> mp_tx list \<Rightarrow> bool list mp_m" where
  "verify_signatures_batch E txs =
     bindM (getM id) (\<lambda>s.
       let batch = filter needs_verify txs
       in if batch \<noteq> [] \<and> me_ecdsa E
          then bindM (lift_sum (me_verify_batch E batch (mp_chain_id s))) (\<lambda>oks. returnM (spread (mp_require s) txs oks))
          else returnM (spread (mp_require s) txs []))"

fun add_verified :: "mp_env \<Rightarrow> bool \<Rightarrow> (mp_tx \<times> bool) list \<Rightarrow> int \<times> int \<times> string list \<Rightarrow> (int \<times> int \<times> string list) mp_m" where
  "add_verified E prevalidated [] acc = returnM acc"
| "add_verified E prevalidated ((tx, sig) # rest) (added, rejected, hashes) =
     (if \<not> sig
      then bindM (mp_reject tx) (\<lambda>_. add_verified E prevalidated rest (added, rejected + 1, hashes))
      else bindM (mp_add E True prevalidated tx) (\<lambda>(ok, tx1).
        add_verified E prevalidated rest
          (if ok then (added + 1, rejected, hashes @ [mt_hash tx1]) else (added, rejected + 1, hashes))))"

definition add_batch :: "mp_env \<Rightarrow> bool \<Rightarrow> mp_tx list \<Rightarrow> (int \<times> int \<times> string list) mp_m" where
  "add_batch E prevalidated txs =
     (if txs = [] then returnM (0, 0, [])
      else bindM (verify_signatures_batch E txs) (\<lambda>flags. add_verified E prevalidated (zip txs flags) (0, 0, [])))"

section \<open>Choosing transactions for a block\<close>

definition py_slice :: "int \<Rightarrow> 'a list \<Rightarrow> 'a list" where
  "py_slice n xs = take (if n \<ge> 0 then nat n else length xs - nat (- n)) xs"

definition min_fee_sat :: "mp_env \<Rightarrow> rat \<Rightarrow> string + int" where
  "min_fee_sat E fee = (if fee = 0 then Inr 0 else te_satoshi (me_tx E) fee)"

definition mp_get :: "mp_env \<Rightarrow> int \<Rightarrow> rat \<Rightarrow> mempool \<Rightarrow> string + mp_tx list" where
  "mp_get E limit min_fee s =
     (case min_fee_sat E min_fee of
        Inl e \<Rightarrow> Inl e
      | Inr sat \<Rightarrow>
          Inr (py_slice limit (filter (\<lambda>tx. mt_fee_sat tx \<ge> sat) (sort_key (\<lambda>tx. - mt_fee_sat tx) (map snd (mp_txs s))))))"

text \<open>The candidates of each sender, in the order the senders were met, each list in the order of nonces.\<close>

definition add_candidate :: "(string \<times> mp_tx list) list \<Rightarrow> mp_tx \<Rightarrow> (string \<times> mp_tx list) list" where
  "add_candidate d tx = dset (mt_from tx) (dget_or d (mt_from tx) [] @ [tx]) d"

definition by_sender :: "mp_tx list \<Rightarrow> (string \<times> mp_tx list) list" where
  "by_sender txs = map (\<lambda>(a, ts). (a, sort_key mt_nonce ts)) (foldl add_candidate [] txs)"

definition sender_rank :: "(string \<Rightarrow> int) \<Rightarrow> string \<times> mp_tx list \<Rightarrow> int \<times> int" where
  "sender_rank lookup g =
     (case snd g of [] \<Rightarrow> (1000000000, 0) | tx # _ \<Rightarrow> (mt_nonce tx - lookup (fst g), - mt_fee_sat tx))"

text \<open>The loop over one sender's transactions: those of the nonces expected, one after the other.\<close>

fun pack_sender :: "nat \<Rightarrow> int \<Rightarrow> mp_tx list \<Rightarrow> mp_tx list \<Rightarrow> mp_tx list" where
  "pack_sender cap want [] packed = packed"
| "pack_sender cap want (tx # txs) packed =
     (if length packed \<ge> cap then packed
      else if mt_nonce tx < want then pack_sender cap want txs packed
      else if mt_nonce tx > want then packed
      else pack_sender cap (want + 1) txs (packed @ [tx]))"

fun pack_senders :: "nat \<Rightarrow> (string \<Rightarrow> int) \<Rightarrow> (string \<times> mp_tx list) list \<Rightarrow> mp_tx list \<Rightarrow> mp_tx list" where
  "pack_senders cap lookup [] packed = packed"
| "pack_senders cap lookup ((a, txs) # gs) packed =
     (if length packed \<ge> cap then packed
      else pack_senders cap lookup gs (pack_sender cap (lookup a) txs packed))"

definition get_for_block ::
  "mp_env \<Rightarrow> int \<Rightarrow> (string \<Rightarrow> int) \<Rightarrow> rat \<Rightarrow> int \<Rightarrow> mempool \<Rightarrow> string + mp_tx list" where
  "get_for_block E limit lookup min_fee multiplier s =
     (let cap = max 0 limit
      in if cap \<le> 0 then Inr []
         else (case mp_get E (max (cap * max 1 multiplier) 256) min_fee s of
             Inl e \<Rightarrow> Inl e
           | Inr candidates \<Rightarrow>
               Inr (pack_senders (nat cap) lookup (sort_key (sender_rank lookup) (by_sender candidates)) [])))"

end
