(* ===== verification/MempoolProps.thy ===== *)
theory MempoolProps
  imports Mempool
begin

text \<open>
  The properties of the memory pool: the invariant of its store, what an accepted transaction has passed, and
  that the transactions chosen for a block can be executed in order.
\<close>

section \<open>The store\<close>

definition pool_ok :: "mempool \<Rightarrow> bool" where
  "pool_ok s \<longleftrightarrow>
     distinct (map fst (mp_txs s)) \<and> (\<forall>(h, t) \<in> set (mp_txs s). mt_hash t = h \<and> mp_min_fee s \<le> mt_fee_sat t)
     \<and> int (mp_size s) \<le> max 0 (mp_max s)"

lemma foldl_delete: "foldl (\<lambda>d h. AList.delete h d) d hs = filter (\<lambda>(k, v). k \<notin> set hs) d"
proof (induction hs arbitrary: d)
  case (Cons h hs)
  show ?case unfolding foldl_Cons Cons.IH by (auto simp: AList.delete_eq intro: filter_cong)
qed (simp add: case_prod_unfold)

lemma filter_eq_same: "length (filter p xs) = length xs \<Longrightarrow> filter p xs = xs"
  unfolding filter_id_conv by (metis length_filter_less less_irrefl)

lemma cleanup_same [simp]: "mp_max (cleanup_python s) = mp_max s" "mp_min_fee (cleanup_python s) = mp_min_fee s"
  by (simp_all add: cleanup_python_def)

text \<open>What a clean-up keeps.\<close>

lemma cleanup_txs: "mp_txs (cleanup_python s) =
    (if not_yet_full (mp_size s) (mp_max s) then mp_txs s else filter (\<lambda>(h, t). h \<notin> set (cheapest s)) (mp_txs s))"
  by (simp add: cleanup_python_def foldl_delete)

lemma cleanup_subset: "set (mp_txs (cleanup_python s)) \<subseteq> set (mp_txs s)"
  by (auto simp: cleanup_txs)

lemma pool_ok_sub:
  assumes "pool_ok s" "set (mp_txs s') \<subseteq> set (mp_txs s)" "distinct (map fst (mp_txs s'))"
    and "length (mp_txs s') \<le> length (mp_txs s)" "mp_max s' = mp_max s" "mp_min_fee s' = mp_min_fee s"
  shows "pool_ok s'"
  using assms by (auto simp: pool_ok_def mp_size_def)

lemma distinct_filter_fst: "distinct (map fst d) \<Longrightarrow> distinct (map fst (filter p d))"
  by (metis distinct_map_filter)

lemma cleanup_ok: "pool_ok s \<Longrightarrow> pool_ok (cleanup_python s)"
  by (rule pool_ok_sub) (auto simp: cleanup_txs pool_ok_def distinct_filter_fst)

lemma remove_ok: "pool_ok s \<Longrightarrow> pool_ok (snd (mp_remove h s))"
  by (rule pool_ok_sub) (auto simp: mp_remove_def AList.delete_eq pool_ok_def distinct_filter_fst)

lemma store_put_ok:
  assumes "pool_ok s" "mp_min_fee s \<le> mt_fee_sat tx"
  shows "pool_ok (snd (store_put tx s))"
proof -
  let ?s1 = "if int (mp_size s) \<ge> mp_max s then cleanup_python s else s"
  have s1: "pool_ok ?s1" using assms(1) by (simp add: cleanup_ok)
  show ?thesis
  proof (cases "has_transaction (mt_hash tx) s \<or> int (mp_size ?s1) \<ge> mp_max ?s1")
    case True
    then show ?thesis using assms(1) s1 by (auto simp: store_put_def Let_def)
  next
    case False
    then have "mt_hash tx \<notin> fst ` set (mp_txs s)" by (simp add: has_transaction_def map_of_eq_None_iff)
    then have new: "mt_hash tx \<notin> fst ` set (mp_txs ?s1)" using cleanup_subset [of s] by auto
    then have "dset (mt_hash tx) tx (mp_txs ?s1) = mp_txs ?s1 @ [(mt_hash tx, tx)]" by (rule dset_new)
    with False s1 new assms(2) show ?thesis by (auto simp: store_put_def Let_def pool_ok_def mp_size_def)
  qed
qed

text \<open>The clean-up drops a tenth of the pool, and no dropped transaction pays more than a kept one.\<close>

lemma cleanup_count_tenth: "n < 2 ^ 49 \<Longrightarrow> cleanup_count n = n div 10"
  unfolding cleanup_count_def by (rule tenth_floor)

lemma sorted_take_le: "sorted xs \<Longrightarrow> x \<in> set (take n xs) \<Longrightarrow> y \<in> set (drop n xs) \<Longrightarrow> x \<le> y"
  by (metis append_take_drop_id sorted_append)

lemma cheapest_first:
  assumes "pool_ok s" "(h, t) \<in> set (mp_txs s)" "h \<in> set (cheapest s)" "(k, u) \<in> set (mp_txs s)" "k \<notin> set (cheapest s)"
  shows "mt_fee_sat t \<le> mt_fee_sat u"
proof -
  let ?xs = "sort_key mt_fee_sat (map snd (mp_txs s))" let ?n = "cleanup_count (mp_size s)"
  have own: "mt_hash t = h" "mt_hash u = k" using assms(1,2,4) by (auto simp: pool_ok_def)
  have inj: "v = t" if "v \<in> set ?xs" "mt_hash v = h" for v
  proof -
    from that(1) obtain g where g: "(g, v) \<in> set (mp_txs s)" by auto
    then have "g = h" using assms(1) that(2) by (auto simp: pool_ok_def)
    with g assms(1,2) show ?thesis by (metis eq_key_imp_eq_value pool_ok_def)
  qed
  from assms(3) obtain v where v: "v \<in> set (take ?n ?xs)" "mt_hash v = h" by (auto simp: cheapest_def)
  then have t: "t \<in> set (take ?n ?xs)" using inj [of v] in_set_takeD by fastforce
  have "u \<in> set ?xs" using assms(4) by force
  moreover have "u \<notin> set (take ?n ?xs)" using assms(5) own(2) by (auto simp: cheapest_def)
  ultimately have u: "u \<in> set (drop ?n ?xs)" by (metis Un_iff append_take_drop_id set_append)
  have "mt_fee_sat t \<in> set (take ?n (map mt_fee_sat ?xs))" "mt_fee_sat u \<in> set (drop ?n (map mt_fee_sat ?xs))"
    unfolding take_map drop_map using t u by simp_all
  then show ?thesis by (rule sorted_take_le [rotated]) simp
qed

section \<open>Adding\<close>

lemma reject_wp [wp_rules]: "wpM (mp_reject tx) Q E s = Q (False, tx) (s\<lparr>mp_rejected := mp_rejected s + 1\<rparr>)"
  by (simp add: mp_reject_def wp_rules)

lemma lift_sum_wp [wp_rules]: "wpM (lift_sum r) Q E s = (case r of Inl e \<Rightarrow> E e s | Inr a \<Rightarrow> Q a s)"
  by (simp add: lift_sum_def wp_rules split: sum.split)

lemma rejected_ok [simp]: "pool_ok (s\<lparr>mp_rejected := n\<rparr>) = pool_ok s"
  by (simp add: pool_ok_def mp_size_def)

text \<open>What the checks leave of a transaction.\<close>

lemma validated:
  assumes "validate_mempool_tx E min_fee tx = Inr (valid, r, tx')"
  shows "mt_hash tx' = mt_hash tx" "valid \<Longrightarrow> min_fee \<le> mt_fee_sat tx' \<and> 0 < mt_gas tx' \<and> mt_hash tx \<noteq> []
    \<and> tx' = tx\<lparr>mt_fee_sat := mt_fee_sat tx'\<rparr>"
  using assms by (auto simp: validate_mempool_tx_def Let_def split: if_splits sum.splits)

text \<open>The verdict on a bound transaction: refused, or known, and the store as it was; or accepted by every check.\<close>

definition accepted :: "mp_env \<Rightarrow> bool \<Rightarrow> bool \<Rightarrow> mempool \<Rightarrow> mp_tx \<Rightarrow> bool" where
  "accepted E preverified prevalidated s tx \<longleftrightarrow>
     \<not> has_transaction (mt_hash tx) s \<and> mp_min_fee s \<le> mt_fee_sat tx \<and> 0 < mt_gas tx
     \<and> (preverified \<or> has_valid_signature E (mp_require s) (mp_chain_id s) tx = Inr True)
     \<and> chain_gate E prevalidated tx = Inr True"

definition verdict :: "mp_env \<Rightarrow> bool \<Rightarrow> bool \<Rightarrow> mempool \<Rightarrow> bool \<times> mp_tx \<Rightarrow> mempool \<Rightarrow> bool" where
  "verdict E preverified prevalidated s r s' \<longleftrightarrow>
     (if fst r
      then accepted E preverified prevalidated s (snd r) \<and> get_transaction (mt_hash (snd r)) s' = Some (snd r)
        \<and> (\<forall>h u. h \<noteq> mt_hash (snd r) \<longrightarrow> get_transaction h s' = Some u \<longrightarrow> get_transaction h s = Some u)
        \<and> (\<forall>h t k u. get_transaction h s = Some t \<longrightarrow> get_transaction h s' = None \<longrightarrow>
              get_transaction k s = Some u \<longrightarrow> get_transaction k s' \<noteq> None \<longrightarrow> mt_fee_sat t \<le> mt_fee_sat u)
      else mp_txs s' = mp_txs s)"

lemma store_put_verdict:
  assumes "pool_ok s" "accepted E pre cpre s tx" "store_put tx s = (ok, s')"
  shows "verdict E pre cpre s (ok, tx) (if ok then s' else s'\<lparr>mp_rejected := n\<rparr>)"
proof -
  let ?full = "int (mp_size s) \<ge> mp_max s" let ?s1 = "if ?full then cleanup_python s else s"
  have fresh: "\<not> has_transaction (mt_hash tx) s" using assms(2) by (simp add: accepted_def)
  show ?thesis
  proof (cases ok)
    case True
    with assms(3) fresh have s': "mp_txs s' = dset (mt_hash tx) tx (mp_txs ?s1)"
      by (auto simp: store_put_def Let_def split: if_splits)
    have dist: "distinct (map fst (mp_txs s))" using assms(1) by (simp add: pool_ok_def)
    have cleaned: "dget (mp_txs (cleanup_python s)) h =
        (if not_yet_full (mp_size s) (mp_max s) \<or> h \<notin> set (cheapest s) then dget (mp_txs s) h else None)" for h
      by (simp add: cleanup_txs dget_filter_key)
    have order: "mt_fee_sat t \<le> mt_fee_sat u"
      if "dget (mp_txs s) h = Some t" "h \<in> set (cheapest s)" "dget (mp_txs s) k = Some u" "k \<notin> set (cheapest s)" for h t k u
      using cheapest_first [OF assms(1)] that map_of_SomeD by metis
    show ?thesis using True assms(2) fresh order
      by (auto simp: verdict_def get_transaction_def s' cleaned has_transaction_def split: if_splits)
  next
    case False
    have "mp_txs s' = mp_txs s"
    proof (cases "?full \<and> \<not> not_yet_full (mp_size s) (mp_max s)")
      case True
      with False assms(3) fresh have max: "mp_max s \<le> int (mp_size (cleanup_python s))" and s': "s' = cleanup_python s"
        by (auto simp: store_put_def Let_def split: if_splits)
      have "int (mp_size s) \<le> mp_max s \<or> mp_txs s = []"
        using assms(1) by (cases "mp_txs s") (auto simp: pool_ok_def mp_size_def max_def split: if_splits)
      moreover have "mp_size (cleanup_python s) \<le> mp_size s" by (simp add: mp_size_def cleanup_txs)
      ultimately have "mp_size (cleanup_python s) = mp_size s \<or> mp_txs s = []" using max by linarith
      moreover have "mp_size (cleanup_python s) = mp_size s \<Longrightarrow> mp_txs (cleanup_python s) = mp_txs s"
        unfolding mp_size_def cleanup_txs by (auto simp: filter_eq_same)
      ultimately show ?thesis by (auto simp: s' cleanup_txs)
    next
      case F: False
      with False assms(3) fresh show ?thesis by (auto simp: store_put_def Let_def cleanup_python_def split: if_splits)
    qed
    with False show ?thesis by (simp add: verdict_def)
  qed
qed

lemma add_bound_verdict:
  assumes "pool_ok s"
  shows "wpM (mp_add_bound E pre cpre tx) (\<lambda>r t. pool_ok t \<and> verdict E pre cpre s r t \<and> mt_hash (snd r) = mt_hash tx) (\<lambda>_. pool_ok) s"
proof -
  have put: "wpM (put_or_reject u) (\<lambda>r t. pool_ok t \<and> verdict E pre cpre s r t \<and> mt_hash (snd r) = mt_hash tx) (\<lambda>_. pool_ok) s"
    if "accepted E pre cpre s u" "mt_hash u = mt_hash tx" for u
    using store_put_ok [OF assms, of u] store_put_verdict [OF assms that(1), of "fst (store_put u s)" "snd (store_put u s)"] that
    by (auto simp: put_or_reject_def wp_rules accepted_def)
  show ?thesis
  proof (cases "has_transaction (mt_hash tx) s")
    case True
    then show ?thesis using assms by (simp add: mp_add_bound_def wp_rules verdict_def)
  next
    case False
    show ?thesis
    proof (cases "validate_mempool_tx E (mp_min_fee s) tx")
      case (Inl e)
      with False assms show ?thesis by (simp add: mp_add_bound_def wp_rules)
    next
      case (Inr v)
      obtain valid r u where v: "v = (valid, r, u)" by (cases v)
      note u = validated [OF Inr [unfolded v]]
      have "accepted E pre cpre s u"
        if "valid" "pre \<or> has_valid_signature E (mp_require s) (mp_chain_id s) u = Inr True" "chain_gate E cpre u = Inr True"
        using that u False by (simp add: accepted_def)
      with False Inr v assms u(1) put [of u] show ?thesis
        by (auto simp: mp_add_bound_def wp_rules verdict_def [of _ _ _ _ "(False, _)"] split: sum.split)
    qed
  qed
qed

lemma add_verdict:
  assumes "pool_ok s"
  shows "wpM (mp_add E pre cpre tx)
    (\<lambda>r t. pool_ok t \<and> verdict E pre cpre s r t
        \<and> (fst r \<longrightarrow> (\<exists>ts. mt_hash (snd r) = py_strip (te_hash (me_tx E) (payload_of tx) ts))))
    (\<lambda>_. pool_ok) s"
proof (cases "mt_gas tx \<le> 0")
  case True
  then show ?thesis using assms by (simp add: mp_add_def wp_rules verdict_def)
next
  case False
  show ?thesis
  proof (cases "bind_tx E (mp_chain_id s) tx")
    case (Inl e)
    with False assms show ?thesis by (simp add: mp_add_def wp_rules verdict_def)
  next
    case (Inr u)
    then obtain ts where "mt_hash u = py_strip (te_hash (me_tx E) (payload_of tx) ts)"
      using bound_is_canonical by (fastforce simp: bind_tx_def split: sum.splits prod.splits)
    with False Inr show ?thesis
      by (simp add: mp_add_def wp_rules) (rule wp_mono [OF add_bound_verdict [OF assms]], auto)
  qed
qed

lemma add_raw_ok: "pool_ok s \<Longrightarrow> wpM (mp_add_raw E tx) (\<lambda>_. pool_ok) (\<lambda>_. pool_ok) s"
  unfolding mp_add_raw_def by (auto simp: wp_rules split: sum.split intro!: store_put_ok)

lemma add_verified_ok: "pool_ok s \<Longrightarrow> wpM (add_verified E cpre txs acc) (\<lambda>_. pool_ok) (\<lambda>_. pool_ok) s"
proof (induction E cpre txs acc arbitrary: s rule: add_verified.induct)
  case (2 E cpre tx sig rest added rejected hashes)
  show ?case
  proof (cases sig)
    case True
    then show ?thesis
      by (simp add: wp_bind case_prod_unfold) (rule wp_mono [OF add_verdict [OF "2.prems"]], use True "2.IH"(2) in auto)
  next
    case False
    then show ?thesis using "2.IH"(1) "2.prems" by (simp add: wp_rules)
  qed
qed (simp add: wp_rules)

lemma add_batch_ok: "pool_ok s \<Longrightarrow> wpM (add_batch E cpre txs) (\<lambda>_. pool_ok) (\<lambda>_. pool_ok) s"
  unfolding add_batch_def verify_signatures_batch_def Let_def
  by (auto simp: wp_rules split: sum.split intro: add_verified_ok)

section \<open>Runs\<close>

text \<open>No operation changes the configuration.\<close>

abbreviation same_config :: "mempool \<Rightarrow> mempool \<Rightarrow> bool" where
  "same_config s t \<equiv> mp_max t = mp_max s \<and> mp_min_fee t = mp_min_fee s"

lemma store_put_config: "same_config s (snd (store_put tx s))"
  by (simp add: store_put_def Let_def)

lemma add_config: "wpM (mp_add E pre cpre tx) (\<lambda>_. same_config s) (\<lambda>_. same_config s) s"
  unfolding mp_add_def mp_add_bound_def put_or_reject_def
  by (auto simp: wp_rules store_put_config case_prod_unfold split: sum.split)

lemma add_raw_config: "wpM (mp_add_raw E tx) (\<lambda>_. same_config s) (\<lambda>_. same_config s) s"
  unfolding mp_add_raw_def by (auto simp: wp_rules store_put_config split: sum.split)

lemma add_verified_config: "same_config s u \<Longrightarrow> wpM (add_verified E cpre txs acc) (\<lambda>_. same_config s) (\<lambda>_. same_config s) u"
proof (induction E cpre txs acc arbitrary: u rule: add_verified.induct)
  case (2 E cpre tx sig rest added rejected hashes)
  show ?case
  proof (cases sig)
    case True
    then show ?thesis
      by (simp add: wp_bind case_prod_unfold) (rule wp_mono [OF add_config], use True "2.IH"(2) "2.prems" in auto)
  next
    case False
    then show ?thesis using "2.IH"(1) "2.prems" by (simp add: wp_rules)
  qed
qed (simp add: wp_rules)

lemma add_batch_config: "wpM (add_batch E cpre txs) (\<lambda>_. same_config s) (\<lambda>_. same_config s) s"
  unfolding add_batch_def verify_signatures_batch_def Let_def
  by (auto simp: wp_rules split: sum.split intro: add_verified_config)

datatype mp_op = OpAdd bool bool mp_tx | OpRaw mp_tx | OpBatch bool "mp_tx list" | OpRemove string | OpCleanup
  | OpChain int bool

fun mp_step :: "mp_env \<Rightarrow> mempool \<Rightarrow> mp_op \<Rightarrow> mempool" where
  "mp_step E s (OpAdd pre cpre tx) = snd (mp_add E pre cpre tx s)"
| "mp_step E s (OpRaw tx) = snd (mp_add_raw E tx s)"
| "mp_step E s (OpBatch cpre txs) = snd (add_batch E cpre txs s)"
| "mp_step E s (OpRemove h) = snd (mp_remove h s)"
| "mp_step E s OpCleanup = cleanup_python s"
| "mp_step E s (OpChain chain_id require) = set_blockchain chain_id require s"

definition pool_inv :: "int \<Rightarrow> int \<Rightarrow> mempool \<Rightarrow> bool" where
  "pool_inv max_size min_fee s \<longleftrightarrow> pool_ok s \<and> mp_max s = max_size \<and> mp_min_fee s = min_fee"

interpretation pool: component "mp_step E" "pool_inv max_size min_fee"
  for E :: mp_env and max_size min_fee :: int
proof
  fix s op
  assume "pool_inv max_size min_fee s"
  then have s: "pool_ok s" and cfg: "mp_max s = max_size" "mp_min_fee s = min_fee" by (simp_all add: pool_inv_def)
  have "pool_ok (mp_step E s op) \<and> same_config s (mp_step E s op)"
  proof (cases op)
    case (OpAdd pre cpre tx)
    have "wpM (mp_add E pre cpre tx) (\<lambda>_. pool_ok) (\<lambda>_. pool_ok) s" by (rule wp_mono [OF add_verdict [OF s]]) auto
    from wp_stateD [OF this] wp_stateD [OF add_config] OpAdd show ?thesis by simp
  next
    case (OpRaw tx)
    then show ?thesis using wp_stateD [OF add_raw_ok [OF s]] wp_stateD [OF add_raw_config] by simp
  next
    case (OpBatch cpre txs)
    then show ?thesis using wp_stateD [OF add_batch_ok [OF s]] wp_stateD [OF add_batch_config] by simp
  next
    case (OpRemove h)
    then show ?thesis using remove_ok [OF s] by (simp add: mp_remove_def)
  next
    case (OpChain c r)
    then show ?thesis using s by (simp add: set_blockchain_def pool_ok_def mp_size_def)
  qed (use s in \<open>simp add: cleanup_ok\<close>)
  with cfg show "pool_inv max_size min_fee (mp_step E s op)" by (simp add: pool_inv_def)
qed

lemma mempool_init_ok: "pool_inv max_size min_fee (mempool_init max_size min_fee)"
  by (simp add: mempool_init_def pool_inv_def pool_ok_def mp_size_def)

section \<open>Choosing transactions for a block\<close>

definition of_sender :: "string \<Rightarrow> mp_tx list \<Rightarrow> mp_tx list" where
  "of_sender a = filter (\<lambda>tx. mt_from tx = a)"

lemma of_sender_simps [simp]:
  "of_sender a [] = []" "of_sender a (xs @ ys) = of_sender a xs @ of_sender a ys"
  "of_sender a (tx # xs) = (if mt_from tx = a then tx # of_sender a xs else of_sender a xs)"
  by (simp_all add: of_sender_def)

text \<open>The groups are the candidates of each sender.\<close>

lemma grouped:
  "dget (foldl add_candidate d txs) a =
     (if of_sender a txs = [] then dget d a else Some (dget_or d a [] @ of_sender a txs))"
  by (induction txs arbitrary: d) (auto simp: add_candidate_def dget_or_def)

lemma group_keys_distinct: "distinct (map fst d) \<Longrightarrow> distinct (map fst (foldl add_candidate d txs))"
  by (induction txs arbitrary: d) (simp_all add: add_candidate_def dset_distinct)

lemma by_sender_groups:
  shows "distinct (map fst (by_sender txs))"
    and "(a, ts) \<in> set (by_sender txs) \<longleftrightarrow> of_sender a txs \<noteq> [] \<and> ts = sort_key mt_nonce (of_sender a txs)"
proof -
  let ?d = "foldl add_candidate [] txs"
  have d: "distinct (map fst ?d)" by (simp add: group_keys_distinct)
  have fst: "map fst (by_sender txs) = map fst ?d" by (simp add: by_sender_def case_prod_unfold comp_def)
  show "distinct (map fst (by_sender txs))" unfolding fst by (rule d)
  have "dget ?d a = (if of_sender a txs = [] then None else Some (of_sender a txs))"
    unfolding grouped by (simp add: dget_or_def)
  then have "(a, us) \<in> set ?d \<longleftrightarrow> of_sender a txs \<noteq> [] \<and> us = of_sender a txs" for us
    unfolding map_of_eq_Some_iff [OF d, symmetric] by auto
  then have groups: "(\<exists>us. (a, us) \<in> set ?d \<and> ts = sort_key mt_nonce us)
      \<longleftrightarrow> of_sender a txs \<noteq> [] \<and> ts = sort_key mt_nonce (of_sender a txs)" by simp
  have "(a, ts) \<in> (\<lambda>(b, us). (b, f us)) ` D \<longleftrightarrow> (\<exists>us. (a, us) \<in> D \<and> ts = f us)" for D and f :: "mp_tx list \<Rightarrow> mp_tx list"
    by auto
  then have "(a, ts) \<in> set (by_sender txs) \<longleftrightarrow> (\<exists>us. (a, us) \<in> set ?d \<and> ts = sort_key mt_nonce us)"
    unfolding by_sender_def set_map .
  with groups show "(a, ts) \<in> set (by_sender txs) \<longleftrightarrow> of_sender a txs \<noteq> [] \<and> ts = sort_key mt_nonce (of_sender a txs)"
    by (rule trans [rotated])
qed

text \<open>One sender: a run of nonces, broken off only where no candidate continues it or the block is full.\<close>

definition chain_from :: "int \<Rightarrow> mp_tx list \<Rightarrow> bool" where
  "chain_from want txs \<longleftrightarrow> map mt_nonce txs = [want..want + int (length txs) - 1]"

lemma chain_from_simps [simp]: "chain_from want []" "chain_from want (tx # txs) \<longleftrightarrow> mt_nonce tx = want \<and> chain_from (want + 1) txs"
proof -
  show "chain_from want []" by (simp add: chain_from_def)
  have up: "[want..want + int (length (tx # txs)) - 1] = want # [want + 1..want + 1 + int (length txs) - 1]"
    by (subst upto_rec1) (simp_all add: algebra_simps)
  show "chain_from want (tx # txs) \<longleftrightarrow> mt_nonce tx = want \<and> chain_from (want + 1) txs"
    unfolding chain_from_def up by simp
qed

lemma pack_sender_chain:
  assumes "sorted (map mt_nonce ts)" "length packed \<le> cap"
  shows "\<exists>new. pack_sender cap want ts packed = packed @ new \<and> set new \<subseteq> set ts \<and> chain_from want new
    \<and> length (packed @ new) \<le> cap
    \<and> (length (packed @ new) < cap \<longrightarrow> (\<forall>tx \<in> set ts. mt_nonce tx \<noteq> want + int (length new)))"
  using assms
proof (induction cap want ts packed rule: pack_sender.induct)
  case (2 cap want tx ts packed)
  consider "length packed \<ge> cap" | "length packed < cap" "mt_nonce tx < want" | "length packed < cap" "want < mt_nonce tx"
    | "length packed < cap" "mt_nonce tx = want" by linarith
  then show ?case
  proof cases
    case 1
    then show ?thesis using "2.prems" by (intro exI [of _ "[]"]) simp
  next
    case 2
    with "2.IH"(1) "2.prems" obtain new where "pack_sender cap want ts packed = packed @ new" "set new \<subseteq> set ts"
        "chain_from want new" "length (packed @ new) \<le> cap"
        "length (packed @ new) < cap \<longrightarrow> (\<forall>tx \<in> set ts. mt_nonce tx \<noteq> want + int (length new))"
      by auto
    with 2 show ?thesis by (intro exI [of _ new]) auto
  next
    case 3
    with "2.prems" show ?thesis by (intro exI [of _ "[]"]) auto
  next
    case 4
    with "2.IH"(2) "2.prems" obtain new where "pack_sender cap (want + 1) ts (packed @ [tx]) = (packed @ [tx]) @ new"
        "set new \<subseteq> set ts" "chain_from (want + 1) new" "length ((packed @ [tx]) @ new) \<le> cap"
        "length ((packed @ [tx]) @ new) < cap \<longrightarrow> (\<forall>tx \<in> set ts. mt_nonce tx \<noteq> want + 1 + int (length new))"
      by auto
    with 4 show ?thesis by (intro exI [of _ "tx # new"]) (auto simp: algebra_simps)
  qed
qed simp

lemma of_sender_only: "(\<And>tx. tx \<in> set xs \<Longrightarrow> mt_from tx = a) \<Longrightarrow> of_sender b xs = (if b = a then xs else [])"
  by (induction xs) auto

lemma of_sender_none: "(\<And>tx. tx \<in> set xs \<Longrightarrow> mt_from tx \<noteq> b) \<Longrightarrow> of_sender b xs = []"
  by (induction xs) auto

text \<open>What the packing of the groups adds.\<close>

definition packs :: "nat \<Rightarrow> (string \<Rightarrow> int) \<Rightarrow> (string \<times> mp_tx list) list \<Rightarrow> mp_tx list \<Rightarrow> mp_tx list \<Rightarrow> bool" where
  "packs cap lookup gs packed new \<longleftrightarrow>
     length (packed @ new) \<le> cap \<and> set new \<subseteq> (\<Union>(a, ts) \<in> set gs. set ts)
     \<and> (\<forall>a. chain_from (lookup a) (of_sender a new))
     \<and> (length (packed @ new) < cap \<longrightarrow>
          (\<forall>(a, ts) \<in> set gs. \<forall>tx \<in> set ts. mt_nonce tx \<noteq> lookup a + int (length (of_sender a new))))"

lemma pack_senders_chains:
  assumes "distinct (map fst gs)" "length packed \<le> cap"
    and "\<And>a ts. (a, ts) \<in> set gs \<Longrightarrow> sorted (map mt_nonce ts) \<and> (\<forall>tx \<in> set ts. mt_from tx = a)"
  shows "\<exists>new. pack_senders cap lookup gs packed = packed @ new \<and> packs cap lookup gs packed new"
  using assms
proof (induction cap lookup gs packed rule: pack_senders.induct)
  case (1 cap lookup packed)
  then show ?case by (intro exI [of _ "[]"]) (simp add: packs_def)
next
  case (2 cap lookup a ts gs packed)
  show ?case
  proof (cases "length packed \<ge> cap")
    case True
    with "2.prems"(2) show ?thesis by (intro exI [of _ "[]"]) (simp add: packs_def)
  next
    case False
    from pack_sender_chain [of ts packed cap "lookup a"] "2.prems"(2,3)
    obtain n1 where n1: "pack_sender cap (lookup a) ts packed = packed @ n1" "set n1 \<subseteq> set ts" "chain_from (lookup a) n1"
        "length (packed @ n1) \<le> cap"
        "length (packed @ n1) < cap \<longrightarrow> (\<forall>tx \<in> set ts. mt_nonce tx \<noteq> lookup a + int (length n1))"
      by (metis list.set_intros(1))
    obtain n2 where n2: "pack_senders cap lookup gs (packed @ n1) = (packed @ n1) @ n2" "packs cap lookup gs (packed @ n1) n2"
      using "2.IH" [OF False] "2.prems" n1 by (simp add: n1(1)) blast
    have from1: "mt_from tx = a" if "tx \<in> set n1" for tx using that n1(2) "2.prems"(3) by auto
    have s1: "of_sender b n1 = (if b = a then n1 else [])" for b using from1 by (rule of_sender_only)
    have a_new: "a \<notin> fst ` set gs" using "2.prems"(1) by simp
    have groups: "mt_from tx = b" if "(b, us) \<in> set gs" "tx \<in> set us" for b us tx using that "2.prems"(3) by auto
    have s2: "of_sender a n2 = []"
    proof (rule of_sender_none)
      fix tx assume "tx \<in> set n2"
      then obtain b us where "(b, us) \<in> set gs" "tx \<in> set us" using n2(2) by (auto simp: packs_def)
      then show "mt_from tx \<noteq> a" using groups a_new by force
    qed
    have "packs cap lookup ((a, ts) # gs) packed (n1 @ n2)"
      unfolding packs_def
    proof (intro conjI impI allI)
      show "length (packed @ n1 @ n2) \<le> cap" using n2(2) by (simp add: packs_def)
      show "set (n1 @ n2) \<subseteq> (\<Union>(a, ts) \<in> set ((a, ts) # gs). set ts)" using n1(2) n2(2) by (auto simp: packs_def)
      show "chain_from (lookup b) (of_sender b (n1 @ n2))" for b using n1(3) n2(2) s1 s2 by (auto simp: packs_def)
      assume "length (packed @ n1 @ n2) < cap"
      with n1(5) n2(2) have ends: "\<forall>tx \<in> set ts. mt_nonce tx \<noteq> lookup a + int (length n1)"
          "\<forall>(b, us) \<in> set gs. \<forall>tx \<in> set us. mt_nonce tx \<noteq> lookup b + int (length (of_sender b n2))"
        by (simp_all add: packs_def)
      have "of_sender b (n1 @ n2) = of_sender b n2" if "(b, us) \<in> set gs" for b us using that s1 a_new by force
      with ends s1 s2 show "\<forall>(b, us) \<in> set ((a, ts) # gs). \<forall>tx \<in> set us. mt_nonce tx \<noteq> lookup b + int (length (of_sender b (n1 @ n2)))"
        by auto
    qed
    with False n1(1) n2(1) show ?thesis by auto
  qed
qed

section \<open>Properties\<close>

text \<open>C23: after any sequence of additions (single, raw, in batches), removals and clean-ups the pool holds at most
  its maximum of transactions, each filed once under its own hash and paying the minimum fee. On such a pool an
  addition that answers true has accepted a transaction that was not known, with positive gas, whose hash
  is the canonical identity of its payload, whose signature and chain validation passed where they were not done
  before, and holds it now; it dropped only transactions that pay no more than any it kept. One that answers
  false left the transactions as they were.\<close>

theorem mempool_admission:
  fixes max_size min_fee :: int
  defines "run \<equiv> \<lambda>E ops. foldl (mp_step E) (mempool_init max_size min_fee) ops"
  assumes "mp_add E preverified prevalidated tx (run E ops) = (Inr r, s')"
  shows "pool_inv max_size min_fee (run E ops) \<and> pool_inv max_size min_fee s'
    \<and> verdict E preverified prevalidated (run E ops) r s'
    \<and> (fst r \<longrightarrow> (\<exists>ts. mt_hash (snd r) = py_strip (te_hash (me_tx E) (payload_of tx) ts)))"
proof -
  have inv: "pool_inv max_size min_fee (run E ops)"
    unfolding run_def by (rule pool.run_keeps [OF mempool_init_ok])
  moreover have "pool_inv max_size min_fee s'"
    using pool.step_keeps [OF inv, of E "OpAdd preverified prevalidated tx"] assms(2) by simp
  moreover have "pool_ok (run E ops)" using inv by (simp add: pool_inv_def)
  ultimately show ?thesis using wp_returnsD [OF add_verdict assms(2)] by auto
qed

definition demo_mp_env :: mp_env where
  "demo_mp_env = \<lparr>me_tx = \<lparr>te_hash = (\<lambda>p ts. tp_from p @ tp_to p @ py_str_int (tp_nonce p)), te_signing = (\<lambda>p c. ''sig''),
       te_satoshi = (\<lambda>r. Inr \<lfloor>r * 1000000\<rfloor>), te_now = 100\<rparr>,
     me_validators = True, me_ecdsa = True, me_verify = (\<lambda>tx c. Verified True), me_verify_batch = (\<lambda>txs c. Inr (map (\<lambda>_. True) txs)),
     me_chain = None\<rparr>"

definition demo_tx :: "string \<Rightarrow> int \<Rightarrow> int \<Rightarrow> mp_tx" where
  "demo_tx a n fee = \<lparr>mt_hash = [], mt_from = a, mt_to = ''bobby'', mt_amount = 1, mt_fee = 0, mt_nonce = n,
     mt_signature = ''s'', mt_public_key = ''k'', mt_data = [], mt_gas = 21000, mt_timestamp = 7, mt_fee_sat = fee, mt_amount_sat = 1000000\<rparr>"

definition demo_ops :: "mp_op list" where
  "demo_ops = [OpAdd False False (demo_tx ''alice'' 6 30), OpRaw (demo_tx ''carol'' 0 90), OpAdd False False (demo_tx ''alice'' 5 20)]"

definition demo_pool :: mempool where
  "demo_pool = foldl (mp_step demo_mp_env) (mempool_init 4 10) demo_ops"

definition demo_added :: mp_tx where
  "demo_added = (demo_tx ''alice'' 8 40)\<lparr>mt_hash := ''alicebobby8''\<rparr>"

lemma demo_add:
  "mp_add demo_mp_env False False (demo_tx ''alice'' 8 40) demo_pool =
     (Inr (True, demo_added), demo_pool\<lparr>mp_txs := mp_txs demo_pool @ [(''alicebobby8'', demo_added)]\<rparr>)"
  by code_simp

lemma mempool_admission_witness:
  "pool_inv 4 10 demo_pool \<and> verdict demo_mp_env False False demo_pool (True, demo_added)
     (demo_pool\<lparr>mp_txs := mp_txs demo_pool @ [(''alicebobby8'', demo_added)]\<rparr>)"
  using mempool_admission [of demo_mp_env False False "demo_tx ''alice'' 8 40" 4 10 demo_ops] demo_add
  unfolding demo_pool_def by simp

text \<open>C24: the transactions chosen for a block are at most as many as asked for and all from the pool, and those of
  each sender carry consecutive nonces from the sender's current one on, so they can be executed in that order.
  When the block is not full, no candidate has the nonce that would continue the run of its sender.\<close>

theorem block_candidates_executable:
  assumes "get_for_block E limit lookup min_fee multiplier s = Inr packed"
  shows "int (length packed) \<le> max 0 limit \<and> set packed \<subseteq> snd ` set (mp_txs s)
    \<and> (\<forall>a. chain_from (lookup a) (of_sender a packed))
    \<and> (\<forall>candidates. mp_get E (max (max 0 limit * max 1 multiplier) 256) min_fee s = Inr candidates \<longrightarrow>
          int (length packed) < limit \<longrightarrow>
          (\<forall>tx \<in> set candidates. mt_nonce tx \<noteq> lookup (mt_from tx) + int (length (of_sender (mt_from tx) packed))))"
proof (cases "limit \<le> 0")
  case True
  then show ?thesis using assms by (simp add: get_for_block_def)
next
  case False
  then obtain cs where cs: "mp_get E (max (max 0 limit * max 1 multiplier) 256) min_fee s = Inr cs"
      "packed = pack_senders (nat limit) lookup (sort_key (sender_rank lookup) (by_sender cs)) []"
    using assms by (auto simp: get_for_block_def Let_def max_def split: sum.splits)
  let ?gs = "sort_key (sender_rank lookup) (by_sender cs)"
  have keys: "distinct (map fst ?gs)"
    using by_sender_groups(1) [of cs] by (simp add: distinct_map)
  have group: "sorted (map mt_nonce ts) \<and> (\<forall>tx \<in> set ts. mt_from tx = a)" if "(a, ts) \<in> set ?gs" for a ts
    using that by (auto simp: by_sender_groups(2) of_sender_def)
  obtain new where new: "packed = new" "packs (nat limit) lookup ?gs [] new"
    using pack_senders_chains [OF keys, of "[]" "nat limit" lookup] group cs(2) by auto
  have member: "(mt_from tx, sort_key mt_nonce (of_sender (mt_from tx) cs)) \<in> set ?gs" if "tx \<in> set cs" for tx
    using that by (auto simp: by_sender_groups(2) of_sender_def filter_empty_conv)
  have "set cs \<subseteq> snd ` set (mp_txs s)"
    using cs(1) by (auto simp: mp_get_def py_slice_def split: sum.splits dest!: in_set_takeD)
  moreover have "(\<Union>(a, ts) \<in> set ?gs. set ts) \<subseteq> set cs" by (auto simp: by_sender_groups(2) of_sender_def)
  moreover have "mt_nonce tx \<noteq> lookup (mt_from tx) + int (length (of_sender (mt_from tx) new))"
    if "length new < nat limit" "tx \<in> set cs" for tx
    using member [OF that(2)] new(2) that by (fastforce simp: packs_def of_sender_def)
  ultimately have sub: "set new \<subseteq> snd ` set (mp_txs s)"
    and ends: "\<And>tx. length new < nat limit \<Longrightarrow> tx \<in> set cs \<Longrightarrow>
      mt_nonce tx \<noteq> lookup (mt_from tx) + int (length (of_sender (mt_from tx) new))"
    using new(2) unfolding packs_def by (blast+)
  then show ?thesis using False new cs(1) by (auto simp: packs_def)
qed

lemma demo_block:
  "get_for_block demo_mp_env 5 (\<lambda>a. if a = ''alice'' then 5 else 1) 0 16 demo_pool =
     Inr [(demo_tx ''alice'' 5 20)\<lparr>mt_hash := ''alicebobby5''\<rparr>, (demo_tx ''alice'' 6 30)\<lparr>mt_hash := ''alicebobby6''\<rparr>]"
  by code_simp

lemma block_candidates_executable_witness:
  "chain_from 5 [(demo_tx ''alice'' 5 20)\<lparr>mt_hash := ''alicebobby5''\<rparr>, (demo_tx ''alice'' 6 30)\<lparr>mt_hash := ''alicebobby6''\<rparr>]"
  using block_candidates_executable [OF demo_block, THEN conjunct2, THEN conjunct2, THEN conjunct1, THEN spec, of "''alice''"]
  by (simp add: demo_tx_def)

text \<open>A pool of fewer than ten transactions drops none when it is full, so no fee is high enough to enter it.\<close>

lemma small_pool_never_evicts:
  assumes "int (mp_size s) \<ge> mp_max s" "mp_size s < 10"
  shows "fst (store_put tx s) = False"
proof -
  have "cleanup_count (mp_size s) = 0" using cleanup_count_tenth [of "mp_size s"] assms(2) by simp
  then have "cheapest s = []" by (simp add: cheapest_def)
  then have "mp_txs (cleanup_python s) = mp_txs s" by (simp add: cleanup_txs case_prod_unfold)
  then show ?thesis using assms(1) by (auto simp: store_put_def Let_def mp_size_def)
qed

end
