(* ===== verification/Solicit.thy ===== *)
theory Solicit
  imports Prelude Complex_Main
begin

text \<open>
  The table of requests a node waits on (\<open>sync/solicit.py\<close>): who asked which peer for what, and how an inbound
  message is matched, checked and handed to the waiting future. A future is a reference into the store
  \<open>sh_futs\<close>, where it stands once it is done, with a message or with nothing; setting it again raises. The
  request context is the record of the fields that the hub reads of the dictionary. Messages \<open>'m\<close> and
  their data \<open>'d\<close> are abstract, the native checks are parameters (\<open>verifiers\<close>), where the empty string is
  acceptance; the height and the state root they read of the data are 0 and empty when it is no dictionary. Strikes and counters are recorded in the order they happen, clocks are rational numbers.
\<close>

section \<open>Waiters\<close>

record solicit_ctx =
  sc_kind :: string
  sc_from :: int
  sc_to :: int
  sc_parent :: string
  sc_allow_empty :: bool
  sc_expected_hash :: string
  sc_allow_null :: bool
  sc_height :: int
  sc_expected_head :: string
  sc_expected_root :: string

record waiter =
  wt_types :: "string list"
  wt_fut :: nat
  wt_ctx :: "solicit_ctx option"
  wt_armed :: rat

record 'd verifiers =
  vf_blocks :: "('d \<Rightarrow> int \<Rightarrow> int \<Rightarrow> string \<Rightarrow> bool \<Rightarrow> string) option"
  vf_block :: "('d \<Rightarrow> string \<Rightarrow> bool \<Rightarrow> string) option"
  vf_state_root :: "('d \<Rightarrow> int \<Rightarrow> string \<Rightarrow> string) option"
  vf_height :: "'d \<Rightarrow> int"
  vf_root :: "'d \<Rightarrow> string"

record solicit_peer =
  sp_id :: string
  sp_libp2p :: string

record 'm hub =
  sh_waiters :: "(string \<times> waiter) list"
  sh_kinds :: "((string \<times> string) \<times> waiter) list"
  sh_peers_only :: bool
  sh_max_age :: rat
  sh_timeouts :: int
  sh_sweeps :: int
  sh_fulfills :: int
  sh_rejects :: int
  sh_futs :: "(nat \<times> 'm option) list"
  sh_strikes :: "(string \<times> string) list"
  sh_bumps :: "string list"

definition hub_init :: "bool \<Rightarrow> rat \<Rightarrow> 'm hub" where
  "hub_init peers_only max_age = \<lparr>sh_waiters = [], sh_kinds = [], sh_peers_only = peers_only,
     sh_max_age = (if max_age = 0 then 120 else max_age), sh_timeouts = 0, sh_sweeps = 0, sh_fulfills = 0, sh_rejects = 0,
     sh_futs = [], sh_strikes = [], sh_bumps = []\<rparr>"

definition msg_kind :: "string \<Rightarrow> string" where
  "msg_kind t =
     (if t = ''state_root_response'' then ''state_root''
      else if t \<in> {''mempool'', ''blocks'', ''block'', ''peers''} then t else [])"

definition ctx_kind :: "solicit_ctx option \<Rightarrow> string" where
  "ctx_kind c = (case c of None \<Rightarrow> [] | Some c \<Rightarrow> sc_kind c)"

definition set_peers_solicit_only :: "bool \<Rightarrow> 'm hub \<Rightarrow> 'm hub" where
  "set_peers_solicit_only b s = s\<lparr>sh_peers_only := b\<rparr>"

definition armed_count :: "'m hub \<Rightarrow> nat" where
  "armed_count s = length (sh_waiters s) + length (sh_kinds s)"

type_synonym ('m, 'a) hub_m = "('m hub, string, 'a) exs"

text \<open>A second request to the same peer is parked under its kind; a first one takes the main slot.\<close>

definition arm :: "string \<Rightarrow> string list \<Rightarrow> nat \<Rightarrow> solicit_ctx option \<Rightarrow> rat \<Rightarrow> ('m, unit) hub_m" where
  "arm pid types fut ctx now =
     (if pid = [] then raiseM ''peer_id required to arm solicit waiter''
      else
        (let entry = \<lparr>wt_types = types, wt_fut = fut, wt_ctx = ctx, wt_armed = now\<rparr>; kind = ctx_kind ctx
         in modM (\<lambda>s.
              if dget (sh_waiters s) pid \<noteq> None \<and> kind \<noteq> []
              then s\<lparr>sh_kinds := dset (pid, kind) entry (sh_kinds s)\<rparr>
              else s\<lparr>sh_kinds := (if kind \<noteq> [] then AList.delete (pid, kind) (sh_kinds s) else sh_kinds s),
                     sh_waiters := dset pid entry (sh_waiters s)\<rparr>)))"

section \<open>Taking a waiter out\<close>

definition pop_main :: "string \<Rightarrow> 'm hub \<Rightarrow> waiter option \<times> 'm hub" where
  "pop_main pid s = (dget (sh_waiters s) pid, s\<lparr>sh_waiters := AList.delete pid (sh_waiters s)\<rparr>)"

definition pop_kind :: "string \<times> string \<Rightarrow> 'm hub \<Rightarrow> waiter option \<times> 'm hub" where
  "pop_kind k s = (dget (sh_kinds s) k, s\<lparr>sh_kinds := AList.delete k (sh_kinds s)\<rparr>)"

text \<open>The slot that holds future \<open>f\<close>: the parked one of the kind, the main one, then any parked one of the peer.\<close>

definition take_by_fut :: "string \<Rightarrow> string \<Rightarrow> nat \<Rightarrow> 'm hub \<Rightarrow> waiter option \<times> 'm hub" where
  "take_by_fut pid kind f s =
     (if kind \<noteq> [] \<and> map_option wt_fut (dget (sh_kinds s) (pid, kind)) = Some f then pop_kind (pid, kind) s
      else if map_option wt_fut (dget (sh_waiters s) pid) = Some f then pop_main pid s
      else (case find (\<lambda>(k, w). fst k = pid \<and> wt_fut w = f) (sh_kinds s) of
          None \<Rightarrow> (None, s)
        | Some (k, w) \<Rightarrow> pop_kind k s))"

definition take_waiter :: "string \<Rightarrow> string \<Rightarrow> nat option \<Rightarrow> 'm hub \<Rightarrow> waiter option \<times> 'm hub" where
  "take_waiter pid kind fut s =
     (case fut of
        Some f \<Rightarrow> take_by_fut pid kind f s
      | None \<Rightarrow>
          if kind \<noteq> [] then
            (if dget (sh_kinds s) (pid, kind) \<noteq> None then pop_kind (pid, kind) s
             else (case dget (sh_waiters s) pid of
                 None \<Rightarrow> (None, s)
               | Some w \<Rightarrow> if ctx_kind (wt_ctx w) = kind then pop_main pid s else (None, s)))
          else pop_main pid s)"

definition clear :: "string \<Rightarrow> string \<Rightarrow> nat option \<Rightarrow> 'm hub \<Rightarrow> 'm hub" where
  "clear pid kind fut s = snd (take_waiter pid kind fut s)"

definition get_waiter :: "string \<Rightarrow> string \<Rightarrow> 'm hub \<Rightarrow> waiter option" where
  "get_waiter pid kind s =
     (if kind \<noteq> [] then
        (case dget (sh_kinds s) (pid, kind) of
           Some w \<Rightarrow> Some w
         | None \<Rightarrow>
             (case dget (sh_waiters s) pid of
                None \<Rightarrow> None
              | Some w \<Rightarrow> if ctx_kind (wt_ctx w) = kind then Some w else None))
      else dget (sh_waiters s) pid)"

definition find_waiter :: "string \<Rightarrow> string \<Rightarrow> 'm hub \<Rightarrow> waiter option" where
  "find_waiter pid msg_type s =
     (let kind = msg_kind msg_type
      in if kind \<noteq> [] then
           (case dget (sh_kinds s) (pid, kind) of
              Some w \<Rightarrow> Some w
            | None \<Rightarrow>
                (case dget (sh_waiters s) pid of
                   None \<Rightarrow> None
                 | Some w \<Rightarrow> if msg_type \<in> set (wt_types w) then Some w else None))
         else dget (sh_waiters s) pid)"

section \<open>Futures\<close>

definition done_fut :: "nat \<Rightarrow> 'm hub \<Rightarrow> bool" where
  "done_fut f s \<longleftrightarrow> dget (sh_futs s) f \<noteq> None"

definition set_result :: "nat \<Rightarrow> 'm option \<Rightarrow> ('m, unit) hub_m" where
  "set_result f v =
     bindM (getM (done_fut f)) (\<lambda>d.
       if d then raiseM ''InvalidStateError'' else modM (\<lambda>s. s\<lparr>sh_futs := dset f v (sh_futs s)\<rparr>))"

definition settle :: "nat \<Rightarrow> 'm option \<Rightarrow> ('m, unit) hub_m" where
  "settle f v = bindM (getM (done_fut f)) (\<lambda>d. if d then returnM () else set_result f v)"

definition timeout :: "string \<Rightarrow> 'm option \<Rightarrow> string \<Rightarrow> nat option \<Rightarrow> ('m, bool) hub_m" where
  "timeout pid result kind fut =
     bindM (callM (take_waiter pid kind fut)) (\<lambda>w.
       case w of
         None \<Rightarrow> returnM False
       | Some w \<Rightarrow>
           bindM (catchM (settle (wt_fut w) result) (\<lambda>_. returnM ())) (\<lambda>_.
           bindM (modM (\<lambda>s. s\<lparr>sh_timeouts := sh_timeouts s + 1\<rparr>)) (\<lambda>_. returnM True)))"

definition stale :: "rat \<Rightarrow> rat \<Rightarrow> waiter \<Rightarrow> bool" where
  "stale max_age clock w = (if wt_armed w \<le> 0 then max_age \<le> 0 else clock - wt_armed w \<ge> max_age)"

fun timeout_all :: "(string \<times> string) list \<Rightarrow> ('m, unit) hub_m" where
  "timeout_all [] = returnM ()"
| "timeout_all ((pid, kind) # ks) = bindM (timeout pid None kind None) (\<lambda>_. timeout_all ks)"

definition expire_stale :: "rat option \<Rightarrow> rat \<Rightarrow> ('m, nat) hub_m" where
  "expire_stale max_age clock =
     bindM (getM id) (\<lambda>s.
       let age = max 0 (case max_age of None \<Rightarrow> sh_max_age s | Some a \<Rightarrow> a);
           expired = map (\<lambda>(pid, w). (pid, [])) (filter (\<lambda>(pid, w). stale age clock w) (sh_waiters s))
             @ map fst (filter (\<lambda>(k, w). stale age clock w) (sh_kinds s))
       in bindM (timeout_all expired) (\<lambda>_.
          bindM (if expired = [] then returnM () else modM (\<lambda>s. s\<lparr>sh_sweeps := sh_sweeps s + 1\<rparr>)) (\<lambda>_.
            returnM (length expired))))"

definition clear_all :: "bool \<Rightarrow> ('m, nat) hub_m" where
  "clear_all timeout_futures =
     bindM (getM id) (\<lambda>s.
       if timeout_futures
       then bindM (timeout_all (map (\<lambda>(pid, w). (pid, [])) (sh_waiters s))) (\<lambda>_.
            bindM (getM sh_kinds) (\<lambda>ks.
            bindM (timeout_all (map fst ks)) (\<lambda>_. returnM (armed_count s))))
       else bindM (modM (\<lambda>s. s\<lparr>sh_waiters := [], sh_kinds := []\<rparr>)) (\<lambda>_. returnM (armed_count s)))"

definition mempool_solicit_armed :: "string \<Rightarrow> 'm hub \<Rightarrow> bool" where
  "mempool_solicit_armed pid s =
     (case get_waiter pid ''mempool'' s of
        None \<Rightarrow> False
      | Some w \<Rightarrow> ''mempool'' \<in> set (wt_types w) \<and> ctx_kind (wt_ctx w) = ''mempool'')"

section \<open>An inbound message\<close>

text \<open>Handing the message over, and refusing it: a counter, a strike, and nothing for the waiting side.\<close>

definition accept_msg :: "nat \<Rightarrow> 'm \<Rightarrow> string \<Rightarrow> ('m, bool \<times> string) hub_m" where
  "accept_msg f msg detail =
     bindM (settle f (Some msg)) (\<lambda>_.
     bindM (modM (\<lambda>s. s\<lparr>sh_fulfills := sh_fulfills s + 1\<rparr>)) (\<lambda>_. returnM (True, detail)))"

definition refuse_msg :: "solicit_peer \<Rightarrow> nat \<Rightarrow> string \<Rightarrow> string \<Rightarrow> string \<Rightarrow> ('m, bool \<times> string) hub_m" where
  "refuse_msg peer f counter reason detail =
     bindM (modM (\<lambda>s. s\<lparr>sh_bumps := sh_bumps s @ [counter], sh_rejects := sh_rejects s + 1,
                       sh_strikes := sh_strikes s @ [(sp_id peer, reason)]\<rparr>)) (\<lambda>_.
     bindM (settle f None) (\<lambda>_. returnM (True, detail)))"

text \<open>A late reply is one from a peer that is behind: it is handed over, not struck.\<close>

definition fulfill_state_root_waiter ::
  "'d verifiers \<Rightarrow> solicit_peer \<Rightarrow> 'd \<Rightarrow> 'm \<Rightarrow> waiter \<Rightarrow> ('m, bool \<times> string) hub_m" where
  "fulfill_state_root_waiter V peer data msg w =
     bindM (getM (done_fut (wt_fut w))) (\<lambda>late.
       if late then returnM (True, ''late_state_root'')
       else (case wt_ctx w of
           None \<Rightarrow> returnM (True, ''unsolicited_state_root'')
         | Some c \<Rightarrow>
             if sc_kind c \<noteq> ''state_root'' then returnM (True, ''unsolicited_state_root'')
             else
               (let reason = (case vf_state_root V of None \<Rightarrow> [] | Some v \<Rightarrow> v data (sc_height c) (sc_expected_head c));
                    expect = py_strip (sc_expected_root c); got = py_strip (vf_root V data)
                in if reason \<noteq> [] then
                     (if reason = ''bad_state_root_response_height'' \<and> 0 < vf_height V data \<and> vf_height V data < sc_height c
                      then bindM (modM (\<lambda>s. s\<lparr>sh_bumps := sh_bumps s @ [''state_root_lag_replies_total'']\<rparr>)) (\<lambda>_.
                             accept_msg (wt_fut w) msg ''state_root_lag'')
                      else refuse_msg peer (wt_fut w) ''state_root_response_request_rejects_total'' reason reason)
                   else if expect \<noteq> [] \<and> got \<noteq> [] \<and> py_lower got \<noteq> py_lower expect
                   then refuse_msg peer (wt_fut w) ''state_root_local_rejects_total'' ''bad_state_root_response_local_root''
                          ''local_root_mismatch''
                   else accept_msg (wt_fut w) msg ''state_root_ok'')))"

definition state_root_waiter :: "waiter \<Rightarrow> bool" where
  "state_root_waiter w \<longleftrightarrow> ''state_root_response'' \<in> set (wt_types w) \<and> ctx_kind (wt_ctx w) = ''state_root''"

text \<open>The parked waiter and the main one, once each.\<close>

definition collect_state_root_waiters :: "string \<Rightarrow> 'm hub \<Rightarrow> waiter list" where
  "collect_state_root_waiters pid s =
     (let parked = (case dget (sh_kinds s) (pid, ''state_root'') of None \<Rightarrow> [] | Some w \<Rightarrow> if state_root_waiter w then [w] else []);
          main = (case dget (sh_waiters s) pid of None \<Rightarrow> [] | Some w \<Rightarrow> if state_root_waiter w then [w] else [])
      in parked @ filter (\<lambda>w. wt_fut w \<notin> wt_fut ` set parked) main)"

fun fulfill_all ::
  "'d verifiers \<Rightarrow> solicit_peer \<Rightarrow> 'd \<Rightarrow> 'm \<Rightarrow> waiter list \<Rightarrow> bool \<times> string \<Rightarrow> ('m, bool \<times> string) hub_m" where
  "fulfill_all V peer data msg [] result = returnM result"
| "fulfill_all V peer data msg (w # ws) result =
     bindM (fulfill_state_root_waiter V peer data msg w) (fulfill_all V peer data msg ws)"

definition fulfill_state_root :: "'d verifiers \<Rightarrow> solicit_peer \<Rightarrow> 'd \<Rightarrow> 'm \<Rightarrow> ('m, bool \<times> string) hub_m" where
  "fulfill_state_root V peer data msg =
     bindM (getM id) (\<lambda>s.
       let ws = (if sp_id peer \<noteq> [] then collect_state_root_waiters (sp_id peer) s else []);
           ws = (if ws = [] \<and> sp_libp2p peer \<noteq> [] \<and> sp_libp2p peer \<noteq> sp_id peer
                 then collect_state_root_waiters (sp_libp2p peer) s else ws)
       in if ws = [] then returnM (False, ''no_waiter'')
          else fulfill_all V peer data msg ws (True, ''late_state_root''))"

text \<open>A message of an expected type for a waiter whose future is not done.\<close>

definition fulfill_waiter ::
  "'d verifiers \<Rightarrow> solicit_peer \<Rightarrow> string \<Rightarrow> 'd \<Rightarrow> 'm \<Rightarrow> waiter \<Rightarrow> ('m, bool \<times> string) hub_m" where
  "fulfill_waiter V peer t data msg w =
     (let f = wt_fut w; kind = ctx_kind (wt_ctx w)
      in if t = ''blocks'' \<and> kind = ''blocks'' then
           (let reason = (case (vf_blocks V, wt_ctx w) of
                (Some v, Some c) \<Rightarrow> v data (sc_from c) (sc_to c) (sc_parent c) (sc_allow_empty c) | _ \<Rightarrow> [])
            in if reason \<noteq> [] then refuse_msg peer f ''blocks_response_semantic_rejects_total'' reason reason
               else accept_msg f msg ''blocks_ok'')
         else if t = ''block'' \<and> kind = ''block'' then
           (let reason = (case (vf_block V, wt_ctx w) of
                (Some v, Some c) \<Rightarrow> v data (sc_expected_hash c) (sc_allow_null c) | _ \<Rightarrow> [])
            in if reason \<noteq> [] then refuse_msg peer f ''block_response_semantic_rejects_total'' reason reason
               else accept_msg f msg ''block_ok'')
         else if t = ''mempool'' then
           (if kind = ''mempool'' then accept_msg f msg ''mempool_ok''
            else refuse_msg peer f ''unsolicited_mempool_rejects_total'' ''unsolicited_mempool'' ''unsolicited_mempool'')
         else if t = ''blocks'' then
           refuse_msg peer f ''unsolicited_block_rejects_total'' ''unsolicited_blocks'' ''unsolicited_blocks''
         else if t = ''block'' then
           refuse_msg peer f ''unsolicited_block_rejects_total'' ''unsolicited_block'' ''unsolicited_block''
         else if t = ''peers'' then
           (if kind = ''peers'' then accept_msg f msg ''peers_ok''
            else bindM (getM sh_peers_only) (\<lambda>only.
              if only then refuse_msg peer f ''unsolicited_peers_rejects_total'' ''unsolicited_peers'' ''unsolicited_peers''
              else accept_msg f msg ''peers_push_ok''))
         else accept_msg f msg ''generic_fulfill'')"

definition fulfill_or_reject ::
  "'d verifiers \<Rightarrow> solicit_peer \<Rightarrow> string \<Rightarrow> 'd \<Rightarrow> 'm \<Rightarrow> ('m, bool \<times> string) hub_m" where
  "fulfill_or_reject V peer t data msg =
     (if t = ''state_root_response'' \<and> (sp_id peer \<noteq> [] \<or> sp_libp2p peer \<noteq> []) then fulfill_state_root V peer data msg
      else bindM (getM (\<lambda>s. if sp_id peer \<noteq> [] then find_waiter (sp_id peer) t s else None)) (\<lambda>w.
        case w of
          None \<Rightarrow> returnM (False, ''no_waiter'')
        | Some w \<Rightarrow>
            if t \<notin> set (wt_types w) then returnM (False, ''waiter_mismatch'')
            else bindM (getM (done_fut (wt_fut w))) (\<lambda>d.
              if d then returnM (if t = ''state_root_response'' then (True, ''late_state_root'') else (False, ''waiter_mismatch''))
              else fulfill_waiter V peer t data msg w)))"

end
