(* ===== verification/SolicitProps.thy ===== *)
theory SolicitProps
  imports Solicit
begin

text \<open>
  The properties of the solicit table: a future is set once, and a message reaches a waiting side only if that
  side asked this peer for it and the check of the request accepted it.
\<close>

section \<open>Futures are set once\<close>

definition futs_kept :: "'m hub \<Rightarrow> 'm hub \<Rightarrow> bool" where
  "futs_kept s t \<longleftrightarrow> (\<forall>f v. dget (sh_futs s) f = Some v \<longrightarrow> dget (sh_futs t) f = Some v)"

lemma futs_kept_refl [simp, intro]: "futs_kept s s"
  by (simp add: futs_kept_def)

lemma futs_kept_trans: "futs_kept s t \<Longrightarrow> futs_kept t u \<Longrightarrow> futs_kept s u"
  by (simp add: futs_kept_def)

text \<open>No new message in a future of \<open>t\<close>.\<close>

definition nothing_new :: "'m hub \<Rightarrow> 'm hub \<Rightarrow> bool" where
  "nothing_new s t \<longleftrightarrow> futs_kept s t \<and> (\<forall>f m. dget (sh_futs t) f = Some (Some m) \<longrightarrow> dget (sh_futs s) f = Some (Some m))"

lemma nothing_new_refl [simp, intro]: "nothing_new s s"
  by (simp add: nothing_new_def)

lemma nothing_new_trans: "nothing_new s t \<Longrightarrow> nothing_new t u \<Longrightarrow> nothing_new s u"
  unfolding nothing_new_def using futs_kept_trans by blast

lemma nothing_new_same: "sh_futs t = sh_futs s \<Longrightarrow> nothing_new s t"
  by (simp add: nothing_new_def futs_kept_def)

definition settled :: "nat \<Rightarrow> 'm option \<Rightarrow> 'm hub \<Rightarrow> 'm hub" where
  "settled f v s = (if done_fut f s then s else s\<lparr>sh_futs := dset f v (sh_futs s)\<rparr>)"

lemma settle_wp [wp_rules]: "wpM (settle f v) Q E s = Q () (settled f v s)"
  by (simp add: settle_def set_result_def settled_def wp_rules)

lemma nothing_new_settled: "nothing_new s (settled f None s)"
  by (auto simp: nothing_new_def futs_kept_def settled_def done_fut_def)

lemma take_waiter_futs [simp]: "sh_futs (snd (take_waiter pid kind fut s)) = sh_futs s"
  by (auto simp: take_waiter_def take_by_fut_def pop_main_def pop_kind_def split: option.split)

lemma timeout_nothing_new: "wpM (timeout pid None kind fut) (\<lambda>_. nothing_new s) (\<lambda>_ _. False) s"
proof -
  let ?w = "fst (take_waiter pid kind fut s)" let ?s = "snd (take_waiter pid kind fut s)"
  have s: "nothing_new s ?s" by (rule nothing_new_same) simp
  show ?thesis
  proof (cases ?w)
    case None
    with s show ?thesis by (simp add: timeout_def wp_rules)
  next
    case (Some w)
    have "nothing_new s ((settled (wt_fut w) None ?s)\<lparr>sh_timeouts := n\<rparr>)" for n
      using nothing_new_trans [OF nothing_new_trans [OF s nothing_new_settled] nothing_new_same] by simp
    with Some show ?thesis by (simp add: timeout_def wp_rules)
  qed
qed

lemma timeout_all_nothing_new: "nothing_new s u \<Longrightarrow> wpM (timeout_all ks) (\<lambda>_. nothing_new s) (\<lambda>_ _. False) u"
proof (induction ks arbitrary: u)
  case (Cons k ks)
  obtain pid kind where k: "k = (pid, kind)" by (cases k)
  show ?case unfolding k timeout_all.simps wp_bind
    by (rule wp_mono [OF timeout_nothing_new]) (use Cons nothing_new_trans in blast)+
qed (simp add: wp_rules)

lemma expire_stale_nothing_new: "wpM (expire_stale age clock) (\<lambda>_. nothing_new s) (\<lambda>_ _. False) s"
proof -
  have same: "nothing_new s (t\<lparr>sh_sweeps := n\<rparr>)" if "nothing_new s t" for t n
    using nothing_new_trans [OF that nothing_new_same] by simp
  show ?thesis
    unfolding expire_stale_def Let_def wp_bind [of "getM _"] wp_get wp_bind [of "timeout_all _"]
    by (rule wp_mono [OF timeout_all_nothing_new]) (auto simp: wp_rules same)
qed

lemma clear_all_nothing_new: "wpM (clear_all b) (\<lambda>_. nothing_new s) (\<lambda>_ _. False) s"
proof (cases b)
  case True
  show ?thesis
    unfolding clear_all_def wp_bind [of "getM _"] wp_get using True
    by (simp add: wp_bind wp_get wp_return)
      (rule wp_mono [OF timeout_all_nothing_new], auto intro: timeout_all_nothing_new)
next
  case False
  then show ?thesis by (simp add: clear_all_def wp_rules nothing_new_same)
qed

section \<open>What a delivered message has passed\<close>

text \<open>Waiter \<open>w\<close> is armed for peer \<open>pid\<close>.\<close>

definition armed_for :: "string \<Rightarrow> waiter \<Rightarrow> 'm hub \<Rightarrow> bool" where
  "armed_for pid w s \<longleftrightarrow> dget (sh_waiters s) pid = Some w \<or> (\<exists>k. dget (sh_kinds s) (pid, k) = Some w)"

text \<open>The request of \<open>w\<close> is of the message's kind and its check accepts the data, or, for a state root, the peer
  is behind the height asked for.\<close>

text \<open>
  A state root is accepted when its check finds nothing and it is the root expected for the height, as far as both are given;
  or when the check found nothing but that the reply is for an earlier height.
\<close>

definition root_reply_ok :: "'d verifiers \<Rightarrow> 'd \<Rightarrow> solicit_ctx \<Rightarrow> bool" where
  "root_reply_ok V data c \<longleftrightarrow>
     (let reason = (case vf_state_root V of None \<Rightarrow> [] | Some v \<Rightarrow> v data (sc_height c) (sc_expected_head c));
          expect = py_strip (sc_expected_root c); got = py_strip (vf_root V data)
      in if reason = [] then expect = [] \<or> got = [] \<or> py_lower got = py_lower expect
         else reason = ''bad_state_root_response_height'' \<and> 0 < vf_height V data \<and> vf_height V data < sc_height c)"

definition passes :: "'d verifiers \<Rightarrow> string \<Rightarrow> 'd \<Rightarrow> bool \<Rightarrow> waiter \<Rightarrow> bool" where
  "passes V t data peers_only w \<longleftrightarrow>
     t \<in> set (wt_types w)
     \<and> (msg_kind t \<noteq> [] \<longrightarrow> ctx_kind (wt_ctx w) = msg_kind t \<or> (t = ''peers'' \<and> \<not> peers_only))
     \<and> (\<forall>c. wt_ctx w = Some c \<longrightarrow>
          (\<forall>v. t = ''blocks'' \<longrightarrow> vf_blocks V = Some v \<longrightarrow> v data (sc_from c) (sc_to c) (sc_parent c) (sc_allow_empty c) = [])
          \<and> (\<forall>v. t = ''block'' \<longrightarrow> vf_block V = Some v \<longrightarrow> v data (sc_expected_hash c) (sc_allow_null c) = [])
          \<and> (t = ''state_root_response'' \<longrightarrow> root_reply_ok V data c))"

definition answers :: "'d verifiers \<Rightarrow> solicit_peer \<Rightarrow> string \<Rightarrow> 'd \<Rightarrow> nat \<Rightarrow> 'm hub \<Rightarrow> bool" where
  "answers V peer t data f s \<longleftrightarrow>
     (\<exists>pid w. pid \<in> {sp_id peer, sp_libp2p peer} \<and> pid \<noteq> [] \<and> armed_for pid w s \<and> wt_fut w = f \<and> passes V t data (sh_peers_only s) w)"

text \<open>A call on \<open>s\<close> that leaves \<open>u\<close> has delivered nothing but \<open>msg\<close>, and that only to futures it answers.\<close>

definition delivers :: "'d verifiers \<Rightarrow> solicit_peer \<Rightarrow> string \<Rightarrow> 'd \<Rightarrow> 'm \<Rightarrow> 'm hub \<Rightarrow> 'm hub \<Rightarrow> bool" where
  "delivers V peer t data msg s u \<longleftrightarrow>
     futs_kept s u
     \<and> (\<forall>f m. dget (sh_futs u) f = Some (Some m) \<longrightarrow>
          dget (sh_futs s) f = Some (Some m) \<or> (m = msg \<and> answers V peer t data f s))"

lemma delivers_refl [simp, intro]: "delivers V peer t data msg s s"
  by (simp add: delivers_def)

lemma delivers_new: "delivers V peer t data msg s u \<Longrightarrow> nothing_new u u' \<Longrightarrow> delivers V peer t data msg s u'"
  unfolding delivers_def nothing_new_def using futs_kept_trans by blast

lemma delivers_settled:
  assumes "delivers V peer t data msg s u" "answers V peer t data f s"
  shows "delivers V peer t data msg s (settled f (Some msg) u)"
  using assms by (auto simp: delivers_def futs_kept_def settled_def done_fut_def)

lemma accept_delivers:
  assumes "delivers V peer t data msg s u" "answers V peer t data f s"
  shows "wpM (accept_msg f msg d) (\<lambda>_. delivers V peer t data msg s) (\<lambda>_ _. False) u"
  using delivers_new [OF delivers_settled [OF assms] nothing_new_same] by (simp add: accept_msg_def wp_rules)

lemma refuse_delivers:
  assumes "delivers V peer t data msg s u"
  shows "wpM (refuse_msg peer f c r d) (\<lambda>_. delivers V peer t data msg s) (\<lambda>_ _. False) u"
  using delivers_new [OF delivers_new [OF assms nothing_new_same] nothing_new_settled] by (simp add: refuse_msg_def wp_rules)

lemma state_root_waiter_delivers:
  assumes "delivers V peer ''state_root_response'' data msg s u" "armed_for pid w s" "state_root_waiter w"
    and "pid \<in> {sp_id peer, sp_libp2p peer}" "pid \<noteq> []"
  shows "wpM (fulfill_state_root_waiter V peer data msg w) (\<lambda>_. delivers V peer ''state_root_response'' data msg s) (\<lambda>_ _. False) u"
proof -
  obtain c where c: "wt_ctx w = Some c" "sc_kind c = ''state_root''"
    using assms(3) by (auto simp: state_root_waiter_def ctx_kind_def split: option.splits)
  have answer: "answers V peer ''state_root_response'' data (wt_fut w) s"
    if "root_reply_ok V data c"
    unfolding answers_def
    using assms(2-5) c that by (intro exI [of _ pid] exI [of _ w])
      (auto simp: passes_def state_root_waiter_def msg_kind_def split: option.splits)
  have lag: "delivers V peer ''state_root_response'' data msg s (u\<lparr>sh_bumps := b\<rparr>)" for b
    by (rule delivers_new [OF assms(1) nothing_new_same]) simp
  show ?thesis
    unfolding fulfill_state_root_waiter_def Let_def
    using assms(1) c answer
    by (auto simp: root_reply_ok_def Let_def wp_bind [of "getM _"] wp_get wp_return wp_if wp_bind [of "modM _"] wp_mod
      intro!: accept_delivers refuse_delivers lag)
qed

lemma fulfill_all_delivers:
  assumes "\<And>w. w \<in> set ws \<Longrightarrow> armed_for pid w s \<and> state_root_waiter w" "pid \<in> {sp_id peer, sp_libp2p peer}" "pid \<noteq> []"
    and "delivers V peer ''state_root_response'' data msg s u"
  shows "wpM (fulfill_all V peer data msg ws r) (\<lambda>_. delivers V peer ''state_root_response'' data msg s) (\<lambda>_ _. False) u"
  using assms(1,4)
proof (induction ws arbitrary: u r)
  case (Cons w ws)
  show ?case unfolding fulfill_all.simps wp_bind
    by (rule wp_mono [OF state_root_waiter_delivers [OF Cons.prems(2), of pid w]])
      (use Cons assms(2,3) in auto)
qed (simp add: wp_return)

lemma collected:
  "w \<in> set (collect_state_root_waiters pid s) \<Longrightarrow> armed_for pid w s \<and> state_root_waiter w"
  by (auto simp: collect_state_root_waiters_def armed_for_def Let_def split: option.splits if_splits)

lemma state_root_delivers:
  "wpM (fulfill_state_root V peer data msg) (\<lambda>_. delivers V peer ''state_root_response'' data msg s) (\<lambda>_ _. False) s"
proof -
  have all: "wpM (fulfill_all V peer data msg (collect_state_root_waiters pid s) r)
      (\<lambda>_. delivers V peer ''state_root_response'' data msg s) (\<lambda>_ _. False) s"
    if "pid \<in> {sp_id peer, sp_libp2p peer}" "pid \<noteq> []" for pid r
    by (rule fulfill_all_delivers [OF collected that]) auto
  show ?thesis
    using all [of "sp_id peer"] all [of "sp_libp2p peer"]
    by (auto simp: fulfill_state_root_def Let_def wp_bind wp_get wp_return)
qed

lemma found_armed: "find_waiter pid t s = Some w \<Longrightarrow> armed_for pid w s"
  by (auto simp: find_waiter_def armed_for_def Let_def split: if_splits option.splits)

lemma fulfill_waiter_delivers:
  assumes "armed_for (sp_id peer) w s" "t \<in> set (wt_types w)" "sp_id peer \<noteq> []" "t \<noteq> ''state_root_response''"
  shows "wpM (fulfill_waiter V peer t data msg w) (\<lambda>_. delivers V peer t data msg s) (\<lambda>_ _. False) s"
proof -
  have answer: "answers V peer t data (wt_fut w) s" if "passes V t data (sh_peers_only s) w"
    unfolding answers_def using assms(1,3) that by blast
  have passes: "passes V t data (sh_peers_only s) w"
    if "msg_kind t \<noteq> [] \<longrightarrow> ctx_kind (wt_ctx w) = msg_kind t \<or> (t = ''peers'' \<and> \<not> sh_peers_only s)"
      and "t = ''blocks'' \<longrightarrow> (case (vf_blocks V, wt_ctx w) of
        (Some v, Some c) \<Rightarrow> v data (sc_from c) (sc_to c) (sc_parent c) (sc_allow_empty c) | _ \<Rightarrow> []) = []"
      and "t = ''block'' \<longrightarrow> (case (vf_block V, wt_ctx w) of
        (Some v, Some c) \<Rightarrow> v data (sc_expected_hash c) (sc_allow_null c) | _ \<Rightarrow> []) = []"
    using that assms(2,4) by (auto simp: passes_def split: option.splits)
  let ?K = "ctx_kind (wt_ctx w)" let ?D = "delivers V peer t data msg s"
  have ok: "wpM (accept_msg (wt_fut w) msg d) (\<lambda>_. ?D) (\<lambda>_ _. False) s" if "passes V t data (sh_peers_only s) w" for d
    by (rule accept_delivers [OF delivers_refl answer [OF that]])
  have no: "wpM (refuse_msg peer (wt_fut w) c r d) (\<lambda>_. ?D) (\<lambda>_ _. False) s" for c r d
    by (rule refuse_delivers [OF delivers_refl])
  consider "t = ''blocks''" | "t = ''block''" | "t = ''mempool''" | "t = ''peers''"
    | "t \<notin> {''blocks'', ''block'', ''mempool'', ''peers''}" by blast
  then show ?thesis
  proof cases
    case 1
    show ?thesis
    proof (cases "?K = ''blocks''")
      case True
      with 1 passes no ok show ?thesis by (simp add: fulfill_waiter_def Let_def msg_kind_def)
    qed (use 1 no in \<open>simp add: fulfill_waiter_def Let_def\<close>)
  next
    case 2
    show ?thesis
    proof (cases "?K = ''block''")
      case True
      with 2 passes no ok show ?thesis by (simp add: fulfill_waiter_def Let_def msg_kind_def)
    qed (use 2 no in \<open>simp add: fulfill_waiter_def Let_def\<close>)
  next
    case 3
    with passes no ok show ?thesis by (simp add: fulfill_waiter_def Let_def msg_kind_def)
  next
    case 4
    with passes no ok show ?thesis by (auto simp: fulfill_waiter_def Let_def msg_kind_def wp_bind wp_get)
  next
    case 5
    with passes ok assms(4) show ?thesis by (simp add: fulfill_waiter_def Let_def msg_kind_def)
  qed
qed

lemma inbound_delivers:
  "wpM (fulfill_or_reject V peer t data msg) (\<lambda>_. delivers V peer t data msg s) (\<lambda>_ _. False) s"
proof (cases "t = ''state_root_response''")
  case True
  then show ?thesis using state_root_delivers [of V peer data msg s]
    by (auto simp: fulfill_or_reject_def wp_bind [of "getM _"] wp_get wp_return)
next
  case False
  then show ?thesis using fulfill_waiter_delivers [OF found_armed _ _ False, where s = s]
    by (auto simp: fulfill_or_reject_def wp_bind [of "getM _"] wp_get wp_return split: option.split)
qed

section \<open>Runs\<close>

lemma total_stateD: "wpM m (\<lambda>_. P) (\<lambda>_ _. False) s \<Longrightarrow> P (snd (m s))"
  by (auto simp: wpM_def split: prod.splits sum.splits)

datatype ('d, 'm) hub_event =
    Arm string "string list" nat "solicit_ctx option" rat
  | Clear string string "nat option"
  | Timeout string string "nat option"
  | Expire "rat option" rat
  | ClearAll bool
  | PeersOnly bool
  | Inbound solicit_peer string 'd 'm

fun hub_step :: "'d verifiers \<Rightarrow> 'm hub \<Rightarrow> ('d, 'm) hub_event \<Rightarrow> 'm hub" where
  "hub_step V s (Arm pid types fut ctx now) = snd (arm pid types fut ctx now s)"
| "hub_step V s (Clear pid kind fut) = clear pid kind fut s"
| "hub_step V s (Timeout pid kind fut) = snd (timeout pid None kind fut s)"
| "hub_step V s (Expire age clock) = snd (expire_stale age clock s)"
| "hub_step V s (ClearAll b) = snd (clear_all b s)"
| "hub_step V s (PeersOnly b) = set_peers_solicit_only b s"
| "hub_step V s (Inbound peer t data msg) = snd (fulfill_or_reject V peer t data msg s)"

definition hub_run :: "'d verifiers \<Rightarrow> bool \<Rightarrow> rat \<Rightarrow> ('d, 'm) hub_event list \<Rightarrow> 'm hub" where
  "hub_run V peers_only max_age es = foldl (hub_step V) (hub_init peers_only max_age) es"

lemma step_delivers:
  "case e of Inbound peer t data msg \<Rightarrow> delivers V peer t data msg s (hub_step V s e) | _ \<Rightarrow> nothing_new s (hub_step V s e)"
proof (cases e)
  case (Arm pid types fut ctx now)
  then show ?thesis by (auto simp: arm_def exs_defs Let_def intro!: nothing_new_same)
next
  case (Clear pid kind fut)
  then show ?thesis by (auto simp: clear_def intro!: nothing_new_same)
next
  case (Timeout pid kind fut)
  then show ?thesis by (simp add: total_stateD [OF timeout_nothing_new])
next
  case (Expire age clock)
  then show ?thesis by (simp add: total_stateD [OF expire_stale_nothing_new])
next
  case (ClearAll b)
  then show ?thesis by (simp add: total_stateD [OF clear_all_nothing_new])
next
  case (PeersOnly b)
  then show ?thesis by (auto simp: set_peers_solicit_only_def intro!: nothing_new_same)
next
  case (Inbound peer t data msg)
  then show ?thesis by (simp add: total_stateD [OF inbound_delivers])
qed

lemma step_kept: "futs_kept s (hub_step V s e)"
  using step_delivers [where e = e and s = s and V = V]
  by (cases e) (simp_all add: delivers_def nothing_new_def)

interpretation futures: component "hub_step V" "futs_kept s"
  for V :: "'d verifiers" and s :: "'m hub"
  by unfold_locales (rule futs_kept_trans [OF _ step_kept])

text \<open>Every message in a future was delivered by an inbound message that answered it.\<close>

lemma delivered_by:
  assumes "dget (sh_futs (foldl (hub_step V) s es)) f = Some (Some m)" "dget (sh_futs s) f \<noteq> Some (Some m)"
  shows "\<exists>i peer t data. i < length es \<and> es ! i = Inbound peer t data m
    \<and> answers V peer t data f (foldl (hub_step V) s (take i es))"
  using assms(1)
proof (induction es rule: rev_induct)
  case Nil
  with assms(2) show ?case by simp
next
  case (snoc e es)
  let ?u = "foldl (hub_step V) s es"
  show ?case
  proof (cases "dget (sh_futs ?u) f = Some (Some m)")
    case True
    then obtain i peer t data where i: "i < length es" "es ! i = Inbound peer t data m"
        "answers V peer t data f (foldl (hub_step V) s (take i es))"
      using snoc.IH by blast
    then show ?thesis by (intro exI [of _ i] exI [of _ peer] exI [of _ t] exI [of _ data]) (simp add: nth_append)
  next
    case False
    then obtain peer t data where "e = Inbound peer t data m" "answers V peer t data f ?u"
      using step_delivers [where e = e and s = ?u and V = V] snoc.prems
      by (cases e) (auto simp: delivers_def nothing_new_def)
    then show ?thesis by (intro exI [of _ "length es"] exI [of _ peer] exI [of _ t] exI [of _ data]) simp
  qed
qed

section \<open>Properties\<close>

text \<open>C25: over any sequence of requests, clears, timeouts, sweeps and inbound messages of any peers, processing an
  inbound message never raises, a future that is done keeps its value, and every message found in a future
  was delivered by an inbound message of that content at a moment when a waiter with that future was armed
  for its sender, expected its type, had made a request of its kind, and the check of the reply against the
  request accepted the data: for a state root its check found nothing and it is the root the node expects, where both are
  given, or the check only found the reply to be for an earlier height than it was asked at.\<close>

theorem solicit_delivers_verified:
  "(\<exists>r u. fulfill_or_reject V peer t data msg (hub_run V peers_only max_age es) = (Inr r, u))
   \<and> futs_kept (hub_run V peers_only max_age es) (hub_run V peers_only max_age (es @ es'))
   \<and> (\<forall>f m. dget (sh_futs (hub_run V peers_only max_age es)) f = Some (Some m) \<longrightarrow>
        (\<exists>i peer t data. i < length es \<and> es ! i = Inbound peer t data m
           \<and> answers V peer t data f (hub_run V peers_only max_age (take i es))))"
proof (intro conjI allI impI)
  let ?s = "hub_run V peers_only max_age es"
  show "\<exists>r u. fulfill_or_reject V peer t data msg ?s = (Inr r, u)"
    using inbound_delivers [of V peer t data msg ?s] unfolding wpM_def
    by (cases "fulfill_or_reject V peer t data msg ?s") (auto split: sum.splits)
  show "futs_kept ?s (hub_run V peers_only max_age (es @ es'))"
    using futures.run_keeps [OF futs_kept_refl, of ?s V es'] by (simp add: hub_run_def)
  show "\<exists>i peer t data. i < length es \<and> es ! i = Inbound peer t data m
      \<and> answers V peer t data f (hub_run V peers_only max_age (take i es))"
    if "dget (sh_futs ?s) f = Some (Some m)" for f m
    using delivered_by [OF that [unfolded hub_run_def]] by (simp add: hub_run_def hub_init_def)
qed

definition demo_ctx :: "string \<Rightarrow> solicit_ctx" where
  "demo_ctx kind = \<lparr>sc_kind = kind, sc_from = 5, sc_to = 6, sc_parent = ''p'', sc_allow_empty = False, sc_expected_hash = [],
     sc_allow_null = True, sc_height = 9, sc_expected_head = [], sc_expected_root = []\<rparr>"

text \<open>The data is the list of heights a reply carries.\<close>

definition demo_verifiers :: "int list verifiers" where
  "demo_verifiers = \<lparr>vf_blocks = Some (\<lambda>d lo hi p e. if d = [lo..hi] then [] else ''bad_blocks_response_range''),
     vf_block = None, vf_state_root = None, vf_height = (\<lambda>_. 0), vf_root = (\<lambda>_. [])\<rparr>"

definition demo_sender :: solicit_peer where
  "demo_sender = \<lparr>sp_id = ''peer'', sp_libp2p = []\<rparr>"

definition demo_events :: "(int list, string) hub_event list" where
  "demo_events = [Arm ''peer'' [''blocks''] 1 (Some (demo_ctx ''blocks'')) 10, Inbound demo_sender ''blocks'' [5, 6] ''bodies'']"

lemma solicit_delivers_verified_witness:
  "dget (sh_futs (hub_run demo_verifiers True 0 demo_events)) 1 = Some (Some ''bodies'')
   \<and> (\<exists>i peer t data. i < length demo_events \<and> demo_events ! i = Inbound peer t data ''bodies''
        \<and> answers demo_verifiers peer t data 1 (hub_run demo_verifiers True 0 (take i demo_events)))"
proof -
  have "dget (sh_futs (hub_run demo_verifiers True 0 demo_events)) 1 = Some (Some ''bodies'')" by code_simp
  with solicit_delivers_verified [of demo_verifiers demo_sender "[]" "[]" "[]" True 0 demo_events "[]"] show ?thesis by blast
qed

text \<open>The slot of a parked request is silently reused: a third request of a kind drops the second one, and when
  the main slot is free a new request of the kind drops the parked one. The dropped future is in no slot.\<close>

definition waiting :: "nat \<Rightarrow> 'm hub \<Rightarrow> bool" where
  "waiting f s \<longleftrightarrow> f \<in> wt_fut ` (snd ` set (sh_waiters s) \<union> snd ` set (sh_kinds s))"

lemma third_request_drops_second:
  "\<not> waiting 2 (hub_run demo_verifiers True 0
     (map (\<lambda>f. Arm ''peer'' [''state_root_response''] f (Some (demo_ctx ''state_root'')) 10) [1, 2, 3]))"
  by code_simp

lemma new_request_drops_parked:
  "\<not> waiting 2 (hub_run demo_verifiers True 0
     [Arm ''peer'' [''mempool''] 1 (Some (demo_ctx ''mempool'')) 10,
      Arm ''peer'' [''state_root_response''] 2 (Some (demo_ctx ''state_root'')) 11,
      Clear ''peer'' ''mempool'' (Some 1),
      Arm ''peer'' [''state_root_response''] 3 (Some (demo_ctx ''state_root'')) 12])"
  by code_simp

end
