(* ===== verification/BftLiveness.thy ===== *)
theory BftLiveness
  imports BftAgreement
begin

text \<open>
  Progress of a round: when nobody equivocates, the votes of a precommit quorum finalize the block, in whatever order
  and however often they arrive. The locale \<open>quiet_ports\<close> is what the round needs of its side effects: reporting an
  attestation or a finalization does not change the validator set. The adapters of the node satisfy it.
\<close>

section \<open>What the side effects may do\<close>

locale quiet_ports =
  fixes P :: "'w bft_ports"
  assumes quiet_attestation: "port_snapshot P (port_on_attestation P v w) = port_snapshot P w"
    and quiet_finalized: "port_snapshot P (port_on_finalized P h n w) = port_snapshot P w"

text \<open>
  A round \<open>k\<close> on its way to finalize the block \<open>h\<close> of height \<open>n\<close>: past its proposal and not locked, all recorded
  votes are for \<open>h\<close>, and the block is final as soon as the recorded precommits are a quorum.
\<close>

definition on_course :: "'w bft_ports \<Rightarrow> validator_set \<Rightarrow> round_key \<Rightarrow> string \<Rightarrow> int \<Rightarrow> 'w rsm \<Rightarrow> bool" where
  "on_course P S k h n s \<longleftrightarrow>
     rsm_phase s \<in> {RP_Prevote, RP_Precommit, RP_Finalize} \<and> rid_key (rsm_round s) = k
     \<and> port_snapshot P (rsm_world s) = S
     \<and> (\<forall>vid t x. dget (rsm_seen s) (vid, t, k) = Some x \<longrightarrow>
          x = h \<and> (\<exists>v\<in>set (rsm_votes s). vo_validator v = vid \<and> vo_type v = t))
     \<and> (\<forall>v\<in>set (rsm_votes s). rid_key (vo_round v) = k \<and> vo_hash v = h)
     \<and> (\<forall>qc. dget (rsm_qc s) (k, VT_Prevote) = Some qc \<longrightarrow> qc_hash qc = h)
     \<and> map_option br_height (dget (rsm_blocks s) h) = Some n
     \<and> (quorum_reached (stake_for_votes S (rsm_votes s) (rsm_round s) VT_Precommit h) (total_active_stake S) \<longrightarrow>
          h \<in> rsm_finalized_hashes s \<and> n \<le> rsm_finalized_height s)"

text \<open>A vote that does not obstruct it: verified, and if it is for the round then for \<open>h\<close> by an active validator.\<close>

definition timely :: "validator_set \<Rightarrow> round_key \<Rightarrow> string \<Rightarrow> vote \<Rightarrow> bool" where
  "timely S k h v \<longleftrightarrow> vo_verified v \<and> (rid_key (vo_round v) = k \<longrightarrow> vo_hash v = h \<and> vs_is_active S (vo_validator v))"

definition has_voted :: "vote \<Rightarrow> 'w rsm \<Rightarrow> bool" where
  "has_voted v s \<longleftrightarrow> (\<exists>u\<in>set (rsm_votes s). vo_validator u = vo_validator v \<and> vo_type u = vo_type v)"

lemma stake_for_votes_other_type:
  "vo_type v \<noteq> t \<Longrightarrow> stake_for_votes S (vs @ [v]) r t h = stake_for_votes S vs r t h"
  unfolding stake_for_votes_eq by (rule arg_cong2 [of _ _ _ _ sum]) (auto simp: voters_def)

lemma fail_closed_votes [simp]: "rsm_votes (snd (fail_closed P reason vid rid votes detail s)) = rsm_votes s"
  using bft_fail_closed_keeps [OF surjective_pairing] by blast

lemma vote_advance_votes [simp]: "rsm_votes (snd (vote_advance P S v s)) = rsm_votes s"
  by (simp add: vote_advance_def maybe_advance_prevote_def maybe_advance_precommit_def precommit_certificate_def
      finalize_def Let_def split: vote_type.split option.split)

context quiet_ports
begin

lemma prevote_on_course:
  assumes s: "on_course P S k h n s" and h: "norm_hash h = h" and v: "vo_type v \<noteq> VT_Precommit"
    and r: "rid_key (vo_round v) = k" "vo_hash v = h"
  shows "on_course P S k h n (snd (vote_advance P S v (record_vote P v s)))"
proof -
  have votes: "stake_for_votes S (rsm_votes s @ [v]) (rsm_round s) VT_Precommit h
      = stake_for_votes S (rsm_votes s) (rsm_round s) VT_Precommit h"
    using v by (intro stake_for_votes_other_type) auto
  show ?thesis
    using s v r h
    by (cases "vo_type v")
      (auto simp: vote_advance_def maybe_advance_prevote_def record_vote_def on_course_def quiet_attestation Let_def votes)
qed

lemma precommit_on_course:
  assumes s: "on_course P S k h n s" and h: "norm_hash h = h" and v: "vo_type v = VT_Precommit"
    and r: "rid_key (vo_round v) = k" "vo_hash v = h"
  shows "on_course P S k h n (snd (vote_advance P S v (record_vote P v s)))"
proof -
  have low: "py_lower h = h" using h by (metis py_lower_norm_hash)
  have qc: "\<not> (qc_reached c \<and> qc_hash c \<noteq> h)" if "dget (rsm_qc s) (k, VT_Prevote) = Some c" for c
    using s that by (auto simp: on_course_def)
  obtain ref where ref: "dget (rsm_blocks s) h = Some ref" "br_height ref = n"
    using s by (auto simp: on_course_def)
  have adv: "vote_advance P S v (record_vote P v s) = precommit_certificate P S h (record_vote P v s)"
    using qc s v r by (auto simp: vote_advance_def maybe_advance_precommit_def record_vote_def on_course_def split: option.split)
  show ?thesis
    unfolding adv using s v r low ref
    by (auto simp: precommit_certificate_def record_vote_def on_course_def quiet_attestation quiet_finalized Let_def
        finalize_def certificate_reached_iff)
qed

lemma vote_on_course:
  assumes s: "on_course P S k h n s" and h: "norm_hash h = h" and v: "timely S k h v"
  shows "on_course P S k h n (snd (submit_vote P v s))
    \<and> (\<forall>u. has_voted u s \<longrightarrow> has_voted u (snd (submit_vote P v s)))
    \<and> (rid_key (vo_round v) = k \<longrightarrow> has_voted v (snd (submit_vote P v s)))"
proof (cases "rid_key (vo_round v) = k")
  case False
  with s v have "snd (submit_vote P v s) = s" by (auto simp: submit_vote_def on_course_def timely_def)
  with s False show ?thesis by simp
next
  case True
  then have r: "rid_key (vo_round v) = k" "vo_hash v = h" "vo_verified v" "vs_is_active S (vo_validator v)"
    using v by (auto simp: timely_def)
  have c: "rsm_phase s \<noteq> RP_Locked" "rid_key (rsm_round s) = k" "port_snapshot P (rsm_world s) = S"
    "rsm_phase s \<in> {RP_Prevote, RP_Precommit, RP_Finalize}"
    using s by (auto simp: on_course_def)
  let ?prior = "dget (rsm_seen s) (vo_validator v, vo_type v, k)"
  show ?thesis
  proof (cases ?prior)
    case (Some x)
    then have "x = h" "has_voted v s" using s unfolding on_course_def has_voted_def by blast+
    moreover have "snd (submit_vote P v s) = s"
      using c(1-3) r Some \<open>x = h\<close> by (simp add: submit_vote_def Let_def)
    ultimately show ?thesis using s by simp
  next
    case None
    have gate: "vote_phase_gate v s = (None, s)" using c(4) by (auto simp: vote_phase_gate_def)
    have rec: "submit_vote P v s = vote_advance P S v (record_vote P v s)"
      using c(1-3) r None gate by (simp add: submit_vote_def Let_def)
    have votes: "rsm_votes (snd (vote_advance P S v (record_vote P v s))) = rsm_votes s @ [v]"
      by (simp add: record_vote_def)
    have "on_course P S k h n (snd (vote_advance P S v (record_vote P v s)))"
      using prevote_on_course precommit_on_course s h r(1,2) by (cases "vo_type v = VT_Precommit") blast+
    with rec votes show ?thesis by (auto simp: has_voted_def)
  qed
qed

lemma votes_on_course:
  assumes "on_course P S k h n s" and "norm_hash h = h" and "\<forall>v\<in>set vs. timely S k h (vote_init v)"
  shows "on_course P S k h n (bft_run P s (map SubmitVote vs))
    \<and> (\<forall>u. has_voted u s \<longrightarrow> has_voted u (bft_run P s (map SubmitVote vs)))
    \<and> (\<forall>v\<in>set vs. rid_key (vo_round v) = k \<longrightarrow> has_voted (vote_init v) (bft_run P s (map SubmitVote vs)))"
  using assms(1,3)
proof (induction vs arbitrary: s)
  case Nil
  then show ?case by (simp add: bft_run_def)
next
  case (Cons v vs)
  let ?t = "snd (submit_vote P (vote_init v) s)"
  have v: "on_course P S k h n ?t \<and> (\<forall>u. has_voted u s \<longrightarrow> has_voted u ?t)
      \<and> (rid_key (vo_round (vote_init v)) = k \<longrightarrow> has_voted (vote_init v) ?t)"
    using vote_on_course [OF Cons.prems(1) assms(2)] Cons.prems(2) by simp
  have round: "vo_round (vote_init v) = vo_round v" by (simp add: vote_init_def)
  have run: "bft_run P s (map SubmitVote (v # vs)) = bft_run P ?t (map SubmitVote vs)" by (simp add: bft_run_def)
  from Cons.IH [OF conjunct1 [OF v]] Cons.prems(2) v show ?case unfolding run by (auto simp: round)
qed

text \<open>The validators whose precommit for the round is among the votes that arrive.\<close>

lemma quorum_arrives:
  assumes s: "on_course P S k h n s" and h: "norm_hash h = h" and S: "snapshot_wf S"
    and vs: "\<forall>v\<in>set vs. timely S k h (vote_init v)"
    and q: "quorum_reached (\<Sum>a\<in>{vo_validator (vote_init v) | v. v \<in> set vs \<and> vo_type v = VT_Precommit
              \<and> rid_key (vo_round v) = k}. stake_of S a) (total_active_stake S)"
  shows "h \<in> rsm_finalized_hashes (bft_run P s (map SubmitVote vs))
    \<and> n \<le> rsm_finalized_height (bft_run P s (map SubmitVote vs))
    \<and> rsm_phase (bft_run P s (map SubmitVote vs)) \<noteq> RP_Locked"
proof -
  let ?t = "bft_run P s (map SubmitVote vs)"
  let ?A = "{vo_validator (vote_init v) | v. v \<in> set vs \<and> vo_type v = VT_Precommit \<and> rid_key (vo_round v) = k}"
  note run = votes_on_course [OF s h vs]
  have t: "on_course P S k h n ?t" using run by blast
  have low: "py_lower h = h" using h by (metis py_lower_norm_hash)
  have "?A \<subseteq> voters S (rsm_votes ?t) (rsm_round ?t) VT_Precommit h"
  proof
    fix a
    assume "a \<in> ?A"
    then obtain v where v: "v \<in> set vs" "vo_type v = VT_Precommit" "rid_key (vo_round v) = k" "a = vo_validator (vote_init v)"
      by auto
    then have "has_voted (vote_init v) ?t" using run by blast
    then obtain u where u: "u \<in> set (rsm_votes ?t)" "vo_validator u = a" "vo_type u = VT_Precommit"
      using v by (auto simp: has_voted_def vote_init_def)
    moreover have "vs_is_active S a" using vs v by (auto simp: timely_def vote_init_def)
    ultimately show "a \<in> voters S (rsm_votes ?t) (rsm_round ?t) VT_Precommit h"
      using t h low unfolding voters_def on_course_def by fastforce
  qed
  then have "(\<Sum>a\<in>?A. stake_of S a) \<le> stake_for_votes S (rsm_votes ?t) (rsm_round ?t) VT_Precommit h"
    unfolding stake_for_votes_eq by (intro sum_mono2) (auto simp: stake_of_nonneg S)
  with q have "quorum_reached (stake_for_votes S (rsm_votes ?t) (rsm_round ?t) VT_Precommit h) (total_active_stake S)"
    by (rule quorum_reached_mono)
  with t show ?thesis unfolding on_course_def by auto
qed

text \<open>A proposal that is accepted in a round nobody has voted in puts it on course.\<close>

lemma proposal_on_course:
  assumes "rsm_phase s = RP_Propose" and "rsm_proposal s = None" and "rid_key (pr_round p) = rid_key (rsm_round s)"
    and "\<forall>vid t. dget (rsm_seen s) (vid, t, rid_key (rsm_round s)) = None"
    and "dget (rsm_qc s) (rid_key (rsm_round s), VT_Prevote) = None" and "rsm_votes s = []"
    and "vs_is_active (port_snapshot P (rsm_world s)) (pr_proposer p)"
    and "rsm_expected_proposer s \<in> {[], pr_proposer p}" and "norm_hash (pr_hash p) = pr_hash p"
    and "snapshot_wf (port_snapshot P (rsm_world s))"
  shows "on_course P (port_snapshot P (rsm_world s)) (rid_key (rsm_round s)) (pr_hash p) (rid_height (pr_round p))
    (snd (submit_proposal P p s))"
proof -
  have height: "rid_height (pr_round p) = rid_height (rsm_round s)" using assms(3) by (simp add: rid_key_def)
  have q: "\<not> quorum_reached (stake_for_votes S [] r t h) (total_active_stake S)" for S r t h
    by (auto simp: stake_for_votes_eq quorum_reached_def)
  have "snd (submit_proposal P p s) =
      add_block (block_ref_init \<lparr>br_height = rid_height (pr_round p), br_hash = pr_hash p, br_parent = pr_parent p\<rparr>) []
        (s\<lparr>rsm_proposal := Some p, rsm_phase := RP_Prevote\<rparr>)"
    using assms by (auto simp: submit_proposal_def Let_def str_or_def)
  then show ?thesis
    using assms height q
    by (auto simp: on_course_def add_block_def block_ref_init_def Let_def split: option.split)
qed

end

section \<open>The adapters of the node\<close>

interpretation quiet: quiet_ports "adapter_ports env" for env :: "'d adapter_env"
  by unfold_locales (simp_all add: adapter_ports_def adapter_on_attestation_def adapter_on_finalized_def Let_def)

section \<open>Progress\<close>

lemma opened_round:
  assumes "open_round H ep m ex s = (r, s1)"
  shows "rsm_phase s1 = RP_Propose" "rsm_proposal s1 = None" "rsm_votes s1 = []" "rsm_round s1 = r"
    "rsm_qc s1 = rsm_qc s" "rsm_world s1 = rsm_world s" "rid_height r = H"
    "dget (rsm_seen s1) (vid, t, rid_key r) = dget (rsm_seen s) (vid, t, rid_key r)"
  using assms by (auto simp: open_round_def begin_round_def Let_def dget_filter_round split: option.splits)

text \<open>C31: progress. Once a round that nobody has voted in is opened and an active, expected proposer has proposed a
  block, the block is finalized as soon as the precommits of validators with two thirds of the active stake have
  arrived, in whatever order and however often, among prevotes for the block, repeated votes and votes of other
  rounds, provided that no vote is unverified, of an inactive validator or for another block of the round; the
  finalized height reaches the one of the block, and the round is not locked.\<close>

theorem round_finalizes:
  assumes "open_round H ep m ex s = (r, s1)"
    and "\<forall>vid t. dget (rsm_seen s) (vid, t, rid_key r) = None" and "dget (rsm_qc s) (rid_key r, VT_Prevote) = None"
    and "rid_key (pr_round p) = rid_key r" and "vs_is_active (adapter_snapshot (rsm_world s)) (py_strip (pr_proposer p))"
    and "rsm_expected_proposer s1 \<in> {[], py_strip (pr_proposer p)}"
    and "\<forall>v\<in>set vs. timely (adapter_snapshot (rsm_world s)) (rid_key r) (norm_hash (pr_hash p)) (vote_init v)"
    and "quorum_reached (\<Sum>a\<in>{vo_validator (vote_init v) | v. v \<in> set vs \<and> vo_type v = VT_Precommit
            \<and> rid_key (vo_round v) = rid_key r}. stake_of (adapter_snapshot (rsm_world s)) a)
          (total_active_stake (adapter_snapshot (rsm_world s)))"
  shows "let t = bft_run (adapter_ports env) s (OpenRound H ep m ex # SubmitProposal p # map SubmitVote vs)
     in is_finalized_hash t (pr_hash p) \<and> H \<le> rsm_finalized_height t \<and> rsm_phase t \<noteq> RP_Locked"
proof -
  let ?P = "adapter_ports env" and ?S = "adapter_snapshot (rsm_world s)" and ?p = "proposal_init p"
  have snap: "port_snapshot ?P = adapter_snapshot" by (simp add: adapter_ports_def)
  note opened = opened_round [OF assms(1)]
  have p: "pr_round ?p = pr_round p" "pr_hash ?p = norm_hash (pr_hash p)" "pr_proposer ?p = py_strip (pr_proposer p)"
    by (simp_all add: proposal_init_def)
  have height: "rid_height (pr_round p) = H" using assms(4) opened(7) by (simp add: rid_key_def)
  have "on_course ?P (port_snapshot ?P (rsm_world s1)) (rid_key (rsm_round s1)) (pr_hash ?p) (rid_height (pr_round ?p))
      (snd (submit_proposal ?P ?p s1))"
    by (rule quiet.proposal_on_course) (use assms opened p in \<open>auto simp: snap\<close>)
  then have "on_course ?P ?S (rid_key r) (norm_hash (pr_hash p)) H (snd (submit_proposal ?P ?p s1))"
    using opened p height by (simp add: snap)
  from quiet.quorum_arrives [OF this norm_hash_idem adapter_snapshot_wf assms(7,8)]
  show ?thesis using assms(1) by (simp add: bft_run_def is_finalized_hash_def Let_def)
qed

text \<open>The concrete round, with the votes in another order: a precommit first, a vote of an old round, repetitions.\<close>

definition demo_ballots :: "vote list" where
  "demo_ballots = map (\<lambda>(vid, t, n). \<lparr>vo_validator = vid, vo_type = t, vo_round = demo_round\<lparr>rid_height := n\<rparr>, vo_hash = ''0xab'',
     vo_slot = 0, vo_sigref = [], vo_verified = True\<rparr>)
     [(''vc'', VT_Precommit, 1), (''vb'', VT_Prevote, 0), (''va'', VT_Prevote, 1), (''vc'', VT_Precommit, 1), (''va'', VT_Precommit, 1)]"

theorem round_finalizes_witness:
  "let t = bft_run (adapter_ports demo_env) (rsm_init [] 32 demo_world)
       (OpenRound 1 None 0 None # SubmitProposal \<lparr>pr_proposer = ''va'', pr_round = demo_round, pr_hash = ''0xAB'', pr_parent = ''0x00''\<rparr>
          # map SubmitVote demo_ballots)
   in is_finalized_hash t ''0xAB'' \<and> 1 \<le> rsm_finalized_height t \<and> rsm_phase t \<noteq> RP_Locked"
proof -
  let ?p = "\<lparr>pr_proposer = ''va'', pr_round = demo_round, pr_hash = ''0xAB'', pr_parent = ''0x00''\<rparr>"
  let ?s = "rsm_init [] 32 demo_world :: unit cons_world rsm" and ?S = "adapter_snapshot demo_world"
  obtain s1 where s1: "open_round 1 None 0 None ?s = (demo_round, s1)" "rsm_expected_proposer s1 = []"
    by (simp add: open_round_def rsm_init_def begin_round_def demo_round_def Let_def)
  have world: "rsm_world ?s = demo_world" by (simp add: rsm_init_def)
  have 1: "list_all (\<lambda>v. timely ?S (rid_key demo_round) (norm_hash ''0xAB'') (vote_init v)) demo_ballots" by code_simp
  have 2: "vs_is_active ?S (py_strip ''va'')" by code_simp
  have who: "{vo_validator (vote_init v) | v. v \<in> set demo_ballots \<and> vo_type v = VT_Precommit
      \<and> rid_key (vo_round v) = rid_key demo_round} = {''vc'', ''va''}"
  proof -
    have "{vo_validator (vote_init v) | v. v \<in> set demo_ballots \<and> vo_type v = VT_Precommit \<and> rid_key (vo_round v) = rid_key demo_round}
      = set (map (\<lambda>v. vo_validator (vote_init v)) (filter (\<lambda>v. vo_type v = VT_Precommit \<and> rid_key (vo_round v) = rid_key demo_round) demo_ballots))"
      by auto
    moreover have "map (\<lambda>v. vo_validator (vote_init v)) (filter (\<lambda>v. vo_type v = VT_Precommit \<and> rid_key (vo_round v) = rid_key demo_round) demo_ballots)
      = [''vc'', ''vc'', ''va'']" by code_simp
    ultimately show ?thesis by simp
  qed
  have 3: "quorum_reached (stake_of ?S ''vc'' + stake_of ?S ''va'') (total_active_stake ?S)" by code_simp
  have seen: "rsm_seen ?s = []" "rsm_qc ?s = []" by (simp_all add: rsm_init_def)
  show ?thesis
    using round_finalizes [OF s1(1), of ?p demo_ballots demo_env] 1 2 3 s1(2) unfolding world who
    by (simp add: seen list_all_iff)
qed

text \<open>
  A round that is opened again under its key forgets its votes but not its double-sign table: a validator that had
  voted is answered as a duplicate and counts no more, so the round cannot be finalized with its vote.
\<close>

lemma reopened_round_deaf:
  "let ballots = [demo_vote ''va'' VT_Precommit ''0xab'', demo_vote ''vb'' VT_Precommit ''0xab''];
       again = [OpenRound 1 None 0 None, demo_events ! 0] @ ballots;
       s = bft_run (adapter_ports demo_env) demo_start ([demo_events ! 0, ballots ! 0] @ again)
   in rsm_finalized_hashes s = {} \<and> rsm_phase s = RP_Precommit \<and> length (rsm_votes s) = 1
      \<and> finalized_run (adapter_ports demo_env) demo_start (again @ [ballots ! 1]) = [''0xab'']"
  by code_simp

end
