(* ===== verification/Uint256.thy ===== *)
theory Uint256
  imports Floats "HOL-Library.Word"
begin

unbundle bit_operations_syntax

text \<open>
  The 256-bit arithmetic of the interpreter: the pure Python bodies of the \<open>evm_u256_*\<close> functions of
  \<open>src/crypto/native.py\<close>, on Python's unbounded integers with the mask written out as the code has it. The
  first section are the functions, the second the reference they are compared with, the 256-bit words of
  \<open>HOL-Library.Word\<close>. The signed division and remainder go through a double in the code, so they are modelled
  with the rounding of a double: they are exact on small operands and wrong on large ones, both proved below.
  \<open><<\<close> on a Python integer allocates the unmasked result first; whether the host grants an allocation of
  that many bytes is the parameter \<open>alloc\<close>.
\<close>

section \<open>The functions\<close>

definition EVM_U256_MASK :: int where
  "EVM_U256_MASK = push_bit 256 1 - 1"

definition evm_u256_add :: "int \<Rightarrow> int \<Rightarrow> int" where
  "evm_u256_add left right =
     (let left = left AND EVM_U256_MASK; right = right AND EVM_U256_MASK in (left + right) AND EVM_U256_MASK)"

definition evm_u256_mul :: "int \<Rightarrow> int \<Rightarrow> int" where
  "evm_u256_mul left right =
     (let left = left AND EVM_U256_MASK; right = right AND EVM_U256_MASK in (left * right) AND EVM_U256_MASK)"

definition evm_u256_sub :: "int \<Rightarrow> int \<Rightarrow> int" where
  "evm_u256_sub left right =
     (let left = left AND EVM_U256_MASK; right = right AND EVM_U256_MASK in (left - right) AND EVM_U256_MASK)"

definition evm_u256_div :: "int \<Rightarrow> int \<Rightarrow> int" where
  "evm_u256_div left right =
     (let left = left AND EVM_U256_MASK; right = right AND EVM_U256_MASK
      in if right = 0 then 0 else left div right)"

definition evm_u256_mod :: "int \<Rightarrow> int \<Rightarrow> int" where
  "evm_u256_mod left right =
     (let left = left AND EVM_U256_MASK; right = right AND EVM_U256_MASK
      in if right = 0 then 0 else left mod right)"

definition evm_u256_and :: "int \<Rightarrow> int \<Rightarrow> int" where
  "evm_u256_and left right =
     (let left = left AND EVM_U256_MASK; right = right AND EVM_U256_MASK in left AND right)"

definition evm_u256_or :: "int \<Rightarrow> int \<Rightarrow> int" where
  "evm_u256_or left right =
     (let left = left AND EVM_U256_MASK; right = right AND EVM_U256_MASK in left OR right)"

definition evm_u256_xor :: "int \<Rightarrow> int \<Rightarrow> int" where
  "evm_u256_xor left right =
     (let left = left AND EVM_U256_MASK; right = right AND EVM_U256_MASK in left XOR right)"

definition evm_u256_not :: "int \<Rightarrow> int" where
  "evm_u256_not value = (let value = value AND EVM_U256_MASK in (NOT value) AND EVM_U256_MASK)"

text \<open>
  Python shifts the unbounded integer before it masks: a result the host has no room for raises
  (\<open>MemoryError\<close> or \<open>OverflowError\<close>), except that zero is returned at once.
\<close>

definition evm_u256_shl :: "(int \<Rightarrow> bool) \<Rightarrow> int \<Rightarrow> int \<Rightarrow> int option" where
  "evm_u256_shl alloc value shift =
     (let value = value AND EVM_U256_MASK; shift = shift AND EVM_U256_MASK
      in if value = 0 then Some 0
         else if alloc ((shift + 256) div 8) then Some (push_bit (nat shift) value AND EVM_U256_MASK)
         else None)"

definition evm_u256_shr :: "int \<Rightarrow> int \<Rightarrow> int" where
  "evm_u256_shr value shift =
     (let value = value AND EVM_U256_MASK; shift = shift AND EVM_U256_MASK in drop_bit (nat shift) value)"

definition evm_u256_slt :: "int \<Rightarrow> int \<Rightarrow> int" where
  "evm_u256_slt left right =
     (let left = left AND EVM_U256_MASK; right = right AND EVM_U256_MASK;
          sign = push_bit 255 1;
          left_neg = sign \<le> left; right_neg = sign \<le> right;
          truthy = (if left_neg = right_neg then left < right else left_neg)
      in if truthy then 1 else 0)"

definition evm_u256_sgt :: "int \<Rightarrow> int \<Rightarrow> int" where
  "evm_u256_sgt left right = evm_u256_slt right left"

definition evm_u256_sar :: "int \<Rightarrow> int \<Rightarrow> int" where
  "evm_u256_sar value shift =
     (let shift = shift AND EVM_U256_MASK; value = value AND EVM_U256_MASK
      in if 256 \<le> shift then (if push_bit 255 1 \<le> value then EVM_U256_MASK else 0)
         else if push_bit 255 1 \<le> value then
           (let msk = push_bit (nat (256 - shift)) EVM_U256_MASK AND EVM_U256_MASK
            in drop_bit (nat shift) value OR msk)
         else drop_bit (nat shift) value)"

definition evm_u256_iszero :: "int \<Rightarrow> int" where
  "evm_u256_iszero left = (if left AND EVM_U256_MASK = 0 then 1 else 0)"

definition evm_u256_eq :: "int \<Rightarrow> int \<Rightarrow> int" where
  "evm_u256_eq left right =
     (let left = left AND EVM_U256_MASK; right = right AND EVM_U256_MASK in if left = right then 1 else 0)"

definition evm_u256_lt :: "int \<Rightarrow> int \<Rightarrow> int" where
  "evm_u256_lt left right =
     (let left = left AND EVM_U256_MASK; right = right AND EVM_U256_MASK in if left < right then 1 else 0)"

definition evm_u256_gt :: "int \<Rightarrow> int \<Rightarrow> int" where
  "evm_u256_gt left right =
     (let left = left AND EVM_U256_MASK; right = right AND EVM_U256_MASK in if left > right then 1 else 0)"

definition evm_u256_byte :: "int \<Rightarrow> int \<Rightarrow> int" where
  "evm_u256_byte index word =
     (let index = index AND EVM_U256_MASK; word = word AND EVM_U256_MASK
      in if 32 \<le> index then 0 else drop_bit (nat (8 * (31 - index))) word AND 255)"

definition evm_i256_to_signed :: "int \<Rightarrow> int" where
  "evm_i256_to_signed value =
     (let value = value AND EVM_U256_MASK in if push_bit 255 1 \<le> value then value - push_bit 256 1 else value)"

definition evm_i256_from_signed :: "int \<Rightarrow> int" where
  "evm_i256_from_signed value = value AND EVM_U256_MASK"

text \<open>
  \<open>int(a / b)\<close>: the quotient of two integers correctly rounded to a double, then truncated. For positive
  operands the quotient is taken with enough bits after the point and one sticky bit, so that rounding it to 53
  significant bits is rounding the exact quotient.
\<close>

definition truediv_floor :: "nat \<Rightarrow> nat \<Rightarrow> nat" where
  "truediv_floor a b =
     (let p = bit_len b + 55; q = a * 2 ^ p div b; sticky = (if a * 2 ^ p mod b = 0 then 0 else 1)
      in round53 (2 * q + sticky) div 2 ^ (p + 1))"

definition py_int_truediv :: "int \<Rightarrow> int \<Rightarrow> int" where
  "py_int_truediv a b = sgn a * sgn b * int (truediv_floor (nat \<bar>a\<bar>) (nat \<bar>b\<bar>))"

definition evm_u256_sdiv :: "int \<Rightarrow> int \<Rightarrow> int" where
  "evm_u256_sdiv left right =
     (let left = left AND EVM_U256_MASK; right = right AND EVM_U256_MASK
      in if right = 0 then 0
         else if left = push_bit 255 1 \<and> right = EVM_U256_MASK then left
         else evm_i256_from_signed (py_int_truediv (evm_i256_to_signed left) (evm_i256_to_signed right)))"

text \<open>\<open>int(math.copysign(m, s))\<close> for a non-negative integer \<open>m\<close>: \<open>m\<close> becomes a double.\<close>

definition py_int_copysign :: "int \<Rightarrow> int \<Rightarrow> int" where
  "py_int_copysign m s = (if s < 0 then - int (round53 (nat m)) else int (round53 (nat m)))"

definition evm_u256_smod :: "int \<Rightarrow> int \<Rightarrow> int" where
  "evm_u256_smod left right =
     (let left = left AND EVM_U256_MASK; right = right AND EVM_U256_MASK
      in if right = 0 then 0
         else (let left_s = evm_i256_to_signed left; right_s = \<bar>evm_i256_to_signed right\<bar>
               in evm_i256_from_signed (py_int_copysign (\<bar>left_s\<bar> mod right_s) left_s)))"

definition evm_u256_addmod :: "int \<Rightarrow> int \<Rightarrow> int \<Rightarrow> int" where
  "evm_u256_addmod left right modulus =
     (let left = left AND EVM_U256_MASK; right = right AND EVM_U256_MASK; modulus = modulus AND EVM_U256_MASK
      in if modulus = 0 then 0 else (left + right) mod modulus)"

definition evm_u256_mulmod :: "int \<Rightarrow> int \<Rightarrow> int \<Rightarrow> int" where
  "evm_u256_mulmod left right modulus =
     (let left = left AND EVM_U256_MASK; right = right AND EVM_U256_MASK; modulus = modulus AND EVM_U256_MASK
      in if modulus = 0 then 0 else (left * right) mod modulus)"

text \<open>Square and multiply; \<open>e\<close> is masked, so it is a natural number.\<close>

fun exp_loop :: "int \<Rightarrow> int \<Rightarrow> nat \<Rightarrow> int" where
  "exp_loop result b e =
     (if e = 0 then result
      else exp_loop (if odd e then (result * b) AND EVM_U256_MASK else result) ((b * b) AND EVM_U256_MASK) (e div 2))"

declare exp_loop.simps [simp del]

definition evm_u256_exp :: "int \<Rightarrow> int \<Rightarrow> int" where
  "evm_u256_exp base exponent =
     (let base = base AND EVM_U256_MASK; exponent = exponent AND EVM_U256_MASK
      in if exponent = 0 then (if base = 0 then 0 else 1) else exp_loop 1 base (nat exponent))"

definition evm_u256_signextend :: "int \<Rightarrow> int \<Rightarrow> int" where
  "evm_u256_signextend index word =
     (let index = index AND EVM_U256_MASK; word = word AND EVM_U256_MASK
      in if 32 \<le> index then word
         else (let b = nat (8 * index + 7); lower_mask = push_bit (b + 1) 1 - 1
               in if word AND push_bit b 1 \<noteq> 0 then word OR (NOT lower_mask AND EVM_U256_MASK)
                  else word AND lower_mask))"

section \<open>Against the 256-bit words of the library\<close>

type_synonym u256 = "256 word"

abbreviation u256 :: "int \<Rightarrow> u256" where
  "u256 \<equiv> word_of_int"

lemma mask256: "EVM_U256_MASK = mask 256" "EVM_U256_MASK = 2 ^ 256 - 1"
  by (simp_all add: EVM_U256_MASK_def mask_eq_exp_minus_1)

lemma and_mask256: "x AND EVM_U256_MASK = uint (u256 x)"
  by (simp only: mask256(1) flip: take_bit_eq_mask) (simp add: uint_word_of_int_eq)

lemma uint_u256_bound: "uint (w :: u256) < 2 ^ 256"
proof -
  have "LENGTH(256) = 256" by simp
  then show ?thesis using uint_lt2p [of w] by (simp only:)
qed

lemma and_mask_id: "0 \<le> x \<Longrightarrow> x < 2 ^ 256 \<Longrightarrow> x AND EVM_U256_MASK = x"
  by (simp add: and_mask256 uint_word_of_int)

lemma and_mask_uint [simp]: "uint (w :: u256) AND EVM_U256_MASK = uint w"
  by (simp only: and_mask256 word_of_int_uint)

lemma and_mask_range [simp]: "0 \<le> x AND EVM_U256_MASK" "x AND EVM_U256_MASK < 2 ^ 256"
  by (simp only: and_mask256 uint_ge_0) (simp only: and_mask256 uint_u256_bound)

lemma u256_add: "evm_u256_add a b = uint (u256 a + u256 b)"
  by (simp only: evm_u256_add_def Let_def and_mask256 wi_hom_add word_of_int_uint flip: word_add_def)

lemma u256_mul: "evm_u256_mul a b = uint (u256 a * u256 b)"
  by (simp only: evm_u256_mul_def Let_def and_mask256 flip: word_mult_def)

lemma u256_sub: "evm_u256_sub a b = uint (u256 a - u256 b)"
  by (simp only: evm_u256_sub_def Let_def and_mask256 flip: word_sub_wi)

lemma u256_div: "evm_u256_div a b = uint (u256 a div u256 b)"
  by (simp add: evm_u256_div_def Let_def and_mask256 uint_div)

lemma u256_mod: "evm_u256_mod a b = (if u256 b = 0 then 0 else uint (u256 a mod u256 b))"
  by (simp add: evm_u256_mod_def Let_def and_mask256 uint_mod uint_0_iff)

lemma u256_and: "evm_u256_and a b = uint (u256 a AND u256 b)"
  by (simp add: evm_u256_and_def Let_def and_mask256 unsigned_and_eq)

lemma u256_or: "evm_u256_or a b = uint (u256 a OR u256 b)"
  by (simp add: evm_u256_or_def Let_def and_mask256 unsigned_or_eq)

lemma u256_xor: "evm_u256_xor a b = uint (u256 a XOR u256 b)"
  by (simp add: evm_u256_xor_def Let_def and_mask256 unsigned_xor_eq)

lemma u256_not: "evm_u256_not a = uint (NOT (u256 a))"
  by (simp only: evm_u256_not_def Let_def and_mask256 flip: word_not_def)

lemma nat_range_256: "0 \<le> x \<Longrightarrow> x < 2 ^ 256 \<Longrightarrow> uint (u256 x) = x"
  by (simp add: uint_word_of_int)

lemma u256_shl:
  "evm_u256_shl alloc a b =
     (if u256 a = 0 \<or> alloc ((uint (u256 b) + 256) div 8)
      then Some (uint (push_bit (unat (u256 b)) (u256 a))) else None)"
proof -
  have "uint (u256 (push_bit n (uint w))) = uint (push_bit n w)" for n and w :: u256
    by (simp add: push_bit_eq_mult flip: wi_hom_mult)
  then show ?thesis
    by (simp add: evm_u256_shl_def Let_def and_mask256 uint_0_iff)
qed

lemma take_bit_uint256 [simp]: "take_bit 256 (uint (w :: u256)) = uint w"
  by (rule take_bit_int_eq_self) (simp_all only: uint_ge_0 uint_u256_bound)

lemma u256_shr: "evm_u256_shr a b = uint (drop_bit (unat (u256 b)) (u256 a))"
  by (simp add: evm_u256_shr_def Let_def and_mask256 unsigned_drop_bit_eq)

lemma u256_msb: "(push_bit 255 1 \<le> uint w) = bit (w :: u256) 255"
proof -
  have "bit w 255 = bit (uint w) 255" by (simp add: bit_uint_iff)
  also have "\<dots> = odd (uint w div 2 ^ 255)" by (simp add: bit_iff_odd)
  also have "\<dots> = (2 ^ 255 \<le> uint w)"
  proof (cases "2 ^ 255 \<le> uint w")
    case True
    then have "uint w div 2 ^ 255 = 1" using uint_u256_bound [of w] by (simp add: int_div_pos_eq [where r = "uint w - 2 ^ 255"])
    then show ?thesis using True by simp
  next
    case False
    then have "uint w div 2 ^ 255 = 0" by simp
    with False show ?thesis by simp
  qed
  finally show ?thesis by (simp add: push_bit_eq_mult)
qed

lemma i256_signed: "evm_i256_to_signed a = sint (u256 a)"
proof -
  have "sint w = uint w - 2 ^ 256 * of_bool (bit w 255)" for w :: u256
    by (simp add: sint_uint signed_take_bit_eq_take_bit_minus take_bit_int_eq_self bit_uint_iff
        uint_u256_bound [simplified])
  then show ?thesis
    by (simp only: evm_i256_to_signed_def Let_def and_mask256 u256_msb) (simp add: push_bit_eq_mult)
qed

lemma i256_from_signed: "evm_i256_from_signed i = uint (u256 i)"
  by (simp only: evm_i256_from_signed_def and_mask256)

lemma u256_slt: "evm_u256_slt a b = of_bool (u256 a <s u256 b)"
proof -
  have "(if (push_bit 255 1 \<le> uint v) = (push_bit 255 1 \<le> uint w) then uint v < uint w
         else push_bit 255 1 \<le> uint v) = (sint v < sint w)" for v w :: u256
    using i256_signed [of "uint v"] i256_signed [of "uint w"] uint_u256_bound [of v] uint_u256_bound [of w]
      uint_ge_0 [of v] uint_ge_0 [of w]
    by (simp only: evm_i256_to_signed_def Let_def and_mask_uint word_of_int_uint push_bit_eq_mult split: if_splits)
      arith+
  then show ?thesis
    by (simp only: evm_u256_slt_def Let_def and_mask256 word_sless_alt) (simp only: of_bool_def)
qed

lemma u256_sgt: "evm_u256_sgt a b = of_bool (u256 b <s u256 a)"
  by (simp add: evm_u256_sgt_def u256_slt)

lemma u256_compare:
  "evm_u256_iszero a = of_bool (u256 a = 0)"
  "evm_u256_eq a b = of_bool (u256 a = u256 b)"
  "evm_u256_lt a b = of_bool (u256 a < u256 b)"
  "evm_u256_gt a b = of_bool (u256 a > u256 b)"
  by (simp_all add: evm_u256_iszero_def evm_u256_eq_def evm_u256_lt_def evm_u256_gt_def Let_def and_mask256
      uint_0_iff word_less_def flip: word_uint_eq_iff)

lemma u256_addmod:
  "evm_u256_addmod a b n = (if u256 n = 0 then 0 else (uint (u256 a) + uint (u256 b)) mod uint (u256 n))"
  "evm_u256_mulmod a b n = (if u256 n = 0 then 0 else (uint (u256 a) * uint (u256 b)) mod uint (u256 n))"
  by (simp_all add: evm_u256_addmod_def evm_u256_mulmod_def Let_def and_mask256 uint_0_iff)

lemma exp_loop_word: "u256 (exp_loop r b e) = u256 r * u256 b ^ e"
proof (induction r b e rule: exp_loop.induct)
  case (1 r b e)
  show ?case
  proof (cases "e = 0")
    case False
    then have "u256 (exp_loop r b e)
        = u256 (if odd e then r * b AND EVM_U256_MASK else r) * u256 (b * b AND EVM_U256_MASK) ^ (e div 2)"
      using 1 by (subst exp_loop.simps) simp
    also have "\<dots> = u256 (if odd e then r * b else r) * u256 (b * b) ^ (e div 2)"
      by (simp add: and_mask256)
    also have "u256 (b * b) ^ (e div 2) = u256 b ^ (2 * (e div 2))"
      by (simp add: power_mult power2_eq_square flip: wi_hom_mult)
    also have "u256 (if odd e then r * b else r) * u256 b ^ (2 * (e div 2)) = u256 r * u256 b ^ e"
      by (cases "odd e") (auto simp: mult.assoc simp flip: wi_hom_mult power_Suc)
    finally show ?thesis .
  qed (simp add: exp_loop.simps)
qed

lemma exp_loop_range: "r \<in> {0..<2 ^ 256} \<Longrightarrow> exp_loop r b e \<in> {0..<2 ^ 256}"
proof (induction r b e rule: exp_loop.induct)
  case (1 r b e)
  show ?case
  proof (cases "e = 0")
    case False
    have "(if odd e then r * b AND EVM_U256_MASK else r) \<in> {0..<2 ^ 256}"
      using 1(2) by (auto simp only: atLeastLessThan_iff and_mask_range split: if_splits)
    with 1(1) False show ?thesis by (subst exp_loop.simps) simp
  qed (use 1(2) in \<open>simp add: exp_loop.simps\<close>)
qed

lemma u256_exp:
  "evm_u256_exp a b = (if u256 a = 0 \<and> u256 b = 0 then 0 else uint (u256 a ^ unat (u256 b)))"
proof (cases "u256 b = 0")
  case False
  have "evm_u256_exp a b = exp_loop 1 (uint (u256 a)) (unat (u256 b))"
    using False by (simp add: evm_u256_exp_def Let_def and_mask256 uint_0_iff)
  also have "\<dots> = uint (u256 (exp_loop 1 (uint (u256 a)) (unat (u256 b))))"
    using exp_loop_range [of 1 "uint (u256 a)" "unat (u256 b)"] by (subst nat_range_256) auto
  finally show ?thesis using False by (simp add: exp_loop_word)
qed (simp add: evm_u256_exp_def Let_def and_mask256 uint_0_iff)

lemma bit_u256_high: "bit (w :: u256) n \<Longrightarrow> n < 256"
  using bit_imp_le_length [of w n] by simp

lemma bit_uint256: "bit (uint (w :: u256)) n = (n < 256 \<and> bit w n)"
  using bit_u256_high [of w n] by (auto simp: bit_uint_iff)

lemma bit_mask256: "bit EVM_U256_MASK n = (n < 256)"
  by (simp only: mask256(1) bit_mask_iff) simp

lemma u256_sar: "evm_u256_sar a b = uint (signed_drop_bit (unat (u256 b)) (u256 a))"
proof (rule bit_eqI)
  fix n
  define w where "w = u256 a"
  define k where "k = unat (u256 b)"
  have k: "nat (uint (u256 b)) = k" "uint (u256 b) = int k" by (simp_all add: k_def)
  have drop: "bit (drop_bit k (uint w)) n = (n + k < 256 \<and> bit w (k + n))"
    by (simp add: bit_drop_bit_eq bit_uint256 add.commute)
  have right: "bit (uint (signed_drop_bit k w)) n = (n < 256 \<and> bit w (if n < 256 - k then k + n else 255))"
    by (auto simp: bit_uint256 bit_signed_drop_bit_iff)
  have msk: "bit (push_bit (nat (256 - int k)) EVM_U256_MASK AND EVM_U256_MASK) n = (256 - k \<le> n \<and> n < 256)"
    if "k < 256" using that by (auto simp: bit_and_iff bit_push_bit_iff bit_mask256 nat_diff_distrib)
  have val: "evm_u256_sar a b
      = (if 256 \<le> int k then (if bit w 255 then EVM_U256_MASK else 0)
         else if bit w 255 then drop_bit k (uint w) OR (push_bit (nat (256 - int k)) EVM_U256_MASK AND EVM_U256_MASK)
         else drop_bit k (uint w))"
    by (simp only: evm_u256_sar_def Let_def and_mask256 [of a] and_mask256 [of b] u256_msb k w_def [symmetric] nat_int)
  show "bit (evm_u256_sar a b) n = bit (uint (signed_drop_bit (unat (u256 b)) (u256 a))) n"
    unfolding w_def [symmetric] k_def [symmetric] val right
    using bit_u256_high [of w "k + n"]
    by (cases "k < 256") (auto simp: bit_or_iff drop msk bit_mask256 add.commute)
qed

lemma u256_signextend:
  "evm_u256_signextend a b =
     (if 32 \<le> uint (u256 a) then uint (u256 b)
      else uint (u256 (signed_take_bit (nat (8 * uint (u256 a) + 7)) (uint (u256 b)))))"
proof (cases "32 \<le> uint (u256 a)")
  case False
  define k where "k = nat (8 * uint (u256 a) + 7)"
  define w where "w = u256 b"
  have "k < 256" using False by (simp add: k_def)
  have test: "(uint w AND push_bit k 1 \<noteq> 0) = bit w k"
    using \<open>k < 256\<close> by (simp only: bit_iff_and_push_bit_not_eq_0 [symmetric] bit_uint256) simp
  have low: "push_bit (k + 1) 1 - 1 = (mask (k + 1) :: int)" by (simp add: mask_eq_exp_minus_1 push_bit_eq_mult)
  have "bit (if bit w k then uint w OR (NOT (mask (k + 1)) AND EVM_U256_MASK) else uint w AND mask (k + 1)) n
      = bit (uint (u256 (signed_take_bit k (uint w)))) n" for n
    using \<open>k < 256\<close> bit_u256_high [of w n]
    by (cases "n = k") (auto simp: bit_uint256 bit_word_of_int_iff bit_signed_take_bit_iff bit_or_iff bit_and_iff bit_not_iff
        bit_mask_iff bit_mask256 min_def)
  then have "(if bit w k then uint w OR (NOT (mask (k + 1)) AND EVM_U256_MASK) else uint w AND mask (k + 1))
      = uint (u256 (signed_take_bit k (uint w)))" by (rule bit_eqI)
  then show ?thesis
    by (simp only: evm_u256_signextend_def Let_def and_mask256 [of a] and_mask256 [of b] k_def [symmetric]
        w_def [symmetric] test low False if_False)
qed (simp add: evm_u256_signextend_def Let_def and_mask256)

lemma u256_byte_word:
  "evm_u256_byte a b = (if 32 \<le> uint (u256 a) then 0 else uint (u256 b) div 256 ^ nat (31 - uint (u256 a)) mod 256)"
proof (cases "32 \<le> uint (u256 a)")
  case False
  define k where "k = nat (31 - uint (u256 a))"
  have "nat (8 * (31 - uint (u256 a))) = 8 * k" using False by (simp add: k_def nat_mult_distrib)
  moreover have "drop_bit (8 * k) x AND 255 = x div 256 ^ k mod 256" for x :: int
  proof -
    have m: "(255 :: int) = mask 8" by (simp add: mask_eq_exp_minus_1)
    have "y AND 255 = y mod 256" for y :: int by (simp only: m take_bit_eq_mask [symmetric]) (simp add: take_bit_eq_mod)
    then show ?thesis by (simp add: drop_bit_eq_div power_mult)
  qed
  ultimately show ?thesis
    using False by (simp add: evm_u256_byte_def Let_def and_mask256 flip: k_def)
qed (simp add: evm_u256_byte_def Let_def and_mask256)

section \<open>The signed division through a double\<close>

text \<open>
  Dividing by one is exact as long as the operand fits the 53 bits of a double; the next odd number is already
  wrong, and so is a remainder of that size.
\<close>

definition trunc_div :: "int \<Rightarrow> int \<Rightarrow> int" where
  "trunc_div a b = sgn a * sgn b * (\<bar>a\<bar> div \<bar>b\<bar>)"

definition trunc_mod :: "int \<Rightarrow> int \<Rightarrow> int" where
  "trunc_mod a b = sgn a * (\<bar>a\<bar> mod \<bar>b\<bar>)"

text \<open>The quotient of the scaled division \<open>N\<close>: at most half an ulp below the next integer when \<open>a\<close> has 53 bits.\<close>

lemma scaled_gap:
  fixes a b K N :: nat
  assumes "a * K + K \<le> 2 ^ 53 * K" "b * 2 ^ 56 < K" "N * b \<le> a * K + b" "0 < b"
  shows "2 ^ (bit_len N - 53) * b + 2 * b < 2 * K"
proof (cases "53 < bit_len N")
  case True
  define x where "x = 2 ^ (bit_len N - 53) * b"
  have "2 ^ (bit_len N - 53) * 2 ^ 52 * b \<le> N * b" using ulp_bound [OF True] by (rule mult_le_mono1)
  then have "2 ^ (bit_len N - 53) * 2 ^ 52 * b \<le> a * K + b" using assms(3) by (rule order_trans)
  then have "x * 2 ^ 52 \<le> a * K + b" by (simp only: x_def mult.assoc mult.commute [of b])
  moreover have "(2 :: nat) ^ 53 = 9007199254740992" "(2 :: nat) ^ 52 = 4503599627370496" by simp_all
  ultimately have "x * 4503599627370496 \<le> a * K + b" "a * K + K \<le> 9007199254740992 * K"
    using assms(1) by (simp_all only:)
  moreover have "b * 72057594037927936 < K" using assms(2) by simp
  ultimately have "x + 2 * b < 2 * K" by linarith
  then show ?thesis by (simp only: x_def)
qed (use assms(2) in simp)

lemma truediv_floor_exact:
  assumes "a < 2 ^ 53" "0 < b"
  shows "truediv_floor a b = a div b"
proof -
  define p where "p = bit_len b + 55"
  define K where "K = (2 :: nat) ^ (p + 1)"
  define q where "q = a * 2 ^ p div b"
  define s where "s = (if a * 2 ^ p mod b = 0 then 0 else (1 :: nat))"
  define N where "N = 2 * q + s"
  define n where "n = a div b"
  have K2: "K = 2 * 2 ^ p" by (simp add: K_def)
  have KB: "b * 2 ^ 56 < K" using bit_len_bound [of b] by (simp add: K_def p_def power_add)
  have "a * 2 ^ p = q * b + a * 2 ^ p mod b" by (simp add: q_def)
  then have Nb: "N * b \<le> a * K + b" by (auto simp: N_def s_def K2 algebra_simps)
  have n_le: "n * b \<le> a" by (simp add: n_def)
  have n_gt: "a + 1 \<le> (n + 1) * b"
    using assms(2) dividend_less_div_times [of b a] by (simp add: n_def algebra_simps)
  have "n * 2 ^ p * b \<le> a * 2 ^ p" using mult_le_mono1 [OF n_le, of "2 ^ p"] by (simp add: algebra_simps)
  then have "n * 2 ^ p \<le> q" using assms(2) by (simp add: q_def less_eq_div_iff_mult_less_eq)
  then have low: "n * K \<le> N" by (simp add: N_def K2)
  have "(a + 1) * K \<le> 2 ^ 53 * K" using assms(1) by (intro mult_le_mono1) simp
  then have aK: "a * K + K \<le> 2 ^ 53 * K" by (simp only: add_mult_distrib mult_1)
  have "a * K + b < a * K + K" using KB by simp
  then have "a * K + b < 2 ^ 53 * K" using aK by (rule less_le_trans)
  then have "N * b < 2 ^ 53 * K" using Nb by (rule le_less_trans [rotated])
  moreover have "N \<le> N * b" using assms(2) by simp
  ultimately have "N < 2 ^ 53 * K" by linarith
  then have high: "N < 2 ^ (53 + (p + 1))" by (simp only: K_def power_add)
  have "a * K + K \<le> (n + 1) * K * b" using mult_le_mono1 [OF n_gt, of K] by (simp add: algebra_simps)
  then have gap: "N * b + K \<le> (n + 1) * K * b + b" using Nb by linarith
  have "(2 * N + 2 ^ (bit_len N - 53)) * b < 2 * ((n + 1) * K) * b"
    using scaled_gap [OF aK KB Nb assms(2)] gap by (simp add: algebra_simps)
  then have "2 * N + 2 ^ (bit_len N - 53) < 2 * ((n + 1) * K)" by simp
  then have "round53 N div K = n" using low high unfolding K_def by (intro round53_floor)
  then show ?thesis by (simp only: truediv_floor_def Let_def N_def s_def q_def p_def K_def n_def)
qed

lemma sdiv_small:
  assumes "sint (u256 b) \<noteq> 0" "\<bar>sint (u256 a)\<bar> < 2 ^ 53"
  shows "evm_u256_sdiv a b = uint (u256 (trunc_div (sint (u256 a)) (sint (u256 b))))"
proof -
  have "truediv_floor (nat \<bar>sint (u256 a)\<bar>) (nat \<bar>sint (u256 b)\<bar>) = nat \<bar>sint (u256 a)\<bar> div nat \<bar>sint (u256 b)\<bar>"
    using assms by (intro truediv_floor_exact) (simp_all add: nat_less_iff)
  then have "py_int_truediv (sint (u256 a)) (sint (u256 b)) = trunc_div (sint (u256 a)) (sint (u256 b))"
    by (simp add: py_int_truediv_def trunc_div_def zdiv_int)
  moreover have "uint (u256 a) \<noteq> push_bit 255 1"
  proof
    assume "uint (u256 a) = push_bit 255 1"
    then have "evm_i256_to_signed a = - (2 ^ 255)"
      by (simp add: evm_i256_to_signed_def and_mask256 [of a] push_bit_eq_mult)
    with assms(2) show False by (simp add: i256_signed)
  qed
  moreover have "uint (u256 b) \<noteq> 0" using assms(1) by (auto simp: uint_0_iff)
  ultimately show ?thesis
    by (simp add: evm_u256_sdiv_def Let_def and_mask256 [of a] and_mask256 [of b] i256_signed i256_from_signed)
qed

lemma smod_small:
  assumes "sint (u256 b) \<noteq> 0" "\<bar>sint (u256 a)\<bar> mod \<bar>sint (u256 b)\<bar> < 2 ^ 53"
  shows "evm_u256_smod a b = uint (u256 (trunc_mod (sint (u256 a)) (sint (u256 b))))"
proof -
  define m where "m = \<bar>sint (u256 a)\<bar> mod \<bar>sint (u256 b)\<bar>"
  have "0 \<le> m" using assms(1) by (simp add: m_def)
  moreover have "round53 (nat m) = nat m" using assms(2) by (intro round53_small) (simp add: m_def nat_less_iff)
  ultimately have "py_int_copysign m (sint (u256 a)) = (if sint (u256 a) < 0 then - m else m)"
    by (simp add: py_int_copysign_def)
  moreover have "m = 0" if "sint (u256 a) = 0" using that by (simp add: m_def)
  ultimately have "py_int_copysign m (sint (u256 a)) = trunc_mod (sint (u256 a)) (sint (u256 b))"
    by (auto simp: trunc_mod_def sgn_if m_def)
  moreover have "uint (u256 b) \<noteq> 0" using assms(1) by (auto simp: uint_0_iff)
  ultimately show ?thesis
    by (simp add: evm_u256_smod_def Let_def and_mask256 [of a] and_mask256 [of b] i256_signed i256_from_signed m_def)
qed

lemma truediv_wrong: "truediv_floor 9007199254740993 1 = 9007199254740992" "round53 9007199254740993 = 9007199254740992"
  by (simp_all add: truediv_floor_def round53_def bit_len_numeral Let_def)

lemma sdiv_wrong: "evm_u256_sdiv (2 ^ 53 + 1) 1 = 2 ^ 53" "evm_u256_smod (2 ^ 53 + 1) (2 ^ 60) = 2 ^ 53"
  by (simp_all add: evm_u256_sdiv_def evm_u256_smod_def Let_def and_mask_id evm_i256_to_signed_def
      evm_i256_from_signed_def push_bit_eq_mult py_int_truediv_def py_int_copysign_def truediv_wrong
      truediv_wrong [simplified] EVM_U256_MASK_def)

end
