(* ===== verification/Uint256Props.thy ===== *)
theory Uint256Props
  imports Uint256
begin

text \<open>
  What the arithmetic of the machine promises: the Python functions, which mask unbounded integers, compute on the
  256-bit words of their arguments. Exponentiation differs from them in one place (0 to the 0), division and remainder
  of signed numbers go through floating point and agree only while the numbers are small (\<open>sdiv_small\<close>, \<open>smod_small\<close>
  and their counterexample \<open>sdiv_wrong\<close>), and a left shift may not return at all when the host has no room.
\<close>

lemma sdiv_of_zero: "u256 b = 0 \<longrightarrow> evm_u256_sdiv a b = 0 \<and> evm_u256_smod a b = 0"
  by (simp add: evm_u256_sdiv_def evm_u256_smod_def Let_def and_mask256 uint_0_iff)

lemma sint_u256_nonzero: "u256 b \<noteq> 0 \<Longrightarrow> sint (u256 b) \<noteq> 0"
  by (metis signed_0 signed_word_eqI)

lemma sdiv_of_small:
  "u256 b \<noteq> 0 \<and> \<bar>sint (u256 a)\<bar> < 2 ^ 53 \<longrightarrow> evm_u256_sdiv a b = uint (u256 (trunc_div (sint (u256 a)) (sint (u256 b))))"
  using sdiv_small sint_u256_nonzero by blast

lemma smod_of_small:
  "u256 b \<noteq> 0 \<and> \<bar>sint (u256 a)\<bar> mod \<bar>sint (u256 b)\<bar> < 2 ^ 53 \<longrightarrow>
     evm_u256_smod a b = uint (u256 (trunc_mod (sint (u256 a)) (sint (u256 b))))"
  using smod_small sint_u256_nonzero by blast

text \<open>C26: Whatever integers they are given, of any size and sign, the functions of the arithmetic, bitwise and
  comparison opcodes return the unsigned value of the word that the operation yields on the arguments taken modulo
  2^256, with EVM conventions for a zero divisor; ADDMOD and MULMOD do not wrap in between; the comparisons SLT and
  SGT and the shift SAR read the words as signed. Four functions do so only with the stated restriction: EXP gives 0 for 0
  to the 0; SHL has no result when the host refuses the memory for the unmasked shift of a word other than 0; SDIV truncates
  the signed quotient when the dividend is below 2^53 in size, and SMOD is the remainder with the sign of the dividend when
  the remainder is below 2^53 in size, because beyond that a double rounds them.\<close>

theorem u256_word_semantics:
  "evm_u256_add a b = uint (u256 a + u256 b)
   \<and> evm_u256_mul a b = uint (u256 a * u256 b)
   \<and> evm_u256_sub a b = uint (u256 a - u256 b)
   \<and> evm_u256_div a b = uint (u256 a div u256 b)
   \<and> evm_u256_mod a b = (if u256 b = 0 then 0 else uint (u256 a mod u256 b))
   \<and> evm_u256_addmod a b n = (if u256 n = 0 then 0 else (uint (u256 a) + uint (u256 b)) mod uint (u256 n))
   \<and> evm_u256_mulmod a b n = (if u256 n = 0 then 0 else (uint (u256 a) * uint (u256 b)) mod uint (u256 n))
   \<and> evm_u256_exp a b = (if u256 a = 0 \<and> u256 b = 0 then 0 else uint (u256 a ^ unat (u256 b)))
   \<and> evm_u256_and a b = uint (u256 a AND u256 b)
   \<and> evm_u256_or a b = uint (u256 a OR u256 b)
   \<and> evm_u256_xor a b = uint (u256 a XOR u256 b)
   \<and> evm_u256_not a = uint (NOT (u256 a))
   \<and> evm_u256_shr a b = uint (drop_bit (unat (u256 b)) (u256 a))
   \<and> evm_u256_sar a b = uint (signed_drop_bit (unat (u256 b)) (u256 a))
   \<and> evm_u256_shl alloc a b = (if u256 a = 0 \<or> alloc ((uint (u256 b) + 256) div 8) then Some (uint (push_bit (unat (u256 b)) (u256 a))) else None)
   \<and> evm_u256_iszero a = of_bool (u256 a = 0)
   \<and> evm_u256_eq a b = of_bool (u256 a = u256 b)
   \<and> evm_u256_lt a b = of_bool (u256 a < u256 b)
   \<and> evm_u256_gt a b = of_bool (u256 a > u256 b)
   \<and> evm_u256_slt a b = of_bool (u256 a <s u256 b)
   \<and> evm_u256_sgt a b = of_bool (u256 b <s u256 a)
   \<and> evm_u256_byte a b = (if 32 \<le> uint (u256 a) then 0 else uint (u256 b) div 256 ^ nat (31 - uint (u256 a)) mod 256)
   \<and> evm_u256_signextend a b = (if 32 \<le> uint (u256 a) then uint (u256 b) else uint (u256 (signed_take_bit (nat (8 * uint (u256 a) + 7)) (uint (u256 b)))))
   \<and> (u256 b = 0 \<longrightarrow> evm_u256_sdiv a b = 0 \<and> evm_u256_smod a b = 0)
   \<and> (u256 b \<noteq> 0 \<and> \<bar>sint (u256 a)\<bar> < 2 ^ 53 \<longrightarrow>
        evm_u256_sdiv a b = uint (u256 (trunc_div (sint (u256 a)) (sint (u256 b)))))
   \<and> (u256 b \<noteq> 0 \<and> \<bar>sint (u256 a)\<bar> mod \<bar>sint (u256 b)\<bar> < 2 ^ 53 \<longrightarrow>
        evm_u256_smod a b = uint (u256 (trunc_mod (sint (u256 a)) (sint (u256 b)))))"
  by (intro conjI)
    (rule sdiv_of_zero sdiv_of_small smod_of_small u256_add u256_mul u256_sub u256_div u256_mod u256_addmod u256_exp u256_and u256_or u256_xor u256_not u256_shr
      u256_sar u256_shl u256_compare u256_slt u256_sgt u256_byte_word u256_signextend)+

lemma u256_word_semantics_witness:
  "uint (u256 (evm_u256_sdiv (- 7) 2)) = 2 ^ 256 - 3 \<and> uint (u256 (evm_u256_smod (- 7) 2)) = 2 ^ 256 - 1"
proof -
  have s: "sint (u256 (- 7)) = - 7" "sint (u256 2) = 2" "u256 2 \<noteq> 0" by code_simp+
  have "evm_u256_sdiv (- 7) 2 = uint (u256 (trunc_div (- 7) 2))" "evm_u256_smod (- 7) 2 = uint (u256 (trunc_mod (- 7) 2))"
    using u256_word_semantics [of "- 7" 2 0 "\<lambda>_. True"] s by simp_all
  moreover have "uint (u256 (- 3)) = 2 ^ 256 - 3" "uint (u256 (- 1)) = 2 ^ 256 - 1" by code_simp+
  ultimately show ?thesis by (simp add: trunc_div_def trunc_mod_def)
qed

text \<open>The convention for 0 to the 0, which is 1 in the EVM.\<close>

lemma exp_zero_zero: "evm_u256_exp 0 0 = 0" "uint (u256 0 ^ unat (u256 0)) = 1"
  by (simp_all add: u256_exp)

end
