(* ===== verification/EvmBytes.thy ===== *)
theory EvmBytes
  imports Bytes Uint256
begin

text \<open>
  What the interpreter does with byte strings: the pure Python bodies of the \<open>evm_*\<close> byte functions of
  \<open>src/crypto/native.py\<close> (memory, calldata and push data, the table of jump destinations, the scan for
  unsupported opcodes, addresses, the gas of a nested call) and the static check of
  \<open>src/execution/evm_bytecode_validator.py\<close>. Offsets and sizes are words of the stack, so they are
  non-negative. The second half characterises the positions of a code that are instructions: the table
  marks exactly the JUMPDESTs among them, and a code without issues has only supported opcodes there.
\<close>

section \<open>Memory, calldata and push data\<close>

text \<open>\<open>data[a:a + n] if a < len(data) else b""\<close>, padded on the right with zeros to \<open>n\<close> bytes.\<close>

definition padded_slice :: "byte list \<Rightarrow> int \<Rightarrow> int \<Rightarrow> byte list" where
  "padded_slice data a n =
     (let chunk = (if a < int (length data) then take (nat n) (drop (nat a) data) else [])
      in chunk @ replicate (nat n - length chunk) 0)"

definition evm_memory_slice :: "byte list \<Rightarrow> int \<Rightarrow> int \<Rightarrow> byte list" where
  "evm_memory_slice memory offset n = padded_slice memory offset n"

definition evm_memory_read_word :: "byte list \<Rightarrow> int \<Rightarrow> int" where
  "evm_memory_read_word memory offset = be_value (padded_slice memory offset 32)"

definition evm_calldataload :: "byte list \<Rightarrow> int \<Rightarrow> int" where
  "evm_calldataload calldata offset = be_value (padded_slice calldata offset 32)"

text \<open>The writing loops: byte \<open>i\<close> goes to \<open>offset + i\<close>, unless that is past the end of the memory.\<close>

primrec write_bytes :: "byte list \<Rightarrow> nat \<Rightarrow> byte list \<Rightarrow> byte list" where
  "write_bytes memory idx [] = memory"
| "write_bytes memory idx (b # bs) =
     write_bytes (if idx < length memory then memory[idx := b] else memory) (Suc idx) bs"

definition evm_u256_bytes :: "int \<Rightarrow> byte list" where
  "evm_u256_bytes value = be_bytes 32 (value AND EVM_U256_MASK)"

definition evm_memory_write_word :: "byte list \<Rightarrow> int \<Rightarrow> int \<Rightarrow> byte list" where
  "evm_memory_write_word memory offset value = write_bytes memory (nat offset) (evm_u256_bytes value)"

definition evm_memory_write_byte :: "byte list \<Rightarrow> int \<Rightarrow> int \<Rightarrow> byte list" where
  "evm_memory_write_byte memory offset value =
     (if offset < int (length memory) then memory[nat offset := word_of_int (value AND 255)] else memory)"

definition evm_memory_copy :: "byte list \<Rightarrow> int \<Rightarrow> byte list \<Rightarrow> int \<Rightarrow> int \<Rightarrow> byte list" where
  "evm_memory_copy memory dest src src_offset n =
     write_bytes memory (nat dest)
       (map (\<lambda>i. if src_offset + int i < int (length src) then src ! nat (src_offset + int i) else 0) [0..<nat n])"

definition evm_read_push :: "byte list \<Rightarrow> nat \<Rightarrow> nat \<Rightarrow> int" where
  "evm_read_push bytecode pc n =
     (let start = pc + 1; chunk = take (min (start + n) (length bytecode) - start) (drop start bytecode)
      in be_value (chunk @ replicate (n - length chunk) 0))"

definition evm_keccak256_memory :: "(byte list \<Rightarrow> byte list) \<Rightarrow> byte list \<Rightarrow> int \<Rightarrow> int \<Rightarrow> byte list" where
  "evm_keccak256_memory keccak memory offset n = keccak (padded_slice memory offset n)"

section \<open>Jump destinations and the scan\<close>

text \<open>The position of the instruction after the one at \<open>pc\<close>, push data skipped.\<close>

definition next_pc :: "byte list \<Rightarrow> nat \<Rightarrow> nat" where
  "next_pc bytecode pc =
     (let op = unat (bytecode ! pc) in if 0x60 \<le> op \<and> op \<le> 0x7F then pc + (1 + (op - 0x5F)) else pc + 1)"

lemma next_pc_greater: "pc < next_pc bytecode pc"
  by (auto simp: next_pc_def Let_def)

function jumpdest_loop :: "byte list \<Rightarrow> byte list \<Rightarrow> nat \<Rightarrow> byte list" where
  "jumpdest_loop bytecode table pc =
     (if pc < length bytecode then
        (let table = (if unat (bytecode ! pc) = 0x5B
                      then table[pc div 8 := (table ! (pc div 8)) OR push_bit (pc mod 8) 1] else table)
         in jumpdest_loop bytecode table (next_pc bytecode pc))
      else table)"
  by auto
termination
  by (relation "measure (\<lambda>(bytecode, table, pc). length bytecode - pc)") (auto simp: diff_less_mono2 next_pc_greater)

definition evm_build_jumpdest_table :: "byte list \<Rightarrow> byte list" where
  "evm_build_jumpdest_table bytecode = jumpdest_loop bytecode (replicate ((length bytecode + 7) div 8) 0) 0"

definition evm_is_jumpdest :: "byte list \<Rightarrow> int \<Rightarrow> nat \<Rightarrow> bool" where
  "evm_is_jumpdest table dest bytecode_len =
     (if dest < 0 \<or> int bytecode_len \<le> dest then False
      else drop_bit (nat dest mod 8) (table ! (nat dest div 8)) AND 1 \<noteq> 0)"

definition EVM_SUPPORTED_SINGLE_OPCODES :: "nat list" where
  "EVM_SUPPORTED_SINGLE_OPCODES =
     [0x00, 0x01, 0x02, 0x03, 0x04, 0x05, 0x06, 0x07, 0x08, 0x09, 0x0A, 0x0B,
      0x10, 0x11, 0x12, 0x13, 0x14, 0x15, 0x16, 0x17, 0x18, 0x19, 0x1A, 0x1B, 0x1C, 0x1D,
      0x20,
      0x30, 0x31, 0x32, 0x33, 0x34, 0x35, 0x36, 0x37, 0x38, 0x39, 0x3A,
      0x3B, 0x3C, 0x3D, 0x3E, 0x3F, 0x40, 0x41, 0x42, 0x43, 0x44, 0x45, 0x46, 0x47, 0x48,
      0x49, 0x4A,
      0x50, 0x51, 0x52, 0x53, 0x54, 0x55, 0x56, 0x57, 0x58, 0x59, 0x5A, 0x5B,
      0x5C, 0x5D, 0x5E, 0x5F,
      0xA0, 0xA1, 0xA2, 0xA3, 0xA4,
      0xF0, 0xF1, 0xF2, 0xF3, 0xF4, 0xF5, 0xFA, 0xFD, 0xFE, 0xFF]"

definition evm_opcode_supported :: "nat \<Rightarrow> bool" where
  "evm_opcode_supported op =
     (if (0x60 \<le> op \<and> op \<le> 0x7F) \<or> (0x80 \<le> op \<and> op \<le> 0x8F) \<or> (0x90 \<le> op \<and> op \<le> 0x9F)
         \<or> (0xA0 \<le> op \<and> op \<le> 0xA4) then True
      else op \<in> set EVM_SUPPORTED_SINGLE_OPCODES)"

function scan_loop :: "byte list \<Rightarrow> nat \<Rightarrow> (nat \<times> nat) list" where
  "scan_loop bytecode pc =
     (if pc < length bytecode then
        (let op = unat (bytecode ! pc); rest = scan_loop bytecode (next_pc bytecode pc)
         in if evm_opcode_supported op then rest else (pc, op) # rest)
      else [])"
  by auto
termination
  by (relation "measure (\<lambda>(bytecode, pc). length bytecode - pc)") (auto simp: diff_less_mono2 next_pc_greater)

declare jumpdest_loop.simps [simp del] scan_loop.simps [simp del]

definition evm_scan_bytecode :: "byte list \<Rightarrow> (nat \<times> nat) list" where
  "evm_scan_bytecode bytecode = scan_loop bytecode 0"

section \<open>Addresses and nested gas\<close>

text \<open>\<open>hex(n)[2:]\<close>, and \<open>rjust\<close> with zeros.\<close>

fun hex_digits :: "nat \<Rightarrow> string" where
  "hex_digits n = (if n < 16 then [hex_digit n] else hex_digits (n div 16) @ [hex_digit (n mod 16)])"

declare hex_digits.simps [simp del]

definition rjust0 :: "nat \<Rightarrow> string \<Rightarrow> string" where
  "rjust0 n s = replicate (n - length s) (CHR ''0'') @ s"

definition evm_word_to_address :: "int \<Rightarrow> string" where
  "evm_word_to_address word =
     (let word = word AND EVM_U256_MASK
      in ''0x'' @ rjust0 40 (hex_digits (nat (word AND (push_bit 160 1 - 1)))))"

definition evm_call_gas_cap :: "int \<Rightarrow> int \<Rightarrow> int" where
  "evm_call_gas_cap remaining requested =
     (let remaining = max 0 remaining; requested = max 0 requested; cap = remaining * 63 div 64
      in if requested \<le> 0 then cap else min requested cap)"

definition evm_gas_remaining :: "int \<Rightarrow> int \<Rightarrow> int" where
  "evm_gas_remaining gas_limit gas_used = (let l = max 0 gas_limit; u = max 0 gas_used in max 0 (l - u))"

text \<open>\<open>None\<close> when it raises \<open>ValueError\<close>: the kind is none of the four.\<close>

record gas_plan =
  gp_kind :: string
  gp_remaining :: int
  gp_requested :: int
  gp_base_cap :: int
  gp_stipend_applied :: bool
  gp_call_gas :: int

definition evm_plan_nested_call_gas :: "int \<Rightarrow> int \<Rightarrow> int \<Rightarrow> string \<Rightarrow> gas_plan option" where
  "evm_plan_nested_call_gas remaining requested value_wei kind =
     (let kind_n = py_lower (py_strip kind)
      in if kind_n \<notin> {''call'', ''callcode'', ''delegatecall'', ''staticcall''} then None
         else (let remaining = max 0 remaining; requested = max 0 requested;
                   base_cap = (remaining * 63) div 64;
                   base_cap = (if requested > 0 then min base_cap requested else base_cap);
                   stipend_applied = (value_wei > 0 \<and> kind_n \<in> {''call'', ''callcode''});
                   call_gas = (if stipend_applied then min remaining (base_cap + 2300) else base_cap)
               in Some \<lparr>gp_kind = kind_n, gp_remaining = remaining, gp_requested = requested,
                    gp_base_cap = base_cap, gp_stipend_applied = stipend_applied, gp_call_gas = call_gas\<rparr>))"

section \<open>The instructions of a code\<close>

text \<open>The positions execution can reach from \<open>pc\<close> by stepping over instructions.\<close>

inductive reach_instr :: "byte list \<Rightarrow> nat \<Rightarrow> nat \<Rightarrow> bool" for code where
  reach_here: "reach_instr code pc pc"
| reach_next: "pc < length code \<Longrightarrow> reach_instr code (next_pc code pc) q \<Longrightarrow> reach_instr code pc q"

abbreviation instr_start :: "byte list \<Rightarrow> nat \<Rightarrow> bool" where
  "instr_start code \<equiv> reach_instr code 0"

lemma reach_ge: "reach_instr code pc q \<Longrightarrow> pc \<le> q"
  by (induction rule: reach_instr.induct) (auto intro: order.strict_implies_order less_le_trans next_pc_greater)

lemma reach_step: "reach_instr code pc q \<Longrightarrow> q < length code \<Longrightarrow> reach_instr code pc (next_pc code q)"
  by (induction rule: reach_instr.induct) (auto intro: reach_instr.intros)

lemma reach_unfold: "reach_instr code pc q \<longleftrightarrow> q = pc \<or> (pc < length code \<and> reach_instr code (next_pc code pc) q)"
  by (auto elim: reach_instr.cases intro: reach_instr.intros)

lemma reach_not_here: "reach_instr code (next_pc code pc) q \<Longrightarrow> q \<noteq> pc"
  using reach_ge next_pc_greater [of pc code] by fastforce

definition table_bit :: "byte list \<Rightarrow> nat \<Rightarrow> bool" where
  "table_bit table i = bit (table ! (i div 8)) (i mod 8)"

lemma table_bit_set:
  assumes "pc div 8 < length table"
  shows "table_bit (table[pc div 8 := (table ! (pc div 8)) OR push_bit (pc mod 8) 1]) i
    = (table_bit table i \<or> i = pc)"
proof (cases "i div 8 = pc div 8")
  case True
  then have "i = pc \<longleftrightarrow> i mod 8 = pc mod 8"
    by (metis div_mult_mod_eq)
  moreover have "bit (push_bit n 1 :: byte) m = (m = n \<and> n < 8)" for n m
    by (auto simp: bit_exp_iff)
  ultimately show ?thesis
    using True assms by (auto simp: table_bit_def bit_or_iff)
qed (auto simp: table_bit_def nth_list_update)

lemma jumpdest_loop_length: "length (jumpdest_loop code table pc) = length table"
  by (induction code table pc rule: jumpdest_loop.induct) (subst jumpdest_loop.simps, simp add: Let_def)

lemma jumpdest_loop_bit:
  "length code \<le> 8 * length table \<Longrightarrow>
   table_bit (jumpdest_loop code table pc) i
     = (table_bit table i \<or> (reach_instr code pc i \<and> i < length code \<and> unat (code ! i) = 0x5B))"
proof (induction code table pc rule: jumpdest_loop.induct)
  case (1 code table pc)
  show ?case
  proof (cases "pc < length code")
    case True
    then have "pc div 8 < length table" using 1(2) by linarith
    then show ?thesis
      using True 1 reach_not_here [of code pc i]
      by (subst jumpdest_loop.simps, subst reach_unfold) (auto simp: Let_def table_bit_set simp del: push_bit_of_1)
  next
    case False
    then show ?thesis by (subst jumpdest_loop.simps) (use reach_ge in fastforce)
  qed
qed

lemma is_jumpdest_iff:
  "evm_is_jumpdest (evm_build_jumpdest_table code) dest (length code)
     = (0 \<le> dest \<and> nat dest < length code \<and> instr_start code (nat dest) \<and> unat (code ! nat dest) = 0x5B)"
proof (cases "0 \<le> dest \<and> nat dest < length code")
  case True
  have bits: "(drop_bit n w AND 1 \<noteq> 0) = bit w n" for w :: byte and n
    by (simp add: bit_iff_odd_drop_bit and_one_eq odd_iff_mod_2_eq_one)
  have "\<not> table_bit (replicate ((length code + 7) div 8) 0) (nat dest)"
    using True by (simp add: table_bit_def) (subst nth_replicate; linarith?; simp)
  then show ?thesis
    using True jumpdest_loop_bit [of code "replicate ((length code + 7) div 8) 0" 0 "nat dest"]
    by (auto simp: evm_is_jumpdest_def evm_build_jumpdest_table_def bits simp flip: table_bit_def)
qed (auto simp: evm_is_jumpdest_def)

lemma scan_loop_iff:
  "(q, op) \<in> set (scan_loop code pc)
     \<longleftrightarrow> reach_instr code pc q \<and> q < length code \<and> op = unat (code ! q) \<and> \<not> evm_opcode_supported op"
proof (induction code pc rule: scan_loop.induct)
  case (1 code pc)
  show ?case
  proof (cases "pc < length code")
    case True
    then show ?thesis
      using 1 by (subst scan_loop.simps, subst reach_unfold) (auto simp: Let_def)
  next
    case False
    then show ?thesis by (subst scan_loop.simps) (use reach_ge in fastforce)
  qed
qed

lemma scan_clean: "evm_scan_bytecode code = [] \<Longrightarrow> instr_start code q \<Longrightarrow> q < length code \<Longrightarrow> evm_opcode_supported (unat (code ! q))"
  using scan_loop_iff [of q "unat (code ! q)" code 0] by (auto simp: evm_scan_bytecode_def)

section \<open>Reading what was written\<close>

lemma length_write_bytes [simp]: "length (write_bytes memory idx bs) = length memory"
  by (induction bs arbitrary: memory idx) simp_all

lemma nth_write_bytes:
  "i < length memory \<Longrightarrow>
   write_bytes memory idx bs ! i = (if idx \<le> i \<and> i < idx + length bs then bs ! (i - idx) else memory ! i)"
proof (induction bs arbitrary: memory idx)
  case (Cons b bs)
  then show ?case by (auto simp: nth_Cons' nth_list_update)
qed auto

lemma padded_slice_inside:
  "0 \<le> a \<Longrightarrow> 0 \<le> n \<Longrightarrow> nat a + nat n \<le> length data \<Longrightarrow> padded_slice data a n = take (nat n) (drop (nat a) data)"
  by (cases "n = 0") (auto simp: padded_slice_def)

lemma length_padded_slice [simp]: "length (padded_slice data a n) = nat n"
  by (simp add: padded_slice_def Let_def)

lemma take_drop_write:
  "idx + length bs \<le> length memory \<Longrightarrow> take (length bs) (drop idx (write_bytes memory idx bs)) = bs"
  by (rule nth_equalityI) (simp_all add: nth_write_bytes)

lemma take_drop_write_other:
  "j + n \<le> idx \<or> idx + length bs \<le> j \<Longrightarrow> j + n \<le> length memory
   \<Longrightarrow> take n (drop j (write_bytes memory idx bs)) = take n (drop j memory)"
  by (rule nth_equalityI) (auto simp: nth_write_bytes)

lemma read_write_word:
  assumes "0 \<le> offset" "nat offset + 32 \<le> length memory"
  shows "evm_memory_read_word (evm_memory_write_word memory offset v) offset = v AND EVM_U256_MASK"
proof -
  have "take 32 (drop (nat offset) (evm_memory_write_word memory offset v)) = evm_u256_bytes v"
    using take_drop_write [of "nat offset" "evm_u256_bytes v" memory] assms
    by (simp add: evm_memory_write_word_def evm_u256_bytes_def)
  then have "evm_memory_read_word (evm_memory_write_word memory offset v) offset = be_value (evm_u256_bytes v)"
    using assms by (simp add: evm_memory_read_word_def padded_slice_inside evm_memory_write_word_def)
  moreover have "(v AND EVM_U256_MASK) mod 256 ^ 32 = v AND EVM_U256_MASK"
    using and_mask_range [of v] by (intro mod_pos_pos_trivial) simp_all
  ultimately show ?thesis by (simp add: evm_u256_bytes_def)
qed

lemma read_write_other:
  assumes "0 \<le> offset" "0 \<le> j" "nat j + 32 \<le> length memory" "j + 32 \<le> offset \<or> offset + 32 \<le> j"
  shows "evm_memory_read_word (evm_memory_write_word memory offset v) j = evm_memory_read_word memory j"
proof -
  have "nat j + 32 \<le> nat offset \<or> nat offset + length (evm_u256_bytes v) \<le> nat j"
    using assms by (auto simp: evm_u256_bytes_def nat_le_iff)
  from take_drop_write_other [OF this assms(3)] show ?thesis
    using assms by (simp add: evm_memory_read_word_def padded_slice_inside evm_memory_write_word_def)
qed

lemma be_value_word: "length bs \<le> 32 \<Longrightarrow> be_value bs < 2 ^ 256"
proof -
  assume "length bs \<le> 32"
  then have "(256 :: int) ^ length bs \<le> 256 ^ 32" by (intro power_increasing) simp_all
  then show ?thesis using be_value_less [of bs] by (simp add: order.strict_trans2)
qed

end
