(* ===== verification/Evm.thy ===== *)
theory Evm
  imports EvmBytes
begin

text \<open>
  The contract interpreter, \<open>src/evm_interpreter.py\<close>: \<open>EVMContext\<close> is \<open>evm_ctx\<close>, the attributes of \<open>EVM\<close> are the
  record \<open>evm\<close> (the stack with its top first, the dictionaries as maps), a method is a state transformer that
  may raise. The callables of the context (balances, code, nested calls, creation, logs) are functions of the
  state of the host, \<open>'h\<close>, and may raise. What the module takes from outside is the record \<open>evm_rt\<close>: the two
  hashes, whether the host grants an allocation, and the two segment runners of the compiled kernel, where the
  kernel has them. \<open>execute_bytecode\<close> returns \<open>None\<close> when its loop does not end.
\<close>

section \<open>Context, runtime and state\<close>

datatype evm_error = EvmRaise string | EvmMemory | EvmIndex | EvmHost string

type_synonym ('h, 'a) host_fn = "'h \<Rightarrow> (string + 'a) \<times> 'h"

record call_out =
  co_gas_used :: int
  co_return_data :: "byte list"
  co_storage :: "(int \<rightharpoonup> int) option"
  co_success :: bool
  co_reverted :: bool
  co_address :: string

record 'h evm_ctx =
  cx_caller :: string
  cx_origin :: string
  cx_address :: string
  cx_calldata :: "byte list"
  cx_value :: int
  cx_block_number :: int
  cx_timestamp :: int
  cx_chain_id :: int
  cx_base_fee :: int
  cx_gas_price :: int
  cx_difficulty :: int
  cx_coinbase :: string
  cx_blob_base_fee :: int
  cx_blob_hashes :: "int list"
  cx_balance_of :: "(string \<Rightarrow> ('h, int) host_fn) option"
  cx_code_size_of :: "(string \<Rightarrow> ('h, int) host_fn) option"
  cx_code_copy_of :: "(string \<Rightarrow> int \<Rightarrow> int \<Rightarrow> ('h, byte list) host_fn) option"
  cx_block_hash_of :: "(int \<Rightarrow> ('h, int) host_fn) option"
  cx_emit_log :: "(nat \<Rightarrow> int list \<Rightarrow> byte list \<Rightarrow> ('h, unit) host_fn) option"
  cx_selfdestruct :: "(string \<Rightarrow> ('h, unit) host_fn) option"
  cx_contract_call :: "(string \<Rightarrow> byte list \<Rightarrow> int \<Rightarrow> int \<Rightarrow> bool \<Rightarrow> bool \<Rightarrow> bool \<Rightarrow> ('h, call_out) host_fn) option"
  cx_contract_create :: "(byte list \<Rightarrow> int \<Rightarrow> int option \<Rightarrow> ('h, call_out) host_fn) option"
  cx_read_only :: bool

record 'h evm =
  ev_stack :: "int list"
  ev_memory :: "byte list"
  ev_storage :: "int \<rightharpoonup> int"
  ev_transient :: "int \<rightharpoonup> int"
  ev_gas_used :: int
  ev_gas_limit :: int
  ev_pc :: nat
  ev_running :: bool
  ev_reverted :: bool
  ev_return_data :: "byte list"
  ev_trace :: "(nat \<times> string \<times> nat) list"
  ev_bytecode :: "byte list"
  ev_logs :: "(string list \<times> string) list"
  ev_host :: 'h

type_synonym ('h, 'a) evmM = "('h evm, evm_error, 'a) exs"

text \<open>What a segment of the compiled kernel reports; it changes the storage and the host in place.\<close>

record segment =
  sg_pc :: nat
  sg_gas_used :: int
  sg_running :: bool
  sg_reverted :: bool
  sg_return_data :: "byte list"
  sg_stack :: "int list"
  sg_memory :: "byte list"
  sg_logs :: "(string list \<times> string) list"
  sg_stop_reason :: string
  sg_error :: string

type_synonym 'h kernel = "byte list \<Rightarrow> byte list \<Rightarrow> ('h, segment) evmM"

record 'h evm_rt =
  rt_sha256_hex :: "byte list \<Rightarrow> string"
  rt_keccak :: "byte list \<Rightarrow> byte list"
  rt_alloc :: "int \<Rightarrow> bool"
  rt_native_required :: bool
  rt_until_halt :: "'h kernel option"
  rt_pure :: "'h kernel option"

section \<open>Addresses as integers\<close>

text \<open>\<open>int(s, 16)\<close>.\<close>

fun hex_digits_val :: "bool \<Rightarrow> int \<Rightarrow> string \<Rightarrow> int option" where
  "hex_digits_val prev acc [] = (if prev then Some acc else None)"
| "hex_digits_val prev acc (c # cs) =
     (case hex_val c of
        Some d \<Rightarrow> hex_digits_val True (16 * acc + int d) cs
      | None \<Rightarrow> if c = CHR ''_'' \<and> prev then hex_digits_val False acc cs else None)"

definition hex_body :: "string \<Rightarrow> int option" where
  "hex_body s =
     (case s of
        a # b # c # cs \<Rightarrow>
          if a = CHR ''0'' \<and> (b = CHR ''x'' \<or> b = CHR ''X'')
          then (if c = CHR ''_'' then hex_digits_val False 0 cs else hex_digits_val False 0 (c # cs))
          else hex_digits_val False 0 s
      | _ \<Rightarrow> hex_digits_val False 0 s)"

definition int16_of_str :: "string \<Rightarrow> int option" where
  "int16_of_str s =
     (case py_strip s of
        [] \<Rightarrow> None
      | c # cs \<Rightarrow> if c = CHR ''+'' then hex_body cs
                 else if c = CHR ''-'' then map_option uminus (hex_body cs) else hex_body (c # cs))"

definition addr_int :: "'h evm_rt \<Rightarrow> string \<Rightarrow> ('h, int) evmM" where
  "addr_int rt who =
     (let raw = py_lower (remove_0x who)
      in if raw = [] then returnM 0
         else (case int16_of_str (take 40 raw) of
             Some i \<Rightarrow> returnM i
           | None \<Rightarrow> (case int16_of_str (take 16 (rt_sha256_hex rt (utf8 who))) of
                 Some i \<Rightarrow> returnM i
               | None \<Rightarrow> raiseM (EvmRaise ''invalid literal for int() with base 16''))))"

section \<open>Gas\<close>

definition opcode_names :: "(nat \<times> string) list" where
  "opcode_names =
     [(0x00, ''STOP''), (0x01, ''ADD''), (0x02, ''MUL''), (0x03, ''SUB''), (0x04, ''DIV''),
      (0x05, ''SDIV''), (0x06, ''MOD''), (0x07, ''SMOD''), (0x08, ''ADDMOD''), (0x09, ''MULMOD''),
      (0x0A, ''EXP''), (0x0B, ''SIGNEXTEND''),
      (0x10, ''AND''), (0x11, ''OR''), (0x12, ''XOR''), (0x13, ''SGT''), (0x14, ''EQ''),
      (0x15, ''ISZERO''), (0x16, ''LT''), (0x17, ''GT''), (0x18, ''SLT''), (0x19, ''NOT''), (0x1A, ''BYTE''),
      (0x1B, ''SHL''), (0x1C, ''SHR''), (0x1D, ''SAR''), (0x20, ''SHA3''), (0x30, ''ADDRESS''),
      (0x31, ''BALANCE''), (0x32, ''ORIGIN''), (0x33, ''CALLER''), (0x34, ''CALLVALUE''),
      (0x35, ''CALLDATALOAD''), (0x36, ''CALLDATASIZE''), (0x37, ''CALLDATACOPY''),
      (0x38, ''CODESIZE''), (0x39, ''CODECOPY''), (0x3A, ''GASPRICE''), (0x3B, ''EXTCODESIZE''), (0x3C, ''EXTCODECOPY''),
      (0x3F, ''EXTCODEHASH''),
      (0x40, ''BLOCKHASH''),
      (0x3D, ''RETURNDATASIZE''), (0x3E, ''RETURNDATACOPY''),
      (0x42, ''TIMESTAMP''), (0x43, ''NUMBER''), (0x41, ''COINBASE''), (0x44, ''DIFFICULTY''),
      (0x45, ''GASLIMIT''), (0x46, ''CHAINID''),
      (0x47, ''SELFBALANCE''), (0x48, ''BASEFEE''), (0x49, ''BLOBHASH''), (0x4A, ''BLOBBASEFEE''),
      (0x50, ''POP''), (0x51, ''MLOAD''),
      (0x52, ''MSTORE''), (0x53, ''MSTORE8''), (0x54, ''SLOAD''), (0x55, ''SSTORE''),
      (0x56, ''JUMP''), (0x57, ''JUMPI''), (0x58, ''PC''), (0x59, ''MSIZE''), (0x5A, ''GAS''), (0x5B, ''JUMPDEST''),
      (0x5C, ''TLOAD''), (0x5D, ''TSTORE''), (0x5E, ''MCOPY''), (0x5F, ''PUSH0''),
      (0xA0, ''LOG0''), (0xFF, ''SELFDESTRUCT''),
      (0xF0, ''CREATE''), (0xF5, ''CREATE2''),
      (0xF1, ''CALL''), (0xF2, ''CALLCODE''), (0xF4, ''DELEGATECALL''), (0xFA, ''STATICCALL''),
      (0xF3, ''RETURN''), (0xFD, ''REVERT''), (0xFE, ''INVALID'')]"

definition hex02 :: "nat \<Rightarrow> string" where
  "hex02 op = [hex_digit (op div 16), hex_digit (op mod 16)]"

definition opcode_name :: "nat \<Rightarrow> string" where
  "opcode_name op =
     (if 0x60 \<le> op \<and> op \<le> 0x7F then ''PUSH'' @ nat_digits (op - 0x5F)
      else if 0x80 \<le> op \<and> op \<le> 0x8F then ''DUP'' @ nat_digits (op - 0x7F)
      else if 0x90 \<le> op \<and> op \<le> 0x9F then ''SWAP'' @ nat_digits (op - 0x8F)
      else dget_or opcode_names op (''UNKNOWN_'' @ hex02 op))"

definition GAS_COSTS :: "(string \<times> int) list" where
  "GAS_COSTS =
     [(''STOP'', 0), (''ADD'', 3), (''MUL'', 5), (''SUB'', 3), (''DIV'', 5), (''MOD'', 5),
      (''SDIV'', 5), (''SMOD'', 5), (''ADDMOD'', 8), (''MULMOD'', 8), (''EXP'', 10), (''SIGNEXTEND'', 5),
      (''POP'', 2), (''MLOAD'', 3), (''MSTORE'', 3), (''MSTORE8'', 3),
      (''SLOAD'', 200), (''SSTORE'', 5000), (''JUMP'', 8), (''JUMPI'', 10),
      (''BALANCE'', 400), (''CALLER'', 2), (''ORIGIN'', 2), (''ADDRESS'', 2),
      (''TIMESTAMP'', 2), (''NUMBER'', 2), (''CALLVALUE'', 2),
      (''CALLDATALOAD'', 3), (''CALLDATASIZE'', 2), (''RETURNDATASIZE'', 2), (''RETURNDATACOPY'', 3),
      (''CODESIZE'', 2), (''CODECOPY'', 3), (''CHAINID'', 2), (''GASLIMIT'', 2), (''GAS'', 2), (''PUSH0'', 2),
      (''SHA3'', 30), (''RETURN'', 0), (''REVERT'', 0), (''JUMPDEST'', 1),
      (''AND'', 3), (''OR'', 3), (''XOR'', 3), (''NOT'', 3), (''LT'', 3), (''GT'', 3),
      (''EQ'', 3), (''ISZERO'', 3), (''BYTE'', 3), (''SHL'', 3), (''SHR'', 3), (''SLT'', 3), (''SGT'', 3), (''SAR'', 3),
      (''GASPRICE'', 2), (''EXTCODEHASH'', 700), (''COINBASE'', 2), (''DIFFICULTY'', 2),
      (''SELFBALANCE'', 5), (''BASEFEE'', 2), (''PC'', 2), (''MSIZE'', 2),
      (''TLOAD'', 100), (''TSTORE'', 100), (''MCOPY'', 3),
      (''BLOBHASH'', 3), (''BLOBBASEFEE'', 2),
      (''CALL'', 700), (''CALLCODE'', 700), (''DELEGATECALL'', 700), (''STATICCALL'', 700),
      (''BLOCKHASH'', 20),
      (''CREATE'', 32000), (''CREATE2'', 32000),
      (''EXTCODESIZE'', 700), (''EXTCODECOPY'', 700),
      (''LOG'', 375), (''SELFDESTRUCT'', 5000)]"

definition consume_gas :: "string \<Rightarrow> int \<Rightarrow> ('h, unit) evmM" where
  "consume_gas op extra =
     (let cost = dget_or GAS_COSTS op 3 + extra
      in bindM (getM id) (\<lambda>s.
         if ev_gas_used s + cost > ev_gas_limit s
         then raiseM (EvmRaise (''out_of_gas (used='' @ py_str_int (ev_gas_used s) @ '', need='' @ py_str_int cost @ '')''))
         else modM (\<lambda>s. s\<lparr>ev_gas_used := ev_gas_used s + cost\<rparr>)))"

definition charge_subcall_gas :: "int \<Rightarrow> ('h, unit) evmM" where
  "charge_subcall_gas sub_gas =
     (if sub_gas > 0
      then bindM (modM (\<lambda>s. s\<lparr>ev_gas_used := ev_gas_used s + sub_gas\<rparr>)) (\<lambda>_.
           bindM (getM id) (\<lambda>s.
           if ev_gas_used s > ev_gas_limit s
           then raiseM (EvmRaise (''out_of_gas (used='' @ py_str_int (ev_gas_used s) @ '', limit=''
                                   @ py_str_int (ev_gas_limit s) @ '')''))
           else returnM ()))
      else returnM ())"

section \<open>Stack and memory\<close>

definition push :: "int \<Rightarrow> ('h, unit) evmM" where
  "push value = modM (\<lambda>s. s\<lparr>ev_stack := (value AND EVM_U256_MASK) # ev_stack s\<rparr>)"

definition pop :: "('h, int) evmM" where
  "pop =
     bindM (getM ev_stack) (\<lambda>st.
     case st of
       [] \<Rightarrow> raiseM (EvmRaise ''stack underflow'')
     | x # st' \<Rightarrow> bindM (modM (\<lambda>s. s\<lparr>ev_stack := st'\<rparr>)) (\<lambda>_. returnM x))"

definition pop2 :: "(int \<Rightarrow> int \<Rightarrow> ('h, 'a) evmM) \<Rightarrow> ('h, 'a) evmM" where
  "pop2 f = bindM pop (\<lambda>a. bindM pop (\<lambda>b. f a b))"

definition pop3 :: "(int \<Rightarrow> int \<Rightarrow> int \<Rightarrow> ('h, 'a) evmM) \<Rightarrow> ('h, 'a) evmM" where
  "pop3 f = bindM pop (\<lambda>a. bindM pop (\<lambda>b. bindM pop (\<lambda>c. f a b c)))"

primrec pops :: "nat \<Rightarrow> ('h, int list) evmM" where
  "pops 0 = returnM []"
| "pops (Suc n) = bindM pop (\<lambda>x. bindM (pops n) (\<lambda>xs. returnM (x # xs)))"

text \<open>\<open>DUP\<close> and \<open>SWAP\<close>; \<open>stack[-n]\<close> is entry \<open>n - 1\<close> from the top.\<close>

definition stack_dup :: "nat \<Rightarrow> ('h, unit) evmM" where
  "stack_dup depth =
     bindM (getM ev_stack) (\<lambda>st.
     if depth = 0 \<or> depth > length st then raiseM (EvmRaise ''stack underflow'')
     else modM (\<lambda>s. s\<lparr>ev_stack := st ! (depth - 1) # st\<rparr>))"

definition stack_swap :: "nat \<Rightarrow> ('h, unit) evmM" where
  "stack_swap depth =
     bindM (getM ev_stack) (\<lambda>st.
     if depth = 0 \<or> depth \<ge> length st then raiseM (EvmRaise ''stack underflow'')
     else modM (\<lambda>s. s\<lparr>ev_stack := st[0 := st ! depth, depth := st ! 0]\<rparr>))"

definition mem_extend :: "'h evm_rt \<Rightarrow> int \<Rightarrow> int \<Rightarrow> ('h, unit) evmM" where
  "mem_extend rt offset n =
     (let need = offset + n
      in bindM (getM ev_memory) (\<lambda>m.
         if need > int (length m)
         then (if rt_alloc rt need
               then modM (\<lambda>s. s\<lparr>ev_memory := m @ replicate (nat (need - int (length m))) 0\<rparr>)
               else raiseM EvmMemory)
         else returnM ()))"

definition read_word :: "'h evm_rt \<Rightarrow> int \<Rightarrow> ('h, int) evmM" where
  "read_word rt offset =
     bindM (mem_extend rt offset 32) (\<lambda>_.
     bindM (getM ev_memory) (\<lambda>m. returnM (evm_memory_read_word m offset)))"

definition write_word :: "'h evm_rt \<Rightarrow> int \<Rightarrow> int \<Rightarrow> ('h, unit) evmM" where
  "write_word rt offset value =
     bindM (mem_extend rt offset 32) (\<lambda>_.
     modM (\<lambda>s. s\<lparr>ev_memory := evm_memory_write_word (ev_memory s) offset value\<rparr>))"

text \<open>\<open>self._mem_extend(dest, size); native.evm_memory_copy(self.memory, dest, src, offset, size)\<close>.\<close>

definition copy_to_memory :: "'h evm_rt \<Rightarrow> int \<Rightarrow> byte list \<Rightarrow> int \<Rightarrow> int \<Rightarrow> ('h, unit) evmM" where
  "copy_to_memory rt dest src offset n =
     bindM (mem_extend rt dest n) (\<lambda>_.
     modM (\<lambda>s. s\<lparr>ev_memory := evm_memory_copy (ev_memory s) dest src offset n\<rparr>))"

definition write_return_to_memory :: "'h evm_rt \<Rightarrow> int \<Rightarrow> int \<Rightarrow> byte list \<Rightarrow> ('h, unit) evmM" where
  "write_return_to_memory rt ret_offset ret_size data = copy_to_memory rt ret_offset data 0 ret_size"

text \<open>\<open>self._mem_extend(offset, size); native.evm_memory_slice(bytes(self.memory), offset, size)\<close>.\<close>

definition slice_memory :: "'h evm_rt \<Rightarrow> int \<Rightarrow> int \<Rightarrow> ('h, byte list) evmM" where
  "slice_memory rt offset n =
     bindM (mem_extend rt offset n) (\<lambda>_.
     bindM (getM ev_memory) (\<lambda>m. returnM (evm_memory_slice m offset n)))"

end
