(* ===== verification/EvmExec.thy ===== *)
theory EvmExec
  imports Evm
begin

text \<open>
  The instructions and the loop of \<open>src/evm_interpreter.py\<close>. The \<open>elif\<close> chain of
  \<open>_execute_bytecode_impl\<close> is cut into groups in the order of the opcodes; a group answers \<open>None\<close> for the
  opcodes of another, and \<open>evm_op\<close> ends with the \<open>else\<close> that raises. An instruction answers how the loop goes
  on: \<open>Next\<close> falls through to \<open>pc += 1\<close>, \<open>Continue\<close> and \<open>Break\<close> are the statements.
\<close>

datatype flow = Next | Continue | Break

section \<open>Calls out of the frame\<close>

definition host :: "('h, 'a) host_fn \<Rightarrow> ('h, 'a) evmM" where
  "host f = (\<lambda>s. case f (ev_host s) of
       (Inl msg, h) \<Rightarrow> (Inl (EvmHost msg), s\<lparr>ev_host := h\<rparr>)
     | (Inr a, h) \<Rightarrow> (Inr a, s\<lparr>ev_host := h\<rparr>))"

definition available_gas :: "int \<Rightarrow> ('h, int) evmM" where
  "available_gas requested =
     bindM (getM id) (\<lambda>s.
     let remaining = max 0 (ev_gas_limit s - ev_gas_used s)
     in returnM (if requested \<le> 0 \<or> requested > remaining then remaining else requested))"

definition revert_static_write :: "'h evm_ctx \<Rightarrow> ('h, bool) evmM" where
  "revert_static_write cx =
     (if \<not> cx_read_only cx then returnM False
      else bindM (modM (\<lambda>s. s\<lparr>ev_reverted := True, ev_running := False\<rparr>)) (\<lambda>_. returnM True))"

definition execute_call ::
  "'h evm_rt \<Rightarrow> 'h evm_ctx \<Rightarrow> int \<Rightarrow> int \<Rightarrow> int \<Rightarrow> int \<Rightarrow> int \<Rightarrow> int \<Rightarrow> int \<Rightarrow> bool \<Rightarrow> bool \<Rightarrow> bool \<Rightarrow> ('h, int) evmM" where
  "execute_call rt cx to_word value args_offset args_size ret_offset ret_size gas delegate static callcode =
     (let sticky_static = (static \<or> cx_read_only cx)
      in if cx_read_only cx \<and> value \<noteq> 0
         then bindM (modM (\<lambda>s. s\<lparr>ev_return_data := [], ev_reverted := True, ev_running := False\<rparr>)) (\<lambda>_. returnM 0)
         else case cx_contract_call cx of
           None \<Rightarrow> bindM (modM (\<lambda>s. s\<lparr>ev_return_data := []\<rparr>)) (\<lambda>_. returnM 0)
         | Some contract_call \<Rightarrow>
             bindM (slice_memory rt args_offset args_size) (\<lambda>call_data.
             let to_addr = evm_word_to_address to_word;
                 kind = (if sticky_static then ''staticcall'' else if delegate then ''delegatecall''
                         else if callcode then ''callcode'' else ''call'')
             in bindM (getM (\<lambda>s. max 0 (ev_gas_limit s - ev_gas_used s))) (\<lambda>remaining.
             case evm_plan_nested_call_gas remaining gas value kind of
               None \<Rightarrow> raiseM (EvmRaise ''kind must be call|callcode|delegatecall|staticcall'')
             | Some plan \<Rightarrow>
                 let call_gas = gp_call_gas plan
                 in bindM (host (contract_call to_addr call_data value call_gas delegate sticky_static callcode)) (\<lambda>out.
                 let sub_gas = min (co_gas_used out) call_gas
                 in bindM (charge_subcall_gas sub_gas) (\<lambda>_.
                 bindM (modM (\<lambda>s. s\<lparr>ev_return_data := co_return_data out\<rparr>)) (\<lambda>_.
                 bindM (case co_storage out of
                     Some st \<Rightarrow> if (delegate \<or> callcode) \<and> \<not> cx_read_only cx
                                then modM (\<lambda>s. s\<lparr>ev_storage := st\<rparr>) else returnM ()
                   | None \<Rightarrow> returnM ()) (\<lambda>_.
                 bindM (write_return_to_memory rt ret_offset ret_size (co_return_data out)) (\<lambda>_.
                 returnM (if co_success out \<and> \<not> co_reverted out then 1 else 0))))))))) "

definition execute_create :: "'h evm_rt \<Rightarrow> 'h evm_ctx \<Rightarrow> int \<Rightarrow> int \<Rightarrow> int \<Rightarrow> int option \<Rightarrow> ('h, int) evmM" where
  "execute_create rt cx value offset n salt =
     (case cx_contract_create cx of
        None \<Rightarrow> returnM 0
      | Some contract_create \<Rightarrow>
          bindM (slice_memory rt offset n) (\<lambda>init_code.
          bindM (host (contract_create init_code value salt)) (\<lambda>out.
          bindM (charge_subcall_gas (co_gas_used out)) (\<lambda>_.
          if \<not> co_success out \<or> co_reverted out then returnM 0
          else if co_address out = [] then returnM 0 else addr_int rt (co_address out)))))"

section \<open>The instructions\<close>

text \<open>Arithmetic, comparison and bitwise operations, and SHA3.\<close>

definition pushes :: "int \<Rightarrow> ('h, flow) evmM" where
  "pushes v = bindM (push v) (\<lambda>_. returnM Next)"

definition falls :: "('h, unit) evmM \<Rightarrow> ('h, flow) evmM" where
  "falls m = bindM m (\<lambda>_. returnM Next)"

definition arith2 :: "nat \<Rightarrow> (int \<Rightarrow> int \<Rightarrow> int) option" where
  "arith2 op =
     (if op = 0x01 then Some evm_u256_add
      else if op = 0x02 then Some evm_u256_mul
      else if op = 0x03 then Some evm_u256_sub
      else if op = 0x04 then Some evm_u256_div
      else if op = 0x05 then Some evm_u256_sdiv
      else if op = 0x06 then Some evm_u256_mod
      else if op = 0x07 then Some evm_u256_smod
      else if op = 0x0A then Some (\<lambda>exp base. evm_u256_exp base exp)
      else if op = 0x0B then Some evm_u256_signextend
      else if op = 0x10 then Some evm_u256_and
      else if op = 0x11 then Some evm_u256_or
      else if op = 0x12 then Some evm_u256_xor
      else if op = 0x13 then Some evm_u256_sgt
      else if op = 0x14 then Some evm_u256_eq
      else if op = 0x16 then Some evm_u256_lt
      else if op = 0x17 then Some evm_u256_gt
      else if op = 0x18 then Some evm_u256_slt
      else if op = 0x1A then Some evm_u256_byte
      else if op = 0x1C then Some (\<lambda>shift v. evm_u256_shr v shift)
      else if op = 0x1D then Some (\<lambda>shift v. evm_u256_sar v shift)
      else None)"

definition op_arith :: "'h evm_rt \<Rightarrow> nat \<Rightarrow> ('h, flow) evmM option" where
  "op_arith rt op =
     (case arith2 op of
        Some f \<Rightarrow> Some (pop2 (\<lambda>a b. pushes (f a b)))
      | None \<Rightarrow>
          if op = 0x08 then Some (pop3 (\<lambda>m b a. pushes (evm_u256_addmod a b m)))
          else if op = 0x09 then Some (pop3 (\<lambda>m b a. pushes (evm_u256_mulmod a b m)))
          else if op = 0x15 then Some (bindM pop (\<lambda>a. pushes (evm_u256_iszero a)))
          else if op = 0x19 then Some (bindM pop (\<lambda>a. pushes (evm_u256_not a)))
          else if op = 0x1B then
            Some (pop2 (\<lambda>shift v. case evm_u256_shl (rt_alloc rt) v shift of
                Some r \<Rightarrow> pushes r | None \<Rightarrow> raiseM EvmMemory))
          else if op = 0x20 then
            Some (pop2 (\<lambda>offset n.
              bindM (mem_extend rt offset n) (\<lambda>_.
              bindM (getM ev_memory) (\<lambda>m.
              pushes (be_value (evm_keccak256_memory (rt_keccak rt) m offset n))))))
          else None)"

text \<open>The environment: addresses, calldata, code, return data.\<close>

definition op_env :: "'h evm_rt \<Rightarrow> 'h evm_ctx \<Rightarrow> nat \<Rightarrow> ('h, flow) evmM option" where
  "op_env rt cx op =
     (if op = 0x30 then Some (bindM (addr_int rt (cx_address cx)) pushes)
      else if op = 0x31 then
        Some (bindM pop (\<lambda>who.
          let addr = rjust0 40 (hex_digits (nat who))
          in case cx_balance_of cx of
               None \<Rightarrow> pushes 0
             | Some balance_of \<Rightarrow> bindM (host (balance_of (''0x'' @ drop (length addr - 40) addr))) pushes))
      else if op = 0x32 then Some (bindM (addr_int rt (cx_origin cx)) pushes)
      else if op = 0x33 then Some (bindM (addr_int rt (cx_caller cx)) pushes)
      else if op = 0x34 then Some (pushes (cx_value cx))
      else if op = 0x35 then Some (bindM pop (\<lambda>i. pushes (evm_calldataload (cx_calldata cx) i)))
      else if op = 0x36 then Some (pushes (int (length (cx_calldata cx))))
      else if op = 0x37 then Some (pop3 (\<lambda>dest offset n. falls (copy_to_memory rt dest (cx_calldata cx) offset n)))
      else if op = 0x38 then Some (bindM (getM ev_bytecode) (\<lambda>c. pushes (int (length c))))
      else if op = 0x39 then
        Some (pop3 (\<lambda>dest offset n. bindM (getM ev_bytecode) (\<lambda>c. falls (copy_to_memory rt dest c offset n))))
      else if op = 0x3A then Some (pushes (cx_gas_price cx))
      else if op = 0x3F then
        Some (bindM pop (\<lambda>who.
          let addr = evm_word_to_address who
          in case (cx_code_size_of cx, cx_code_copy_of cx) of
               (Some code_size_of, Some code_copy_of) \<Rightarrow>
                 bindM (host (code_size_of addr)) (\<lambda>n.
                 if n > 0
                 then bindM (host (code_copy_of addr 0 n)) (\<lambda>code.
                      pushes (if code = [] then 0 else be_value (rt_keccak rt code)))
                 else pushes 0)
             | _ \<Rightarrow> pushes 0))
      else if op = 0x3D then Some (bindM (getM ev_return_data) (\<lambda>d. pushes (int (length d))))
      else if op = 0x3E then
        Some (pop3 (\<lambda>dest offset n. bindM (getM ev_return_data) (\<lambda>d. falls (copy_to_memory rt dest d offset n))))
      else if op = 0x3B then
        Some (bindM pop (\<lambda>who.
          case cx_code_size_of cx of
            None \<Rightarrow> pushes 0
          | Some code_size_of \<Rightarrow> bindM (host (code_size_of (evm_word_to_address who))) pushes))
      else if op = 0x3C then
        Some (pop2 (\<lambda>code_offset mem_offset. pop2 (\<lambda>n who.
          bindM (case cx_code_copy_of cx of
              None \<Rightarrow> returnM []
            | Some code_copy_of \<Rightarrow> host (code_copy_of (evm_word_to_address who) code_offset n)) (\<lambda>chunk.
          falls (copy_to_memory rt mem_offset chunk 0 n)))))
      else None)"

text \<open>The block.\<close>

definition op_block :: "'h evm_rt \<Rightarrow> 'h evm_ctx \<Rightarrow> nat \<Rightarrow> ('h, flow) evmM option" where
  "op_block rt cx op =
     (if op = 0x40 then
        Some (bindM pop (\<lambda>block_num.
          case cx_block_hash_of cx of
            None \<Rightarrow> pushes 0
          | Some block_hash_of \<Rightarrow> bindM (host (block_hash_of block_num)) pushes))
      else if op = 0x42 then Some (pushes (cx_timestamp cx))
      else if op = 0x43 then Some (pushes (cx_block_number cx))
      else if op = 0x41 then Some (bindM (addr_int rt (cx_coinbase cx)) pushes)
      else if op = 0x44 then Some (pushes (cx_difficulty cx))
      else if op = 0x45 then Some (bindM (getM ev_gas_limit) pushes)
      else if op = 0x46 then Some (pushes (cx_chain_id cx))
      else if op = 0x47 then
        Some (case cx_balance_of cx of
            Some balance_of \<Rightarrow> if cx_address cx = [] then pushes 0 else bindM (host (balance_of (cx_address cx))) pushes
          | None \<Rightarrow> pushes 0)
      else if op = 0x48 then Some (pushes (cx_base_fee cx))
      else if op = 0x49 then
        Some (bindM pop (\<lambda>index.
          pushes (if 0 \<le> index \<and> index < int (length (cx_blob_hashes cx))
                  then (cx_blob_hashes cx ! nat index) AND EVM_U256_MASK else 0)))
      else if op = 0x4A then Some (pushes (cx_blob_base_fee cx))
      else None)"

text \<open>Memory, storage and control flow.\<close>

definition jump_to :: "byte list \<Rightarrow> byte list \<Rightarrow> int \<Rightarrow> ('h, flow) evmM" where
  "jump_to bytecode table dest =
     (if \<not> evm_is_jumpdest table dest (length bytecode)
      then raiseM (EvmRaise (''invalid jump destination: '' @ py_str_int dest))
      else bindM (modM (\<lambda>s. s\<lparr>ev_pc := nat dest\<rparr>)) (\<lambda>_. returnM Continue))"

text \<open>A guarded write: \<open>if self._revert_static_write(): break\<close>.\<close>

definition unless_static :: "'h evm_ctx \<Rightarrow> ('h, flow) evmM \<Rightarrow> ('h, flow) evmM" where
  "unless_static cx m = bindM (revert_static_write cx) (\<lambda>b. if b then returnM Break else m)"

definition op_data :: "'h evm_rt \<Rightarrow> 'h evm_ctx \<Rightarrow> byte list \<Rightarrow> byte list \<Rightarrow> nat \<Rightarrow> ('h, flow) evmM option" where
  "op_data rt cx bytecode table op =
     (if op = 0x50 then Some (bindM pop (\<lambda>_. returnM Next))
      else if op = 0x51 then Some (bindM pop (\<lambda>offset. bindM (read_word rt offset) pushes))
      else if op = 0x52 then Some (pop2 (\<lambda>offset value. falls (write_word rt offset value)))
      else if op = 0x53 then
        Some (pop2 (\<lambda>offset value.
          bindM (mem_extend rt offset 1) (\<lambda>_.
          falls (modM (\<lambda>s. s\<lparr>ev_memory := evm_memory_write_byte (ev_memory s) offset value\<rparr>)))))
      else if op = 0x54 then
        Some (bindM pop (\<lambda>key. bindM (getM ev_storage) (\<lambda>st. pushes (case st key of Some v \<Rightarrow> v | None \<Rightarrow> 0))))
      else if op = 0x55 then
        Some (unless_static cx (pop2 (\<lambda>key value.
          falls (modM (\<lambda>s. s\<lparr>ev_storage := (ev_storage s)(key := if evm_u256_iszero value \<noteq> 0 then None else Some value)\<rparr>)))))
      else if op = 0x56 then Some (bindM pop (jump_to bytecode table))
      else if op = 0x57 then
        Some (pop2 (\<lambda>dest cond. if cond \<noteq> 0 then jump_to bytecode table dest else returnM Next))
      else if op = 0x5A then
        Some (bindM (getM id) (\<lambda>s. pushes (evm_gas_remaining (ev_gas_limit s) (ev_gas_used s))))
      else if op = 0x5B then Some (returnM Next)
      else if op = 0x5C then
        Some (bindM pop (\<lambda>key. bindM (getM ev_transient) (\<lambda>st. pushes (case st key of Some v \<Rightarrow> v | None \<Rightarrow> 0))))
      else if op = 0x5D then
        Some (unless_static cx (pop2 (\<lambda>key value.
          falls (modM (\<lambda>s. s\<lparr>ev_transient := (ev_transient s)(key := if evm_u256_iszero value \<noteq> 0 then None else Some value)\<rparr>)))))
      else if op = 0x5E then
        Some (pop3 (\<lambda>n src dest.
          bindM (consume_gas ''MCOPY'' (3 * ((n + 31) div 32))) (\<lambda>_.
          bindM (mem_extend rt dest n) (\<lambda>_.
          bindM (mem_extend rt src n) (\<lambda>_.
          bindM (getM ev_memory) (\<lambda>m.
          let chunk = take (nat n) (drop (nat src) m)
          in falls (modM (\<lambda>s. s\<lparr>ev_memory := evm_memory_copy (ev_memory s) dest chunk 0 n\<rparr>))))))))
      else if op = 0x58 then Some (bindM (getM ev_pc) (\<lambda>pc. pushes (int pc)))
      else if op = 0x59 then
        Some (bindM (getM (\<lambda>s. length (ev_memory s))) (\<lambda>ln. pushes (if ln = 0 then 0 else int ((ln + 31) div 32) * 32)))
      else if op = 0x5F then Some (pushes 0)
      else if 0x80 \<le> op \<and> op \<le> 0x8F then Some (falls (stack_dup (op - 0x7F)))
      else if 0x90 \<le> op \<and> op \<le> 0x9F then Some (falls (stack_swap (op - 0x8F)))
      else None)"

text \<open>\<open>PUSH1\<close> to \<open>PUSH32\<close>.\<close>

definition op_push :: "byte list \<Rightarrow> nat \<Rightarrow> ('h, flow) evmM option" where
  "op_push bytecode op =
     (if 0x60 \<le> op \<and> op \<le> 0x7F
      then Some (let n = op - 0x5F
                 in bindM (getM ev_pc) (\<lambda>pc.
                    bindM (push (evm_read_push bytecode pc n)) (\<lambda>_.
                    bindM (modM (\<lambda>s. s\<lparr>ev_pc := ev_pc s + n\<rparr>)) (\<lambda>_. returnM Next))))
      else None)"

text \<open>Logs.\<close>

definition py_hex :: "int \<Rightarrow> string" where
  "py_hex t = ''0x'' @ hex_digits (nat t)"

definition bytes_hex :: "byte list \<Rightarrow> string" where
  "bytes_hex bs = concat (map (\<lambda>b. hex02 (unat b)) bs)"

definition op_log :: "'h evm_rt \<Rightarrow> 'h evm_ctx \<Rightarrow> nat \<Rightarrow> ('h, flow) evmM option" where
  "op_log rt cx op =
     (if 0xA0 \<le> op \<and> op \<le> 0xA4
      then Some (unless_static cx
        (let n_topics = op - 0xA0
         in bindM (pops n_topics) (\<lambda>popped.
            let topics = rev popped
            in pop2 (\<lambda>n offset.
               bindM (consume_gas ''LOG'' (int n_topics * 375 + n)) (\<lambda>_.
               bindM (slice_memory rt offset n) (\<lambda>data.
               bindM (case cx_emit_log cx of None \<Rightarrow> returnM () | Some emit_log \<Rightarrow> host (emit_log n_topics topics data)) (\<lambda>_.
               falls (modM (\<lambda>s. s\<lparr>ev_logs := ev_logs s @ [(map py_hex topics, bytes_hex data)]\<rparr>))))))))) 
      else None)"

text \<open>Creation, nested calls and the ends of a frame.\<close>

definition halt_with :: "'h evm_rt \<Rightarrow> bool \<Rightarrow> ('h, flow) evmM" where
  "halt_with rt reverts =
     pop2 (\<lambda>offset n.
     bindM (slice_memory rt offset n) (\<lambda>data.
     bindM (modM (\<lambda>s. s\<lparr>ev_return_data := data, ev_reverted := ev_reverted s \<or> reverts, ev_running := False\<rparr>)) (\<lambda>_.
     returnM Break)))"

definition op_system :: "'h evm_rt \<Rightarrow> 'h evm_ctx \<Rightarrow> nat \<Rightarrow> ('h, flow) evmM option" where
  "op_system rt cx op =
     (if op = 0xF0 then
        Some (unless_static cx (pop3 (\<lambda>n offset value. bindM (execute_create rt cx value offset n None) pushes)))
      else if op = 0xF5 then
        Some (unless_static cx (bindM pop (\<lambda>salt. pop3 (\<lambda>n offset value.
          bindM (execute_create rt cx value offset n (Some salt)) pushes))))
      else if op = 0xF2 then
        Some (pop3 (\<lambda>gas to_word value. pop2 (\<lambda>args_offset args_size. pop2 (\<lambda>ret_offset ret_size.
          bindM (execute_call rt cx to_word value args_offset args_size ret_offset ret_size gas False False True) pushes))))
      else if op = 0xF1 then
        Some (pop3 (\<lambda>gas to_word value. pop2 (\<lambda>args_offset args_size. pop2 (\<lambda>ret_offset ret_size.
          bindM (execute_call rt cx to_word value args_offset args_size ret_offset ret_size gas False False False) pushes))))
      else if op = 0xF4 then
        Some (pop2 (\<lambda>gas to_word. pop2 (\<lambda>args_offset args_size. pop2 (\<lambda>ret_offset ret_size.
          bindM (execute_call rt cx to_word 0 args_offset args_size ret_offset ret_size gas True False False) pushes))))
      else if op = 0xFA then
        Some (pop2 (\<lambda>gas to_word. pop2 (\<lambda>args_offset args_size. pop2 (\<lambda>ret_offset ret_size.
          bindM (execute_call rt cx to_word 0 args_offset args_size ret_offset ret_size gas False True False) pushes))))
      else if op = 0xF3 then Some (halt_with rt False)
      else if op = 0xFD then Some (halt_with rt True)
      else if op = 0xFE then Some (raiseM (EvmRaise ''invalid opcode''))
      else if op = 0xFF then
        Some (unless_static cx (bindM pop (\<lambda>beneficiary.
          bindM (case cx_selfdestruct cx of
              None \<Rightarrow> returnM ()
            | Some selfdestruct \<Rightarrow> host (selfdestruct (evm_word_to_address beneficiary))) (\<lambda>_.
          bindM (modM (\<lambda>s. s\<lparr>ev_running := False\<rparr>)) (\<lambda>_. returnM Break)))))
      else None)"

definition elif :: "'a option \<Rightarrow> 'a option \<Rightarrow> 'a option" where
  "elif a b = (case a of Some x \<Rightarrow> Some x | None \<Rightarrow> b)"

definition evm_dispatch ::
  "'h evm_rt \<Rightarrow> 'h evm_ctx \<Rightarrow> byte list \<Rightarrow> byte list \<Rightarrow> nat \<Rightarrow> ('h, flow) evmM option" where
  "evm_dispatch rt cx bytecode table op =
     elif (op_push bytecode op) (elif (op_arith rt op) (elif (op_env rt cx op) (elif (op_log rt cx op)
       (elif (op_block rt cx op) (elif (op_data rt cx bytecode table op) (op_system rt cx op))))))"

definition evm_op :: "'h evm_rt \<Rightarrow> 'h evm_ctx \<Rightarrow> byte list \<Rightarrow> byte list \<Rightarrow> nat \<Rightarrow> ('h, flow) evmM" where
  "evm_op rt cx bytecode table op =
     (case evm_dispatch rt cx bytecode table op of
        Some m \<Rightarrow> m
      | None \<Rightarrow> raiseM (EvmRaise (''unsupported opcode 0x'' @ hex02 op)))"

section \<open>Segments of the compiled kernel\<close>

definition EVM_HOST_OPCODES :: "nat list" where
  "EVM_HOST_OPCODES = [0xF0, 0xF1, 0xF2, 0xF4, 0xF5, 0xFA, 0xFF] @ [0xA0..<0xA5]"

definition evm_opcode_is_host :: "nat \<Rightarrow> bool" where
  "evm_opcode_is_host op = (op \<in> set EVM_HOST_OPCODES)"

definition apply_native_segment :: "segment \<Rightarrow> ('h, string) evmM" where
  "apply_native_segment seg =
     bindM (modM (\<lambda>s. s\<lparr>ev_pc := sg_pc seg, ev_gas_used := sg_gas_used seg, ev_running := sg_running seg,
              ev_reverted := sg_reverted seg, ev_return_data := sg_return_data seg, ev_stack := sg_stack seg,
              ev_memory := sg_memory seg, ev_logs := ev_logs s @ sg_logs seg\<rparr>)) (\<lambda>_.
     returnM (sg_stop_reason seg))"

definition str_contains :: "string \<Rightarrow> string \<Rightarrow> bool" where
  "str_contains pat s = list_ex (prefix pat) (suffixes s)"

definition handle_native_segment :: "segment \<Rightarrow> ('h, string) evmM" where
  "handle_native_segment seg =
     bindM (apply_native_segment seg) (\<lambda>reason.
     bindM (getM id) (\<lambda>s.
     if reason = ''error''
     then (let err = str_or (sg_error seg) ''evm error''
           in if str_contains ''invalid_jump'' err
              then raiseM (EvmRaise (''invalid jump destination: '' @ py_str_int (int (ev_pc s))))
              else raiseM (EvmRaise err))
     else if reason = ''out_of_gas''
     then raiseM (EvmRaise (''out_of_gas (used='' @ py_str_int (ev_gas_used s) @ '', limit='' @ py_str_int (ev_gas_limit s) @ '')''))
     else returnM reason))"

definition run_native_until_halt :: "'h evm_rt \<Rightarrow> byte list \<Rightarrow> byte list \<Rightarrow> ('h, string option) evmM" where
  "run_native_until_halt rt bytecode table =
     (case rt_until_halt rt of
        None \<Rightarrow> returnM None
      | Some run \<Rightarrow> bindM (run bytecode table) (\<lambda>seg. bindM (handle_native_segment seg) (\<lambda>r. returnM (Some r))))"

definition try_native_pure_segment :: "'h evm_rt \<Rightarrow> byte list \<Rightarrow> byte list \<Rightarrow> ('h, string option) evmM" where
  "try_native_pure_segment rt bytecode table =
     (case rt_pure rt of
        None \<Rightarrow> returnM None
      | Some run \<Rightarrow>
          bindM (getM ev_pc) (\<lambda>pc.
          if evm_opcode_is_host (unat (bytecode ! pc)) then returnM None
          else bindM (run bytecode table) (\<lambda>seg. bindM (handle_native_segment seg) (\<lambda>r. returnM (Some r)))))"

definition fail_on_native_handoff :: "'h evm_rt \<Rightarrow> byte list \<Rightarrow> ('h, unit) evmM" where
  "fail_on_native_handoff rt bytecode =
     (if \<not> rt_native_required rt then returnM ()
      else bindM (getM ev_pc) (\<lambda>pc.
        let op = (if pc < length bytecode then unat (bytecode ! pc) else 0)
        in raiseM (EvmRaise (''native EVM handoff at pc='' @ py_str_int (int pc) @ '' opcode=0x'' @ hex02 op
                 @ '' (ABS_REQUIRE_NATIVE_CRYPTO forbids Python fallback)''))))"

section \<open>The loop\<close>

text \<open>From fetching the opcode to the end of the loop body.\<close>

definition evm_fetch :: "'h evm_rt \<Rightarrow> 'h evm_ctx \<Rightarrow> byte list \<Rightarrow> byte list \<Rightarrow> ('h, flow) evmM" where
  "evm_fetch rt cx bytecode table =
     bindM (getM ev_pc) (\<lambda>pc.
     if pc \<ge> length bytecode then raiseM EvmIndex
     else
       let op = unat (bytecode ! pc); op_name = opcode_name op
       in bindM (if \<not> (0xA0 \<le> op \<and> op \<le> 0xA4) then consume_gas op_name 0 else returnM ()) (\<lambda>_.
          bindM (modM (\<lambda>s. s\<lparr>ev_trace := ev_trace s @ [(ev_pc s, op_name, length (ev_stack s))]\<rparr>)) (\<lambda>_.
          if op = 0 then bindM (modM (\<lambda>s. s\<lparr>ev_running := False\<rparr>)) (\<lambda>_. returnM Break)
          else bindM (evm_op rt cx bytecode table op) (\<lambda>fl.
               case fl of
                 Next \<Rightarrow> bindM (modM (\<lambda>s. s\<lparr>ev_pc := ev_pc s + 1\<rparr>)) (\<lambda>_. returnM Next)
               | _ \<Rightarrow> returnM fl))))"

definition evm_iter :: "'h evm_rt \<Rightarrow> 'h evm_ctx \<Rightarrow> byte list \<Rightarrow> byte list \<Rightarrow> ('h, flow) evmM" where
  "evm_iter rt cx bytecode table =
     bindM (try_native_pure_segment rt bytecode table) (\<lambda>native_reason.
     case native_reason of
       None \<Rightarrow> evm_fetch rt cx bytecode table
     | Some reason \<Rightarrow>
         if reason \<in> {''halt'', ''return'', ''revert''} then returnM Break
         else bindM (if reason = ''handoff'' then fail_on_native_handoff rt bytecode else returnM ()) (\<lambda>_.
              if reason \<notin> {''host'', ''handoff''} then returnM Continue
              else evm_fetch rt cx bytecode table))"

partial_function (option) evm_loop ::
  "'h evm_rt \<Rightarrow> 'h evm_ctx \<Rightarrow> byte list \<Rightarrow> byte list \<Rightarrow> 'h evm \<Rightarrow> ((evm_error + unit) \<times> 'h evm) option" where
  "evm_loop rt cx bytecode table s =
     (if ev_pc s < length bytecode \<and> ev_running s
      then (case evm_iter rt cx bytecode table s of
              (Inl e, s') \<Rightarrow> Some (Inl e, s')
            | (Inr fl, s') \<Rightarrow> if fl = Break then Some (Inr (), s') else evm_loop rt cx bytecode table s')
      else Some (Inr (), s))"

declare evm_loop.simps [code]

record evm_result =
  er_success :: bool
  er_reverted :: bool
  er_stack :: "int list"
  er_memory :: "byte list"
  er_storage :: "int \<rightharpoonup> int"
  er_gas_used :: int
  er_return_data :: "byte list"
  er_trace :: "(nat \<times> string \<times> nat) list"
  er_logs :: "(string list \<times> string) list"

definition evm_outcome :: "'h evm \<Rightarrow> evm_result" where
  "evm_outcome s =
     \<lparr>er_success = (ev_running s \<or> (\<not> ev_reverted s \<and> (ev_return_data s \<noteq> [] \<or> ev_stack s \<noteq> []))),
      er_reverted = ev_reverted s, er_stack = ev_stack s, er_memory = ev_memory s, er_storage = ev_storage s,
      er_gas_used = ev_gas_used s, er_return_data = ev_return_data s, er_trace = ev_trace s, er_logs = ev_logs s\<rparr>"

definition evm_reset :: "byte list \<Rightarrow> 'h evm \<Rightarrow> 'h evm" where
  "evm_reset bytecode s =
     s\<lparr>ev_pc := 0, ev_stack := [], ev_gas_used := 0, ev_running := True, ev_reverted := False, ev_return_data := [],
       ev_trace := [], ev_logs := [], ev_bytecode := bytecode\<rparr>"

definition execute_bytecode_impl ::
  "'h evm_rt \<Rightarrow> 'h evm_ctx \<Rightarrow> byte list \<Rightarrow> 'h evm \<Rightarrow> ((evm_error + evm_result) \<times> 'h evm) option" where
  "execute_bytecode_impl rt cx bytecode s =
     (let table = evm_build_jumpdest_table bytecode
      in case bindM (run_native_until_halt rt bytecode table) (\<lambda>reason.
                bindM (if reason = Some ''handoff'' then fail_on_native_handoff rt bytecode else returnM ()) (\<lambda>_.
                returnM (reason \<noteq> None \<and> reason \<noteq> Some ''handoff''))) (evm_reset bytecode s) of
           (Inl e, s') \<Rightarrow> Some (Inl e, s')
         | (Inr done, s') \<Rightarrow>
             if done then Some (Inr (evm_outcome s'), s')
             else (case evm_loop rt cx bytecode table s' of
                     None \<Rightarrow> None
                   | Some (Inl e, s'') \<Rightarrow> Some (Inl e, s'')
                   | Some (Inr _, s'') \<Rightarrow> Some (Inr (evm_outcome s''), s'')))"

definition execute_bytecode ::
  "'h evm_rt \<Rightarrow> 'h evm_ctx \<Rightarrow> byte list \<Rightarrow> 'h evm \<Rightarrow> ((evm_error + evm_result) \<times> 'h evm) option" where
  "execute_bytecode rt cx bytecode s =
     (let host_snap = ev_storage s
      in case execute_bytecode_impl rt cx bytecode s of
           None \<Rightarrow> None
         | Some (Inl e, s') \<Rightarrow> Some (Inl e, s'\<lparr>ev_storage := host_snap\<rparr>)
         | Some (Inr r, s') \<Rightarrow>
             if er_reverted r
             then Some (Inr (r\<lparr>er_storage := host_snap\<rparr>), s'\<lparr>ev_storage := host_snap\<rparr>)
             else Some (Inr r, s'))"

definition EVM :: "int \<Rightarrow> 'h \<Rightarrow> 'h evm" where
  "EVM gas_limit h =
     \<lparr>ev_stack = [], ev_memory = [], ev_storage = Map.empty, ev_transient = Map.empty, ev_gas_used = 0,
      ev_gas_limit = gas_limit, ev_pc = 0, ev_running = True, ev_reverted = False, ev_return_data = [],
      ev_trace = [], ev_bytecode = [], ev_logs = [], ev_host = h\<rparr>"

end
