(* ===== verification/EvmLaws.thy ===== *)
theory EvmLaws
  imports EvmExec
begin

text \<open>
  The contract of an instruction, as a locale: what a predicate on the state of a frame must be closed under (the
  changes of the primitive operations, the calls the context allows) to be kept by every instruction. \<open>J\<close> holds
  when an instruction returns, \<open>E\<close> when it raises. It is interpreted twice: with the gas budget and the range of
  the words on the stack, and with the state a read-only frame must not change.
\<close>

definition u256_word :: "int \<Rightarrow> bool" where
  "u256_word x \<longleftrightarrow> 0 \<le> x \<and> x < 2 ^ 256"

lemma u256_word_mask: "u256_word (x AND EVM_U256_MASK)"
  unfolding u256_word_def by (rule conjI and_mask_range)+

definition keeps_group :: "('s \<Rightarrow> bool) \<Rightarrow> ('s \<Rightarrow> bool) \<Rightarrow> ('s, 'e, 'a) exs option \<Rightarrow> bool" where
  "keeps_group J E x \<longleftrightarrow> (\<forall>m. x = Some m \<longrightarrow> keeps J E m)"

lemma keeps_group_rules [keeps_rules]:
  "keeps J E m \<Longrightarrow> keeps_group J E (Some m)" "keeps_group J E None"
  "(b \<Longrightarrow> keeps_group J E x) \<Longrightarrow> (\<not> b \<Longrightarrow> keeps_group J E y) \<Longrightarrow> keeps_group J E (if b then x else y)"
  "keeps_group J E x \<Longrightarrow> keeps_group J E y \<Longrightarrow> keeps_group J E (elif x y)"
  by (simp_all add: keeps_group_def elif_def split: option.split)

lemma keeps_group_case [keeps_rules]:
  "keeps_group J E x \<Longrightarrow> (\<And>a. v = Some a \<Longrightarrow> keeps_group J E (f a))
   \<Longrightarrow> keeps_group J E (case v of None \<Rightarrow> x | Some a \<Rightarrow> f a)"
  by (cases v) simp_all

lemma keeps_prod [keeps_rules]: "keeps J E (f a b) \<Longrightarrow> keeps J E (case (a, b) of (x, y) \<Rightarrow> f x y)"
  by simp

locale evm_frame =
  fixes J E :: "'h evm \<Rightarrow> bool" and rt :: "'h evm_rt" and cx :: "'h evm_ctx" and moves :: bool
  assumes err: "J s \<Longrightarrow> E s"
    and words: "J s \<Longrightarrow> x \<in> set (ev_stack s) \<Longrightarrow> u256_word x"
    and fresh: "J s \<Longrightarrow> u256_word v \<Longrightarrow> J (s\<lparr>ev_stack := v # ev_stack s\<rparr>)"
    and stack: "J s \<Longrightarrow> set st \<subseteq> set (ev_stack s) \<Longrightarrow> J (s\<lparr>ev_stack := st\<rparr>)"
    and memory: "J s \<Longrightarrow> J (s\<lparr>ev_memory := m\<rparr>)"
    and ret: "J s \<Longrightarrow> J (s\<lparr>ev_return_data := d\<rparr>)"
    and pc: "J s \<Longrightarrow> moves \<Longrightarrow> J (s\<lparr>ev_pc := p\<rparr>)"
    and flags: "J s \<Longrightarrow> J (s\<lparr>ev_reverted := b, ev_running := r\<rparr>)"
    and gas: "J s \<Longrightarrow> ev_gas_used s \<le> g \<Longrightarrow> g \<le> ev_gas_limit s \<Longrightarrow> J (s\<lparr>ev_gas_used := g\<rparr>)"
    and over: "J s \<Longrightarrow> ev_gas_used s \<le> g \<Longrightarrow> E (s\<lparr>ev_gas_used := g\<rparr>)"
    and store: "J s \<Longrightarrow> \<not> cx_read_only cx \<Longrightarrow> J (s\<lparr>ev_storage := t\<rparr>)"
    and transient: "J s \<Longrightarrow> \<not> cx_read_only cx \<Longrightarrow> J (s\<lparr>ev_transient := t\<rparr>)"
    and logs: "J s \<Longrightarrow> \<not> cx_read_only cx \<Longrightarrow> J (s\<lparr>ev_logs := l\<rparr>)"
    and balance: "cx_balance_of cx = Some f1 \<Longrightarrow> keeps J E (host (f1 a))"
    and code_size: "cx_code_size_of cx = Some f2 \<Longrightarrow> keeps J E (host (f2 a))"
    and code_copy: "cx_code_copy_of cx = Some f3 \<Longrightarrow> keeps J E (host (f3 a i n))"
    and block_hash: "cx_block_hash_of cx = Some f4 \<Longrightarrow> keeps J E (host (f4 i))"
    and call: "cx_contract_call cx = Some f5 \<Longrightarrow> (cx_read_only cx \<Longrightarrow> static)
      \<Longrightarrow> keeps J E (host (f5 a data v gas' delegate static callcode))"
    and emit: "cx_emit_log cx = Some f6 \<Longrightarrow> \<not> cx_read_only cx \<Longrightarrow> keeps J E (host (f6 k ts data))"
    and destroy: "cx_selfdestruct cx = Some f7 \<Longrightarrow> \<not> cx_read_only cx \<Longrightarrow> keeps J E (host (f7 a))"
    and create: "cx_contract_create cx = Some f8 \<Longrightarrow> \<not> cx_read_only cx \<Longrightarrow> keeps J E (host (f8 data v salt))"
begin

lemma keeps_raise [keeps_rules]: "keeps J E (raiseM e)"
  by (simp add: keeps_def wp_rules err)

lemma flag_rules: "J s \<Longrightarrow> J (s\<lparr>ev_running := r\<rparr>)"
  "J s \<Longrightarrow> J (s\<lparr>ev_return_data := d, ev_reverted := b, ev_running := r\<rparr>)"
proof -
  assume "J s"
  from flags [OF this, of r "ev_reverted s"] show "J (s\<lparr>ev_running := r\<rparr>)" by simp
  from flags [OF ret [OF \<open>J s\<close>], of r b d] show "J (s\<lparr>ev_return_data := d, ev_reverted := b, ev_running := r\<rparr>)" by simp
qed

lemma keeps_changes [keeps_rules]:
  "keeps J E (modM (\<lambda>s. s\<lparr>ev_memory := m s\<rparr>))" "keeps J E (modM (\<lambda>s. s\<lparr>ev_return_data := d s\<rparr>))"
  "moves \<Longrightarrow> keeps J E (modM (\<lambda>s. s\<lparr>ev_pc := p s\<rparr>))" "keeps J E (modM (\<lambda>s. s\<lparr>ev_running := r\<rparr>))"
  "keeps J E (modM (\<lambda>s. s\<lparr>ev_reverted := b s, ev_running := r\<rparr>))"
  "keeps J E (modM (\<lambda>s. s\<lparr>ev_return_data := d s, ev_reverted := b s, ev_running := r\<rparr>))"
  by (rule keeps_mod; simp add: memory ret pc flags flag_rules)+

lemma keeps_writes [keeps_rules]:
  "\<not> cx_read_only cx \<Longrightarrow> keeps J E (modM (\<lambda>s. s\<lparr>ev_storage := t s\<rparr>))"
  "\<not> cx_read_only cx \<Longrightarrow> keeps J E (modM (\<lambda>s. s\<lparr>ev_transient := t s\<rparr>))"
  "\<not> cx_read_only cx \<Longrightarrow> keeps J E (modM (\<lambda>s. s\<lparr>ev_logs := l s\<rparr>))"
  by (rule keeps_mod; simp add: store transient logs)+

lemma keeps_consume [keeps_rules]: "0 \<le> extra \<Longrightarrow> keeps J E (consume_gas op extra)"
proof -
  assume "0 \<le> extra"
  moreover have "0 \<le> dget_or GAS_COSTS op 3" by (simp add: GAS_COSTS_def dget_or_def)
  ultimately show ?thesis
    by (auto simp: keeps_def consume_gas_def wp_rules Let_def err intro!: gas)
qed

lemma keeps_charge [keeps_rules]: "keeps J E (charge_subcall_gas g)"
  by (auto simp: keeps_def charge_subcall_gas_def wp_rules intro: gas over)

lemma keeps_push [keeps_rules]: "keeps J E (push v)"
  unfolding push_def by (intro keeps_mod fresh u256_word_mask)

lemma keeps_pushes [keeps_rules]: "keeps J E (pushes v)"
  unfolding pushes_def by (intro keeps_bind keeps_push keeps_simple)

lemma keeps_falls [keeps_rules]: "keeps J E m \<Longrightarrow> keeps J E (falls m)"
  unfolding falls_def by (intro keeps_bind keeps_simple)

lemma keeps_pop [keeps_rules]: "(\<And>a. u256_word a \<Longrightarrow> keeps J E (f a)) \<Longrightarrow> keeps J E (bindM pop f)"
proof -
  assume f: "\<And>a. u256_word a \<Longrightarrow> keeps J E (f a)"
  have "wpM (f x) (\<lambda>_. J) (\<lambda>_. E) (s\<lparr>ev_stack := st\<rparr>)" if "J s" "ev_stack s = x # st" for s x st
    using that words [of s x] stack [of s st] f [of x] by (auto intro!: keepsD)
  then show ?thesis
    by (auto simp: keeps_def pop_def wp_rules err split: list.split)
qed

lemma keeps_pop2 [keeps_rules]:
  "(\<And>a b. u256_word a \<Longrightarrow> u256_word b \<Longrightarrow> keeps J E (f a b)) \<Longrightarrow> keeps J E (pop2 f)"
  unfolding pop2_def by (intro keeps_pop)

lemma keeps_pop3 [keeps_rules]:
  "(\<And>a b c. u256_word a \<Longrightarrow> u256_word b \<Longrightarrow> u256_word c \<Longrightarrow> keeps J E (f a b c)) \<Longrightarrow> keeps J E (pop3 f)"
  unfolding pop3_def by (intro keeps_pop)

lemma keeps_pops [keeps_rules]: "keeps J E (pops n)"
  by (induction n) (simp_all add: keeps_bind keeps_pop keeps_simple)

lemma keeps_dup [keeps_rules]: "keeps J E (stack_dup n)"
proof -
  have "J (s\<lparr>ev_stack := ev_stack s ! (n - 1) # ev_stack s\<rparr>)" if "J s" "0 < n" "n \<le> length (ev_stack s)" for s
    using that by (intro fresh words [OF that(1)] nth_mem) simp_all
  then show ?thesis by (auto simp: keeps_def stack_dup_def wp_rules err)
qed

lemma keeps_swap [keeps_rules]: "keeps J E (stack_swap n)"
proof -
  have "J (s\<lparr>ev_stack := (ev_stack s)[0 := ev_stack s ! n, n := ev_stack s ! 0]\<rparr>)"
    if "J s" "n < length (ev_stack s)" for s
    using that by (intro stack set_update_subsetI nth_mem) auto
  then show ?thesis by (auto simp: keeps_def stack_swap_def wp_rules err)
qed

lemma keeps_extend [keeps_rules]: "keeps J E (mem_extend rt a n)"
  unfolding mem_extend_def by (intro keeps_rules)

lemma keeps_memory [keeps_rules]:
  "keeps J E (read_word rt a)" "keeps J E (write_word rt a v)" "keeps J E (copy_to_memory rt a bs b n)"
  "keeps J E (write_return_to_memory rt a n bs)" "keeps J E (slice_memory rt a n)"
  unfolding read_word_def write_word_def copy_to_memory_def write_return_to_memory_def slice_memory_def
  by (intro keeps_rules)+

lemma keeps_addr_int [keeps_rules]: "keeps J E (addr_int rt who)"
  unfolding addr_int_def by (intro keeps_rules)

lemma keeps_unless_static [keeps_rules]: "(\<not> cx_read_only cx \<Longrightarrow> keeps J E m) \<Longrightarrow> keeps J E (unless_static cx m)"
proof -
  assume m: "\<not> cx_read_only cx \<Longrightarrow> keeps J E m"
  have "J (s\<lparr>ev_reverted := True, ev_running := False\<rparr>)" if "J s" for s using flags [OF that] by simp
  with m show ?thesis
    by (cases "cx_read_only cx") (simp_all add: unless_static_def revert_static_write_def keeps_def wp_rules)
qed

lemma keeps_call [keeps_rules]: "keeps J E (execute_call rt cx w v ao as ro rs g delegate static callcode)"
  unfolding execute_call_def by (rule keeps_rules call | assumption | (simp; fail))+

lemma keeps_create [keeps_rules]: "\<not> cx_read_only cx \<Longrightarrow> keeps J E (execute_create rt cx v a n salt)"
  unfolding execute_create_def by (rule keeps_rules create | assumption)+

lemma keeps_jump [keeps_rules]: "moves \<Longrightarrow> keeps J E (jump_to code table d)"
  unfolding jump_to_def by (rule keeps_rules | assumption)+

lemma keeps_halt [keeps_rules]: "keeps J E (halt_with rt b)"
  unfolding halt_with_def by (rule keeps_rules)+

lemma group_push [keeps_rules]: "moves \<or> \<not> (0x60 \<le> op \<and> op \<le> 0x7F) \<Longrightarrow> keeps_group J E (op_push code op)"
  unfolding op_push_def by (rule keeps_rules | (simp; fail))+

lemma group_arith [keeps_rules]: "keeps_group J E (op_arith rt op)"
  unfolding op_arith_def by (rule keeps_rules)+

lemma group_env [keeps_rules]: "keeps_group J E (op_env rt cx op)"
  unfolding op_env_def by (rule keeps_rules balance code_size code_copy | assumption)+

lemma group_block [keeps_rules]: "keeps_group J E (op_block rt cx op)"
  unfolding op_block_def by (rule keeps_rules balance block_hash | assumption)+

lemma word_extras: "u256_word n \<Longrightarrow> 0 \<le> 3 * ((n + 31) div 32)" "u256_word n \<Longrightarrow> 0 \<le> int k * 375 + n"
  by (simp_all add: u256_word_def pos_imp_zdiv_nonneg_iff)

lemma group_data [keeps_rules]: "moves \<or> op \<noteq> 0x56 \<and> op \<noteq> 0x57 \<Longrightarrow> keeps_group J E (op_data rt cx code table op)"
  unfolding op_data_def by (rule keeps_rules word_extras | assumption | (simp; fail))+

lemma group_log [keeps_rules]: "keeps_group J E (op_log rt cx op)"
  unfolding op_log_def by (rule keeps_rules word_extras emit | assumption)+

lemma group_system [keeps_rules]: "keeps_group J E (op_system rt cx op)"
  unfolding op_system_def by (rule keeps_rules destroy | assumption)+

text \<open>Every instruction keeps the predicate; pushes and jumps do when it allows the program counter to move.\<close>

lemma op_keeps:
  assumes "moves \<or> \<not> (0x60 \<le> op \<and> op \<le> 0x7F) \<and> op \<noteq> 0x56 \<and> op \<noteq> 0x57"
  shows "keeps J E (evm_op rt cx code table op)"
proof -
  have "moves \<or> \<not> (0x60 \<le> op \<and> op \<le> 0x7F)" "moves \<or> op \<noteq> 0x56 \<and> op \<noteq> 0x57" using assms by auto
  then have "keeps_group J E (evm_dispatch rt cx code table op)"
    unfolding evm_dispatch_def by (intro keeps_rules)
  then show ?thesis
    unfolding evm_op_def keeps_group_def by (auto simp: keeps_raise split: option.split)
qed

end

end
