(* ===== verification/EvmRun.thy ===== *)
theory EvmRun
  imports EvmLaws
begin

text \<open>
  Running the interpreter: the contract of an instruction interpreted with the gas budget and the range of the
  words on the stack, with the state a read-only frame must not change, and with the program counter; the price of
  an instruction, so that fetching and running one that does not end the loop costs gas; and what is asked of the
  segment runners of the compiled kernel, when there are any (\<open>kernels_ok\<close>).
\<close>

section \<open>The contract, interpreted\<close>

definition stack_words :: "'h evm \<Rightarrow> bool" where
  "stack_words s \<longleftrightarrow> (\<forall>x\<in>set (ev_stack s). u256_word x)"

text \<open>At least \<open>g\<close> of the gas limit \<open>L\<close> is spent; the trace is \<open>T\<close>.\<close>

definition budget :: "int \<Rightarrow> int \<Rightarrow> (nat \<times> string \<times> nat) list \<Rightarrow> 'h evm \<Rightarrow> bool" where
  "budget g L T s \<longleftrightarrow> stack_words s \<and> g \<le> ev_gas_used s \<and> ev_gas_used s \<le> L \<and> ev_gas_limit s = L \<and> ev_trace s = T"

definition spent :: "(nat \<times> string \<times> nat) list \<Rightarrow> 'h evm \<Rightarrow> bool" where
  "spent T s \<longleftrightarrow> ev_trace s = T"

definition keeps_host :: "('h \<Rightarrow> bool) \<Rightarrow> ('h, 'a) host_fn \<Rightarrow> bool" where
  "keeps_host H f \<longleftrightarrow> (\<forall>h. H h \<longrightarrow> H (snd (f h)))"

text \<open>The host predicate is kept by what a read-only frame may call: lookups, and nested calls that are static.\<close>

definition static_host :: "('h \<Rightarrow> bool) \<Rightarrow> 'h evm_ctx \<Rightarrow> bool" where
  "static_host H cx \<longleftrightarrow>
     (\<forall>f a. cx_balance_of cx = Some f \<longrightarrow> keeps_host H (f a))
     \<and> (\<forall>f a. cx_code_size_of cx = Some f \<longrightarrow> keeps_host H (f a))
     \<and> (\<forall>f a i n. cx_code_copy_of cx = Some f \<longrightarrow> keeps_host H (f a i n))
     \<and> (\<forall>f i. cx_block_hash_of cx = Some f \<longrightarrow> keeps_host H (f i))
     \<and> (\<forall>f a data v g d c. cx_contract_call cx = Some f \<longrightarrow> keeps_host H (f a data v g d True c))"

definition frozen ::
  "('h \<Rightarrow> bool) \<Rightarrow> 'h evm_ctx \<Rightarrow> (int \<rightharpoonup> int) \<Rightarrow> (int \<rightharpoonup> int) \<Rightarrow> 'h evm \<Rightarrow> bool" where
  "frozen H cx st tr s \<longleftrightarrow> stack_words s \<and>
     (cx_read_only cx \<and> static_host H cx \<longrightarrow> ev_storage s = st \<and> ev_transient s = tr \<and> ev_logs s = [] \<and> H (ev_host s))"

definition at_pc :: "nat \<Rightarrow> (nat \<times> string \<times> nat) list \<Rightarrow> 'h evm \<Rightarrow> bool" where
  "at_pc p T s \<longleftrightarrow> stack_words s \<and> ev_pc s = p \<and> ev_trace s = T"

lemma keeps_hostI: "(\<And>s h. J s \<Longrightarrow> h = snd (f (ev_host s)) \<Longrightarrow> J (s\<lparr>ev_host := h\<rparr>)) \<Longrightarrow> (\<And>s. J s \<Longrightarrow> E s) \<Longrightarrow> keeps J E (host f)"
  unfolding keeps_def host_def wpM_def by (auto split: prod.splits sum.splits) (metis snd_conv)+

lemma stack_words_changes:
  "stack_words s \<Longrightarrow> u256_word v \<Longrightarrow> stack_words (s\<lparr>ev_stack := v # ev_stack s\<rparr>)"
  "stack_words s \<Longrightarrow> set st \<subseteq> set (ev_stack s) \<Longrightarrow> stack_words (s\<lparr>ev_stack := st\<rparr>)"
  "stack_words s \<Longrightarrow> x \<in> set (ev_stack s) \<Longrightarrow> u256_word x"
  by (auto simp: stack_words_def)

interpretation gas: evm_frame "budget g L T" "spent T" rt cx True
  for g L T and rt :: "'h evm_rt" and cx :: "'h evm_ctx"
  by unfold_locales (auto simp: budget_def spent_def stack_words_def intro!: keeps_hostI)

interpretation static: evm_frame "frozen H cx st tr" "frozen H cx st tr" rt cx True
  for H st tr and rt :: "'h evm_rt" and cx :: "'h evm_ctx"
  by unfold_locales (auto simp: frozen_def stack_words_def static_host_def keeps_host_def intro!: keeps_hostI)

interpretation stays: evm_frame "at_pc p T" "spent T" rt cx False
  for p T and rt :: "'h evm_rt" and cx :: "'h evm_ctx"
  by unfold_locales (auto simp: at_pc_def spent_def stack_words_def intro!: keeps_hostI)

section \<open>Gas\<close>

lemma dget_or_in: "dget_or d k v = v \<or> (k, dget_or d k v) \<in> set d"
  by (induction d) (auto simp: dget_or_def)

lemma free_names: "\<forall>(n, c)\<in>set GAS_COSTS. c = 0 \<longrightarrow> n \<in> {''STOP'', ''RETURN'', ''REVERT''}"
  by (simp add: GAS_COSTS_def)

lemma costs_nonneg: "\<forall>(n, c)\<in>set GAS_COSTS. 0 \<le> c"
  by (simp add: GAS_COSTS_def)

lemma free_ops: "\<forall>(k, n)\<in>set opcode_names. n \<in> {''STOP'', ''RETURN'', ''REVERT''} \<longrightarrow> k \<in> {0, 0xF3, 0xFD}"
  by (simp add: opcode_names_def)

lemma opcode_cost: "op \<notin> {0, 0xF3, 0xFD} \<Longrightarrow> 1 \<le> dget_or GAS_COSTS (opcode_name op) 3"
proof -
  assume op: "op \<notin> {0, 0xF3, 0xFD}"
  define d where "d = ''UNKNOWN_'' @ hex02 op"
  have d: "d \<notin> {''STOP'', ''RETURN'', ''REVERT''}" by (simp add: d_def)
  have "dget_or opcode_names op d \<notin> {''STOP'', ''RETURN'', ''REVERT''}"
  proof (cases "(op, dget_or opcode_names op d) \<in> set opcode_names")
    case True
    from bspec [OF free_ops this] show ?thesis using op by blast
  next
    case False
    then have "dget_or opcode_names op d = d" using dget_or_in [of opcode_names op d] by blast
    with d show ?thesis by simp
  qed
  then have name: "opcode_name op \<notin> {''STOP'', ''RETURN'', ''REVERT''}"
    by (simp add: opcode_name_def d_def)
  show ?thesis
  proof (cases "(opcode_name op, dget_or GAS_COSTS (opcode_name op) 3) \<in> set GAS_COSTS")
    case True
    from bspec [OF free_names this] bspec [OF costs_nonneg this] name show ?thesis by auto
  next
    case False
    then show ?thesis using dget_or_in [of GAS_COSTS "opcode_name op" 3] by simp
  qed
qed

lemma byte_op [simp]: "unat (b :: byte) < 256"
  using unsigned_less [of b, where 'a = nat] by simp

lemma consume_wp:
  "wpM (consume_gas op extra) Q R s =
     (let cost = dget_or GAS_COSTS op 3 + extra
      in if ev_gas_used s + cost > ev_gas_limit s
         then R (EvmRaise (''out_of_gas (used='' @ py_str_int (ev_gas_used s) @ '', need='' @ py_str_int cost @ '')'')) s
         else Q () (s\<lparr>ev_gas_used := ev_gas_used s + cost\<rparr>))"
  by (simp add: consume_gas_def wp_rules Let_def)

lemma wp_weaken: "(\<And>a t. Q a t) \<Longrightarrow> (\<And>e t. E e t) \<Longrightarrow> wpM m Q E s"
  by (auto simp: wpM_def split: prod.split sum.split)

lemma wp_bind_any: "(\<And>a t. wpM (f a) Q E t) \<Longrightarrow> (\<And>e t. E e t) \<Longrightarrow> wpM (bindM m f) Q E s"
  unfolding wp_bind by (rule wp_weaken)

lemma halt_ends: "wpM (halt_with rt b) (\<lambda>fl _. fl = Break) (\<lambda>_ _. True) s"
  unfolding halt_with_def pop2_def by (intro wp_bind_any TrueI) (simp add: wp_rules)

lemma wp_keeps: "keeps J E m \<Longrightarrow> J s \<Longrightarrow> wpM m (\<lambda>_. J) (\<lambda>_ _. True) s"
  by (drule (1) keepsD) (erule wp_mono; simp)

lemma dispatch_log: "0xA0 \<le> op \<Longrightarrow> op \<le> 0xA4 \<Longrightarrow> evm_dispatch rt cx code table op = op_log rt cx op"
  by (simp add: evm_dispatch_def elif_def op_push_def op_arith_def arith2_def op_env_def op_log_def)

lemma dispatch_halt:
  "evm_dispatch rt cx code table 0xF3 = Some (halt_with rt False)"
  "evm_dispatch rt cx code table 0xFD = Some (halt_with rt True)"
  by (simp_all add: evm_dispatch_def elif_def op_push_def op_arith_def arith2_def op_env_def op_log_def op_block_def
      op_data_def op_system_def)

lemma log_pays:
  assumes "budget g L T s" "u256_word n" "keeps (budget (g + 1) L T) (spent T) (f ())"
  shows "wpM (bindM (consume_gas ''LOG'' (int k * 375 + n)) f) (\<lambda>_. budget (g + 1) L T) (\<lambda>_ _. True) s"
proof -
  have "dget_or GAS_COSTS ''LOG'' 3 = 375" by (simp add: GAS_COSTS_def dget_or_def)
  moreover have "budget (g + 1) L T (s\<lparr>ev_gas_used := ev_gas_used s + (375 + (int k * 375 + n))\<rparr>)"
    if "\<not> ev_gas_limit s < ev_gas_used s + (375 + (int k * 375 + n))"
    using that assms(1,2) by (auto simp: budget_def stack_words_def u256_word_def)
  ultimately show ?thesis
    using wp_keeps [OF assms(3)] by (simp add: wp_bind consume_wp)
qed

lemma budget_pop:
  assumes "budget g L T s" "\<And>n t. u256_word n \<Longrightarrow> budget g L T t \<Longrightarrow> wpM (f n) Q (\<lambda>_ _. True) t"
  shows "wpM (bindM pop f) Q (\<lambda>_ _. True) s"
  using assms(1) gas.words [OF assms(1)] gas.stack [OF assms(1)]
  by (cases "ev_stack s") (auto simp: pop_def wp_rules intro!: assms(2))

lemma unless_static_free: "\<not> cx_read_only cx \<Longrightarrow> unless_static cx m = m"
  by (simp add: unless_static_def revert_static_write_def bindM_def returnM_def)

lemma log_gas:
  assumes "budget g L T s" "op_log rt cx op = Some m"
  shows "wpM m (\<lambda>fl t. fl = Break \<or> g + 1 \<le> ev_gas_used t) (\<lambda>_ _. True) s"
proof (cases "cx_read_only cx")
  case True
  then show ?thesis
    using assms(2) by (auto simp: op_log_def unless_static_def revert_static_write_def wp_rules split: if_splits)
next
  case False
  define body where "body = (\<lambda>topics n offset.
      bindM (consume_gas ''LOG'' (int (op - 0xA0) * 375 + n)) (\<lambda>_.
      bindM (slice_memory rt offset n) (\<lambda>data.
      bindM (case cx_emit_log cx of None \<Rightarrow> returnM () | Some emit_log \<Rightarrow> host (emit_log (op - 0xA0) topics data)) (\<lambda>_.
      falls (modM (\<lambda>s. s\<lparr>ev_logs := ev_logs s @ [(map py_hex topics, bytes_hex data)]\<rparr>))))))"
  have m: "m = unless_static cx (bindM (pops (op - 0xA0)) (\<lambda>p. pop2 (body (rev p))))"
    using assms(2) by (auto simp: op_log_def body_def Let_def split: if_splits)
  have body: "wpM (body ts n a) (\<lambda>_. budget (g + 1) L T) (\<lambda>_ _. True) t" if "budget g L T t" "u256_word n" for ts n a t
    unfolding body_def using that
    by (intro log_pays) (rule keeps_rules gas.keeps_memory gas.keeps_falls gas.keeps_writes gas.emit False | assumption)+
  have two: "wpM (pop2 (body ts)) (\<lambda>_. budget (g + 1) L T) (\<lambda>_ _. True) t" if "budget g L T t" for ts t
    unfolding pop2_def using that by (intro budget_pop body)
  have "wpM (bindM (pops (op - 0xA0)) (\<lambda>p. pop2 (body (rev p)))) (\<lambda>_. budget (g + 1) L T) (\<lambda>_ _. True) s"
    unfolding wp_bind by (rule wp_mono [OF wp_keeps [OF gas.keeps_pops assms(1)]]) (simp_all add: two)
  then have "wpM (bindM (pops (op - 0xA0)) (\<lambda>p. pop2 (body (rev p))))
      (\<lambda>fl t. fl = Break \<or> g + 1 \<le> ev_gas_used t) (\<lambda>_ _. True) s"
    by (rule wp_mono) (auto simp: budget_def)
  then show ?thesis by (simp add: m unless_static_free False)
qed

text \<open>One instruction: it is within the gas limit, and unless the loop ends it has cost something.\<close>

lemma op_gas:
  assumes "budget g L T s" "op = 0xF3 \<or> op = 0xFD \<or> (0xA0 \<le> op \<and> op \<le> 0xA4)"
  shows "wpM (evm_op rt cx code table op) (\<lambda>fl t. fl = Break \<or> g + 1 \<le> ev_gas_used t) (\<lambda>_ _. True) s"
proof (cases "0xA0 \<le> op \<and> op \<le> 0xA4")
  case True
  then obtain m where "op_log rt cx op = Some m" by (simp add: op_log_def)
  with log_gas [OF assms(1) this] True show ?thesis by (simp add: evm_op_def dispatch_log)
next
  case False
  with assms(2) show ?thesis
    by (auto simp: evm_op_def dispatch_halt intro!: wp_mono [OF halt_ends])
qed

definition fetch_charge :: "nat \<Rightarrow> ('h, unit) evmM" where
  "fetch_charge op = (if \<not> (0xA0 \<le> op \<and> op \<le> 0xA4) then consume_gas (opcode_name op) 0 else returnM ())"

definition fetch_cost :: "nat \<Rightarrow> int" where
  "fetch_cost op = (if 0xA0 \<le> op \<and> op \<le> 0xA4 then 0 else dget_or GAS_COSTS (opcode_name op) 3)"

definition fetch_step :: "'h evm_rt \<Rightarrow> 'h evm_ctx \<Rightarrow> byte list \<Rightarrow> byte list \<Rightarrow> nat \<Rightarrow> ('h, flow) evmM" where
  "fetch_step rt cx code table op =
     (if op = 0 then bindM (modM (\<lambda>s. s\<lparr>ev_running := False\<rparr>)) (\<lambda>_. returnM Break)
      else bindM (evm_op rt cx code table op) (\<lambda>fl.
           case fl of Next \<Rightarrow> bindM (modM (\<lambda>s. s\<lparr>ev_pc := ev_pc s + 1\<rparr>)) (\<lambda>_. returnM Next) | _ \<Rightarrow> returnM fl))"

definition fetched :: "nat \<Rightarrow> 'h evm \<Rightarrow> 'h evm" where
  "fetched op s = s\<lparr>ev_gas_used := ev_gas_used s + fetch_cost op,
     ev_trace := ev_trace s @ [(ev_pc s, opcode_name op, length (ev_stack s))]\<rparr>"

text \<open>Fetching charges and traces the instruction, then it runs.\<close>

lemma fetch_unfold:
  assumes "ev_pc s < length code"
  defines "op \<equiv> unat (code ! ev_pc s)"
  shows "wpM (evm_fetch rt cx code table) Q R s =
    (if \<not> (0xA0 \<le> op \<and> op \<le> 0xA4) \<and> ev_gas_used s + fetch_cost op > ev_gas_limit s
     then wpM (fetch_charge op) (\<lambda>_ _. True) R s
     else wpM (fetch_step rt cx code table op) Q R (fetched op s))"
proof -
  have "wpM (evm_fetch rt cx code table) Q R s = wpM (fetch_charge op) (\<lambda>_ t. wpM (fetch_step rt cx code table op) Q R
      (t\<lparr>ev_trace := ev_trace t @ [(ev_pc t, opcode_name op, length (ev_stack t))]\<rparr>)) R s"
    using assms(1) by (simp add: evm_fetch_def wp_bind wp_get wp_mod Let_def fetch_charge_def fetch_step_def flip: op_def)
  then show ?thesis by (auto simp: fetch_charge_def fetch_cost_def fetched_def consume_wp wp_rules Let_def)
qed

lemma fetch_cost_pos: "0 \<le> fetch_cost op" "op \<notin> {0, 0xF3, 0xFD} \<Longrightarrow> \<not> (0xA0 \<le> op \<and> op \<le> 0xA4) \<Longrightarrow> 1 \<le> fetch_cost op"
  using costs_nonneg dget_or_in [of GAS_COSTS "opcode_name op" 3] opcode_cost [of op] by (auto simp: fetch_cost_def)

lemma fetch_gas:
  assumes "budget g L T s" "g = ev_gas_used s"
  shows "wpM (evm_fetch rt cx code table)
    (\<lambda>fl t. (\<exists>x. budget g L (T @ [x]) t) \<and> (fl \<noteq> Break \<longrightarrow> g + 1 \<le> ev_gas_used t)) (\<lambda>_ _. True) s"
proof (cases "ev_pc s < length code")
  case True
  define op where "op = unat (code ! ev_pc s)"
  define T' where "T' = T @ [(ev_pc s, opcode_name op, length (ev_stack s))]"
  have within: "ev_gas_used s + fetch_cost op \<le> ev_gas_limit s \<Longrightarrow> budget g L T' (fetched op s)"
    using assms fetch_cost_pos(1) [of op] by (simp add: fetched_def budget_def stack_words_def T'_def)
  have run: "wpM (evm_op rt cx code table op) (\<lambda>fl t. budget g L T' t \<and> (fl \<noteq> Break \<longrightarrow> g + 1 \<le> ev_gas_used t))
      (\<lambda>_ _. True) (fetched op s)"
    if limit: "ev_gas_used s + fetch_cost op \<le> ev_gas_limit s" and "op \<noteq> 0"
  proof (cases "op = 0xF3 \<or> op = 0xFD \<or> (0xA0 \<le> op \<and> op \<le> 0xA4)")
    case True
    from wp_conj [OF wp_keeps [OF gas.op_keeps within [OF limit]] op_gas [OF within [OF limit] True]]
    show ?thesis by (rule wp_mono) auto
  next
    case False
    then have "budget (g + 1) L T' (fetched op s)"
      using that assms fetch_cost_pos(2) [of op] by (auto simp: fetched_def budget_def stack_words_def T'_def)
    from wp_keeps [OF gas.op_keeps this, of op rt cx code table] show ?thesis by (rule wp_mono) (auto simp: budget_def)
  qed
  have "wpM (fetch_step rt cx code table op)
      (\<lambda>fl t. (\<exists>x. budget g L (T @ [x]) t) \<and> (fl \<noteq> Break \<longrightarrow> g + 1 \<le> ev_gas_used t)) (\<lambda>_ _. True) (fetched op s)"
    if "ev_gas_used s + fetch_cost op \<le> ev_gas_limit s"
  proof (cases "op = 0")
    case True
    then show ?thesis
      using within [OF that] by (auto simp: fetch_step_def wp_rules T'_def budget_def stack_words_def)
  next
    case False
    from run [OF that False] show ?thesis
      unfolding fetch_step_def wp_bind using False
      by (auto simp: wp_rules T'_def budget_def stack_words_def split: flow.split elim!: wp_mono)
  qed
  moreover have "ev_gas_used s + fetch_cost op \<le> ev_gas_limit s" if "0xA0 \<le> op \<and> op \<le> 0xA4"
    using that assms by (simp add: fetch_cost_def budget_def)
  ultimately show ?thesis
    unfolding fetch_unfold [OF True] op_def [symmetric]
    by (auto simp: fetch_charge_def consume_wp Let_def fetch_cost_def split: if_splits)
qed (simp add: evm_fetch_def wp_rules)

section \<open>The compiled kernel\<close>

text \<open>
  What is relied on of a segment runner, when the kernel has one. While it runs, the bridge writes its stack, memory, gas,
  storage and return data into the frame (\<open>_sync_in\<close> of \<open>execution/evm_host_bridge.py\<close>) and lets it act on the host; the
  trace, the limit and the program counter stay, and in a read-only frame storage, transient storage and logs as well. The
  segment it reports spends gas within the limit, leaves words on the stack, stops for one of the reasons of the kernel, adds
  no logs when read-only, and hands over at an instruction. These are assumptions about the compiled kernel.
\<close>

definition in_place :: "('h \<Rightarrow> bool) \<Rightarrow> 'h evm_ctx \<Rightarrow> 'h evm \<Rightarrow> 'h evm \<Rightarrow> bool" where
  "in_place H cx s t \<longleftrightarrow>
     ev_trace t = ev_trace s \<and> ev_gas_limit t = ev_gas_limit s \<and> ev_pc t = ev_pc s \<and> (stack_words s \<longrightarrow> stack_words t)
     \<and> (cx_read_only cx \<longrightarrow> ev_storage t = ev_storage s \<and> ev_transient t = ev_transient s \<and> ev_logs t = ev_logs s
          \<and> (H (ev_host s) \<longrightarrow> H (ev_host t)))"

definition segment_ok :: "'h evm_ctx \<Rightarrow> byte list \<Rightarrow> 'h evm \<Rightarrow> segment \<Rightarrow> bool" where
  "segment_ok cx code s seg \<longleftrightarrow>
     ev_gas_used s \<le> sg_gas_used seg \<and> (ev_gas_used s \<le> ev_gas_limit s \<longrightarrow> sg_gas_used seg \<le> ev_gas_limit s)
     \<and> (stack_words s \<longrightarrow> (\<forall>x\<in>set (sg_stack seg). u256_word x))
     \<and> sg_stop_reason seg \<in> {''halt'', ''return'', ''revert'', ''host'', ''handoff'', ''error'', ''out_of_gas''}
     \<and> (cx_read_only cx \<longrightarrow> sg_logs seg = [])
     \<and> (reach_instr code 0 (ev_pc s) \<longrightarrow> sg_stop_reason seg \<in> {''host'', ''handoff''} \<longrightarrow> reach_instr code 0 (sg_pc seg))"

definition kernel_ok :: "('h \<Rightarrow> bool) \<Rightarrow> 'h evm_ctx \<Rightarrow> byte list \<Rightarrow> 'h kernel \<Rightarrow> bool" where
  "kernel_ok H cx code run \<longleftrightarrow>
     (\<forall>table s. wpM (run code table) (\<lambda>seg t. in_place H cx s t \<and> segment_ok cx code s seg) (\<lambda>_. in_place H cx s) s)"

definition kernels_ok :: "('h \<Rightarrow> bool) \<Rightarrow> 'h evm_rt \<Rightarrow> 'h evm_ctx \<Rightarrow> byte list \<Rightarrow> bool" where
  "kernels_ok H rt cx code \<longleftrightarrow>
     (\<forall>run. rt_until_halt rt = Some run \<or> rt_pure rt = Some run \<longrightarrow> kernel_ok H cx code run)"

text \<open>The state after a segment was taken over.\<close>

definition after_segment :: "segment \<Rightarrow> 'h evm \<Rightarrow> 'h evm" where
  "after_segment seg s = s\<lparr>ev_pc := sg_pc seg, ev_gas_used := sg_gas_used seg, ev_running := sg_running seg,
     ev_reverted := sg_reverted seg, ev_return_data := sg_return_data seg, ev_stack := sg_stack seg,
     ev_memory := sg_memory seg, ev_logs := ev_logs s @ sg_logs seg\<rparr>"

lemma handle_segment:
  "wpM (handle_native_segment seg) (\<lambda>r t. t = after_segment seg s \<and> r = sg_stop_reason seg \<and> r \<notin> {''error'', ''out_of_gas''})
     (\<lambda>_ t. t = after_segment seg s) s"
  by (simp add: handle_native_segment_def apply_native_segment_def wp_rules after_segment_def Let_def)

definition took_segment :: "('h \<Rightarrow> bool) \<Rightarrow> 'h evm_ctx \<Rightarrow> byte list \<Rightarrow> 'h evm \<Rightarrow> string \<Rightarrow> 'h evm \<Rightarrow> bool" where
  "took_segment H cx code s r t \<longleftrightarrow>
     (\<exists>u seg. in_place H cx s u \<and> segment_ok cx code s seg \<and> t = after_segment seg u \<and> r = sg_stop_reason seg
        \<and> r \<in> {''halt'', ''return'', ''revert'', ''host'', ''handoff''})"

definition lost_segment :: "('h \<Rightarrow> bool) \<Rightarrow> 'h evm_ctx \<Rightarrow> byte list \<Rightarrow> 'h evm \<Rightarrow> 'h evm \<Rightarrow> bool" where
  "lost_segment H cx code s t \<longleftrightarrow>
     in_place H cx s t \<or> (\<exists>u seg. in_place H cx s u \<and> segment_ok cx code s seg \<and> t = after_segment seg u)"

lemma segment_wp:
  assumes "kernel_ok H cx code run"
  shows "wpM (bindM (run code table) (\<lambda>seg. bindM (handle_native_segment seg) (\<lambda>r. returnM (Some r))))
    (\<lambda>x t. \<exists>r. x = Some r \<and> took_segment H cx code s r t) (\<lambda>_. lost_segment H cx code s) s"
proof -
  have "wpM (run code table) (\<lambda>seg t. in_place H cx s t \<and> segment_ok cx code s seg) (\<lambda>_. in_place H cx s) s"
    using assms by (simp add: kernel_ok_def)
  then show ?thesis
    unfolding wp_bind wp_return
  proof (rule wp_mono)
    fix seg u
    assume u: "in_place H cx s u \<and> segment_ok cx code s seg"
    then have "sg_stop_reason seg \<in> {''halt'', ''return'', ''revert'', ''host'', ''handoff'', ''error'', ''out_of_gas''}"
      by (simp add: segment_ok_def)
    then show "wpM (handle_native_segment seg) (\<lambda>a t. \<exists>r. Some a = Some r \<and> took_segment H cx code s r t)
        (\<lambda>_. lost_segment H cx code s) u"
      using u by (intro wp_mono [OF handle_segment]) (auto simp: took_segment_def lost_segment_def)
  qed (simp add: lost_segment_def)
qed

lemma pure_wp:
  assumes "kernels_ok H rt cx code"
  shows "wpM (try_native_pure_segment rt code table)
    (\<lambda>x t. x = None \<and> t = s \<or> (\<exists>r. x = Some r \<and> took_segment H cx code s r t)) (\<lambda>_. lost_segment H cx code s) s"
proof (cases "rt_pure rt")
  case (Some run)
  then have "kernel_ok H cx code run" using assms by (simp add: kernels_ok_def)
  with Some show ?thesis
    by (auto simp: try_native_pure_segment_def wp_get wp_return wp_bind [of "getM _"] intro!: wp_mono [OF segment_wp])
qed (simp add: try_native_pure_segment_def wp_rules)

lemma until_halt_wp:
  assumes "kernels_ok H rt cx code"
  shows "wpM (run_native_until_halt rt code table)
    (\<lambda>x t. x = None \<and> t = s \<or> (\<exists>r. x = Some r \<and> took_segment H cx code s r t)) (\<lambda>_. lost_segment H cx code s) s"
proof (cases "rt_until_halt rt")
  case (Some run)
  then have "kernel_ok H cx code run" using assms by (simp add: kernels_ok_def)
  from wp_mono [OF segment_wp [OF this]] Some show ?thesis by (auto simp: run_native_until_halt_def)
qed (simp add: run_native_until_halt_def wp_rules)

end
