(* ===== verification/EvmProps.thy ===== *)
theory EvmProps
  imports EvmRun
begin

text \<open>
  What the interpreter promises: a call ends within its gas with words on the stack, a read-only frame changes
  nothing, and only instructions of the code are executed, in a validated code only supported ones. The loop is
  handled by two rules: an iteration, with its segment of the kernel, and the loop as a whole.
\<close>

section \<open>Iterations and the loop\<close>

lemma iter_wp:
  assumes "kernels_ok H rt cx code"
    and "wpM (evm_fetch rt cx code table) Q R s"
    and "\<And>r t. took_segment H cx code s r t \<Longrightarrow> r \<in> {''halt'', ''return'', ''revert''} \<Longrightarrow> Q Break t"
    and "\<And>r t. took_segment H cx code s r t \<Longrightarrow> r \<in> {''host'', ''handoff''} \<Longrightarrow> wpM (evm_fetch rt cx code table) Q R t"
    and "\<And>e t. lost_segment H cx code s t \<Longrightarrow> R e t"
  shows "wpM (evm_iter rt cx code table) Q R s"
proof -
  have lost: "took_segment H cx code s r t \<Longrightarrow> lost_segment H cx code s t" for r t
    by (auto simp: took_segment_def lost_segment_def)
  have handoff: "wpM (fail_on_native_handoff rt code) (\<lambda>_. Q') R t"
    if "took_segment H cx code s r t" "Q' t" for r t Q'
    using that assms(5) [OF lost [OF that(1)]] by (auto simp: fail_on_native_handoff_def wp_rules Let_def)
  have reasons: "took_segment H cx code s r t \<Longrightarrow> r \<in> {''halt'', ''return'', ''revert'', ''host'', ''handoff''}" for r t
    by (auto simp: took_segment_def)
  show ?thesis
    unfolding evm_iter_def wp_bind
  proof (rule wp_mono [OF pure_wp [OF assms(1)]])
    fix x t
    assume x: "x = None \<and> t = s \<or> (\<exists>r. x = Some r \<and> took_segment H cx code s r t)"
    show "wpM (case x of None \<Rightarrow> evm_fetch rt cx code table
        | Some reason \<Rightarrow> if reason \<in> {''halt'', ''return'', ''revert''} then returnM Break
            else bindM (if reason = ''handoff'' then fail_on_native_handoff rt code else returnM ())
                  (\<lambda>_. if reason \<notin> {''host'', ''handoff''} then returnM Continue else evm_fetch rt cx code table)) Q R t"
    proof (cases x)
      case None
      with x assms(2) show ?thesis by simp
    next
      case (Some r)
      with x have took: "took_segment H cx code s r t" by simp
      with reasons [OF this] Some assms(3,4) show ?thesis
        by (auto simp: wp_bind wp_return intro!: handoff [OF took])
    qed
  qed (rule assms(5))
qed

text \<open>A partial-correctness rule for the loop, by fixed-point induction.\<close>

lemma loop_rule:
  assumes run: "evm_loop rt cx code table s = Some (r, t)" and "I s"
    and step: "\<And>s. I s \<Longrightarrow> ev_pc s < length code \<Longrightarrow>
      wpM (evm_iter rt cx code table) (\<lambda>fl t. if fl = Break then Q (Inr ()) t else I t) (\<lambda>e. Q (Inl e)) s"
    and stop: "\<And>s. I s \<Longrightarrow> Q (Inr ()) s"
  shows "Q r t"
proof -
  let ?G = "\<lambda>(rt' :: 'a evm_rt) cx' code' table' s y.
    rt' = rt \<longrightarrow> cx' = cx \<longrightarrow> code' = code \<longrightarrow> table' = table \<longrightarrow> I s \<longrightarrow> Q (fst y) (snd y)"
  have "?G rt cx code table s (r, t)"
  proof (rule evm_loop.raw_induct [where P = ?G, OF _ run], intro impI)
    fix f rt' cx' code' table' s y
    assume IH: "\<And>rt' cx' code' table' s y. f rt' cx' code' table' s = Some y \<Longrightarrow> ?G rt' cx' code' table' s y"
      and body: "(if ev_pc s < length code' \<and> ev_running s
          then (case evm_iter rt' cx' code' table' s of
                  (Inl e, s') \<Rightarrow> Some (Inl e, s')
                | (Inr fl, s') \<Rightarrow> if fl = Break then Some (Inr (), s') else f rt' cx' code' table' s')
          else Some (Inr (), s)) = Some y"
      and eqs: "rt' = rt" "cx' = cx" "code' = code" "table' = table" and "I s"
    show "Q (fst y) (snd y)"
    proof (cases "ev_pc s < length code \<and> ev_running s")
      case True
      note it = step [OF \<open>I s\<close> conjunct1 [OF True], unfolded wpM_def]
      show ?thesis
        using body True it eqs by (auto split: prod.splits sum.splits if_splits dest: IH)
    qed (use body eqs stop [OF \<open>I s\<close>] in auto)
  qed
  then show ?thesis using \<open>I s\<close> by simp
qed

text \<open>The loop ends when its iterations use up something, and then the same rule gives what it ends with.\<close>

lemma loop_total:
  assumes "I s"
    and step: "\<And>s. I s \<Longrightarrow> ev_pc s < length code \<Longrightarrow>
      wpM (evm_iter rt cx code table) (\<lambda>fl t. fl \<noteq> Break \<longrightarrow> I t \<and> m t < (m s :: nat)) (\<lambda>_ _. True) s"
  shows "\<exists>y. evm_loop rt cx code table s = Some y"
  using \<open>I s\<close>
proof (induction "m s" arbitrary: s rule: less_induct)
  case less
  show ?case
  proof (cases "ev_pc s < length code \<and> ev_running s")
    case True
    from step [OF less.prems conjunct1 [OF True]] show ?thesis
      using True less.hyps
      by (subst evm_loop.simps) (auto simp: wpM_def split: prod.splits sum.splits)
  next
    case False
    then show ?thesis by (subst evm_loop.simps) auto
  qed
qed

section \<open>Gas\<close>

definition metered :: "int \<Rightarrow> 'h evm \<Rightarrow> bool" where
  "metered L s \<longleftrightarrow> budget 0 L (ev_trace s) s \<and> int (length (ev_trace s)) \<le> ev_gas_used s"

lemma budget_raise: "budget 0 L T s \<Longrightarrow> budget (ev_gas_used s) L T s"
  by (simp add: budget_def)

lemma in_placeD:
  assumes "in_place H cx s u"
  shows "ev_trace u = ev_trace s" "ev_gas_limit u = ev_gas_limit s" "ev_pc u = ev_pc s"
    "cx_read_only cx \<Longrightarrow> ev_storage u = ev_storage s" "cx_read_only cx \<Longrightarrow> H (ev_host s) \<Longrightarrow> H (ev_host u)"
    "cx_read_only cx \<Longrightarrow> ev_transient u = ev_transient s" "cx_read_only cx \<Longrightarrow> ev_logs u = ev_logs s"
    "stack_words s \<Longrightarrow> stack_words u"
  using assms by (auto simp: in_place_def)

lemma segment_metered:
  assumes "metered L s" "took_segment H cx code s r t"
  shows "metered L t \<and> ev_gas_used s \<le> ev_gas_used t"
proof -
  from assms(2) obtain u seg where u: "in_place H cx s u" "segment_ok cx code s seg" "t = after_segment seg u"
    unfolding took_segment_def by blast
  note u(3) [simp]
  from u(2) assms(1) show ?thesis
    by (auto simp: metered_def budget_def segment_ok_def after_segment_def stack_words_def in_placeD [OF u(1)])
qed

lemma fetch_metered:
  assumes "metered L s"
  shows "wpM (evm_fetch rt cx code table)
    (\<lambda>fl t. budget 0 L (ev_trace t) t \<and> int (length (ev_trace t)) \<le> ev_gas_used t + 1
       \<and> (fl \<noteq> Break \<longrightarrow> metered L t \<and> ev_gas_used s < ev_gas_used t)) (\<lambda>_ _. True) s"
proof -
  have "budget (ev_gas_used s) L (ev_trace s) s" "0 \<le> ev_gas_used s" "int (length (ev_trace s)) \<le> ev_gas_used s"
    using assms by (auto simp: metered_def budget_def)
  then show ?thesis
    by (intro wp_mono [OF fetch_gas]) (auto simp: metered_def budget_def)
qed

lemma iter_metered:
  assumes "kernels_ok H rt cx code" "metered L s"
  shows "wpM (evm_iter rt cx code table)
    (\<lambda>fl t. budget 0 L (ev_trace t) t \<and> int (length (ev_trace t)) \<le> ev_gas_used t + 1
       \<and> (fl \<noteq> Break \<longrightarrow> metered L t \<and> ev_gas_used s < ev_gas_used t)) (\<lambda>_ _. True) s"
proof (rule iter_wp [OF assms(1)])
  fix r t
  assume took: "took_segment H cx code s r t"
  note t = segment_metered [OF assms(2) took]
  then show "budget 0 L (ev_trace t) t \<and> int (length (ev_trace t)) \<le> ev_gas_used t + 1
      \<and> (Break \<noteq> Break \<longrightarrow> metered L t \<and> ev_gas_used s < ev_gas_used t)" by (simp add: metered_def)
  from t show "wpM (evm_fetch rt cx code table)
    (\<lambda>fl t. budget 0 L (ev_trace t) t \<and> int (length (ev_trace t)) \<le> ev_gas_used t + 1
       \<and> (fl \<noteq> Break \<longrightarrow> metered L t \<and> ev_gas_used s < ev_gas_used t)) (\<lambda>_ _. True) t"
    by (intro wp_mono [OF fetch_metered]) auto
qed (simp_all add: fetch_metered assms(2))

lemma loop_metered:
  fixes rt :: "'h evm_rt"
  assumes "kernels_ok H rt cx code" "metered L s"
  shows "\<exists>y. evm_loop rt cx code table s = Some y
    \<and> (\<forall>t. y = (Inr (), t) \<longrightarrow> budget 0 L (ev_trace t) t \<and> int (length (ev_trace t)) \<le> ev_gas_used t + 1)"
proof -
  have "\<exists>y. evm_loop rt cx code table s = Some y"
  proof (rule loop_total [where I = "metered L" and m = "\<lambda>s. nat (L - ev_gas_used s)"])
    fix s :: "'h evm"
    assume "metered L s"
    from iter_metered [OF assms(1) this] show "wpM (evm_iter rt cx code table)
        (\<lambda>fl t. fl \<noteq> Break \<longrightarrow> metered L t \<and> nat (L - ev_gas_used t) < nat (L - ev_gas_used s)) (\<lambda>_ _. True) s"
      by (rule wp_mono) (auto simp: budget_def)
  qed (rule assms(2))
  then obtain r t where run: "evm_loop rt cx code table s = Some (r, t)" by auto
  have "r = Inr () \<longrightarrow> budget 0 L (ev_trace t) t \<and> int (length (ev_trace t)) \<le> ev_gas_used t + 1"
  proof (rule loop_rule [where I = "metered L", OF run assms(2)])
    fix s :: "'h evm"
    assume "metered L s"
    from iter_metered [OF assms(1) this] show "wpM (evm_iter rt cx code table)
        (\<lambda>fl t. if fl = Break then Inr () = Inr () \<longrightarrow> budget 0 L (ev_trace t) t \<and> int (length (ev_trace t)) \<le> ev_gas_used t + 1
                else metered L t)
        (\<lambda>e t. Inl e = Inr () \<longrightarrow> budget 0 L (ev_trace t) t \<and> int (length (ev_trace t)) \<le> ev_gas_used t + 1) s"
      by (rule wp_mono) auto
  qed (auto simp: metered_def)
  with run show ?thesis by auto
qed

text \<open>The run up to the loop: the reset frame, and a first segment that may be all.\<close>

definition evm_start :: "'h evm_rt \<Rightarrow> byte list \<Rightarrow> byte list \<Rightarrow> ('h, bool) evmM" where
  "evm_start rt code table =
     bindM (run_native_until_halt rt code table) (\<lambda>reason.
     bindM (if reason = Some ''handoff'' then fail_on_native_handoff rt code else returnM ()) (\<lambda>_.
     returnM (reason \<noteq> None \<and> reason \<noteq> Some ''handoff'')))"

lemma impl_unfold:
  "execute_bytecode_impl rt cx code s =
     (case evm_start rt code (evm_build_jumpdest_table code) (evm_reset code s) of
        (Inl e, s') \<Rightarrow> Some (Inl e, s')
      | (Inr done, s') \<Rightarrow>
          if done then Some (Inr (evm_outcome s'), s')
          else (case evm_loop rt cx code (evm_build_jumpdest_table code) s' of
                  None \<Rightarrow> None
                | Some (Inl e, s'') \<Rightarrow> Some (Inl e, s'')
                | Some (Inr _, s'') \<Rightarrow> Some (Inr (evm_outcome s''), s'')))"
  by (simp add: execute_bytecode_impl_def evm_start_def Let_def)

definition started :: "('h \<Rightarrow> bool) \<Rightarrow> 'h evm_ctx \<Rightarrow> byte list \<Rightarrow> 'h evm \<Rightarrow> 'h evm \<Rightarrow> bool" where
  "started H cx code s t \<longleftrightarrow> t = s \<or> took_segment H cx code s ''handoff'' t"

lemma start_wp:
  assumes "kernels_ok H rt cx code"
  shows "wpM (evm_start rt code table)
    (\<lambda>done t. if done then \<exists>r. took_segment H cx code s r t else started H cx code s t)
    (\<lambda>_. lost_segment H cx code s) s"
proof -
  have "wpM (fail_on_native_handoff rt code) (\<lambda>_. Q) (\<lambda>_. lost_segment H cx code s) t"
    if "took_segment H cx code s r t" "Q t" for r t Q
    using that by (auto simp: fail_on_native_handoff_def wp_rules Let_def took_segment_def lost_segment_def)
  then show ?thesis
    unfolding evm_start_def wp_bind
    by (intro wp_mono [OF until_halt_wp [OF assms]]) (auto simp: wp_rules started_def)
qed

lemma impl_rule:
  assumes "kernels_ok H rt cx code" "execute_bytecode_impl rt cx code s = Some (r, t)"
    and "\<And>e. lost_segment H cx code (evm_reset code s) t \<Longrightarrow> Q (Inl e)"
    and "\<And>x. took_segment H cx code (evm_reset code s) x t \<Longrightarrow> Q (Inr (evm_outcome t))"
    and "\<And>s' x. started H cx code (evm_reset code s) s' \<Longrightarrow> evm_loop rt cx code (evm_build_jumpdest_table code) s' = Some (x, t)
      \<Longrightarrow> Q (map_sum id (\<lambda>_. evm_outcome t) x)"
  shows "Q r"
  using start_wp [OF assms(1), of "evm_build_jumpdest_table code" "evm_reset code s"] assms(2)
  unfolding impl_unfold wpM_def
  by (auto split: prod.splits sum.splits option.splits if_splits dest: assms(3,4) dest!: assms(5) [rotated])

lemma metered_reset: "0 \<le> ev_gas_limit s \<Longrightarrow> metered (ev_gas_limit s) (evm_reset code s)"
  by (simp add: metered_def budget_def evm_reset_def stack_words_def)

lemma started_metered: "started H cx code s t \<Longrightarrow> metered L s \<Longrightarrow> metered L t"
  by (auto simp: started_def dest: segment_metered)

lemma impl_ends:
  assumes "kernels_ok H rt cx code" "0 \<le> ev_gas_limit s"
  shows "\<exists>y. execute_bytecode_impl rt cx code s = Some y"
proof -
  let ?tab = "evm_build_jumpdest_table code"
  have "evm_loop rt cx code ?tab t \<noteq> None" if "started H cx code (evm_reset code s) t" for t
    using loop_metered [OF assms(1) started_metered [OF that metered_reset [OF assms(2)]]] by force
  note loop = this
  obtain x u where start: "evm_start rt code ?tab (evm_reset code s) = (x, u)" by fastforce
  show ?thesis
  proof (cases x)
    case (Inr stops)
    with start_wp [OF assms(1), of ?tab "evm_reset code s"] start loop [of u] show ?thesis
      by (cases stops) (auto simp: impl_unfold wpM_def split: option.split sum.split)
  qed (use start in \<open>simp add: impl_unfold\<close>)
qed

lemma impl_metered:
  assumes "kernels_ok H rt cx code" "0 \<le> ev_gas_limit s" "execute_bytecode_impl rt cx code s = Some (Inr res, t)"
  shows "0 \<le> er_gas_used res \<and> er_gas_used res \<le> ev_gas_limit s \<and> (\<forall>x\<in>set (er_stack res). u256_word x)
    \<and> int (length (er_trace res)) \<le> er_gas_used res + 1"
proof -
  let ?ok = "\<lambda>t. budget 0 (ev_gas_limit s) (ev_trace t) t \<and> int (length (ev_trace t)) \<le> ev_gas_used t + 1"
  note reset = metered_reset [OF assms(2), of code]
  have "case (Inr res :: evm_error + evm_result) of Inl e \<Rightarrow> True | Inr out \<Rightarrow> out = evm_outcome t \<and> ?ok t"
  proof (rule impl_rule [OF assms(1,3)])
    fix x assume "took_segment H cx code (evm_reset code s) x t"
    from segment_metered [OF reset this] show "case (Inr (evm_outcome t) :: evm_error + evm_result) of Inl e \<Rightarrow> True | Inr out \<Rightarrow> out = evm_outcome t \<and> ?ok t"
      by (simp add: metered_def)
  next
    fix s' x
    assume "started H cx code (evm_reset code s) s'" and run: "evm_loop rt cx code (evm_build_jumpdest_table code) s' = Some (x, t)"
    from loop_metered [OF assms(1) started_metered [OF this(1) reset], of "evm_build_jumpdest_table code"] run
    show "case (map_sum id (\<lambda>_. evm_outcome t) x :: evm_error + evm_result) of Inl e \<Rightarrow> True | Inr out \<Rightarrow> out = evm_outcome t \<and> ?ok t"
      by (cases x) auto
  qed simp
  then show ?thesis by (auto simp: evm_outcome_def budget_def stack_words_def)
qed

lemma execute_ends:
  assumes "kernels_ok H rt cx code" "0 \<le> ev_gas_limit s"
  shows "\<exists>y. execute_bytecode rt cx code s = Some y"
proof -
  obtain r t where "execute_bytecode_impl rt cx code s = Some (r, t)" using impl_ends [OF assms] by auto
  then show ?thesis by (cases r) (auto simp: execute_bytecode_def Let_def)
qed

section \<open>A runtime and contexts to try it on\<close>

text \<open>
  A kernel that hands every code back at once; toy hashes; a host that counts what is written to it. The context
  \<open>demo_cx\<close> allows a nested call, which writes unless it is static.
\<close>

definition handing_over :: "'h kernel" where
  "handing_over code table =
     bindM (getM id) (\<lambda>s. returnM
       \<lparr>sg_pc = ev_pc s, sg_gas_used = ev_gas_used s, sg_running = True, sg_reverted = False, sg_return_data = [],
        sg_stack = ev_stack s, sg_memory = ev_memory s, sg_logs = [], sg_stop_reason = ''handoff'', sg_error = []\<rparr>)"

definition demo_rt :: "nat evm_rt" where
  "demo_rt = \<lparr>rt_sha256_hex = (\<lambda>_. replicate 64 (CHR ''0'')), rt_keccak = (\<lambda>bs. take 32 (bs @ replicate 32 0)),
     rt_alloc = (\<lambda>n. n < 1000000), rt_native_required = False, rt_until_halt = Some handing_over, rt_pure = None\<rparr>"

definition demo_cx :: "bool \<Rightarrow> nat evm_ctx" where
  "demo_cx read_only = \<lparr>cx_caller = ''0xab'', cx_origin = [], cx_address = [], cx_calldata = [], cx_value = 0,
     cx_block_number = 0, cx_timestamp = 0, cx_chain_id = 77777, cx_base_fee = 0, cx_gas_price = 0, cx_difficulty = 0,
     cx_coinbase = [], cx_blob_base_fee = 0, cx_blob_hashes = [], cx_balance_of = None, cx_code_size_of = None,
     cx_code_copy_of = None, cx_block_hash_of = None, cx_emit_log = None, cx_selfdestruct = None,
     cx_contract_call = Some (\<lambda>to_addr data value gas delegate static callcode h.
       (Inr \<lparr>co_gas_used = 10, co_return_data = [], co_storage = None, co_success = True, co_reverted = False,
          co_address = []\<rparr>, if static then h else h + 1)),
     cx_contract_create = None, cx_read_only = read_only\<rparr>"

lemma demo_kernels: "kernels_ok H demo_rt cx code"
  by (auto simp: kernels_ok_def demo_rt_def kernel_ok_def handing_over_def wp_rules in_place_def segment_ok_def
      stack_words_def)

text \<open>C27: A call of the interpreter returns or raises: its loop ends. When it returns, the gas used is between
  zero and the limit, every word left on the stack is below 2^256, and at most one more instruction was traced
  than gas was spent: no instruction but the one that ends the loop is free. A compiled kernel, where the runtime has one,
  is assumed to meter its own segments (kernels_ok); without one nothing is assumed.\<close>

theorem evm_ends_within_gas:
  assumes "kernels_ok (\<lambda>_. True) rt cx code" "0 \<le> ev_gas_limit s"
  shows "\<exists>r t. execute_bytecode rt cx code s = Some (r, t)
    \<and> (\<forall>res. r = Inr res \<longrightarrow>
         0 \<le> er_gas_used res \<and> er_gas_used res \<le> ev_gas_limit s \<and> (\<forall>x\<in>set (er_stack res). u256_word x)
         \<and> int (length (er_trace res)) \<le> er_gas_used res + 1)"
proof -
  obtain r t where run: "execute_bytecode_impl rt cx code s = Some (r, t)" using impl_ends [OF assms] by auto
  show ?thesis
    using run impl_metered [OF assms] by (cases r) (auto simp: execute_bytecode_def Let_def)
qed

theorem evm_ends_within_gas_witness:
  "\<exists>r t. execute_bytecode demo_rt (demo_cx False) [0x60, 5, 0x5B, 0x60, 2, 0x56] (EVM 1000 7) = Some (r, t)"
proof -
  have "0 \<le> ev_gas_limit (EVM 1000 (7 :: nat))" by (simp add: EVM_def)
  from evm_ends_within_gas [OF demo_kernels this, of "demo_cx False" "[0x60, 5, 0x5B, 0x60, 2, 0x56]"]
  show ?thesis by blast
qed

section \<open>Read-only frames\<close>

lemma place_frozen: "frozen H cx st tr s \<Longrightarrow> in_place H cx s u \<Longrightarrow> frozen H cx st tr u"
proof -
  assume "frozen H cx st tr s" and u: "in_place H cx s u"
  then show ?thesis by (auto simp: frozen_def in_placeD [OF u])
qed

lemma segment_frozen:
  "frozen H cx st tr s \<Longrightarrow> frozen H cx st tr u \<Longrightarrow> segment_ok cx code s seg \<Longrightarrow> frozen H cx st tr (after_segment seg u)"
  by (auto simp: frozen_def segment_ok_def after_segment_def stack_words_def)

lemma took_frozen: "frozen H cx st tr s \<Longrightarrow> took_segment H cx code s r t \<Longrightarrow> frozen H cx st tr t"
  unfolding took_segment_def by (auto intro: segment_frozen place_frozen)

lemma lost_frozen: "frozen H cx st tr s \<Longrightarrow> lost_segment H cx code s t \<Longrightarrow> frozen H cx st tr t"
  unfolding lost_segment_def by (auto intro: segment_frozen place_frozen)

lemma fetch_frozen:
  assumes "frozen H cx st tr s"
  shows "wpM (evm_fetch rt cx code table) (\<lambda>_. frozen H cx st tr) (\<lambda>_. frozen H cx st tr) s"
proof (cases "ev_pc s < length code")
  case True
  define op where "op = unat (code ! ev_pc s)"
  have f: "frozen H cx st tr (fetched op s)" using assms by (simp add: frozen_def fetched_def stack_words_def)
  then have "frozen H cx st tr (fetched op s\<lparr>ev_running := False\<rparr>)" by (simp add: frozen_def stack_words_def)
  moreover have "frozen H cx st tr t \<Longrightarrow> frozen H cx st tr (t\<lparr>ev_pc := n\<rparr>)" for t n
    by (simp add: frozen_def stack_words_def)
  ultimately have "wpM (fetch_step rt cx code table op) (\<lambda>_. frozen H cx st tr) (\<lambda>_. frozen H cx st tr) (fetched op s)"
    by (auto simp: fetch_step_def wp_rules split: flow.split intro!: wp_mono [OF keepsD [OF static.op_keeps f]])
  then show ?thesis
    unfolding fetch_unfold [OF True] op_def [symmetric]
    using assms by (auto simp: fetch_charge_def consume_wp wp_rules Let_def)
qed (simp add: evm_fetch_def wp_rules assms)

lemma impl_frozen:
  assumes "kernels_ok H rt cx code" "frozen H cx st tr (evm_reset code s)" "execute_bytecode_impl rt cx code s = Some (r, t)"
  shows "frozen H cx st tr t"
proof (rule impl_rule [OF assms(1,3), where Q = "\<lambda>_. frozen H cx st tr t"])
  fix s' x
  assume start: "started H cx code (evm_reset code s) s'"
    and run: "evm_loop rt cx code (evm_build_jumpdest_table code) s' = Some (x, t)"
  have "frozen H cx st tr s'" using start assms(2) took_frozen by (auto simp: started_def)
  with run show "frozen H cx st tr t"
  proof (rule loop_rule [where I = "frozen H cx st tr"])
    fix s assume s: "frozen H cx st tr s"
    show "wpM (evm_iter rt cx code (evm_build_jumpdest_table code))
        (\<lambda>fl t. if fl = Break then frozen H cx st tr t else frozen H cx st tr t) (\<lambda>e. frozen H cx st tr) s"
      by (rule iter_wp [OF assms(1)]) (auto intro: fetch_frozen s took_frozen lost_frozen)
  qed
qed (auto intro: took_frozen lost_frozen assms(2))

text \<open>C28: Whatever code a read-only frame runs and however it ends, the storage and the transient storage are as
  before and no log was added; the world outside has only seen lookups and nested calls marked static: what those
  keep, the whole run keeps, so nothing was created, destroyed, logged or called with the right to write. Of a compiled
  kernel the same is assumed for the segments it runs itself (kernels_ok); without one nothing is assumed.\<close>

theorem static_frame_changes_nothing:
  assumes "cx_read_only cx" "kernels_ok H rt cx code" "static_host H cx" "H (ev_host s)"
    and "execute_bytecode rt cx code s = Some (r, t)"
  shows "ev_storage t = ev_storage s \<and> ev_transient t = ev_transient s \<and> ev_logs t = [] \<and> H (ev_host t)"
proof -
  obtain r' t' where run: "execute_bytecode_impl rt cx code s = Some (r', t')"
    and t: "t = t' \<or> t = t'\<lparr>ev_storage := ev_storage s\<rparr>"
    using assms(5) by (auto simp: execute_bytecode_def Let_def split: option.splits sum.splits if_splits)
  have "frozen H cx (ev_storage s) (ev_transient s) (evm_reset code s)"
    using assms(4) by (simp add: frozen_def evm_reset_def stack_words_def)
  from impl_frozen [OF assms(2) this run] t assms(1,3) show ?thesis by (auto simp: frozen_def)
qed

theorem static_frame_changes_nothing_witness:
  "\<exists>r t. execute_bytecode demo_rt (demo_cx True) [0x5F, 0x5F, 0x5F, 0x5F, 0x5F, 0x5F, 0x5F, 0xF1, 0x5F, 0x5F, 0x55]
       (EVM 100000 7) = Some (r, t) \<and> ev_storage t = Map.empty \<and> ev_logs t = [] \<and> ev_host t = 7"
proof -
  have ro: "cx_read_only (demo_cx True)" by (simp add: demo_cx_def)
  have host: "static_host (\<lambda>h. h = 7) (demo_cx True)" by (simp add: static_host_def demo_cx_def keeps_host_def)
  have start: "ev_host (EVM 100000 7) = (7 :: nat)" "0 \<le> ev_gas_limit (EVM 100000 (7 :: nat))" by (simp_all add: EVM_def)
  from execute_ends [OF demo_kernels start(2)]
  obtain r t where run: "execute_bytecode demo_rt (demo_cx True)
      [0x5F, 0x5F, 0x5F, 0x5F, 0x5F, 0x5F, 0x5F, 0xF1, 0x5F, 0x5F, 0x55] (EVM 100000 7) = Some (r, t)" by fast
  from static_frame_changes_nothing [OF ro demo_kernels host start(1) run] run show ?thesis
    by (simp add: EVM_def)
qed

section \<open>Only instructions are executed\<close>

lemma pop_wp:
  assumes "stack_words s" "\<And>e. R e s"
    and "\<And>n st. stack_words (s\<lparr>ev_stack := st\<rparr>) \<Longrightarrow> wpM (f n) Q R (s\<lparr>ev_stack := st\<rparr>)"
  shows "wpM (bindM pop f) Q R s"
  using assms(1) by (cases "ev_stack s") (auto simp: pop_def wp_rules stack_words_def assms(2) intro!: assms(3))

lemma dispatch_push: "0x60 \<le> op \<Longrightarrow> op \<le> 0x7F \<Longrightarrow> evm_dispatch rt cx code table op = op_push code op"
  by (simp add: evm_dispatch_def elif_def op_push_def)

lemma dispatch_jump:
  "evm_dispatch rt cx code table 0x56 = Some (bindM pop (jump_to code table))"
  "evm_dispatch rt cx code table 0x57
     = Some (pop2 (\<lambda>dest cond. if cond \<noteq> 0 then jump_to code table dest else returnM Next))"
  by (simp_all add: evm_dispatch_def elif_def op_push_def op_arith_def arith2_def op_env_def op_log_def op_block_def
      op_data_def)

text \<open>After an instruction at \<open>pc\<close>: the loop goes on at the instruction behind it, or at a jump destination.\<close>

definition lands :: "byte list \<Rightarrow> (nat \<times> string \<times> nat) list \<Rightarrow> nat \<Rightarrow> flow \<Rightarrow> 'h evm \<Rightarrow> bool" where
  "lands code T pc fl t \<longleftrightarrow> stack_words t \<and> ev_trace t = T
     \<and> (fl = Next \<longrightarrow> ev_pc t + 1 = next_pc code pc)
     \<and> (fl = Continue \<longrightarrow> ev_pc t = pc \<or> instr_start code (ev_pc t))"

lemma jump_lands:
  assumes "stack_words s" "ev_trace s = T"
  shows "wpM (jump_to code (evm_build_jumpdest_table code) d) (lands code T pc) (\<lambda>_ t. ev_trace t = T) s"
  using assms by (auto simp: jump_to_def wp_rules lands_def stack_words_def is_jumpdest_iff)

lemma op_lands:
  assumes "stack_words s" "ev_trace s = T" "ev_pc s = pc" "pc < length code"
  defines "op \<equiv> unat (code ! pc)"
  shows "wpM (evm_op rt cx code (evm_build_jumpdest_table code) op) (lands code T pc) (\<lambda>_ t. ev_trace t = T) s"
proof -
  consider (push) "0x60 \<le> op \<and> op \<le> 0x7F" | (jump) "op = 0x56" | (jumpi) "op = 0x57"
    | (other) "\<not> (0x60 \<le> op \<and> op \<le> 0x7F)" "op \<noteq> 0x56" "op \<noteq> 0x57" by blast
  then show ?thesis
  proof cases
    case push
    then show ?thesis
      using assms(1-3) u256_word_mask
      by (auto simp: evm_op_def dispatch_push op_push_def Let_def wp_rules push_def lands_def stack_words_def next_pc_def
          simp flip: op_def)
  next
    case jump
    then show ?thesis
      using assms(1,2) by (auto simp: evm_op_def dispatch_jump intro!: pop_wp jump_lands)
  next
    case jumpi
    then have "next_pc code pc = pc + 1" by (simp add: next_pc_def Let_def flip: op_def)
    then have body: "wpM (if c \<noteq> 0 then jump_to code (evm_build_jumpdest_table code) d else returnM Next)
        (lands code T pc) (\<lambda>_ t. ev_trace t = T) t"
      if "stack_words t" "ev_trace t = T" "ev_pc t = pc" for c d :: int and t
      using that by (auto simp: wp_rules lands_def [of _ _ _ Next] intro!: jump_lands)
    have "wpM (pop2 (\<lambda>dest cond. if cond \<noteq> 0 then jump_to code (evm_build_jumpdest_table code) dest else returnM Next))
        (lands code T pc) (\<lambda>_ t. ev_trace t = T) s"
      unfolding pop2_def using assms(1-3) by (intro pop_wp body) simp_all
    then show ?thesis unfolding evm_op_def jumpi dispatch_jump by simp
  next
    case other
    have "at_pc pc T s" using assms(1-3) by (simp add: at_pc_def)
    moreover have "next_pc code pc = pc + 1" using other(1) by (auto simp: next_pc_def Let_def simp flip: op_def)
    ultimately show ?thesis
      using other by (intro wp_mono [OF keepsD [OF stays.op_keeps]]) (auto simp: at_pc_def lands_def spent_def)
  qed
qed

text \<open>What a trace of the code may hold.\<close>

definition trace_sound :: "byte list \<Rightarrow> (nat \<times> string \<times> nat) list \<Rightarrow> bool" where
  "trace_sound code T \<longleftrightarrow>
     list_all (\<lambda>(pc, name, depth). instr_start code pc \<and> pc < length code \<and> name = opcode_name (unat (code ! pc))) T"

definition on_track :: "byte list \<Rightarrow> 'h evm \<Rightarrow> bool" where
  "on_track code s \<longleftrightarrow> stack_words s \<and> instr_start code (ev_pc s) \<and> trace_sound code (ev_trace s)"

lemma lands_on_track:
  assumes "lands code T pc fl t" "trace_sound code T" "instr_start code pc" "pc < length code" "fl \<noteq> Break"
  shows "on_track code (if fl = Next then t\<lparr>ev_pc := ev_pc t + 1\<rparr> else t)"
  using assms reach_step [OF assms(3,4)] by (cases fl) (auto simp: lands_def on_track_def stack_words_def)

lemma fetch_on_track:
  assumes "on_track code s"
  shows "wpM (evm_fetch rt cx code (evm_build_jumpdest_table code))
    (\<lambda>fl t. trace_sound code (ev_trace t) \<and> (fl \<noteq> Break \<longrightarrow> on_track code t)) (\<lambda>_ t. trace_sound code (ev_trace t)) s"
proof (cases "ev_pc s < length code")
  case True
  define op where "op = unat (code ! ev_pc s)"
  define s1 where "s1 = fetched op s"
  have T: "trace_sound code (ev_trace s1)" "stack_words s1" "ev_pc s1 = ev_pc s" and old: "trace_sound code (ev_trace s)"
    using assms True by (auto simp: s1_def fetched_def on_track_def trace_sound_def stack_words_def op_def)
  note op = op_lands [OF T(2) refl T(3), of code rt cx, folded op_def, OF True]
  have track: "lands code (ev_trace s1) (ev_pc s) fl t \<Longrightarrow> fl \<noteq> Break
      \<Longrightarrow> on_track code (if fl = Next then t\<lparr>ev_pc := ev_pc t + 1\<rparr> else t)" for fl t
    using assms True T(1) by (intro lands_on_track) (auto simp: on_track_def)
  have "wpM (fetch_step rt cx code (evm_build_jumpdest_table code) op)
      (\<lambda>fl t. trace_sound code (ev_trace t) \<and> (fl \<noteq> Break \<longrightarrow> on_track code t)) (\<lambda>_ t. trace_sound code (ev_trace t)) s1"
  proof (cases "op = 0")
    case False
    have cont: "wpM (case fl of Next \<Rightarrow> bindM (modM (\<lambda>s. s\<lparr>ev_pc := ev_pc s + 1\<rparr>)) (\<lambda>_. returnM Next) | _ \<Rightarrow> returnM fl)
        (\<lambda>fl t. trace_sound code (ev_trace t) \<and> (fl \<noteq> Break \<longrightarrow> on_track code t)) (\<lambda>_ t. trace_sound code (ev_trace t)) t"
      if "lands code (ev_trace s1) (ev_pc s) fl t" for fl t
      using track [OF that] that T(1) by (cases fl) (auto simp: wp_rules lands_def)
    show ?thesis
      unfolding fetch_step_def if_not_P [OF False] wp_bind by (rule wp_mono [OF op]) (simp_all only: cont T(1))
  qed (use T(1) in \<open>simp add: fetch_step_def wp_rules\<close>)
  then show ?thesis
    unfolding fetch_unfold [OF True] op_def [symmetric] s1_def [symmetric]
    using old by (auto simp: fetch_charge_def consume_wp wp_rules Let_def)
qed (use assms in \<open>simp add: evm_fetch_def wp_rules on_track_def\<close>)

lemma segment_on_track:
  assumes "on_track code s" "took_segment H cx code s r t"
  shows "trace_sound code (ev_trace t) \<and> (r \<in> {''host'', ''handoff''} \<longrightarrow> on_track code t)"
proof -
  from assms(2) obtain u seg where u: "in_place H cx s u" "segment_ok cx code s seg" "t = after_segment seg u"
    "r = sg_stop_reason seg"
    unfolding took_segment_def by blast
  with assms(1) show ?thesis
    by (auto simp: on_track_def after_segment_def segment_ok_def stack_words_def in_placeD [OF u(1)])
qed

lemma lost_on_track: "on_track code s \<Longrightarrow> lost_segment H cx code s t \<Longrightarrow> trace_sound code (ev_trace t)"
  by (auto simp: lost_segment_def on_track_def after_segment_def in_placeD)

lemma impl_on_track:
  fixes rt :: "'h evm_rt"
  assumes "kernels_ok H rt cx code" "execute_bytecode_impl rt cx code s = Some (r, t)"
  shows "trace_sound code (ev_trace t)"
proof -
  have s0: "on_track code (evm_reset code s)"
    by (simp add: on_track_def evm_reset_def stack_words_def trace_sound_def reach_here)
  show ?thesis
  proof (rule impl_rule [OF assms, where Q = "\<lambda>_. trace_sound code (ev_trace t)"])
    fix s' x
    assume start: "started H cx code (evm_reset code s) s'"
      and run: "evm_loop rt cx code (evm_build_jumpdest_table code) s' = Some (x, t)"
    have "on_track code s'" using start s0 by (auto simp: started_def dest: segment_on_track)
    with run show "trace_sound code (ev_trace t)"
    proof (rule loop_rule [where I = "on_track code"])
      fix s :: "'h evm"
      assume s: "on_track code s"
      have "wpM (evm_iter rt cx code (evm_build_jumpdest_table code))
          (\<lambda>fl t. trace_sound code (ev_trace t) \<and> (fl \<noteq> Break \<longrightarrow> on_track code t))
          (\<lambda>_ t. trace_sound code (ev_trace t)) s"
        by (rule iter_wp [OF assms(1)])
          (use s segment_on_track [OF s] lost_on_track [OF s] in \<open>auto intro: fetch_on_track\<close>)
      then show "wpM (evm_iter rt cx code (evm_build_jumpdest_table code))
          (\<lambda>fl t. if fl = Break then trace_sound code (ev_trace t) else on_track code t)
          (\<lambda>e t. trace_sound code (ev_trace t)) s"
        by (rule wp_mono) auto
    qed (simp add: on_track_def)
  qed (use segment_on_track [OF s0] lost_on_track [OF s0] in auto)
qed

text \<open>The scan and the interpreter know the same opcodes.\<close>

lemma groups_known:
  "op_push code op \<noteq> None \<longleftrightarrow> 0x60 \<le> op \<and> op \<le> 0x7F"
  "op_arith rt op \<noteq> None \<longleftrightarrow> op \<in> {0x01, 0x02, 0x03, 0x04, 0x05, 0x06, 0x07, 0x08, 0x09, 0x0A, 0x0B,
     0x10, 0x11, 0x12, 0x13, 0x14, 0x15, 0x16, 0x17, 0x18, 0x19, 0x1A, 0x1B, 0x1C, 0x1D, 0x20}"
  "op_env rt cx op \<noteq> None \<longleftrightarrow> op \<in> {0x30, 0x31, 0x32, 0x33, 0x34, 0x35, 0x36, 0x37,
     0x38, 0x39, 0x3A, 0x3B, 0x3C, 0x3D, 0x3E, 0x3F}"
  "op_log rt cx op \<noteq> None \<longleftrightarrow> 0xA0 \<le> op \<and> op \<le> 0xA4"
  "op_block rt cx op \<noteq> None \<longleftrightarrow> op \<in> {0x40, 0x41, 0x42, 0x43, 0x44, 0x45, 0x46, 0x47, 0x48, 0x49, 0x4A}"
  "op_data rt cx code table op \<noteq> None \<longleftrightarrow> (0x80 \<le> op \<and> op \<le> 0x8F) \<or> (0x90 \<le> op \<and> op \<le> 0x9F) \<or> op \<in> 
     {0x50, 0x51, 0x52, 0x53, 0x54, 0x55, 0x56, 0x57, 0x58, 0x59, 0x5A, 0x5B, 0x5C, 0x5D, 0x5E, 0x5F}"
  "op_system rt cx op \<noteq> None \<longleftrightarrow> op \<in> {0xF0, 0xF1, 0xF2, 0xF3, 0xF4, 0xF5, 0xFA, 0xFD, 0xFE, 0xFF}"
  by (auto simp: op_push_def op_arith_def arith2_def op_env_def op_log_def op_block_def op_data_def op_system_def
      split: option.splits if_splits)

lemma elif_some: "elif a b \<noteq> None \<longleftrightarrow> a \<noteq> None \<or> b \<noteq> None"
  by (simp add: elif_def split: option.split)

lemma supported_iff:
  "evm_opcode_supported op \<longleftrightarrow> (0x60 \<le> op \<and> op \<le> 0x7F) \<or> (0x80 \<le> op \<and> op \<le> 0x8F) \<or> (0x90 \<le> op \<and> op \<le> 0x9F)
     \<or> (0xA0 \<le> op \<and> op \<le> 0xA4) \<or> op \<in> set EVM_SUPPORTED_SINGLE_OPCODES"
  by (auto simp: evm_opcode_supported_def)

lemma dispatch_known:
  fixes rt :: "'h evm_rt"
  shows "op = 0 \<or> evm_dispatch rt cx code table op \<noteq> None \<longleftrightarrow> evm_opcode_supported op"
proof -
  have known: "evm_dispatch rt cx code table op \<noteq> None \<longleftrightarrow>
      (op_push code op :: ('h, flow) evmM option) \<noteq> None \<or> op_arith rt op \<noteq> None \<or> op_env rt cx op \<noteq> None \<or> op_log rt cx op \<noteq> None
      \<or> op_block rt cx op \<noteq> None \<or> op_data rt cx code table op \<noteq> None \<or> op_system rt cx op \<noteq> None"
    by (simp only: evm_dispatch_def elif_some)
  show ?thesis
    unfolding known groups_known supported_iff EVM_SUPPORTED_SINGLE_OPCODES_def list.set
    by (intro iffI; elim disjE conjE insertE emptyE; simp)
qed

text \<open>C29: Every instruction the loop traces stands at a position that is an instruction of the code (never inside
  the data of a push, since a jump only goes to a marked destination) and is traced under the name of the byte
  there; and if the static check of the code found nothing, the interpreter has a branch for it, so that it is never
  refused as unsupported.\<close>

theorem only_instructions_run:
  assumes "kernels_ok (\<lambda>_. True) rt cx code" "execute_bytecode rt cx code s = Some (r, t)"
  shows "list_all (\<lambda>(pc, name, depth).
      instr_start code pc \<and> pc < length code \<and> name = opcode_name (unat (code ! pc))
      \<and> (evm_scan_bytecode code = []
           \<longrightarrow> unat (code ! pc) = 0 \<or> evm_dispatch rt cx code (evm_build_jumpdest_table code) (unat (code ! pc)) \<noteq> None))
    (ev_trace t)"
proof -
  obtain r' t' where run: "execute_bytecode_impl rt cx code s = Some (r', t')"
    and t: "t = t' \<or> t = t'\<lparr>ev_storage := ev_storage s\<rparr>"
    using assms(2) by (auto simp: execute_bytecode_def Let_def split: option.splits sum.splits if_splits)
  from impl_on_track [OF assms(1) run] t have "trace_sound code (ev_trace t)" by auto
  then show ?thesis
    unfolding trace_sound_def
    by (rule list.pred_mono_strong) (auto simp del: not_None_eq simp: dispatch_known dest: scan_clean)
qed

lemma demo_trace:
  "map_option (\<lambda>(r, t). ev_trace t) (execute_bytecode demo_rt (demo_cx False) [0x60, 0x5B, 0x5B, 0] (EVM 1000 7))
     = Some [(0, ''PUSH1'', 0), (2, ''JUMPDEST'', 1), (3, ''STOP'', 1)]"
  by code_simp

theorem only_instructions_run_witness:
  "instr_start [0x60, 0x5B, 0x5B, 0] 2 \<and> instr_start [0x60, 0x5B, 0x5B, 0] 3"
proof -
  obtain r t where run: "execute_bytecode demo_rt (demo_cx False) [0x60, 0x5B, 0x5B, 0] (EVM 1000 7) = Some (r, t)"
    and trace: "ev_trace t = [(0, ''PUSH1'', 0), (2, ''JUMPDEST'', 1), (3, ''STOP'', 1)]"
    using demo_trace by (auto simp: map_option_case split: option.splits)
  from only_instructions_run [OF demo_kernels run] show ?thesis by (simp add: trace)
qed

end
