(* ===== verification/EvmNotes.thy ===== *)
theory EvmNotes
  imports EvmProps
begin

text \<open>
  Runs of the interpreter that show where it leaves the rules of the machine it follows: transient storage is not rolled
  back with the storage, a frame that stops without data counts as failed, and an access of length zero grows the
  memory.
\<close>

lemma transient_survives_revert:
  "map_option (\<lambda>(r, t). map_sum (\<lambda>_. ()) (\<lambda>res. (er_success res, er_reverted res)) r = Inr (False, True) \<and> ev_storage t 1 = None \<and> ev_transient t 1 = Some 1)
     (execute_bytecode demo_rt (demo_cx False) [0x60, 1, 0x60, 1, 0x55, 0x60, 1, 0x60, 1, 0x5D, 0x5F, 0x5F, 0xFD] (EVM 100000 7)) = Some True"
  by code_simp

lemma stop_is_no_success:
  "map_option (\<lambda>(r, t). map_sum (\<lambda>_. ()) (\<lambda>res. (er_success res, er_reverted res)) r)
     (execute_bytecode demo_rt (demo_cx False) [0x60, 1, 0x60, 1, 0x55, 0] (EVM 100000 7)) = Some (Inr (False, False))"
  by code_simp

lemma empty_return_grows_memory:
  "map_option (\<lambda>(r, t). length (ev_memory t))
     (execute_bytecode demo_rt (demo_cx False) [0x5F, 0x60, 3, 0xF3] (EVM 100000 7)) = Some 3"
  by code_simp

end
