(* ===== verification/NestedCall.thy ===== *)
theory NestedCall
  imports Amount Evm
begin

text \<open>
  What a nested call or a creation leaves behind: the Python reference of \<open>src/crypto/native.py\<close> for the effects
  policy (\<open>_evm_plan_nested_call_effects_py\<close>), the write-back operations it becomes
  (\<open>_evm_plan_nested_call_writeback_py\<close>, \<open>_evm_plan_create_writeback_py\<close>), the decoding of a call frame from the
  stack and the application of the operations to an account map (\<open>_evm_apply_writeback_ops_py\<close>). An account row is a
  dictionary (\<open>pydict\<close>); a float in it stands as its \<open>str\<close>, which is all \<open>to_satoshi\<close> reads of one. \<open>json.dumps\<close> of a
  storage map and \<open>from_satoshi_float\<close> are the parameters \<open>dumps\<close> and \<open>sat_float\<close>.
\<close>

section \<open>The effects policy\<close>

definition call_kinds :: "string list" where
  "call_kinds = [''call'', ''callcode'', ''delegatecall'', ''staticcall'']"

record call_effects =
  ce_kind :: string
  ce_caller :: string
  ce_target :: string
  ce_nested_read_only :: bool
  ce_persist_storage :: bool
  ce_persist_value :: bool
  ce_persist_logs :: bool
  ce_storage_owner :: string
  ce_exec_address :: string
  ce_value_from :: string
  ce_value_to :: string
  ce_effective_value_wei :: int
  ce_reject_create :: bool
  ce_success :: bool

definition plan_nested_call_effects ::
  "string \<Rightarrow> bool \<Rightarrow> string \<Rightarrow> string \<Rightarrow> int \<Rightarrow> bool \<Rightarrow> string + call_effects" where
  "plan_nested_call_effects kind parent_read_only caller target value_wei success =
     (let kind_n = py_lower (py_strip kind)
      in if kind_n \<notin> set call_kinds then Inl ''kind must be call|callcode|delegatecall|staticcall''
         else
           let value_wei = max 0 value_wei;
               nested_read_only = (parent_read_only \<or> kind_n = ''staticcall'');
               own = (kind_n \<in> {''delegatecall'', ''callcode''});
               persists = (success \<and> \<not> nested_read_only);
               pays = (persists \<and> kind_n \<in> {''call'', ''callcode''} \<and> value_wei > 0)
           in Inr \<lparr>ce_kind = kind_n, ce_caller = caller, ce_target = target, ce_nested_read_only = nested_read_only,
                ce_persist_storage = persists, ce_persist_value = pays, ce_persist_logs = (persists \<and> own),
                ce_storage_owner = (if own then ''caller'' else ''target''),
                ce_exec_address = (if own then ''caller'' else ''target''),
                ce_value_from = (if pays then ''caller'' else []), ce_value_to = (if pays then ''target'' else []),
                ce_effective_value_wei = (if pays then value_wei else 0),
                ce_reject_create = nested_read_only, ce_success = success\<rparr>)"

section \<open>Write-back operations\<close>

text \<open>A storage argument: a dictionary, or another value.\<close>

datatype storage_arg = StMap "(int \<times> int) list" | StRaw pyval

record 'l wb_op =
  wo_op :: string
  wo_address :: string
  wo_storage :: storage_arg
  wo_code :: string
  wo_nonce :: int
  wo_balance_satoshi :: "int option"
  wo_balance :: pyval
  wo_from :: string
  wo_to :: string
  wo_value_wei :: int
  wo_logs :: "'l list"

definition wb_blank :: "'l wb_op" where
  "wb_blank = \<lparr>wo_op = [], wo_address = [], wo_storage = StRaw PNone, wo_code = [], wo_nonce = 0,
     wo_balance_satoshi = None, wo_balance = PNone, wo_from = [], wo_to = [], wo_value_wei = 0, wo_logs = []\<rparr>"

text \<open>
  The storage of the callee: a dictionary as it is, a string through \<open>json.loads\<close> (the parameter \<open>loads\<close>, \<open>None\<close>
  when that or the conversion of an entry raises, and then the map is empty).
\<close>

definition storage_map :: "(string \<Rightarrow> (int \<times> int) list option) \<Rightarrow> storage_arg \<Rightarrow> (int \<times> int) list" where
  "storage_map loads st =
     (case st of
        StMap m \<Rightarrow> m
      | StRaw (PStr s) \<Rightarrow> (case loads s of Some m \<Rightarrow> m | None \<Rightarrow> [])
      | StRaw _ \<Rightarrow> [])"

definition plan_nested_call_writeback ::
  "(string \<Rightarrow> (int \<times> int) list option) \<Rightarrow> string \<Rightarrow> bool \<Rightarrow> string \<Rightarrow> string \<Rightarrow> int \<Rightarrow> bool \<Rightarrow> storage_arg \<Rightarrow> 'l list
     \<Rightarrow> string + (call_effects \<times> 'l wb_op list)" where
  "plan_nested_call_writeback loads kind parent_read_only caller target value_wei success storage logs =
     bind_sum (plan_nested_call_effects kind parent_read_only caller target value_wei success) (\<lambda>base.
       let set_ops =
             (if ce_persist_storage base
              then [wb_blank\<lparr>wo_op := ''set_storage'',
                      wo_address := (if ce_storage_owner base = ''caller'' then caller else target),
                      wo_storage := StMap (storage_map loads storage)\<rparr>]
              else []);
           pay_ops =
             (if ce_persist_value base \<and> ce_effective_value_wei base > 0
              then [wb_blank\<lparr>wo_op := ''transfer_value'',
                      wo_from := (if ce_value_from base = ''caller'' then caller else target),
                      wo_to := (if ce_value_to base = ''target'' then target else caller),
                      wo_value_wei := ce_effective_value_wei base\<rparr>]
              else []);
           log_ops =
             (if ce_persist_logs base \<and> logs \<noteq> []
              then [wb_blank\<lparr>wo_op := ''append_logs'', wo_address := caller, wo_logs := logs\<rparr>]
              else [])
       in Inr (base, set_ops @ pay_ops @ log_ops))"

definition storage_str :: "((int \<times> int) list \<Rightarrow> string) \<Rightarrow> storage_arg \<Rightarrow> string" where
  "storage_str dumps st = (case st of StMap m \<Rightarrow> dumps m | StRaw PNone \<Rightarrow> ''{}'' | StRaw v \<Rightarrow> py_str v)"

record 'l create_plan =
  cp_deployer :: string
  cp_address :: string
  cp_value_wei :: int
  cp_success :: bool
  cp_reverted :: bool
  cp_ops :: "'l wb_op list"

definition plan_create_writeback ::
  "((int \<times> int) list \<Rightarrow> string) \<Rightarrow> string \<Rightarrow> string \<Rightarrow> int \<Rightarrow> bool \<Rightarrow> string \<Rightarrow> storage_arg \<Rightarrow> 'l create_plan" where
  "plan_create_writeback dumps deployer contract_address value_wei success code_hex storage =
     (let value_wei = max 0 value_wei;
          ops = (if success \<and> contract_address \<noteq> []
                 then wb_blank\<lparr>wo_op := ''save_account'', wo_address := contract_address, wo_balance := PStr ''0.0'',
                        wo_code := code_hex, wo_storage := StRaw (PStr (storage_str dumps storage))\<rparr>
                      # (if value_wei > 0 \<and> deployer \<noteq> []
                         then [wb_blank\<lparr>wo_op := ''transfer_value'', wo_from := deployer, wo_to := contract_address,
                                 wo_value_wei := value_wei\<rparr>]
                         else [])
                 else [])
      in \<lparr>cp_deployer = deployer, cp_address = contract_address, cp_value_wei = value_wei, cp_success = success,
          cp_reverted = (\<not> success), cp_ops = ops\<rparr>)"

section \<open>Applying them\<close>

type_synonym wb_accounts = "(string \<times> pydict) list"

definition WEI_PER_SATOSHI :: int where
  "WEI_PER_SATOSHI = 1000000000000"

text \<open>The balance of a row: \<open>balance_satoshi\<close>, or the legacy \<open>balance\<close> through \<open>to_satoshi\<close>.\<close>

definition row_sat :: "pydict \<Rightarrow> string + int" where
  "row_sat row =
     (if pget row ''balance_satoshi'' \<noteq> PNone
      then bind_sum (int_or_raise (pget row ''balance_satoshi'')) (\<lambda>n. Inr (max 0 n))
      else bind_sum (to_satoshi (py_or (pget row ''balance'') (PInt 0))) (\<lambda>n. Inr (max 0 n)))"

fun all_sats :: "wb_accounts \<Rightarrow> string + (string \<times> int) list" where
  "all_sats [] = Inr []"
| "all_sats ((a, row) # as) =
     bind_sum (row_sat row) (\<lambda>n. bind_sum (all_sats as) (\<lambda>ns. Inr (dset a n ns)))"

fun transfers_covered :: "(string \<times> int) list \<Rightarrow> 'l wb_op list \<Rightarrow> string + unit" where
  "transfers_covered bals [] = Inr ()"
| "transfers_covered bals (op # ops) =
     (let value_wei = max 0 (wo_value_wei op); sat = value_wei div WEI_PER_SATOSHI
      in if wo_op op \<noteq> ''transfer_value'' \<or> wo_from op = [] \<or> wo_to op = [] \<or> value_wei \<le> 0 \<or> sat \<le> 0
         then transfers_covered bals ops
         else
           let have_sat = dget_or bals (wo_from op) 0
           in if have_sat < sat then Inl ''insufficient_writeback_value''
              else let bals = dset (wo_from op) (have_sat - sat) bals
                   in transfers_covered (dset (wo_to op) (dget_or bals (wo_to op) 0 + sat) bals) ops)"

definition writeback_transfers_covered :: "wb_accounts \<Rightarrow> 'l wb_op list \<Rightarrow> string + unit" where
  "writeback_transfers_covered accounts ops = bind_sum (all_sats accounts) (\<lambda>bals. transfers_covered bals ops)"

definition wb_new_row :: "string \<Rightarrow> pydict" where
  "wb_new_row addr =
     [(''address'', PStr addr), (''balance_satoshi'', PInt 0), (''balance'', PStr ''0.0''), (''nonce'', PInt 0),
      (''code'', PStr []), (''storage'', PStr ''{}'')]"

definition ensure_row :: "string \<Rightarrow> wb_accounts \<Rightarrow> wb_accounts" where
  "ensure_row addr accounts = (case dget accounts addr of Some _ \<Rightarrow> accounts | None \<Rightarrow> dset addr (wb_new_row addr) accounts)"

definition the_row :: "wb_accounts \<Rightarrow> string \<Rightarrow> pydict" where
  "the_row accounts addr = dget_or accounts addr []"

definition set_sat :: "(int \<Rightarrow> pyval) \<Rightarrow> int \<Rightarrow> pydict \<Rightarrow> pydict" where
  "set_sat sat_float sat row =
     (let sat = max 0 sat in dset ''balance'' (sat_float sat) (dset ''balance_satoshi'' (PInt sat) row))"

record 'l wb_state =
  ws_accounts :: wb_accounts
  ws_log_batches :: "(string \<times> 'l list) list"
  ws_touched :: "string list"
  ws_applied :: nat

definition touch :: "string \<Rightarrow> 'l wb_state \<Rightarrow> 'l wb_state" where
  "touch addr w = (if addr \<in> set (ws_touched w) then w else w\<lparr>ws_touched := ws_touched w @ [addr]\<rparr>)"

definition count_applied :: "'l wb_state \<Rightarrow> 'l wb_state" where
  "count_applied w = w\<lparr>ws_applied := ws_applied w + 1\<rparr>"

definition put_row :: "string \<Rightarrow> pydict \<Rightarrow> 'l wb_state \<Rightarrow> 'l wb_state" where
  "put_row addr row w = w\<lparr>ws_accounts := dset addr row (ws_accounts w)\<rparr>"

definition op_storage :: "((int \<times> int) list \<Rightarrow> string) \<Rightarrow> storage_arg \<Rightarrow> pyval" where
  "op_storage dumps st =
     (case st of StMap m \<Rightarrow> PStr (dumps m) | StRaw v \<Rightarrow> PStr (py_str (py_or v (PStr ''{}''))))"

definition wb_set_storage :: "((int \<times> int) list \<Rightarrow> string) \<Rightarrow> 'l wb_op \<Rightarrow> 'l wb_state \<Rightarrow> string + 'l wb_state" where
  "wb_set_storage dumps op w =
     (let addr = wo_address op
      in if addr = [] then Inr w
         else let accs = ensure_row addr (ws_accounts w); row = the_row accs addr;
                  st = (case wo_storage op of StRaw v \<Rightarrow> (if py_truthy v then wo_storage op else StMap []) | s \<Rightarrow> s)
              in Inr (count_applied (touch addr (put_row addr (dset ''storage'' (op_storage dumps st) row)
                   (w\<lparr>ws_accounts := accs\<rparr>)))))"

definition wb_save_account ::
  "((int \<times> int) list \<Rightarrow> string) \<Rightarrow> (int \<Rightarrow> pyval) \<Rightarrow> 'l wb_op \<Rightarrow> 'l wb_state \<Rightarrow> string + 'l wb_state" where
  "wb_save_account dumps sat_float op w =
     (let addr = wo_address op
      in if addr = [] then Inr w
         else let accs = ensure_row addr (ws_accounts w);
                  row = dset ''storage'' (op_storage dumps (wo_storage op))
                          (dset ''nonce'' (PInt (wo_nonce op)) (dset ''code'' (PStr (wo_code op)) (the_row accs addr)))
              in bind_sum (case wo_balance_satoshi op of
                     Some n \<Rightarrow> Inr n
                   | None \<Rightarrow> to_satoshi (py_or (wo_balance op) (PInt 0))) (\<lambda>sat.
                 Inr (count_applied (touch addr (put_row addr (set_sat sat_float sat row) (w\<lparr>ws_accounts := accs\<rparr>))))))"

definition wb_transfer_value :: "(int \<Rightarrow> pyval) \<Rightarrow> 'l wb_op \<Rightarrow> 'l wb_state \<Rightarrow> string + 'l wb_state" where
  "wb_transfer_value sat_float op w =
     (let from_addr = wo_from op; to_addr = wo_to op; value_wei = max 0 (wo_value_wei op)
      in if from_addr = [] \<or> to_addr = [] \<or> value_wei \<le> 0 then Inr w
         else let sat = value_wei div WEI_PER_SATOSHI
              in if sat = 0 then Inr (count_applied w)
                 else
                   let accs = ensure_row to_addr (ensure_row from_addr (ws_accounts w))
                   in bind_sum (row_sat (the_row accs from_addr)) (\<lambda>have_sat.
                      if have_sat < sat then Inl ''insufficient_writeback_value''
                      else let accs = dset from_addr (set_sat sat_float (have_sat - sat) (the_row accs from_addr)) accs
                           in bind_sum (row_sat (the_row accs to_addr)) (\<lambda>n.
                              let accs = dset to_addr (set_sat sat_float (n + sat) (the_row accs to_addr)) accs
                              in Inr (count_applied (touch to_addr (touch from_addr (w\<lparr>ws_accounts := accs\<rparr>)))))))"

definition wb_append_logs :: "'l wb_op \<Rightarrow> 'l wb_state \<Rightarrow> string + 'l wb_state" where
  "wb_append_logs op w =
     (if wo_logs op = [] then Inr w
      else Inr (count_applied (w\<lparr>ws_log_batches := ws_log_batches w @ [(wo_address op, wo_logs op)]\<rparr>)))"

definition wb_step ::
  "((int \<times> int) list \<Rightarrow> string) \<Rightarrow> (int \<Rightarrow> pyval) \<Rightarrow> 'l wb_op \<Rightarrow> 'l wb_state \<Rightarrow> string + 'l wb_state" where
  "wb_step dumps sat_float op w =
     (let kind = wo_op op
      in if kind = ''set_storage'' then wb_set_storage dumps op w
         else if kind = ''save_account'' then wb_save_account dumps sat_float op w
         else if kind = ''transfer_value'' then wb_transfer_value sat_float op w
         else if kind = ''append_logs'' then wb_append_logs op w
         else Inl (''unsupported_writeback_op:'' @ kind))"

fun wb_run ::
  "((int \<times> int) list \<Rightarrow> string) \<Rightarrow> (int \<Rightarrow> pyval) \<Rightarrow> 'l wb_op list \<Rightarrow> 'l wb_state \<Rightarrow> string + 'l wb_state" where
  "wb_run dumps sat_float [] w = Inr w"
| "wb_run dumps sat_float (op # ops) w = bind_sum (wb_step dumps sat_float op w) (wb_run dumps sat_float ops)"

record 'l wb_result =
  wr_accounts :: wb_accounts
  wr_log_batches :: "(string \<times> 'l list) list"
  wr_applied :: nat
  wr_touched :: "string list"

definition apply_writeback_ops ::
  "((int \<times> int) list \<Rightarrow> string) \<Rightarrow> (int \<Rightarrow> pyval) \<Rightarrow> wb_accounts \<Rightarrow> 'l wb_op list \<Rightarrow> string + 'l wb_result" where
  "apply_writeback_ops dumps sat_float accounts ops =
     bind_sum (writeback_transfers_covered accounts ops) (\<lambda>_.
     bind_sum (wb_run dumps sat_float ops \<lparr>ws_accounts = accounts, ws_log_batches = [], ws_touched = [], ws_applied = 0\<rparr>)
       (\<lambda>w. Inr \<lparr>wr_accounts = map (\<lambda>a. (a, the_row (ws_accounts w) a)) (ws_touched w),
               wr_log_batches = ws_log_batches w, wr_applied = ws_applied w, wr_touched = ws_touched w\<rparr>))"

section \<open>The call frame on the stack\<close>

record call_frame =
  fr_kind :: string
  fr_consumed :: nat
  fr_gas :: int
  fr_to_word :: int
  fr_to_address :: string
  fr_value :: int
  fr_args_offset :: int
  fr_args_size :: int
  fr_ret_offset :: int
  fr_ret_size :: int
  fr_delegate :: bool
  fr_static :: bool
  fr_callcode :: bool
  fr_call_data_hex :: "string option"

definition frame_kinds :: "(nat \<times> string \<times> nat \<times> bool) list" where
  "frame_kinds = [(0xF1, ''call'', 7, True), (0xF2, ''callcode'', 7, True), (0xF4, ''delegatecall'', 6, False),
     (0xFA, ''staticcall'', 6, False)]"

text \<open>
  The words are the stack of the code, its top last; \<open>frame[-i]\<close> is entry \<open>i - 1\<close> of the reversed list. The code returns
  the numbers as their decimal strings.
\<close>

definition decode_nested_call_frame :: "nat \<Rightarrow> int list \<Rightarrow> byte list option \<Rightarrow> string + call_frame" where
  "decode_nested_call_frame op words memory =
     (case dget frame_kinds op of
        None \<Rightarrow> Inl ''op must be CALL/CALLCODE/DELEGATECALL/STATICCALL''
      | Some (kind, consume, has_value) \<Rightarrow>
          if length words < consume then Inl ''stack underflow''
          else let frame = rev (drop (length words - consume) words); k = (if has_value then 1 else 0)
               in Inr \<lparr>fr_kind = kind, fr_consumed = consume, fr_gas = frame ! 0, fr_to_word = frame ! 1,
                    fr_to_address = ''0x'' @ rjust0 40 (hex_digits (nat (frame ! 1 AND (push_bit 160 1 - 1)))),
                    fr_value = (if has_value then frame ! 2 else 0),
                    fr_args_offset = frame ! (2 + k), fr_args_size = frame ! (3 + k),
                    fr_ret_offset = frame ! (4 + k), fr_ret_size = frame ! (5 + k),
                    fr_delegate = (kind = ''delegatecall''), fr_static = (kind = ''staticcall''),
                    fr_callcode = (kind = ''callcode''),
                    fr_call_data_hex = map_option (\<lambda>m. concat (map (\<lambda>b. hex02 (unat b))
                      (evm_memory_slice m (frame ! (2 + k)) (frame ! (3 + k))))) memory\<rparr>)"

end
