(* ===== verification/NestedCallProps.thy ===== *)
theory NestedCallProps
  imports NestedCall
begin

text \<open>
  Applying the write-back of a nested call: money is only moved, between the two parties, and a call that failed or
  was read-only leaves nothing behind. The balance of an address is read off its row; the total of an account map is
  the sum over its addresses. A creation, in contrast, resets the balance of the address it takes
  (\<open>create_burns_balance\<close>).
\<close>

section \<open>Balances\<close>

definition sat_of :: "pydict \<Rightarrow> int" where
  "sat_of row = (case row_sat row of Inr n \<Rightarrow> n | Inl _ \<Rightarrow> 0)"

definition wb_balance :: "wb_accounts \<Rightarrow> string \<Rightarrow> int" where
  "wb_balance accounts a = sat_of (the_row accounts a)"

definition wb_total :: "wb_accounts \<Rightarrow> int" where
  "wb_total accounts = (\<Sum>a\<in>fst ` set accounts. wb_balance accounts a)"

definition wb_merge :: "wb_accounts \<Rightarrow> 'l wb_result \<Rightarrow> wb_accounts" where
  "wb_merge accounts res = foldl (\<lambda>m (a, row). dset a row m) accounts (wr_accounts res)"

lemma row_sat_dset [simp]: "k \<noteq> ''balance_satoshi'' \<Longrightarrow> k \<noteq> ''balance'' \<Longrightarrow> row_sat (dset k v row) = row_sat row"
  by (simp add: row_sat_def pget_def)

lemma row_sat_new [simp]: "row_sat (wb_new_row a) = Inr 0"
  by (simp add: row_sat_def wb_new_row_def pget_def dget_or_def int_or_raise_def)

lemma row_sat_set [simp]: "row_sat (set_sat f n row) = Inr (max 0 n)"
  by (simp add: row_sat_def set_sat_def pget_def int_or_raise_def Let_def)

lemma row_sat_Nil [simp]: "row_sat [] = Inr 0"
  by (simp add: row_sat_def pget_def dget_or_def py_or_def to_satoshi_def scale_down_def decimal_of_int_def round28_def
      dec_len.simps Let_def)

lemma sat_of_simps [simp]: "sat_of [] = 0" "sat_of (wb_new_row a) = 0" "sat_of (set_sat f n row) = max 0 n"
  "k \<noteq> ''balance_satoshi'' \<Longrightarrow> k \<noteq> ''balance'' \<Longrightarrow> sat_of (dset k v row) = sat_of row"
  by (simp_all add: sat_of_def)

lemma row_sat_Inr: "row_sat row = Inr n \<Longrightarrow> sat_of row = n"
  by (simp add: sat_of_def)

lemma row_sat_nonneg: "row_sat row = Inr n \<Longrightarrow> 0 \<le> n"
  by (auto simp: row_sat_def bind_sum_Inr split: if_splits)

lemma the_row_dset [simp]: "the_row (dset a row accs) b = (if a = b then row else the_row accs b)"
  by (simp add: the_row_def)

lemma ensure_balance [simp]: "wb_balance (ensure_row a accs) = wb_balance accs"
  by (rule ext) (auto simp: wb_balance_def ensure_row_def the_row_def dget_or_def split: option.split)

lemma dset_balance: "wb_balance (dset a row accs) = (wb_balance accs)(a := sat_of row)"
  by (rule ext) (simp add: wb_balance_def)

lemma ensure_dget: "a \<noteq> b \<Longrightarrow> dget (ensure_row a accs) b = dget accs b"
  by (simp add: ensure_row_def split: option.split)

lemma keys_dom: "fst ` set accs = dom (dget accs)"
  by (simp add: dom_map_of_conv_image_fst)

text \<open>The total, as the sum over any finite set of addresses that has all the accounts.\<close>

lemma total_over: "finite A \<Longrightarrow> fst ` set accs \<subseteq> A \<Longrightarrow> wb_total accs = (\<Sum>a\<in>A. wb_balance accs a)"
  unfolding wb_total_def
  by (rule sum.mono_neutral_left)
    (auto simp: wb_balance_def the_row_def dget_or_def keys_dom domIff split: option.splits)

lemma total_same_balance: "wb_balance accs = wb_balance accs' \<Longrightarrow> wb_total accs = wb_total accs'"
  using total_over [of "fst ` set accs \<union> fst ` set accs'" accs] total_over [of "fst ` set accs \<union> fst ` set accs'" accs']
  by simp

text \<open>A payment from one address to another.\<close>

definition paid :: "string \<Rightarrow> string \<Rightarrow> int \<Rightarrow> (string \<Rightarrow> int) \<Rightarrow> string \<Rightarrow> int" where
  "paid a b n bal = (if a = b then bal else bal(a := bal a - n, b := bal b + n))"

lemma total_paid:
  assumes "wb_balance accs' = paid a b n (wb_balance accs)"
  shows "wb_total accs' = wb_total accs"
proof (cases "a = b")
  case True
  with assms show ?thesis by (intro total_same_balance) (simp add: paid_def)
next
  case False
  define A where "A = insert a (insert b (fst ` set accs \<union> fst ` set accs'))"
  have A: "finite A" "a \<in> A" "b \<in> A - {a}" "fst ` set accs \<subseteq> A" "fst ` set accs' \<subseteq> A" using False by (auto simp: A_def)
  have "(\<Sum>x\<in>A. wb_balance accs' x)
      = wb_balance accs' a + (wb_balance accs' b + (\<Sum>x\<in>A - {a} - {b}. wb_balance accs' x))"
    using A by (simp add: sum.remove)
  also have "(\<Sum>x\<in>A - {a} - {b}. wb_balance accs' x) = (\<Sum>x\<in>A - {a} - {b}. wb_balance accs x)"
    using assms False by (intro sum.cong) (auto simp: paid_def)
  also have "wb_balance accs' a + (wb_balance accs' b + (\<Sum>x\<in>A - {a} - {b}. wb_balance accs x))
      = wb_balance accs a + (wb_balance accs b + (\<Sum>x\<in>A - {a} - {b}. wb_balance accs x))"
    using assms False by (simp add: paid_def)
  also have "\<dots> = (\<Sum>x\<in>A. wb_balance accs x)" using A by (simp add: sum.remove)
  finally show ?thesis using A total_over by simp
qed

section \<open>One operation\<close>

text \<open>What a step leaves: which addresses it touched, and that the others are as before.\<close>

definition wb_within :: "string set \<Rightarrow> 'l wb_state \<Rightarrow> 'l wb_state \<Rightarrow> bool" where
  "wb_within A w w' \<longleftrightarrow>
     (\<forall>a. a \<notin> set (ws_touched w') \<longrightarrow> dget (ws_accounts w') a = dget (ws_accounts w) a)
     \<and> set (ws_touched w) \<subseteq> set (ws_touched w') \<and> set (ws_touched w') \<subseteq> set (ws_touched w) \<union> A"

lemma touched_simps [simp]: "set (ws_touched (touch a w)) = insert a (set (ws_touched w))"
  "ws_touched (count_applied w) = ws_touched w" "ws_accounts (count_applied w) = ws_accounts w"
  "ws_accounts (touch a w) = ws_accounts w" "ws_touched (put_row a r w) = ws_touched w"
  "ws_accounts (put_row a r w) = dset a r (ws_accounts w)"
  "ws_log_batches (touch a w) = ws_log_batches w" "ws_log_batches (count_applied w) = ws_log_batches w"
  "ws_log_batches (put_row a r w) = ws_log_batches w"
  by (auto simp: touch_def count_applied_def put_row_def)

lemma set_storage_step:
  assumes "wb_set_storage dumps op w = Inr w'"
  shows "wb_balance (ws_accounts w') = wb_balance (ws_accounts w)" "wb_within {wo_address op} w w'"
  using assms
  by (auto simp: wb_set_storage_def Let_def dset_balance wb_balance_def [of "ensure_row _ _", symmetric] fun_upd_idem
      wb_within_def ensure_dget split: if_splits)

lemma append_logs_step:
  assumes "wb_append_logs op w = Inr w'"
  shows "ws_accounts w' = ws_accounts w" "wb_within {} w w'"
  using assms by (auto simp: wb_append_logs_def wb_within_def split: if_splits)

lemma transfer_step:
  assumes "wb_transfer_value f op w = Inr w'"
  shows "wb_balance (ws_accounts w')
      = (if wo_from op = [] \<or> wo_to op = [] then wb_balance (ws_accounts w)
         else paid (wo_from op) (wo_to op) (max 0 (wo_value_wei op) div WEI_PER_SATOSHI) (wb_balance (ws_accounts w)))"
    "wb_within {wo_from op, wo_to op} w w'"
proof -
  define a where "a = wo_from op"
  define b where "b = wo_to op"
  define v where "v = max 0 (wo_value_wei op)"
  define n where "n = v div WEI_PER_SATOSHI"
  define accs where "accs = ensure_row b (ensure_row a (ws_accounts w))"
  have "0 \<le> n" by (simp add: n_def v_def WEI_PER_SATOSHI_def pos_imp_zdiv_nonneg_iff)
  have pay: "wb_balance (ws_accounts w') = paid a b n (wb_balance (ws_accounts w))"
    if "a \<noteq> []" "b \<noteq> []" "n \<noteq> 0"
  proof -
    have "0 \<le> v" by (simp add: v_def)
    then have "0 < v" using that(3) by (cases "v = 0") (auto simp: n_def)
    with assms that obtain x y where x: "row_sat (the_row accs a) = Inr x" "n \<le> x"
      and y: "row_sat (the_row (dset a (set_sat f (x - n) (the_row accs a)) accs) b) = Inr y"
      and w': "ws_accounts w' = dset b (set_sat f (y + n) (the_row (dset a (set_sat f (x - n) (the_row accs a)) accs) b))
        (dset a (set_sat f (x - n) (the_row accs a)) accs)"
      by (auto simp: wb_transfer_value_def Let_def bind_sum_Inr not_less a_def [symmetric] b_def [symmetric]
          v_def [symmetric] n_def [symmetric] accs_def [symmetric] split: if_splits)
    have bal: "wb_balance accs = wb_balance (ws_accounts w)" by (simp add: accs_def)
    have xa: "wb_balance (ws_accounts w) a = x"
      using row_sat_Inr [OF x(1)] by (simp add: wb_balance_def flip: bal)
    have yb: "y = (if a = b then x - n else wb_balance (ws_accounts w) b)"
      using row_sat_Inr [OF y] x(2) by (auto simp: wb_balance_def simp flip: bal)
    show ?thesis
      using xa yb x(2) row_sat_nonneg [OF y] \<open>0 \<le> n\<close>
      by (auto simp: w' dset_balance bal paid_def fun_eq_iff)
  qed
  have "wb_balance (ws_accounts w') = wb_balance (ws_accounts w)" if "a = [] \<or> b = [] \<or> n = 0"
    using assms that by (auto simp: wb_transfer_value_def Let_def a_def [symmetric] b_def [symmetric] v_def [symmetric] n_def [symmetric] split: if_splits)
  moreover have "paid a b 0 = id" by (rule ext) (simp add: paid_def)
  ultimately show "wb_balance (ws_accounts w')
      = (if wo_from op = [] \<or> wo_to op = [] then wb_balance (ws_accounts w)
         else paid (wo_from op) (wo_to op) (max 0 (wo_value_wei op) div WEI_PER_SATOSHI) (wb_balance (ws_accounts w)))"
    using pay by (cases "n = 0") (auto simp flip: a_def b_def v_def n_def)
  show "wb_within {wo_from op, wo_to op} w w'"
    using assms
    by (auto simp: wb_transfer_value_def Let_def wb_within_def ensure_dget bind_sum_Inr split: if_splits)
qed

section \<open>A nested call\<close>

lemma within_trans: "wb_within A w w1 \<Longrightarrow> wb_within B w1 w2 \<Longrightarrow> A \<union> B \<subseteq> C \<Longrightarrow> wb_within C w w2"
proof -
  assume "wb_within A w w1" "wb_within B w1 w2" and C: "A \<union> B \<subseteq> C"
  then have w1: "\<And>a. a \<notin> set (ws_touched w1) \<Longrightarrow> dget (ws_accounts w1) a = dget (ws_accounts w) a"
      "set (ws_touched w) \<subseteq> set (ws_touched w1)" "set (ws_touched w1) \<subseteq> set (ws_touched w) \<union> A"
    and w2: "\<And>a. a \<notin> set (ws_touched w2) \<Longrightarrow> dget (ws_accounts w2) a = dget (ws_accounts w1) a"
      "set (ws_touched w1) \<subseteq> set (ws_touched w2)" "set (ws_touched w2) \<subseteq> set (ws_touched w1) \<union> B"
    by (simp_all add: wb_within_def)
  then have "a \<notin> set (ws_touched w2) \<Longrightarrow> dget (ws_accounts w2) a = dget (ws_accounts w) a" for a by (metis subsetD)
  moreover have "set (ws_touched w) \<subseteq> set (ws_touched w2)" using w1(2) w2(2) by (rule order_trans)
  moreover have "set (ws_touched w2) \<subseteq> set (ws_touched w) \<union> C" using w1(3) w2(3) C by blast
  ultimately show ?thesis by (simp add: wb_within_def)
qed

lemma within_refl: "wb_within A w w"
  by (simp add: wb_within_def)

lemma within_mono: "wb_within A w w' \<Longrightarrow> A \<subseteq> B \<Longrightarrow> wb_within B w w'"
  by (auto simp: wb_within_def)

lemma wb_run_append: "wb_run d f (xs @ ys) w = bind_sum (wb_run d f xs w) (wb_run d f ys)"
  by (induction xs arbitrary: w) (auto simp: bind_sum_def split: sum.split)

lemma dget_merge: "dget (foldl (\<lambda>m (a, row). dset a row m) accs (map (\<lambda>a. (a, g a)) ts)) a
    = (if a \<in> set ts then Some (g a) else dget accs a)"
  by (induction ts arbitrary: accs) auto

lemma merge_balance:
  assumes "wb_within A w0 w" "ws_touched w0 = []"
    and "wr_accounts res = map (\<lambda>a. (a, the_row (ws_accounts w) a)) (ws_touched w)"
  shows "wb_balance (wb_merge (ws_accounts w0) res) = wb_balance (ws_accounts w)"
    "a \<notin> A \<Longrightarrow> dget (wb_merge (ws_accounts w0) res) a = dget (ws_accounts w0) a"
  using assms
  by (auto simp: wb_within_def wb_merge_def dget_merge wb_balance_def the_row_def dget_or_def fun_eq_iff)

text \<open>The row of an address, as an operation finds it: a new one where there was none.\<close>

definition row_or_new :: "wb_accounts \<Rightarrow> string \<Rightarrow> pydict" where
  "row_or_new accs a = dget_or accs a (wb_new_row a)"

lemma row_or_new_simps [simp]:
  "row_or_new (dset a row accs) b = (if a = b then row else row_or_new accs b)"
  "row_or_new (ensure_row a accs) b = row_or_new accs b"
  "the_row (ensure_row a accs) a = row_or_new accs a"
  "sat_of (row_or_new accs a) = wb_balance accs a"
  by (auto simp: row_or_new_def ensure_row_def the_row_def wb_balance_def dget_or_def split: option.split)

lemma the_row_ensured [simp]: "the_row (ensure_row b (ensure_row a accs)) a = row_or_new accs a"
  by (auto simp: row_or_new_def ensure_row_def the_row_def dget_or_def split: option.split)

lemma pget_dset [simp]: "pget (dset k v row) j = (if k = j then v else pget row j)"
  by (simp add: pget_def)

lemma pget_set_sat [simp]: "pget (set_sat f n row) k =
    (if k = ''balance'' then f (max 0 n) else if k = ''balance_satoshi'' then PInt (max 0 n) else pget row k)"
  by (simp add: set_sat_def Let_def)

text \<open>An operation on storage sets that one entry, a transfer the balance entries of its two rows.\<close>

lemma set_storage_rows:
  assumes "wb_set_storage dumps op w = Inr w'" "wo_storage op = StMap m"
  shows "pget (row_or_new (ws_accounts w') b) key
      = (if key = ''storage'' \<and> b = wo_address op \<and> b \<noteq> [] then PStr (dumps m) else pget (row_or_new (ws_accounts w) b) key)"
  using assms by (auto simp: wb_set_storage_def Let_def op_storage_def split: if_splits)

lemma transfer_rows:
  assumes "wb_transfer_value f op w = Inr w'"
  defines "n \<equiv> (if wo_from op = [] \<or> wo_to op = [] then 0 else max 0 (wo_value_wei op) div WEI_PER_SATOSHI)"
  shows "pget (row_or_new (ws_accounts w') c) key
      = (if n \<noteq> 0 \<and> c \<in> {wo_from op, wo_to op} \<and> key = ''balance_satoshi'' then PInt (wb_balance (ws_accounts w') c)
         else if n \<noteq> 0 \<and> c \<in> {wo_from op, wo_to op} \<and> key = ''balance'' then f (wb_balance (ws_accounts w') c)
         else pget (row_or_new (ws_accounts w) c) key)"
  using assms(1)
  by (auto simp: wb_transfer_value_def Let_def bind_sum_Inr n_def dset_balance not_less split: if_splits)

text \<open>A touched address has a row, so merging the rows of the result gives the rows of the final state.\<close>

definition rows_touched :: "'l wb_state \<Rightarrow> bool" where
  "rows_touched w \<longleftrightarrow> (\<forall>a\<in>set (ws_touched w). dget (ws_accounts w) a \<noteq> None)"

lemma ensured_some:
  "\<forall>b\<in>A. dget accs b \<noteq> None \<Longrightarrow> \<forall>b\<in>A. dget (ensure_row a accs) b \<noteq> None" "dget (ensure_row a accs) a \<noteq> None"
  "\<forall>b\<in>A. dget accs b \<noteq> None \<Longrightarrow> \<forall>b\<in>insert a A. dget (dset a r accs) b \<noteq> None"
  by (auto simp: ensure_row_def split: option.split)

lemma dset_rows_touched:
  assumes "rows_touched w" "ws_accounts w' = dset b r accs" "set (ws_touched w') \<subseteq> insert b (insert a (set (ws_touched w)))"
    and "\<forall>c\<in>insert a (set (ws_touched w)). dget accs c \<noteq> None"
  shows "rows_touched w'"
  unfolding rows_touched_def assms(2) using ensured_some(3) [OF assms(4), of b r] assms(3) by blast

lemma counted_rows: "rows_touched (count_applied w) = rows_touched w" "rows_touched (w\<lparr>ws_log_batches := b\<rparr>) = rows_touched w"
  by (simp_all add: rows_touched_def)

lemma step_rows_touched:
  assumes "wb_step dumps f op w = Inr w'" "rows_touched w"
  shows "rows_touched w'"
proof -
  have grown: "\<forall>c\<in>insert a (set (ws_touched w)). dget (ensure_row a (ws_accounts w)) c \<noteq> None" for a
    using assms(2) ensured_some(1) [of "set (ws_touched w)" "ws_accounts w" a] ensured_some(2) by (auto simp: rows_touched_def)
  have paying: "\<forall>c\<in>insert a (set (ws_touched w)). dget (dset a r (ensure_row b (ensure_row a (ws_accounts w)))) c \<noteq> None" for a b r
    using ensured_some(1) [OF grown [of a], of b] by auto
  show ?thesis
  proof (cases "wo_op op = ''transfer_value''")
    assume "wo_op op = ''transfer_value''"
    with assms(1) have "wb_transfer_value f op w = Inr w'" by (simp add: wb_step_def)
    then show ?thesis
      using assms(2) dset_rows_touched [OF assms(2) _ _ paying, of w' "wo_to op" _ "wo_from op" _ "wo_to op"]
      by (auto simp: wb_transfer_value_def Let_def bind_sum_Inr counted_rows split: if_splits)
  next
    assume "wo_op op \<noteq> ''transfer_value''"
    then show ?thesis
      using assms dset_rows_touched [OF assms(2) _ _ grown, of w' "wo_address op" _ "wo_address op"]
      by (auto simp: wb_step_def wb_set_storage_def wb_save_account_def wb_append_logs_def Let_def bind_sum_Inr
          counted_rows split: if_splits)
  qed
qed

lemma run_rows_touched: "wb_run dumps f ops w = Inr w' \<Longrightarrow> rows_touched w \<Longrightarrow> rows_touched w'"
  by (induction ops arbitrary: w) (auto simp: bind_sum_Inr dest: step_rows_touched)

lemma merge_rows:
  assumes "wb_within A w0 w" "ws_touched w0 = []" "rows_touched w"
    and "wr_accounts res = map (\<lambda>a. (a, the_row (ws_accounts w) a)) (ws_touched w)"
  shows "row_or_new (wb_merge (ws_accounts w0) res) a = row_or_new (ws_accounts w) a"
  using assms
  by (auto simp: wb_within_def wb_merge_def dget_merge rows_touched_def the_row_def row_or_new_def dget_or_def split: option.split)

text \<open>
  What the kind of a call, the flags and the success say of it: whether it writes at all, whether its code runs as the
  caller, how many satoshi it pays.
\<close>

definition writing_call :: "string \<Rightarrow> bool \<Rightarrow> bool \<Rightarrow> bool" where
  "writing_call kind ro success \<longleftrightarrow> success \<and> \<not> ro \<and> py_lower (py_strip kind) \<noteq> ''staticcall''"

definition runs_as_caller :: "string \<Rightarrow> bool" where
  "runs_as_caller kind \<longleftrightarrow> py_lower (py_strip kind) \<in> {''delegatecall'', ''callcode''}"

definition paid_satoshi :: "string \<Rightarrow> bool \<Rightarrow> bool \<Rightarrow> string \<Rightarrow> string \<Rightarrow> int \<Rightarrow> int" where
  "paid_satoshi kind ro success caller target v =
     (if writing_call kind ro success \<and> py_lower (py_strip kind) \<in> {''call'', ''callcode''} \<and> 0 < v \<and> caller \<noteq> [] \<and> target \<noteq> []
      then v div WEI_PER_SATOSHI else 0)"

text \<open>The operations of a plan, and what running them does to the rows.\<close>

lemma plan_flags:
  assumes "plan_nested_call_effects kind ro caller target v success = Inr eff"
  shows "ce_persist_storage eff = writing_call kind ro success"
    "ce_persist_logs eff = (writing_call kind ro success \<and> runs_as_caller kind)"
    "ce_persist_value eff = (writing_call kind ro success \<and> py_lower (py_strip kind) \<in> {''call'', ''callcode''} \<and> 0 < v)"
    "ce_storage_owner eff = (if runs_as_caller kind then ''caller'' else ''target'')"
    "ce_persist_value eff \<Longrightarrow> ce_effective_value_wei eff = v \<and> ce_value_from eff = ''caller'' \<and> ce_value_to eff = ''target''"
  using assms
  by (auto simp: plan_nested_call_effects_def Let_def writing_call_def runs_as_caller_def split: if_splits)

lemma plan_ops:
  assumes "plan_nested_call_writeback loads kind ro caller target v success storage logs = Inr (eff, ops)"
  shows "ops = (if writing_call kind ro success
          then [wb_blank\<lparr>wo_op := ''set_storage'', wo_address := (if runs_as_caller kind then caller else target),
                  wo_storage := StMap (storage_map loads storage)\<rparr>] else [])
      @ (if writing_call kind ro success \<and> py_lower (py_strip kind) \<in> {''call'', ''callcode''} \<and> 0 < v
         then [wb_blank\<lparr>wo_op := ''transfer_value'', wo_from := caller, wo_to := target, wo_value_wei := v\<rparr>] else [])
      @ (if writing_call kind ro success \<and> runs_as_caller kind \<and> logs \<noteq> []
         then [wb_blank\<lparr>wo_op := ''append_logs'', wo_address := caller, wo_logs := logs\<rparr>] else [])"
proof -
  have eff: "plan_nested_call_effects kind ro caller target v success = Inr eff"
    using assms by (auto simp: plan_nested_call_writeback_def bind_sum_Inr Let_def)
  define pays where "pays = (writing_call kind ro success \<and> py_lower (py_strip kind) \<in> {''call'', ''callcode''} \<and> 0 < v)"
  note flags = plan_flags [OF eff, folded pays_def]
  have "pays \<Longrightarrow> 0 < v" by (simp add: pays_def)
  then show ?thesis
    unfolding pays_def [symmetric] using assms flags
    by (cases pays) (auto simp: plan_nested_call_writeback_def bind_sum_Inr eff Let_def split: if_splits)
qed

lemma run_plan:
  fixes logs :: "'l list"
  assumes plan: "plan_nested_call_writeback loads kind ro caller target v success storage logs = Inr (eff, ops)"
    and run: "wb_run dumps sat_float ops w0 = Inr w"
  defines "n \<equiv> paid_satoshi kind ro success caller target v"
    and "owner \<equiv> (if runs_as_caller kind then caller else target)"
  shows "wb_balance (ws_accounts w) = paid caller target n (wb_balance (ws_accounts w0))"
    "wb_within {caller, target} w0 w"
    "pget (row_or_new (ws_accounts w) a) key
      = (if key = ''storage'' \<and> writing_call kind ro success \<and> a = owner \<and> a \<noteq> [] then PStr (dumps (storage_map loads storage))
         else if key = ''balance_satoshi'' \<and> n \<noteq> 0 \<and> a \<in> {caller, target} then PInt (wb_balance (ws_accounts w) a)
         else if key = ''balance'' \<and> n \<noteq> 0 \<and> a \<in> {caller, target} then sat_float (wb_balance (ws_accounts w) a)
         else pget (row_or_new (ws_accounts w0) a) key)"
    "ws_log_batches w = ws_log_batches w0
      @ (if writing_call kind ro success \<and> runs_as_caller kind \<and> logs \<noteq> [] then [(caller, logs)] else [])"
proof -
  define writes where "writes = writing_call kind ro success"
  define pays where "pays = (writes \<and> py_lower (py_strip kind) \<in> {''call'', ''callcode''} \<and> 0 < v)"
  define set_op where "set_op = (wb_blank :: 'l wb_op)\<lparr>wo_op := ''set_storage'', wo_address := owner,
    wo_storage := StMap (storage_map loads storage)\<rparr>"
  define pay_op where "pay_op = (wb_blank :: 'l wb_op)\<lparr>wo_op := ''transfer_value'', wo_from := caller, wo_to := target, wo_value_wei := v\<rparr>"
  define log_op where "log_op = wb_blank\<lparr>wo_op := ''append_logs'', wo_address := caller, wo_logs := logs\<rparr>"
  define logging where "logging = (writes \<and> runs_as_caller kind \<and> logs \<noteq> [])"
  note defs = writes_def pays_def set_op_def pay_op_def log_op_def logging_def owner_def
  have ops: "ops = (if writes then [set_op] else []) @ (if pays then [pay_op] else []) @ (if logging then [log_op] else [])"
    using plan_ops [OF plan] by (simp add: defs)
  from run obtain w1 w2 where w1: "wb_run dumps sat_float (if writes then [set_op] else []) w0 = Inr w1"
    and w2: "wb_run dumps sat_float (if pays then [pay_op] else []) w1 = Inr w2"
    and w: "wb_run dumps sat_float (if logging then [log_op] else []) w2 = Inr w"
    by (auto simp: ops wb_run_append bind_sum_Inr)
  have s1: "writes \<Longrightarrow> wb_set_storage dumps set_op w0 = Inr w1" "\<not> writes \<Longrightarrow> w1 = w0"
    using w1 by (auto simp: wb_step_def bind_sum_Inr set_op_def)
  have s2: "pays \<Longrightarrow> wb_transfer_value sat_float pay_op w1 = Inr w2" "\<not> pays \<Longrightarrow> w2 = w1"
    using w2 by (auto simp: wb_step_def bind_sum_Inr pay_op_def)
  have s3: "logging \<Longrightarrow> wb_append_logs log_op w2 = Inr w" "\<not> logging \<Longrightarrow> w = w2"
    using w by (auto simp: wb_step_def bind_sum_Inr log_op_def)
  have ops_simps: "wo_address set_op = owner" "wo_storage set_op = StMap (storage_map loads storage)"
    "wo_from pay_op = caller" "wo_to pay_op = target" "wo_value_wei pay_op = v"
    by (simp_all add: set_op_def pay_op_def)
  have n: "n = (if pays \<and> caller \<noteq> [] \<and> target \<noteq> [] then v div WEI_PER_SATOSHI else 0)"
    by (simp add: n_def paid_satoshi_def pays_def writes_def)
  have 1: "wb_balance (ws_accounts w1) = wb_balance (ws_accounts w0) \<and> wb_within {caller, target} w0 w1"
    using set_storage_step [OF s1(1)] s1(2) within_refl
    by (cases writes) (auto simp: ops_simps owner_def intro: within_mono split: if_splits)
  have r1: "pget (row_or_new (ws_accounts w1) a) key = (if key = ''storage'' \<and> writes \<and> a = owner \<and> a \<noteq> []
      then PStr (dumps (storage_map loads storage)) else pget (row_or_new (ws_accounts w0) a) key)"
    using set_storage_rows [OF s1(1)] s1(2) by (cases writes) (auto simp: ops_simps)
  have 2: "wb_balance (ws_accounts w2) = paid caller target n (wb_balance (ws_accounts w1)) \<and> wb_within {caller, target} w1 w2"
    using transfer_step [OF s2(1)] s2(2) within_refl by (cases pays) (auto simp: ops_simps n paid_def pays_def)
  have r2: "pget (row_or_new (ws_accounts w2) a) key
      = (if n \<noteq> 0 \<and> a \<in> {caller, target} \<and> key = ''balance_satoshi'' then PInt (wb_balance (ws_accounts w2) a)
         else if n \<noteq> 0 \<and> a \<in> {caller, target} \<and> key = ''balance'' then sat_float (wb_balance (ws_accounts w2) a)
         else pget (row_or_new (ws_accounts w1) a) key)"
    using transfer_rows [OF s2(1), of a key] s2(2) by (cases pays) (auto simp: ops_simps n pays_def)
  have 3: "ws_accounts w = ws_accounts w2 \<and> wb_within {} w2 w"
    using append_logs_step [OF s3(1)] s3(2) within_refl by (cases logging) auto
  show "wb_balance (ws_accounts w) = paid caller target n (wb_balance (ws_accounts w0))" using 1 2 3 by simp
  have "wb_within {caller, target} w0 w2"
    using within_trans [OF conjunct2 [OF 1] conjunct2 [OF 2], of "{caller, target}"] by simp
  then show "wb_within {caller, target} w0 w"
    using within_trans [OF _ conjunct2 [OF 3], of "{caller, target}" w0 "{caller, target}"] by simp
  show "pget (row_or_new (ws_accounts w) a) key
      = (if key = ''storage'' \<and> writing_call kind ro success \<and> a = owner \<and> a \<noteq> [] then PStr (dumps (storage_map loads storage))
         else if key = ''balance_satoshi'' \<and> n \<noteq> 0 \<and> a \<in> {caller, target} then PInt (wb_balance (ws_accounts w) a)
         else if key = ''balance'' \<and> n \<noteq> 0 \<and> a \<in> {caller, target} then sat_float (wb_balance (ws_accounts w) a)
         else pget (row_or_new (ws_accounts w0) a) key)"
    using r1 r2 3 by (simp flip: writes_def) fastforce
  have "ws_log_batches w1 = ws_log_batches w0"
    using s1 by (cases writes) (auto simp: wb_set_storage_def Let_def split: if_splits)
  moreover have "ws_log_batches w2 = ws_log_batches w1"
    using s2 by (cases pays) (auto simp: wb_transfer_value_def Let_def bind_sum_Inr split: if_splits)
  moreover have "ws_log_batches w = ws_log_batches w2 @ (if logging then [(caller, logs)] else [])"
    using s3 by (cases logging) (auto simp: wb_append_logs_def log_op_def logging_def split: if_splits)
  ultimately show "ws_log_batches w = ws_log_batches w0
      @ (if writing_call kind ro success \<and> runs_as_caller kind \<and> logs \<noteq> [] then [(caller, logs)] else [])"
    by (simp add: logging_def writes_def)
qed

text \<open>C30: When the write-back of a nested call is applied, the account map keeps its total and only the rows of the
  caller and the callee may change. Money goes from the one to the other exactly when a CALL or CALLCODE that succeeded
  outside a read-only context carries a value, and then its whole satoshi; a DELEGATECALL or STATICCALL moves none. Such
  a writing call other than STATICCALL replaces the storage of one account, of the caller for DELEGATECALL and CALLCODE
  and of the callee for CALL, and only the first two leave their logs, under the caller. No other entry of any row
  changes, neither code nor nonce, and a call that failed or ran read-only leaves every account as it was.\<close>

theorem nested_call_moves_value:
  assumes "plan_nested_call_writeback loads kind ro caller target v success storage logs = Inr (eff, ops)"
    and "apply_writeback_ops dumps sat_float accounts ops = Inr res"
  defines "n \<equiv> paid_satoshi kind ro success caller target v"
    and "accounts' \<equiv> wb_merge accounts res"
  shows "wb_total accounts' = wb_total accounts
    \<and> (\<forall>a. a \<notin> {caller, target} \<longrightarrow> dget accounts' a = dget accounts a)
    \<and> wb_balance accounts' = paid caller target n (wb_balance accounts)
    \<and> (\<forall>a key. pget (row_or_new accounts' a) key =
        (if key = ''storage'' \<and> writing_call kind ro success \<and> a = (if runs_as_caller kind then caller else target) \<and> a \<noteq> []
         then PStr (dumps (storage_map loads storage))
         else if key = ''balance_satoshi'' \<and> n \<noteq> 0 \<and> a \<in> {caller, target} then PInt (wb_balance accounts' a)
         else if key = ''balance'' \<and> n \<noteq> 0 \<and> a \<in> {caller, target} then sat_float (wb_balance accounts' a)
         else pget (row_or_new accounts a) key))
    \<and> wr_log_batches res = (if writing_call kind ro success \<and> runs_as_caller kind \<and> logs \<noteq> [] then [(caller, logs)] else [])
    \<and> (\<not> writing_call kind ro success \<longrightarrow> accounts' = accounts)"
proof -
  define w0 where "w0 = \<lparr>ws_accounts = accounts, ws_log_batches = [] :: (string \<times> 'a list) list, ws_touched = [], ws_applied = 0\<rparr>"
  from assms(2) obtain w where run: "wb_run dumps sat_float ops w0 = Inr w"
    and res: "res = \<lparr>wr_accounts = map (\<lambda>a. (a, the_row (ws_accounts w) a)) (ws_touched w),
      wr_log_batches = ws_log_batches w, wr_applied = ws_applied w, wr_touched = ws_touched w\<rparr>"
    by (auto simp: apply_writeback_ops_def bind_sum_Inr w0_def)
  have w0: "ws_accounts w0 = accounts" "ws_touched w0 = []" "ws_log_batches w0 = []" by (simp_all add: w0_def)
  have shape: "wr_accounts res = map (\<lambda>a. (a, the_row (ws_accounts w) a)) (ws_touched w)" by (simp add: res)
  note plan = run_plan [OF assms(1) run, unfolded w0(1), folded n_def]
  note merged = merge_balance [OF plan(2) w0(2) shape, unfolded w0(1), folded accounts'_def]
  have rows: "row_or_new accounts' a = row_or_new (ws_accounts w) a" for a
    using merge_rows [OF plan(2) w0(2) run_rows_touched [OF run] shape] by (simp add: w0 rows_touched_def accounts'_def)
  have paid: "wb_balance accounts' = paid caller target n (wb_balance accounts)" using merged(1) plan(1) by (rule trans)
  have "accounts' = accounts" if "\<not> writing_call kind ro success"
  proof -
    have "ops = []" using plan_ops [OF assms(1)] that by simp
    with run have "w = w0" by simp
    then show ?thesis by (simp add: accounts'_def res wb_merge_def w0)
  qed
  moreover have "wr_log_batches res = (if writing_call kind ro success \<and> runs_as_caller kind \<and> logs \<noteq> [] then [(caller, logs)] else [])"
    using plan(4) by (simp add: w0 res)
  moreover have "\<forall>a. a \<notin> {caller, target} \<longrightarrow> dget accounts' a = dget accounts a" using merged(2) by blast
  moreover note rows_kept = plan(3) [folded rows merged(1)]
  ultimately show ?thesis using total_paid [OF paid] paid by (intro conjI allI rows_kept) blast+
qed

text \<open>A call that pays three satoshi and a half: the half is not moved.\<close>

definition demo_accounts :: wb_accounts where
  "demo_accounts = [(''a'', [(''balance_satoshi'', PInt 10)]), (''b'', [(''balance_satoshi'', PInt 1)])]"

theorem nested_call_moves_value_witness:
  "\<exists>eff ops res. plan_nested_call_writeback (\<lambda>_. None) ''CALL'' False ''a'' ''b'' 3500000000000 True (StMap [(1, 2)]) ([] :: nat list)
       = Inr (eff, ops)
     \<and> apply_writeback_ops (\<lambda>_. ''{}'') (\<lambda>_. PNone) demo_accounts ops = Inr res
     \<and> wb_total (wb_merge demo_accounts res) = wb_total demo_accounts
     \<and> wb_balance (wb_merge demo_accounts res) ''a'' = 7
     \<and> pget (row_or_new (wb_merge demo_accounts res) ''b'') ''storage'' = PStr ''{}''"
proof -
  have "(case plan_nested_call_writeback (\<lambda>_. None) ''CALL'' False ''a'' ''b'' 3500000000000 True (StMap [(1, 2)]) ([] :: nat list) of
      Inl _ \<Rightarrow> False
    | Inr (eff, ops) \<Rightarrow> (case apply_writeback_ops (\<lambda>_. ''{}'') (\<lambda>_. PNone) demo_accounts ops of Inl _ \<Rightarrow> False | Inr _ \<Rightarrow> True))"
    by code_simp
  then obtain eff ops where 1: "plan_nested_call_writeback (\<lambda>_. None) ''CALL'' False ''a'' ''b'' 3500000000000 True (StMap [(1, 2)]) ([] :: nat list)
       = Inr (eff, ops)"
    and applied: "case apply_writeback_ops (\<lambda>_. ''{}'') (\<lambda>_. PNone) demo_accounts ops of Inl _ \<Rightarrow> False | Inr _ \<Rightarrow> True"
    by (cases "plan_nested_call_writeback (\<lambda>_. None) ''CALL'' False ''a'' ''b'' 3500000000000 True (StMap [(1, 2)]) ([] :: nat list)")
      auto
  from applied obtain res where 2: "apply_writeback_ops (\<lambda>_. ''{}'') (\<lambda>_. PNone) demo_accounts ops = Inr res"
    by (cases "apply_writeback_ops (\<lambda>_. ''{}'') (\<lambda>_. PNone) demo_accounts ops") simp_all
  have kind: "paid_satoshi ''CALL'' False True ''a'' ''b'' 3500000000000 = 3" "writing_call ''CALL'' False True"
    "\<not> runs_as_caller ''CALL''" by code_simp+
  note claim = nested_call_moves_value [OF 1 2, unfolded kind]
  have total: "wb_total (wb_merge demo_accounts res) = wb_total demo_accounts" using claim by blast
  have "wb_balance (wb_merge demo_accounts res) ''a'' = paid ''a'' ''b'' 3 (wb_balance demo_accounts) ''a''"
    using fun_cong [OF conjunct1 [OF conjunct2 [OF conjunct2 [OF claim]]]] by simp
  also have "paid ''a'' ''b'' 3 (wb_balance demo_accounts) ''a'' = 7" by code_simp
  finally have seven: "wb_balance (wb_merge demo_accounts res) ''a'' = 7" .
  have "pget (row_or_new (wb_merge demo_accounts res) ''b'') ''storage'' = PStr ''{}''" using claim kind by simp
  from 1 2 total seven this show ?thesis by (intro exI conjI)
qed

text \<open>The value of a CALLCODE goes to the address whose code ran, not back to the caller; that of a DELEGATECALL stays.\<close>

lemma callcode_pays_target:
  "paid_satoshi ''CALLCODE'' False True ''a'' ''b'' 3500000000000 = 3 \<and> paid_satoshi ''DELEGATECALL'' False True ''a'' ''b'' v = 0"
proof -
  have "py_lower (py_strip ''DELEGATECALL'') = ''delegatecall''" by code_simp
  moreover have "paid_satoshi ''CALLCODE'' False True ''a'' ''b'' 3500000000000 = 3" by code_simp
  ultimately show ?thesis by (simp add: paid_satoshi_def)
qed

lemma callcode_writeback:
  "case plan_nested_call_writeback (\<lambda>_. None) ''CALLCODE'' False ''a'' ''b'' 3500000000000 True (StMap []) ([] :: nat list) of
     Inl _ \<Rightarrow> False
   | Inr (eff, ops) \<Rightarrow>
       (case apply_writeback_ops (\<lambda>_. ''{}'') (\<lambda>_. PNone) demo_accounts ops of
          Inl _ \<Rightarrow> False
        | Inr res \<Rightarrow> wb_balance (wb_merge demo_accounts res) ''a'' = 7 \<and> wb_balance (wb_merge demo_accounts res) ''b'' = 4)"
  by code_simp

text \<open>A creation at an address that already holds money resets it.\<close>

lemma zero_balance: "to_satoshi (PStr ''0.0'') = Inr 0"
  by (simp add: to_satoshi_def decimal_of_str_def take_sign_def take_digits_def digits_nat_def dec_digit_def
      scale_down_def round28_def dec_len.simps py_strip_def py_is_space_def Let_def)

text \<open>\<open>save_account\<close> writes the balance 0.0 of the plan over the one the address had: three satoshi are lost here, whoever
  creates the contract, and whatever the creation pays into it.\<close>

lemma create_burns_balance:
  "apply_writeback_ops dumps sat_float demo_accounts
      (cp_ops (plan_create_writeback dumps ''a'' ''b'' 0 True code st)) = Inr res
    \<Longrightarrow> wb_balance (wb_merge demo_accounts res) ''b'' = 0 \<and> wb_balance demo_accounts ''b'' = 1"
  by (auto simp: plan_create_writeback_def apply_writeback_ops_def bind_sum_Inr wb_step_def wb_save_account_def Let_def
      wb_blank_def touch_def wb_merge_def dset_balance zero_balance py_or_def wb_balance_def demo_accounts_def
      put_row_def count_applied_def the_row_def dget_or_def sat_of_def [of "(_, PInt _) # _"] row_sat_def [of "(_, PInt _) # _"]
      row_sat_def [of "[]"] pget_def int_or_raise_def ensure_row_def)

end
