(* ===== verification/MiniVM.thy ===== *)
theory MiniVM
  imports Evm
begin

text \<open>
  The small contract machine: \<open>MiniVM\<close> of \<open>src/execution/vm.py\<close>. An instruction is an opcode
  with an argument or none; arguments, and so the values on the stack, are integers or strings, because the assembler
  leaves a word it cannot read as a number as a string. Strings are ASCII. Exceptions keep the state they leave. The
  loop of \<open>execute\<close> ends because every opcode but STOP costs gas, so it is a total function.
\<close>

section \<open>Values and instructions\<close>

datatype mval = MInt int | MStr string

type_synonym minstr = "string \<times> mval option"

datatype mv_error = MvRaise string | MvIndex | MvType

record mv =
  mv_stack :: "mval list"
  mv_storage :: "(mval \<times> mval) list"
  mv_gas_used :: int
  mv_gas_limit :: int
  mv_pc :: nat
  mv_running :: bool

type_synonym 'a mvM = "(mv, mv_error, 'a) exs"

definition mini_vm :: "int \<Rightarrow> mv" where
  "mini_vm gas_limit = \<lparr>mv_stack = [], mv_storage = [], mv_gas_used = 0, mv_gas_limit = gas_limit, mv_pc = 0,
     mv_running = True\<rparr>"

definition mv_reset :: "mv \<Rightarrow> mv" where
  "mv_reset s = s\<lparr>mv_stack := [], mv_storage := [], mv_gas_used := 0, mv_pc := 0\<rparr>"

section \<open>Gas\<close>

definition mv_gas_costs :: "(string \<times> int) list" where
  "mv_gas_costs =
     [(''PUSH'', 2), (''POP'', 2), (''ADD'', 3), (''SUB'', 3), (''MUL'', 5), (''DIV'', 5),
      (''STORE'', 20), (''SSTORE'', 20), (''MSTORE'', 20), (''LOAD'', 20), (''SLOAD'', 20), (''MLOAD'', 20), (''STOP'', 0),
      (''INC'', 2), (''DEC'', 2), (''EQ'', 3), (''LT'', 3), (''GT'', 3), (''JUMP'', 1), (''JUMPI'', 1)]"

definition mv_cost :: "string \<Rightarrow> int" where
  "mv_cost op = dget_or mv_gas_costs op 1"

definition mv_consume :: "string \<Rightarrow> unit mvM" where
  "mv_consume op = bindM (getM id) (\<lambda>s.
     if mv_gas_used s + mv_cost op > mv_gas_limit s
     then raiseM (MvRaise (''Out of gas! Used '' @ py_str_int (mv_gas_used s) @ '', need '' @ py_str_int (mv_cost op)
            @ '', limit '' @ py_str_int (mv_gas_limit s)))
     else modM (\<lambda>s. s\<lparr>mv_gas_used := mv_gas_used s + mv_cost op\<rparr>))"

section \<open>Operations\<close>

definition mv_push :: "mval \<Rightarrow> unit mvM" where
  "mv_push v = modM (\<lambda>s. s\<lparr>mv_stack := v # mv_stack s\<rparr>)"

definition mv_pop :: "mval mvM" where
  "mv_pop = bindM (getM mv_stack) (\<lambda>st.
     case st of [] \<Rightarrow> raiseM MvIndex | v # rest \<Rightarrow> bindM (modM (\<lambda>s. s\<lparr>mv_stack := rest\<rparr>)) (\<lambda>_. returnM v))"

text \<open>The Python operators on integers and strings; \<open>None\<close> when they raise \<open>TypeError\<close>.\<close>

fun mv_add :: "mval \<Rightarrow> mval \<Rightarrow> mval option" where
  "mv_add (MInt a) (MInt b) = Some (MInt (a + b))"
| "mv_add (MStr a) (MStr b) = Some (MStr (a @ b))"
| "mv_add _ _ = None"

fun mv_sub :: "mval \<Rightarrow> mval \<Rightarrow> mval option" where
  "mv_sub (MInt a) (MInt b) = Some (MInt (a - b))"
| "mv_sub _ _ = None"

fun mv_mul :: "mval \<Rightarrow> mval \<Rightarrow> mval option" where
  "mv_mul (MInt a) (MInt b) = Some (MInt (a * b))"
| "mv_mul (MStr a) (MInt b) = Some (MStr (concat (replicate (nat b) a)))"
| "mv_mul (MInt a) (MStr b) = Some (MStr (concat (replicate (nat a) b)))"
| "mv_mul _ _ = None"

fun mv_div :: "mval \<Rightarrow> mval \<Rightarrow> mval option" where
  "mv_div a b = (if b = MInt 0 then Some (MInt 0)
     else case (a, b) of (MInt m, MInt n) \<Rightarrow> Some (MInt (m div n)) | _ \<Rightarrow> None)"

fun str_less :: "string \<Rightarrow> string \<Rightarrow> bool" where
  "str_less xs [] = False"
| "str_less [] (y # ys) = True"
| "str_less (x # xs) (y # ys) = (if x = y then str_less xs ys else (of_char x :: nat) < of_char y)"

definition mv_truth :: "bool \<Rightarrow> mval" where
  "mv_truth b = MInt (if b then 1 else 0)"

fun mv_less :: "mval \<Rightarrow> mval \<Rightarrow> mval option" where
  "mv_less (MInt a) (MInt b) = Some (mv_truth (a < b))"
| "mv_less (MStr a) (MStr b) = Some (mv_truth (str_less a b))"
| "mv_less _ _ = None"

definition mv_lift :: "mval option \<Rightarrow> unit mvM" where
  "mv_lift r = (case r of None \<Rightarrow> raiseM MvType | Some v \<Rightarrow> mv_push v)"

text \<open>\<open>b = self.stack.pop(); a = self.stack.pop()\<close>.\<close>

definition mv_binop :: "(mval \<Rightarrow> mval \<Rightarrow> mval option) \<Rightarrow> unit mvM" where
  "mv_binop f = bindM mv_pop (\<lambda>b. bindM mv_pop (\<lambda>a. mv_lift (f a b)))"

text \<open>INC and DEC work on an empty stack as on a zero.\<close>

definition mv_bump :: "int \<Rightarrow> unit mvM" where
  "mv_bump d =
     bindM (modM (\<lambda>s. if mv_stack s = [] then s\<lparr>mv_stack := [MInt 0]\<rparr> else s)) (\<lambda>_.
     bindM (getM mv_stack) (\<lambda>st.
     case hd st of
       MInt n \<Rightarrow> modM (\<lambda>s. s\<lparr>mv_stack := MInt (n + d) # tl (mv_stack s)\<rparr>)
     | MStr _ \<Rightarrow> raiseM MvType))"

datatype mv_flow = MvNext | MvJumped | MvStopped

fun mv_dest_str :: "mval \<Rightarrow> string" where
  "mv_dest_str (MInt d) = py_str_int d"
| "mv_dest_str (MStr s) = s"

definition mv_jump :: "nat \<Rightarrow> mval \<Rightarrow> mv_flow mvM" where
  "mv_jump n dest =
     (case dest of
        MStr _ \<Rightarrow> raiseM MvType
      | MInt d \<Rightarrow>
          if d < 0 \<or> d \<ge> int n then raiseM (MvRaise (''Invalid jump destination: '' @ py_str_int d))
          else bindM (modM (\<lambda>s. s\<lparr>mv_pc := nat d\<rparr>)) (\<lambda>_. returnM MvJumped))"

definition mv_falls :: "unit mvM \<Rightarrow> mv_flow mvM" where
  "mv_falls m = bindM m (\<lambda>_. returnM MvNext)"

text \<open>The branches of the loop body for the opcode \<open>op\<close> of a code of length \<open>n\<close>.\<close>

definition mv_op :: "nat \<Rightarrow> minstr \<Rightarrow> mv_flow mvM" where
  "mv_op n instr =
     (let (op, arg) = instr
      in if op = ''PUSH'' then
           (case arg of None \<Rightarrow> raiseM (MvRaise ''PUSH requires argument'') | Some v \<Rightarrow> mv_falls (mv_push v))
         else if op = ''POP'' then bindM mv_pop (\<lambda>_. returnM MvNext)
         else if op = ''ADD'' then mv_falls (mv_binop mv_add)
         else if op = ''SUB'' then mv_falls (mv_binop mv_sub)
         else if op = ''MUL'' then mv_falls (mv_binop mv_mul)
         else if op = ''DIV'' then mv_falls (mv_binop mv_div)
         else if op = ''STORE'' \<or> op = ''SSTORE'' \<or> op = ''MSTORE'' then
           bindM mv_pop (\<lambda>value. bindM mv_pop (\<lambda>key.
           mv_falls (modM (\<lambda>s. s\<lparr>mv_storage := dset key value (mv_storage s)\<rparr>))))
         else if op = ''LOAD'' \<or> op = ''SLOAD'' \<or> op = ''MLOAD'' then
           bindM mv_pop (\<lambda>key. bindM (getM mv_storage) (\<lambda>st.
           mv_falls (mv_push (dget_or st key (MInt 0)))))
         else if op = ''INC'' then mv_falls (mv_bump 1)
         else if op = ''DEC'' then mv_falls (mv_bump (- 1))
         else if op = ''EQ'' then mv_falls (mv_binop (\<lambda>a b. Some (mv_truth (a = b))))
         else if op = ''LT'' then mv_falls (mv_binop mv_less)
         else if op = ''GT'' then mv_falls (mv_binop (\<lambda>a b. mv_less b a))
         else if op = ''JUMP'' then bindM mv_pop (mv_jump n)
         else if op = ''JUMPI'' then
           bindM mv_pop (\<lambda>dest. bindM mv_pop (\<lambda>cond. if cond \<noteq> MInt 0 then mv_jump n dest else returnM MvNext))
         else if op = ''STOP'' then bindM (modM (\<lambda>s. s\<lparr>mv_running := False\<rparr>)) (\<lambda>_. returnM MvStopped)
         else raiseM (MvRaise (''Unknown opcode: '' @ op)))"

definition mv_step :: "minstr list \<Rightarrow> mv_flow mvM" where
  "mv_step bytecode =
     bindM (getM mv_pc) (\<lambda>pc.
     bindM (mv_consume (fst (bytecode ! pc))) (\<lambda>_.
     bindM (mv_op (length bytecode) (bytecode ! pc)) (\<lambda>fl.
     bindM (modM (\<lambda>s. if fl = MvNext then s\<lparr>mv_pc := mv_pc s + 1\<rparr> else s)) (\<lambda>_. returnM fl))))"

section \<open>Every step spends gas\<close>

definition mv_metered :: "int \<Rightarrow> int \<Rightarrow> mv \<Rightarrow> bool" where
  "mv_metered lim used s \<longleftrightarrow> mv_gas_limit s = lim \<and> mv_gas_used s = used"

lemma mv_keeps_raise: "(\<And>s. J s \<Longrightarrow> E s) \<Longrightarrow> keeps J E (raiseM e)"
  by (simp add: keeps_def wp_rules)

lemma mv_keeps [keeps_rules]:
  "keeps (mv_metered lim used) (mv_metered lim used) (mv_push v)"
  "keeps (mv_metered lim used) (mv_metered lim used) mv_pop"
  "keeps (mv_metered lim used) (mv_metered lim used) (mv_bump d)"
  "keeps (mv_metered lim used) (mv_metered lim used) (mv_jump n dest)"
  by (auto simp: keeps_def mv_push_def mv_pop_def mv_bump_def mv_jump_def mv_metered_def wp_rules
      split: list.split mval.split)

lemma mv_op_keeps: "keeps (mv_metered lim used) (mv_metered lim used) (mv_op n instr)"
proof -
  have mods: "keeps (mv_metered lim used) (mv_metered lim used) (modM (\<lambda>s. s\<lparr>mv_storage := f s\<rparr>))"
    "keeps (mv_metered lim used) (mv_metered lim used) (modM (\<lambda>s. s\<lparr>mv_running := b\<rparr>))"
    "keeps (mv_metered lim used) (mv_metered lim used) (raiseM e)" for f b e
    by (simp_all add: keeps_def wp_rules mv_metered_def)
  show ?thesis
    unfolding mv_op_def mv_falls_def mv_binop_def mv_lift_def Let_def case_prod_beta
    by (rule keeps_rules mods | assumption)+
qed

lemma mv_cost_pos: "op \<noteq> ''STOP'' \<Longrightarrow> 1 \<le> mv_cost op" and mv_cost_nonneg: "0 \<le> mv_cost op"
  by (auto simp: mv_cost_def mv_gas_costs_def dget_or_def)

lemma mv_op_stop: "mv_op n (''STOP'', a) s = (Inr MvStopped, s\<lparr>mv_running := False\<rparr>)"
  by (simp add: mv_op_def exs_defs)

lemma mv_step_gas:
  assumes "mv_step bytecode s = (r, t)"
  shows "mv_gas_limit t = mv_gas_limit s" "mv_gas_used s \<le> mv_gas_used t"
    "mv_gas_used t \<le> max (mv_gas_used s) (mv_gas_limit s)"
    "r = Inr fl \<Longrightarrow> fl \<noteq> MvStopped \<Longrightarrow> mv_gas_used s < mv_gas_used t" "r = Inr fl \<Longrightarrow> mv_gas_used t \<le> mv_gas_limit s"
proof -
  let ?op = "fst (bytecode ! mv_pc s)"
  let ?u = "mv_gas_used s + mv_cost ?op"
  have op: "wpM (mv_op (length bytecode) (bytecode ! mv_pc s)) (\<lambda>_. mv_metered (mv_gas_limit s) ?u)
      (\<lambda>_. mv_metered (mv_gas_limit s) ?u) (s\<lparr>mv_gas_used := ?u\<rparr>)"
    by (rule keepsD [OF mv_op_keeps]) (simp add: mv_metered_def)
  have stop: "?op = ''STOP'' \<Longrightarrow> wpM (mv_op (length bytecode) (bytecode ! mv_pc s)) (\<lambda>fl _. fl = MvStopped) (\<lambda>_ _. False) u" for u
    by (cases "bytecode ! mv_pc s") (simp add: mv_op_stop wpM_def)
  have "wpM (mv_step bytecode)
      (\<lambda>fl t. mv_metered (mv_gas_limit s) ?u t \<and> ?u \<le> mv_gas_limit s \<and> (?op = ''STOP'' \<longrightarrow> fl = MvStopped))
      (\<lambda>_ t. mv_metered (mv_gas_limit s) (mv_gas_used s) t \<or> mv_metered (mv_gas_limit s) ?u t \<and> ?u \<le> mv_gas_limit s) s"
  proof (cases "?u \<le> mv_gas_limit s")
    case True
    have "wpM (mv_op (length bytecode) (bytecode ! mv_pc s))
        (\<lambda>fl t. mv_metered (mv_gas_limit s) ?u t \<and> (?op = ''STOP'' \<longrightarrow> fl = MvStopped))
        (\<lambda>_. mv_metered (mv_gas_limit s) ?u) (s\<lparr>mv_gas_used := ?u\<rparr>)"
      using op stop [of "s\<lparr>mv_gas_used := ?u\<rparr>"] by (cases "?op = ''STOP''") (auto simp: wpM_def split: prod.splits sum.splits)
    then show ?thesis
      using True by (auto simp: mv_step_def mv_consume_def wp_rules mv_metered_def elim!: wp_mono)
  qed (auto simp: mv_step_def mv_consume_def wp_rules mv_metered_def)
  then show "mv_gas_limit t = mv_gas_limit s" "mv_gas_used s \<le> mv_gas_used t"
    "mv_gas_used t \<le> max (mv_gas_used s) (mv_gas_limit s)"
    "r = Inr fl \<Longrightarrow> fl \<noteq> MvStopped \<Longrightarrow> mv_gas_used s < mv_gas_used t" "r = Inr fl \<Longrightarrow> mv_gas_used t \<le> mv_gas_limit s"
    using assms mv_cost_nonneg [of ?op] mv_cost_pos [of ?op]
    by (cases r; auto simp: wpM_def mv_metered_def; fail)+
qed

section \<open>Running a code\<close>

function mv_loop :: "minstr list \<Rightarrow> unit mvM" where
  "mv_loop bytecode s =
     (if mv_pc s < length bytecode \<and> mv_running s
      then (case mv_step bytecode s of
              (Inl e, t) \<Rightarrow> (Inl e, t)
            | (Inr fl, t) \<Rightarrow> if fl = MvStopped then (Inr (), t) else mv_loop bytecode t)
      else (Inr (), s))"
  by auto
termination
proof (relation "measure (\<lambda>(bytecode, s). nat (mv_gas_limit s - mv_gas_used s))")
  fix bytecode :: "minstr list" and s r t fl and x :: "(mv_error + mv_flow) \<times> mv"
  assume "(r, t) = mv_step bytecode s" "r = Inr fl" "fl \<noteq> MvStopped"
  then have "mv_step bytecode s = (Inr fl, t)" "fl \<noteq> MvStopped" by simp_all
  with mv_step_gas [OF this(1)]
  show "((bytecode, t), (bytecode, s)) \<in> measure (\<lambda>(bytecode, s). nat (mv_gas_limit s - mv_gas_used s))" by auto
qed auto

declare mv_loop.simps [simp del]

record mv_result =
  mvr_stack :: "mval list"
  mvr_storage :: "(mval \<times> mval) list"
  mvr_gas_used :: int
  mvr_success :: bool

definition mv_execute :: "minstr list \<Rightarrow> mv_result mvM" where
  "mv_execute bytecode =
     bindM (modM (\<lambda>s. s\<lparr>mv_pc := 0, mv_gas_used := 0, mv_stack := [], mv_running := True\<rparr>)) (\<lambda>_.
     bindM (mv_loop bytecode) (\<lambda>_.
     bindM (getM id) (\<lambda>s.
     returnM \<lparr>mvr_stack = mv_stack s, mvr_storage = mv_storage s, mvr_gas_used = mv_gas_used s,
       mvr_success = (mv_gas_used s \<le> mv_gas_limit s)\<rparr>)))"

end
