(* ===== verification/ContractManager.thy ===== *)
theory ContractManager
  imports MiniVM
begin

text \<open>
  The contracts of the small machine: \<open>ContractManager\<close> of \<open>src/execution/contract_manager.py\<close> with the two operations
  of \<open>src/storage/database.py\<close> that keep its rows, and what a call and a restart do to the contracts. A table row is
  what the JSON text in it decodes to: JSON has only strings as keys, so the integer keys of a storage come back as
  strings. The time is an argument. The manager owns the storages it keeps: the reference to the initial storage that
  the caller of \<open>deploy\<close> holds is not modelled.
\<close>

section \<open>The rows of the database\<close>

record mv_contract =
  ct_bytecode :: "minstr list"
  ct_storage :: "(mval \<times> mval) list"
  ct_deployed_at :: int
  ct_calls :: int

type_synonym mv_table = "(string \<times> mv_contract) list"

definition json_key :: "mval \<Rightarrow> mval" where
  "json_key k = MStr (mv_dest_str k)"

text \<open>\<open>json.loads(json.dumps(d))\<close> of a dictionary: of keys that print alike the last one counts.\<close>

definition json_dict :: "(mval \<times> mval) list \<Rightarrow> (mval \<times> mval) list" where
  "json_dict d = foldl (\<lambda>m (k, v). dset (json_key k) v m) [] d"

definition save_minivm_contract :: "int \<Rightarrow> string \<Rightarrow> minstr list \<Rightarrow> (mval \<times> mval) list \<Rightarrow> int \<Rightarrow> mv_table \<Rightarrow> mv_table" where
  "save_minivm_contract now address bytecode st calls rows =
     filter (\<lambda>(a, _). a \<noteq> address) rows
       @ [(address, \<lparr>ct_bytecode = bytecode, ct_storage = json_dict st, ct_deployed_at = now, ct_calls = calls\<rparr>)]"

definition load_minivm_contracts :: "mv_table \<Rightarrow> mv_table" where
  "load_minivm_contracts rows = rows"

section \<open>The manager\<close>

record cm =
  cm_contracts :: "(string \<times> mv_contract) list"
  cm_vm :: mv
  cm_db :: "mv_table option"

type_synonym 'a cmM = "(cm, mv_error, 'a) exs"

definition cm_init :: "mv_table option \<Rightarrow> cm" where
  "cm_init db = \<lparr>cm_contracts =
       (case db of None \<Rightarrow> [] | Some rows \<Rightarrow> foldl (\<lambda>m (a, row). dset a row m) [] (load_minivm_contracts rows)),
     cm_vm = mini_vm 10000, cm_db = db\<rparr>"

definition cm_persist :: "int \<Rightarrow> string \<Rightarrow> unit cmM" where
  "cm_persist now address = modM (\<lambda>s.
     case (cm_db s, dget (cm_contracts s) address) of
       (Some rows, Some c) \<Rightarrow>
         s\<lparr>cm_db := Some (save_minivm_contract now address (ct_bytecode c) (ct_storage c) (ct_calls c) rows)\<rparr>
     | _ \<Rightarrow> s)"

definition cm_deploy :: "int \<Rightarrow> minstr list \<Rightarrow> string \<Rightarrow> (mval \<times> mval) list \<Rightarrow> bool cmM" where
  "cm_deploy now bytecode address initial_storage =
     bindM (getM (\<lambda>s. dget (cm_contracts s) address)) (\<lambda>c.
     if c \<noteq> None then returnM False
     else
       bindM (modM (\<lambda>s. s\<lparr>cm_contracts := dset address \<lparr>ct_bytecode = bytecode, ct_storage = initial_storage,
         ct_deployed_at = now, ct_calls = 0\<rparr> (cm_contracts s)\<rparr>)) (\<lambda>_.
       bindM (cm_persist now address) (\<lambda>_. returnM True)))"

definition cm_code :: "minstr list \<Rightarrow> mval list \<Rightarrow> minstr list" where
  "cm_code bytecode args = map (\<lambda>a. (''PUSH'', Some a)) args @ bytecode @ [(''STOP'', None)]"

text \<open>\<open>self.vm.reset()\<close>, the copy of the storage into the machine and \<open>self.vm.execute(bytecode)\<close>.\<close>

definition cm_run :: "(mval \<times> mval) list \<Rightarrow> minstr list \<Rightarrow> mv_result cmM" where
  "cm_run st bytecode = (\<lambda>s. let (r, vm) = mv_execute bytecode ((mv_reset (cm_vm s))\<lparr>mv_storage := st\<rparr>)
     in (r, s\<lparr>cm_vm := vm\<rparr>))"

definition cm_call :: "int \<Rightarrow> string \<Rightarrow> mval list \<Rightarrow> mv_result option cmM" where
  "cm_call now address args =
     bindM (getM (\<lambda>s. dget (cm_contracts s) address)) (\<lambda>found.
     case found of
       None \<Rightarrow> returnM None
     | Some c \<Rightarrow>
         bindM (cm_run (ct_storage c) (cm_code (ct_bytecode c) args)) (\<lambda>result.
         bindM (getM (\<lambda>s. mv_storage (cm_vm s))) (\<lambda>st.
         bindM (modM (\<lambda>s. s\<lparr>cm_contracts := dset address (c\<lparr>ct_storage := st, ct_calls := ct_calls c + 1\<rparr>)
           (cm_contracts s)\<rparr>)) (\<lambda>_.
         bindM (cm_persist now address) (\<lambda>_.
         returnM (Some (result\<lparr>mvr_storage := st\<rparr>)))))))"

definition cm_get_storage :: "cm \<Rightarrow> string \<Rightarrow> mval \<Rightarrow> mval" where
  "cm_get_storage s address key =
     (case dget (cm_contracts s) address of None \<Rightarrow> MInt 0 | Some c \<Rightarrow> dget_or (ct_storage c) key (MInt 0))"

record cm_stats =
  cms_total_contracts :: nat
  cms_addresses :: "string list"
  cms_total_calls :: int
  cms_persisted :: bool

definition cm_get_stats :: "cm \<Rightarrow> cm_stats" where
  "cm_get_stats s =
     \<lparr>cms_total_contracts = length (cm_contracts s), cms_addresses = map fst (cm_contracts s),
      cms_total_calls = sum_list (map (ct_calls \<circ> snd) (cm_contracts s)), cms_persisted = (cm_db s \<noteq> None)\<rparr>"

section \<open>A run stays within its gas\<close>

lemma mv_loop_gas:
  "mv_gas_used s \<le> mv_gas_limit s \<Longrightarrow> mv_loop bytecode s = (r, t)
     \<Longrightarrow> mv_gas_limit t = mv_gas_limit s \<and> mv_gas_used s \<le> mv_gas_used t \<and> mv_gas_used t \<le> mv_gas_limit s"
proof (induction bytecode s arbitrary: r t rule: mv_loop.induct)
  case (1 bytecode s)
  show ?case
  proof (cases "mv_pc s < length bytecode \<and> mv_running s")
    case True
    obtain q u where step: "mv_step bytecode s = (q, u)" by (cases "mv_step bytecode s")
    note gas = mv_step_gas [OF step]
    show ?thesis
    proof (cases q)
      case (Inl e)
      with 1 True step gas show ?thesis by (auto simp: mv_loop.simps [of bytecode s])
    next
      case (Inr fl)
      show ?thesis
      proof (cases "fl = MvStopped")
        case True
        with 1 \<open>mv_pc s < length bytecode \<and> mv_running s\<close> step gas Inr show ?thesis
          by (auto simp: mv_loop.simps [of bytecode s])
      next
        case False
        then have "mv_loop bytecode u = (r, t)" using 1(3) True step Inr by (simp add: mv_loop.simps [of bytecode s])
        with 1(1) [OF True step [symmetric] Inr False] 1(2) gas Inr False show ?thesis by auto
      qed
    qed
  next
    case False
    with 1 show ?thesis by (auto simp: mv_loop.simps [of bytecode s])
  qed
qed

lemma mv_execute_gas:
  "0 \<le> mv_gas_limit s \<Longrightarrow> mv_execute bytecode s = (r, t)
     \<Longrightarrow> mv_gas_limit t = mv_gas_limit s \<and> mv_gas_used t \<le> mv_gas_limit s \<and>
         (\<forall>res. r = Inr res \<longrightarrow> mvr_gas_used res = mv_gas_used t \<and> mvr_success res)"
proof -
  assume lim: "0 \<le> mv_gas_limit s" and run: "mv_execute bytecode s = (r, t)"
  let ?s = "s\<lparr>mv_pc := 0, mv_gas_used := 0, mv_stack := [], mv_running := True\<rparr>"
  obtain q u where loop: "mv_loop bytecode ?s = (q, u)" by (cases "mv_loop bytecode ?s")
  from mv_loop_gas [OF _ loop] lim have "mv_gas_limit u = mv_gas_limit s" "mv_gas_used u \<le> mv_gas_limit s" by auto
  with run show ?thesis by (cases q) (auto simp: mv_execute_def exs_defs loop)
qed

lemma mv_execute_storage: "mv_execute bytecode s = (Inr res, t) \<Longrightarrow> mvr_storage res = mv_storage t"
  by (auto simp: mv_execute_def exs_defs split: prod.splits sum.splits)

section \<open>Calls and restarts\<close>

text \<open>The table holds what the contracts are, up to the printing of their storage keys.\<close>

definition row_of :: "mv_contract \<Rightarrow> mv_contract \<Rightarrow> bool" where
  "row_of c row \<longleftrightarrow> ct_bytecode row = ct_bytecode c \<and> ct_storage row = json_dict (ct_storage c) \<and> ct_calls row = ct_calls c"

definition cm_synced :: "cm \<Rightarrow> bool" where
  "cm_synced s \<longleftrightarrow> (\<exists>rows. cm_db s = Some rows \<and> rel_fun (=) (rel_option row_of) (dget (cm_contracts s)) (dget rows)
     \<and> distinct (map fst rows))"

lemma dget_save:
  "dget (save_minivm_contract now a code st calls rows) b =
     (if b = a then Some \<lparr>ct_bytecode = code, ct_storage = json_dict st, ct_deployed_at = now, ct_calls = calls\<rparr> else dget rows b)"
  by (induction rows) (auto simp: save_minivm_contract_def)

lemma distinct_save: "distinct (map fst rows) \<Longrightarrow> distinct (map fst (save_minivm_contract now a code st calls rows))"
  by (auto simp: save_minivm_contract_def distinct_map inj_on_def)

lemma persist_syncs:
  assumes "dget (cm_contracts s) a = Some c" "cm_db s = Some rows" "distinct (map fst rows)"
    and "\<And>b. b \<noteq> a \<Longrightarrow> rel_option row_of (dget (cm_contracts s) b) (dget rows b)"
  shows "cm_synced (snd (cm_persist now a s))" "fst (cm_persist now a s) = Inr ()"
    "cm_contracts (snd (cm_persist now a s)) = cm_contracts s"
  using assms by (auto simp: cm_persist_def modM_def cm_synced_def rel_fun_def dget_save distinct_save row_of_def)

lemma cm_run_keeps:
  "cm_run st code s = (r, t) \<Longrightarrow> cm_contracts t = cm_contracts s \<and> cm_db t = cm_db s"
  by (auto simp: cm_run_def Let_def split: prod.splits)

definition dict_ok :: "mv \<Rightarrow> bool" where
  "dict_ok s \<longleftrightarrow> distinct (map fst (mv_storage s))"

lemma distinct_dset: "distinct (map fst d) \<Longrightarrow> distinct (map fst (dset k v d))"
proof (cases "k \<in> fst ` set d")
  case True
  assume "distinct (map fst d)"
  moreover have "map fst (dset k v d) = map fst d" using True by (induction d) auto
  ultimately show ?thesis by simp
qed (simp add: dset_new)

lemma dict_keeps [keeps_rules]:
  "keeps dict_ok dict_ok (mv_push v)" "keeps dict_ok dict_ok mv_pop" "keeps dict_ok dict_ok (mv_bump d)"
  "keeps dict_ok dict_ok (mv_jump n dest)" "keeps dict_ok dict_ok (mv_consume op)"
  by (auto simp: keeps_def mv_push_def mv_pop_def mv_bump_def mv_jump_def mv_consume_def dict_ok_def wp_rules
      split: list.split mval.split)

lemma mv_step_dict: "keeps dict_ok dict_ok (mv_step code)"
proof -
  have mods: "keeps dict_ok dict_ok (modM (\<lambda>s. s\<lparr>mv_storage := dset k v (mv_storage s)\<rparr>))"
    "keeps dict_ok dict_ok (modM (\<lambda>s. s\<lparr>mv_running := b\<rparr>))" "keeps dict_ok dict_ok (raiseM e)"
    "keeps dict_ok dict_ok (modM (\<lambda>s. if c then s\<lparr>mv_pc := mv_pc s + 1\<rparr> else s))" for k v b e c
    by (simp_all add: keeps_def wp_rules dict_ok_def distinct_dset)
  show ?thesis
    unfolding mv_step_def mv_op_def mv_falls_def mv_binop_def mv_lift_def Let_def case_prod_beta
    by (rule keeps_rules mods | assumption)+
qed

lemma mv_loop_dict: "dict_ok s \<Longrightarrow> dict_ok (snd (mv_loop code s))"
proof (induction code s rule: mv_loop.induct)
  case (1 code s)
  have step: "dict_ok (snd (mv_step code s))"
    using keepsD [OF mv_step_dict [of code] 1(2)] by (auto simp: wpM_def split: prod.splits sum.splits)
  show ?case
    using 1 step by (subst mv_loop.simps) (auto split: prod.splits sum.splits)
qed

lemma mv_execute_dict: "dict_ok s \<Longrightarrow> mv_execute code s = (r, t) \<Longrightarrow> dict_ok t"
  using mv_loop_dict [of "s\<lparr>mv_pc := 0, mv_gas_used := 0, mv_stack := [], mv_running := True\<rparr>" code]
  by (cases "mv_loop code (s\<lparr>mv_pc := 0, mv_gas_used := 0, mv_stack := [], mv_running := True\<rparr>)"; cases "fst (mv_loop code (s\<lparr>mv_pc := 0, mv_gas_used := 0, mv_stack := [], mv_running := True\<rparr>))")
    (auto simp: mv_execute_def exs_defs dict_ok_def)

text \<open>The states a manager with a database reaches by deployments and calls.\<close>

inductive cm_reach :: "cm \<Rightarrow> bool" where
  start: "cm_reach (cm_init (Some []))"
| deploy: "cm_reach s \<Longrightarrow> distinct (map fst st) \<Longrightarrow> cm_reach (snd (cm_deploy now code a st s))"
| call: "cm_reach s \<Longrightarrow> cm_reach (snd (cm_call now a args s))"

definition cm_good :: "cm \<Rightarrow> bool" where
  "cm_good s \<longleftrightarrow> cm_synced s \<and> (\<forall>a c. dget (cm_contracts s) a = Some c \<longrightarrow> distinct (map fst (ct_storage c)))
     \<and> mv_gas_limit (cm_vm s) = 10000"

lemma good_start: "cm_good (cm_init (Some []))"
  by (simp add: cm_good_def cm_init_def load_minivm_contracts_def cm_synced_def rel_fun_def mini_vm_def)

text \<open>What a deployment and a call do, by cases.\<close>

lemma binds: "bindM (getM h) f s = f (h s) s" "bindM (modM g) f2 s = f2 () (g s)"
  by (simp_all add: bindM_def getM_def modM_def)

lemma persist_bind: "bindM (cm_persist now a) f s = f () (snd (cm_persist now a s))"
  by (simp add: cm_persist_def bindM_def modM_def)

lemma deploy_new:
  "dget (cm_contracts s) a = None \<Longrightarrow>
     cm_deploy now code a st s = (Inr True, snd (cm_persist now a (s\<lparr>cm_contracts := dset a \<lparr>ct_bytecode = code, ct_storage = st,
       ct_deployed_at = now, ct_calls = 0\<rparr> (cm_contracts s)\<rparr>)))"
  by (simp add: cm_deploy_def exs_defs cm_persist_def)

lemma deploy_known: "dget (cm_contracts s) a = Some c \<Longrightarrow> cm_deploy now code a st s = (Inr False, s)"
  by (simp add: cm_deploy_def exs_defs)

lemma call_unknown: "dget (cm_contracts s) a = None \<Longrightarrow> cm_call now a args s = (Inr None, s)"
  by (simp add: cm_call_def exs_defs)

lemma call_raises:
  "dget (cm_contracts s) a = Some c \<Longrightarrow> cm_run (ct_storage c) (cm_code (ct_bytecode c) args) s = (Inl e, t)
     \<Longrightarrow> cm_call now a args s = (Inl e, t)"
  by (simp add: cm_call_def exs_defs)

lemma call_returns:
  "dget (cm_contracts s) a = Some c \<Longrightarrow> cm_run (ct_storage c) (cm_code (ct_bytecode c) args) s = (Inr res, t)
     \<Longrightarrow> cm_call now a args s = (Inr (Some (res\<lparr>mvr_storage := mv_storage (cm_vm t)\<rparr>)),
           snd (cm_persist now a (t\<lparr>cm_contracts := dset a (c\<lparr>ct_storage := mv_storage (cm_vm t), ct_calls := ct_calls c + 1\<rparr>)
             (cm_contracts s)\<rparr>)))"
  by (frule cm_run_keeps) (simp add: cm_call_def binds persist_bind bindM_def [of "cm_run x y" for x y] returnM_def)

lemma persist_frame:
  "cm_contracts (snd (cm_persist now a s)) = cm_contracts s" "cm_vm (snd (cm_persist now a s)) = cm_vm s"
  by (auto simp: cm_persist_def modM_def split: option.split)

lemma run_vm:
  assumes "cm_run st code s = (r, t)" "mv_gas_limit (cm_vm s) = 10000"
  shows "mv_gas_limit (cm_vm t) = 10000" "distinct (map fst st) \<Longrightarrow> dict_ok (cm_vm t)"
    "r = Inr res \<Longrightarrow> mvr_storage res = mv_storage (cm_vm t) \<and> mvr_gas_used res \<le> 10000"
proof -
  let ?vm = "(mv_reset (cm_vm s))\<lparr>mv_storage := st\<rparr>"
  obtain q vm where run: "mv_execute code ?vm = (q, vm)" by (cases "mv_execute code ?vm")
  with assms have t: "r = q" "cm_vm t = vm" by (auto simp: cm_run_def Let_def)
  have lim: "mv_gas_limit ?vm = 10000" using assms(2) by (simp add: mv_reset_def)
  note gas = mv_execute_gas [OF _ run, unfolded lim]
  show "mv_gas_limit (cm_vm t) = 10000" using gas t by simp
  show "dict_ok (cm_vm t)" if "distinct (map fst st)" using mv_execute_dict [OF _ run] that t by (simp add: dict_ok_def)
  show "mvr_storage res = mv_storage (cm_vm t) \<and> mvr_gas_used res \<le> 10000" if "r = Inr res"
    using gas t that run mv_execute_storage [of code ?vm res vm] by simp
qed

lemma good_update:
  assumes "cm_good s" "cm_contracts t = dset a c (cm_contracts s)" "cm_db t = cm_db s" "mv_gas_limit (cm_vm t) = 10000"
    "distinct (map fst (ct_storage c))"
  shows "cm_good (snd (cm_persist now a t))"
proof -
  from assms(1) obtain rows where rows: "cm_db s = Some rows" "distinct (map fst rows)"
    "rel_fun (=) (rel_option row_of) (dget (cm_contracts s)) (dget rows)"
    by (auto simp: cm_good_def cm_synced_def)
  have "cm_synced (snd (cm_persist now a t))"
    using rows assms(2, 3) by (intro persist_syncs [of t a c rows]) (auto simp: rel_fun_def)
  then show ?thesis using assms by (auto simp: cm_good_def persist_frame split: if_splits)
qed

lemma reach_good: "cm_reach s \<Longrightarrow> cm_good s"
proof (induction rule: cm_reach.induct)
  case start
  show ?case by (rule good_start)
next
  case (deploy s st now code a)
  show ?case
  proof (cases "dget (cm_contracts s) a")
    case None
    with deploy show ?thesis by (auto simp: deploy_new cm_good_def [of s] intro!: good_update [OF deploy(3)])
  qed (simp add: deploy_known deploy)
next
  case (call s now a args)
  show ?case
  proof (cases "dget (cm_contracts s) a")
    case (Some c)
    let ?run = "cm_run (ct_storage c) (cm_code (ct_bytecode c) args) s"
    obtain r t where run: "?run = (r, t)" by (cases ?run)
    from call have s: "mv_gas_limit (cm_vm s) = 10000" "distinct (map fst (ct_storage c))" using Some by (auto simp: cm_good_def)
    note vm = run_vm [OF run s(1)] and frame = cm_run_keeps [OF run]
    show ?thesis
    proof (cases r)
      case (Inl e)
      with call vm frame show ?thesis
        by (simp add: call_raises [OF Some] run cm_good_def cm_synced_def)
    next
      case (Inr res)
      with call vm frame s show ?thesis
        by (auto simp: call_returns [OF Some] run dict_ok_def intro!: good_update [OF call(2)])
    qed
  qed (simp add: call_unknown call)
qed

text \<open>Reading the rows back.\<close>

lemma reload_rows:
  "distinct (map fst (acc @ rows)) \<Longrightarrow> foldl (\<lambda>m (a, row). dset a row m) acc rows = acc @ rows"
proof (induction rows arbitrary: acc)
  case (Cons r rows)
  obtain a row where r: "r = (a, row)" by (cases r)
  with Cons.prems have "dset a row acc = acc @ [(a, row)]" by (intro dset_new) auto
  with Cons.prems Cons.IH [of "acc @ [(a, row)]"] show ?case by (simp add: r)
qed simp

lemma json_dict_keys: "(k, v) \<in> set (json_dict d) \<Longrightarrow> \<exists>x. k = MStr x"
proof -
  have "fst ` set (foldl (\<lambda>m (k, v). dset (json_key k) v m) acc d) \<subseteq> fst ` set acc \<union> range MStr" for acc
  proof (induction d arbitrary: acc)
    case (Cons e d)
    have "fst ` set (dset k v m) = insert k (fst ` set m)" for k :: mval and v :: mval and m by (induction m) auto
    then show ?case using Cons [of "dset (json_key (fst e)) (snd e) acc"] by (cases e) (auto simp: json_key_def)
  qed simp
  from this [of "[]"] show "(k, v) \<in> set (json_dict d) \<Longrightarrow> \<exists>x. k = MStr x" by (force simp: json_dict_def)
qed

lemma json_dict_strings:
  assumes "distinct (map fst d)" "\<forall>k\<in>fst ` set d. \<exists>x. k = MStr x"
  shows "json_dict d = d"
proof -
  have "foldl (\<lambda>m (k, v). dset (json_key k) v m) [] d = foldl (\<lambda>m (k, v). dset k v m) [] d"
    using assms(2) by (intro foldl_cong) (auto simp: json_key_def)
  with reload_rows [of "[]" d] assms(1) show ?thesis by (simp add: json_dict_def)
qed

lemma restart_rows:
  assumes "cm_reach s"
  shows "rel_option row_of (dget (cm_contracts s) a) (dget (cm_contracts (cm_init (cm_db s))) a)"
proof -
  from reach_good [OF assms] obtain rows where "cm_db s = Some rows" "distinct (map fst rows)"
    "rel_fun (=) (rel_option row_of) (dget (cm_contracts s)) (dget rows)"
    by (auto simp: cm_good_def cm_synced_def)
  then show ?thesis by (simp add: cm_init_def load_minivm_contracts_def reload_rows [of "[]"] rel_fun_def)
qed

text \<open>C35: A restart restores the contracts: after any deployments and calls, a manager built on the same database has the
  same code and the same number of calls for a contract whose storage has only string keys, and reads the same value
  under every key.\<close>

theorem restart_restores_contracts:
  assumes "cm_reach s" "dget (cm_contracts s) a = Some c" "\<forall>k\<in>fst ` set (ct_storage c). \<exists>x. k = MStr x"
  shows "\<exists>c'. dget (cm_contracts (cm_init (cm_db s))) a = Some c' \<and> ct_bytecode c' = ct_bytecode c
     \<and> ct_calls c' = ct_calls c \<and> (\<forall>key. cm_get_storage (cm_init (cm_db s)) a key = cm_get_storage s a key)"
proof -
  from restart_rows [OF assms(1), of a] assms(2) obtain c' where
    c': "dget (cm_contracts (cm_init (cm_db s))) a = Some c'" "row_of c c'"
    by (cases "dget (cm_contracts (cm_init (cm_db s))) a") auto
  from reach_good [OF assms(1)] assms(2) have "distinct (map fst (ct_storage c))" by (auto simp: cm_good_def)
  with assms(3) have "json_dict (ct_storage c) = ct_storage c" by (rule json_dict_strings [rotated])
  with c' assms(2) show ?thesis by (auto simp: row_of_def cm_get_storage_def)
qed

lemma restart_restores_contracts_witness:
  "\<exists>c'. dget (cm_contracts (cm_init (cm_db (snd (cm_deploy 5 [] ''c'' [(MStr ''owner'', MInt 7)] (cm_init (Some [])))))) ) ''c'' = Some c'
     \<and> ct_bytecode c' = [] \<and> ct_calls c' = 0 \<and> (\<forall>key. cm_get_storage (cm_init (cm_db (snd (cm_deploy 5 [] ''c''
         [(MStr ''owner'', MInt 7)] (cm_init (Some [])))))) ''c'' key
       = cm_get_storage (snd (cm_deploy 5 [] ''c'' [(MStr ''owner'', MInt 7)] (cm_init (Some [])))) ''c'' key)"
proof -
  let ?c = "\<lparr>ct_bytecode = [], ct_storage = [(MStr ''owner'', MInt 7)], ct_deployed_at = 5, ct_calls = 0\<rparr>"
  let ?s = "snd (cm_deploy 5 [] ''c'' [(MStr ''owner'', MInt 7)] (cm_init (Some [])))"
  have "cm_reach ?s" by (intro cm_reach.intros) simp
  moreover have "dget (cm_contracts ?s) ''c'' = Some ?c" by code_simp
  ultimately show ?thesis using restart_restores_contracts [of ?s "''c''" ?c] by simp
qed

text \<open>Integer keys do not survive: whatever the contract stored under one, a manager that restarts reads zero.\<close>

lemma restart_loses_int_keys:
  "cm_reach s \<Longrightarrow> cm_get_storage (cm_init (cm_db s)) a (MInt k) = MInt 0"
proof -
  assume "cm_reach s"
  from restart_rows [OF this, of a] show ?thesis
  proof (cases "dget (cm_contracts (cm_init (cm_db s))) a")
    case (Some row)
    with restart_rows [OF \<open>cm_reach s\<close>, of a] obtain c where "row_of c row"
      by (cases "dget (cm_contracts s) a") auto
    then have "dget (ct_storage row) (MInt k) = None"
      using json_dict_keys [of "MInt k" _ "ct_storage c"] by (auto simp: row_of_def map_of_eq_None_iff)
    with Some show ?thesis by (simp add: cm_get_storage_def dget_or_def)
  qed (simp add: cm_get_storage_def)
qed

text \<open>A call touches only its contract: it returns nothing for an address without a contract; if the code raises, the
  contracts and the database are as before; if it returns, it used at most the gas limit, and the only change to the
  contracts is the storage it reports and one more call of that contract.\<close>

theorem contract_call_isolated:
  assumes "mv_gas_limit (cm_vm s) = 10000" "cm_call now a args s = (r, t)"
  shows "(r = Inr None \<and> dget (cm_contracts s) a = None \<and> t = s)
     \<or> ((\<exists>e. r = Inl e) \<and> cm_contracts t = cm_contracts s \<and> cm_db t = cm_db s)
     \<or> (\<exists>res c. r = Inr (Some res) \<and> mvr_gas_used res \<le> 10000 \<and> dget (cm_contracts s) a = Some c \<and> cm_contracts t
          = dset a (c\<lparr>ct_storage := mvr_storage res, ct_calls := ct_calls c + 1\<rparr>) (cm_contracts s))"
proof (cases "dget (cm_contracts s) a")
  case None
  with assms(2) show ?thesis by (simp add: call_unknown)
next
  case (Some c)
  let ?run = "cm_run (ct_storage c) (cm_code (ct_bytecode c) args) s"
  obtain q u where run: "?run = (q, u)" by (cases ?run)
  note vm = run_vm [OF run assms(1)] and frame = cm_run_keeps [OF run]
  show ?thesis
  proof (cases q)
    case (Inl e)
    with assms(2) frame show ?thesis by (auto simp: call_raises [OF Some] run)
  next
    case (Inr res)
    have "cm_call now a args s = (Inr (Some (res\<lparr>mvr_storage := mv_storage (cm_vm u)\<rparr>)),
       snd (cm_persist now a (u\<lparr>cm_contracts := dset a (c\<lparr>ct_storage := mv_storage (cm_vm u), ct_calls := ct_calls c + 1\<rparr>)
         (cm_contracts s)\<rparr>)))"
      using Some run Inr by (intro call_returns) auto
    with assms(2) vm(3) [OF Inr] Some show ?thesis by (auto simp: persist_frame)
  qed
qed

lemma contract_call_isolated_witness:
  "(let s = cm_init (Some []); (r, t) = cm_call 3 ''c'' [MInt 4] s
    in r = Inr None \<and> dget (cm_contracts s) ''c'' = None \<and> t = s)"
proof -
  let ?s = "cm_init (Some [])"
  have call: "cm_call 3 ''c'' [MInt 4] ?s = (Inr None, ?s)" by code_simp
  have "mv_gas_limit (cm_vm ?s) = 10000" by (simp add: cm_init_def mini_vm_def)
  from contract_call_isolated [OF this call] show ?thesis by (simp add: call)
qed

section \<open>What the machine does with the assembler's arguments\<close>

text \<open>
  The bundled examples of \<open>src/compiler/examples.py\<close> name a storage cell after STORE, but the machine takes the key from
  the stack: a code that pushes one value and stores it, as the counter, the loop and the Fibonacci contract begin,
  raises \<open>IndexError\<close>.
\<close>

lemma named_store_raises:
  "22 \<le> mv_gas_limit s \<Longrightarrow>
     fst (mv_execute ((''PUSH'', Some v) # (''STORE'', Some (MStr name)) # code) s) = Inl MvIndex"
  by (simp add: mv_execute_def exs_defs mv_loop.simps mv_step_def mv_consume_def mv_cost_def mv_gas_costs_def dget_or_def mv_op_def
    mv_falls_def mv_push_def mv_pop_def)

text \<open>
  The arguments of a call are pushes in front of the code, so the jump targets of the code no longer fit: a code that
  jumps over a POP leaves a one on the stack; called with the argument 7, it executes the POP, which takes the argument.
\<close>

lemma arguments_shift_jumps:
  "(let code = [(''PUSH'', Some (MInt 3)), (''JUMP'', None), (''POP'', None), (''PUSH'', Some (MInt 1))];
        s = snd (cm_deploy 0 code ''c'' [] (cm_init None))
    in map_sum id (map_option mvr_stack) (fst (cm_call 0 ''c'' [] s)) = Inr (Some [MInt 1])
       \<and> map_sum id (map_option mvr_stack) (fst (cm_call 0 ''c'' [MInt 7] s)) = Inr (Some [MInt 1]))"
  by code_simp

end
