(* ===== verification/Assembler.thy ===== *)
theory Assembler
  imports MiniVM PyVal Amount
begin

text \<open>
  The assembler of the small machine, \<open>src/compiler/assembler.py\<close>: sources with labels are read line by line, label
  arguments of jumps are resolved in a second pass, and \<open>disassemble\<close> prints a code. Sources are ASCII. The printed form
  of a code without string arguments that look like numbers is read back as the code.
\<close>

section \<open>Splitting and reading text\<close>

text \<open>\<open>s.split(c)\<close> for a single character and \<open>s.split()\<close>.\<close>

fun split_on :: "char \<Rightarrow> string \<Rightarrow> string list" where
  "split_on c [] = [[]]"
| "split_on c (d # s) = (if d = c then [] # split_on c s
     else (case split_on c s of [] \<Rightarrow> [[d]] | w # ws \<Rightarrow> (d # w) # ws))"

function py_words :: "string \<Rightarrow> string list" where
  "py_words s =
     (let t = dropWhile py_is_space s
      in if t = [] then [] else takeWhile (\<lambda>c. \<not> py_is_space c) t # py_words (dropWhile (\<lambda>c. \<not> py_is_space c) t))"
  by auto
termination
proof (relation "measure length")
  fix s t :: string
  assume t: "t = dropWhile py_is_space s" "t \<noteq> []"
  then have "\<not> py_is_space (hd t)" using hd_dropWhile by blast
  with t(2) have "length (dropWhile (\<lambda>c. \<not> py_is_space c) t) < length t"
    by (cases t) (auto simp: le_imp_less_Suc length_dropWhile_le)
  also have "length t \<le> length s" using t(1) by (simp add: length_dropWhile_le)
  finally show "(dropWhile (\<lambda>c. \<not> py_is_space c) t, s) \<in> measure length" by simp
qed simp

declare py_words.simps [simp del]

fun join_with :: "string \<Rightarrow> string list \<Rightarrow> string" where
  "join_with sep [] = []"
| "join_with sep [w] = w"
| "join_with sep (w # v # ws) = w @ sep @ join_with sep (v # ws)"

definition py_upper :: "string \<Rightarrow> string" where
  "py_upper s = map (\<lambda>c. let n = of_char c :: nat in if 97 \<le> n \<and> n \<le> 122 then char_of (n - 32) else c) s"

definition py_isdigit :: "string \<Rightarrow> bool" where
  "py_isdigit s \<longleftrightarrow> s \<noteq> [] \<and> list_all (\<lambda>c. dec_digit c \<noteq> None) s"

section \<open>Assembling\<close>

definition asm_clean :: "string \<Rightarrow> string" where
  "asm_clean line = py_strip (takeWhile (\<lambda>c. c \<noteq> CHR '';'') line)"

text \<open>The argument of an instruction: a number, or the words as they are (a label). \<open>int\<close> may raise \<open>ValueError\<close>.\<close>

definition asm_arg :: "string \<Rightarrow> string + mval" where
  "asm_arg arg_str =
     (if py_isdigit arg_str then
        (case int_of_str arg_str of Some n \<Rightarrow> Inr (MInt n) | None \<Rightarrow> Inl ''invalid literal for int() with base 10'')
      else if prefix ''0x'' arg_str then
        (case int16_of_str arg_str of Some n \<Rightarrow> Inr (MInt n) | None \<Rightarrow> Inl ''invalid literal for int() with base 16'')
      else Inr (MStr arg_str))"

definition asm_instr :: "string \<Rightarrow> string + minstr" where
  "asm_instr line =
     (let parts = py_words line; op = py_upper (hd parts)
      in if length parts > 1 then bind_sum (asm_arg (join_with '' '' (tl parts))) (\<lambda>a. Inr (op, Some a)) else Inr (op, None))"

fun asm_first :: "string list \<Rightarrow> (string \<times> nat) list \<Rightarrow> minstr list \<Rightarrow> string + (string \<times> nat) list \<times> minstr list" where
  "asm_first [] labels code = Inr (labels, code)"
| "asm_first (raw # lines) labels code =
     (let line = asm_clean raw
      in if line = [] then asm_first lines labels code
         else if last line = CHR '':'' then asm_first lines (dset (butlast line) (length code) labels) code
         else bind_sum (asm_instr line) (\<lambda>i. asm_first lines labels (code @ [i])))"

definition asm_jumps :: "string list" where
  "asm_jumps = [''JUMP'', ''JUMPI'', ''CALL'']"

fun asm_resolve :: "(string \<times> nat) list \<Rightarrow> minstr list \<Rightarrow> string + minstr list" where
  "asm_resolve labels [] = Inr []"
| "asm_resolve labels ((op, arg) # code) =
     (case (if op \<in> set asm_jumps then arg else None) of
        Some (MStr l) \<Rightarrow>
          (case dget labels l of
             None \<Rightarrow> Inl (''Undefined label: '' @ l)
           | Some pc \<Rightarrow> bind_sum (asm_resolve labels code) (\<lambda>rest. Inr ((op, Some (MInt (int pc))) # rest)))
      | _ \<Rightarrow> bind_sum (asm_resolve labels code) (\<lambda>rest. Inr ((op, arg) # rest)))"

definition newline :: char where
  "newline = char_of (10 :: nat)"

definition assemble :: "string \<Rightarrow> string + minstr list" where
  "assemble source =
     bind_sum (asm_first (split_on newline (py_strip source)) [] []) (\<lambda>(labels, code). asm_resolve labels code)"

section \<open>Disassembling\<close>

definition disasm_line :: "minstr \<Rightarrow> string" where
  "disasm_line i =
     (case i of
        (op, Some arg) \<Rightarrow> ''    '' @ op @ '' '' @ mv_dest_str arg
      | (op, None) \<Rightarrow> ''    '' @ op)"

definition disassemble :: "minstr list \<Rightarrow> string" where
  "disassemble bytecode = join_with [newline] (map disasm_line bytecode)"

section \<open>Reading back what was printed\<close>

text \<open>A word of the source: no white space, no comment, not a label.\<close>

definition asm_word :: "string \<Rightarrow> bool" where
  "asm_word w \<longleftrightarrow> w \<noteq> [] \<and> (\<forall>c\<in>set w. \<not> py_is_space c \<and> c \<noteq> CHR '';'') \<and> last w \<noteq> CHR '':''"

definition printable :: "minstr \<Rightarrow> bool" where
  "printable i =
     (case i of
        (op, None) \<Rightarrow> asm_word op \<and> py_upper op = op
      | (op, Some (MInt n)) \<Rightarrow> asm_word op \<and> py_upper op = op \<and> 0 \<le> n
      | (op, Some (MStr s)) \<Rightarrow> asm_word op \<and> py_upper op = op \<and> op \<notin> set asm_jumps \<and> asm_word s
          \<and> \<not> py_isdigit s \<and> \<not> prefix ''0x'' s)"

lemma split_on_no: "c \<notin> set s \<Longrightarrow> split_on c s = [s]"
  by (induction s) auto

lemma split_on_append: "c \<notin> set w \<Longrightarrow> split_on c (w @ c # s) = w # split_on c s"
  by (induction w) auto

lemma split_join: "ws \<noteq> [] \<Longrightarrow> \<forall>w\<in>set ws. c \<notin> set w \<Longrightarrow> split_on c (join_with [c] ws) = ws"
  by (induction "[c]" ws rule: join_with.induct) (auto simp: split_on_no split_on_append)

lemma digit_char: "d < 10 \<Longrightarrow> dec_digit (char_of (48 + d :: nat)) = Some (int d)"
  by (simp add: dec_digit_def Let_def of_char_of)

lemma nat_digits_read: "digits_val True acc (nat_digits n @ s) = digits_val True (acc * 10 ^ length (nat_digits n) + int n) s"
proof (induction n arbitrary: acc s rule: nat_digits.induct)
  case (1 n)
  show ?case
  proof (cases "n < 10")
    case True
    then show ?thesis by (simp add: nat_digits.simps [of n] digit_char mult.commute)
  next
    case False
    have digit: "dec_digit (char_of (48 + n mod 10)) = Some (int (n mod 10))" by (rule digit_char) simp
    have "int n = 10 * int (n div 10) + int (n mod 10)" by presburger
    then show ?thesis
      using 1 [OF False] digit False
      by (simp add: nat_digits.simps [of n] algebra_simps)
  qed
qed

lemma nat_digits_isdigit: "list_all (\<lambda>c. dec_digit c \<noteq> None) (nat_digits n)"
proof (induction n rule: nat_digits.induct)
  case (1 n)
  have "list_all (\<lambda>c. dec_digit c \<noteq> None) (if n < 10 then [char_of (48 + n)] else nat_digits (n div 10) @ [char_of (48 + n mod 10)])"
    using 1 digit_char [of "n mod 10"] digit_char [of n] by (auto simp del: of_nat_mod)
  then show ?case by (simp only: nat_digits.simps [of n])
qed

lemma nat_digits_nonempty: "nat_digits n \<noteq> []"
  by (subst nat_digits.simps) simp

lemma digit_plain: "dec_digit c \<noteq> None \<Longrightarrow> \<not> py_is_space c \<and> c \<noteq> CHR '';'' \<and> c \<noteq> CHR '':'' \<and> c \<noteq> CHR ''+'' \<and> c \<noteq> CHR ''-''"
  by (auto simp: dec_digit_def py_is_space_def Let_def split: if_splits)

lemma py_str_int_word: "0 \<le> n \<Longrightarrow> asm_word (py_str_int n) \<and> py_isdigit (py_str_int n)"
  using nat_digits_isdigit [of "nat n"] nat_digits_nonempty [of "nat n"] digit_plain
  by (auto simp: asm_word_def py_isdigit_def py_str_int_def list_all_iff dest: last_in_set)

lemma int_of_py_str: "0 \<le> n \<Longrightarrow> int_of_str (py_str_int n) = Some n"
proof -
  assume n: "0 \<le> n"
  obtain c s where s: "nat_digits (nat n) = c # s" using nat_digits_nonempty by (cases "nat_digits (nat n)") auto
  have c: "dec_digit c \<noteq> None" using nat_digits_isdigit [of "nat n"] by (simp add: s)
  then obtain d where d: "dec_digit c = Some d" by auto
  have "py_strip (nat_digits (nat n)) = nat_digits (nat n)"
    using nat_digits_isdigit [of "nat n"] digit_plain by (intro py_strip_no_space) (auto simp: list_all_iff)
  moreover have "digits_val False 0 (c # s) = digits_val True 0 (c # s)" by (simp add: d)
  moreover have "digits_val True 0 (nat_digits (nat n)) = Some n" using nat_digits_read [of 0 "nat n" "[]"] n by simp
  ultimately show ?thesis using n digit_plain [OF c] by (simp add: int_of_str_def py_str_int_def s)
qed

lemma takeWhile_all: "\<forall>c\<in>set s. P c \<Longrightarrow> takeWhile P s = s"
  by (simp add: takeWhile_eq_all_conv)

lemma dropWhile_all: "\<forall>c\<in>set s. P c \<Longrightarrow> dropWhile P s = []"
  by (simp add: dropWhile_eq_Nil_conv)

lemma words_of_word: "asm_word w \<Longrightarrow> py_words w = [w]"
  using py_words.simps [of w] py_words.simps [of "[]"]
  by (simp add: asm_word_def dropWhile_none takeWhile_all dropWhile_all Let_def)

lemma space_is_space [simp]: "py_is_space (CHR '' '')"
  by (simp add: py_is_space_def)

lemma words_space: "py_is_space c \<Longrightarrow> py_words (c # s) = py_words s"
  by (simp add: py_words.simps [of "c # s"] py_words.simps [of s])

lemma words_of_two: "asm_word w \<Longrightarrow> asm_word v \<Longrightarrow> py_words (w @ '' '' @ v) = [w, v]"
proof -
  assume w: "asm_word w" and v: "asm_word v"
  let ?t = "w @ CHR '' '' # v"
  from w have drop: "dropWhile py_is_space ?t = ?t" by (cases w) (auto simp: asm_word_def)
  have word: "takeWhile (\<lambda>c. \<not> py_is_space c) ?t = w" "dropWhile (\<lambda>c. \<not> py_is_space c) ?t = CHR '' '' # v"
    using w by (auto simp: asm_word_def)
  have "py_words ?t = w # py_words (CHR '' '' # v)"
    using py_words.simps [of ?t] by (simp add: drop word Let_def)
  then show ?thesis using words_of_word [OF v] by (simp add: words_space)
qed

text \<open>The printed form of an instruction, without the indentation.\<close>

definition disasm_core :: "minstr \<Rightarrow> string" where
  "disasm_core i = (case i of (op, Some arg) \<Rightarrow> op @ '' '' @ mv_dest_str arg | (op, None) \<Rightarrow> op)"

lemma disasm_line_core: "disasm_line i = ''    '' @ disasm_core i"
  by (simp add: disasm_line_def disasm_core_def split: prod.split option.split)

lemma arg_word: "printable (op, Some a) \<Longrightarrow> asm_word op \<and> asm_word (mv_dest_str a)"
  by (cases a) (auto simp: printable_def py_str_int_word)

lemma newline_space: "py_is_space newline"
  by (simp add: newline_def py_is_space_def)

lemma space_no_newline: "newline \<noteq> CHR '' ''"
  by (simp add: newline_def char_of_eq_iff)

definition asm_text :: "string \<Rightarrow> bool" where
  "asm_text s \<longleftrightarrow> s \<noteq> [] \<and> \<not> py_is_space (hd s) \<and> \<not> py_is_space (last s) \<and> last s \<noteq> CHR '':''
     \<and> CHR '';'' \<notin> set s \<and> newline \<notin> set s"

lemma asm_word_text: "asm_word w \<Longrightarrow> asm_text w"
  using newline_space by (auto simp: asm_word_def asm_text_def)

lemma asm_text_join: "asm_text w \<Longrightarrow> asm_text v \<Longrightarrow> asm_text (w @ '' '' @ v)"
  using space_no_newline by (simp add: asm_text_def)

lemma core_shape: "printable i \<Longrightarrow> asm_text (disasm_core i)"
proof -
  assume i: "printable i"
  obtain op arg where [simp]: "i = (op, arg)" by (cases i)
  show ?thesis
  proof (cases arg)
    case None
    with i show ?thesis by (simp add: disasm_core_def printable_def asm_word_text)
  next
    case (Some a)
    with i arg_word have "asm_word op" "asm_word (mv_dest_str a)" by auto
    then show ?thesis by (simp only: disasm_core_def Some \<open>i = (op, arg)\<close> prod.case option.case asm_text_join asm_word_text)
  qed
qed

lemma strip_ends: "s \<noteq> [] \<Longrightarrow> \<not> py_is_space (hd s) \<Longrightarrow> \<not> py_is_space (last s) \<Longrightarrow> py_strip s = s"
  using dropWhile_eq_self_iff [of py_is_space s] dropWhile_eq_self_iff [of py_is_space "rev s"]
  by (simp add: py_strip_def hd_rev)

lemma strip_indent: "py_is_space c \<Longrightarrow> py_strip (c # s) = py_strip s"
  by (simp add: py_strip_def)

lemma asm_clean_core: "printable i \<Longrightarrow> asm_clean (disasm_core i) = disasm_core i"
  "printable i \<Longrightarrow> asm_clean (disasm_line i) = disasm_core i"
proof -
  assume i: "printable i"
  note core = core_shape [OF i, unfolded asm_text_def]
  have no: "takeWhile (\<lambda>c. c \<noteq> CHR '';'') (disasm_core i) = disasm_core i" using core by (auto simp: takeWhile_eq_all_conv)
  show "asm_clean (disasm_core i) = disasm_core i" by (simp add: asm_clean_def no strip_ends core)
  show "asm_clean (disasm_line i) = disasm_core i"
    by (simp add: asm_clean_def disasm_line_core no strip_indent strip_ends core)
qed

lemma asm_instr_core: "printable i \<Longrightarrow> asm_instr (disasm_core i) = Inr i"
proof -
  assume i: "printable i"
  obtain op arg where [simp]: "i = (op, arg)" by (cases i)
  have up: "py_upper op = op" "asm_word op" using i by (auto simp: printable_def split: option.splits mval.splits)
  show ?thesis
  proof (cases arg)
    case None
    then show ?thesis using up by (simp add: asm_instr_def disasm_core_def words_of_word)
  next
    case (Some a)
    with i arg_word have "asm_word (mv_dest_str a)" by simp
    moreover have "asm_arg (mv_dest_str a) = Inr a"
      using i Some py_str_int_word by (cases a) (auto simp: printable_def asm_arg_def int_of_py_str)
    ultimately show ?thesis using up Some words_of_two [of op "mv_dest_str a"] by (simp add: asm_instr_def disasm_core_def)
  qed
qed

lemma asm_first_lines:
  "\<forall>(l, i)\<in>set (zip ls code). asm_clean l = disasm_core i \<and> printable i \<Longrightarrow> length ls = length code
     \<Longrightarrow> asm_first ls labels done = Inr (labels, done @ code)"
proof (induction ls arbitrary: code "done")
  case (Cons l ls)
  then obtain i code' where code: "code = i # code'" by (cases code) auto
  with Cons.prems have i: "asm_clean l = disasm_core i" "printable i" by auto
  from code Cons i core_shape [OF i(2), unfolded asm_text_def] asm_instr_core [OF i(2)] show ?case by (simp add: Let_def)
qed simp

lemma asm_resolve_printable: "\<forall>i\<in>set code. printable i \<Longrightarrow> asm_resolve labels code = Inr code"
proof (induction code)
  case (Cons i code)
  obtain op arg where i: "i = (op, arg)" by (cases i)
  show ?case
  proof (cases "op \<in> set asm_jumps")
    case True
    with Cons.prems have "\<not> (\<exists>l. arg = Some (MStr l))" by (auto simp: i printable_def)
    then show ?thesis using Cons True by (cases arg; simp add: i split: mval.split)
  next
    case False
    then show ?thesis using Cons by (simp add: i)
  qed
qed simp

lemma disasm_lines: "map disasm_line is = map ((@) ''    '') (map disasm_core is)"
  by (induction "is") (simp_all add: disasm_line_core)

lemma asm_text_lines:
  "\<forall>w\<in>set ws. asm_text w \<Longrightarrow> ws \<noteq> [] \<Longrightarrow>
     (let s = join_with (newline # ''    '') ws in s \<noteq> [] \<and> \<not> py_is_space (hd s) \<and> \<not> py_is_space (last s))"
  by (induction ws rule: induct_list012) (auto simp: asm_text_def Let_def)

lemma lines_indent:
  "ws \<noteq> [] \<Longrightarrow> join_with [newline] (map ((@) ''    '') ws) = ''    '' @ join_with (newline # ''    '') ws"
  by (induction ws rule: induct_list012) auto

lemma lines_first_bare:
  "join_with (newline # ''    '') (w # ws) = join_with [newline] (w # map ((@) ''    '') ws)"
proof (cases ws)
  case (Cons v vs)
  then show ?thesis using lines_indent [of ws] by (simp del: join_with.simps(3) add: join_with.simps(3) [of _ w])
qed simp

text \<open>C34: Printing and assembling are inverse: the assembler reads the printed form of every code whose opcodes are upper-case
  words, whose integer arguments are not negative and whose string arguments are words that are neither numbers nor the
  targets of jumps, as that code.\<close>

theorem assemble_disassemble:
  "\<forall>i\<in>set code. printable i \<Longrightarrow> assemble (disassemble code) = Inr code"
proof (cases code)
  case Nil
  then show ?thesis by (simp add: assemble_def disassemble_def asm_clean_def)
next
  case (Cons i rest)
  assume code: "\<forall>i\<in>set code. printable i"
  let ?lines = "disasm_core i # map disasm_line rest"
  let ?s = "join_with (newline # ''    '') (map disasm_core code)"
  have printed: "\<forall>w\<in>set (map disasm_core code). asm_text w" using code core_shape by auto
  have "disassemble code = join_with [newline] (map ((@) ''    '') (map disasm_core code))"
    by (simp only: disassemble_def disasm_lines)
  also have "\<dots> = ''    '' @ ?s" by (rule lines_indent) (simp add: Cons)
  finally have "disassemble code = ''    '' @ ?s" .
  then have "py_strip (disassemble code) = py_strip ?s" by (simp add: strip_indent)
  also have "py_strip ?s = ?s" using asm_text_lines [OF printed] by (simp add: Cons strip_ends Let_def)
  also have "?s = join_with [newline] ?lines"
    by (simp only: Cons list.map lines_first_bare disasm_lines)
  finally have stripped: "py_strip (disassemble code) = join_with [newline] ?lines" .
  have "\<forall>w\<in>set ?lines. newline \<notin> set w"
    using printed space_no_newline by (auto simp: Cons asm_text_def disasm_line_core)
  then have "split_on newline (py_strip (disassemble code)) = ?lines" unfolding stripped by (intro split_join) simp_all
  moreover have "asm_first ?lines [] [] = Inr ([], [] @ code)"
    using code by (intro asm_first_lines) (auto simp: Cons asm_clean_core zip_map1 set_zip)
  ultimately show ?thesis using code by (simp add: assemble_def asm_resolve_printable)
qed

lemma assemble_disassemble_witness:
  "assemble (disassemble [(''PUSH'', Some (MInt 7)), (''PUSH'', Some (MStr ''owner'')), (''STORE'', None)])
     = Inr [(''PUSH'', Some (MInt 7)), (''PUSH'', Some (MStr ''owner'')), (''STORE'', None)]"
  by (rule assemble_disassemble) (simp add: printable_def asm_word_def py_is_space_def py_upper_def py_isdigit_def dec_digit_def
    asm_jumps_def)

end
