(* ===== verification/ApplyQueue.thy ===== *)
theory ApplyQueue
  imports Prelude
begin

text \<open>
  The serial apply queue of the chain, \<open>src/core/chain_apply_queue.py\<close>. Producers put jobs, one worker thread takes the
  most urgent one, runs it on the blockchain and sets its future. A state is what the producers and the worker share,
  with the job the worker holds; the steps are the sections that run under a lock or on one side only: a producer
  enqueues, the worker takes a job, the worker runs the job it holds, a waiting side reads its future or gives up, and
  the queue is stopped. The operations of the blockchain and the signing function are parameters. The clock is an
  integer argument. The sums of waiting and execution seconds, the thread start and the join are left out. A job is its
  kind with its payload, and its sequence number names its future.
\<close>

section \<open>Jobs\<close>

datatype ('blk, 'tx) apply_op =
    AO_Import 'blk
  | AO_Add 'blk
  | AO_Forge "'tx list" string "('blk \<Rightarrow> string + 'blk) option"
  | AO_ReorgImport int 'blk
  | AO_Reorg int
  | AO_Stop

definition is_stop :: "('blk, 'tx) apply_op \<Rightarrow> bool" where
  "is_stop op = (case op of AO_Stop \<Rightarrow> True | _ \<Rightarrow> False)"

definition apply_priority :: "('blk, 'tx) apply_op \<Rightarrow> nat" where
  "apply_priority op =
     (case op of AO_Stop \<Rightarrow> 0 | AO_Reorg _ \<Rightarrow> 1 | AO_ReorgImport _ _ \<Rightarrow> 1 | AO_Forge _ _ _ \<Rightarrow> 2 | AO_Add _ \<Rightarrow> 3 | AO_Import _ \<Rightarrow> 4)"

record ('blk, 'tx) apply_item =
  ai_priority :: nat
  ai_seq :: nat
  ai_op :: "('blk, 'tx) apply_op"
  ai_deadline :: int

text \<open>What a future holds: the value of the job, one of the tagged tuples, the exception of the job, or a cancellation.\<close>

datatype 'blk apply_result =
    AR_Bool bool
  | AR_Forged bool 'blk
  | AR_Rejected
  | AR_Expired
  | AR_Exception string
  | AR_Cancelled

section \<open>The queue\<close>

record ('b, 'blk, 'tx) apply_queue =
  aq_chain :: 'b
  aq_maxsize :: nat
  aq_timeout :: int
  aq_items :: "('blk, 'tx) apply_item list"
  aq_seq :: nat
  aq_running :: bool
  aq_reject_total :: nat
  aq_completed_total :: nat
  aq_expired_total :: nat
  aq_timeout_total :: nat
  aq_error_total :: nat
  aq_in_flight :: int
  aq_waiting :: bool
  aq_current :: "('blk, 'tx) apply_item option"
  aq_worker_done :: bool
  aq_futures :: "nat \<rightharpoonup> 'blk apply_result"

definition aq_init :: "'b \<Rightarrow> int \<Rightarrow> int \<Rightarrow> ('b, 'blk, 'tx) apply_queue" where
  "aq_init chain maxsize timeout_sec =
     \<lparr>aq_chain = chain, aq_maxsize = nat (max 1 maxsize), aq_timeout = timeout_sec, aq_items = [], aq_seq = 0, aq_running = True,
      aq_reject_total = 0, aq_completed_total = 0, aq_expired_total = 0, aq_timeout_total = 0, aq_error_total = 0,
      aq_in_flight = 0, aq_waiting = False, aq_current = None, aq_worker_done = False, aq_futures = Map.empty\<rparr>"

definition aq_depth :: "('b, 'blk, 'tx) apply_queue \<Rightarrow> nat" where
  "aq_depth s = length (aq_items s)"

definition aq_busy :: "('b, 'blk, 'tx) apply_queue \<Rightarrow> bool" where
  "aq_busy s \<longleftrightarrow> aq_in_flight s > 0 \<or> aq_depth s > 0"

text \<open>\<open>_put_job\<close>: the answer is False when \<open>queue.Full\<close> is raised. The sequence number is used up in either case.\<close>

definition put_job :: "('blk, 'tx) apply_op \<Rightarrow> int \<Rightarrow> ('b, 'blk, 'tx) apply_queue \<Rightarrow> bool \<times> ('b, 'blk, 'tx) apply_queue" where
  "put_job op deadline s =
     (let n = aq_seq s + 1; s' = s\<lparr>aq_seq := n\<rparr>
      in if length (aq_items s) \<ge> aq_maxsize s then (False, s')
         else (True, s'\<lparr>aq_items := aq_items s @ [\<lparr>ai_priority = apply_priority op, ai_seq = n, ai_op = op, ai_deadline = deadline\<rparr>]\<rparr>))"

definition set_future :: "nat \<Rightarrow> 'blk apply_result \<Rightarrow> ('b, 'blk, 'tx) apply_queue \<Rightarrow> ('b, 'blk, 'tx) apply_queue" where
  "set_future n r s = s\<lparr>aq_futures := (aq_futures s)(n \<mapsto> r)\<rparr>"

text \<open>
  The worker looks whether a future is done and then sets it, one step here. A waiting side that cancels it between the two
  makes the second raise; after a job that is caught, for an expired job it is not and would end the worker.
\<close>

definition settle_future :: "nat \<Rightarrow> 'blk apply_result \<Rightarrow> ('b, 'blk, 'tx) apply_queue \<Rightarrow> ('b, 'blk, 'tx) apply_queue" where
  "settle_future n r s = (if aq_futures s n \<noteq> None then s else set_future n r s)"

definition aq_enqueue :: "int \<Rightarrow> ('blk, 'tx) apply_op \<Rightarrow> ('b, 'blk, 'tx) apply_queue \<Rightarrow> nat \<times> ('b, 'blk, 'tx) apply_queue" where
  "aq_enqueue now op s =
     (let (put, t) = put_job op (now + aq_timeout s) s
      in (aq_seq t, if put then t
            else set_future (aq_seq t) AR_Rejected (t\<lparr>aq_reject_total := aq_reject_total t + 1\<rparr>)))"

definition aq_stop :: "('b, 'blk, 'tx) apply_queue \<Rightarrow> ('b, 'blk, 'tx) apply_queue" where
  "aq_stop s = snd (put_job AO_Stop 0 (s\<lparr>aq_running := False\<rparr>))"

section \<open>The worker\<close>

text \<open>The least entry of the priority queue: by priority, then by sequence number.\<close>

definition item_before :: "('blk, 'tx) apply_item \<Rightarrow> ('blk, 'tx) apply_item \<Rightarrow> bool" where
  "item_before a b \<longleftrightarrow> ai_priority a < ai_priority b \<or> ai_priority a = ai_priority b \<and> ai_seq a < ai_seq b"

fun least_item :: "('blk, 'tx) apply_item \<Rightarrow> ('blk, 'tx) apply_item list \<Rightarrow> ('blk, 'tx) apply_item" where
  "least_item a [] = a"
| "least_item a (b # bs) = least_item (if item_before b a then b else a) bs"

text \<open>
  One turn of the loop of \<open>_run\<close> up to the dispatch: the loop condition, after which the worker waits in \<open>get\<close>; then the
  answer of \<open>get\<close> (none when its wait ran out), the stop job, and the deadline.
\<close>

definition worker_check :: "('b, 'blk, 'tx) apply_queue \<Rightarrow> ('b, 'blk, 'tx) apply_queue" where
  "worker_check s = (if aq_running s then s\<lparr>aq_waiting := True\<rparr> else s\<lparr>aq_worker_done := True\<rparr>)"

definition worker_take :: "int \<Rightarrow> ('b, 'blk, 'tx) apply_queue \<Rightarrow> ('b, 'blk, 'tx) apply_queue" where
  "worker_take now s =
     (case aq_items s of
        [] \<Rightarrow> s\<lparr>aq_waiting := False\<rparr>
      | i # is \<Rightarrow>
          (let item = least_item i is;
               t = s\<lparr>aq_waiting := False, aq_items := filter (\<lambda>j. ai_seq j \<noteq> ai_seq item) (aq_items s)\<rparr>
           in if is_stop (ai_op item) then (set_future (ai_seq item) (AR_Bool True) t)\<lparr>aq_worker_done := True\<rparr>
              else if ai_deadline item \<noteq> 0 \<and> now > ai_deadline item
              then settle_future (ai_seq item) AR_Expired (t\<lparr>aq_expired_total := aq_expired_total t + 1\<rparr>)
              else t\<lparr>aq_in_flight := aq_in_flight t + 1, aq_current := Some item\<rparr>))"

text \<open>The operations of the blockchain; \<open>None\<close> for \<open>import_block\<close> when the chain has no such method.\<close>

record ('b, 'blk, 'tx) chain_ops =
  co_import_block :: "('blk \<Rightarrow> 'b \<Rightarrow> (string + bool) \<times> 'b) option"
  co_add_block :: "'blk \<Rightarrow> 'b \<Rightarrow> (string + bool) \<times> 'b"
  co_create_block :: "'tx list \<Rightarrow> string \<Rightarrow> 'b \<Rightarrow> (string + 'blk) \<times> 'b"
  co_reorg_to_ancestor :: "int \<Rightarrow> 'b \<Rightarrow> (string + bool) \<times> 'b"

definition aq_import :: "('b, 'blk, 'tx) chain_ops \<Rightarrow> 'blk \<Rightarrow> ('b, string, bool) exs" where
  "aq_import ops blk =
     (case co_import_block ops of Some f \<Rightarrow> f blk | None \<Rightarrow> raiseM ''no attribute import_block'')"

definition aq_dispatch :: "('b, 'blk, 'tx) chain_ops \<Rightarrow> ('blk, 'tx) apply_op \<Rightarrow> ('b, string, 'blk apply_result) exs" where
  "aq_dispatch ops op =
     (case op of
        AO_Import blk \<Rightarrow>
          (case co_import_block ops of None \<Rightarrow> returnM (AR_Bool False) | Some f \<Rightarrow> bindM (f blk) (\<lambda>b. returnM (AR_Bool b)))
      | AO_Add blk \<Rightarrow> bindM (co_add_block ops blk) (\<lambda>b. returnM (AR_Bool b))
      | AO_Forge txs proposer sign_fn \<Rightarrow>
          bindM (co_create_block ops txs proposer) (\<lambda>blk.
          bindM (case sign_fn of None \<Rightarrow> returnM blk
                   | Some f \<Rightarrow> (case f blk of Inl e \<Rightarrow> raiseM e | Inr blk' \<Rightarrow> returnM blk')) (\<lambda>blk.
          bindM (co_add_block ops blk) (\<lambda>ok. returnM (AR_Forged ok blk))))
      | AO_ReorgImport rollback_to peer_block \<Rightarrow>
          bindM (co_reorg_to_ancestor ops rollback_to) (\<lambda>ok.
          if \<not> ok then returnM (AR_Bool False)
          else bindM (aq_import ops peer_block) (\<lambda>b. returnM (AR_Bool b)))
      | AO_Reorg rollback_to \<Rightarrow> bindM (co_reorg_to_ancestor ops rollback_to) (\<lambda>b. returnM (AR_Bool b))
      | AO_Stop \<Rightarrow> raiseM ''unknown apply op: ApplyOpKind.STOP'')"

text \<open>The rest of the turn: the dispatch, the future and the counters.\<close>

definition worker_finish :: "('b, 'blk, 'tx) chain_ops \<Rightarrow> ('b, 'blk, 'tx) apply_queue \<Rightarrow> ('b, 'blk, 'tx) apply_queue" where
  "worker_finish ops s =
     (case aq_current s of
        None \<Rightarrow> s
      | Some item \<Rightarrow>
          (let (r, chain) = aq_dispatch ops (ai_op item) (aq_chain s);
               t = s\<lparr>aq_chain := chain\<rparr>;
               u = (case r of
                      Inr v \<Rightarrow> (settle_future (ai_seq item) v t)\<lparr>aq_completed_total := aq_completed_total t + 1\<rparr>
                    | Inl e \<Rightarrow> settle_future (ai_seq item) (AR_Exception e) (t\<lparr>aq_error_total := aq_error_total t + 1\<rparr>))
           in u\<lparr>aq_in_flight := max 0 (aq_in_flight u - 1), aq_current := None\<rparr>))"

section \<open>The waiting side\<close>

text \<open>
  \<open>_result_or_timeout\<close> and \<open>_await_job\<close>, with the future as it is at the end of the wait. The first turns an exception
  of the job and a wait that ran out into an error and counts either as a timeout. The second returns an error for an
  exception that is in the future when it is called (\<open>ready\<close>), lets one that arrives during the wait through, and cancels
  the future when the wait runs out.
\<close>

datatype 'blk queue_outcome = OutResult "'blk apply_result" | OutError string | OutRaise string

definition result_or_timeout :: "nat \<Rightarrow> ('b, 'blk, 'tx) apply_queue \<Rightarrow> 'blk queue_outcome \<times> ('b, 'blk, 'tx) apply_queue" where
  "result_or_timeout n s =
     (let late = s\<lparr>aq_timeout_total := aq_timeout_total s + 1\<rparr>
      in case aq_futures s n of
           None \<Rightarrow> (OutError ''TimeoutError'', late)
         | Some (AR_Exception e) \<Rightarrow> (OutError e, late)
         | Some AR_Cancelled \<Rightarrow> (OutError ''CancelledError'', late)
         | Some r \<Rightarrow> (OutResult r, s))"

definition await_job :: "bool \<Rightarrow> nat \<Rightarrow> ('b, 'blk, 'tx) apply_queue \<Rightarrow> 'blk queue_outcome \<times> ('b, 'blk, 'tx) apply_queue" where
  "await_job ready n s =
     (case aq_futures s n of
        None \<Rightarrow> (OutError ''apply wait timeout'', set_future n AR_Cancelled (s\<lparr>aq_timeout_total := aq_timeout_total s + 1\<rparr>))
      | Some (AR_Exception e) \<Rightarrow> (if ready then OutError e else OutRaise e, s)
      | Some AR_Cancelled \<Rightarrow> (if ready then OutError ''CancelledError'' else OutRaise ''CancelledError'', s)
      | Some r \<Rightarrow> (OutResult r, s))"

definition fail_outcome :: "'blk queue_outcome \<Rightarrow> bool" where
  "fail_outcome out = (case out of OutError _ \<Rightarrow> True | OutResult r \<Rightarrow> (case r of AR_Rejected \<Rightarrow> True | AR_Expired \<Rightarrow> True | _ \<Rightarrow> False)
     | OutRaise _ \<Rightarrow> False)"

text \<open>What \<open>submit_import\<close>, \<open>submit_add\<close>, \<open>submit_reorg_and_import\<close> and \<open>submit_reorg\<close> return, and \<open>submit_forge_and_apply\<close>.\<close>

definition submit_answer :: "'blk queue_outcome \<Rightarrow> string + bool" where
  "submit_answer out =
     (if fail_outcome out then Inr False
      else case out of OutRaise e \<Rightarrow> Inl e | OutResult (AR_Bool b) \<Rightarrow> Inr b | _ \<Rightarrow> Inr True)"

definition forge_answer :: "'blk queue_outcome \<Rightarrow> string + bool \<times> 'blk option" where
  "forge_answer out =
     (if fail_outcome out then Inr (False, None)
      else case out of OutRaise e \<Rightarrow> Inl e | OutResult (AR_Forged ok blk) \<Rightarrow> Inr (ok, Some blk) | _ \<Rightarrow> Inr (False, None))"

section \<open>Runs\<close>

text \<open>
  The runs of a queue: the calls made so far with their jobs, the items the worker has dispatched, and the state. The
  worker goes round its loop; the producers and the waiting sides act at any time.
\<close>

inductive aq_run :: "('b, 'blk, 'tx) chain_ops \<Rightarrow> 'b \<Rightarrow> (nat \<times> ('blk, 'tx) apply_op) list \<Rightarrow> ('blk, 'tx) apply_item list
    \<Rightarrow> ('b, 'blk, 'tx) apply_queue \<Rightarrow> bool" for ops chain where
  start: "aq_run ops chain [] [] (aq_init chain maxsize timeout_sec)"
| enqueue: "aq_run ops chain calls served s \<Longrightarrow> \<not> is_stop op \<Longrightarrow> aq_enqueue now op s = (n, t) \<Longrightarrow> aq_run ops chain (calls @ [(n, op)]) served t"
| check: "aq_run ops chain calls served s \<Longrightarrow> \<not> aq_worker_done s \<Longrightarrow> \<not> aq_waiting s \<Longrightarrow> aq_current s = None
    \<Longrightarrow> aq_run ops chain calls served (worker_check s)"
| take: "aq_run ops chain calls served s \<Longrightarrow> aq_waiting s \<Longrightarrow> aq_run ops chain calls served (worker_take now s)"
| finish: "aq_run ops chain calls served s \<Longrightarrow> aq_current s = Some item \<Longrightarrow> aq_run ops chain calls (served @ [item]) (worker_finish ops s)"
| wait: "aq_run ops chain calls served s \<Longrightarrow> n \<in> fst ` set calls \<Longrightarrow> aq_run ops chain calls served (snd (result_or_timeout n s))"
| await: "aq_run ops chain calls served s \<Longrightarrow> n \<in> fst ` set calls \<Longrightarrow> aq_run ops chain calls served (snd (await_job ready n s))"
| stop: "aq_run ops chain calls served s \<Longrightarrow> aq_run ops chain calls served (aq_stop s)"

section \<open>The serial history\<close>

text \<open>The specification: the dispatched items applied to the chain one after the other, with their answers.\<close>

definition answer_of :: "string + 'blk apply_result \<Rightarrow> 'blk apply_result" where
  "answer_of r = (case r of Inl e \<Rightarrow> AR_Exception e | Inr v \<Rightarrow> v)"

fun serve :: "('b, 'blk, 'tx) chain_ops \<Rightarrow> ('blk, 'tx) apply_item list \<Rightarrow> 'b \<Rightarrow> (nat \<times> 'blk apply_result) list \<times> 'b" where
  "serve ops [] chain = ([], chain)"
| "serve ops (i # is) chain =
     (let d = aq_dispatch ops (ai_op i) chain; rest = serve ops is (snd d)
      in ((ai_seq i, answer_of (fst d)) # fst rest, snd rest))"

lemma serve_snoc:
  "serve ops (is @ [i]) chain =
     (let c = serve ops is chain; d = aq_dispatch ops (ai_op i) (snd c) in (fst c @ [(ai_seq i, answer_of (fst d))], snd d))"
  by (induction "is" arbitrary: chain) (auto simp: Let_def)

lemma serve_ids: "map fst (fst (serve ops is chain)) = map ai_seq is"
  by (induction "is" arbitrary: chain) (auto simp: Let_def)

definition plain_answer :: "'blk apply_result \<Rightarrow> bool" where
  "plain_answer r \<longleftrightarrow> r \<noteq> AR_Rejected \<and> r \<noteq> AR_Expired \<and> r \<noteq> AR_Cancelled"

lemma dispatch_plain: "plain_answer (answer_of (fst (aq_dispatch ops op c)))"
  by (auto simp: aq_dispatch_def aq_import_def exs_defs answer_of_def plain_answer_def
      split: apply_op.split sum.splits prod.splits option.splits)

lemma serve_plain: "(n, r) \<in> set (fst (serve ops is chain)) \<Longrightarrow> plain_answer r"
  by (induction "is" arbitrary: chain) (auto simp: Let_def dispatch_plain)

section \<open>The invariant of the runs\<close>

text \<open>
  A future against the answer given to its number, whether an item with the number is held, was a call, is not new: it
  is set once, to the answer, or before it to a cancellation; a call is answered, held, or refused.
\<close>

definition fut_at :: "'blk apply_result option \<Rightarrow> bool \<Rightarrow> bool \<Rightarrow> bool \<Rightarrow> 'blk apply_result option \<Rightarrow> bool" where
  "fut_at ans held called old fut \<longleftrightarrow>
     (\<forall>r. ans = Some r \<longrightarrow> fut = Some r \<or> fut = Some AR_Cancelled) \<and> (held \<longrightarrow> fut = None \<or> fut = Some AR_Cancelled)
     \<and> (called \<longrightarrow> held \<or> ans \<noteq> None \<or> (\<exists>r. fut = Some r \<and> \<not> plain_answer r)) \<and> (\<not> old \<longrightarrow> fut = None)"

definition futs_ok :: "(nat \<rightharpoonup> 'blk apply_result) \<Rightarrow> nat set \<Rightarrow> nat set \<Rightarrow> nat \<Rightarrow> (nat \<rightharpoonup> 'blk apply_result) \<Rightarrow> bool" where
  "futs_ok a H C m f \<longleftrightarrow> (\<forall>n. fut_at (a n) (n \<in> H) (n \<in> C) (n \<le> m) (f n))"

lemma plain_simps [simp]: "\<not> plain_answer AR_Cancelled" "\<not> plain_answer AR_Rejected" "\<not> plain_answer AR_Expired"
  by (simp_all add: plain_answer_def)

lemma futs_change:
  assumes "futs_ok a H C m f" "\<And>k. k \<noteq> n \<Longrightarrow> a' k = a k \<and> (k \<in> H') = (k \<in> H) \<and> (k \<in> C') = (k \<in> C) \<and> f' k = f k"
    "fut_at (a n) (n \<in> H) (n \<in> C) (n \<le> m) (f n) \<Longrightarrow> fut_at (a' n) (n \<in> H') (n \<in> C') (n \<le> m') (f' n)" "m \<le> m'"
  shows "futs_ok a' H' C' m' f'"
  unfolding futs_ok_def
proof
  fix k
  from assms(1) have k: "fut_at (a k) (k \<in> H) (k \<in> C) (k \<le> m) (f k)" by (simp add: futs_ok_def)
  show "fut_at (a' k) (k \<in> H') (k \<in> C') (k \<le> m') (f' k)"
  proof (cases "k = n")
    case False
    with k assms(2) [OF False] assms(4) show ?thesis by (auto simp: fut_at_def)
  qed (use k assms(3) in simp)
qed

lemma futs_cancel: "futs_ok a H C m f \<Longrightarrow> f n = None \<Longrightarrow> n \<le> m \<Longrightarrow> futs_ok a H C m (f(n \<mapsto> AR_Cancelled))"
  by (erule futs_change [of _ _ _ _ _ n]) (auto simp: fut_at_def)

lemma futs_put:
  "futs_ok a H C m f \<Longrightarrow> C' = C \<or> C' = insert (Suc m) C \<Longrightarrow> futs_ok a (insert (Suc m) H) C' (Suc m) f"
  by (erule futs_change [of _ _ _ _ _ "Suc m"]) (auto simp: fut_at_def)

lemma futs_reject:
  "futs_ok a H C m f \<Longrightarrow> Suc m \<notin> H \<Longrightarrow> a (Suc m) = None
     \<Longrightarrow> futs_ok a H (insert (Suc m) C) (Suc m) (f(Suc m \<mapsto> AR_Rejected))"
  by (erule futs_change [of _ _ _ _ _ "Suc m"]) (auto simp: fut_at_def)

lemma futs_skip: "futs_ok a H C m f \<Longrightarrow> futs_ok a H C (Suc m) f"
  by (erule futs_change [of _ _ _ _ _ "Suc m"]) (auto simp: fut_at_def)

lemma futs_expire:
  "futs_ok a H C m f \<Longrightarrow> n \<in> H \<Longrightarrow> a n = None \<Longrightarrow> n \<le> m
     \<Longrightarrow> futs_ok a (H - {n}) C m (if f n \<noteq> None then f else f(n \<mapsto> AR_Expired))"
  by (erule futs_change [of _ _ _ _ _ n]) (auto simp: fut_at_def)

lemma futs_serve:
  "futs_ok a H C m f \<Longrightarrow> n \<in> H \<Longrightarrow> a n = None \<Longrightarrow> n \<le> m
     \<Longrightarrow> futs_ok (a(n \<mapsto> r)) (H - {n}) C m (if f n \<noteq> None then f else f(n \<mapsto> r))"
  by (erule futs_change [of _ _ _ _ _ n]) (auto simp: fut_at_def)

lemma futs_stop:
  "futs_ok a H C m f \<Longrightarrow> n \<in> H \<Longrightarrow> a n = None \<Longrightarrow> n \<le> m \<Longrightarrow> n \<notin> C \<Longrightarrow> futs_ok a (H - {n}) C m (f(n \<mapsto> r))"
  by (erule futs_change [of _ _ _ _ _ n]) (auto simp: fut_at_def)

text \<open>The items: every one has its own number, client items are calls, and the worker holds at most one.\<close>

definition aq_held :: "('b, 'blk, 'tx) apply_queue \<Rightarrow> ('blk, 'tx) apply_item list" where
  "aq_held s = (case aq_current s of None \<Rightarrow> [] | Some i \<Rightarrow> [i]) @ aq_items s"

definition item_ok :: "(nat \<times> ('blk, 'tx) apply_op) list \<Rightarrow> nat \<Rightarrow> ('blk, 'tx) apply_item \<Rightarrow> bool" where
  "item_ok calls m i \<longleftrightarrow> ai_seq i \<le> m \<and> (if is_stop (ai_op i) then ai_seq i \<notin> fst ` set calls else (ai_seq i, ai_op i) \<in> set calls)"

definition items_ok :: "(nat \<times> ('blk, 'tx) apply_op) list \<Rightarrow> nat \<Rightarrow> ('blk, 'tx) apply_item list \<Rightarrow> bool" where
  "items_ok calls m is \<longleftrightarrow>
     distinct (map ai_seq is) \<and> (\<forall>i\<in>set is. item_ok calls m i) \<and> (\<forall>n\<in>fst ` set calls. n \<le> m) \<and> distinct (map fst calls)"

definition aq_sched :: "('b, 'blk, 'tx) apply_queue \<Rightarrow> bool" where
  "aq_sched s \<longleftrightarrow>
     (\<forall>i. aq_current s = Some i \<longrightarrow> \<not> is_stop (ai_op i)) \<and> aq_in_flight s = (if aq_current s = None then 0 else 1)
     \<and> (aq_waiting s \<longrightarrow> aq_current s = None) \<and> length (aq_items s) \<le> aq_maxsize s \<and> 1 \<le> aq_maxsize s
     \<and> (aq_running s \<longrightarrow> \<not> aq_worker_done s \<and> (\<forall>i\<in>set (aq_items s). \<not> is_stop (ai_op i)))"

definition aq_inv :: "('b, 'blk, 'tx) chain_ops \<Rightarrow> 'b \<Rightarrow> (nat \<times> ('blk, 'tx) apply_op) list \<Rightarrow> ('blk, 'tx) apply_item list
    \<Rightarrow> ('b, 'blk, 'tx) apply_queue \<Rightarrow> bool" where
  "aq_inv ops chain calls served s \<longleftrightarrow>
     aq_chain s = snd (serve ops served chain) \<and> aq_sched s \<and> items_ok calls (aq_seq s) (served @ aq_held s)
     \<and> futs_ok (map_of (fst (serve ops served chain))) (ai_seq ` set (aq_held s)) (fst ` set calls) (aq_seq s) (aq_futures s)"

lemma items_ok_put: "items_ok calls m is \<Longrightarrow> ai_seq i = Suc m \<Longrightarrow> \<not> is_stop (ai_op i)
    \<Longrightarrow> items_ok (calls @ [(Suc m, ai_op i)]) (Suc m) (is @ [i])"
  by (force simp: items_ok_def item_ok_def)

lemma items_ok_put_stop: "items_ok calls m is \<Longrightarrow> ai_seq i = Suc m \<Longrightarrow> is_stop (ai_op i) \<Longrightarrow> items_ok calls (Suc m) (is @ [i])"
  by (force simp: items_ok_def item_ok_def)

lemma items_ok_reject: "items_ok calls m is \<Longrightarrow> items_ok (calls @ [(Suc m, op)]) (Suc m) is"
  by (force simp: items_ok_def item_ok_def)

lemma items_ok_skip: "items_ok calls m is \<Longrightarrow> items_ok calls (Suc m) is"
  by (force simp: items_ok_def item_ok_def)

lemma items_ok_subset:
  "items_ok calls m is \<Longrightarrow> set js \<subseteq> set is \<Longrightarrow> distinct (map ai_seq js) \<Longrightarrow> items_ok calls m js"
  by (auto simp: items_ok_def)

lemma answers_none:
  assumes "n \<notin> ai_seq ` set served"
  shows "map_of (fst (serve ops served chain)) n = None"
proof -
  have "fst ` set (fst (serve ops served chain)) = ai_seq ` set served"
    using serve_ids [of ops served chain] by (metis set_map)
  with assms show ?thesis by (simp add: map_of_eq_None_iff)
qed

lemma inv_start: "aq_inv ops chain [] [] (aq_init chain maxsize timeout_sec)"
  by (simp add: aq_inv_def aq_sched_def items_ok_def futs_ok_def fut_at_def aq_init_def aq_held_def)

lemma inv_check:
  "aq_inv ops chain calls served s \<Longrightarrow> aq_current s = None \<Longrightarrow> aq_inv ops chain calls served (worker_check s)"
  by (simp add: aq_inv_def aq_sched_def worker_check_def aq_held_def)

lemma inv_counts: "aq_inv ops chain calls served (s\<lparr>aq_timeout_total := k\<rparr>) = aq_inv ops chain calls served s"
  by (simp add: aq_inv_def aq_sched_def aq_held_def)

lemma inv_timeout: "aq_inv ops chain calls served s \<Longrightarrow> aq_inv ops chain calls served (snd (result_or_timeout n s))"
  by (simp add: result_or_timeout_def Let_def inv_counts split: option.split apply_result.split)

lemma inv_await:
  assumes inv: "aq_inv ops chain calls served s" and n: "n \<in> fst ` set calls"
  shows "aq_inv ops chain calls served (snd (await_job ready n s))"
proof (cases "aq_futures s n")
  case None
  from inv n have "n \<le> aq_seq s" by (auto simp: aq_inv_def items_ok_def)
  with inv None show ?thesis
    by (auto simp: aq_inv_def aq_sched_def await_job_def aq_held_def set_future_def intro: futs_cancel)
next
  case (Some r)
  with inv show ?thesis by (cases r) (simp_all add: await_job_def)
qed

lemma inv_put:
  assumes inv: "aq_inv ops chain calls served s" and room: "length (aq_items s) < aq_maxsize s"
    and i: "ai_seq i = Suc (aq_seq s)" "calls' = (if is_stop (ai_op i) then calls else calls @ [(Suc (aq_seq s), ai_op i)])"
    "is_stop (ai_op i) \<Longrightarrow> \<not> aq_running s"
  shows "aq_inv ops chain calls' served (s\<lparr>aq_seq := Suc (aq_seq s), aq_items := aq_items s @ [i]\<rparr>)"
proof -
  let ?t = "s\<lparr>aq_seq := Suc (aq_seq s), aq_items := aq_items s @ [i]\<rparr>"
  have held: "aq_held ?t = aq_held s @ [i]" by (simp add: aq_held_def)
  have "items_ok calls' (Suc (aq_seq s)) ((served @ aq_held s) @ [i])"
    using inv i items_ok_put [of calls "aq_seq s" "served @ aq_held s" i]
      items_ok_put_stop [of calls "aq_seq s" "served @ aq_held s" i] by (auto simp: aq_inv_def simp del: append_assoc)
  moreover have "futs_ok (map_of (fst (serve ops served chain))) (ai_seq ` set (aq_held s @ [i])) (fst ` set calls') (Suc (aq_seq s)) (aq_futures s)"
    using inv i futs_put [of _ "ai_seq ` set (aq_held s)" "fst ` set calls" "aq_seq s" _ "fst ` set calls'"] by (auto simp: aq_inv_def)
  ultimately show ?thesis using inv room i by (auto simp: aq_inv_def aq_sched_def held)
qed

lemma inv_enqueue:
  assumes inv: "aq_inv ops chain calls served s" and op: "\<not> is_stop op" and enq: "aq_enqueue now op s = (n, t)"
  shows "aq_inv ops chain (calls @ [(n, op)]) served t"
proof (cases "length (aq_items s) < aq_maxsize s")
  case True
  with enq op inv_put [OF inv True, of "\<lparr>ai_priority = apply_priority op, ai_seq = Suc (aq_seq s), ai_op = op, ai_deadline = now + aq_timeout s\<rparr>"]
  show ?thesis by (auto simp: aq_enqueue_def put_job_def Let_def)
next
  case False
  from inv have fresh: "Suc (aq_seq s) \<notin> ai_seq ` set (served @ aq_held s)"
    by (force simp: aq_inv_def items_ok_def item_ok_def)
  from False enq have t: "n = Suc (aq_seq s)"
    "t = s\<lparr>aq_seq := Suc (aq_seq s), aq_reject_total := Suc (aq_reject_total s), aq_futures := (aq_futures s)(Suc (aq_seq s) \<mapsto> AR_Rejected)\<rparr>"
    by (auto simp: aq_enqueue_def put_job_def Let_def set_future_def)
  have held: "aq_held t = aq_held s" by (simp add: t aq_held_def)
  have "map_of (fst (serve ops served chain)) (Suc (aq_seq s)) = None" using fresh by (intro answers_none) auto
  moreover have "Suc (aq_seq s) \<notin> ai_seq ` set (aq_held s)" using fresh by auto
  ultimately show ?thesis unfolding aq_inv_def held
    using inv futs_reject [of "map_of (fst (serve ops served chain))" "ai_seq ` set (aq_held s)" "fst ` set calls" "aq_seq s" "aq_futures s"]
    by (simp add: aq_inv_def t aq_sched_def items_ok_reject)
qed

lemma inv_stop: "aq_inv ops chain calls served s \<Longrightarrow> aq_inv ops chain calls served (aq_stop s)"
proof -
  assume "aq_inv ops chain calls served s"
  then have inv: "aq_inv ops chain calls served (s\<lparr>aq_running := False\<rparr>)" by (auto simp: aq_inv_def aq_sched_def aq_held_def)
  show ?thesis
  proof (cases "length (aq_items s) < aq_maxsize s")
    case True
    with inv_put [OF inv, of "\<lparr>ai_priority = apply_priority AO_Stop, ai_seq = Suc (aq_seq s), ai_op = AO_Stop, ai_deadline = 0\<rparr>"]
    show ?thesis by (simp add: aq_stop_def put_job_def Let_def is_stop_def)
  next
    case False
    with inv show ?thesis
      by (auto simp: aq_stop_def put_job_def Let_def aq_inv_def aq_sched_def aq_held_def items_ok_skip futs_skip)
  qed
qed

text \<open>The least entry is an entry of the queue that comes before every other.\<close>

lemma item_before_trans: "item_before a b \<Longrightarrow> item_before b c \<Longrightarrow> item_before a c"
  by (auto simp: item_before_def)

lemma least_item_mem: "least_item a bs \<in> insert a (set bs)"
  by (induction bs arbitrary: a) auto

lemma least_item_before:
  "j \<in> insert a (set bs) \<Longrightarrow> \<not> item_before j (least_item a bs)"
proof (induction bs arbitrary: a j)
  case (Cons b bs)
  let ?c = "if item_before b a then b else a"
  show ?case
  proof (cases "j \<in> insert ?c (set bs)")
    case True
    with Cons.IH [of j ?c] show ?thesis by simp
  next
    case False
    with Cons.prems have j: "j = a \<and> item_before b a \<or> j = b \<and> \<not> item_before b a" by (auto split: if_splits)
    then have not: "\<not> item_before ?c (least_item ?c bs)" using Cons.IH [of ?c ?c] by simp
    from j not show ?thesis using item_before_trans [of b a] by (auto simp: item_before_def split: if_splits)
  qed
qed (simp add: item_before_def)

lemma least_item_strict:
  "distinct (map ai_seq (i # is)) \<Longrightarrow> j \<in> set (i # is) \<Longrightarrow> ai_seq j \<noteq> ai_seq (least_item i is)
     \<Longrightarrow> item_before (least_item i is) j"
  using least_item_before [of j i "is"] by (auto simp: item_before_def)

text \<open>Taking an item out of the queue.\<close>

lemma items_remove:
  assumes "items_ok calls m (served @ items)" "x \<in> set items"
  shows "items_ok calls m (served @ x # filter (\<lambda>j. ai_seq j \<noteq> ai_seq x) items)"
    "items_ok calls m (served @ filter (\<lambda>j. ai_seq j \<noteq> ai_seq x) items)"
    "ai_seq ` set (filter (\<lambda>j. ai_seq j \<noteq> ai_seq x) items) = ai_seq ` set items - {ai_seq x}"
    "ai_seq x \<notin> ai_seq ` set served" "ai_seq x \<le> m" "item_ok calls m x"
    "insert (ai_seq x) (ai_seq ` set (filter (\<lambda>j. ai_seq j \<noteq> ai_seq x) items)) = ai_seq ` set items"
proof -
  have distinct: "distinct (map ai_seq (filter P items))" for P
    using assms(1) by (auto simp: items_ok_def distinct_map inj_on_def)
  show "items_ok calls m (served @ filter (\<lambda>j. ai_seq j \<noteq> ai_seq x) items)"
    using assms distinct by (auto simp: items_ok_def)
  show "items_ok calls m (served @ x # filter (\<lambda>j. ai_seq j \<noteq> ai_seq x) items)"
    using assms distinct by (auto simp: items_ok_def)
qed (use assms in \<open>auto simp: items_ok_def item_ok_def\<close>)

lemma inv_take:
  assumes inv: "aq_inv ops chain calls served s" and waiting: "aq_waiting s"
  shows "aq_inv ops chain calls served (worker_take now s)"
proof (cases "aq_items s")
  case Nil
  with inv waiting show ?thesis by (auto simp: worker_take_def aq_inv_def aq_sched_def aq_held_def)
next
  case (Cons i "is")
  define x where "x = least_item i is"
  have x: "x \<in> set (aq_items s)" using least_item_mem [of i "is"] by (simp add: x_def Cons)
  let ?rest = "filter (\<lambda>j. ai_seq j \<noteq> ai_seq x) (aq_items s)"
  let ?a = "map_of (fst (serve ops served chain))"
  from inv waiting have idle: "aq_current s = None" by (simp add: aq_inv_def aq_sched_def)
  then have held: "aq_held s = aq_items s" by (simp add: aq_held_def)
  from inv have items: "items_ok calls (aq_seq s) (served @ aq_items s)"
    and futs: "futs_ok ?a (ai_seq ` set (aq_items s)) (fst ` set calls) (aq_seq s) (aq_futures s)"
    by (simp_all add: aq_inv_def held)
  note rest = items_remove [OF items x]
  have none: "?a (ai_seq x) = None" using rest(4) by (rule answers_none)
  have mem: "ai_seq x \<in> ai_seq ` set (aq_items s)" using x by simp
  have len: "length ?rest \<le> aq_maxsize s" using inv length_filter_le [of "\<lambda>j. ai_seq j \<noteq> ai_seq x" "aq_items s"]
    by (simp add: aq_inv_def aq_sched_def del: length_filter_le)
  have take: "worker_take now s =
     (let t = s\<lparr>aq_waiting := False, aq_items := ?rest\<rparr>
      in if is_stop (ai_op x) then (set_future (ai_seq x) (AR_Bool True) t)\<lparr>aq_worker_done := True\<rparr>
         else if ai_deadline x \<noteq> 0 \<and> now > ai_deadline x
         then settle_future (ai_seq x) AR_Expired (t\<lparr>aq_expired_total := aq_expired_total t + 1\<rparr>)
         else t\<lparr>aq_in_flight := aq_in_flight t + 1, aq_current := Some x\<rparr>)"
    by (simp add: worker_take_def Cons x_def Let_def)
  consider (stop) "is_stop (ai_op x)" | (late) "\<not> is_stop (ai_op x)" "ai_deadline x \<noteq> 0 \<and> now > ai_deadline x"
    | (go) "\<not> is_stop (ai_op x)" "\<not> (ai_deadline x \<noteq> 0 \<and> now > ai_deadline x)" by blast
  then show ?thesis
  proof cases
    case stop
    then have "ai_seq x \<notin> fst ` set calls" using rest(6) by (simp add: item_ok_def)
    from futs_stop [OF futs mem none rest(5) this, of "AR_Bool True"] stop inv idle len x rest(2, 3) show ?thesis
      by (auto simp: take Let_def aq_inv_def aq_sched_def aq_held_def set_future_def)
  next
    case late
    from futs_expire [OF futs mem none rest(5)] late inv idle len rest(2, 3) show ?thesis
      by (auto simp: take Let_def aq_inv_def aq_sched_def aq_held_def set_future_def settle_future_def)
  next
    case go
    have "ai_seq ` set (x # ?rest) = ai_seq ` set (aq_items s)" by (simp only: list.set image_insert rest(7))
    with futs have "futs_ok ?a (ai_seq ` set (x # ?rest)) (fst ` set calls) (aq_seq s) (aq_futures s)" by (simp only:)
    moreover have "worker_take now s = s\<lparr>aq_waiting := False, aq_items := ?rest, aq_in_flight := aq_in_flight s + 1, aq_current := Some x\<rparr>"
      using go by (simp only: take Let_def if_False) simp
    moreover have "\<not> aq_worker_done s \<and> (\<forall>i\<in>set (aq_items s). \<not> is_stop (ai_op i))" if "aq_running s"
      using inv that by (simp add: aq_inv_def aq_sched_def)
    ultimately show ?thesis
      using go inv idle len rest(1) by (simp only: aq_inv_def aq_sched_def aq_held_def) auto
  qed
qed

lemma inv_finish:
  assumes inv: "aq_inv ops chain calls served s" and cur: "aq_current s = Some x"
  shows "aq_inv ops chain calls (served @ [x]) (worker_finish ops s)"
proof -
  let ?a = "map_of (fst (serve ops served chain))"
  obtain r c where d: "aq_dispatch ops (ai_op x) (aq_chain s) = (r, c)" by fastforce
  have held: "aq_held s = x # aq_items s" by (simp add: aq_held_def cur)
  from inv have items: "items_ok calls (aq_seq s) (served @ x # aq_items s)"
    and futs: "futs_ok ?a (ai_seq ` set (x # aq_items s)) (fst ` set calls) (aq_seq s) (aq_futures s)"
    and chain: "aq_chain s = snd (serve ops served chain)"
    by (simp_all add: aq_inv_def held)
  have none: "?a (ai_seq x) = None" using items by (intro answers_none) (auto simp: items_ok_def)
  have ids: "ai_seq ` set (x # aq_items s) - {ai_seq x} = ai_seq ` set (aq_items s)" "ai_seq x \<le> aq_seq s"
    using items by (auto simp: items_ok_def item_ok_def)
  have a': "map_of (fst (serve ops (served @ [x]) chain)) = ?a(ai_seq x \<mapsto> answer_of r)"
  proof -
    have "map_of (xs @ [(n, v)]) = (map_of xs)(n \<mapsto> v)" if "map_of xs n = None" for xs :: "(nat \<times> 'b apply_result) list" and n v
      using that by (auto simp: map_add_def split: option.split)
    with none d show ?thesis by (simp add: serve_snoc Let_def chain)
  qed
  have finish: "worker_finish ops s = (settle_future (ai_seq x) (answer_of r) s)\<lparr>aq_chain := c,
       aq_completed_total := aq_completed_total s + (case r of Inl _ \<Rightarrow> 0 | Inr _ \<Rightarrow> 1),
       aq_error_total := aq_error_total s + (case r of Inl _ \<Rightarrow> 1 | Inr _ \<Rightarrow> 0),
       aq_in_flight := max 0 (aq_in_flight s - 1), aq_current := None\<rparr>"
    by (cases r) (simp_all add: worker_finish_def cur d Let_def settle_future_def set_future_def answer_of_def)
  have c: "c = snd (serve ops (served @ [x]) chain)" using d by (simp add: serve_snoc Let_def chain)
  have "futs_ok (?a(ai_seq x \<mapsto> answer_of r)) (ai_seq ` set (aq_items s)) (fst ` set calls) (aq_seq s)
     (if aq_futures s (ai_seq x) \<noteq> None then aq_futures s else (aq_futures s)(ai_seq x \<mapsto> answer_of r))"
    using futs_serve [OF futs _ none ids(2), of "answer_of r"] by (simp only: ids) simp
  then show ?thesis
    using inv items cur unfolding aq_inv_def a' finish
    by (auto simp: aq_sched_def aq_held_def settle_future_def set_future_def c)
qed

lemma run_inv: "aq_run ops chain calls served s \<Longrightarrow> aq_inv ops chain calls served s"
  by (induction rule: aq_run.induct)
    (auto intro: inv_start inv_enqueue inv_check inv_take inv_finish inv_timeout inv_await inv_stop)

section \<open>What the queue promises\<close>

lemma served_answered: "n \<in> ai_seq ` set served \<longleftrightarrow> map_of (fst (serve ops served chain)) n \<noteq> None"
proof -
  have "fst ` set (fst (serve ops served chain)) = ai_seq ` set served"
    using serve_ids [of ops served chain] by (metis set_map)
  then show ?thesis by (simp add: map_of_eq_None_iff)
qed

lemma future_of_call:
  assumes "fut_at (map_of (fst (serve ops served chain)) n) held True old fut"
  shows "case fut of None \<Rightarrow> n \<notin> ai_seq ` set served
     | Some r \<Rightarrow> r = AR_Cancelled \<or> (if r \<in> {AR_Rejected, AR_Expired} then n \<notin> ai_seq ` set served
          else map_of (fst (serve ops served chain)) n = Some r)"
proof (cases fut)
  case None
  with assms show ?thesis by (auto simp: fut_at_def served_answered [of _ _ ops chain])
next
  case (Some r)
  have "map_of (fst (serve ops served chain)) n = Some q \<Longrightarrow> plain_answer q" for q by (drule map_of_SomeD) (rule serve_plain)
  with assms Some show ?thesis
    by (cases "map_of (fst (serve ops served chain)) n") (auto simp: fut_at_def served_answered [of _ _ ops chain] plain_answer_def)
qed

text \<open>C36: The queue serializes the changes of the chain: in every run, the chain is what the dispatched items give one after the
  other, no item is dispatched twice, each is the job of the call with its number, and the future of a call that was
  neither refused, expired nor cancelled holds what its item answered there; a refused or expired call was never
  dispatched.\<close>

theorem apply_queue_serial:
  assumes "aq_run ops chain calls served s"
  shows "aq_chain s = snd (serve ops served chain) \<and> distinct (map ai_seq served)
     \<and> (\<forall>i\<in>set served. (ai_seq i, ai_op i) \<in> set calls)
     \<and> (\<forall>n\<in>fst ` set calls. case aq_futures s n of
          None \<Rightarrow> n \<notin> ai_seq ` set served
        | Some r \<Rightarrow> r = AR_Cancelled \<or> (if r \<in> {AR_Rejected, AR_Expired} then n \<notin> ai_seq ` set served
             else map_of (fst (serve ops served chain)) n = Some r))"
proof -
  from run_inv [OF assms] have inv: "aq_inv ops chain calls served s" .
  have "\<forall>i\<in>set served. \<not> is_stop (ai_op i)"
    using assms by (induction rule: aq_run.induct) (auto dest!: run_inv simp: aq_inv_def aq_sched_def)
  then have "\<forall>i\<in>set served. (ai_seq i, ai_op i) \<in> set calls"
    using inv by (force simp: aq_inv_def items_ok_def item_ok_def)
  moreover have "case aq_futures s n of None \<Rightarrow> n \<notin> ai_seq ` set served
     | Some r \<Rightarrow> r = AR_Cancelled \<or> (if r \<in> {AR_Rejected, AR_Expired} then n \<notin> ai_seq ` set served
          else map_of (fst (serve ops served chain)) n = Some r)" if n: "n \<in> fst ` set calls" for n
  proof -
    from inv have "fut_at (map_of (fst (serve ops served chain)) n) (n \<in> ai_seq ` set (aq_held s)) (n \<in> fst ` set calls)
      (n \<le> aq_seq s) (aq_futures s n)" by (simp add: aq_inv_def futs_ok_def)
    then have "fut_at (map_of (fst (serve ops served chain)) n) (n \<in> ai_seq ` set (aq_held s)) True (n \<le> aq_seq s) (aq_futures s n)"
      by (simp only: n)
    then show ?thesis by (rule future_of_call)
  qed
  moreover have "aq_chain s = snd (serve ops served chain)" "distinct (map ai_seq served)"
    using inv by (simp_all add: aq_inv_def items_ok_def)
  ultimately show ?thesis by blast
qed

text \<open>The lanes are kept: when the worker takes a job to run, every job left waiting has a lower priority or, in the same
  lane, was enqueued later.\<close>

theorem apply_lane_order:
  assumes "aq_run ops chain calls served s" "aq_waiting s" "aq_current (worker_take now s) = Some item" "j \<in> set (aq_items (worker_take now s))"
  shows "item \<in> set (aq_items s) \<and> item_before item j"
proof -
  from run_inv [OF assms(1)] have inv: "aq_inv ops chain calls served s" .
  with assms(2) have idle: "aq_current s = None" by (simp add: aq_inv_def aq_sched_def)
  then have ids: "distinct (map ai_seq (aq_items s))" using inv by (simp add: aq_inv_def items_ok_def aq_held_def)
  obtain i "is" where items: "aq_items s = i # is"
    using assms(3) idle by (cases "aq_items s") (auto simp: worker_take_def)
  from assms(3) idle have item: "item = least_item i is"
    by (auto simp: worker_take_def items Let_def set_future_def settle_future_def split: if_splits)
  have "j \<in> set (aq_items s) \<and> ai_seq j \<noteq> ai_seq item"
    using assms(4) item by (auto simp: worker_take_def items Let_def set_future_def settle_future_def split: if_splits)
  with least_item_strict [of i "is" j] ids items item least_item_mem [of i "is"] show ?thesis by auto
qed

text \<open>A turn of a worker that is not stopped, and several of them.\<close>

definition worker_turn :: "('b, 'blk, 'tx) chain_ops \<Rightarrow> int \<Rightarrow> ('b, 'blk, 'tx) apply_queue \<Rightarrow> ('b, 'blk, 'tx) apply_queue" where
  "worker_turn ops now s = worker_finish ops (worker_take now (worker_check s))"

definition aq_idle :: "('b, 'blk, 'tx) apply_queue \<Rightarrow> bool" where
  "aq_idle s \<longleftrightarrow> aq_running s \<and> \<not> aq_waiting s \<and> aq_current s = None"

lemma finish_frame:
  "aq_current (worker_finish ops s) = None" "aq_waiting (worker_finish ops s) = aq_waiting s"
  "aq_running (worker_finish ops s) = aq_running s" "aq_items (worker_finish ops s) = aq_items s"
  by (auto simp: worker_finish_def settle_future_def set_future_def Let_def split: option.split sum.split prod.split)

lemma take_frame:
  "\<not> aq_waiting (worker_take now s)" "aq_running (worker_take now s) = aq_running s"
  "distinct (map ai_seq (aq_items s)) \<Longrightarrow> length (aq_items (worker_take now s)) = length (aq_items s) - 1"
proof -
  show "\<not> aq_waiting (worker_take now s)" "aq_running (worker_take now s) = aq_running s"
    by (auto simp: worker_take_def settle_future_def set_future_def Let_def split: list.split)
  have "length (filter (\<lambda>j. ai_seq j \<noteq> ai_seq x) items) = length items - 1"
    if "distinct (map ai_seq items)" "x \<in> set items" for x and items :: "('b, 'c) apply_item list"
    using that
  proof (induction items)
    case (Cons y ys)
    show ?case
    proof (cases "ai_seq y = ai_seq x")
      case True
      with Cons.prems have "ai_seq x \<notin> ai_seq ` set ys" by simp
      then have "filter (\<lambda>j. ai_seq j \<noteq> ai_seq x) ys = ys" by (metis (mono_tags, lifting) filter_True image_eqI)
      with True show ?thesis by simp
    next
      case False
      with Cons show ?thesis by (cases ys) auto
    qed
  qed simp
  note shorter = this
  show "length (aq_items (worker_take now s)) = length (aq_items s) - 1" if ids: "distinct (map ai_seq (aq_items s))"
  proof (cases "aq_items s")
    case (Cons i "is")
    have "aq_items (worker_take now s) = filter (\<lambda>j. ai_seq j \<noteq> ai_seq (least_item i is)) (aq_items s)"
      by (simp add: worker_take_def Cons settle_future_def set_future_def Let_def)
    then show ?thesis using shorter [OF ids, of "least_item i is"] least_item_mem [of i "is"] Cons by simp
  qed (simp add: worker_take_def)
qed

lemma turn_run:
  assumes "aq_run ops chain calls served s" "aq_idle s"
  shows "\<exists>served'. aq_run ops chain calls served' (worker_turn ops now s)"
    "aq_idle (worker_turn ops now s)" "length (aq_items (worker_turn ops now s)) = length (aq_items s) - 1"
proof -
  from run_inv [OF assms(1)] have inv: "aq_inv ops chain calls served s" .
  then have ids: "distinct (map ai_seq (aq_items s))" and alive: "\<not> aq_worker_done s"
    using assms(2) by (simp_all add: aq_inv_def items_ok_def aq_held_def aq_idle_def aq_sched_def)
  let ?c = "worker_check s" and ?t = "worker_take now (worker_check s)"
  have check: "aq_run ops chain calls served ?c" using assms alive by (auto simp: aq_idle_def intro: aq_run.check)
  moreover have "aq_waiting ?c" "aq_items ?c = aq_items s" "aq_running ?c" using assms(2) by (simp_all add: worker_check_def aq_idle_def)
  ultimately have take: "aq_run ops chain calls served ?t" by (auto intro: aq_run.take)
  show "\<exists>served'. aq_run ops chain calls served' (worker_turn ops now s)"
    using take aq_run.finish [OF take] by (cases "aq_current ?t") (auto simp: worker_turn_def worker_finish_def)
  show "aq_idle (worker_turn ops now s)" "length (aq_items (worker_turn ops now s)) = length (aq_items s) - 1"
    using ids \<open>aq_items ?c = aq_items s\<close> \<open>aq_running ?c\<close> by (simp_all add: worker_turn_def finish_frame take_frame aq_idle_def)
qed

text \<open>C37: Every call is answered: if the queue is not stopped, then after as many turns of the worker as there are jobs waiting,
  at whatever times, the future of every call made so far is set.\<close>

theorem apply_queue_drains:
  assumes "aq_run ops chain calls served s" "aq_running s" "\<not> aq_waiting s" "aq_current s = None" "length (aq_items s) \<le> length ticks"
  shows "\<forall>(n, op)\<in>set calls. aq_futures (foldl (\<lambda>s now. worker_turn ops now s) s ticks) n \<noteq> None"
proof -
  have "aq_run ops chain calls served s \<Longrightarrow> aq_idle s \<Longrightarrow> length (aq_items s) \<le> length ticks \<Longrightarrow>
     (\<exists>served'. aq_run ops chain calls served' (foldl (\<lambda>s now. worker_turn ops now s) s ticks))
       \<and> aq_held (foldl (\<lambda>s now. worker_turn ops now s) s ticks) = []" for s served
  proof (induction ticks arbitrary: s served)
    case Nil
    then show ?case by (auto simp: aq_held_def aq_idle_def)
  next
    case (Cons now ticks)
    from turn_run [OF Cons.prems(1, 2), of now] Cons.prems(3) Cons.IH show ?case by fastforce
  qed
  with assms obtain served' where run: "aq_run ops chain calls served' (foldl (\<lambda>s now. worker_turn ops now s) s ticks)"
    and held: "aq_held (foldl (\<lambda>s now. worker_turn ops now s) s ticks) = []"
    by (auto simp: aq_idle_def)
  show ?thesis
    using run_inv [OF run] held by (force simp: aq_inv_def futs_ok_def fut_at_def)
qed

section \<open>Concrete runs\<close>

text \<open>A chain that counts the imported blocks and a run of it: an import, a reorganisation, one turn of the worker.\<close>

definition count_ops :: "(nat, nat, nat) chain_ops" where
  "count_ops = \<lparr>co_import_block = Some (\<lambda>blk n. (Inr True, n + blk)), co_add_block = (\<lambda>blk n. (Inr True, n + 1)),
     co_create_block = (\<lambda>txs who n. (Inr 0, n)), co_reorg_to_ancestor = (\<lambda>h n. (Inr True, nat h))\<rparr>"

definition two_calls :: "(nat, nat, nat) apply_queue" where
  "two_calls = snd (aq_enqueue 1 (AO_Reorg 7) (snd (aq_enqueue 0 (AO_Import 5) (aq_init 3 8 120))))"

lemma two_calls_run: "aq_run count_ops 3 [(1, AO_Import 5), (2, AO_Reorg 7)] [] two_calls"
proof -
  have "aq_run count_ops 3 ([] @ [(1, AO_Import 5)]) [] (snd (aq_enqueue 0 (AO_Import 5) (aq_init 3 8 120)))"
    by (rule aq_run.enqueue [OF aq_run.start [where maxsize = 8 and timeout_sec = 120]]) (simp_all add: is_stop_def aq_enqueue_def put_job_def aq_init_def)
  then have "aq_run count_ops 3 (([] @ [(1, AO_Import 5)]) @ [(2, AO_Reorg 7)]) [] two_calls"
    by (rule aq_run.enqueue) (simp_all add: is_stop_def aq_enqueue_def put_job_def aq_init_def two_calls_def)
  then show ?thesis by simp
qed

definition reorg_item :: "(nat, nat) apply_item" where
  "reorg_item = \<lparr>ai_priority = 1, ai_seq = 2, ai_op = AO_Reorg 7, ai_deadline = 121\<rparr>"

lemmas two_calls_steps = two_calls_def aq_enqueue_def put_job_def aq_init_def worker_check_def worker_take_def item_before_def
  is_stop_def apply_priority_def reorg_item_def Let_def

lemma two_calls_check: "aq_run count_ops 3 [(1, AO_Import 5), (2, AO_Reorg 7)] [] (worker_check two_calls)"
  by (rule aq_run.check [OF two_calls_run]) (simp_all add: two_calls_def aq_enqueue_def put_job_def aq_init_def)

lemma two_calls_turn: "aq_run count_ops 3 [(1, AO_Import 5), (2, AO_Reorg 7)] [reorg_item] (worker_turn count_ops 2 two_calls)"
proof -
  have "aq_current (worker_take 2 (worker_check two_calls)) = Some reorg_item" by (simp add: two_calls_steps)
  moreover have "aq_waiting (worker_check two_calls)" by code_simp
  ultimately have "aq_run count_ops 3 [(1, AO_Import 5), (2, AO_Reorg 7)] ([] @ [reorg_item])
     (worker_finish count_ops (worker_take 2 (worker_check two_calls)))"
    by (intro aq_run.finish aq_run.take two_calls_check)
  then show ?thesis by (simp add: worker_turn_def)
qed

lemma apply_queue_serial_witness:
  "aq_chain (worker_turn count_ops 2 two_calls) = snd (serve count_ops [reorg_item] 3)
     \<and> map_of (fst (serve count_ops [reorg_item] 3)) 2 = Some (AR_Bool True)"
proof -
  have "aq_futures (worker_turn count_ops 2 two_calls) 2 = Some (AR_Bool True)" by code_simp
  with apply_queue_serial [OF two_calls_turn] show ?thesis by auto
qed

lemma apply_lane_order_witness:
  "reorg_item \<in> set (aq_items (worker_check two_calls))
     \<and> item_before reorg_item \<lparr>ai_priority = 4, ai_seq = 1, ai_op = AO_Import 5, ai_deadline = 120\<rparr>"
proof (rule apply_lane_order [OF two_calls_check])
  show "aq_waiting (worker_check two_calls)" by code_simp
  show "aq_current (worker_take 2 (worker_check two_calls)) = Some reorg_item" by (simp add: two_calls_steps)
  have "aq_items (worker_take 2 (worker_check two_calls)) = [\<lparr>ai_priority = 4, ai_seq = 1, ai_op = AO_Import 5, ai_deadline = 120\<rparr>]"
    by (simp add: two_calls_steps)
  then show "\<lparr>ai_priority = 4, ai_seq = 1, ai_op = AO_Import 5, ai_deadline = 120\<rparr> \<in> set (aq_items (worker_take 2 (worker_check two_calls)))"
    by simp
qed

lemma apply_queue_drains_witness:
  "aq_futures (foldl (\<lambda>s now. worker_turn count_ops now s) two_calls [500, 501]) 1 \<noteq> None
     \<and> aq_futures (foldl (\<lambda>s now. worker_turn count_ops now s) two_calls [500, 501]) 2 \<noteq> None"
proof -
  have "aq_running two_calls" "\<not> aq_waiting two_calls" "aq_current two_calls = None" "length (aq_items two_calls) \<le> length [500, 501 :: int]"
    by (simp_all add: two_calls_steps)
  from apply_queue_drains [OF two_calls_run this] show ?thesis by simp
qed

section \<open>Notes on the waiting side\<close>

text \<open>
  A synchronous caller counts an exception of the job as a timeout, and an asynchronous one that is waiting when it is
  set gets it raised, where the same exception gives False otherwise.
\<close>

lemma failed_job_counted_as_timeout:
  "aq_futures s n = Some (AR_Exception e) \<Longrightarrow>
     aq_timeout_total (snd (result_or_timeout n s)) = aq_timeout_total s + 1
     \<and> submit_answer (fst (result_or_timeout n s)) = Inr False
     \<and> submit_answer (fst (await_job True n s)) = Inr False \<and> submit_answer (fst (await_job False n s)) = Inl e"
  by (simp add: result_or_timeout_def await_job_def submit_answer_def fail_outcome_def)

text \<open>
  A job that started before its deadline is not undone when the wait for it runs out: the import answers False, and the
  block is applied.
\<close>

lemma refused_import_applied:
  "(let s = worker_take 119 (worker_check (snd (aq_enqueue 0 (AO_Import 5) (aq_init 3 8 120))));
        (out, t) = result_or_timeout 1 s
    in submit_answer out = Inr False \<and> aq_chain (worker_finish count_ops t) = 8)"
  by code_simp

text \<open>
  Stopping abandons the waiting jobs: the worker leaves its loop at the next check, and no turn of it sets their futures.
\<close>

lemma stop_abandons_calls:
  "\<not> aq_waiting s \<Longrightarrow> aq_futures (worker_check (aq_stop s)) = aq_futures s \<and> aq_worker_done (worker_check (aq_stop s))"
  by (simp add: aq_stop_def worker_check_def put_job_def Let_def)

end
