(* ===== verification/Spec2Isabelle.thy ===== *)
theory Spec2Isabelle
  imports Prelude Bft BftRound Registry BftPorts BftAgreement TipTypes AncestryWindow LongRange TipSafety
    TipProps Consistency PyVal Fork ForkLaws ForkAdapters ForkProps Bytes Keycodec KeycodecProps Rlp RlpProps
    Ghost GhostProps Lmd Slashing SlashingProps Floats Finality FinalityProps Engines EngineProps EngineNotes
    Amount StateEngine StateProps CrossShard CrossShardProps CatchUp CatchUpLaws CatchUpAdapters EngineIO
    CatchUpBound CatchUpProps TxIdentity Mempool MempoolProps Solicit SolicitProps
    BftLiveness Uint256 Uint256Props EvmBytes Evm EvmExec EvmLaws EvmRun EvmProps EvmNotes NestedCall NestedCallProps
    Merkle MiniVM ContractManager Assembler ApplyQueue FeePlan FloatText PoolLocks ChainTypes ChainStore
begin

text \<open>
  DUP Protocol Experimental is the node of a proof-of-stake blockchain, written in Python. This development
  models the parts of it that decide: which block is agreed on and final, which chain the node follows, what a
  block does to the balances, which transactions enter the pool and a block, how a node catches up with
  its peers, and how the data is encoded. Each theory translates the modules named below into HOL functions over
  explicit states; the theories whose names end in \<open>Props\<close> state what the code promises.

  How the parts interact. A node receives blocks and votes from its peers. A vote goes to the round state
  machine (BFT) or to one of the three consensus engines, which weigh blocks with a fork choice (GHOST over
  latest messages), justify and finalize epochs with a finality gadget and slash validators; the tip-safety
  service decides whether a candidate head may replace the current one, under the weak-subjectivity gate. A node
  that is behind a peer runs the catch-up service, one whose head differs at the same height the fork
  reconciliation service; both drive the node only through ports, whose implementations (the adapters) call the
  blockchain and the network, and both wait for replies in the solicit table. The consistency machine locks the
  node down when its state root disagrees with its peers. An accepted block is applied by the state engine;
  transactions wait in the memory pool under their canonical identity. The store encodes records by the key
  codec, and RLP is the encoding of the virtual machine side.

  Theories and modules.
  \<^item> \<open>Prelude\<close>, \<open>PyVal\<close>, \<open>Floats\<close>: Python strings, dictionaries in insertion order, the monad of state and
    exceptions with its rules \<open>wp_rules\<close>, the locale \<open>component\<close> of a state with an invariant, the values of
    parsed JSON, and IEEE products rounded to 53 bits. \<open>FloatText\<close>: the double nearest to an amount and the shortest text
    Python prints it as; below \<open>2^33\<close> coins the text gives the amount back.
  \<^item> \<open>Bft\<close>, \<open>BftRound\<close>, \<open>Registry\<close>, \<open>BftPorts\<close>, \<open>BftAgreement\<close>: \<open>consensus/bft\<close>, \<open>consensus_engine.py\<close>,
    \<open>consensus/validator_registry.py\<close>, \<open>consensus/registry_adapter.py\<close> and the slashing path of
    \<open>consensus/adapter.py\<close>. Quorum intersection, agreement, the quorum behind a finalization, recorded votes,
    ejection of an equivocator; \<open>BftLiveness\<close>: the votes of a quorum finalize the block in any order.
  \<^item> \<open>TipTypes\<close>, \<open>AncestryWindow\<close>, \<open>LongRange\<close>, \<open>TipSafety\<close>, \<open>TipProps\<close>: \<open>consensus/tip_safety\<close> and the gate of
    \<open>consensus/long_range\<close>. No sequence of candidates reverts the finalized block; application does what
    evaluation answers, and the head stays above the anchor.
  \<^item> \<open>Consistency\<close>: \<open>sync/consistency\<close>, a state machine over events. Trust is given by a green probe and taken by a lockdown
    or an evaluation that is not green; a probing mark keeps the flag of the last evaluation but takes the verdict.
  \<^item> \<open>Fork\<close>, \<open>ForkLaws\<close>, \<open>ForkAdapters\<close>, \<open>ForkProps\<close>: \<open>sync/fork\<close> and \<open>network/fork_adapters.py\<close>. The locale
    \<open>fork_laws\<close> is the contract of the ports; a call makes at most one gated reorganisation per target, and a hostile body is
    answered by evidence, a strike and an exception.
  \<^item> \<open>CatchUp\<close>, \<open>CatchUpLaws\<close>, \<open>CatchUpAdapters\<close>, \<open>EngineIO\<close>, \<open>CatchUpBound\<close>, \<open>CatchUpProps\<close>: \<open>sync/catchup\<close> and
    \<open>network/catchup_adapters.py\<close>. The locale \<open>catchup_laws\<close> gives the steps a call may take on the chain from its cursor, the
    locale \<open>bounded_catchup\<close> when it returns.
  \<^item> \<open>Solicit\<close>, \<open>SolicitProps\<close>: \<open>sync/solicit.py\<close>. Futures are set once, and only by checked replies.
  \<^item> \<open>Ghost\<close>, \<open>Lmd\<close>, \<open>Slashing\<close>, \<open>Finality\<close>, \<open>Engines\<close> with their properties: \<open>consensus/ghost.py\<close>, \<open>lmd.py\<close>,
    \<open>epoch.py\<close>, \<open>slashing.py\<close>, the two finality gadgets and the three engines. The weights of the iterative
    walk are those of subtrees, the head of an engine is the LMD-GHOST head, a validator is slashed exactly for an
    offence. The locales \<open>ffg_gadget\<close> and \<open>fork_choice_engine\<close> carry what the gadgets and engines share.
  \<^item> \<open>Amount\<close>, \<open>StateEngine\<close>, \<open>StateProps\<close>: integer money and \<open>execution/state_engine.py\<close>. Balances and nonces stay
    well-formed, an accepted block is never accepted again.
  \<^item> \<open>TxIdentity\<close>, \<open>Mempool\<close>, \<open>MempoolProps\<close>: \<open>core/tx_identity.py\<close>, the validators and
    \<open>blockchain/mempool.py\<close>. The pool is bounded and an addition does what its answer says; the transactions
    chosen for a block are executable in order.
  \<^item> \<open>FeePlan\<close>, \<open>PoolLocks\<close>, \<open>ChainTypes\<close>, \<open>ChainStore\<close>: the fee plan of \<open>runtime/amount.py\<close>, \<open>runtime/tokenomics.py\<close>
    and \<open>runtime/pool_locks.py\<close>, the transactions and blocks of \<open>core/blockchain.py\<close>, and the accounts, blocks and meta
    keys of \<open>storage/database.py\<close> behind \<open>storage/adapters/rocks_adapter.py\<close> with what the connection commits and rolls
    back. A fee is split exactly, locked pools stay locked, a stored transaction below \<open>2^33\<close> coins is read back as it was up to
    whole satoshi (from there on the floats of the program may lose one), and a failed transaction leaves what its last committing statement left.
  \<^item> \<open>ApplyQueue\<close>: \<open>core/chain_apply_queue.py\<close>, callers and worker as steps on a shared state. It refines serial execution,
    and every call is answered when nobody stops it.
  \<^item> \<open>Uint256\<close>, \<open>EvmBytes\<close>, \<open>Evm\<close>, \<open>EvmExec\<close>, \<open>EvmLaws\<close>, \<open>EvmRun\<close>, \<open>EvmProps\<close>, \<open>EvmNotes\<close>: \<open>evm_interpreter.py\<close> and
    the Python bodies of its kernels in \<open>crypto/native.py\<close>. The head of the stack list is the top of the stack; the
    frame is a state of the monad, the loop is bounded by the gas. The word arithmetic agrees with 256-bit words (four functions under stated restrictions), a call ends
    within its gas, a static frame changes nothing, only instructions are executed; a compiled kernel is assumed to behave. \<open>NestedCall\<close>, \<open>NestedCallProps\<close>: the
    write-back of a nested call moves its value, replaces one storage and changes nothing else.
  \<^item> \<open>MiniVM\<close>, \<open>ContractManager\<close>, \<open>Assembler\<close>: \<open>execution/vm.py\<close>, \<open>execution/contract_manager.py\<close> with its rows in the
    database, and \<open>compiler/assembler.py\<close>. A restarted manager has its contracts again; assembling a printed code gives the
    code.
  \<^item> \<open>Merkle\<close>: the trees of \<open>crypto/merkle.py\<close>. A proof verifies for its item and, unless two hashed strings collide, for no
    other.
  \<^item> \<open>CrossShard\<close>, \<open>CrossShardProps\<close>: \<open>consensus/cross_shard_coordinator.py\<close>. What a quorum rests on, and what a migration moves over
    the store of the chain.
  \<^item> \<open>Bytes\<close>, \<open>Keycodec\<close>, \<open>Rlp\<close> with their properties: \<open>storage/keycodec.py\<close> and the Python RLP codec. Keys of
    distinct records differ and sort as their numbers; RLP round trips and totality.

  State and errors. An object is a record, its methods are functions on it; a method that raises is a value of a sum
  (left is the exception) or of the monad \<open>exs\<close>, whose state survives the exception as the object does. A
  dictionary is an association list in insertion order. Objects outside a component (ports, native kernels, hash
  functions, clocks, network) are parameters, records of functions; properties that need a law of them state it as
  a locale that the adapters' definitions interpret.

  Bounds and termination. Loops over Python iterables are recursions on lists. The walks of the fork choice and
  the download loop of catch-up need not end, so they are partial functions into options, and that they return
  is proved where it holds (trees without cycles, the ports of the synchronisation engine). The RLP decoder
  recurses on the length of the data, which is enough because each item consumes some. The interpreter recurses on its
  gas, which every instruction but a halting one reduces. Integers are unbounded as
  in Python; the fixed-width fields of keys are words with their range checks.

  Not modelled, and why: the HTTP interface, scripts, tests, benchmarks and the explorer (no logic of the
  protocol); the node class \<open>network/p2p_node.py\<close>, transports and TLS (sockets, threads and asyncio; what the
  services use of it are the adapters); the Rust kernels and what only calls them, such as most of \<open>crypto\<close>: where a Python
  body stands in for a kernel, the body is modelled, elsewhere the kernel is a parameter; the handlers of the chain facade
  (\<open>core/blockchain.py\<close> after its two data classes, \<open>core/components\<close>), which the fork and catch-up services see as ports;
  the other tables and engines of the store; the EVM adapter and the precompiled contracts; optional features (NFT, machine-learning, WebAssembly and
  post-quantum labs). Locks are not modelled: a method that holds one is a step. Statistics and log
  lines are left out where nothing reads them.
\<close>

end
